(* ===== verification/Py_Prelude.thy ===== *)
theory Py_Prelude
  imports Main "HOL-Library.Word" "HOL-Library.AList"
begin

text \<open>
  The part of Python that every component of the service uses: exceptions as values,
  bytes, strings, and insertion-ordered dictionaries.

  An expression that may raise has type \<open>'a res\<close>: \<open>Inl\<close> is the exception in flight and
  \<open>Inr\<close> the value.  \<open>bytes\<close> is a list of 8-bit words.  Text is a list of \<open>char\<close>: the code
  builds its text from ASCII, and the one code point outside ASCII it can produce, the
  replacement character of \<open>bytes.decode("ascii", errors="replace")\<close>, is written as the
  character with code 255 (which no ASCII decoding yields).  A dictionary whose order matters
  is an association list updated in place, which is Python's insertion order.
\<close>

section \<open>Exceptions as values\<close>

text \<open>The exception classes the modelled code raises or tells apart.\<close>

datatype py_error =
    ValueError string
  | ModbusProtocolError string
  | ModbusDeviceError nat nat
  | TimeoutError
  | OSError
  | RuntimeError string
  | OverflowError
  | ZeroDivisionError
  | KeyError string
  | IndexError
  | TypeError
  | IncompleteReadError
  | HistoryQueryError string
  | HistoryQueryTooLarge string

type_synonym 'a res = "py_error + 'a"

named_theorems res_simps \<open>rewriting of results\<close>

definition rbind :: "'a res \<Rightarrow> ('a \<Rightarrow> 'b res) \<Rightarrow> 'b res" where
  "rbind m f = (case m of Inl e \<Rightarrow> Inl e | Inr x \<Rightarrow> f x)"

lemma rbind_Inl [simp, res_simps]: "rbind (Inl e) f = Inl e"
  by (simp add: rbind_def)

lemma rbind_Inr [simp, res_simps]: "rbind (Inr x) f = f x"
  by (simp add: rbind_def)

lemma rbind_eq_Inr: "rbind m f = Inr y \<longleftrightarrow> (\<exists>x. m = Inr x \<and> f x = Inr y)"
  by (cases m) auto

lemma rbind_eq_Inl: "rbind m f = Inl e \<longleftrightarrow> m = Inl e \<or> (\<exists>x. m = Inr x \<and> f x = Inl e)"
  by (cases m) auto

lemma rbind_assoc: "rbind (rbind m f) g = rbind m (\<lambda>x. rbind (f x) g)"
  by (cases m) auto

text \<open>A list comprehension or loop that stops at the first exception.\<close>

fun rmap :: "('a \<Rightarrow> 'b res) \<Rightarrow> 'a list \<Rightarrow> 'b list res" where
  "rmap f [] = Inr []"
| "rmap f (x # xs) = rbind (f x) (\<lambda>y. rbind (rmap f xs) (\<lambda>ys. Inr (y # ys)))"

lemma rmap_Inr_length: "rmap f xs = Inr ys \<Longrightarrow> length ys = length xs"
  by (induction xs arbitrary: ys) (auto simp: rbind_eq_Inr)

lemma rmap_Inr_set: "rmap f xs = Inr ys \<Longrightarrow> y \<in> set ys \<Longrightarrow> \<exists>x \<in> set xs. f x = Inr y"
  by (induction xs arbitrary: ys) (auto simp: rbind_eq_Inr)

lemma rmap_total: "(\<And>x. x \<in> set xs \<Longrightarrow> \<exists>y. f x = Inr y) \<Longrightarrow> \<exists>ys. rmap f xs = Inr ys"
proof (induction xs)
  case Nil
  then show ?case by simp
next
  case (Cons x xs)
  then obtain y ys where "f x = Inr y" and "rmap f xs = Inr ys" by fastforce
  then show ?case by simp
qed

section \<open>Bytes\<close>

type_synonym byte = "8 word"
type_synonym bytes = "byte list"
type_synonym u16 = "16 word"

text \<open>\<open>struct.pack(">H", n)\<close> and \<open>struct.pack("<H", n)\<close> for a value that fits 16 bits.\<close>

definition be16 :: "u16 \<Rightarrow> bytes" where
  "be16 w = [ucast (drop_bit 8 w), ucast w]"

definition le16 :: "u16 \<Rightarrow> bytes" where
  "le16 w = [ucast w, ucast (drop_bit 8 w)]"

text \<open>\<open>struct.unpack(">H", [hi, lo])\<close>.\<close>

definition mk16 :: "byte \<Rightarrow> byte \<Rightarrow> u16" where
  "mk16 hi lo = word_of_int (uint hi * 256 + uint lo)"

lemma uint_mk16: "uint (mk16 hi lo) = uint hi * 256 + uint lo"
proof -
  have "uint hi \<le> 255" "uint lo \<le> 255" "0 \<le> uint hi" "0 \<le> uint lo"
    using uint_lt2p [of hi] uint_lt2p [of lo] by auto
  then show ?thesis unfolding mk16_def
    by (subst uint_word_of_int) simp
qed

lemma uint_hi: "uint (ucast (drop_bit 8 w) :: byte) = uint (w :: u16) div 256"
proof -
  have b: "0 \<le> uint w" "uint w < 65536" using uint_lt2p [of w] by simp_all
  have "uint (drop_bit 8 w) = uint w div 256"
    using b by (subst unsigned_drop_bit_eq) (simp add: drop_bit_eq_div take_bit_eq_mod)
  then have "uint (ucast (drop_bit 8 w) :: byte) = uint w div 256 mod 256"
    by (simp only: unsigned_ucast_eq) (simp add: take_bit_eq_mod)
  then show ?thesis using b by simp
qed

lemma uint_lo: "uint (ucast w :: byte) = uint (w :: u16) mod 256"
  by (simp add: unsigned_ucast_eq take_bit_eq_mod)

lemma mk16_be16 [simp]: "mk16 (ucast (drop_bit 8 w)) (ucast w) = w"
proof -
  have "uint (mk16 (ucast (drop_bit 8 w)) (ucast w)) = uint w"
    unfolding uint_mk16 uint_hi by (simp only: uint_lo) simp
  then show ?thesis by (rule word_uint_eqI)
qed

lemma hi_mk16 [simp]: "ucast (drop_bit 8 (mk16 hi lo)) = hi"
proof -
  have "uint lo < 256" using uint_lt2p [of lo] by simp
  then have "uint (ucast (drop_bit 8 (mk16 hi lo)) :: byte) = uint hi"
    by (simp add: uint_hi uint_mk16)
  then show ?thesis by (rule word_uint_eqI)
qed

lemma lo_mk16 [simp]: "ucast (mk16 hi lo) = lo"
proof -
  have "uint lo < 256" using uint_lt2p [of lo] by simp
  then have "uint (ucast (mk16 hi lo) :: byte) = uint lo"
    by (simp add: uint_lo uint_mk16)
  then show ?thesis by (rule word_uint_eqI)
qed

lemma length_be16 [simp]: "length (be16 w) = 2"
  by (simp add: be16_def)

lemma length_le16 [simp]: "length (le16 w) = 2"
  by (simp add: le16_def)

section \<open>Masks\<close>

unbundle bit_operations_syntax

named_theorems mask_simps \<open>masks and shifts as arithmetic\<close>

lemma and_FFFF [mask_simps]: "(v :: int) AND 0xFFFF = v mod 65536"
  using take_bit_eq_mask [of 16 v] by (simp add: take_bit_eq_mod mask_eq_exp_minus_1)

lemma and_FF [mask_simps]: "(v :: int) AND 0xFF = v mod 256"
  using take_bit_eq_mask [of 8 v] by (simp add: take_bit_eq_mod mask_eq_exp_minus_1)

lemma and_F [mask_simps]: "(v :: int) AND 0xF = v mod 16"
  using take_bit_eq_mask [of 4 v] by (simp add: take_bit_eq_mod mask_eq_exp_minus_1)

end
