(* ===== verification/Py_Float.thy ===== *)
theory Py_Float
  imports Complex_Main "HOL-Library.Log_Nat" Py_Prelude
begin

text \<open>
  Python's \<open>float\<close>: IEEE-754 binary64 with round-to-nearest, ties to even.

  A finite float is the rational number it denotes, and every operation is the exact rational
  operation followed by the rounding \<open>fl\<close>; overflow gives an infinity.  Negative zero is
  identified with zero, which no operation of the modelled code tells apart.  The lemmas state
  what proofs about rounded arithmetic need: \<open>rnd\<close> is monotone, odd, and exact on every
  number with a 53-bit significand.
\<close>

section \<open>Rounding to the nearest integer, ties to even\<close>

definition rhe :: "rat \<Rightarrow> int" where
  "rhe x = (let f = \<lfloor>x\<rfloor>; d = x - of_int f in
     if d < 1 / 2 then f else if d > 1 / 2 then f + 1 else if even f then f else f + 1)"

lemma rhe_of_int [simp]: "rhe (of_int n) = n"
  by (simp add: rhe_def Let_def)

lemma rhe_floor: "rhe x = \<lfloor>x\<rfloor> \<or> rhe x = \<lfloor>x\<rfloor> + 1"
  by (simp add: rhe_def Let_def)

lemma rhe_mono:
  assumes "x \<le> y" shows "rhe x \<le> rhe y"
proof (cases "\<lfloor>x\<rfloor> = \<lfloor>y\<rfloor>")
  case True
  with assms show ?thesis by (auto simp: rhe_def Let_def)
next
  case False
  with floor_mono [OF assms] have "\<lfloor>x\<rfloor> + 1 \<le> \<lfloor>y\<rfloor>" by linarith
  with rhe_floor [of x] rhe_floor [of y] show ?thesis by linarith
qed

lemma rhe_minus: "rhe (- x) = - rhe x"
proof (cases "x \<in> \<int>")
  case True
  then obtain n where "x = of_int n" by (auto elim: Ints_cases)
  then have "- x = of_int (- n)" by simp
  with \<open>x = of_int n\<close> show ?thesis by (metis rhe_of_int)
next
  case False
  then have n: "of_int \<lfloor>x\<rfloor> \<noteq> x" by (metis Ints_of_int)
  then have l: "of_int \<lfloor>x\<rfloor> < x" by (simp add: less_le)
  have u: "x < of_int \<lfloor>x\<rfloor> + 1" using floor_correct [of x] by simp
  have f: "\<lfloor>- x\<rfloor> = - \<lfloor>x\<rfloor> - 1"
    using l u by (intro floor_unique) simp_all
  show ?thesis
    unfolding rhe_def Let_def f using l u by (auto simp: field_simps)
qed

lemma rhe_near: "\<bar>of_int (rhe x) - x\<bar> \<le> 1 / 2"
proof -
  have "of_int \<lfloor>x\<rfloor> \<le> x" "x < of_int \<lfloor>x\<rfloor> + 1"
    using floor_correct [of x] by simp_all
  then show ?thesis unfolding rhe_def Let_def by (auto simp: abs_le_iff)
qed

section \<open>The binary exponent\<close>

definition flog2 :: "rat \<Rightarrow> int" where
  "flog2 x = (let (p, q) = quotient_of x; e = bitlen p - bitlen q in
     if 2 powi e \<le> x then e else e - 1)"

lemma bitlen_powi:
  assumes "0 < n"
  shows "2 powi (bitlen n - 1) \<le> (of_int n :: rat)" "(of_int n :: rat) < 2 powi (bitlen n)"
proof -
  have b: "2 ^ nat (bitlen n - 1) \<le> n" "n < 2 ^ nat (bitlen n)"
    using bitlen_bounds [OF assms] by simp_all
  have p: "0 < bitlen n" using assms bitlen_nonneg [of n] bitlen_eq_zero_iff [of n] by linarith
  from b(1) have "(2 :: rat) ^ nat (bitlen n - 1) \<le> of_int n"
    by (metis of_int_le_iff of_int_numeral of_int_power)
  with p show "2 powi (bitlen n - 1) \<le> (of_int n :: rat)" by (simp add: power_int_def)
  from b(2) have "of_int n < (2 :: rat) ^ nat (bitlen n)"
    by (metis of_int_less_iff of_int_numeral of_int_power)
  with p show "(of_int n :: rat) < 2 powi (bitlen n)" by (simp add: power_int_def)
qed

lemma flog2_bounds:
  assumes "0 < x"
  shows "2 powi (flog2 x) \<le> x" "x < 2 powi (flog2 x + 1)"
proof -
  obtain p q where pq: "quotient_of x = (p, q)" by (cases "quotient_of x")
  have q: "0 < q" using quotient_of_denom_pos [OF pq] .
  have x: "x = of_int p / of_int q" using quotient_of_div [OF pq] .
  with assms q have p: "0 < p" by (simp add: zero_less_divide_iff)
  let ?e = "bitlen p - bitlen q"
  have P: "2 powi (bitlen p - 1) \<le> (of_int p :: rat)" "(of_int p :: rat) < 2 powi (bitlen p)"
    and Q: "2 powi (bitlen q - 1) \<le> (of_int q :: rat)" "(of_int q :: rat) < 2 powi (bitlen q)"
    using bitlen_powi [OF p] bitlen_powi [OF q] by simp_all
  have Q0: "(0 :: rat) < of_int q" using q by simp
  have "x * 2 powi (bitlen q - 1) \<le> of_int p"
    using Q(1) Q0 assms by (simp add: x field_simps)
  also have "\<dots> < 2 powi (?e + 1) * 2 powi (bitlen q - 1)"
    using P(2) by (simp flip: power_int_add)
  finally have up: "x < 2 powi (?e + 1)"
    by (simp add: mult_less_cancel_right)
  have "2 powi (?e - 1) * of_int q \<le> 2 powi (?e - 1) * (2 powi (bitlen q) :: rat)"
    using Q(2) by (intro mult_left_mono) simp_all
  also have "\<dots> = 2 powi (bitlen p - 1)" by (simp flip: power_int_add)
  also have "\<dots> \<le> x * of_int q" using P(1) Q0 by (simp add: x)
  finally have lo: "2 powi (?e - 1) \<le> x" using Q0 by (simp add: mult_le_cancel_right)
  show "2 powi (flog2 x) \<le> x" "x < 2 powi (flog2 x + 1)"
    using up lo by (auto simp: flog2_def pq Let_def)
qed

lemma powi_less: "a < b \<Longrightarrow> (2 :: rat) powi a < 2 powi b"
  by (rule power_int_strict_increasing) simp_all

lemma powi_less_iff: "(2 :: rat) powi a < 2 powi b \<longleftrightarrow> a < b"
  using powi_less [of a b] powi_less [of b a] by (cases a b rule: linorder_cases) auto

lemma powi_le_iff: "(2 :: rat) powi a \<le> 2 powi b \<longleftrightarrow> a \<le> b"
  by (simp add: powi_less_iff flip: not_less)

lemma flog2_mono: "0 < x \<Longrightarrow> x \<le> y \<Longrightarrow> flog2 x \<le> flog2 y"
proof -
  assume "0 < x" "x \<le> y"
  then have "(2 :: rat) powi (flog2 x) < 2 powi (flog2 y + 1)"
    using flog2_bounds [of x] flog2_bounds [of y] by linarith
  then show ?thesis by (simp add: powi_less_iff)
qed

section \<open>Rounding to 53 significant bits\<close>

definition rexp :: "rat \<Rightarrow> int" where
  "rexp x = max (flog2 \<bar>x\<bar> - 52) (- 1074)"

definition rnd :: "rat \<Rightarrow> rat" where
  "rnd x = (if x = 0 then 0 else of_int (rhe (x / 2 powi (rexp x))) * 2 powi (rexp x))"

lemma rnd_0 [simp]: "rnd 0 = 0"
  by (simp add: rnd_def)

lemma rexp_minus [simp]: "rexp (- x) = rexp x"
  by (simp add: rexp_def)

lemma rnd_minus: "rnd (- x) = - rnd x"
  by (simp add: rnd_def rhe_minus)

text \<open>A multiple of the unit in the last place is a fixed point; any bound that is one bounds the rounding.\<close>

lemma rnd_grid: "x = of_int n * 2 powi (rexp x) \<Longrightarrow> rnd x = x"
proof -
  assume x: "x = of_int n * 2 powi (rexp x)"
  then have "x / 2 powi (rexp x) = of_int n" by (simp only: divide_eq_eq) simp
  with x show ?thesis by (simp add: rnd_def)
qed

lemma rnd_le_grid:
  assumes "x \<le> of_int n * 2 powi (rexp x)" "x \<noteq> 0"
  shows "rnd x \<le> of_int n * 2 powi (rexp x)"
proof -
  have "x / 2 powi (rexp x) \<le> of_int n" using assms(1) by (simp add: divide_le_eq)
  then have "rhe (x / 2 powi (rexp x)) \<le> n" by (metis rhe_mono rhe_of_int)
  then have "of_int (rhe (x / 2 powi (rexp x))) * 2 powi (rexp x) \<le> of_int n * (2 :: rat) powi (rexp x)"
    by (intro mult_right_mono) simp_all
  with assms(2) show ?thesis by (simp add: rnd_def)
qed

lemma rnd_ge_grid:
  assumes "of_int n * 2 powi (rexp x) \<le> x" "x \<noteq> 0"
  shows "of_int n * 2 powi (rexp x) \<le> rnd x"
proof -
  have "of_int n \<le> x / 2 powi (rexp x)" using assms(1) by (simp add: le_divide_eq)
  then have "n \<le> rhe (x / 2 powi (rexp x))" by (metis rhe_mono rhe_of_int)
  then have "of_int n * (2 :: rat) powi (rexp x) \<le> of_int (rhe (x / 2 powi (rexp x))) * 2 powi (rexp x)"
    by (intro mult_right_mono) simp_all
  with assms(2) show ?thesis by (simp add: rnd_def)
qed

lemma rnd_nonneg: "0 \<le> x \<Longrightarrow> 0 \<le> rnd x"
  using rnd_ge_grid [of 0 x] by (cases "x = 0") auto

lemma powi_grid: "a \<le> b \<Longrightarrow> \<exists>n. (2 :: rat) powi b = of_int n * 2 powi a"
proof -
  assume "a \<le> b"
  then have "(2 :: rat) powi b = 2 powi (b - a) * 2 powi a" by (simp flip: power_int_add)
  also have "(2 :: rat) powi (b - a) = of_int (2 ^ nat (b - a))"
    using \<open>a \<le> b\<close> by (simp add: power_int_def)
  finally show ?thesis by blast
qed

lemma rnd_mono_pos:
  assumes "0 < x" "x \<le> y" shows "rnd x \<le> rnd y"
proof (cases "rexp x = rexp y")
  case True
  have "x / 2 powi (rexp x) \<le> y / 2 powi (rexp x)"
    using assms(2) by (intro divide_right_mono) simp_all
  then have "rhe (x / 2 powi (rexp x)) \<le> rhe (y / 2 powi (rexp x))" by (rule rhe_mono)
  with assms True show ?thesis by (simp add: rnd_def)
next
  case False
  have m: "flog2 x \<le> flog2 y" using assms by (rule flog2_mono)
  with False assms have e: "rexp x \<le> flog2 y" "rexp y = flog2 y - 52" "flog2 x < flog2 y"
    by (auto simp: rexp_def)
  then have l: "rexp y \<le> flog2 y" by simp
  have "x < 2 powi (flog2 x + 1)" using flog2_bounds assms by blast
  also have "\<dots> \<le> 2 powi (flog2 y)" using e by (simp add: powi_le_iff)
  finally have xb: "x \<le> 2 powi (flog2 y)" by simp
  have yb: "2 powi (flog2 y) \<le> y" using flog2_bounds assms by simp
  obtain n where n: "(2 :: rat) powi (flog2 y) = of_int n * 2 powi (rexp x)"
    using powi_grid [OF e(1)] by blast
  obtain k where k: "(2 :: rat) powi (flog2 y) = of_int k * 2 powi (rexp y)"
    using powi_grid [OF l] by blast
  have "rnd x \<le> 2 powi (flog2 y)"
    using rnd_le_grid [of x n] xb assms unfolding n by simp
  also have "\<dots> \<le> rnd y"
    using rnd_ge_grid [of k y] yb assms unfolding k by simp
  finally show ?thesis .
qed

lemma rnd_mono: "x \<le> y \<Longrightarrow> rnd x \<le> rnd y"
proof (cases x "0 :: rat" rule: linorder_cases)
  case greater
  then show "x \<le> y \<Longrightarrow> rnd x \<le> rnd y" by (simp add: rnd_mono_pos)
next
  case equal
  then show "x \<le> y \<Longrightarrow> rnd x \<le> rnd y" by (simp add: rnd_nonneg)
next
  case less
  assume xy: "x \<le> y"
  show "rnd x \<le> rnd y"
  proof (cases "y < 0")
    case True
    then have "rnd (- y) \<le> rnd (- x)" using xy by (intro rnd_mono_pos) simp_all
    then show ?thesis by (simp add: rnd_minus)
  next
    case False
    have "0 \<le> rnd (- x)" using less by (intro rnd_nonneg) simp
    moreover have "0 \<le> rnd y" using False by (intro rnd_nonneg) simp
    ultimately show ?thesis by (simp add: rnd_minus)
  qed
qed

text \<open>Every number with a significand of at most 53 bits is represented exactly.\<close>

lemma rnd_exact:
  assumes "\<bar>m\<bar> \<le> 2 ^ 53" "- 1074 \<le> k"
  shows "rnd (of_int m * 2 powi k) = of_int m * 2 powi k" (is "rnd ?x = _")
proof (cases "m = 0")
  case False
  then have ax: "\<bar>?x\<bar> = of_int \<bar>m\<bar> * 2 powi k" "0 < \<bar>?x\<bar>" by (simp_all add: abs_mult)
  show ?thesis
  proof (cases "rexp ?x \<le> k")
    case True
    then obtain n where n: "(2 :: rat) powi k = of_int n * 2 powi (rexp ?x)"
      using powi_grid by blast
    have "?x = of_int (m * n) * 2 powi (rexp ?x)" using n by simp
    then show ?thesis by (rule rnd_grid)
  next
    case False
    with assms(2) have e: "rexp ?x = flog2 \<bar>?x\<bar> - 52" "k + 1 \<le> rexp ?x"
      by (auto simp: rexp_def split: if_splits)
    have "2 powi (k + 53) \<le> (2 :: rat) powi (flog2 \<bar>?x\<bar>)" using e by (simp add: powi_le_iff)
    also have "\<dots> \<le> of_int \<bar>m\<bar> * 2 powi k" using flog2_bounds(1) [OF ax(2)] ax(1) by simp
    finally have "2 powi 53 * 2 powi k \<le> of_int \<bar>m\<bar> * (2 :: rat) powi k"
      by (simp add: power_int_add mult.commute)
    then have "(2 :: rat) ^ 53 \<le> of_int \<bar>m\<bar>" by (simp add: mult_le_cancel_right)
    then have "2 ^ 53 \<le> \<bar>m\<bar>"
      by (metis of_int_le_iff of_int_numeral of_int_power)
    with assms(1) have m: "\<bar>m\<bar> = 2 ^ 53" by simp
    with ax(1) have x53: "\<bar>?x\<bar> = 2 powi (k + 53)" by (simp add: power_int_add)
    have "(2 :: rat) powi (flog2 \<bar>?x\<bar>) \<le> 2 powi (k + 53)"
      using flog2_bounds(1) [OF ax(2)] x53 by simp
    then have r: "rexp ?x = k + 1" using e by (simp add: powi_le_iff)
    have "m = 2 ^ 53 \<or> m = - (2 ^ 53)" using m by linarith
    then have "m = 2 * (m div 2)" by auto
    then have "(of_int m :: rat) = of_int (m div 2) * 2"
      by (metis mult.commute of_int_mult of_int_numeral)
    then have "?x = of_int (m div 2) * 2 powi (k + 1)"
      by (simp add: power_int_add mult.commute mult.left_commute)
    then show ?thesis using r by (intro rnd_grid) simp
  qed
qed simp

lemma rnd_int: "\<bar>m\<bar> \<le> 2 ^ 53 \<Longrightarrow> rnd (of_int m) = of_int m"
  using rnd_exact [of m 0] by simp

lemma rnd_dyadic: "\<bar>m\<bar> \<le> 2 ^ 53 \<Longrightarrow> k \<le> 1074 \<Longrightarrow> rnd (of_int m / 2 ^ k) = of_int m / 2 ^ k"
  using rnd_exact [of m "- int k"] by (simp add: power_int_minus field_simps)

text \<open>Rounding a rounded number changes nothing.\<close>

lemma rhe_abs_le: "\<bar>y\<bar> \<le> of_int m \<Longrightarrow> \<bar>rhe y\<bar> \<le> m"
  using rhe_mono [of y "of_int m"] rhe_mono [of "of_int (- m)" y] by (simp add: abs_le_iff rhe_minus)

lemma rnd_idem: "rnd (rnd x) = rnd x"
proof (cases "x = 0")
  case False
  let ?e = "rexp x" and ?f = "flog2 \<bar>x\<bar>"
  have "\<bar>x\<bar> < 2 powi (?f + 1)" using flog2_bounds [of "\<bar>x\<bar>"] False by simp
  moreover have "2 powi (?f + 1) \<le> (2 :: rat) powi (53 + ?e)"
    unfolding powi_le_iff by (simp add: rexp_def)
  moreover have "(2 :: rat) powi (53 + ?e) = 2 ^ 53 * 2 powi ?e"
    by (subst power_int_add) simp_all
  ultimately have "\<bar>x\<bar> \<le> 2 ^ 53 * 2 powi ?e" by linarith
  then have "\<bar>x / 2 powi ?e\<bar> \<le> of_int (2 ^ 53)" by (simp add: abs_divide divide_le_eq)
  then have "\<bar>rhe (x / 2 powi ?e)\<bar> \<le> 2 ^ 53" by (rule rhe_abs_le)
  moreover have "- 1074 \<le> ?e" by (simp add: rexp_def)
  ultimately have "rnd (of_int (rhe (x / 2 powi ?e)) * 2 powi ?e) = of_int (rhe (x / 2 powi ?e)) * 2 powi ?e"
    by (rule rnd_exact)
  then show ?thesis using False by (simp add: rnd_def [of x])
qed simp

section \<open>The float type and its arithmetic\<close>

datatype pyfloat = Fin rat | PosInf | NegInf | NaN

definition fl :: "rat \<Rightarrow> pyfloat" where
  "fl x = (let r = rnd x in
     if 2 ^ 1024 \<le> r then PosInf else if r \<le> - (2 ^ 1024) then NegInf else Fin r)"

definition inf_of :: "bool \<Rightarrow> pyfloat" where
  "inf_of pos = (if pos then PosInf else NegInf)"

fun fneg :: "pyfloat \<Rightarrow> pyfloat" where
  "fneg (Fin a) = Fin (- a)"
| "fneg PosInf = NegInf"
| "fneg NegInf = PosInf"
| "fneg NaN = NaN"

fun fadd :: "pyfloat \<Rightarrow> pyfloat \<Rightarrow> pyfloat" where
  "fadd (Fin a) (Fin b) = fl (a + b)"
| "fadd NaN _ = NaN"
| "fadd _ NaN = NaN"
| "fadd PosInf NegInf = NaN"
| "fadd NegInf PosInf = NaN"
| "fadd PosInf _ = PosInf"
| "fadd _ PosInf = PosInf"
| "fadd NegInf _ = NegInf"
| "fadd _ NegInf = NegInf"

definition fsub :: "pyfloat \<Rightarrow> pyfloat \<Rightarrow> pyfloat" where
  "fsub a b = fadd a (fneg b)"

fun fmul :: "pyfloat \<Rightarrow> pyfloat \<Rightarrow> pyfloat" where
  "fmul (Fin a) (Fin b) = fl (a * b)"
| "fmul NaN _ = NaN"
| "fmul _ NaN = NaN"
| "fmul (Fin a) i = (if a = 0 then NaN else inf_of ((0 < a) = (i = PosInf)))"
| "fmul i (Fin a) = (if a = 0 then NaN else inf_of ((0 < a) = (i = PosInf)))"
| "fmul i j = inf_of (i = j)"

fun fdiv :: "pyfloat \<Rightarrow> pyfloat \<Rightarrow> pyfloat res" where
  "fdiv a (Fin b) =
     (if b = 0 then Inl ZeroDivisionError
      else Inr (case a of
        Fin x \<Rightarrow> fl (x / b)
      | NaN \<Rightarrow> NaN
      | i \<Rightarrow> inf_of ((0 < b) = (i = PosInf))))"
| "fdiv a NaN = Inr NaN"
| "fdiv a i = Inr (case a of Fin x \<Rightarrow> Fin 0 | _ \<Rightarrow> NaN)"

fun fabs :: "pyfloat \<Rightarrow> pyfloat" where
  "fabs (Fin a) = Fin \<bar>a\<bar>"
| "fabs NaN = NaN"
| "fabs _ = PosInf"

text \<open>Comparisons: every comparison with a NaN is false.\<close>

fun fle :: "pyfloat \<Rightarrow> pyfloat \<Rightarrow> bool" where
  "fle NaN _ = False"
| "fle _ NaN = False"
| "fle (Fin a) (Fin b) = (a \<le> b)"
| "fle NegInf _ = True"
| "fle _ PosInf = True"
| "fle _ _ = False"

fun flt :: "pyfloat \<Rightarrow> pyfloat \<Rightarrow> bool" where
  "flt NaN _ = False"
| "flt _ NaN = False"
| "flt (Fin a) (Fin b) = (a < b)"
| "flt NegInf b = (b \<noteq> NegInf)"
| "flt a PosInf = (a \<noteq> PosInf)"
| "flt _ _ = False"

definition feq :: "pyfloat \<Rightarrow> pyfloat \<Rightarrow> bool" where
  "feq a b = (a = b \<and> a \<noteq> NaN)"

definition fis_finite :: "pyfloat \<Rightarrow> bool" where
  "fis_finite a = (case a of Fin _ \<Rightarrow> True | _ \<Rightarrow> False)"

text \<open>\<open>max(a, b)\<close> and \<open>min(a, b)\<close>: the first argument unless the second is strictly better.\<close>

definition fmax :: "pyfloat \<Rightarrow> pyfloat \<Rightarrow> pyfloat" where
  "fmax a b = (if flt a b then b else a)"

definition fmin :: "pyfloat \<Rightarrow> pyfloat \<Rightarrow> pyfloat" where
  "fmin a b = (if flt b a then b else a)"

text \<open>\<open>float(n)\<close> of an integer, and the conversion in a mixed operation: it raises on overflow.\<close>

definition float_of_int :: "int \<Rightarrow> pyfloat res" where
  "float_of_int n = (case fl (of_int n) of Fin r \<Rightarrow> Inr (Fin r) | _ \<Rightarrow> Inl OverflowError)"

text \<open>True division of two integers: correctly rounded.\<close>

definition int_truediv :: "int \<Rightarrow> int \<Rightarrow> pyfloat res" where
  "int_truediv a b =
     (if b = 0 then Inl ZeroDivisionError
      else case fl (of_int a / of_int b) of Fin r \<Rightarrow> Inr (Fin r) | _ \<Rightarrow> Inl OverflowError)"

text \<open>\<open>int(x)\<close> truncates towards zero.\<close>

definition int_of_float :: "pyfloat \<Rightarrow> int res" where
  "int_of_float x = (case x of
     Fin a \<Rightarrow> Inr (if 0 \<le> a then \<lfloor>a\<rfloor> else \<lceil>a\<rceil>)
   | NaN \<Rightarrow> Inl (ValueError ''cannot convert float NaN to integer'')
   | _ \<Rightarrow> Inl OverflowError)"

text \<open>\<open>round(x, n)\<close>: the exact value rounded to \<open>n\<close> decimals, then to the nearest float.\<close>

definition fround :: "pyfloat \<Rightarrow> nat \<Rightarrow> pyfloat" where
  "fround x n = (case x of Fin a \<Rightarrow> fl (of_int (rhe (a * 10 ^ n)) / 10 ^ n) | i \<Rightarrow> i)"

text \<open>
  \<open>sum(xs)\<close> over floats: from Python 3.12 on (the version the project requires) the built-in
  keeps a running compensation (Neumaier) next to the running total.
\<close>

definition cs_add :: "pyfloat \<times> pyfloat \<Rightarrow> pyfloat \<Rightarrow> pyfloat \<times> pyfloat" where
  "cs_add s x = (let (hi, lo) = s; t = fadd hi x in
     if fle (fabs x) (fabs hi) then (t, fadd lo (fadd (fsub hi t) x))
     else (t, fadd lo (fadd (fsub x t) hi)))"

definition fsum :: "pyfloat list \<Rightarrow> pyfloat" where
  "fsum xs = (let (hi, lo) = foldl cs_add (Fin 0, Fin 0) xs in
     if lo \<noteq> Fin 0 \<and> fis_finite lo then fadd hi lo else hi)"

section \<open>Facts about floats\<close>

named_theorems float_simps \<open>exact results of float operations\<close>

lemma fl_eq_FinI: "rnd x = r \<Longrightarrow> \<bar>r\<bar> < 2 ^ 1024 \<Longrightarrow> fl x = Fin r"
  by (simp add: fl_def Let_def abs_less_iff)

lemma fl_Fin_rnd: "fl x = Fin r \<Longrightarrow> r = rnd x"
  by (auto simp: fl_def Let_def split: if_splits)

lemma fl_0 [simp, float_simps]: "fl 0 = Fin 0"
  by (rule fl_eq_FinI) simp_all

lemma fl_exact:
  assumes "\<bar>m\<bar> \<le> 2 ^ 53" "k \<le> 1074" shows "fl (of_int m / 2 ^ k) = Fin (of_int m / 2 ^ k)"
proof (rule fl_eq_FinI)
  show "rnd (of_int m / 2 ^ k) = of_int m / 2 ^ k" using assms by (rule rnd_dyadic)
  have "\<bar>of_int m / 2 ^ k\<bar> \<le> (of_int \<bar>m\<bar> :: rat)"
    by (simp add: abs_divide divide_le_eq mult_left_le_one_le mult_le_cancel_left1)
  also have "\<dots> \<le> of_int (2 ^ 53)" using assms(1) by (rule of_int_le_iff [THEN iffD2])
  also have "\<dots> < 2 ^ 1024" by simp
  finally show "\<bar>of_int m / 2 ^ k\<bar> < (2 :: rat) ^ 1024" .
qed

lemma fl_int: "\<bar>m\<bar> \<le> 2 ^ 53 \<Longrightarrow> fl (of_int m) = Fin (of_int m)"
  using fl_exact [of m 0] by simp

lemma float_of_int_exact: "\<bar>m\<bar> \<le> 2 ^ 53 \<Longrightarrow> float_of_int m = Inr (Fin (of_int m))"
  by (simp add: float_of_int_def fl_int)

text \<open>Rounding never crosses a number that is itself represented.\<close>

lemma fl_le: "fle a (Fin x) \<Longrightarrow> x \<le> y \<Longrightarrow> fl x = Fin x \<Longrightarrow> fle a (fl y)"
proof -
  assume a: "fle a (Fin x)" and "x \<le> y" and "fl x = Fin x"
  then have y: "x \<le> rnd y" using rnd_mono [of x y] fl_Fin_rnd [of x x] by simp
  have "- (2 ^ 1024) < x"
    using \<open>fl x = Fin x\<close> by (auto simp: fl_def Let_def simp del: power_numeral split: if_splits)
  from this y have "- (2 ^ 1024) < rnd y" by (rule less_le_trans)
  with a y show ?thesis
    by (cases a) (auto simp: fl_def Let_def simp del: power_numeral split: if_splits)
qed

lemma fl_mono: "x \<le> y \<Longrightarrow> fle (fl x) (fl y)"
  using rnd_mono [of x y] by (auto simp: fl_def Let_def)

lemma fl_ne_NaN [simp]: "fl x \<noteq> NaN"
  by (simp add: fl_def Let_def)

text \<open>A value that is a double: rounding leaves it alone.  Every operation returns one.\<close>

definition is_double :: "pyfloat \<Rightarrow> bool" where
  "is_double x = (case x of Fin a \<Rightarrow> fl a = Fin a | _ \<Rightarrow> True)"

lemma is_double_fl [simp]: "is_double (fl x)"
  by (simp add: is_double_def fl_def Let_def rnd_idem)

lemma is_double_inf_of [simp]: "is_double (inf_of b)"
  by (simp add: is_double_def inf_of_def)

lemma is_double_special [simp]: "is_double PosInf" "is_double NegInf" "is_double NaN" "is_double (Fin 0)"
  by (simp_all add: is_double_def)

lemma is_double_fmul [simp]: "is_double (fmul a b)"
  by (cases a; cases b) simp_all

lemma is_double_fadd [simp]: "is_double (fadd a b)"
  by (cases a; cases b) simp_all

lemma is_double_Fin: "is_double (Fin a) \<longleftrightarrow> fl a = Fin a"
  by (simp add: is_double_def)

lemma fle_refl [simp]: "fle a a \<longleftrightarrow> a \<noteq> NaN"
  by (cases a) auto

lemma fle_trans: "fle a b \<Longrightarrow> fle b c \<Longrightarrow> fle a c"
  by (cases a; cases b; cases c) auto

lemma flt_iff_not_fle: "a \<noteq> NaN \<Longrightarrow> b \<noteq> NaN \<Longrightarrow> flt a b \<longleftrightarrow> \<not> fle b a"
  by (cases a; cases b) auto

lemma flt_imp_fle: "flt a b \<Longrightarrow> fle a b"
  by (cases a; cases b) auto

lemma fle_linear: "a \<noteq> NaN \<Longrightarrow> b \<noteq> NaN \<Longrightarrow> fle a b \<or> fle b a"
  by (cases a; cases b) auto

lemma fle_antisym: "fle a b \<Longrightarrow> fle b a \<Longrightarrow> a = b"
  by (cases a; cases b) auto

lemma fle_flt_trans: "fle a b \<Longrightarrow> flt b c \<Longrightarrow> flt a c"
  by (cases a; cases b; cases c) auto

lemma flt_fle_trans: "flt a b \<Longrightarrow> fle b c \<Longrightarrow> flt a c"
  by (cases a; cases b; cases c) auto

lemma flt_irrefl [simp]: "\<not> flt a a"
  by (cases a) auto

lemma flt_not_NaN: "flt a b \<Longrightarrow> a \<noteq> NaN \<and> b \<noteq> NaN"
  by (cases a; cases b) auto

text \<open>The clamp \<open>max(lo, min(hi, x))\<close> of the code, whatever \<open>x\<close> is.\<close>

lemma fclamp_bounds:
  assumes "fle lo hi"
  shows "fle lo (fmax lo (fmin hi x)) \<and> fle (fmax lo (fmin hi x)) hi"
proof -
  have n: "lo \<noteq> NaN" "hi \<noteq> NaN" using assms by (cases lo; cases hi; simp)+
  then show ?thesis using assms
    by (auto simp: fmax_def fmin_def dest: flt_imp_fle)
qed

end
