(* ===== verification/Py_Text.thy ===== *)
theory Py_Text
  imports Py_Float "HOL-Library.Sublist"
begin

text \<open>
  The string operations of the standard library that the service uses, on ASCII text:
  decimal and hexadecimal formatting, \<open>strip\<close>, \<open>lower\<close>, prefix tests, substring tests,
  \<open>re.findall(r"\d+")\<close> with \<open>int\<close>, the normalisation \<open>re.sub(r"[^a-z0-9]+", " ", ...)\<close>,
  and the fixed-point format \<open>f"{x:.2f}"\<close>.
\<close>

section \<open>Characters\<close>

definition code_of :: "char \<Rightarrow> nat" where
  "code_of c = of_char c"

definition chr :: "nat \<Rightarrow> char" where
  "chr n = char_of n"

lemma code_of_chr [simp]: "n < 256 \<Longrightarrow> code_of (chr n) = n"
  by (simp add: code_of_def chr_def)

definition is_digit :: "char \<Rightarrow> bool" where
  "is_digit c = (48 \<le> code_of c \<and> code_of c \<le> 57)"

definition is_lower :: "char \<Rightarrow> bool" where
  "is_lower c = (97 \<le> code_of c \<and> code_of c \<le> 122)"

definition is_upper :: "char \<Rightarrow> bool" where
  "is_upper c = (65 \<le> code_of c \<and> code_of c \<le> 90)"

text \<open>\<open>str.isspace\<close> on ASCII: tab to carriage return, the four separators 28 to 31, and space.\<close>

definition is_space :: "char \<Rightarrow> bool" where
  "is_space c = (let n = code_of c in 9 \<le> n \<and> n \<le> 13 \<or> 28 \<le> n \<and> n \<le> 32)"

definition to_lower :: "char \<Rightarrow> char" where
  "to_lower c = (if is_upper c then chr (code_of c + 32) else c)"

text \<open>The same on the bits of a character, for evaluation.\<close>

lemma is_upper_code [code]: "is_upper (Char b0 b1 b2 b3 b4 b5 b6 b7) \<longleftrightarrow>
    \<not> b7 \<and> b6 \<and> \<not> b5 \<and> (b0 \<or> b1 \<or> b2 \<or> b3 \<or> b4) \<and> \<not> (b4 \<and> b3 \<and> (b2 \<or> (b1 \<and> b0)))"
  by (cases b0; cases b1; cases b2; cases b3; cases b4; cases b5; cases b6; cases b7; simp add: is_upper_def code_of_def)

lemma is_lower_code [code]: "is_lower (Char b0 b1 b2 b3 b4 b5 b6 b7) \<longleftrightarrow>
    \<not> b7 \<and> b6 \<and> b5 \<and> (b0 \<or> b1 \<or> b2 \<or> b3 \<or> b4) \<and> \<not> (b4 \<and> b3 \<and> (b2 \<or> (b1 \<and> b0)))"
  by (cases b0; cases b1; cases b2; cases b3; cases b4; cases b5; cases b6; cases b7; simp add: is_lower_def code_of_def)

lemma is_digit_code [code]: "is_digit (Char b0 b1 b2 b3 b4 b5 b6 b7) \<longleftrightarrow>
    \<not> b7 \<and> \<not> b6 \<and> b5 \<and> b4 \<and> (b3 \<longrightarrow> \<not> b2 \<and> \<not> b1)"
  by (cases b0; cases b1; cases b2; cases b3; cases b4; cases b5; cases b6; cases b7; simp add: is_digit_def code_of_def)

lemma is_space_code [code]: "is_space (Char b0 b1 b2 b3 b4 b5 b6 b7) \<longleftrightarrow>
    \<not> b7 \<and> \<not> b6 \<and> (if b5 then \<not> b4 \<and> \<not> b3 \<and> \<not> b2 \<and> \<not> b1 \<and> \<not> b0
      else if b4 then b3 \<and> b2 else b3 \<and> (b0 \<or> b1 \<or> b2) \<and> \<not> (b2 \<and> b1))"
  by (cases b0; cases b1; cases b2; cases b3; cases b4; cases b5; cases b6; cases b7; simp add: is_space_def code_of_def Let_def)

lemma to_lower_code [code]: "to_lower (Char b0 b1 b2 b3 b4 b5 b6 b7) =
    Char b0 b1 b2 b3 b4 (b5 \<or> is_upper (Char b0 b1 b2 b3 b4 b5 b6 b7)) b6 b7"
  by (cases b0; cases b1; cases b2; cases b3; cases b4; cases b5; cases b6; cases b7; simp add: is_upper_def to_lower_def code_of_def chr_def char_of_def bit_0)

text \<open>\<open>str.lower\<close> and \<open>str.casefold\<close>, which agree on ASCII.\<close>

definition str_lower :: "string \<Rightarrow> string" where
  "str_lower = map to_lower"

definition rstrip_by :: "('a \<Rightarrow> bool) \<Rightarrow> 'a list \<Rightarrow> 'a list" where
  "rstrip_by p s = rev (dropWhile p (rev s))"

definition str_strip :: "string \<Rightarrow> string" where
  "str_strip s = rstrip_by is_space (dropWhile is_space s)"

definition startswith :: "string \<Rightarrow> string \<Rightarrow> bool" where
  "startswith p s = (take (length p) s = p)"

fun starts :: "string \<Rightarrow> string \<Rightarrow> bool" where
  "starts [] s = True"
| "starts (p # ps) [] = False"
| "starts (p # ps) (c # cs) = (p = c \<and> starts ps cs)"

lemma startswith_code [code]: "startswith p s = starts p s"
  by (induction p s rule: starts.induct) (auto simp: startswith_def)

lemma startswith_prefix: "startswith p s \<longleftrightarrow> prefix p s"
  unfolding startswith_def prefix_def by (metis append_eq_conv_conj append_take_drop_id)

text \<open>\<open>needle in hay\<close>.\<close>

fun str_contains :: "string \<Rightarrow> string \<Rightarrow> bool" where
  "str_contains needle [] = (needle = [])"
| "str_contains needle (c # cs) = (startswith needle (c # cs) \<or> str_contains needle cs)"

lemma str_contains_sublist: "str_contains n h \<longleftrightarrow> sublist n h"
  by (induction h) (auto simp: startswith_prefix sublist_Cons_right)

section \<open>Numbers as text\<close>

definition digit_char :: "nat \<Rightarrow> char" where
  "digit_char d = chr (48 + d)"

fun show_nat :: "nat \<Rightarrow> string" where
  "show_nat n = (if n < 10 then [digit_char n] else show_nat (n div 10) @ [digit_char (n mod 10)])"

declare show_nat.simps [simp del]

definition show_int :: "int \<Rightarrow> string" where
  "show_int i = (if i < 0 then ''-'' @ show_nat (nat (- i)) else show_nat (nat i))"

text \<open>\<open>int(text)\<close> on a run of digits.\<close>

definition int_of_digits :: "string \<Rightarrow> int" where
  "int_of_digits s = foldl (\<lambda>a c. 10 * a + (int (code_of c) - 48)) 0 s"

lemma digit_char_digit: "d < 10 \<Longrightarrow> is_digit (digit_char d)"
  by (simp add: is_digit_def digit_char_def)

lemma show_nat_digits: "list_all is_digit (show_nat n)"
proof (induction n rule: show_nat.induct)
  case (1 n)
  then show ?case by (subst show_nat.simps) (simp add: digit_char_digit)
qed

lemma show_nat_nonempty [simp]: "show_nat n \<noteq> []"
  by (subst show_nat.simps) simp

lemma int_of_digits_show_nat [simp]: "int_of_digits (show_nat n) = int n"
proof (induction n rule: show_nat.induct)
  case (1 n)
  have "10 * int (n div 10) + int (n mod 10) = int n"
    by (simp only: of_nat_div of_nat_mod of_nat_numeral) simp
  with 1 show ?case by (subst show_nat.simps) (auto simp: int_of_digits_def digit_char_def)
qed

lemma show_nat_inj: "show_nat a = show_nat b \<Longrightarrow> a = b"
  by (metis int_of_digits_show_nat of_nat_eq_iff)

text \<open>\<open>re.findall(r"\d+", text)\<close>: the maximal runs of digits, left to right.\<close>

function digit_runs :: "string \<Rightarrow> string list" where
  "digit_runs [] = []"
| "digit_runs (c # cs) =
     (if is_digit c then (c # takeWhile is_digit cs) # digit_runs (dropWhile is_digit cs)
      else digit_runs cs)"
  by pat_completeness auto
termination
  by (relation "measure length") (auto simp: le_imp_less_Suc length_dropWhile_le)

lemma list_all_takeWhile: "list_all p (takeWhile p xs)"
  by (induction xs) auto

lemma digit_runs_digits: "r \<in> set (digit_runs s) \<Longrightarrow> r \<noteq> [] \<and> list_all is_digit r"
proof (induction s rule: digit_runs.induct)
  case (2 c cs)
  then show ?case by (cases "is_digit c") (auto simp: list_all_takeWhile)
qed simp

lemma digit_runs_append:
  assumes "list_all is_digit ds" "ds \<noteq> []" "rest = [] \<or> \<not> is_digit (hd rest)"
  shows "digit_runs (ds @ rest) = ds # digit_runs rest"
proof -
  obtain c cs where ds: "ds = c # cs" using assms(2) by (cases ds) auto
  have t: "takeWhile is_digit (cs @ rest) = cs" "dropWhile is_digit (cs @ rest) = rest"
    using assms ds by (cases rest; auto simp: list_all_iff takeWhile_append2 dropWhile_append2)+
  show ?thesis using assms(1) ds t by simp
qed

text \<open>Hexadecimal digits: \<open>bytes.hex()\<close>, \<open>f"{n:04x}"\<close> and \<open>f"{n:04X}"\<close>.\<close>

definition hex_char :: "nat \<Rightarrow> char" where
  "hex_char d = (if d < 10 then chr (48 + d) else chr (87 + d))"

definition HEX_char :: "nat \<Rightarrow> char" where
  "HEX_char d = (if d < 10 then chr (48 + d) else chr (55 + d))"

fun show_base16 :: "(nat \<Rightarrow> char) \<Rightarrow> nat \<Rightarrow> string" where
  "show_base16 d n = (if n < 16 then [d n] else show_base16 d (n div 16) @ [d (n mod 16)])"

declare show_base16.simps [simp del]

definition pad0 :: "nat \<Rightarrow> string \<Rightarrow> string" where
  "pad0 w s = replicate (w - length s) (CHR ''0'') @ s"

definition hex04 :: "nat \<Rightarrow> string" where
  "hex04 n = pad0 4 (show_base16 hex_char n)"

definition HEX04 :: "nat \<Rightarrow> string" where
  "HEX04 n = pad0 4 (show_base16 HEX_char n)"

definition bytes_hex :: "bytes \<Rightarrow> string" where
  "bytes_hex bs = concat (map (\<lambda>b. [hex_char (unat b div 16), hex_char (unat b mod 16)]) bs)"

lemma length_bytes_hex [simp]: "length (bytes_hex bs) = 2 * length bs"
  by (induction bs) (simp_all add: bytes_hex_def)

text \<open>
  \<open>re.sub(r"[^a-z0-9]+", " ", text)\<close> followed by \<open>strip()\<close>: the maximal runs of lower-case
  letters and digits, joined by single blanks.
\<close>

definition is_word_char :: "char \<Rightarrow> bool" where
  "is_word_char c = (is_lower c \<or> is_digit c)"

function sub_non_word :: "string \<Rightarrow> string" where
  "sub_non_word [] = []"
| "sub_non_word (c # cs) =
     (if is_word_char c then c # sub_non_word cs
      else CHR '' '' # sub_non_word (dropWhile (\<lambda>x. \<not> is_word_char x) cs))"
  by pat_completeness auto
termination
  by (relation "measure length") (auto simp: le_imp_less_Suc length_dropWhile_le)

text \<open>\<open>sep.join(parts)\<close>.\<close>

fun str_join :: "string \<Rightarrow> string list \<Rightarrow> string" where
  "str_join sep [] = []"
| "str_join sep [s] = s"
| "str_join sep (s # ss) = s @ sep @ str_join sep ss"

text \<open>\<open>f"{x:.2f}"\<close>: the exact value rounded half-even to two decimals.\<close>

definition fmt_fixed2 :: "pyfloat \<Rightarrow> string" where
  "fmt_fixed2 x = (case x of
     NaN \<Rightarrow> ''nan'' | PosInf \<Rightarrow> ''inf'' | NegInf \<Rightarrow> ''-inf''
   | Fin a \<Rightarrow>
     (let n = rhe (a * 100); m = nat \<bar>n\<bar>;
          body = show_nat (m div 100) @ ''.'' @
                 [digit_char (m mod 100 div 10), digit_char (m mod 10)]
      in if a < 0 then ''-'' @ body else body))"

text \<open>
  \<open>bytes.decode("ascii", errors="replace")\<close>: each byte above 127 becomes the replacement
  character, written here as the character with code 255.
\<close>

definition ascii_decode :: "bytes \<Rightarrow> string" where
  "ascii_decode bs = map (\<lambda>b. if b < 128 then chr (unat b) else chr 255) bs"

lemma length_ascii_decode [simp]: "length (ascii_decode bs) = length bs"
  by (simp add: ascii_decode_def)

section \<open>Values of dynamic type\<close>

text \<open>The values a decoded register can hold: \<open>float | int | str | None\<close>, and \<open>bool\<close>, which the code excludes by test.\<close>

datatype pyval = VNone | VBool bool | VInt int | VFloat pyfloat | VStr string

end
