(* ===== verification/Catalog_Scaling.thy ===== *)
theory Catalog_Scaling
  imports Py_Float Py_Text "HOL-Library.Word"
begin

text \<open>
  The decoders of \<open>catalog/scaling.py\<close>.  Register words are integers, as in the code, which
  masks them itself; the context is the map from addresses to words of one register function.
\<close>

unbundle bit_operations_syntax

definition signed_16 :: "int \<Rightarrow> int" where
  "signed_16 value = (let v = value AND 0xFFFF in if v AND 0x8000 \<noteq> 0 then v - 0x10000 else v)"

definition word_pair :: "int list \<Rightarrow> int" where
  "word_pair words = push_bit 16 (words ! 0 AND 0xFFFF) OR (words ! 1 AND 0xFFFF)"

definition signed_32 :: "int list \<Rightarrow> int res" where
  "signed_32 words =
    (if length words \<noteq> 2 then Inl (ValueError ''signed_32 decoder requires two words'')
     else let v = word_pair words in
       Inr (if v AND 0x80000000 \<noteq> 0 then v - 0x100000000 else v))"

definition fixed_point_scale :: "int \<Rightarrow> int \<Rightarrow> pyfloat res" where
  "fixed_point_scale high_word low_word =
    rbind (float_of_int (high_word AND 0xFFFF)) (\<lambda>h.
    rbind (float_of_int (low_word AND 0xFFFF)) (\<lambda>l.
    rbind (fdiv l (Fin 65536)) (\<lambda>q. Inr (fadd h q))))"

text \<open>
  \<open>struct.unpack\<close> of an IEEE-754 interchange format with \<open>eb\<close> exponent and \<open>mb\<close> fraction bits:
  the value over the common denominator, so that the numerator is an integer.
\<close>

definition ieee_numerator :: "nat \<Rightarrow> int \<Rightarrow> int" where
  "ieee_numerator mb v =
    (let e = v div 2 ^ mb; m = v mod 2 ^ mb in
     if e = 0 then 2 * m else (2 ^ mb + m) * 2 ^ nat e)"

definition ieee_unpack :: "nat \<Rightarrow> nat \<Rightarrow> int \<Rightarrow> pyfloat" where
  "ieee_unpack eb mb v =
    (let negative = v div 2 ^ (eb + mb) mod 2 = 1; a = v mod 2 ^ (eb + mb) in
     if a div 2 ^ mb = 2 ^ eb - 1 then
       (if a mod 2 ^ mb \<noteq> 0 then NaN else if negative then NegInf else PosInf)
     else let x = of_int (ieee_numerator mb a) / 2 ^ (2 ^ (eb - 1) - 1 + mb) in
       Fin (if negative then - x else x))"

definition float16 :: "int \<Rightarrow> pyfloat" where
  "float16 value = ieee_unpack 5 10 (value AND 0xFFFF)"

definition float32 :: "int list \<Rightarrow> pyfloat res" where
  "float32 words =
    (if length words \<noteq> 2 then Inl (ValueError ''float32 decoder requires two words'')
     else Inr (ieee_unpack 8 23 (word_pair words)))"

definition nibble :: "int \<Rightarrow> nat \<Rightarrow> int" where
  "nibble value shift = drop_bit shift value AND 0xF"

definition bcd_integer :: "int \<Rightarrow> int" where
  "bcd_integer value =
    (let nibbles = map (nibble value) [12, 8, 4, 0] in
     if \<exists>n \<in> set nibbles. n > 9 then value
     else int_of_digits (concat (map show_int nibbles)))"

definition byte_pair_version :: "int \<Rightarrow> string" where
  "byte_pair_version value =
    (let v = value AND 0xFFFF in
     show_int (drop_bit 8 v AND 0xFF) @ ''.'' @ show_int (v AND 0xFF))"

text \<open>\<open>payload.rstrip(b"\x00\xff ").decode("ascii", errors="replace").strip()\<close>.\<close>

definition text_of_payload :: "bytes \<Rightarrow> string" where
  "text_of_payload payload = str_strip (ascii_decode (rstrip_by (\<lambda>b. b = 0 \<or> b = 0xFF \<or> b = 32) payload))"

definition low_byte :: "int \<Rightarrow> byte" where
  "low_byte w = word_of_int (w AND 0xFF)"

definition high_byte :: "int \<Rightarrow> byte" where
  "high_byte w = word_of_int (drop_bit 8 w AND 0xFF)"

definition ascii_low_high :: "int list \<Rightarrow> string" where
  "ascii_low_high words = text_of_payload (concat (map (\<lambda>w. [low_byte w, high_byte w]) words))"

definition ascii_high_low :: "int list \<Rightarrow> string" where
  "ascii_high_low words = text_of_payload (concat (map (\<lambda>w. [high_byte w, low_byte w]) words))"

fun little_words_from :: "nat \<Rightarrow> int \<Rightarrow> int list \<Rightarrow> int" where
  "little_words_from index value [] = value"
| "little_words_from index value (w # ws) =
     little_words_from (Suc index) (value OR push_bit (16 * index) (w AND 0xFFFF)) ws"

definition little_word_integer :: "int list \<Rightarrow> int" where
  "little_word_integer words = little_words_from 0 0 words"

section \<open>\<open>float(text)\<close>\<close>

text \<open>
  A decimal literal: an optional sign, digits with an optional point, an optional exponent.  The
  spellings of infinities and NaN and digit groups with underscores, which no decoder name of
  the catalog uses, are rejected here as any other text is.
\<close>

definition split_sign :: "string \<Rightarrow> bool \<times> string" where
  "split_sign s = (case s of
     [] \<Rightarrow> (False, [])
   | c # cs \<Rightarrow> if c = CHR ''-'' then (True, cs) else if c = CHR ''+'' then (False, cs) else (False, s))"

definition parse_exponent :: "string \<Rightarrow> int option" where
  "parse_exponent s = (case s of
     [] \<Rightarrow> Some 0
   | c # cs \<Rightarrow>
     (let (neg, ds) = split_sign cs in
      if to_lower c = CHR ''e'' \<and> ds \<noteq> [] \<and> list_all is_digit ds
      then Some ((if neg then -1 else 1) * int_of_digits ds) else None))"

definition parse_literal :: "string \<Rightarrow> rat option" where
  "parse_literal text =
    (let (neg, s) = split_sign (str_strip text);
         whole = takeWhile is_digit s; r = dropWhile is_digit s;
         dot = (r \<noteq> [] \<and> hd r = CHR ''.'');
         frac = (if dot then takeWhile is_digit (tl r) else []);
         rest = (if dot then dropWhile is_digit (tl r) else r)
     in case parse_exponent rest of
          None \<Rightarrow> None
        | Some e \<Rightarrow>
          if whole @ frac = [] then None
          else
            let d = of_int (int_of_digits (whole @ frac)) / 10 ^ length frac;
                x = (if 0 \<le> e then d * 10 ^ nat e else d / 10 ^ nat (- e))
            in Some (if neg then - x else x))"

definition parse_float :: "string \<Rightarrow> pyfloat res" where
  "parse_float text = (case parse_literal text of
     None \<Rightarrow> Inl (ValueError ''could not convert string to float'')
   | Some x \<Rightarrow> Inr (fl x))"

section \<open>\<open>decode_value\<close>\<close>

definition context_word :: "(int \<rightharpoonup> int) \<Rightarrow> int \<Rightarrow> int" where
  "context_word context address = (case context address of None \<Rightarrow> 0 | Some w \<Rightarrow> w)"

text \<open>\<open>decoder.split(":", 1)[1]\<close> of a name that has a colon.\<close>

definition decoder_arg :: "string \<Rightarrow> string" where
  "decoder_arg d = drop 1 (dropWhile (\<lambda>c. c \<noteq> CHR '':'') d)"

definition mul_int_float :: "int \<Rightarrow> pyfloat \<Rightarrow> pyfloat res" where
  "mul_int_float i x = rbind (float_of_int i) (\<lambda>f. Inr (fmul f x))"

definition div_int_float :: "int \<Rightarrow> pyfloat \<Rightarrow> pyfloat res" where
  "div_int_float i x = rbind (float_of_int i) (\<lambda>f. fdiv f x)"

definition voltage_scale :: "(int \<rightharpoonup> int) \<Rightarrow> pyfloat res" where
  "voltage_scale context = fixed_point_scale (context_word context 0) (context_word context 1)"

definition current_scale :: "(int \<rightharpoonup> int) \<Rightarrow> pyfloat res" where
  "current_scale context = fixed_point_scale (context_word context 2) (context_word context 3)"

text \<open>\<open>signed_16(raw) * scale / 32768.0\<close>.\<close>

definition scaled_16 :: "int \<Rightarrow> pyfloat \<Rightarrow> pyfloat res" where
  "scaled_16 raw scale = rbind (mul_int_float (signed_16 raw) scale) (\<lambda>p. fdiv p (Fin 32768))"

definition vfloat :: "pyfloat res \<Rightarrow> pyval res" where
  "vfloat r = rbind r (\<lambda>x. Inr (VFloat x))"

definition decode_value :: "string \<Rightarrow> int list \<Rightarrow> (int \<rightharpoonup> int) \<Rightarrow> pyval res" where
  "decode_value decoder words context =
    (if words = [] then Inl (ValueError ''cannot decode an empty register field'')
     else let raw = words ! 0 in
     if decoder = ''raw'' then Inr (VInt raw)
     else if decoder = ''s16'' then Inr (VInt (signed_16 raw))
     else if decoder = ''f16'' then Inr (VFloat (float16 raw))
     else if decoder = ''f32'' then vfloat (float32 words)
     else if decoder = ''bcd'' then Inr (VInt (bcd_integer raw))
     else if decoder = ''byte_pair_version'' then Inr (VStr (byte_pair_version raw))
     else if decoder = ''u32'' then
       (if length words \<noteq> 2 then Inl (ValueError ''u32 decoder requires two words'')
        else Inr (VInt (word_pair words)))
     else if decoder = ''s32'' then rbind (signed_32 words) (\<lambda>i. Inr (VInt i))
     else if startswith ''u32_factor:'' decoder then
       (if length words \<noteq> 2 then Inl (ValueError ''u32_factor decoder requires two words'')
        else vfloat (rbind (parse_float (decoder_arg decoder)) (mul_int_float (word_pair words))))
     else if startswith ''s32_factor:'' decoder then
       rbind (signed_32 words) (\<lambda>i. vfloat (rbind (parse_float (decoder_arg decoder)) (mul_int_float i)))
     else if decoder = ''ascii_lo_hi'' then Inr (VStr (ascii_low_high words))
     else if decoder = ''ascii_hi_lo'' then Inr (VStr (ascii_high_low words))
     else if decoder = ''bitfield_words'' then Inr (VInt (little_word_integer words))
     else if decoder = ''f16_percent'' then Inr (VFloat (fmul (float16 raw) (Fin 100)))
     else if startswith ''factor:'' decoder then
       vfloat (rbind (parse_float (decoder_arg decoder)) (mul_int_float (signed_16 raw)))
     else if startswith ''ufactor:'' decoder then
       vfloat (rbind (parse_float (decoder_arg decoder)) (mul_int_float (raw AND 0xFFFF)))
     else if startswith ''divide:'' decoder then
       vfloat (rbind (parse_float (decoder_arg decoder)) (div_int_float (signed_16 raw)))
     else if startswith ''udivide:'' decoder then
       vfloat (rbind (parse_float (decoder_arg decoder)) (div_int_float (raw AND 0xFFFF)))
     else if startswith ''percent:'' decoder then
       vfloat (rbind (parse_float (decoder_arg decoder)) (\<lambda>denominator.
         rbind (mul_int_float (raw AND 0xFFFF) (Fin 100)) (\<lambda>p. fdiv p denominator)))
     else if decoder = ''tristar_voltage'' then vfloat (rbind (voltage_scale context) (scaled_16 raw))
     else if decoder = ''tristar_current'' then vfloat (rbind (current_scale context) (scaled_16 raw))
     else if decoder = ''tristar_power'' then
       vfloat (rbind (voltage_scale context) (\<lambda>v. rbind (current_scale context) (\<lambda>c.
         rbind (mul_int_float (raw AND 0xFFFF) v) (\<lambda>p. fdiv (fmul p c) (Fin 131072)))))
     else if decoder = ''tristar_rts_temp'' then
       Inr (if raw AND 0xFFFF = 0x80 then VStr ''DISCONNECTED'' else VInt (signed_16 raw))
     else if startswith ''ts600_'' decoder then
       (let firmware = bcd_integer (context_word context 4); kind = drop 6 decoder in
        if firmware \<ge> 19 then Inr (VFloat (float16 raw))
        else if kind = ''voltage'' then vfloat (rbind (voltage_scale context) (scaled_16 raw))
        else if kind = ''current'' then vfloat (rbind (current_scale context) (scaled_16 raw))
        else Inr (VInt raw))
     else if decoder = ''suresine_classic_current'' then
       vfloat (scaled_16 raw (fl (if context_word context 13 \<ge> 180 then 32 / 5 else 17)))
     else Inl (ValueError (''unknown register decoder: '' @ decoder)))"

end
