(* ===== verification/Scaling_Facts.thy ===== *)
theory Scaling_Facts
  imports Catalog_Scaling
begin

text \<open>
  Facts about the decoders: the bit tricks of the code compute the arithmetic they stand for
  (two's complement, word order, packed decimal, IEEE order), the fixed-point quantities are
  free of rounding errors, and \<open>decoder_ok\<close> is a static check of a decoder name and a word
  count under which \<open>decode_value\<close> cannot raise.
\<close>

unbundle bit_operations_syntax

section \<open>Bits as arithmetic\<close>

lemma and_top_bit: "0 \<le> v \<Longrightarrow> v < 2 * 2 ^ n \<Longrightarrow> (v :: int) AND 2 ^ n \<noteq> 0 \<longleftrightarrow> 2 ^ n \<le> v"
proof -
  assume v: "0 \<le> v" "v < 2 * 2 ^ n"
  have "v AND 2 ^ n \<noteq> 0 \<longleftrightarrow> odd (v div 2 ^ n)"
    by (simp add: and_exp_eq_0_iff_not_bit bit_iff_odd)
  moreover have "v div 2 ^ n = (if 2 ^ n \<le> v then 1 else 0)"
  proof (cases "2 ^ n \<le> v")
    case True
    then have "0 \<le> v - 2 ^ n" "v - 2 ^ n < 2 ^ n" using v by linarith+
    then have "(v - 2 ^ n) div 2 ^ n = 0" by (rule div_pos_pos_trivial)
    moreover have "v div 2 ^ n = (v - 2 ^ n) div 2 ^ n + 1"
      using div_add_self2 [of "2 ^ n" "v - 2 ^ n"] by simp
    ultimately show ?thesis using True by simp
  qed (use v in simp)
  ultimately show ?thesis by simp
qed

lemma half_turn:
  "0 \<le> m \<Longrightarrow> m < 2 * h \<Longrightarrow> (m + h) mod (2 * h) = (if h \<le> m then m - h else m + (h :: int))"
proof -
  assume m: "0 \<le> m" "m < 2 * h"
  show ?thesis
  proof (cases "h \<le> m")
    case True
    then have "(m - h) mod (2 * h) = m - h" using m by simp
    moreover have "m + h = (m - h) + 2 * h" by simp
    then have "(m + h) mod (2 * h) = (m - h) mod (2 * h)" by (simp only: mod_add_self2)
    ultimately show ?thesis using True by simp
  qed (use m in simp)
qed

lemma signed_16_shift: "signed_16 v = (v + 32768) mod 65536 - 32768"
proof -
  obtain m where m: "m = v mod 65536" by blast
  have b: "0 \<le> m" "m < 65536" unfolding m by simp_all
  have top: "m AND 0x8000 \<noteq> 0 \<longleftrightarrow> 32768 \<le> m" using and_top_bit [of m 15] b by simp
  have "(v + 32768) mod 65536 = (m + 32768) mod 65536" unfolding m by (simp add: mod_simps)
  also have "\<dots> = (if 32768 \<le> m then m - 32768 else m + 32768)"
    using half_turn [of m 32768] b by simp
  finally show ?thesis unfolding signed_16_def Let_def and_FFFF m [symmetric] top by simp
qed

lemma signed_16_bounds: "- 32768 \<le> signed_16 v \<and> signed_16 v < 32768"
  using pos_mod_bound [of 65536 "v + 32768"] pos_mod_sign [of 65536 "v + 32768"]
  unfolding signed_16_shift by linarith

lemma push_or_16: "0 \<le> y \<Longrightarrow> y < 2 ^ n \<Longrightarrow> push_bit n x OR y = x * 2 ^ n + (y :: int)"
proof -
  assume "0 \<le> y" "y < 2 ^ n"
  then have y: "take_bit n y = y" by (simp add: take_bit_int_eq_self)
  have "push_bit n x OR y = concat_bit n y x" by (simp add: concat_bit_def y or.commute)
  then show ?thesis by (simp add: concat_bit_eq y push_bit_eq_mult)
qed

lemma word_pair_arith: "word_pair words = words ! 0 mod 65536 * 65536 + words ! 1 mod 65536"
  unfolding word_pair_def and_FFFF using push_or_16 [of "words ! 1 mod 65536" 16] by simp

lemma word_pair_bounds: "0 \<le> word_pair words \<and> word_pair words < 2 ^ 32"
proof -
  have "0 \<le> words ! i mod 65536 \<and> words ! i mod 65536 \<le> 65535" for i
    using pos_mod_bound [of 65536 "words ! i"] by simp
  from this [of 0] this [of 1] show ?thesis unfolding word_pair_arith by simp
qed

lemma signed_32_Inr:
  "length words = 2 \<Longrightarrow> signed_32 words = Inr ((word_pair words + 2 ^ 31) mod 2 ^ 32 - 2 ^ 31)"
proof -
  assume l: "length words = 2"
  obtain m where m: "m = word_pair words" by blast
  have b: "0 \<le> m" "m < 4294967296" unfolding m using word_pair_bounds by simp_all
  have top: "m AND 0x80000000 \<noteq> 0 \<longleftrightarrow> 2147483648 \<le> m" using and_top_bit [of m 31] b by simp
  have "(m + 2147483648) mod 4294967296 = (if 2147483648 \<le> m then m - 2147483648 else m + 2147483648)"
    using half_turn [of m 2147483648] b by simp
  then show ?thesis using l
    unfolding signed_32_def Let_def m [symmetric] top by simp
qed

lemma signed_32_bounds: "signed_32 words = Inr i \<Longrightarrow> \<bar>i\<bar> \<le> 2 ^ 31"
proof -
  assume a: "signed_32 words = Inr i"
  then have l: "length words = 2" by (simp add: signed_32_def split: if_splits)
  let ?m = "(word_pair words + 2 ^ 31) mod 2 ^ 32"
  have "0 \<le> ?m" "?m < 2 ^ 32" by simp_all
  moreover have "i = ?m - 2 ^ 31" using a signed_32_Inr [OF l] by simp
  ultimately show ?thesis by simp
qed

lemma little_words_from_bounds:
  "0 \<le> acc \<Longrightarrow> acc < 2 ^ (16 * index) \<Longrightarrow>
   0 \<le> little_words_from index acc words \<and>
   little_words_from index acc words < 2 ^ (16 * (index + length words)) \<and>
   little_words_from index acc words mod 2 ^ (16 * index) = acc \<and>
   (\<forall>i < length words. little_words_from index acc words div 2 ^ (16 * (index + i)) mod 65536
      = words ! i mod 65536)"
proof (induction words arbitrary: index acc)
  case Nil
  then show ?case by simp
next
  case (Cons w ws)
  obtain x where x: "x = w mod 65536" by blast
  have xb: "0 \<le> x" "x \<le> 65535" unfolding x by simp_all
  obtain v' where v': "v' = x * 2 ^ (16 * index) + acc" by blast
  have e: "acc OR push_bit (16 * index) (w AND 0xFFFF) = v'"
    using push_or_16 [OF Cons.prems, of x] unfolding and_FFFF v' x by (simp add: or.commute)
  have pw: "(2 :: int) ^ (16 * Suc index) = 65536 * 2 ^ (16 * index)" by (simp add: power_add)
  have "v' < x * 2 ^ (16 * index) + 2 ^ (16 * index)" unfolding v' using Cons.prems by simp
  also have "\<dots> = (x + 1) * 2 ^ (16 * index)" by (simp add: algebra_simps)
  also have "\<dots> \<le> 65536 * 2 ^ (16 * index)" using xb by (intro mult_right_mono) simp_all
  finally have b: "0 \<le> v'" "v' < 2 ^ (16 * Suc index)"
    using Cons.prems xb unfolding pw by (simp_all add: v')
  obtain r where r: "r = little_words_from (Suc index) v' ws" by blast
  note IH = Cons.IH [OF b, folded r]
  have vm: "v' mod 2 ^ (16 * index) = acc" "v' div 2 ^ (16 * index) = x"
    unfolding v' using Cons.prems by simp_all
  have rm: "r mod 2 ^ (16 * index) = acc"
    using IH vm(1) mod_mod_cancel [of "2 ^ (16 * index)" "2 ^ (16 * Suc index)" r]
    by (simp add: le_imp_power_dvd)
  have im: "r mod (65536 * 2 ^ (16 * index)) = v'" using IH unfolding pw by blast
  have r0: "r div 2 ^ (16 * index) mod 65536 = x"
  proof -
    have "r mod (2 ^ (16 * index) * 65536) div 2 ^ (16 * index) = r div 2 ^ (16 * index) mod 65536"
      by (simp add: zmod_zmult2_eq)
    then show ?thesis using im vm(2) by (simp add: mult.commute)
  qed
  have "\<forall>i < length (w # ws). r div 2 ^ (16 * (index + i)) mod 65536 = (w # ws) ! i mod 65536"
  proof (intro allI impI)
    fix i assume i: "i < length (w # ws)"
    show "r div 2 ^ (16 * (index + i)) mod 65536 = (w # ws) ! i mod 65536"
    proof (cases i)
      case 0
      then show ?thesis using r0 x by simp
    next
      case (Suc j)
      then have "r div 2 ^ (16 * (Suc index + j)) mod 65536 = ws ! j mod 65536" using IH i by auto
      then show ?thesis using Suc by simp
    qed
  qed
  then show ?case using IH rm unfolding little_words_from.simps e r [symmetric] by simp
qed

section \<open>Packed decimal\<close>

lemma nibble_arith: "nibble v s = v div 2 ^ s mod 16"
  by (simp add: nibble_def mask_simps drop_bit_eq_div)

lemma show_int_digit: "0 \<le> d \<Longrightarrow> d \<le> 9 \<Longrightarrow> show_int d = [digit_char (nat d)]"
  unfolding show_int_def by (subst show_nat.simps) simp

lemma int_of_digit_chars:
  "a < 10 \<Longrightarrow> b < 10 \<Longrightarrow> c < 10 \<Longrightarrow> d < 10 \<Longrightarrow>
   int_of_digits [digit_char a, digit_char b, digit_char c, digit_char d]
     = 1000 * int a + 100 * int b + 10 * int c + int d"
  by (simp add: int_of_digits_def digit_char_def)

lemma decimal_digits:
  "1000 * (n div 1000) + 100 * (n div 100 mod 10) + 10 * (n div 10 mod 10) + n mod 10 = (n :: int)"
proof -
  have "n div 100 = n div 10 div 10" "n div 1000 = n div 100 div 10"
    by (simp_all add: zdiv_zmult2_eq [symmetric])
  then show ?thesis
    using div_mult_mod_eq [of "n div 100" 10] div_mult_mod_eq [of "n div 10" 10] div_mult_mod_eq [of n 10]
    by linarith
qed

lemma div_eqI: "0 \<le> r \<Longrightarrow> r < n \<Longrightarrow> (k * n + r) div n = (k :: int)"
  by simp

lemma hex_digits:
  assumes "0 \<le> a" "a \<le> 9" "0 \<le> b" "b \<le> 9" "0 \<le> c" "c \<le> 9" "0 \<le> d" "d \<le> 9"
    and v: "v = a * 4096 + b * 256 + c * 16 + d"
  shows "v div 4096 mod 16 = a \<and> v div 256 mod 16 = b \<and> v div 16 mod 16 = c \<and> v mod 16 = (d :: int)"
proof -
  have e: "v = a * 4096 + (b * 256 + c * 16 + d)" "v = (a * 16 + b) * 256 + (c * 16 + d)"
    "v = (a * 256 + b * 16 + c) * 16 + d" unfolding v by simp_all
  have m: "r mod 16 = r" if "0 \<le> r" "r \<le> 9" for r :: int using that by simp
  have p: "v div 4096 = a" unfolding e(1) by (rule div_eqI) (use assms(3-8) in linarith)+
  have q: "v div 256 = a * 16 + b" unfolding e(2) by (rule div_eqI) (use assms(5-8) in linarith)+
  have r: "v div 16 = (a * 16 + b) * 16 + c"
    unfolding e(3) by (subst div_eqI) (use assms(7-8) in simp_all)
  have s: "v mod 16 = d" unfolding e(3) mod_mult_self3 by (rule m [OF assms(7,8)])
  show ?thesis
    unfolding p q r s mod_mult_self3 m [OF assms(1,2)] m [OF assms(3,4)] m [OF assms(5,6)] by blast
qed

lemma bcd_integer_digits:
  assumes "nibble v 12 \<le> 9" "nibble v 8 \<le> 9" "nibble v 4 \<le> 9" "nibble v 0 \<le> 9"
  shows "bcd_integer v = 1000 * nibble v 12 + 100 * nibble v 8 + 10 * nibble v 4 + nibble v 0"
proof -
  have z: "0 \<le> nibble v s" for s by (simp add: nibble_arith)
  have b: "nat (nibble v 12) < 10" "nat (nibble v 8) < 10" "nat (nibble v 4) < 10" "nat (nibble v 0) < 10"
    using assms by auto
  have s: "concat (map show_int (map (nibble v) [12, 8, 4, 0])) =
    [digit_char (nat (nibble v 12)), digit_char (nat (nibble v 8)),
     digit_char (nat (nibble v 4)), digit_char (nat (nibble v 0))]"
    using assms z by (simp add: show_int_digit)
  have "\<not> (\<exists>n \<in> set (map (nibble v) [12, 8, 4, 0]). n > 9)" using assms by simp
  then show ?thesis
    unfolding bcd_integer_def Let_def s int_of_digit_chars [OF b] using z by simp
qed

text \<open>The packed-decimal encoding of a number below ten thousand.\<close>

definition bcd_word :: "int \<Rightarrow> int" where
  "bcd_word n = n div 1000 * 4096 + n div 100 mod 10 * 256 + n div 10 mod 10 * 16 + n mod 10"

lemma bcd_word_nibbles:
  assumes "0 \<le> n" "n < 10000"
  shows "nibble (bcd_word n) 12 = n div 1000 \<and> nibble (bcd_word n) 8 = n div 100 mod 10 \<and>
    nibble (bcd_word n) 4 = n div 10 mod 10 \<and> nibble (bcd_word n) 0 = n mod 10"
proof -
  have "n div 1000 \<le> 9" "0 \<le> n div 1000" using assms by linarith+
  moreover have "m mod 10 \<le> 9" "0 \<le> m mod 10" for m :: int
    using pos_mod_bound [of 10 m] by simp_all
  ultimately show ?thesis
    using hex_digits [OF _ _ _ _ _ _ _ _ bcd_word_def] by (simp add: nibble_arith)
qed

section \<open>IEEE formats\<close>

lemma ieee_numerator_Suc: "0 \<le> v \<Longrightarrow> ieee_numerator mb v < ieee_numerator mb (v + 1)"
proof -
  assume v: "0 \<le> v"
  obtain e m B where e: "e = v div 2 ^ mb" "m = v mod 2 ^ mb" and B: "B = (2 :: int) ^ mb" by blast
  have B0: "0 < B" unfolding B by simp
  have e0: "0 \<le> e" unfolding e using v by (simp add: pos_imp_zdiv_nonneg_iff)
  have mb: "0 \<le> m" "m < B" unfolding e B by simp_all
  have vd: "v = e * B + m" unfolding e B by (rule div_mult_mod_eq [symmetric])
  have N: "ieee_numerator mb v = (if e = 0 then 2 * m else (B + m) * 2 ^ nat e)"
    by (simp add: ieee_numerator_def Let_def e [symmetric] B)
  show ?thesis
  proof (cases "m + 1 < B")
    case True
    have "v + 1 = e * B + (m + 1)" using vd by simp
    then have "(v + 1) div B = e" "(v + 1) mod B = m + 1"
      using True mb B0 by (simp_all only: div_mult_self3 mod_mult_self3) simp_all
    then have "ieee_numerator mb (v + 1) = (if e = 0 then 2 * (m + 1) else (B + (m + 1)) * 2 ^ nat e)"
      by (simp add: ieee_numerator_def Let_def B)
    then show ?thesis unfolding N by simp
  next
    case False
    then have mB: "m = B - 1" using mb by simp
    then have "v + 1 = (e + 1) * B" unfolding vd by (simp add: algebra_simps)
    then have "(v + 1) div B = e + 1" "(v + 1) mod B = 0" using B0 by simp_all
    then have N1: "ieee_numerator mb (v + 1) = B * 2 ^ nat (e + 1)"
      using e0 by (simp add: ieee_numerator_def Let_def B)
    have "nat (e + 1) = Suc (nat e)" using e0 by simp
    then show ?thesis unfolding N N1 mB using B0 by (auto simp: algebra_simps)
  qed
qed

lemma ieee_numerator_less: "0 \<le> a \<Longrightarrow> a < b \<Longrightarrow> ieee_numerator mb a < ieee_numerator mb b"
proof -
  assume ab: "0 \<le> a" "a < b"
  have "ieee_numerator mb (int n) < ieee_numerator mb (int (Suc n))" for n
    using ieee_numerator_Suc [of "int n" mb] by (simp add: add.commute)
  then have "ieee_numerator mb (int (nat a)) < ieee_numerator mb (int (nat b))"
    by (rule lift_Suc_mono_less) (use ab in simp)
  then show ?thesis using ab by simp
qed

lemma ieee_unpack_nonneg:
  assumes "0 \<le> v" "v < 2 ^ (eb + mb)"
  shows "ieee_unpack eb mb v =
    (if v div 2 ^ mb = 2 ^ eb - 1 then if v mod 2 ^ mb \<noteq> 0 then NaN else PosInf
     else Fin (of_int (ieee_numerator mb v) / 2 ^ (2 ^ (eb - 1) - 1 + mb)))"
  using assms by (simp add: ieee_unpack_def Let_def)

lemma ieee_unpack_sign:
  assumes "0 \<le> v" "v < 2 ^ (eb + mb)"
  shows "ieee_unpack eb mb (v + 2 ^ (eb + mb)) = fneg (ieee_unpack eb mb v)"
proof -
  have "(v + 2 ^ (eb + mb)) div 2 ^ (eb + mb) = 1" "(v + 2 ^ (eb + mb)) mod 2 ^ (eb + mb) = v"
    using assms by (simp_all add: div_add_self2)
  then show ?thesis unfolding ieee_unpack_nonneg [OF assms] by (simp add: ieee_unpack_def Let_def)
qed

lemma ieee_unpack_less:
  assumes "0 \<le> a" "a < b" "b \<le> (2 ^ eb - 1) * 2 ^ mb"
  shows "flt (ieee_unpack eb mb a) (ieee_unpack eb mb b)"
proof -
  let ?I = "(2 ^ eb - 1) * 2 ^ mb :: int"
  have I: "?I < 2 ^ (eb + mb)" by (simp add: power_add algebra_simps)
  have fin: "ieee_unpack eb mb v = Fin (of_int (ieee_numerator mb v) / 2 ^ (2 ^ (eb - 1) - 1 + mb))"
    if "0 \<le> v" "v < ?I" for v
  proof -
    have "v div 2 ^ mb * 2 ^ mb \<le> v" by (simp add: minus_mod_eq_div_mult [symmetric])
    then have "v div 2 ^ mb * 2 ^ mb < ?I" using that by linarith
    then have "v div 2 ^ mb < 2 ^ eb - 1" by simp
    then show ?thesis using that I by (subst ieee_unpack_nonneg) simp_all
  qed
  show ?thesis
  proof (cases "b = ?I")
    case True
    have "ieee_unpack eb mb ?I = PosInf" using I by (subst ieee_unpack_nonneg) simp_all
    then show ?thesis using fin [of a] assms True by simp
  next
    case False
    then show ?thesis
      using fin [of a] fin [of b] assms ieee_numerator_less [of a b mb] by (simp add: divide_strict_right_mono)
  qed
qed

section \<open>Fixed-point quantities\<close>

lemma fdiv_pow2:
  "\<bar>m\<bar> \<le> 2 ^ 53 \<Longrightarrow> k + j \<le> 1074 \<Longrightarrow>
   fdiv (Fin (of_int m / 2 ^ k)) (Fin (2 ^ j)) = Inr (Fin (of_int m / 2 ^ (k + j)))"
  using fl_exact [of m "k + j"] by (simp add: power_add)

text \<open>The 32-bit fixed-point number a pair of context words holds.\<close>

definition scale_bits :: "(int \<rightharpoonup> int) \<Rightarrow> int \<Rightarrow> int" where
  "scale_bits ctx a = context_word ctx a mod 65536 * 65536 + context_word ctx (a + 1) mod 65536"

lemma scale_bits_bounds: "0 \<le> scale_bits ctx a \<and> scale_bits ctx a < 2 ^ 32"
  using word_pair_bounds [of "[context_word ctx a, context_word ctx (a + 1)]"]
  by (simp add: word_pair_arith scale_bits_def)

lemma fixed_point_exact:
  "fixed_point_scale h l = Inr (Fin (of_int (h mod 65536 * 65536 + l mod 65536) / 2 ^ 16))"
proof -
  obtain H L where HL: "H = h mod 65536" "L = l mod 65536" by blast
  have b: "0 \<le> H" "H \<le> 65535" "0 \<le> L" "L \<le> 65535" unfolding HL by simp_all
  have f: "float_of_int H = Inr (Fin (of_int H))" "float_of_int L = Inr (Fin (of_int L))"
    using b by (simp_all add: float_of_int_exact)
  have d: "fdiv (Fin (of_int L)) (Fin 65536) = Inr (Fin (of_int L / 2 ^ 16))"
    using fdiv_pow2 [of L 0 16] b by simp
  have "fl (of_int H + of_int L / 2 ^ 16) = fl (of_int (H * 65536 + L) / 2 ^ 16)"
    by (simp add: add_divide_distrib)
  also have "\<dots> = Fin (of_int (H * 65536 + L) / 2 ^ 16)" using b by (intro fl_exact) simp_all
  finally have a: "fadd (Fin (of_int H)) (Fin (of_int L / 2 ^ 16)) = Fin (of_int (H * 65536 + L) / 2 ^ 16)"
    by simp
  show ?thesis unfolding fixed_point_scale_def and_FFFF HL [symmetric] f rbind_Inr d a by (rule refl)
qed

lemma voltage_scale_exact: "voltage_scale ctx = Inr (Fin (of_int (scale_bits ctx 0) / 2 ^ 16))"
  by (simp add: voltage_scale_def fixed_point_exact scale_bits_def)

lemma current_scale_exact: "current_scale ctx = Inr (Fin (of_int (scale_bits ctx 2) / 2 ^ 16))"
  by (simp add: current_scale_def fixed_point_exact scale_bits_def)

lemma scaled_16_exact:
  assumes "0 \<le> S" "S < 2 ^ 32"
  shows "scaled_16 raw (Fin (of_int S / 2 ^ 16)) = Inr (Fin (of_int (signed_16 raw * S) / 2 ^ 31))"
proof -
  have s: "\<bar>signed_16 raw\<bar> \<le> 2 ^ 15" using signed_16_bounds [of raw] by (simp add: abs_le_iff)
  have "\<bar>signed_16 raw * S\<bar> \<le> 2 ^ 15 * 2 ^ 32"
    unfolding abs_mult using assms by (intro mult_mono s) simp_all
  then have b: "\<bar>signed_16 raw * S\<bar> \<le> 2 ^ 53" by simp
  have "float_of_int (signed_16 raw) = Inr (Fin (of_int (signed_16 raw)))"
    using s by (intro float_of_int_exact) simp
  moreover have "fl (of_int (signed_16 raw) * (of_int S / 2 ^ 16)) = Fin (of_int (signed_16 raw * S) / 2 ^ 16)"
    using fl_exact [OF b, of 16] by simp
  moreover have "fdiv (Fin (of_int (signed_16 raw * S) / 2 ^ 16)) (Fin 32768)
      = Inr (Fin (of_int (signed_16 raw * S) / 2 ^ 31))"
    using fdiv_pow2 [OF b, of 16 15] by simp
  ultimately show ?thesis by (simp add: scaled_16_def mul_int_float_def del: of_int_mult)
qed

section \<open>The static check of a decoder\<close>

definition parses :: "(rat \<Rightarrow> bool) \<Rightarrow> string \<Rightarrow> bool" where
  "parses p text = (case parse_literal text of None \<Rightarrow> False | Some x \<Rightarrow> p x)"

definition decoder_ok :: "string \<Rightarrow> int \<Rightarrow> bool" where
  "decoder_ok d n = (0 < n \<and>
    (if d = ''raw'' \<or> d = ''s16'' \<or> d = ''f16'' \<or> d = ''bcd'' \<or> d = ''byte_pair_version'' then True
     else if d = ''f32'' \<or> d = ''u32'' \<or> d = ''s32'' then n = 2
     else if startswith ''u32_factor:'' d \<or> startswith ''s32_factor:'' d then
       n = 2 \<and> parses (\<lambda>_. True) (decoder_arg d)
     else if d = ''ascii_lo_hi'' \<or> d = ''ascii_hi_lo'' \<or> d = ''bitfield_words'' \<or> d = ''f16_percent''
     then True
     else if startswith ''factor:'' d \<or> startswith ''ufactor:'' d then
       parses (\<lambda>_. True) (decoder_arg d)
     else if startswith ''divide:'' d \<or> startswith ''udivide:'' d \<or> startswith ''percent:'' d then
       parses (\<lambda>x. 1 \<le> x) (decoder_arg d)
     else d = ''tristar_voltage'' \<or> d = ''tristar_current'' \<or> d = ''tristar_power'' \<or>
       d = ''tristar_rts_temp'' \<or> startswith ''ts600_'' d \<or> d = ''suresine_classic_current''))"

text \<open>A result that is a value, not an exception.\<close>

definition returns :: "'a res \<Rightarrow> bool" where
  "returns r \<longleftrightarrow> (\<exists>x. r = Inr x)"

lemma returns_Inr [simp]: "returns (Inr x)"
  by (simp add: returns_def)

lemma returns_if: "(c \<Longrightarrow> returns a) \<Longrightarrow> (\<not> c \<Longrightarrow> returns b) \<Longrightarrow> returns (if c then a else b)"
  by simp

lemma returns_rbind: "m = Inr x \<Longrightarrow> returns (f x) \<Longrightarrow> returns (rbind m f)"
  by simp

lemma returns_vfloat [simp]: "returns (vfloat r) = returns r"
  by (cases r) (simp_all add: vfloat_def returns_def)

lemma parsesE: "parses p t \<Longrightarrow> (\<And>x. parse_float t = Inr (fl x) \<Longrightarrow> p x \<Longrightarrow> Q) \<Longrightarrow> Q"
  by (auto simp: parses_def parse_float_def split: option.splits)

lemma fl_not_0: "1 \<le> x \<Longrightarrow> fl x \<noteq> Fin 0"
  using fl_le [of "Fin 1" 1 x] fl_int [of 1] by auto

lemma fdiv_returns: "x \<noteq> Fin 0 \<Longrightarrow> returns (fdiv a x)"
  by (cases x) (auto simp: returns_def)

lemma mul_returns: "\<bar>i\<bar> \<le> 2 ^ 53 \<Longrightarrow> returns (mul_int_float i x)"
  by (simp add: mul_int_float_def float_of_int_exact)

lemma div_returns: "\<bar>i\<bar> \<le> 2 ^ 53 \<Longrightarrow> x \<noteq> Fin 0 \<Longrightarrow> returns (div_int_float i x)"
  by (simp add: div_int_float_def float_of_int_exact fdiv_returns)

lemma small_ints:
  "\<bar>signed_16 v\<bar> \<le> 2 ^ 53" "\<bar>v mod 65536\<bar> \<le> 2 ^ 53" "\<bar>word_pair ws\<bar> \<le> 2 ^ 53"
  "signed_32 ws = Inr i \<Longrightarrow> \<bar>i\<bar> \<le> 2 ^ 53"
  using signed_16_bounds [of v] word_pair_bounds [of ws] signed_32_bounds [of ws i]
    pos_mod_bound [of 65536 v] pos_mod_sign [of 65536 v]
  by (simp_all add: abs_le_iff)

lemmas int_returns =
  mul_returns [OF small_ints(1)] mul_returns [OF small_ints(2)] mul_returns [OF small_ints(3)]
  div_returns [OF small_ints(1)] div_returns [OF small_ints(2)]

lemma scaled_16_returns: "returns (scaled_16 raw x)"
proof -
  obtain p where "mul_int_float (signed_16 raw) x = Inr p"
    using mul_returns [OF small_ints(1)] by (auto simp: returns_def)
  then show ?thesis by (simp add: scaled_16_def fdiv_returns)
qed

lemma power_returns:
  "returns (rbind (mul_int_float (raw AND 0xFFFF) v) (\<lambda>p. fdiv (fmul p c) (Fin 131072)))"
proof -
  obtain p where "mul_int_float (raw AND 0xFFFF) v = Inr p"
    using mul_returns [OF small_ints(2)] by (auto simp: returns_def and_FFFF)
  then show ?thesis by (simp add: fdiv_returns)
qed

lemma percent_returns:
  "x \<noteq> Fin 0 \<Longrightarrow> returns (rbind (mul_int_float (raw AND 0xFFFF) (Fin 100)) (\<lambda>p. fdiv p x))"
proof -
  assume x: "x \<noteq> Fin 0"
  obtain p where "mul_int_float (raw AND 0xFFFF) (Fin 100) = Inr p"
    using mul_returns [OF small_ints(2)] by (auto simp: returns_def and_FFFF)
  then show ?thesis using x by (simp add: fdiv_returns)
qed

lemma factor_returns:
  "parses p t \<Longrightarrow> (\<And>x. p x \<Longrightarrow> returns (f (fl x))) \<Longrightarrow> returns (rbind (parse_float t) f)"
  by (erule parsesE) simp

lemma s32_factor_returns:
  "length ws = 2 \<Longrightarrow> parses p t \<Longrightarrow>
   returns (rbind (signed_32 ws) (\<lambda>i. vfloat (rbind (parse_float t) (mul_int_float i))))"
  using signed_32_Inr [of ws] mul_returns [OF small_ints(4)] by (auto elim!: parsesE)

lemma s32_returns: "length ws = 2 \<Longrightarrow> returns (rbind (signed_32 ws) (\<lambda>i. Inr (f i)))"
  using signed_32_Inr [of ws] by simp

lemma decode_value_returns:
  assumes "decoder_ok d (int (length words))"
  shows "returns (decode_value d words ctx)"
proof -
  have ne: "words \<noteq> []" using assms by (auto simp: decoder_ok_def)
  have two: "int (length words) = 2 \<longleftrightarrow> length words = 2" by linarith
  show ?thesis
    using assms ne unfolding decode_value_def decoder_ok_def Let_def two
    by (intro returns_if)
      (simp_all add: float32_def voltage_scale_exact current_scale_exact scaled_16_returns
        power_returns [unfolded and_FFFF] s32_returns s32_factor_returns [of _ "\<lambda>_. True"] and_FFFF int_returns
        percent_returns [unfolded and_FFFF] factor_returns [of "\<lambda>_. True"]
        factor_returns [of "\<lambda>x. 1 \<le> x"] fl_not_0 del: fdiv.simps)
qed

section \<open>Properties\<close>

text \<open>The mask-and-subtract decoders compute two's complement: \<open>signed_16\<close> is the signed value of
  the register as a 16-bit word, \<open>signed_32\<close> that of the 32-bit word whose high half comes first.\<close>

theorem signed_decoders_twos_complement:
  "signed_16 v = sint (word_of_int v :: 16 word) \<and>
   signed_32 [high, low] = Inr (sint (word_of_int (high * 65536 + low mod 65536) :: 32 word))"
proof
  show "signed_16 v = sint (word_of_int v :: 16 word)"
    by (simp add: signed_16_shift sint_sbintrunc' signed_take_bit_eq_take_bit_shift take_bit_eq_mod)
  obtain l where l: "l = low mod 65536" by blast
  have "high mod 65536 * 65536 mod 4294967296 = high * 65536 mod 4294967296"
    using mod_mult_mult2 [of high 65536 65536] mod_mult_mult2 [of "high mod 65536" 65536 65536] by simp
  then have "(high mod 65536 * 65536 + l + 2147483648) mod 4294967296
      = (high * 65536 + l + 2147483648) mod 4294967296"
    unfolding add.assoc by (rule mod_add_cong) simp
  then show "signed_32 [high, low] = Inr (sint (word_of_int (high * 65536 + low mod 65536) :: 32 word))"
    unfolding sint_sbintrunc'
    by (simp add: signed_32_Inr word_pair_arith l signed_take_bit_eq_take_bit_shift take_bit_eq_mod)
qed

text \<open>Packed-decimal registers round trip: the packed form of every number below ten thousand
  decodes to it, and a register with a nibble that is no decimal digit is passed through.\<close>

theorem bcd_integer_roundtrip:
  "(0 \<le> n \<and> n < 10000 \<longrightarrow> bcd_integer (bcd_word n) = n) \<and>
   ((\<exists>s \<in> {0, 4, 8, 12}. 9 < nibble v s) \<longrightarrow> bcd_integer v = v)"
proof (intro conjI impI)
  assume n: "0 \<le> n \<and> n < 10000"
  have "m mod 10 \<le> 9" for m :: int using pos_mod_bound [of 10 m] by simp
  moreover from n have "n div 1000 \<le> 9" by linarith
  ultimately have d: "n div 1000 \<le> 9" "n div 100 mod 10 \<le> 9" "n div 10 mod 10 \<le> 9" "n mod 10 \<le> 9"
    by simp_all
  have w: "nibble (bcd_word n) 12 = n div 1000" "nibble (bcd_word n) 8 = n div 100 mod 10"
    "nibble (bcd_word n) 4 = n div 10 mod 10" "nibble (bcd_word n) 0 = n mod 10"
    using bcd_word_nibbles [of n] n by blast+
  have "bcd_integer (bcd_word n) =
      1000 * (n div 1000) + 100 * (n div 100 mod 10) + 10 * (n div 10 mod 10) + n mod 10"
    unfolding w [symmetric] by (rule bcd_integer_digits) (simp_all only: w d)
  then show "bcd_integer (bcd_word n) = n" unfolding decimal_digits .
next
  assume "\<exists>s \<in> {0, 4, 8, 12}. 9 < nibble v s"
  then show "bcd_integer v = v" by (auto simp: bcd_integer_def)
qed

theorem bcd_integer_roundtrip_witness:
  "bcd_integer (bcd_word 2905) = 2905 \<and> bcd_integer 0x1F = 0x1F"
  using bcd_integer_roundtrip [of 2905 "0x1F"] by (simp add: nibble_arith)

text \<open>The IEEE decoder behind \<open>float16\<close> and \<open>float32\<close> respects the order of the patterns, for
  every width: larger patterns up to infinity are strictly larger values, the sign bit negates,
  and the patterns above infinity are NaN.\<close>

theorem ieee_unpack_order:
  "(0 \<le> a \<and> a < b \<and> b \<le> (2 ^ eb - 1) * 2 ^ mb \<longrightarrow> flt (ieee_unpack eb mb a) (ieee_unpack eb mb b)) \<and>
   (0 \<le> a \<and> a < 2 ^ (eb + mb) \<longrightarrow> ieee_unpack eb mb (a + 2 ^ (eb + mb)) = fneg (ieee_unpack eb mb a)) \<and>
   ((2 ^ eb - 1) * 2 ^ mb < a \<and> a < 2 ^ (eb + mb) \<longrightarrow> ieee_unpack eb mb a = NaN) \<and>
   float16 0x3C00 = Fin 1 \<and> float32 [0x3F80, 0] = Inr (Fin 1)"
proof (intro conjI impI)
  show "0 \<le> a \<and> a < b \<and> b \<le> (2 ^ eb - 1) * 2 ^ mb \<Longrightarrow> flt (ieee_unpack eb mb a) (ieee_unpack eb mb b)"
    by (rule ieee_unpack_less) simp_all
  show "0 \<le> a \<and> a < 2 ^ (eb + mb) \<Longrightarrow> ieee_unpack eb mb (a + 2 ^ (eb + mb)) = fneg (ieee_unpack eb mb a)"
    by (rule ieee_unpack_sign) simp_all
  assume a: "(2 ^ eb - 1) * 2 ^ mb < a \<and> a < 2 ^ (eb + mb)"
  obtain m where m: "m = a - (2 ^ eb - 1) * 2 ^ mb" by blast
  have mb: "0 < m" "m < 2 ^ mb" using a by (simp_all add: m power_add algebra_simps)
  have am: "a = m + (2 ^ eb - 1) * 2 ^ mb" by (simp add: m)
  have "a div 2 ^ mb = 2 ^ eb - 1" "a mod 2 ^ mb = m" unfolding am using mb by simp_all
  moreover have "0 \<le> a" using a by (smt (verit) mult_nonneg_nonneg one_le_power zero_le_power)
  ultimately show "ieee_unpack eb mb a = NaN" using a mb by (simp add: ieee_unpack_nonneg)
qed code_simp+

theorem ieee_unpack_order_witness:
  "flt (ieee_unpack 5 10 0x3C00) (ieee_unpack 5 10 0x4000) \<and>
   ieee_unpack 5 10 (0x3C00 + 0x8000) = fneg (ieee_unpack 5 10 0x3C00)"
  using ieee_unpack_order [of "0x3C00" "0x4000" 5 10] by simp

text \<open>C15: the voltages and currents of the TriStar MPPT are decoded without rounding: the value is the
  signed register times the 16.16 fixed-point scale over \<open>2^15\<close>, exactly, and its magnitude
  never exceeds the scale; the 600 V model agrees below firmware 19.\<close>

theorem tristar_scaling_exact:
  "decode_value ''tristar_voltage'' [raw] ctx =
     Inr (VFloat (Fin (of_int (signed_16 raw * scale_bits ctx 0) / 2 ^ 31))) \<and>
   decode_value ''tristar_current'' [raw] ctx =
     Inr (VFloat (Fin (of_int (signed_16 raw * scale_bits ctx 2) / 2 ^ 31))) \<and>
   \<bar>signed_16 raw * scale_bits ctx k\<bar> \<le> 2 ^ 15 * scale_bits ctx k \<and>
   (bcd_integer (context_word ctx 4) < 19 \<longrightarrow>
     decode_value ''ts600_voltage'' [raw] ctx = decode_value ''tristar_voltage'' [raw] ctx \<and>
     decode_value ''ts600_current'' [raw] ctx = decode_value ''tristar_current'' [raw] ctx)"
proof -
  have v: "decode_value ''tristar_voltage'' [raw] ctx = vfloat (rbind (voltage_scale ctx) (scaled_16 raw))"
    and c: "decode_value ''tristar_current'' [raw] ctx = vfloat (rbind (current_scale ctx) (scaled_16 raw))"
    by (simp_all add: decode_value_def startswith_def)
  have "bcd_integer (context_word ctx 4) < 19 \<longrightarrow>
     decode_value ''ts600_voltage'' [raw] ctx = vfloat (rbind (voltage_scale ctx) (scaled_16 raw)) \<and>
     decode_value ''ts600_current'' [raw] ctx = vfloat (rbind (current_scale ctx) (scaled_16 raw))"
    by (simp add: decode_value_def startswith_def)
  moreover have "\<bar>signed_16 raw * scale_bits ctx k\<bar> \<le> 2 ^ 15 * scale_bits ctx k"
    using signed_16_bounds [of raw] scale_bits_bounds [of ctx k]
    by (simp add: abs_mult abs_le_iff mult_right_mono)
  ultimately show ?thesis
    unfolding v c voltage_scale_exact current_scale_exact rbind_Inr
      scaled_16_exact [OF scale_bits_bounds [THEN conjunct1] scale_bits_bounds [THEN conjunct2]]
    by (simp add: vfloat_def)
qed

theorem tristar_scaling_exact_witness:
  "decode_value ''ts600_voltage'' [0x4000] [0 \<mapsto> 180, 1 \<mapsto> 0, 4 \<mapsto> 0x18] =
   decode_value ''tristar_voltage'' [0x4000] [0 \<mapsto> 180, 1 \<mapsto> 0, 4 \<mapsto> 0x18]"
proof -
  have "bcd_integer (context_word [0 \<mapsto> 180, 1 \<mapsto> 0, 4 \<mapsto> 0x18] 4) < 19" by code_simp
  then show ?thesis using tristar_scaling_exact by blast
qed

text \<open>The words of a bit-field register are read with the least significant word first: bit
  \<open>16 * i + b\<close> of the decoded integer is bit \<open>b\<close> of word \<open>i\<close>, and nothing lies above the last word.\<close>

theorem little_word_integer_bits:
  "(\<forall>i < length words. little_word_integer words div 2 ^ (16 * i) mod 65536 = words ! i mod 65536) \<and>
   0 \<le> little_word_integer words \<and> little_word_integer words < 2 ^ (16 * length words)"
  using little_words_from_bounds [of 0 0 words] by (simp add: little_word_integer_def)

theorem little_word_integer_bits_witness:
  "little_word_integer [0x1234, 0xABCD] div 2 ^ (16 * 1) mod 65536 = [0x1234, 0xABCD] ! 1 mod 65536"
  using little_word_integer_bits [of "[0x1234, 0xABCD]"] by (simp only: less_Suc_eq list.size)

end
