(* ===== verification/Domain_Models.thy ===== *)
theory Domain_Models
  imports Py_Text
begin

text \<open>
  The immutable data models of \<open>domain/models.py\<close> and \<open>intelligence/models.py\<close>: one record per
  dataclass, one datatype per \<open>Literal\<close>.  \<open>locator\<close> and \<open>stable_key\<close> are the computed
  properties of \<open>Endpoint\<close>; the lemmas say which changes of an endpoint keep its key.
\<close>

section \<open>\<open>domain/models.py\<close>\<close>

datatype transport_name = Serial | Tcp
datatype register_function = Holding | Input

fun transport_str :: "transport_name \<Rightarrow> string" where
  "transport_str Serial = ''serial''"
| "transport_str Tcp = ''tcp''"

fun function_str :: "register_function \<Rightarrow> string" where
  "function_str Holding = ''holding''"
| "function_str Input = ''input''"

record device_identification =
  vendor_name :: string
  product_code :: string
  major_minor_revision :: string
  conformity_level :: nat
  raw_objects :: "(nat \<times> string) list"
  raw_pdu_hex :: string

definition empty_identification :: device_identification where
  "empty_identification = \<lparr>vendor_name = '''', product_code = '''', major_minor_revision = '''',
     conformity_level = 0, raw_objects = [], raw_pdu_hex = ''''\<rparr>"

record endpoint =
  ep_transport :: transport_name
  ep_target :: string
  ep_unit_id :: int
  ep_port :: "int option"
  ep_baudrate :: "int option"
  ep_stop_bits :: "int option"
  ep_usb_serial :: "string option"
  ep_usb_vid :: "nat option"
  ep_usb_pid :: "nat option"

text \<open>\<open>x or default\<close> on an optional integer: both \<open>None\<close> and 0 give the default.\<close>

definition int_or :: "int option \<Rightarrow> int \<Rightarrow> int" where
  "int_or x d = (case x of None \<Rightarrow> d | Some n \<Rightarrow> if n = 0 then d else n)"

definition locator :: "endpoint \<Rightarrow> string" where
  "locator e = (if ep_transport e = Tcp
     then ep_target e @ '':'' @ show_int (int_or (ep_port e) 502) else ep_target e)"

text \<open>An optional string is true when it is present and not empty.\<close>

definition truthy :: "string option \<Rightarrow> bool" where
  "truthy s = (case s of None \<Rightarrow> False | Some t \<Rightarrow> t \<noteq> [])"

definition stable_key :: "endpoint \<Rightarrow> string" where
  "stable_key e =
    (if ep_transport e = Serial \<and> truthy (ep_usb_serial e) then
       ''serial:usb:'' @ the (ep_usb_serial e) @ '':unit:'' @ show_int (ep_unit_id e)
     else if ep_transport e = Serial \<and> ep_usb_vid e \<noteq> None \<and> ep_usb_pid e \<noteq> None then
       ''serial:vidpid:'' @ hex04 (the (ep_usb_vid e)) @ '':'' @ hex04 (the (ep_usb_pid e)) @ '':'' @
         ep_target e @ '':unit:'' @ show_int (ep_unit_id e)
     else transport_str (ep_transport e) @ '':'' @ locator e @ '':unit:'' @ show_int (ep_unit_id e))"

record register_value =
  rv_name :: string
  rv_address :: int
  rv_function :: register_function
  rv_raw :: "int list"
  rv_value :: pyval
  rv_unit :: "string option"

text \<open>One request/response exchange; its wall-clock timestamp and latency are not modelled.\<close>

record modbus_exchange =
  ex_transport :: transport_name
  ex_unit_id :: int
  ex_function_code :: nat
  ex_address :: "nat option"
  ex_count :: "nat option"
  ex_request_hex :: string
  ex_response_hex :: string
  ex_request_pdu_hex :: string
  ex_response_pdu_hex :: string
  ex_error :: "py_error option"

section \<open>\<open>intelligence/models.py\<close>\<close>

datatype intelligence_status =
    Verified | Probable | FamilyOnly | NewerFirmwareUnverified | GenericStatus | Invalid

datatype severity = Info | Warning | Error

record intelligence_evidence =
  ev_code :: string
  ev_message :: string
  ev_weight :: pyfloat
  ev_passed :: bool

record validation_issue =
  vi_code :: string
  vi_message :: string
  vi_severity :: severity

record device_intelligence =
  di_profile :: string
  di_family :: string
  di_model :: string
  di_serial_number :: string
  di_firmware :: string
  di_hardware_revision :: string
  di_catalog_revision :: string
  di_confidence :: pyfloat
  di_status :: intelligence_status
  di_capabilities :: "string list"
  di_network :: "(string \<times> string) list"
  di_evidence :: "intelligence_evidence list"
  di_warnings :: "validation_issue list"
  di_metadata :: "(string \<times> pyval) list"

record discovered_device =
  dd_endpoint :: endpoint
  dd_identification :: device_identification
  dd_latency_ms :: pyfloat
  dd_profile :: string
  dd_intelligence :: "device_intelligence option"

section \<open>Keys of endpoints\<close>

lemma show_nat_not_minus: "CHR ''-'' \<notin> set (show_nat n)"
proof
  assume "CHR ''-'' \<in> set (show_nat n)"
  with show_nat_digits [of n] have "is_digit (CHR ''-'')" by (auto simp: list_all_iff)
  then show False by (simp add: is_digit_def code_of_def)
qed

lemma show_int_inj: "show_int a = show_int b \<Longrightarrow> a = b"
  using show_nat_not_minus [of "nat a"] show_nat_not_minus [of "nat b"]
  by (auto simp: show_int_def dest!: show_nat_inj split: if_splits) (metis list.set_intros(1))+

lemma show_int_no_colon: "CHR '':'' \<notin> set (show_int a)"
proof
  assume "CHR '':'' \<in> set (show_int a)"
  then have "is_digit (CHR '':'')"
    using show_nat_digits [of "nat a"] show_nat_digits [of "nat (- a)"]
    by (auto simp: show_int_def list_all_iff split: if_splits)
  then show False by (simp add: is_digit_def code_of_def)
qed

text \<open>The text after the last occurrence of a character determines the split.\<close>

lemma last_split_unique:
  assumes "xs @ c # s = ys @ c # t" "c \<notin> set s" "c \<notin> set t"
  shows "xs = ys \<and> s = t"
  using assms by (auto simp: append_eq_append_conv2 Cons_eq_append_conv append_eq_Cons_conv)

text \<open>Every key ends in the unit number, so two endpoints with the same key have the same unit.\<close>

lemma stable_key_suffix: "\<exists>p. stable_key e = p @ '':unit:'' @ show_int (ep_unit_id e)"
  by (cases "ep_transport e = Serial \<and> truthy (ep_usb_serial e)";
      cases "ep_transport e = Serial \<and> ep_usb_vid e \<noteq> None \<and> ep_usb_pid e \<noteq> None")
    (auto simp: stable_key_def)

text \<open>Endpoints that share a stable key address the same Modbus unit, and the key of an
  adapter with a USB serial number does not depend on the path, the USB ids or the line
  settings, so an adapter that moves to another device path keeps its key.\<close>

theorem stable_key_identity:
  "(stable_key e = stable_key e' \<longrightarrow> ep_unit_id e = ep_unit_id e') \<and>
   (ep_transport e = Serial \<and> truthy (ep_usb_serial e) \<longrightarrow>
      stable_key (e\<lparr>ep_target := t, ep_port := p, ep_baudrate := b, ep_stop_bits := s,
                    ep_usb_vid := v, ep_usb_pid := d\<rparr>) = stable_key e)"
proof (intro conjI impI)
  assume k: "stable_key e = stable_key e'"
  obtain p q where p: "stable_key e = p @ '':unit:'' @ show_int (ep_unit_id e)"
    and q: "stable_key e' = q @ '':unit:'' @ show_int (ep_unit_id e')"
    using stable_key_suffix by metis
  have "(p @ '':unit'') @ CHR '':'' # show_int (ep_unit_id e)
      = (q @ '':unit'') @ CHR '':'' # show_int (ep_unit_id e')"
    using k p q by simp
  then have "show_int (ep_unit_id e) = show_int (ep_unit_id e')"
    using last_split_unique show_int_no_colon by metis
  then show "ep_unit_id e = ep_unit_id e'" by (rule show_int_inj)
next
  assume "ep_transport e = Serial \<and> truthy (ep_usb_serial e)"
  then show "stable_key (e\<lparr>ep_target := t, ep_port := p, ep_baudrate := b, ep_stop_bits := s,
                    ep_usb_vid := v, ep_usb_pid := d\<rparr>) = stable_key e"
    by (simp add: stable_key_def)
qed

theorem stable_key_identity_witness:
  "stable_key \<lparr>ep_transport = Serial, ep_target = ''/dev/ttyUSB1'', ep_unit_id = 1, ep_port = None,
      ep_baudrate = None, ep_stop_bits = None, ep_usb_serial = Some ''A50'', ep_usb_vid = None,
      ep_usb_pid = None\<rparr> =
   stable_key \<lparr>ep_transport = Serial, ep_target = ''/dev/ttyUSB0'', ep_unit_id = 1, ep_port = None,
      ep_baudrate = None, ep_stop_bits = None, ep_usb_serial = Some ''A50'', ep_usb_vid = None,
      ep_usb_pid = None\<rparr>"
  using stable_key_identity [where t = "''/dev/ttyUSB1''" and p = None and b = None and s = None
      and v = None and d = None and e =
    "\<lparr>ep_transport = Serial, ep_target = ''/dev/ttyUSB0'', ep_unit_id = 1, ep_port = None,
      ep_baudrate = None, ep_stop_bits = None, ep_usb_serial = Some ''A50'', ep_usb_vid = None,
      ep_usb_pid = None\<rparr>"]
  by (simp add: truthy_def)

end
