(* ===== verification/Catalog_Types.thy ===== *)
theory Catalog_Types
  imports Domain_Models "HOL-Library.Product_Lexorder"
begin

text \<open>
  The declarative types of \<open>catalog/types.py\<close>.  Each dataclass is a record; its constructor is
  the function of the same name, which takes the fields without a default and fills in the
  others, so that a catalog entry is written as the constructor followed by an update of the
  keyword arguments the source gives.
\<close>

datatype register_category =
    Telemetry | StateCategory | FaultCategory | AlarmCategory | Metadata | Network | Configuration

datatype verification_state = VVerified | VPartial | VSynthetic | VPending | VUnverified

record verification_spec =
  vs_document :: verification_state
  vs_software :: verification_state
  vs_fixture :: verification_state
  vs_hardware :: verification_state
  vs_firmware_versions :: "string list"
  vs_models :: "string list"
  vs_fixture_paths :: "string list"
  vs_notes :: string

definition VerificationSpec :: verification_spec where
  "VerificationSpec = \<lparr>vs_document = VVerified, vs_software = VVerified, vs_fixture = VPending,
     vs_hardware = VPending, vs_firmware_versions = [], vs_models = [], vs_fixture_paths = [],
     vs_notes = ''''\<rparr>"

record register_block =
  rb_address :: int
  rb_count :: int
  rb_function :: register_function
  rb_category :: register_category
  rb_optional :: bool
  rb_cache :: bool
  rb_since_firmware :: "string option"
  rb_until_firmware :: "string option"

definition RegisterBlock :: "int \<Rightarrow> int \<Rightarrow> register_block" where
  "RegisterBlock address count = \<lparr>rb_address = address, rb_count = count, rb_function = Holding,
     rb_category = Telemetry, rb_optional = False, rb_cache = False,
     rb_since_firmware = None, rb_until_firmware = None\<rparr>"

record reserved_register_range =
  rr_address :: int
  rr_count :: int
  rr_function :: register_function
  rr_description :: string
  rr_since_firmware :: "string option"
  rr_until_firmware :: "string option"

definition ReservedRegisterRange :: "int \<Rightarrow> reserved_register_range" where
  "ReservedRegisterRange address = \<lparr>rr_address = address, rr_count = 1, rr_function = Holding,
     rr_description = ''Reserved by the manufacturer.'',
     rr_since_firmware = None, rr_until_firmware = None\<rparr>"

record register_spec =
  rs_name :: string
  rs_address :: int
  rs_function :: register_function
  rs_words :: int
  rs_decoder :: string
  rs_unit :: "string option"
  rs_category :: register_category
  rs_enum :: "(int \<times> string) list"
  rs_bits :: "(nat \<times> string) list"
  rs_description :: string
  rs_since_firmware :: "string option"
  rs_until_firmware :: "string option"

definition RegisterSpec :: "string \<Rightarrow> int \<Rightarrow> register_spec" where
  "RegisterSpec name address = \<lparr>rs_name = name, rs_address = address, rs_function = Holding,
     rs_words = 1, rs_decoder = ''raw'', rs_unit = None, rs_category = Telemetry, rs_enum = [],
     rs_bits = [], rs_description = '''', rs_since_firmware = None, rs_until_firmware = None\<rparr>"

record device_profile_spec =
  sp_name :: string
  sp_family :: string
  sp_aliases :: "string list"
  sp_source_id :: string
  sp_source_url :: string
  sp_blocks :: "register_block list"
  sp_registers :: "register_spec list"
  sp_reserved_ranges :: "reserved_register_range list"
  sp_capabilities :: "string list"
  sp_network :: "(string \<times> string) list"
  sp_detection_priority :: int
  sp_coverage :: string
  sp_notes :: string
  sp_catalog_revision :: string
  sp_firmware_verified_min :: "string option"
  sp_firmware_verified_max :: "string option"
  sp_verification :: verification_spec

definition DeviceProfileSpec ::
  "string \<Rightarrow> string \<Rightarrow> string list \<Rightarrow> string \<Rightarrow> string \<Rightarrow> register_block list \<Rightarrow> register_spec list
   \<Rightarrow> device_profile_spec" where
  "DeviceProfileSpec name family aliases source_id source_url blocks registers =
    \<lparr>sp_name = name, sp_family = family, sp_aliases = aliases, sp_source_id = source_id,
     sp_source_url = source_url, sp_blocks = blocks, sp_registers = registers,
     sp_reserved_ranges = [], sp_capabilities = [], sp_network = [], sp_detection_priority = 100,
     sp_coverage = ''documented'', sp_notes = '''', sp_catalog_revision = '''',
     sp_firmware_verified_min = None, sp_firmware_verified_max = None,
     sp_verification = VerificationSpec\<rparr>"

definition register_names :: "device_profile_spec \<Rightarrow> string list" where
  "register_names spec = map rs_name (sp_registers spec)"

lemmas catalog_defaults =
  RegisterBlock_def ReservedRegisterRange_def RegisterSpec_def DeviceProfileSpec_def VerificationSpec_def

text \<open>Register functions are ordered as their names are: \<open>"holding" < "input"\<close>.\<close>

instantiation register_function :: linorder
begin

definition less_eq_register_function :: "register_function \<Rightarrow> register_function \<Rightarrow> bool" where
  "less_eq_register_function a b = (a = Holding \<or> b = Input)"

definition less_register_function :: "register_function \<Rightarrow> register_function \<Rightarrow> bool" where
  "less_register_function a b = (a = Holding \<and> b = Input)"

instance
proof
  fix x y z :: register_function
  show "(x < y) = (x \<le> y \<and> \<not> y \<le> x)"
    by (cases x; cases y) (simp_all add: less_eq_register_function_def less_register_function_def)
  show "x \<le> x" by (cases x) (simp_all add: less_eq_register_function_def)
  show "x \<le> y \<Longrightarrow> y \<le> z \<Longrightarrow> x \<le> z"
    by (cases x; cases y; cases z) (simp_all add: less_eq_register_function_def)
  show "x \<le> y \<Longrightarrow> y \<le> x \<Longrightarrow> x = y"
    by (cases x; cases y) (simp_all add: less_eq_register_function_def)
  show "x \<le> y \<or> y \<le> x" by (cases x; cases y) (simp_all add: less_eq_register_function_def)
qed

end

end
