(* ===== verification/Families_GenStar.thy ===== *)
theory Families_GenStar
  imports Catalog_Common
begin

text \<open>
  The GenStar MPPT catalog: \<open>families/genstar_mppt.py\<close> and the extension of it that the registry
  uses, \<open>families/genstar_mppt_system_metering.py\<close>.
\<close>

section \<open>GenStar MPPT\<close>

definition SOURCE_genstar :: "string" where
  "SOURCE_genstar = ''https://www.morningstarcorp.com/wp-content/uploads/technical-doc-genstar-mppt-modbus-specification-en.pdf''"

definition CHARGE_STATES_genstar :: "(int \<times> string) list" where
  "CHARGE_STATES_genstar = [(0, ''STARTING''), (1, ''NIGHT_CHECK''), (2, ''DISCONNECTED''), (3,
    ''NIGHT''), (4, ''FAULT''), (5, ''BULK''), (6, ''ABSORPTION''), (7, ''FLOAT''), (8, ''EQUALIZE'')]"

definition LOAD_STATES_genstar :: "(int \<times> string) list" where
  "LOAD_STATES_genstar = [(0, ''START''), (1, ''NORMAL''), (2, ''LVD_WARNING''), (3, ''LVD''), (4,
    ''FAULT''), (5, ''DISCONNECT''), (6, ''NORMAL_OFF''), (7, ''OVERRIDE'')]"

definition SYSTEM_FAULTS_genstar :: "(nat \<times> string) list" where
  "SYSTEM_FAULTS_genstar = [(0, ''eeprom_chip_failure''), (2, ''software_fault''), (3,
    ''no_model_number''), (6, ''eeprom_settings_edit''), (8, ''bms_required''), (10, ''software_reset''),
    (15, ''adc_overrun''), (16, ''adc_no_injection''), (17, ''adc_double_injection''), (18,
    ''battery_shunt_missing''), (29, ''eeprom_settings_bad''), (30, ''hardware_failure'')]"

definition ALARMS_genstar :: "(nat \<times> string) list" where
  "ALARMS_genstar = [(0, ''rts_open''), (1, ''rts_shorted''), (2, ''rts_disconnected''), (3,
    ''heatsink_sensor_open''), (4, ''heatsink_sensor_shorted''), (5, ''heatsink_overtemp_limiting''), (6,
    ''current_limiting''), (7, ''battery_current_offset''), (8, ''battery_sense_error''), (9,
    ''battery_sense_disconnected''), (10, ''uncalibrated''), (11, ''rts_near_5v''), (17,
    ''high_array_voltage_current_limit''), (23, ''array_current_offset''), (24, ''eeprom_bus_failure''),
    (25, ''ethernet_hardware''), (26, ''entered_lvd''), (27, ''software_runtime_error''), (29,
    ''external_flash_failure''), (32, ''inductor_current_offset''), (33, ''coin_cell_low''), (35,
    ''rtc_wrong''), (36, ''rtc_hardware''), (37, ''casting_temp_sensor_open''), (38,
    ''casting_temp_sensor_short''), (39, ''inductor_casting_overtemp''), (41,
    ''wireless_module_failure''), (42, ''hardware_error_post_startup''), (43, ''unknown_block_type''),
    (44, ''readyblock_1_hardware''), (45, ''readyblock_2_hardware''), (46, ''readyblock_3_hardware''),
    (50, ''generator_start_failed''), (51, ''backup_generator_start_failed''), (52,
    ''schedule_publisher_failed''), (53, ''processor_uncalibrated''), (54, ''load_current_offset''), (55,
    ''load_fet_stuck_open''), (56, ''bms_sense_error''), (57, ''bms_sense_disconnected'')]"

definition LOAD_FAULTS_genstar :: "(nat \<times> string) list" where
  "LOAD_FAULTS_genstar = [(0, ''load_software''), (1, ''load_overcurrent''), (2, ''load_external_short''),
    (3, ''load_power_supply''), (4, ''load_hvd''), (5, ''load_heatsink_overtemp''), (6,
    ''load_fet_shorted''), (7, ''load_system'')]"

definition CHARGE_FAULTS_genstar :: "(nat \<times> string) list" where
  "CHARGE_FAULTS_genstar = [(0, ''software_bug''), (1, ''battery_hvd''), (2, ''rts_shorted''), (3,
    ''rts_disconnected''), (4, ''slave_mode_timeout'')]"

definition registers_genstar_1 :: "register_spec list" where
  "registers_genstar_1 = [
     (RegisterSpec ''firmware_version'' 0x0000) \<lparr>rs_category := Metadata\<rparr>,
     (RegisterSpec ''serial_number'' 0x0001)
        \<lparr>rs_words := 4, rs_decoder := ''ascii_hi_lo'', rs_category := Metadata\<rparr>,
     (RegisterSpec ''software_patchlevel'' 0x0005) \<lparr>rs_category := Metadata\<rparr>,
     (RegisterSpec ''load_current'' 0x001F) \<lparr>rs_decoder := ''f16'', rs_unit := Some ''A''\<rparr>,
     (RegisterSpec ''array_current'' 0x0020) \<lparr>rs_decoder := ''f16'', rs_unit := Some ''A''\<rparr>,
     (RegisterSpec ''battery_terminal_voltage'' 0x0021)
        \<lparr>rs_decoder := ''f16'', rs_unit := Some ''V''\<rparr>,
     (RegisterSpec ''array_voltage'' 0x0022) \<lparr>rs_decoder := ''f16'', rs_unit := Some ''V''\<rparr>,
     (RegisterSpec ''load_voltage'' 0x0023) \<lparr>rs_decoder := ''f16'', rs_unit := Some ''V''\<rparr>,
     (RegisterSpec ''battery_sense_voltage'' 0x0025)
        \<lparr>rs_decoder := ''f16'', rs_unit := Some ''V''\<rparr>,
     (RegisterSpec ''casting_temp'' 0x002A) \<lparr>rs_decoder := ''f16'', rs_unit := Some ''C''\<rparr>,
     (RegisterSpec ''coin_cell_voltage'' 0x0036) \<lparr>rs_decoder := ''f16'', rs_unit := Some ''V''\<rparr>,
     (RegisterSpec ''system_charge_current'' 0x0063)
        \<lparr>rs_decoder := ''f16'', rs_unit := Some ''A''\<rparr>,
     (RegisterSpec ''system_battery_current'' 0x0064)
        \<lparr>rs_decoder := ''f16'', rs_unit := Some ''A''\<rparr>,
     (RegisterSpec ''system_load_current'' 0x0065) \<lparr>rs_decoder := ''f16'', rs_unit := Some ''A''\<rparr>,
     (RegisterSpec ''battery_temp'' 0x0075) \<lparr>rs_decoder := ''f16'', rs_unit := Some ''C''\<rparr>,
     (RegisterSpec ''rts_temp'' 0x0076) \<lparr>rs_decoder := ''f16'', rs_unit := Some ''C''\<rparr>,
     (RegisterSpec ''heatsink_temp'' 0x0077) \<lparr>rs_decoder := ''f16'', rs_unit := Some ''C''\<rparr>,
     (RegisterSpec ''inductor_casting_temp'' 0x0078)
        \<lparr>rs_decoder := ''f16'', rs_unit := Some ''C''\<rparr>,
     (RegisterSpec ''internal_temp'' 0x0079) \<lparr>rs_decoder := ''f16'', rs_unit := Some ''C''\<rparr>,
     (RegisterSpec ''charge_state'' 0x0080)
        \<lparr>rs_category := StateCategory, rs_enum := CHARGE_STATES_genstar\<rparr>,
     (RegisterSpec ''target_voltage'' 0x00B1) \<lparr>rs_decoder := ''f16'', rs_unit := Some ''V''\<rparr>,
     (RegisterSpec ''bms_mode'' 0x00B2) \<lparr>rs_category := StateCategory\<rparr>,
     (RegisterSpec ''slave_target_voltage'' 0x00B4)
        \<lparr>rs_decoder := ''f16'', rs_unit := Some ''V''\<rparr>,
     (RegisterSpec ''max_array_current'' 0x00B5)
        \<lparr>rs_decoder := ''f16'', rs_unit := Some ''A'', rs_category := Metadata\<rparr>,
     (RegisterSpec ''max_charge_current'' 0x00B6)
        \<lparr>rs_decoder := ''f16'', rs_unit := Some ''A'', rs_category := Metadata\<rparr>,
     (RegisterSpec ''max_battery_current'' 0x00B7)
        \<lparr>rs_decoder := ''f16'', rs_unit := Some ''A'', rs_category := Metadata\<rparr>,
     (RegisterSpec ''battery_soc'' 0x00E0) \<lparr>rs_decoder := ''f16_percent'', rs_unit := Some ''%''\<rparr>,
     (RegisterSpec ''battery_voltage_min'' 0x00E1) \<lparr>rs_decoder := ''f16'', rs_unit := Some ''V''\<rparr>,
     (RegisterSpec ''battery_voltage_max'' 0x00E2) \<lparr>rs_decoder := ''f16'', rs_unit := Some ''V''\<rparr>,
     (RegisterSpec ''output_power'' 0x00F0) \<lparr>rs_decoder := ''f16'', rs_unit := Some ''W''\<rparr>,
     (RegisterSpec ''vmp'' 0x00F1) \<lparr>rs_decoder := ''f16'', rs_unit := Some ''V''\<rparr>,
     (RegisterSpec ''pmax'' 0x00F2) \<lparr>rs_decoder := ''f16'', rs_unit := Some ''W''\<rparr>,
     (RegisterSpec ''voc'' 0x00F3) \<lparr>rs_decoder := ''f16'', rs_unit := Some ''V''\<rparr>,
     (RegisterSpec ''array_voltage_reference'' 0x00F4)
        \<lparr>rs_decoder := ''f16'', rs_unit := Some ''V''\<rparr>,
     (RegisterSpec ''load_state'' 0x0100)
        \<lparr>rs_category := StateCategory, rs_enum := LOAD_STATES_genstar\<rparr>,
     (RegisterSpec ''load_faults'' 0x0101)
        \<lparr>rs_words := 2, rs_decoder := ''bitfield_words'', rs_category := FaultCategory,
         rs_bits := LOAD_FAULTS_genstar\<rparr>,
     (RegisterSpec ''system_faults'' 0x0212)
        \<lparr>rs_words := 4, rs_decoder := ''bitfield_words'', rs_category := FaultCategory,
         rs_bits := SYSTEM_FAULTS_genstar\<rparr>,
     (RegisterSpec ''system_faults_daily'' 0x0216)
        \<lparr>rs_words := 4, rs_decoder := ''bitfield_words'', rs_category := FaultCategory,
         rs_bits := SYSTEM_FAULTS_genstar,
         rs_description := ''System faults accumulated in the controller's current daily log.''\<rparr>,
     (RegisterSpec ''alarms'' 0x021A)
        \<lparr>rs_words := 4, rs_decoder := ''bitfield_words'', rs_category := AlarmCategory,
         rs_bits := ALARMS_genstar\<rparr>,
     (RegisterSpec ''alarms_daily'' 0x021E)
        \<lparr>rs_words := 4, rs_decoder := ''bitfield_words'', rs_category := AlarmCategory,
         rs_bits := ALARMS_genstar,
         rs_description := ''Alarms accumulated in the controller's current daily log.''\<rparr>,
     (RegisterSpec ''charge_faults'' 0x0222)
        \<lparr>rs_words := 4, rs_decoder := ''bitfield_words'', rs_category := FaultCategory,
         rs_bits := CHARGE_FAULTS_genstar\<rparr>,
     (RegisterSpec ''charge_faults_daily'' 0x0226)
        \<lparr>rs_words := 4, rs_decoder := ''bitfield_words'', rs_category := FaultCategory,
         rs_bits := CHARGE_FAULTS_genstar,
         rs_description := ''Charge faults accumulated in the controller's current daily log.''\<rparr>,
     (RegisterSpec ''battery_voltage_min_hourly'' 0x026A)
        \<lparr>rs_decoder := ''f16'', rs_unit := Some ''V'',
         rs_description := ''Minimum battery voltage for the controller's current hourly log.''\<rparr>,
     (RegisterSpec ''battery_voltage_max_hourly'' 0x026B)
        \<lparr>rs_decoder := ''f16'', rs_unit := Some ''V'',
         rs_description := ''Maximum battery voltage for the controller's current hourly log.''\<rparr>,
     (RegisterSpec ''battery_voltage_min_daily'' 0x026C)
        \<lparr>rs_decoder := ''f16'', rs_unit := Some ''V'',
         rs_description := ''Minimum battery voltage for the controller's current daily log.''\<rparr>]"

definition registers_genstar_2 :: "register_spec list" where
  "registers_genstar_2 = [
     (RegisterSpec ''battery_voltage_max_daily'' 0x026D)
        \<lparr>rs_decoder := ''f16'', rs_unit := Some ''V'',
         rs_description := ''Maximum battery voltage for the controller's current daily log.''\<rparr>,
     (RegisterSpec ''array_voltage_max_daily'' 0x026E)
        \<lparr>rs_decoder := ''f16'', rs_unit := Some ''V'',
         rs_description := ''Maximum array voltage for the controller's current daily log.''\<rparr>,
     (RegisterSpec ''output_power_max_daily'' 0x0271)
        \<lparr>rs_decoder := ''f16'', rs_unit := Some ''W'',
         rs_description := ''Maximum output power for the controller's current daily log.''\<rparr>,
     (RegisterSpec ''battery_temp_min_daily'' 0x0272)
        \<lparr>rs_decoder := ''f16'', rs_unit := Some ''C'',
         rs_description := ''Minimum battery temperature in the daily log. Morningstar v03 labels the table unit as V while naming/describing this value as battery temperature.''\<rparr>,
     (RegisterSpec ''battery_temp_max_daily'' 0x0273)
        \<lparr>rs_decoder := ''f16'', rs_unit := Some ''C'',
         rs_description := ''Maximum battery temperature in the daily log. Morningstar v03 labels the table unit as V while naming/describing this value as battery temperature.''\<rparr>,
     (RegisterSpec ''absorption_seconds_daily'' 0x0274)
        \<lparr>rs_words := 2, rs_decoder := ''f32'', rs_unit := Some ''s'',
         rs_description := ''Seconds spent in Absorption during the current daily log period.''\<rparr>,
     (RegisterSpec ''equalize_seconds_daily'' 0x0276)
        \<lparr>rs_words := 2, rs_decoder := ''f32'', rs_unit := Some ''s'',
         rs_description := ''Seconds spent in Equalize during the current daily log period.''\<rparr>,
     (RegisterSpec ''float_seconds_daily'' 0x0278)
        \<lparr>rs_words := 2, rs_decoder := ''f32'', rs_unit := Some ''s'',
         rs_description := ''Seconds spent in Float during the current daily log period.''\<rparr>,
     (RegisterSpec ''led_state'' 0x02A0) \<lparr>rs_category := StateCategory\<rparr>,
     (RegisterSpec ''soc_led_state'' 0x02A1) \<lparr>rs_category := StateCategory\<rparr>,
     (RegisterSpec ''system_charge_kwh_daily'' 0x02D0)
        \<lparr>rs_words := 2, rs_decoder := ''f32'', rs_unit := Some ''kWh'',
         rs_description := ''System-wide charge energy accumulated today.''\<rparr>,
     (RegisterSpec ''system_charge_kwh_resettable'' 0x02D2)
        \<lparr>rs_words := 2, rs_decoder := ''u32_factor:0.1'', rs_unit := Some ''kWh'',
         rs_description := ''System-wide resettable charge-energy counter.''\<rparr>,
     (RegisterSpec ''system_charge_kwh_total'' 0x02D4)
        \<lparr>rs_words := 2, rs_decoder := ''u32_factor:0.1'', rs_unit := Some ''kWh'',
         rs_description := ''System-wide lifetime charge-energy counter.''\<rparr>,
     (RegisterSpec ''system_charge_ah_daily'' 0x02D6)
        \<lparr>rs_words := 2, rs_decoder := ''f32'', rs_unit := Some ''Ah'',
         rs_description := ''System-wide charge amp-hours accumulated today.''\<rparr>,
     (RegisterSpec ''system_charge_ah_resettable'' 0x02D8)
        \<lparr>rs_words := 2, rs_decoder := ''u32_factor:0.1'', rs_unit := Some ''Ah'',
         rs_description := ''System-wide resettable charge amp-hour counter.''\<rparr>,
     (RegisterSpec ''system_charge_ah_total'' 0x02DA)
        \<lparr>rs_words := 2, rs_decoder := ''u32_factor:0.1'', rs_unit := Some ''Ah'',
         rs_description := ''System-wide lifetime charge amp-hour counter.''\<rparr>,
     (RegisterSpec ''internal_charge_kwh_daily'' 0x02E8)
        \<lparr>rs_words := 2, rs_decoder := ''f32'', rs_unit := Some ''kWh'',
         rs_description := ''This controller's internal charge energy accumulated today.''\<rparr>,
     (RegisterSpec ''internal_charge_kwh_resettable'' 0x02EA)
        \<lparr>rs_words := 2, rs_decoder := ''u32_factor:0.1'', rs_unit := Some ''kWh'',
         rs_description := ''This controller's resettable internal charge-energy counter.''\<rparr>,
     (RegisterSpec ''internal_charge_kwh_total'' 0x02EC)
        \<lparr>rs_words := 2, rs_decoder := ''u32_factor:0.1'', rs_unit := Some ''kWh'',
         rs_description := ''This controller's lifetime internal charge-energy counter.''\<rparr>]"

definition registers_genstar_3 :: "register_spec list" where
  "registers_genstar_3 = [
     (RegisterSpec ''internal_charge_ah_daily'' 0x02EE)
        \<lparr>rs_words := 2, rs_decoder := ''f32'', rs_unit := Some ''Ah'',
         rs_description := ''This controller's internal charge amp-hours accumulated today.''\<rparr>,
     (RegisterSpec ''internal_charge_ah_resettable'' 0x02F0)
        \<lparr>rs_words := 2, rs_decoder := ''u32_factor:0.1'', rs_unit := Some ''Ah'',
         rs_description := ''This controller's resettable internal charge amp-hour counter.''\<rparr>,
     (RegisterSpec ''internal_charge_ah_total'' 0x02F2)
        \<lparr>rs_words := 2, rs_decoder := ''u32_factor:0.1'', rs_unit := Some ''Ah'',
         rs_description := ''This controller's lifetime internal charge amp-hour counter.''\<rparr>]"

definition blocks_genstar :: "register_block list" where
  "blocks_genstar = [
     (RegisterBlock 0x0000 0x0006) \<lparr>rb_category := Metadata, rb_cache := True\<rparr>,
     RegisterBlock 0x001F 0x001A,
     RegisterBlock 0x0063 0x0003,
     RegisterBlock 0x0075 0x0005,
     RegisterBlock 0x0080 0x0001,
     RegisterBlock 0x00B1 0x0007,
     RegisterBlock 0x00E0 0x000B,
     RegisterBlock 0x00F0 0x0005,
     RegisterBlock 0x0100 0x0011,
     RegisterBlock 0x0212 0x0018,
     RegisterBlock 0x026A 0x0005,
     RegisterBlock 0x0271 0x0009,
     RegisterBlock 0x02A0 0x0002,
     RegisterBlock 0x02D0 0x000C,
     RegisterBlock 0x02E8 0x000C]"

definition BASE_GENSTAR_MPPT :: "device_profile_spec" where
  "BASE_GENSTAR_MPPT = (DeviceProfileSpec ''genstar_mppt'' ''GenStar MPPT'' [''genstar mppt'',
    ''gs-mppt'',
    ''gsmppt''] ''genstar-mppt-modbus-v03'' SOURCE_genstar blocks_genstar (registers_genstar_1 @ registers_genstar_2 @ registers_genstar_3))
     \<lparr>sp_detection_priority := 1,
      sp_capabilities := [''rtu'', ''usb'', ''rs232'', ''eia485'', ''modbus_tcp'', ''ethernet'', ''wifi'',
        ''bluetooth'', ''charge'', ''load'', ''readyrail'', ''device_identification'',
        ''hourly_logger_summary'', ''daily_logger_summary'', ''event_logger'', ''sd_logging'',
        ''snmp_polling''],
      sp_network := [(''baudrate'', ''9600''), (''stop_bits'', ''1''), (''tcp_port'', ''502''),
        (''default_modbus_id'', ''1''), (''dhcp'', ''enabled''), (''fallback_ip'', ''192.168.1.251''),
        (''netbios'', ''GSMPPT<serial>'')]\<rparr>"

section \<open>System metering\<close>

definition SYSTEM_METERING_REGISTERS_1 :: "register_spec list" where
  "SYSTEM_METERING_REGISTERS_1 = [
     (RegisterSpec ''system_battery_ah_daily'' 0x02DC)
        \<lparr>rs_words := 2, rs_decoder := ''f32'', rs_unit := Some ''Ah'',
         rs_description := ''System battery net amp-hours accumulated today.''\<rparr>,
     (RegisterSpec ''system_battery_ah_resettable'' 0x02DE)
        \<lparr>rs_words := 2, rs_decoder := ''s32_factor:0.1'', rs_unit := Some ''Ah'',
         rs_description := ''System resettable signed battery net amp-hour counter.''\<rparr>,
     (RegisterSpec ''system_battery_ah_total'' 0x02E0)
        \<lparr>rs_words := 2, rs_decoder := ''s32_factor:0.1'', rs_unit := Some ''Ah'',
         rs_description := ''System lifetime signed battery net amp-hour counter.''\<rparr>,
     (RegisterSpec ''system_load_ah_daily'' 0x02E2)
        \<lparr>rs_words := 2, rs_decoder := ''f32'', rs_unit := Some ''Ah'',
         rs_description := ''System load amp-hours accumulated today.''\<rparr>,
     (RegisterSpec ''system_load_ah_resettable'' 0x02E4)
        \<lparr>rs_words := 2, rs_decoder := ''u32_factor:0.1'', rs_unit := Some ''Ah'',
         rs_description := ''System resettable load amp-hour counter.''\<rparr>,
     (RegisterSpec ''system_load_ah_total'' 0x02E6)
        \<lparr>rs_words := 2, rs_decoder := ''u32_factor:0.1'', rs_unit := Some ''Ah'',
         rs_description := ''System lifetime load amp-hour counter.''\<rparr>,
     (RegisterSpec ''internal_battery_ah_daily'' 0x02F4)
        \<lparr>rs_words := 2, rs_decoder := ''f32'', rs_unit := Some ''Ah'',
         rs_description := ''Controller-local signed battery net amp-hours accumulated today.''\<rparr>,
     (RegisterSpec ''internal_battery_ah_resettable'' 0x02F6)
        \<lparr>rs_words := 2, rs_decoder := ''s32_factor:0.1'', rs_unit := Some ''Ah'',
         rs_description := ''Controller-local resettable signed battery net amp-hour counter.''\<rparr>,
     (RegisterSpec ''internal_battery_ah_total'' 0x02F8)
        \<lparr>rs_words := 2, rs_decoder := ''s32_factor:0.1'', rs_unit := Some ''Ah'',
         rs_description := ''Controller-local lifetime signed battery net amp-hour counter.''\<rparr>,
     (RegisterSpec ''internal_load_ah_daily'' 0x02FA)
        \<lparr>rs_words := 2, rs_decoder := ''f32'', rs_unit := Some ''Ah'',
         rs_description := ''Controller-local load amp-hours accumulated today.''\<rparr>,
     (RegisterSpec ''internal_load_ah_resettable'' 0x02FC)
        \<lparr>rs_words := 2, rs_decoder := ''u32_factor:0.1'', rs_unit := Some ''Ah'',
         rs_description := ''Controller-local resettable load amp-hour counter.''\<rparr>,
     (RegisterSpec ''internal_load_ah_total'' 0x02FE)
        \<lparr>rs_words := 2, rs_decoder := ''u32_factor:0.1'', rs_unit := Some ''Ah'',
         rs_description := ''Controller-local lifetime load amp-hour counter.''\<rparr>,
     (RegisterSpec ''aggregated_shunt_charge_ah_daily'' 0x227C)
        \<lparr>rs_words := 2, rs_decoder := ''f32'', rs_unit := Some ''Ah'',
         rs_description := ''Aggregated external-source shunt charge amp-hours for today.''\<rparr>,
     (RegisterSpec ''aggregated_shunt_charge_ah_resettable'' 0x227E)
        \<lparr>rs_words := 2, rs_decoder := ''u32_factor:0.1'', rs_unit := Some ''Ah'',
         rs_description := ''Aggregated external-source shunt resettable charge amp-hours.''\<rparr>,
     (RegisterSpec ''aggregated_shunt_charge_ah_total'' 0x2280)
        \<lparr>rs_words := 2, rs_decoder := ''u32_factor:0.1'', rs_unit := Some ''Ah'',
         rs_description := ''Aggregated external-source shunt lifetime charge amp-hours.''\<rparr>,
     (RegisterSpec ''aggregated_shunt_charge_kwh_daily'' 0x2282)
        \<lparr>rs_words := 2, rs_decoder := ''f32'', rs_unit := Some ''kWh'',
         rs_description := ''Aggregated external-source shunt charge energy for today.''\<rparr>,
     (RegisterSpec ''aggregated_shunt_charge_kwh_resettable'' 0x2284)
        \<lparr>rs_words := 2, rs_decoder := ''u32_factor:0.1'', rs_unit := Some ''kWh'',
         rs_description := ''Aggregated external-source shunt resettable charge energy.''\<rparr>]"

definition SYSTEM_METERING_REGISTERS_2 :: "register_spec list" where
  "SYSTEM_METERING_REGISTERS_2 = [
     (RegisterSpec ''aggregated_shunt_charge_kwh_total'' 0x2286)
        \<lparr>rs_words := 2, rs_decoder := ''u32_factor:0.1'', rs_unit := Some ''kWh'',
         rs_description := ''Aggregated external-source shunt lifetime charge energy.''\<rparr>,
     (RegisterSpec ''aggregated_shunt_battery_ah_daily'' 0x2288)
        \<lparr>rs_words := 2, rs_decoder := ''f32'', rs_unit := Some ''Ah'',
         rs_description := ''Aggregated shunt battery net amp-hours for today.''\<rparr>,
     (RegisterSpec ''aggregated_shunt_battery_ah_resettable'' 0x228A)
        \<lparr>rs_words := 2, rs_decoder := ''s32_factor:0.1'', rs_unit := Some ''Ah'',
         rs_description := ''Aggregated shunt resettable signed battery net amp-hours.''\<rparr>,
     (RegisterSpec ''aggregated_shunt_battery_ah_total'' 0x228C)
        \<lparr>rs_words := 2, rs_decoder := ''s32_factor:0.1'', rs_unit := Some ''Ah'',
         rs_description := ''Aggregated shunt lifetime signed battery net amp-hours.''\<rparr>,
     (RegisterSpec ''aggregated_shunt_load_ah_daily'' 0x228E)
        \<lparr>rs_words := 2, rs_decoder := ''f32'', rs_unit := Some ''Ah'',
         rs_description := ''Aggregated shunt load amp-hours for today.''\<rparr>,
     (RegisterSpec ''aggregated_shunt_load_ah_resettable'' 0x2290)
        \<lparr>rs_words := 2, rs_decoder := ''u32_factor:0.1'', rs_unit := Some ''Ah'',
         rs_description := ''Aggregated shunt resettable load amp-hours.''\<rparr>,
     (RegisterSpec ''aggregated_shunt_load_ah_total'' 0x2292)
        \<lparr>rs_words := 2, rs_decoder := ''u32_factor:0.1'', rs_unit := Some ''Ah'',
         rs_description := ''Aggregated shunt lifetime load amp-hours.''\<rparr>]"

definition BLOCK_REPLACEMENTS :: "(int \<times> register_block) list" where
  "BLOCK_REPLACEMENTS = [(0x02D0, RegisterBlock 0x02D0 0x0018), (0x02E8, RegisterBlock 0x02E8 0x0018)]"

definition enhanced_blocks :: "register_block list" where
  "enhanced_blocks = (let blocks = map (\<lambda>block. case map_of BLOCK_REPLACEMENTS (rb_address block) of
        None \<Rightarrow> block | Some b \<Rightarrow> b) (sp_blocks BASE_GENSTAR_MPPT) in
     if \<not> (\<exists>block \<in> set blocks. rb_address block = 0x227C)
     then blocks @ [(RegisterBlock 0x227C 0x0018) \<lparr>rb_optional := True\<rparr>] else blocks)"

definition GENSTAR_MPPT :: "device_profile_spec" where
  "GENSTAR_MPPT = BASE_GENSTAR_MPPT\<lparr>
     sp_blocks := enhanced_blocks,
     sp_registers := sp_registers BASE_GENSTAR_MPPT @ (SYSTEM_METERING_REGISTERS_1 @ SYSTEM_METERING_REGISTERS_2),
     sp_capabilities := sp_capabilities BASE_GENSTAR_MPPT @
       [''system_battery_counters'', ''system_load_counters'', ''aggregated_shunt_counters'']\<rparr>"

end
