(* ===== verification/Families_TriStar.thy ===== *)
theory Families_TriStar
  imports Catalog_Common Py_Text
begin

text \<open>
  The TriStar catalogs: \<open>families/tristar_mppt.py\<close>,
    \<open>families/tristar_mppt_600v.py\<close> and
  \<open>families/tristar_pwm.py\<close>.
\<close>

section \<open>TriStar MPPT\<close>

definition SOURCE_tristar_mppt :: "string" where
  "SOURCE_tristar_mppt = ''https://www.morningstarcorp.com/wp-content/uploads/technical-doc-tristar-mppt-modbus-specification-en.pdf''"

definition DIP_SWITCH_BITS_tristar_mppt :: "(nat \<times> string) list" where
  "DIP_SWITCH_BITS_tristar_mppt = map (\<lambda>bit. (bit, ''switch_'' @ show_nat (bit + 1) @ ''_on'')) [0..<8]"

definition registers_tristar_mppt_1 :: "register_spec list" where
  "registers_tristar_mppt_1 = [
     (RegisterSpec ''voltage_scale_hi'' 0x0000)
        \<lparr>rs_category := Metadata,
         rs_description := ''Whole-number portion of the controller voltage scaling constant.''\<rparr>,
     (RegisterSpec ''voltage_scale_lo'' 0x0001)
        \<lparr>rs_category := Metadata,
         rs_description := ''Fractional portion of the controller voltage scaling constant.''\<rparr>,
     (RegisterSpec ''current_scale_hi'' 0x0002)
        \<lparr>rs_category := Metadata,
         rs_description := ''Whole-number portion of the controller current scaling constant.''\<rparr>,
     (RegisterSpec ''current_scale_lo'' 0x0003)
        \<lparr>rs_category := Metadata,
         rs_description := ''Fractional portion of the controller current scaling constant.''\<rparr>,
     (RegisterSpec ''firmware_version'' 0x0004)
        \<lparr>rs_decoder := ''bcd'', rs_category := Metadata,
         rs_description := ''Controller software/firmware version reported by the TriStar MPPT.''\<rparr>,
     (RegisterSpec ''battery_voltage'' 0x0018)
        \<lparr>rs_decoder := ''tristar_voltage'', rs_unit := Some ''V'',
         rs_description := ''Filtered battery voltage measured internally by the controller.''\<rparr>,
     (RegisterSpec ''battery_terminal_voltage'' 0x0019)
        \<lparr>rs_decoder := ''tristar_voltage'', rs_unit := Some ''V'',
         rs_description := ''Filtered voltage measured at the controller battery terminals.''\<rparr>,
     (RegisterSpec ''battery_sense_voltage'' 0x001A)
        \<lparr>rs_decoder := ''tristar_voltage'', rs_unit := Some ''V'',
         rs_description := ''Filtered remote battery-sense voltage used to compensate for wiring voltage drop.''\<rparr>,
     (RegisterSpec ''array_voltage'' 0x001B)
        \<lparr>rs_decoder := ''tristar_voltage'', rs_unit := Some ''V'',
         rs_description := ''Filtered solar-array input voltage.''\<rparr>,
     (RegisterSpec ''battery_charge_current'' 0x001C)
        \<lparr>rs_decoder := ''tristar_current'', rs_unit := Some ''A'',
         rs_description := ''Filtered charging current delivered toward the battery.''\<rparr>,
     (RegisterSpec ''array_current'' 0x001D)
        \<lparr>rs_decoder := ''tristar_current'', rs_unit := Some ''A'',
         rs_description := ''Filtered solar-array input current.''\<rparr>,
     (RegisterSpec ''supply_12v_voltage'' 0x001E)
        \<lparr>rs_decoder := ''factor:0.0005679931640625'', rs_unit := Some ''V'',
         rs_description := ''Filtered internal 12 V supply rail voltage used for controller diagnostics.''\<rparr>,
     (RegisterSpec ''supply_3v_voltage'' 0x001F)
        \<lparr>rs_decoder := ''factor:0.000201416015625'', rs_unit := Some ''V'',
         rs_description := ''Filtered internal 3 V supply rail voltage used for controller diagnostics.''\<rparr>,
     (RegisterSpec ''meterbus_voltage'' 0x0020)
        \<lparr>rs_decoder := ''factor:0.0005679931640625'', rs_unit := Some ''V'',
         rs_description := ''Filtered MeterBus supply voltage.''\<rparr>,
     (RegisterSpec ''supply_1v8_voltage'' 0x0021)
        \<lparr>rs_decoder := ''factor:0.000091552734375'', rs_unit := Some ''V'',
         rs_description := ''Filtered internal 1.8 V supply rail voltage used for controller diagnostics.''\<rparr>,
     (RegisterSpec ''reference_voltage'' 0x0022)
        \<lparr>rs_decoder := ''factor:0.000091552734375'', rs_unit := Some ''V'',
         rs_description := ''Internal ADC reference voltage used for controller diagnostics.''\<rparr>,
     (RegisterSpec ''heatsink_temp'' 0x0023)
        \<lparr>rs_decoder := ''s16'', rs_unit := Some ''C'',
         rs_description := ''Controller heatsink temperature.''\<rparr>,
     (RegisterSpec ''rts_temp'' 0x0024)
        \<lparr>rs_decoder := ''tristar_rts_temp'', rs_unit := Some ''C'',
         rs_description := ''Remote Temperature Sensor reading; reports disconnected when the RTS is absent.''\<rparr>,
     (RegisterSpec ''battery_temp'' 0x0025)
        \<lparr>rs_decoder := ''s16'', rs_unit := Some ''C'',
         rs_description := ''Battery regulation temperature used for temperature-compensated charging.''\<rparr>,
     (RegisterSpec ''battery_voltage_1m'' 0x0026)
        \<lparr>rs_decoder := ''tristar_voltage'', rs_unit := Some ''V'',
         rs_description := ''Approximately one-minute filtered battery voltage, useful for stable thresholds.''\<rparr>]"

definition registers_tristar_mppt_2 :: "register_spec list" where
  "registers_tristar_mppt_2 = [
     (RegisterSpec ''charge_current_1m'' 0x0027)
        \<lparr>rs_decoder := ''tristar_current'', rs_unit := Some ''A'',
         rs_description := ''Approximately one-minute filtered charging current.''\<rparr>,
     (RegisterSpec ''battery_voltage_min'' 0x0028)
        \<lparr>rs_decoder := ''tristar_voltage'', rs_unit := Some ''V'',
         rs_description := ''Lowest battery voltage retained by the resettable controller statistics.''\<rparr>,
     (RegisterSpec ''battery_voltage_max'' 0x0029)
        \<lparr>rs_decoder := ''tristar_voltage'', rs_unit := Some ''V'',
         rs_description := ''Highest battery voltage retained by the resettable controller statistics.''\<rparr>,
     (RegisterSpec ''operating_hours'' 0x002A)
        \<lparr>rs_words := 2, rs_decoder := ''u32'', rs_unit := Some ''h'',
         rs_description := ''Total controller operating time in hours.''\<rparr>,
     (RegisterSpec ''faults'' 0x002C)
        \<lparr>rs_category := FaultCategory, rs_bits := TRISTAR_MPPT_FAULTS,
         rs_description := ''Currently active controller fault conditions decoded from the fault bitfield.''\<rparr>,
     (RegisterSpec ''alarms'' 0x002E)
        \<lparr>rs_words := 2, rs_decoder := ''u32'', rs_category := AlarmCategory,
         rs_bits := TRISTAR_MPPT_ALARMS,
         rs_description := ''Active controller alarms decoded from the two-word alarm bitfield.''\<rparr>,
     (RegisterSpec ''dip_switches'' 0x0030)
        \<lparr>rs_category := StateCategory, rs_bits := DIP_SWITCH_BITS_tristar_mppt,
         rs_description := ''Physical DIP switch positions; bit 0 corresponds to settings switch 1.''\<rparr>,
     (RegisterSpec ''led_state'' 0x0031)
        \<lparr>rs_category := StateCategory, rs_enum := TRISTAR_MPPT_LED_STATES,
         rs_description := ''Current front-panel LED indication state.''\<rparr>,
     (RegisterSpec ''charge_state'' 0x0032)
        \<lparr>rs_category := StateCategory, rs_enum := TRISTAR_MPPT_CHARGE_STATES,
         rs_description := ''Current charging stage such as MPPT, Absorption, Float, or Equalize.''\<rparr>,
     (RegisterSpec ''target_voltage'' 0x0033)
        \<lparr>rs_decoder := ''tristar_voltage'', rs_unit := Some ''V'',
         rs_description := ''Current battery regulation target after charge-stage and temperature compensation.''\<rparr>,
     (RegisterSpec ''charge_ah_resettable'' 0x0034)
        \<lparr>rs_words := 2, rs_decoder := ''u32_factor:0.1'', rs_unit := Some ''Ah'',
         rs_description := ''Solar amp-hours accumulated since the resettable energy counters were cleared.''\<rparr>,
     (RegisterSpec ''charge_ah_total'' 0x0036)
        \<lparr>rs_words := 2, rs_decoder := ''u32_factor:0.1'', rs_unit := Some ''Ah'',
         rs_description := ''Lifetime cumulative solar charging amp-hours.''\<rparr>,
     (RegisterSpec ''charge_kwh_resettable'' 0x0038)
        \<lparr>rs_unit := Some ''kWh'',
         rs_description := ''Solar charging energy since the resettable counters were cleared.''\<rparr>,
     (RegisterSpec ''charge_kwh_total'' 0x0039)
        \<lparr>rs_unit := Some ''kWh'',
         rs_description := ''Lifetime cumulative solar charging energy in kilowatt-hours.''\<rparr>,
     (RegisterSpec ''output_power'' 0x003A)
        \<lparr>rs_decoder := ''tristar_power'', rs_unit := Some ''W'',
         rs_description := ''Instantaneous charging power delivered from the controller toward the battery.''\<rparr>,
     (RegisterSpec ''input_power_reported'' 0x003B)
        \<lparr>rs_decoder := ''tristar_power'', rs_unit := Some ''W'',
         rs_description := ''Controller-reported solar-array input-power estimate. Morningstar notes that array input current is not measured by precision shunts, so this value may have significant error.''\<rparr>,
     (RegisterSpec ''sweep_max_power'' 0x003C)
        \<lparr>rs_decoder := ''tristar_power'', rs_unit := Some ''W'',
         rs_description := ''Maximum power found during the most recent MPPT sweep.''\<rparr>,
     (RegisterSpec ''sweep_vmp'' 0x003D)
        \<lparr>rs_decoder := ''tristar_voltage'', rs_unit := Some ''V'',
         rs_description := ''Array voltage at maximum power from the most recent MPPT sweep.''\<rparr>,
     (RegisterSpec ''sweep_voc'' 0x003E)
        \<lparr>rs_decoder := ''tristar_voltage'', rs_unit := Some ''V'',
         rs_description := ''Array open-circuit voltage measured during the most recent MPPT sweep.''\<rparr>]"

definition registers_tristar_mppt_3 :: "register_spec list" where
  "registers_tristar_mppt_3 = [
     (RegisterSpec ''daily_battery_voltage_min'' 0x0040)
        \<lparr>rs_decoder := ''tristar_voltage'', rs_unit := Some ''V'',
         rs_description := ''Lowest battery voltage recorded during the current charging day.''\<rparr>,
     (RegisterSpec ''daily_battery_voltage_max'' 0x0041)
        \<lparr>rs_decoder := ''tristar_voltage'', rs_unit := Some ''V'',
         rs_description := ''Highest battery voltage recorded during the current charging day.''\<rparr>,
     (RegisterSpec ''daily_array_voltage_max'' 0x0042)
        \<lparr>rs_decoder := ''tristar_voltage'', rs_unit := Some ''V'',
         rs_description := ''Highest solar-array input voltage recorded during the current charging day.''\<rparr>,
     (RegisterSpec ''daily_charge_ah'' 0x0043)
        \<lparr>rs_decoder := ''ufactor:0.1'', rs_unit := Some ''Ah'',
         rs_description := ''Total charging amp-hours accumulated during the current charging day.''\<rparr>,
     (RegisterSpec ''daily_charge_wh'' 0x0044)
        \<lparr>rs_unit := Some ''Wh'',
         rs_description := ''Charging energy today in Wh; the register value is direct Wh with 10 Wh resolution.''\<rparr>,
     (RegisterSpec ''daily_flags'' 0x0045)
        \<lparr>rs_category := StateCategory, rs_bits := TRISTAR_MPPT_DAILY_FLAGS,
         rs_description := ''Sticky daily event flags for reset, equalize, float, alarm, and fault events.''\<rparr>,
     (RegisterSpec ''daily_output_power_max'' 0x0046)
        \<lparr>rs_decoder := ''tristar_power'', rs_unit := Some ''W'',
         rs_description := ''Highest charging output power recorded during the current charging day.''\<rparr>,
     (RegisterSpec ''daily_battery_temp_min'' 0x0047)
        \<lparr>rs_decoder := ''s16'', rs_unit := Some ''C'',
         rs_description := ''Lowest battery temperature recorded during the current charging day.''\<rparr>,
     (RegisterSpec ''daily_battery_temp_max'' 0x0048)
        \<lparr>rs_decoder := ''s16'', rs_unit := Some ''C'',
         rs_description := ''Highest battery temperature recorded during the current charging day.''\<rparr>,
     (RegisterSpec ''daily_faults'' 0x0049)
        \<lparr>rs_category := FaultCategory, rs_bits := TRISTAR_MPPT_FAULTS,
         rs_description := ''Sticky fault conditions recorded during the current charging day.''\<rparr>,
     (RegisterSpec ''daily_alarms'' 0x004B)
        \<lparr>rs_words := 2, rs_decoder := ''u32'', rs_category := AlarmCategory,
         rs_bits := TRISTAR_MPPT_ALARMS,
         rs_description := ''Sticky alarm conditions recorded during the current charging day.''\<rparr>,
     (RegisterSpec ''daily_absorption_seconds'' 0x004D)
        \<lparr>rs_unit := Some ''s'',
         rs_description := ''Cumulative time spent in Absorption during the current charging day.''\<rparr>,
     (RegisterSpec ''daily_equalize_seconds'' 0x004E)
        \<lparr>rs_unit := Some ''s'',
         rs_description := ''Cumulative time spent in Equalize during the current charging day.''\<rparr>,
     (RegisterSpec ''daily_float_seconds'' 0x004F)
        \<lparr>rs_unit := Some ''s'',
         rs_description := ''Cumulative time spent in Float during the current charging day.''\<rparr>,
     (RegisterSpec ''serial_number'' 0xE0C0)
        \<lparr>rs_words := 4, rs_decoder := ''ascii_lo_hi'', rs_category := Metadata,
         rs_description := ''Controller serial number from the read-only factory metadata area.''\<rparr>,
     (RegisterSpec ''model_flag'' 0xE0CC)
        \<lparr>rs_category := Metadata, rs_enum := [(0, ''TS-MPPT-45''), (1, ''TS-MPPT-60'')],
         rs_description := ''Factory model identifier distinguishing the 45 A and 60 A TriStar MPPT variants.''\<rparr>,
     (RegisterSpec ''hardware_version'' 0xE0CD)
        \<lparr>rs_decoder := ''byte_pair_version'', rs_category := Metadata,
         rs_description := ''Controller hardware revision from the read-only factory metadata area.''\<rparr>]"

definition TRISTAR_MPPT :: "device_profile_spec" where
  "TRISTAR_MPPT = (DeviceProfileSpec ''tristar_mppt'' ''TriStar MPPT 150V'' [''tristar mppt'',
    ''ts-mppt-45'', ''ts-mppt-60'',
    ''tsmppt''] ''tristar-mppt-modbus-v11'' SOURCE_tristar_mppt [RegisterBlock 0x0000 0x0050,
    (RegisterBlock 0xE0C0 0x000E)
     \<lparr>rb_category := Metadata, rb_optional := True,
       rb_cache := True\<rparr>] (registers_tristar_mppt_1 @ registers_tristar_mppt_2 @ registers_tristar_mppt_3)) \<lparr>sp_detection_priority := 20,
      sp_reserved_ranges := [(ReservedRegisterRange 0x0005) \<lparr>rr_count := 0x0013, rr_description := ''Reserved RAM words 0x0005-0x0017 in the TriStar MPPT v11 map.''\<rparr>,
        (ReservedRegisterRange 0x002D) \<lparr>rr_description := ''Reserved status word.''\<rparr>,
        (ReservedRegisterRange 0x003F) \<lparr>rr_description := ''Reserved word between MPPT and daily logger values.''\<rparr>,
        (ReservedRegisterRange 0x004A) \<lparr>rr_description := ''Reserved daily-logger word.''\<rparr>,
        (ReservedRegisterRange 0xE0C4) \<lparr>rr_count := 0x0008, rr_description := ''Reserved factory metadata words between serial number and model flag.''\<rparr>],
      sp_capabilities := [''rtu'', ''rs232'', ''eia485'', ''modbus_tcp'', ''ethernet'',
        ''device_identification''],
      sp_network := [(''tcp_port'', ''502''), (''default_modbus_id'', ''1''), (''dhcp'', ''enabled''),
        (''fallback_ip'', ''192.168.1.253''), (''netbios'', ''tsmppt<serial>'')]\<rparr>"

section \<open>TriStar MPPT 600V\<close>

definition SOURCE_tristar_600v :: "string" where
  "SOURCE_tristar_600v = ''https://www.morningstarcorp.com/wp-content/uploads/technical-doc-tristar-mppt-600v-modbus-specification-en.pdf''"

definition registers_tristar_600v :: "register_spec list" where
  "registers_tristar_600v = [
     (RegisterSpec ''voltage_scale_hi'' 0x0000) \<lparr>rs_category := Metadata\<rparr>,
     (RegisterSpec ''voltage_scale_lo'' 0x0001) \<lparr>rs_category := Metadata\<rparr>,
     (RegisterSpec ''current_scale_hi'' 0x0002) \<lparr>rs_category := Metadata\<rparr>,
     (RegisterSpec ''current_scale_lo'' 0x0003) \<lparr>rs_category := Metadata\<rparr>,
     (RegisterSpec ''firmware_version'' 0x0004) \<lparr>rs_decoder := ''bcd'', rs_category := Metadata\<rparr>,
     (RegisterSpec ''fpga_version'' 0x0005) \<lparr>rs_decoder := ''bcd'', rs_category := Metadata\<rparr>,
     (RegisterSpec ''system_voltage_multiplier'' 0x0006) \<lparr>rs_category := Metadata\<rparr>,
     (RegisterSpec ''battery_voltage'' 0x0018)
        \<lparr>rs_decoder := ''ts600_voltage'', rs_unit := Some ''V''\<rparr>,
     (RegisterSpec ''battery_terminal_voltage'' 0x0019)
        \<lparr>rs_decoder := ''ts600_voltage'', rs_unit := Some ''V''\<rparr>,
     (RegisterSpec ''battery_sense_voltage'' 0x001A)
        \<lparr>rs_decoder := ''ts600_voltage'', rs_unit := Some ''V''\<rparr>,
     (RegisterSpec ''array_voltage'' 0x001B)
        \<lparr>rs_decoder := ''ts600_voltage'', rs_unit := Some ''V''\<rparr>,
     (RegisterSpec ''battery_charge_current'' 0x001C)
        \<lparr>rs_decoder := ''ts600_current'', rs_unit := Some ''A''\<rparr>,
     (RegisterSpec ''array_current'' 0x001D)
        \<lparr>rs_decoder := ''ts600_current'', rs_unit := Some ''A''\<rparr>,
     (RegisterSpec ''faults'' 0x002C)
        \<lparr>rs_category := FaultCategory, rs_bits := TRISTAR_MPPT_FAULTS\<rparr>,
     (RegisterSpec ''charge_state'' 0x0032)
        \<lparr>rs_category := StateCategory, rs_enum := TRISTAR_MPPT_CHARGE_STATES\<rparr>]"

definition TRISTAR_MPPT_600V :: "device_profile_spec" where
  "TRISTAR_MPPT_600V = (DeviceProfileSpec ''tristar_mppt_600v'' ''TriStar MPPT 600V'' [''tristar mppt 600v'',
    ''ts-mppt-60-600v'',
    ''tsmppt600v''] ''tristar-mppt-600v-modbus'' SOURCE_tristar_600v [RegisterBlock 0x0000 0x0050] registers_tristar_600v)
     \<lparr>sp_detection_priority := 10,
      sp_capabilities := [''rtu'', ''rs232'', ''eia485'', ''modbus_tcp'', ''ethernet''],
      sp_network := [(''tcp_port'', ''502''), (''default_modbus_id'', ''1''), (''dhcp'', ''enabled''),
        (''fallback_ip'', ''192.168.1.253''), (''netbios'', ''tsmppt600v<serial>'')],
      sp_notes := ''Firmware 19+ telemetry uses Float16; older firmware is decoded with legacy per-unit scaling.''\<rparr>"

section \<open>TriStar PWM\<close>

definition SOURCE_tristar_pwm :: "string" where
  "SOURCE_tristar_pwm = ''https://www.morningstarcorp.com/wp-content/uploads/technical-doc-tristar-modbus-specification-en.pdf''"

definition CONTROL_MODES_tristar_pwm :: "(int \<times> string) list" where
  "CONTROL_MODES_tristar_pwm = [(0, ''CHARGE''), (1, ''LOAD''), (2, ''DIVERSION''), (3, ''LIGHTING'')]"

definition CHARGE_STATES_tristar_pwm :: "(int \<times> string) list" where
  "CHARGE_STATES_tristar_pwm = [(0, ''START''), (1, ''NIGHT_CHECK''), (2, ''DISCONNECT''), (3, ''NIGHT''),
    (4, ''FAULT''), (5, ''BULK''), (6, ''PWM''), (7, ''FLOAT''), (8, ''EQUALIZE'')]"

definition FAULTS_tristar_pwm :: "(nat \<times> string) list" where
  "FAULTS_tristar_pwm = [(0, ''external_short''), (1, ''overcurrent''), (2, ''fet_shorted''), (3,
    ''software''), (4, ''hvd''), (5, ''controller_hot''), (6, ''dip_changed''), (7, ''settings_edit''),
    (8, ''reset''), (9, ''miswire''), (10, ''rts_shorted''), (11, ''rts_disconnected'')]"

definition ALARMS_tristar_pwm :: "(nat \<times> string) list" where
  "ALARMS_tristar_pwm = [(0, ''rts_open''), (1, ''rts_short''), (2, ''rts_disconnected''), (3,
    ''heatsink_sensor_open''), (4, ''heatsink_sensor_short''), (5, ''controller_hot''), (6,
    ''current_limit''), (7, ''current_offset''), (8, ''battery_sense''), (9,
    ''battery_sense_disconnected''), (10, ''uncalibrated''), (11, ''rts_miswire''), (12, ''hvd''), (13,
    ''high_duty''), (14, ''miswire''), (15, ''fet_open''), (16, ''p12''), (17, ''load_disconnect'')]"

definition registers_tristar_pwm :: "register_spec list" where
  "registers_tristar_pwm = [
     (RegisterSpec ''battery_voltage'' 0x0008)
        \<lparr>rs_decoder := ''factor:0.002950897216796875'', rs_unit := Some ''V''\<rparr>,
     (RegisterSpec ''battery_sense_voltage'' 0x0009)
        \<lparr>rs_decoder := ''factor:0.002950897216796875'', rs_unit := Some ''V''\<rparr>,
     (RegisterSpec ''array_or_load_voltage'' 0x000A)
        \<lparr>rs_decoder := ''factor:0.00424652099609375'', rs_unit := Some ''V''\<rparr>,
     (RegisterSpec ''charge_current'' 0x000B)
        \<lparr>rs_decoder := ''factor:0.002034515380859375'', rs_unit := Some ''A''\<rparr>,
     (RegisterSpec ''load_current'' 0x000C)
        \<lparr>rs_decoder := ''factor:0.0096649169921875'', rs_unit := Some ''A''\<rparr>,
     (RegisterSpec ''battery_voltage_slow'' 0x000D)
        \<lparr>rs_decoder := ''factor:0.002950897216796875'', rs_unit := Some ''V''\<rparr>,
     (RegisterSpec ''heatsink_temp'' 0x000E) \<lparr>rs_decoder := ''s16'', rs_unit := Some ''C''\<rparr>,
     (RegisterSpec ''battery_temp'' 0x000F) \<lparr>rs_decoder := ''s16'', rs_unit := Some ''C''\<rparr>,
     (RegisterSpec ''target_voltage'' 0x0010)
        \<lparr>rs_decoder := ''factor:0.002950897216796875'', rs_unit := Some ''V''\<rparr>,
     (RegisterSpec ''alarm_low'' 0x0017)
        \<lparr>rs_category := AlarmCategory, rs_bits := ALARMS_tristar_pwm\<rparr>,
     (RegisterSpec ''faults'' 0x0018)
        \<lparr>rs_category := FaultCategory, rs_bits := FAULTS_tristar_pwm\<rparr>,
     (RegisterSpec ''dip_switch'' 0x0019) \<lparr>rs_category := Configuration\<rparr>,
     (RegisterSpec ''control_mode'' 0x001A)
        \<lparr>rs_category := StateCategory, rs_enum := CONTROL_MODES_tristar_pwm\<rparr>,
     (RegisterSpec ''control_state'' 0x001B)
        \<lparr>rs_category := StateCategory, rs_enum := CHARGE_STATES_tristar_pwm\<rparr>,
     (RegisterSpec ''duty_cycle'' 0x001C) \<lparr>rs_decoder := ''percent:230'', rs_unit := Some ''%''\<rparr>,
     (RegisterSpec ''alarm_high'' 0x001D) \<lparr>rs_category := AlarmCategory\<rparr>,
     (RegisterSpec ''serial_number'' 0xF000)
        \<lparr>rs_words := 4, rs_decoder := ''ascii_lo_hi'', rs_category := Metadata\<rparr>,
     (RegisterSpec ''hardware_version'' 0xF00A) \<lparr>rs_category := Metadata\<rparr>,
     (RegisterSpec ''model_flag'' 0xF00B)
        \<lparr>rs_category := Metadata, rs_enum := [(0, ''TS-45''), (1, ''TS-60'')]\<rparr>]"

definition TRISTAR_PWM :: "device_profile_spec" where
  "TRISTAR_PWM = (DeviceProfileSpec ''tristar_pwm'' ''TriStar PWM'' [''tristar pwm'', ''tristar-45'',
    ''tristar-60'', ''ts-45'', ''ts-60'',
    ''tristar''] ''tristar-pwm-modbus-v07'' SOURCE_tristar_pwm [RegisterBlock 0x0008 0x0016,
    (RegisterBlock 0xF000 0x000C)
     \<lparr>rb_category := Metadata, rb_optional := True,
       rb_cache := True\<rparr>] registers_tristar_pwm) \<lparr>sp_detection_priority := 30,
      sp_capabilities := [''rtu'', ''rs232'', ''eia485'', ''charge'', ''load'', ''diversion'', ''lighting''],
      sp_network := [(''baudrate'', ''9600''), (''default_modbus_id'', ''1''), (''stop_bits'', ''2'')]\<rparr>"

end
