(* ===== verification/Families_ProStar_SunSaver.thy ===== *)
theory Families_ProStar_SunSaver
  imports Catalog_Common
begin

text \<open>
  The catalogs of \<open>families/prostar_mppt.py\<close>, \<open>families/prostar_pwm.py\<close>,
  \<open>families/sunsaver_mppt.py\<close> and \<open>families/sunsaver_duo.py\<close>.
\<close>

section \<open>ProStar MPPT\<close>

definition SOURCE_prostar_mppt :: "string" where
  "SOURCE_prostar_mppt = ''https://www.morningstarcorp.com/wp-content/uploads/technical-doc-prostar-mppt-modbus-specification-en-1.pdf''"

definition registers_prostar_mppt :: "register_spec list" where
  "registers_prostar_mppt = [
     (RegisterSpec ''firmware_version'' 0x0000) \<lparr>rs_category := Metadata\<rparr>,
     (RegisterSpec ''system_voltage_multiplier'' 0x0001) \<lparr>rs_category := Metadata\<rparr>,
     (RegisterSpec ''supply_3v3'' 0x0004) \<lparr>rs_decoder := ''f16'', rs_unit := Some ''V''\<rparr>,
     (RegisterSpec ''supply_12v'' 0x0005) \<lparr>rs_decoder := ''f16'', rs_unit := Some ''V''\<rparr>,
     (RegisterSpec ''supply_5v'' 0x0006) \<lparr>rs_decoder := ''f16'', rs_unit := Some ''V''\<rparr>,
     (RegisterSpec ''gate_drive_voltage'' 0x0007) \<lparr>rs_decoder := ''f16'', rs_unit := Some ''V''\<rparr>,
     (RegisterSpec ''meterbus_supply_voltage'' 0x0008)
        \<lparr>rs_decoder := ''f16'', rs_unit := Some ''V''\<rparr>,
     (RegisterSpec ''charge_current'' 0x0010) \<lparr>rs_decoder := ''f16'', rs_unit := Some ''A''\<rparr>,
     (RegisterSpec ''array_current'' 0x0011) \<lparr>rs_decoder := ''f16'', rs_unit := Some ''A''\<rparr>,
     (RegisterSpec ''battery_terminal_voltage'' 0x0012)
        \<lparr>rs_decoder := ''f16'', rs_unit := Some ''V''\<rparr>,
     (RegisterSpec ''array_voltage'' 0x0013) \<lparr>rs_decoder := ''f16'', rs_unit := Some ''V''\<rparr>,
     (RegisterSpec ''load_voltage'' 0x0014) \<lparr>rs_decoder := ''f16'', rs_unit := Some ''V''\<rparr>,
     (RegisterSpec ''battery_net_current'' 0x0015) \<lparr>rs_decoder := ''f16'', rs_unit := Some ''A''\<rparr>,
     (RegisterSpec ''load_current'' 0x0016) \<lparr>rs_decoder := ''f16'', rs_unit := Some ''A''\<rparr>,
     (RegisterSpec ''battery_sense_voltage'' 0x0017)
        \<lparr>rs_decoder := ''f16'', rs_unit := Some ''V''\<rparr>,
     (RegisterSpec ''battery_voltage_60s'' 0x0018) \<lparr>rs_decoder := ''f16'', rs_unit := Some ''V''\<rparr>,
     (RegisterSpec ''battery_current_60s'' 0x0019) \<lparr>rs_decoder := ''f16'', rs_unit := Some ''A''\<rparr>,
     (RegisterSpec ''heatsink_temp'' 0x001A) \<lparr>rs_decoder := ''f16'', rs_unit := Some ''C''\<rparr>,
     (RegisterSpec ''battery_temp'' 0x001B) \<lparr>rs_decoder := ''f16'', rs_unit := Some ''C''\<rparr>,
     (RegisterSpec ''ambient_temp'' 0x001C) \<lparr>rs_decoder := ''f16'', rs_unit := Some ''C''\<rparr>,
     (RegisterSpec ''rts_temp'' 0x001D) \<lparr>rs_decoder := ''f16'', rs_unit := Some ''C''\<rparr>,
     (RegisterSpec ''charge_state'' 0x0021)
        \<lparr>rs_category := StateCategory, rs_enum := PROSTAR_MPPT_CHARGE_STATES\<rparr>,
     (RegisterSpec ''array_faults'' 0x0022)
        \<lparr>rs_category := FaultCategory, rs_bits := PROSTAR_MPPT_ARRAY_FAULTS\<rparr>,
     (RegisterSpec ''target_voltage'' 0x0024) \<lparr>rs_decoder := ''f16'', rs_unit := Some ''V''\<rparr>,
     (RegisterSpec ''load_state'' 0x002E) \<lparr>rs_category := StateCategory, rs_enum := LOAD_STATES\<rparr>,
     (RegisterSpec ''load_faults'' 0x002F) \<lparr>rs_category := FaultCategory, rs_bits := LOAD_FAULTS\<rparr>,
     (RegisterSpec ''hourmeter'' 0x0036)
        \<lparr>rs_words := 2, rs_decoder := ''u32'', rs_unit := Some ''h''\<rparr>,
     (RegisterSpec ''alarms'' 0x0038)
        \<lparr>rs_words := 2, rs_decoder := ''u32'', rs_category := AlarmCategory,
         rs_bits := PROSTAR_ALARMS\<rparr>,
     (RegisterSpec ''dip_switch'' 0x003A) \<lparr>rs_category := Configuration\<rparr>,
     (RegisterSpec ''led_state'' 0x003B) \<lparr>rs_category := StateCategory\<rparr>,
     (RegisterSpec ''output_power'' 0x003C) \<lparr>rs_decoder := ''f16'', rs_unit := Some ''W''\<rparr>,
     (RegisterSpec ''vmp'' 0x003D) \<lparr>rs_decoder := ''f16'', rs_unit := Some ''V''\<rparr>,
     (RegisterSpec ''pmax'' 0x003E) \<lparr>rs_decoder := ''f16'', rs_unit := Some ''W''\<rparr>,
     (RegisterSpec ''voc'' 0x003F) \<lparr>rs_decoder := ''f16'', rs_unit := Some ''V''\<rparr>,
     (RegisterSpec ''modbus_id'' 0xE034) \<lparr>rs_category := Network\<rparr>,
     (RegisterSpec ''meterbus_id'' 0xE035) \<lparr>rs_category := Network\<rparr>]"

definition PROSTAR_MPPT :: "device_profile_spec" where
  "PROSTAR_MPPT = (DeviceProfileSpec ''prostar_mppt'' ''ProStar MPPT'' [''prostar mppt'', ''ps-mppt'',
    ''psmppt''] ''prostar-mppt-modbus-v05'' SOURCE_prostar_mppt [RegisterBlock 0x0000 0x0052,
    (RegisterBlock 0xE034 2)
     \<lparr>rb_category := Network, rb_optional := True,
       rb_cache := True\<rparr>] registers_prostar_mppt) \<lparr>sp_detection_priority := 40,
      sp_capabilities := [''rtu'', ''meterbus'', ''charge'', ''load'', ''lighting'', ''device_identification''],
      sp_network := [(''baudrate'', ''9600''), (''default_modbus_id'', ''1''), (''stop_bits'', ''2'')]\<rparr>"

section \<open>ProStar PWM\<close>

definition SOURCE_prostar_pwm :: "string" where
  "SOURCE_prostar_pwm = ''https://www.morningstarcorp.com/wp-content/uploads/technical-doc-prostar-modbus-specification-en.pdf''"

definition ARRAY_FAULTS_prostar_pwm :: "(nat \<times> string) list" where
  "ARRAY_FAULTS_prostar_pwm = [(0, ''overcurrent_phase_1''), (1, ''fet_shorted''), (2, ''software''), (3,
    ''battery_hvd''), (4, ''array_hvd''), (5, ''eeprom_edit''), (6, ''rts_shorted''), (7,
    ''rts_disconnected''), (8, ''local_temp_sensor_failed''), (9, ''battery_lvd''), (10, ''dip_changed''),
    (11, ''processor_supply_fault'')]"

definition registers_prostar_pwm :: "register_spec list" where
  "registers_prostar_pwm = [
     (RegisterSpec ''firmware_version'' 0x0000) \<lparr>rs_category := Metadata\<rparr>,
     (RegisterSpec ''system_voltage_multiplier'' 0x0001) \<lparr>rs_category := Metadata\<rparr>,
     (RegisterSpec ''charge_current'' 0x0010) \<lparr>rs_decoder := ''f16'', rs_unit := Some ''A''\<rparr>,
     (RegisterSpec ''array_current'' 0x0011) \<lparr>rs_decoder := ''f16'', rs_unit := Some ''A''\<rparr>,
     (RegisterSpec ''battery_terminal_voltage'' 0x0012)
        \<lparr>rs_decoder := ''f16'', rs_unit := Some ''V''\<rparr>,
     (RegisterSpec ''array_voltage'' 0x0013) \<lparr>rs_decoder := ''f16'', rs_unit := Some ''V''\<rparr>,
     (RegisterSpec ''load_voltage'' 0x0014) \<lparr>rs_decoder := ''f16'', rs_unit := Some ''V''\<rparr>,
     (RegisterSpec ''battery_net_current'' 0x0015) \<lparr>rs_decoder := ''f16'', rs_unit := Some ''A''\<rparr>,
     (RegisterSpec ''load_current'' 0x0016) \<lparr>rs_decoder := ''f16'', rs_unit := Some ''A''\<rparr>,
     (RegisterSpec ''battery_sense_voltage'' 0x0017)
        \<lparr>rs_decoder := ''f16'', rs_unit := Some ''V''\<rparr>,
     (RegisterSpec ''heatsink_temp'' 0x001A) \<lparr>rs_decoder := ''f16'', rs_unit := Some ''C''\<rparr>,
     (RegisterSpec ''battery_temp'' 0x001B) \<lparr>rs_decoder := ''f16'', rs_unit := Some ''C''\<rparr>,
     (RegisterSpec ''ambient_temp'' 0x001C) \<lparr>rs_decoder := ''f16'', rs_unit := Some ''C''\<rparr>,
     (RegisterSpec ''rts_temp'' 0x001D) \<lparr>rs_decoder := ''f16'', rs_unit := Some ''C''\<rparr>,
     (RegisterSpec ''charge_state'' 0x0021)
        \<lparr>rs_category := StateCategory, rs_enum := PWM_CHARGE_STATES\<rparr>,
     (RegisterSpec ''array_faults'' 0x0022)
        \<lparr>rs_category := FaultCategory, rs_bits := ARRAY_FAULTS_prostar_pwm\<rparr>,
     (RegisterSpec ''load_state'' 0x002E) \<lparr>rs_category := StateCategory, rs_enum := LOAD_STATES\<rparr>,
     (RegisterSpec ''load_faults'' 0x002F) \<lparr>rs_category := FaultCategory, rs_bits := LOAD_FAULTS\<rparr>,
     (RegisterSpec ''hourmeter'' 0x0036)
        \<lparr>rs_words := 2, rs_decoder := ''u32'', rs_unit := Some ''h''\<rparr>,
     (RegisterSpec ''alarms'' 0x0038)
        \<lparr>rs_words := 2, rs_decoder := ''u32'', rs_category := AlarmCategory,
         rs_bits := PROSTAR_ALARMS\<rparr>,
     (RegisterSpec ''dip_switch'' 0x003A) \<lparr>rs_category := Configuration\<rparr>,
     (RegisterSpec ''led_state'' 0x003B) \<lparr>rs_category := StateCategory\<rparr>]"

definition PROSTAR_PWM :: "device_profile_spec" where
  "PROSTAR_PWM = (DeviceProfileSpec ''prostar_pwm'' ''ProStar PWM Gen3'' [''prostar pwm'', ''ps-pwm'',
    ''prostar gen3'',
    ''prostar''] ''prostar-pwm-modbus-v2'' SOURCE_prostar_pwm [RegisterBlock 0x0000 0x004D] registers_prostar_pwm)
     \<lparr>sp_detection_priority := 50,
      sp_capabilities := [''rtu'', ''meterbus'', ''charge'', ''load'', ''lighting'', ''device_identification''],
      sp_network := [(''baudrate'', ''9600''), (''default_modbus_id'', ''1''), (''stop_bits'', ''2'')]\<rparr>"

section \<open>SunSaver MPPT\<close>

definition SOURCE_sunsaver_mppt :: "string" where
  "SOURCE_sunsaver_mppt = ''https://www.morningstarcorp.com/wp-content/uploads/technical-doc-sunsaver-mppt-modbus-specification-en.pdf''"

definition ARRAY_FAULTS_sunsaver_mppt :: "(nat \<times> string) list" where
  "ARRAY_FAULTS_sunsaver_mppt = [(0, ''overcurrent''), (1, ''fet_shorted''), (2, ''software''), (3,
    ''battery_hvd''), (4, ''array_hvd''), (5, ''eeprom_edit''), (6, ''rts_shorted''), (7,
    ''rts_disconnected''), (8, ''local_temp_sensor_failed'')]"

definition registers_sunsaver_mppt :: "register_spec list" where
  "registers_sunsaver_mppt = [
     (RegisterSpec ''battery_voltage'' 0x0008)
        \<lparr>rs_decoder := ''factor:0.0030517578125'', rs_unit := Some ''V''\<rparr>,
     (RegisterSpec ''array_voltage'' 0x0009)
        \<lparr>rs_decoder := ''factor:0.0030517578125'', rs_unit := Some ''V''\<rparr>,
     (RegisterSpec ''load_voltage'' 0x000A)
        \<lparr>rs_decoder := ''factor:0.0030517578125'', rs_unit := Some ''V''\<rparr>,
     (RegisterSpec ''charge_current'' 0x000B)
        \<lparr>rs_decoder := ''factor:0.0024169921875'', rs_unit := Some ''A''\<rparr>,
     (RegisterSpec ''load_current'' 0x000C)
        \<lparr>rs_decoder := ''factor:0.0024169921875'', rs_unit := Some ''A''\<rparr>,
     (RegisterSpec ''heatsink_temp'' 0x000D) \<lparr>rs_decoder := ''s16'', rs_unit := Some ''C''\<rparr>,
     (RegisterSpec ''battery_temp'' 0x000E) \<lparr>rs_decoder := ''s16'', rs_unit := Some ''C''\<rparr>,
     (RegisterSpec ''ambient_temp'' 0x000F) \<lparr>rs_decoder := ''s16'', rs_unit := Some ''C''\<rparr>,
     (RegisterSpec ''rts_temp'' 0x0010) \<lparr>rs_decoder := ''s16'', rs_unit := Some ''C''\<rparr>,
     (RegisterSpec ''charge_state'' 0x0011)
        \<lparr>rs_category := StateCategory, rs_enum := PWM_CHARGE_STATES\<rparr>,
     (RegisterSpec ''array_faults'' 0x0012)
        \<lparr>rs_category := FaultCategory, rs_bits := ARRAY_FAULTS_sunsaver_mppt\<rparr>,
     (RegisterSpec ''battery_voltage_slow'' 0x0013)
        \<lparr>rs_decoder := ''factor:0.0030517578125'', rs_unit := Some ''V''\<rparr>,
     (RegisterSpec ''target_voltage'' 0x0014)
        \<lparr>rs_decoder := ''factor:0.002950897216796875'', rs_unit := Some ''V''\<rparr>,
     (RegisterSpec ''load_state'' 0x001A) \<lparr>rs_category := StateCategory, rs_enum := LOAD_STATES\<rparr>,
     (RegisterSpec ''load_faults'' 0x001B) \<lparr>rs_category := FaultCategory, rs_bits := LOAD_FAULTS\<rparr>,
     (RegisterSpec ''hourmeter'' 0x0021)
        \<lparr>rs_words := 2, rs_decoder := ''u32'', rs_unit := Some ''h''\<rparr>,
     (RegisterSpec ''alarms'' 0x0023)
        \<lparr>rs_words := 2, rs_decoder := ''u32'', rs_category := AlarmCategory,
         rs_bits := SUNSAVER_MPPT_ALARMS\<rparr>,
     (RegisterSpec ''dip_switch'' 0x0025) \<lparr>rs_category := Configuration\<rparr>,
     (RegisterSpec ''led_state'' 0x0026) \<lparr>rs_category := StateCategory\<rparr>,
     (RegisterSpec ''output_power'' 0x0027)
        \<lparr>rs_decoder := ''ufactor:0.01509857177734375'', rs_unit := Some ''W''\<rparr>,
     (RegisterSpec ''vmp'' 0x0028)
        \<lparr>rs_decoder := ''factor:0.0030517578125'', rs_unit := Some ''V''\<rparr>,
     (RegisterSpec ''pmax'' 0x0029)
        \<lparr>rs_decoder := ''ufactor:0.01509857177734375'', rs_unit := Some ''W''\<rparr>,
     (RegisterSpec ''voc'' 0x002A)
        \<lparr>rs_decoder := ''factor:0.0030517578125'', rs_unit := Some ''V''\<rparr>,
     (RegisterSpec ''lighting_should_be_on'' 0x0038) \<lparr>rs_category := StateCategory\<rparr>,
     (RegisterSpec ''fixed_vmp'' 0x0039)
        \<lparr>rs_decoder := ''factor:0.0030517578125'', rs_unit := Some ''V''\<rparr>,
     (RegisterSpec ''fixed_vmp_percent'' 0x003A)
        \<lparr>rs_decoder := ''percent:255'', rs_unit := Some ''%''\<rparr>]"

definition SUNSAVER_MPPT :: "device_profile_spec" where
  "SUNSAVER_MPPT = (DeviceProfileSpec ''sunsaver_mppt'' ''SunSaver MPPT'' [''sunsaver mppt'', ''ss-mppt'',
    ''ssmppt''] ''sunsaver-mppt-modbus-v11'' SOURCE_sunsaver_mppt [RegisterBlock 0x0008 0x0033] registers_sunsaver_mppt)
     \<lparr>sp_detection_priority := 60,
      sp_capabilities := [''rtu'', ''meterbus'', ''charge'', ''load'', ''lighting'', ''device_identification''],
      sp_network := [(''baudrate'', ''9600''), (''default_modbus_id'', ''1''), (''stop_bits'', ''2'')]\<rparr>"

section \<open>SunSaver Duo\<close>

definition SOURCE_sunsaver_duo :: "string" where
  "SOURCE_sunsaver_duo = ''https://www.morningstarcorp.com/wp-content/uploads/technical-doc-sunsaver-duo-modbus-specification-en.pdf''"

definition STATES_sunsaver_duo :: "(int \<times> string) list" where
  "STATES_sunsaver_duo = [(1, ''NORMAL''), (3, ''NIGHT''), (4, ''FAULT'')]"

definition FAULTS_sunsaver_duo :: "(nat \<times> string) list" where
  "FAULTS_sunsaver_duo = [(0, ''reverse_polarity_solar''), (1, ''reverse_polarity_battery_1''), (2,
    ''reverse_polarity_battery_2''), (3, ''local_temp_sensor_damaged''), (4, ''rts_damaged_or_removed''),
    (5, ''overcurrent''), (6, ''high_temperature_disconnect''), (7, ''hvd'')]"

definition FLAGS_sunsaver_duo :: "(nat \<times> string) list" where
  "FLAGS_sunsaver_duo = [(0, ''internal_0''), (1, ''internal_1''), (2, ''internal_2''), (3,
    ''regulation''), (4, ''valid_rts''), (5, ''alternating''), (6, ''on_off_regulation''), (7,
    ''started'')]"

definition registers_sunsaver_duo :: "register_spec list" where
  "registers_sunsaver_duo = [
     (RegisterSpec ''battery_1_voltage'' 0x0000)
        \<lparr>rs_decoder := ''udivide:1800'', rs_unit := Some ''V''\<rparr>,
     (RegisterSpec ''battery_2_voltage'' 0x0001)
        \<lparr>rs_decoder := ''udivide:1800'', rs_unit := Some ''V''\<rparr>,
     (RegisterSpec ''array_voltage'' 0x0002)
        \<lparr>rs_decoder := ''udivide:1032'', rs_unit := Some ''V''\<rparr>,
     (RegisterSpec ''array_current_1'' 0x0003)
        \<lparr>rs_decoder := ''udivide:673'', rs_unit := Some ''A''\<rparr>,
     (RegisterSpec ''array_current_2'' 0x0004)
        \<lparr>rs_decoder := ''udivide:673'', rs_unit := Some ''A''\<rparr>,
     (RegisterSpec ''target_voltage_1'' 0x0008)
        \<lparr>rs_decoder := ''udivide:1800'', rs_unit := Some ''V''\<rparr>,
     (RegisterSpec ''target_voltage_2'' 0x0009)
        \<lparr>rs_decoder := ''udivide:1800'', rs_unit := Some ''V''\<rparr>,
     (RegisterSpec ''duty_cycle_1'' 0x000A)
        \<lparr>rs_decoder := ''percent:417'', rs_unit := Some ''%''\<rparr>,
     (RegisterSpec ''duty_cycle_2'' 0x000B)
        \<lparr>rs_decoder := ''percent:417'', rs_unit := Some ''%''\<rparr>,
     (RegisterSpec ''duty_cycle_1_control'' 0x0106)
        \<lparr>rs_decoder := ''percent:417'', rs_unit := Some ''%''\<rparr>,
     (RegisterSpec ''duty_cycle_2_control'' 0x0107)
        \<lparr>rs_decoder := ''percent:417'', rs_unit := Some ''%''\<rparr>,
     (RegisterSpec ''state'' 0x0108)
        \<lparr>rs_category := StateCategory, rs_enum := STATES_sunsaver_duo\<rparr>,
     (RegisterSpec ''faults'' 0x0109)
        \<lparr>rs_category := FaultCategory, rs_bits := FAULTS_sunsaver_duo\<rparr>,
     (RegisterSpec ''flags'' 0x010A)
        \<lparr>rs_category := StateCategory, rs_bits := FLAGS_sunsaver_duo\<rparr>,
     (RegisterSpec ''dip_switch'' 0x010B) \<lparr>rs_category := Configuration\<rparr>]"

definition SUNSAVER_DUO :: "device_profile_spec" where
  "SUNSAVER_DUO = (DeviceProfileSpec ''sunsaver_duo'' ''SunSaver Duo'' [''sunsaver duo'', ''ssd'',
    ''sunsaverduo''] ''sunsaver-duo-modbus-v04'' SOURCE_sunsaver_duo [RegisterBlock 0x0000 0x0010,
    RegisterBlock 0x0106 0x0006] registers_sunsaver_duo)
     \<lparr>sp_detection_priority := 70,
      sp_capabilities := [''rtu'', ''meterbus'', ''dual_battery'', ''charge'', ''device_identification''],
      sp_network := [(''baudrate'', ''9600''), (''default_modbus_id'', ''1''), (''stop_bits'', ''2'')]\<rparr>"

end
