(* ===== verification/Families_SureSine_ReadyEdge.thy ===== *)
theory Families_SureSine_ReadyEdge
  imports Catalog_Common Py_Text
begin

text \<open>
  The catalogs of \<open>families/suresine_classic.py\<close>, \<open>families/suresine_gen2.py\<close>,
  \<open>families/relay_driver.py\<close> and \<open>families/readyedge.py\<close>.
\<close>

section \<open>SureSine Classic\<close>

definition SOURCE_suresine_classic :: "string" where
  "SOURCE_suresine_classic = ''https://www.morningstarcorp.com/wp-content/uploads/technical-doc-suresine-modbus-specification-en.pdf''"

definition FAULTS_suresine_classic :: "(nat \<times> string) list" where
  "FAULTS_suresine_classic = [(0, ''reset''), (1, ''overcurrent''), (3, ''software''), (4, ''hvd''), (5,
    ''heatsink_overtemp''), (6, ''dip_changed''), (7, ''settings_edit'')]"

definition ALARMS_suresine_classic :: "(nat \<times> string) list" where
  "ALARMS_suresine_classic = [(0, ''heatsink_sensor_open''), (1, ''heatsink_sensor_short''), (3,
    ''heatsink_hot'')]"

definition registers_suresine_classic :: "register_spec list" where
  "registers_suresine_classic = [
     (RegisterSpec ''battery_voltage_raw'' 0x0000)
        \<lparr>rs_decoder := ''ufactor:0.0002581787109375'', rs_unit := Some ''V''\<rparr>,
     (RegisterSpec ''ac_output_current_raw'' 0x0001)
        \<lparr>rs_decoder := ''suresine_classic_current'', rs_unit := Some ''A''\<rparr>,
     (RegisterSpec ''battery_voltage'' 0x0004)
        \<lparr>rs_decoder := ''ufactor:0.0002581787109375'', rs_unit := Some ''V''\<rparr>,
     (RegisterSpec ''ac_output_current'' 0x0005)
        \<lparr>rs_decoder := ''suresine_classic_current'', rs_unit := Some ''A''\<rparr>,
     (RegisterSpec ''heatsink_temp'' 0x0006) \<lparr>rs_decoder := ''s16'', rs_unit := Some ''C''\<rparr>,
     (RegisterSpec ''faults'' 0x0007)
        \<lparr>rs_category := FaultCategory, rs_bits := FAULTS_suresine_classic\<rparr>,
     (RegisterSpec ''alarms'' 0x0008)
        \<lparr>rs_category := AlarmCategory, rs_bits := ALARMS_suresine_classic\<rparr>,
     (RegisterSpec ''dip_switch'' 0x000A) \<lparr>rs_category := Configuration\<rparr>,
     (RegisterSpec ''load_state'' 0x000B)
        \<lparr>rs_category := StateCategory, rs_enum := SURESINE_CLASSIC_LOAD_STATES\<rparr>,
     (RegisterSpec ''modulation_index'' 0x000C)
        \<lparr>rs_decoder := ''percent:256'', rs_unit := Some ''%''\<rparr>,
     (RegisterSpec ''ac_output_voltage'' 0x000D) \<lparr>rs_unit := Some ''V''\<rparr>,
     (RegisterSpec ''ac_output_frequency'' 0x000E) \<lparr>rs_unit := Some ''Hz''\<rparr>,
     (RegisterSpec ''modbus_id'' 0xE002) \<lparr>rs_category := Network\<rparr>,
     (RegisterSpec ''meterbus_id'' 0xE003) \<lparr>rs_category := Network\<rparr>,
     (RegisterSpec ''serial_number'' 0xE044)
        \<lparr>rs_words := 4, rs_decoder := ''ascii_lo_hi'', rs_category := Metadata\<rparr>]"

definition SURESINE_CLASSIC :: "device_profile_spec" where
  "SURESINE_CLASSIC = (DeviceProfileSpec ''suresine_classic'' ''SureSine Classic 300W'' [''suresine300'',
    ''suresine 300'',
    ''suresine classic''] ''suresine-classic-modbus-v03'' SOURCE_suresine_classic [RegisterBlock 0x0000 0x0011,
    (RegisterBlock 0xE002 2)
     \<lparr>rb_category := Network, rb_optional := True, rb_cache := True\<rparr>,
       (RegisterBlock 0xE044 4) \<lparr>rb_category := Metadata, rb_optional := True,
       rb_cache := True\<rparr>] registers_suresine_classic) \<lparr>sp_detection_priority := 80,
      sp_capabilities := [''rtu'', ''meterbus'', ''inverter'', ''device_identification''],
      sp_network := [(''baudrate'', ''9600''), (''default_modbus_id'', ''1''), (''stop_bits'', ''2'')]\<rparr>"

section \<open>SureSine Gen2\<close>

definition SOURCE_suresine_gen2 :: "string" where
  "SOURCE_suresine_gen2 = ''https://www.morningstarcorp.com/wp-content/uploads/technical-doc-suresine-2-modbus-specification-en.pdf''"

definition LOAD_STATE_BITS_suresine_gen2 :: "(nat \<times> string) list" where
  "LOAD_STATE_BITS_suresine_gen2 = [(0, ''manual_power_on''), (1, ''manual_power_off''), (2,
    ''remote_switch_on''), (3, ''remote_switch_off''), (4, ''fault_power_off''), (5, ''timed_auto_on''),
    (6, ''timed_auto_off''), (7, ''low_consumption_on''), (8, ''low_consumption_off''), (9, ''overload''),
    (10, ''short_circuit''), (11, ''hvd_fault''), (12, ''lvd_fault''), (13, ''high_temperature_fault''),
    (14, ''comm_command_off''), (15, ''comm_command_on'')]"

definition FAULTS_suresine_gen2 :: "(nat \<times> string) list" where
  "FAULTS_suresine_gen2 = [(1, ''ac_overcurrent''), (2, ''ac_short''), (3, ''hvd''), (4, ''lvd''), (5,
    ''heatsink_overtemp_disconnect''), (6, ''inverter_fault'')]"

definition ALARMS_suresine_gen2 :: "(nat \<times> string) list" where
  "ALARMS_suresine_gen2 = [(0, ''heatsink_sensor_disconnected''), (1, ''heatsink_sensor_short''), (2,
    ''ambient_sensor_disconnected'')]"

definition registers_suresine_gen2 :: "register_spec list" where
  "registers_suresine_gen2 = [
     (RegisterSpec ''rated_power'' 0x0003)
        \<lparr>rs_decoder := ''ufactor:0.1'', rs_unit := Some ''W'', rs_category := Metadata\<rparr>,
     (RegisterSpec ''nominal_dc_voltage'' 0x0004)
        \<lparr>rs_decoder := ''ufactor:0.01'', rs_unit := Some ''V'', rs_category := Metadata\<rparr>,
     (RegisterSpec ''ac_output_rating'' 0x0005)
        \<lparr>rs_decoder := ''ufactor:0.1'', rs_unit := Some ''V'', rs_category := Metadata\<rparr>,
     (RegisterSpec ''ac_frequency_rating'' 0x0006)
        \<lparr>rs_unit := Some ''Hz'', rs_category := Metadata\<rparr>,
     (RegisterSpec ''remote_status'' 0x0007) \<lparr>rs_category := StateCategory\<rparr>,
     (RegisterSpec ''battery_voltage'' 0x0008)
        \<lparr>rs_decoder := ''ufactor:0.01'', rs_unit := Some ''V''\<rparr>,
     (RegisterSpec ''battery_current'' 0x0009)
        \<lparr>rs_decoder := ''factor:0.01'', rs_unit := Some ''A''\<rparr>,
     (RegisterSpec ''ac_output_voltage'' 0x000A)
        \<lparr>rs_decoder := ''ufactor:0.1'', rs_unit := Some ''V''\<rparr>,
     (RegisterSpec ''ac_output_current'' 0x000B)
        \<lparr>rs_decoder := ''ufactor:0.01'', rs_unit := Some ''A''\<rparr>,
     (RegisterSpec ''heatsink_temp'' 0x000C) \<lparr>rs_decoder := ''s16'', rs_unit := Some ''C''\<rparr>,
     (RegisterSpec ''internal_temp'' 0x000E) \<lparr>rs_decoder := ''s16'', rs_unit := Some ''C''\<rparr>,
     (RegisterSpec ''dip_switch'' 0x000F) \<lparr>rs_category := Configuration\<rparr>,
     (RegisterSpec ''load_state'' 0x0010)
        \<lparr>rs_category := StateCategory, rs_bits := LOAD_STATE_BITS_suresine_gen2\<rparr>,
     (RegisterSpec ''heatsink_temp_status'' 0x0012) \<lparr>rs_category := StateCategory\<rparr>,
     (RegisterSpec ''ambient_temp_status'' 0x0014) \<lparr>rs_category := StateCategory\<rparr>,
     (RegisterSpec ''faults'' 0x0015)
        \<lparr>rs_category := FaultCategory, rs_bits := FAULTS_suresine_gen2\<rparr>,
     (RegisterSpec ''alarms'' 0x0016)
        \<lparr>rs_category := AlarmCategory, rs_bits := ALARMS_suresine_gen2\<rparr>,
     (RegisterSpec ''total_energy'' 0x0051)
        \<lparr>rs_words := 2, rs_decoder := ''u32'', rs_unit := Some ''Wh''\<rparr>,
     (RegisterSpec ''run_state'' 0x005C)
        \<lparr>rs_category := StateCategory, rs_enum := [(0, ''AC_OFF''), (1, ''AC_ON'')]\<rparr>,
     (RegisterSpec ''led_state'' 0x005D)
        \<lparr>rs_category := StateCategory, rs_enum := SURESINE_GEN2_LED_STATES\<rparr>,
     (RegisterSpec ''instantaneous_power'' 0x005E)
        \<lparr>rs_decoder := ''ufactor:0.1'', rs_unit := Some ''W''\<rparr>,
     (RegisterSpec ''relay_state'' 0x005F) \<lparr>rs_category := StateCategory\<rparr>]"

definition SURESINE_GEN2 :: "device_profile_spec" where
  "SURESINE_GEN2 = (DeviceProfileSpec ''suresine_gen2'' ''SureSine Gen2'' [''suresine gen2'',
    ''suresine 2'', ''suresine2'',
    ''suresine-2''] ''suresine-gen2-modbus'' SOURCE_suresine_gen2 [RegisterBlock 0x0003 0x0014,
    RegisterBlock 0x0051 0x000F] registers_suresine_gen2)
     \<lparr>sp_detection_priority := 5,
      sp_capabilities := [''rtu'', ''eia485'', ''inverter'', ''modbus_tcp'', ''ethernet'',
        ''device_identification''],
      sp_network := [(''default_modbus_id'', ''1''), (''baudrate'', ''9600''), (''stop_bits'', ''2''),
        (''tcp_models'', ''700W-2500W''), (''tcp_port'', ''502''), (''fallback_ip'',
        ''192.168.1.253'')]\<rparr>"

section \<open>Relay Driver\<close>

definition SOURCE_relay_driver :: "string" where
  "SOURCE_relay_driver = ''https://www.morningstarcorp.com/wp-content/uploads/technical-doc-relay-driver-modbus-specification-en.pdf''"

definition RELAY_DRIVER :: "device_profile_spec" where
  "RELAY_DRIVER = (DeviceProfileSpec ''relay_driver'' ''Relay Driver RD-1'' [''relay driver'',
    ''relaydriver'', ''rd-1''] ''relay-driver-modbus'' SOURCE_relay_driver [(RegisterBlock 0x0000 0x0020)
     \<lparr>rb_optional := True\<rparr>] []) \<lparr>sp_detection_priority := 90,
      sp_capabilities := [''rtu'', ''rs232'', ''relay_outputs'', ''analog_inputs''],
      sp_network := [(''default_modbus_id'', ''1'')],
      sp_coverage := ''source-indexed'',
      sp_notes := ''Dedicated family selection is implemented. Raw registers are preserved, but named RD-1 register decoding remains intentionally incomplete until the official table is parsed.''\<rparr>"

section \<open>ReadyEdge\<close>

definition SOURCE_readyedge :: "string" where
  "SOURCE_readyedge = ''https://www.morningstarcorp.com/wp-content/uploads/technical-doc-readyedge-modbus-specification-en.pdf''"

definition SYSTEM_FAULTS_readyedge :: "(nat \<times> string) list" where
  "SYSTEM_FAULTS_readyedge = [(0, ''system_eeprom''), (2, ''software''), (6, ''system_setting_edit''),
    (19, ''minboot''), (29, ''system_setting_bad''), (30, ''hardware'')]"

definition ALARMS_readyedge :: "(nat \<times> string) list" where
  "ALARMS_readyedge = [(0, ''rts1_open''), (1, ''rts1_short''), (2, ''rts1_disconnected''), (9,
    ''connected_product_missing''), (14, ''soc_invalid''), (15, ''rts2_open''), (16, ''rts2_short''), (17,
    ''rts2_disconnected''), (20, ''tank_sensor_open''), (21, ''tank_sensor_short''), (22,
    ''tank_sensor_low''), (23, ''tank_sensor_bad_range''), (24, ''eeprom''), (25, ''ethernet''), (27,
    ''software''), (29, ''external_flash''), (33, ''rtc_low_battery''), (35, ''rtc_wrong''), (36,
    ''rtc_hardware''), (41, ''wireless_failure''), (42, ''hardware''), (43, ''unknown_block_type''), (44,
    ''block1_hardware''), (45, ''block2_hardware''), (46, ''block3_hardware''), (47, ''block4_hardware''),
    (48, ''block5_hardware''), (49, ''block6_hardware''), (50, ''generator_start_failed''), (52,
    ''schedule_publisher_failed''), (55, ''connected_product_address_conflict''), (56,
    ''incorrect_installer_password'')]"

definition CONNECTED_PRODUCT_TYPES_readyedge :: "(int \<times> string) list" where
  "CONNECTED_PRODUCT_TYPES_readyedge = [(0xFFFF, ''none''), (0x0000, ''unknown''), (0x0100,
    ''TriStar-PWM''), (0x0104, ''TriStar-MPPT''), (0x0105, ''SunSaver-MPPT''), (0x0106, ''SureSine-300''),
    (0x0109, ''TriStar-MPPT-600V''), (0x010A, ''ProStar-MPPT''), (0x010D, ''ProStar-PWM'')]"

definition CONNECTED_PRODUCT_BASE_readyedge :: "int" where
  "CONNECTED_PRODUCT_BASE_readyedge = 0x1F53"

definition CONNECTED_PRODUCT_STRIDE_readyedge :: "int" where
  "CONNECTED_PRODUCT_STRIDE_readyedge = 0x10"

definition connected_product_slot :: "int \<Rightarrow> register_spec list" where
  "connected_product_slot slot =
    (let base = CONNECTED_PRODUCT_BASE_readyedge + slot * CONNECTED_PRODUCT_STRIDE_readyedge;
         prefix = ''connected_product_'' @ show_int slot @ ''_'' in
     [(RegisterSpec (prefix @ ''type'') base) \<lparr>rs_category := Network,
       rs_enum := CONNECTED_PRODUCT_TYPES_readyedge,
        rs_description := ''Configured ReadyEdge Connected Product type for this slot.''\<rparr>,
      (RegisterSpec (prefix @ ''serial'') (base + 1))
        \<lparr>rs_words := 4, rs_decoder := ''ascii_hi_lo'', rs_category := Network,
        rs_description := ''Configured Connected Product serial number.''\<rparr>,
      (RegisterSpec (prefix @ ''bus_and_address'') (base + 5)) \<lparr>rs_category := Network,
        rs_description := ''Physical bus in the upper byte and Modbus device address in the lower byte.''\<rparr>])"

definition connected_product_registers :: "register_spec list" where
  "connected_product_registers = concat (map connected_product_slot (map int [0..<16]))"

definition connected_product_reserved_ranges :: "reserved_register_range list" where
  "connected_product_reserved_ranges = map (\<lambda>slot.
     (ReservedRegisterRange (CONNECTED_PRODUCT_BASE_readyedge + slot * CONNECTED_PRODUCT_STRIDE_readyedge + 6))
       \<lparr>rr_count := 10, rr_description :=
          ''ReadyEdge Connected Product slot reserved expansion words; manufacturer documentation says clients must not write them.''\<rparr>)
     (map int [0..<16])"

definition registers_readyedge :: "register_spec list" where
  "registers_readyedge = [
     (RegisterSpec ''firmware_version'' 0x0000) \<lparr>rs_category := Metadata\<rparr>,
     (RegisterSpec ''serial_number'' 0x0001)
        \<lparr>rs_words := 4, rs_decoder := ''ascii_hi_lo'', rs_category := Metadata\<rparr>,
     (RegisterSpec ''software_patchlevel'' 0x0005) \<lparr>rs_category := Metadata\<rparr>,
     (RegisterSpec ''dc_input_1_voltage'' 0x0016) \<lparr>rs_decoder := ''f16'', rs_unit := Some ''V''\<rparr>,
     (RegisterSpec ''dc_input_2_voltage'' 0x0017) \<lparr>rs_decoder := ''f16'', rs_unit := Some ''V''\<rparr>,
     (RegisterSpec ''dc_input_3_voltage'' 0x0018) \<lparr>rs_decoder := ''f16'', rs_unit := Some ''V''\<rparr>,
     (RegisterSpec ''input_voltage'' 0x0019) \<lparr>rs_decoder := ''f16'', rs_unit := Some ''V''\<rparr>,
     (RegisterSpec ''output_12v_voltage'' 0x001A) \<lparr>rs_decoder := ''f16'', rs_unit := Some ''V''\<rparr>,
     (RegisterSpec ''rts_1_temp'' 0x0076) \<lparr>rs_decoder := ''f16'', rs_unit := Some ''C''\<rparr>,
     (RegisterSpec ''rts_2_temp'' 0x0077) \<lparr>rs_decoder := ''f16'', rs_unit := Some ''C''\<rparr>,
     (RegisterSpec ''ac_detected'' 0x0082) \<lparr>rs_category := StateCategory\<rparr>,
     (RegisterSpec ''battery_soc'' 0x0083) \<lparr>rs_decoder := ''f16_percent'', rs_unit := Some ''%''\<rparr>,
     (RegisterSpec ''battery_soc_min_daily'' 0x0084)
        \<lparr>rs_decoder := ''f16_percent'', rs_unit := Some ''%''\<rparr>,
     (RegisterSpec ''battery_soc_max_daily'' 0x0085)
        \<lparr>rs_decoder := ''f16_percent'', rs_unit := Some ''%''\<rparr>,
     (RegisterSpec ''system_faults'' 0x01E2)
        \<lparr>rs_words := 4, rs_decoder := ''bitfield_words'', rs_category := FaultCategory,
         rs_bits := SYSTEM_FAULTS_readyedge\<rparr>,
     (RegisterSpec ''alarms'' 0x01EA)
        \<lparr>rs_words := 4, rs_decoder := ''bitfield_words'', rs_category := AlarmCategory,
         rs_bits := ALARMS_readyedge\<rparr>,
     (RegisterSpec ''led_state'' 0x0270)
        \<lparr>rs_category := StateCategory\<rparr>] @ connected_product_registers"

definition blocks_readyedge :: "register_block list" where
  "blocks_readyedge = [
     (RegisterBlock 0x0000 0x0006) \<lparr>rb_category := Metadata, rb_cache := True\<rparr>,
     RegisterBlock 0x0016 0x0005,
     RegisterBlock 0x0076 0x0002,
     RegisterBlock 0x0082 0x0004,
     RegisterBlock 0x01E2 0x0004,
     RegisterBlock 0x01EA 0x0004,
     RegisterBlock 0x0270 0x0001,
     (RegisterBlock 0x1F53 0x0076) \<lparr>rb_category := Network, rb_optional := True\<rparr>,
     (RegisterBlock 0x1FD3 0x0076) \<lparr>rb_category := Network, rb_optional := True\<rparr>]"

definition READYEDGE :: "device_profile_spec" where
  "READYEDGE = (DeviceProfileSpec ''readyedge'' ''ReadyEdge RE-1'' [''readyedge'', ''ready edge'',
    ''re-1''] ''readyedge-modbus-v01'' SOURCE_readyedge blocks_readyedge registers_readyedge)
     \<lparr>sp_detection_priority := 2,
      sp_reserved_ranges := connected_product_reserved_ranges,
      sp_capabilities := [''rtu'', ''usb'', ''rs232'', ''eia485'', ''modbus_tcp'', ''ethernet'',
        ''meterbus'', ''ms_can'', ''readyrail'', ''connected_product_bridge'',
        ''connected_product_inventory'', ''device_identification''],
      sp_network := [(''baudrate'', ''9600''), (''stop_bits'', ''2''), (''tcp_port'', ''502''),
        (''default_modbus_id'', ''1''), (''dhcp'', ''enabled''), (''netbios'', ''RE<serial>''),
        (''connected_product_ids'', ''200-215'')]\<rparr>"

end
