(* ===== verification/Catalog_Registry.thy ===== *)
theory Catalog_Registry
  imports Scaling_Facts Families_GenStar Families_TriStar Families_ProStar_SunSaver
    Families_SureSine_ReadyEdge
begin

text \<open>
  \<open>catalog/registry.py\<close>: the profiles in the order of their detection priority, and the choice
  of a profile by the identity a device reports.  Python's sort is stable; so is \<open>sort_key\<close>.
\<close>

definition GENERIC :: device_profile_spec where
  "GENERIC = (DeviceProfileSpec ''generic'' ''Generic Modbus'' [] '''' ''''
     [(RegisterBlock 0x0000 16) \<lparr>rb_optional := True\<rparr>] [])
     \<lparr>sp_capabilities := [''rtu'', ''modbus_tcp''],
      sp_detection_priority := 1000,
      sp_coverage := ''raw-only'',
      sp_notes := ''Fallback for devices that cannot be identified safely.''\<rparr>"

definition PROFILES :: "device_profile_spec list" where
  "PROFILES = sort_key sp_detection_priority
     [GENSTAR_MPPT, READYEDGE, SURESINE_GEN2, TRISTAR_MPPT_600V, TRISTAR_MPPT, TRISTAR_PWM,
      PROSTAR_MPPT, PROSTAR_PWM, SUNSAVER_MPPT, SUNSAVER_DUO, SURESINE_CLASSIC, RELAY_DRIVER]"

definition PROFILE_BY_NAME :: "string \<rightharpoonup> device_profile_spec" where
  "PROFILE_BY_NAME = map_of (rev (map (\<lambda>spec. (sp_name spec, spec)) (PROFILES @ [GENERIC])))"

text \<open>\<open>casefold\<close> on Latin-1 text: the sharp s is the one letter that folds to two.\<close>

definition casefold :: "string \<Rightarrow> string" where
  "casefold s = concat (map (\<lambda>c. if c = chr 223 then ''ss'' else [to_lower c]) s)"

definition normalize_identity :: "string \<Rightarrow> string" where
  "normalize_identity s = str_strip (sub_non_word (casefold s))"

definition is_explicit_non_morningstar_vendor :: "string \<Rightarrow> bool" where
  "is_explicit_non_morningstar_vendor vendor_text =
    (let vendor = normalize_identity vendor_text in
     vendor \<noteq> [] \<and> \<not> str_contains ''morningstar'' vendor)"

text \<open>\<open>sorted(aliases, key=len, reverse=True)\<close> keeps the order of aliases of one length.\<close>

definition aliases_longest_first :: "device_profile_spec \<Rightarrow> string list" where
  "aliases_longest_first spec = sort_key (\<lambda>a. - int (length a)) (sp_aliases spec)"

definition alias_matches :: "string \<Rightarrow> string \<Rightarrow> string \<Rightarrow> bool" where
  "alias_matches identity product alias =
    (let normalized = normalize_identity alias in
     normalized \<noteq> [] \<and> (str_contains normalized identity \<or> normalized = product))"

fun first_match :: "string \<Rightarrow> string \<Rightarrow> device_profile_spec list \<Rightarrow> device_profile_spec" where
  "first_match identity product [] = GENERIC"
| "first_match identity product (spec # specs) =
    (if list_ex (alias_matches identity product) (aliases_longest_first spec) then spec
     else first_match identity product specs)"

definition select_spec :: "string \<Rightarrow> string \<Rightarrow> device_profile_spec" where
  "select_spec vendor_text product_text =
    (if is_explicit_non_morningstar_vendor vendor_text then GENERIC
     else first_match (normalize_identity (vendor_text @ '' '' @ product_text))
       (normalize_identity product_text) PROFILES)"

section \<open>\<open>catalog/verification.py\<close>\<close>

definition PROFILE_VERIFICATION :: "(string \<times> verification_spec) list" where
  "PROFILE_VERIFICATION = [(''tristar_mppt'',
     VerificationSpec\<lparr>vs_document := VVerified, vs_software := VVerified, vs_fixture := VSynthetic,
       vs_hardware := VPending, vs_models := [''TS-MPPT-45'', ''TS-MPPT-60''],
       vs_fixture_paths := [''tests/fixtures/morningstar/tristar_mppt/TS-MPPT-60/synthetic-fw-29''],
       vs_notes := ''Replay coverage is synthetic/spec-derived until a sanitized capture from known physical hardware is reviewed and committed.''\<rparr>)]"

definition verification_for :: "string \<Rightarrow> verification_spec" where
  "verification_for profile_name = (case map_of PROFILE_VERIFICATION profile_name of
     Some spec \<Rightarrow> spec | None \<Rightarrow> VerificationSpec)"

end
