(* ===== verification/Catalog_Compat.thy ===== *)
theory Catalog_Compat
  imports Py_Prelude Py_Float Py_Text "HOL-Library.List_Lexorder"
begin

text \<open>
  \<open>catalog/compatibility.py\<close>: firmware versions as tuples of the numbers in a text, compared with
  missing components read as zero, and the ranges that gate blocks and registers.  Lists are
  ordered as Python orders tuples, lexicographically with a proper prefix first.
\<close>

section \<open>\<open>f"{x:g}"\<close>\<close>

definition decimal_exponent :: "rat \<Rightarrow> int" where
  "decimal_exponent x = (let (p, q) = quotient_of x;
       e = int (length (show_int p)) - int (length (show_int q)) in
     if 10 powi e \<le> x then e else e - 1)"

text \<open>Six significant digits, rounded half to even, and the exponent of the first.\<close>

definition six_digits :: "rat \<Rightarrow> string \<times> int" where
  "six_digits x = (let e = decimal_exponent x; n = rhe (x / 10 powi (e - 5)) in
     if n = 1000000 then (''100000'', e + 1) else (show_int n, e))"

definition strip_zeros :: "string \<Rightarrow> string" where
  "strip_zeros decs = (let f = rstrip_by (\<lambda>c. c = CHR ''0'') decs in if f = [] then [] else CHR ''.'' # f)"

definition fmt_g :: "pyfloat \<Rightarrow> string" where
  "fmt_g x = (case x of
     NaN \<Rightarrow> ''nan'' | PosInf \<Rightarrow> ''inf'' | NegInf \<Rightarrow> ''-inf''
   | Fin a \<Rightarrow> if a = 0 then ''0'' else
       (let (ds, e) = six_digits \<bar>a\<bar>;
            body = (if e < - 4 \<or> 6 \<le> e then
                      take 1 ds @ strip_zeros (drop 1 ds) @ ''e'' @ (if e < 0 then ''-'' else ''+'') @
                      pad0 2 (show_int \<bar>e\<bar>)
                    else if e < 0 then ''0'' @ strip_zeros (replicate (nat (- e - 1)) (CHR ''0'') @ ds)
                    else take (nat (e + 1)) ds @ strip_zeros (drop (nat (e + 1)) ds))
        in (if a < 0 then ''-'' @ body else body)))"

section \<open>Versions\<close>

text \<open>\<open>str(value)\<close> of the other kinds of value; digits are all that counts below.\<close>

fun version_text :: "pyval \<Rightarrow> string" where
  "version_text (VFloat x) = fmt_g x"
| "version_text (VInt i) = show_int i"
| "version_text (VStr s) = str_strip s"
| "version_text _ = []"

definition version_tuple :: "pyval \<Rightarrow> int list" where
  "version_tuple v = (case v of VNone \<Rightarrow> [] | VBool _ \<Rightarrow> []
     | _ \<Rightarrow> map int_of_digits (digit_runs (version_text v)))"

definition zero_pad :: "nat \<Rightarrow> int list \<Rightarrow> int list" where
  "zero_pad width a = a @ replicate (width - length a) 0"

definition compare_versions :: "pyval \<Rightarrow> pyval \<Rightarrow> int res" where
  "compare_versions left right =
    (let a = version_tuple left; b = version_tuple right in
     if a = [] \<or> b = [] then Inl (ValueError ''both firmware versions must contain numeric components'')
     else let width = max (length a) (length b); a' = zero_pad width a; b' = zero_pad width b in
       Inr (of_bool (a' > b') - of_bool (a' < b')))"

definition in_range :: "pyval \<Rightarrow> string option \<Rightarrow> string option \<Rightarrow> bool res" where
  "in_range v since until =
    (if version_tuple v = [] then Inr (since = None \<and> until = None)
     else rbind (case since of None \<Rightarrow> Inr True
                 | Some s \<Rightarrow> rbind (compare_versions v (VStr s)) (\<lambda>k. Inr (\<not> k < 0))) (\<lambda>lo.
       if \<not> lo then Inr False
       else case until of None \<Rightarrow> Inr True
            | Some u \<Rightarrow> rbind (compare_versions v (VStr u)) (\<lambda>k. Inr (\<not> k > 0))))"

text \<open>\<open>effective_items\<close>, over any items with a gate: the two ends of their firmware range.\<close>

fun effective_items :: "('a \<Rightarrow> string option \<times> string option) \<Rightarrow> 'a list \<Rightarrow> pyval \<Rightarrow> 'a list res" where
  "effective_items gate [] firmware = Inr []"
| "effective_items gate (x # xs) firmware =
    rbind (in_range firmware (fst (gate x)) (snd (gate x))) (\<lambda>keep.
    rbind (effective_items gate xs firmware) (\<lambda>rest. Inr (if keep then x # rest else rest)))"

section \<open>The order of versions\<close>

lemma length_zero_pad [simp]: "length (zero_pad n a) = max n (length a)"
  by (simp add: zero_pad_def)

lemma zero_pad_more: "length a \<le> m \<Longrightarrow> m \<le> n \<Longrightarrow> zero_pad n a = zero_pad m a @ replicate (n - m) 0"
  by (simp add: zero_pad_def replicate_add [symmetric])

lemma lex_append_less: "length a = length b \<Longrightarrow> a @ z < b @ z \<longleftrightarrow> a < (b :: int list)"
  by (induction a b rule: list_induct2) auto

lemma zero_pad_less:
  "length a \<le> m \<Longrightarrow> length b \<le> m \<Longrightarrow> m \<le> n \<Longrightarrow> zero_pad n a < zero_pad n b \<longleftrightarrow> zero_pad m a < zero_pad m b"
  by (simp add: zero_pad_more [of a m n] zero_pad_more [of b m n] lex_append_less)

text \<open>The comparison in one normal form: at any width that holds both.\<close>

lemma compare_versions_Inr:
  "compare_versions v w = Inr k \<longleftrightarrow> version_tuple v \<noteq> [] \<and> version_tuple w \<noteq> [] \<and>
    k = of_bool (zero_pad n (version_tuple v) > zero_pad n (version_tuple w))
      - of_bool (zero_pad n (version_tuple v) < zero_pad n (version_tuple w))"
  if "length (version_tuple v) \<le> n" "length (version_tuple w) \<le> n"
proof -
  let ?a = "version_tuple v" and ?b = "version_tuple w"
  have m: "max (length ?a) (length ?b) \<le> n" using that by simp
  have e: "zero_pad n ?a < zero_pad n ?b \<longleftrightarrow> zero_pad (max (length ?a) (length ?b)) ?a < zero_pad (max (length ?a) (length ?b)) ?b"
    "zero_pad n ?b < zero_pad n ?a \<longleftrightarrow> zero_pad (max (length ?a) (length ?b)) ?b < zero_pad (max (length ?a) (length ?b)) ?a"
    by (rule zero_pad_less; use m in simp)+
  show ?thesis unfolding e by (auto simp: compare_versions_def Let_def)
qed

definition width3 :: "pyval \<Rightarrow> pyval \<Rightarrow> pyval \<Rightarrow> nat" where
  "width3 u v w = max (length (version_tuple u)) (max (length (version_tuple v)) (length (version_tuple w)))"

lemma width3_le: "length (version_tuple u) \<le> width3 u v w" "length (version_tuple v) \<le> width3 u v w"
  "length (version_tuple w) \<le> width3 u v w"
  by (auto simp: width3_def)

lemma compare_versions_le:
  assumes "length (version_tuple v) \<le> n" "length (version_tuple w) \<le> n"
  shows "(\<exists>k \<le> 0. compare_versions v w = Inr k) \<longleftrightarrow> version_tuple v \<noteq> [] \<and> version_tuple w \<noteq> [] \<and>
    zero_pad n (version_tuple v) \<le> zero_pad n (version_tuple w)"
  unfolding compare_versions_Inr [OF assms] by (auto simp: not_less [symmetric] of_bool_def)

lemma compare_versions_trans:
  assumes "compare_versions u v = Inr i" "compare_versions v w = Inr j" "i \<le> 0" "j \<le> 0"
  shows "\<exists>k \<le> 0. compare_versions u w = Inr k"
proof -
  let ?n = "width3 u v w"
  note le = compare_versions_le [of _ ?n]
  have "\<exists>k \<le> 0. compare_versions u v = Inr k" "\<exists>k \<le> 0. compare_versions v w = Inr k"
    using assms by blast+
  then show ?thesis
    unfolding le [OF width3_le(1,2)] le [OF width3_le(2,3)] le [OF width3_le(1,3)]
    using order.trans by blast
qed

lemma compare_versions_flip: "compare_versions u v = Inr k \<Longrightarrow> compare_versions v u = Inr (- k)"
  by (auto simp: compare_versions_def Let_def max.commute split: if_splits)

lemma compare_versions_ne: "compare_versions u v = Inr k \<Longrightarrow> version_tuple u \<noteq> [] \<and> version_tuple v \<noteq> []"
  by (auto simp: compare_versions_def Let_def split: if_splits)

lemma lower_end:
  "(case since of None \<Rightarrow> Inr True | Some s \<Rightarrow> rbind (compare_versions v (VStr s)) (\<lambda>k. Inr (\<not> k < 0)))
     = Inr True \<longleftrightarrow> (\<forall>s. since = Some s \<longrightarrow> (\<exists>k \<ge> 0. compare_versions v (VStr s) = Inr k))"
  by (cases since) (auto simp: rbind_eq_Inr)

lemma upper_end:
  "(case until of None \<Rightarrow> Inr True | Some s \<Rightarrow> rbind (compare_versions v (VStr s)) (\<lambda>k. Inr (\<not> k > 0)))
     = Inr True \<longleftrightarrow> (\<forall>s. until = Some s \<longrightarrow> (\<exists>k \<le> 0. compare_versions v (VStr s) = Inr k))"
  by (cases until) (auto simp: rbind_eq_Inr)

lemma rbind_both_True:
  "rbind m (\<lambda>b. if \<not> b then Inr False else n) = Inr True \<longleftrightarrow> m = Inr True \<and> n = Inr True"
  by (cases m) auto

lemma in_range_ne:
  "version_tuple v \<noteq> [] \<Longrightarrow> in_range v since until = Inr True \<longleftrightarrow>
    (\<forall>s. since = Some s \<longrightarrow> (\<exists>k \<ge> 0. compare_versions v (VStr s) = Inr k)) \<and>
    (\<forall>u. until = Some u \<longrightarrow> (\<exists>k \<le> 0. compare_versions v (VStr u) = Inr k))"
  unfolding in_range_def by (simp only: if_False rbind_both_True lower_end upper_end)

text \<open>A gate that cannot raise: its ends are absent or have a number.\<close>

definition gate_ok :: "string option \<times> string option \<Rightarrow> bool" where
  "gate_ok g \<longleftrightarrow> (\<forall>s. fst g = Some s \<or> snd g = Some s \<longrightarrow> version_tuple (VStr s) \<noteq> [])"

lemma gate_ok_None [simp]: "gate_ok (None, None)"
  by (simp add: gate_ok_def)

lemma compare_versions_total:
  "version_tuple v \<noteq> [] \<Longrightarrow> version_tuple w \<noteq> [] \<Longrightarrow> \<exists>k. compare_versions v w = Inr k"
  by (simp add: compare_versions_def Let_def)

lemma in_range_total:
  assumes "gate_ok (since, until)" shows "\<exists>b. in_range v since until = Inr b"
proof (cases "version_tuple v = []")
  case True
  then show ?thesis by (simp add: in_range_def)
next
  case False
  have c: "since = Some s \<or> until = Some s \<Longrightarrow> \<exists>k. compare_versions v (VStr s) = Inr k" for s
    using assms False by (intro compare_versions_total) (auto simp: gate_ok_def)
  have "\<exists>b. (case since of None \<Rightarrow> Inr True
      | Some s \<Rightarrow> rbind (compare_versions v (VStr s)) (\<lambda>k. Inr (\<not> k < 0))) = Inr b"
  proof (cases since)
    case (Some s)
    then show ?thesis using c [of s] by auto
  qed auto
  moreover have "\<exists>b. (case until of None \<Rightarrow> Inr True
      | Some s \<Rightarrow> rbind (compare_versions v (VStr s)) (\<lambda>k. Inr (\<not> k > 0))) = Inr b"
  proof (cases until)
    case (Some s)
    then show ?thesis using c [of s] by auto
  qed auto
  ultimately show ?thesis using False unfolding in_range_def by (elim exE) (simp; blast)
qed

lemma effective_items_total:
  "\<forall>x \<in> set xs. gate_ok (gate x) \<Longrightarrow> \<exists>ys. effective_items gate xs v = Inr ys \<and> set ys \<subseteq> set xs"
proof (induction xs)
  case Nil
  then show ?case by simp
next
  case (Cons x xs)
  then obtain ys where "effective_items gate xs v = Inr ys" "set ys \<subseteq> set xs" by auto
  moreover obtain b where "in_range v (fst (gate x)) (snd (gate x)) = Inr b"
    using in_range_total [of "fst (gate x)" "snd (gate x)" v] Cons.prems by auto
  ultimately show ?case by auto
qed

lemma effective_items_ungated:
  "\<forall>x \<in> set xs. gate x = (None, None) \<Longrightarrow> effective_items gate xs v = Inr xs"
proof (induction xs)
  case (Cons x xs)
  have "in_range v None None = Inr True" by (simp add: in_range_def)
  with Cons show ?case by simp
qed simp

section \<open>Properties\<close>

text \<open>The comparison of firmware versions is a total preorder on the texts that have a number:
  swapping the arguments negates the result, it is transitive, components that are missing count
  as zero, and a text without a number is refused.\<close>

theorem compare_versions_preorder:
  "(compare_versions u v = Inr k \<longrightarrow> compare_versions v u = Inr (- k)) \<and>
   (compare_versions u v = Inr i \<and> compare_versions v w = Inr j \<and> i \<le> 0 \<and> j \<le> 0 \<longrightarrow>
      (\<exists>l \<le> 0. compare_versions u w = Inr l)) \<and>
   (version_tuple v = version_tuple u @ replicate n 0 \<and> version_tuple u \<noteq> [] \<longrightarrow>
      compare_versions u v = Inr 0) \<and>
   ((\<exists>e. compare_versions u v = Inl e) = (version_tuple u = [] \<or> version_tuple v = []))"
proof (intro conjI impI)
  show "compare_versions u v = Inr k \<Longrightarrow> compare_versions v u = Inr (- k)"
    by (rule compare_versions_flip)
  show "compare_versions u v = Inr i \<and> compare_versions v w = Inr j \<and> i \<le> 0 \<and> j \<le> 0 \<Longrightarrow>
      \<exists>l \<le> 0. compare_versions u w = Inr l"
    using compare_versions_trans by blast
  assume "version_tuple v = version_tuple u @ replicate n 0 \<and> version_tuple u \<noteq> []"
  then show "compare_versions u v = Inr 0" by (simp add: compare_versions_def Let_def zero_pad_def)
qed (auto simp: compare_versions_def Let_def)

theorem compare_versions_preorder_witness:
  "compare_versions (VStr ''v2.0'') (VStr ''1.9'') = Inr (- (- 1))"
proof -
  have "compare_versions (VStr ''1.9'') (VStr ''v2.0'') = Inr (- 1)" by code_simp
  then show ?thesis using compare_versions_preorder by blast
qed

text \<open>A firmware gate selects an interval of versions: a version between two that are in range
  is in range, and a firmware without a number passes only items that have no gate.\<close>

theorem in_range_interval:
  "(in_range u since until = Inr True \<and> in_range w since until = Inr True \<and>
    (\<exists>i \<le> 0. compare_versions u v = Inr i) \<and> (\<exists>j \<le> 0. compare_versions v w = Inr j) \<longrightarrow>
      in_range v since until = Inr True) \<and>
   (version_tuple v = [] \<longrightarrow> in_range v since until = Inr (since = None \<and> until = None))"
proof (intro conjI impI)
  assume a: "in_range u since until = Inr True \<and> in_range w since until = Inr True \<and>
    (\<exists>i \<le> 0. compare_versions u v = Inr i) \<and> (\<exists>j \<le> 0. compare_versions v w = Inr j)"
  then obtain i j where ij: "i \<le> 0" "compare_versions u v = Inr i" "j \<le> 0" "compare_versions v w = Inr j"
    by blast
  note ne = compare_versions_ne [OF ij(2), THEN conjunct1] compare_versions_ne [OF ij(4), THEN conjunct1]
    compare_versions_ne [OF ij(4), THEN conjunct2]
  have iu: "in_range u since until = Inr True" and iw: "in_range w since until = Inr True"
    using a by blast+
  have "\<exists>k \<ge> 0. compare_versions v (VStr s) = Inr k" if s: "since = Some s" for s
  proof -
    obtain k where "0 \<le> k" "compare_versions u (VStr s) = Inr k"
      using iffD1 [OF in_range_ne [OF ne(1)] iu] s by auto
    then have "compare_versions (VStr s) u = Inr (- k)" "- k \<le> 0" by (simp_all add: compare_versions_flip)
    then obtain l where "l \<le> 0" "compare_versions (VStr s) v = Inr l"
      using compare_versions_trans [OF _ ij(2) _ ij(1)] by blast
    then show ?thesis using compare_versions_flip [of "VStr s" v l] by (intro exI [of _ "- l"]) simp
  qed
  moreover have "\<exists>k \<le> 0. compare_versions v (VStr t) = Inr k" if t: "until = Some t" for t
  proof -
    obtain k where "k \<le> 0" "compare_versions w (VStr t) = Inr k"
      using iffD1 [OF in_range_ne [OF ne(3)] iw] t by auto
    then show ?thesis using compare_versions_trans [OF ij(4) _ ij(3)] by blast
  qed
  ultimately show "in_range v since until = Inr True" by (intro iffD2 [OF in_range_ne [OF ne(2)]]) simp
qed (simp add: in_range_def)

theorem in_range_interval_witness:
  "in_range (VStr ''1.5'') (Some ''1.0'') (Some ''2'') = Inr True"
proof -
  have "in_range (VStr ''1.2'') (Some ''1.0'') (Some ''2'') = Inr True"
    "in_range (VStr ''1.9'') (Some ''1.0'') (Some ''2'') = Inr True"
    "compare_versions (VStr ''1.2'') (VStr ''1.5'') = Inr (- 1)"
    "compare_versions (VStr ''1.5'') (VStr ''1.9'') = Inr (- 1)"
    by code_simp+
  moreover have "(- 1 :: int) \<le> 0" by simp
  ultimately show ?thesis using in_range_interval by blast
qed

end
