(* ===== verification/Catalog_Profile.thy ===== *)
theory Catalog_Profile
  imports Catalog_Registry Catalog_Compat "HOL-Library.AList"
begin

text \<open>
  \<open>catalog/profile.py\<close>, \<open>catalog/derived.py\<close> and the detection in \<open>catalog/registry.py\<close>: reading
  a device through a register reader, decoding the words, deriving the operator-facing input
  power.  A reader is the pair of read operations of a client over the client's state; the
  dictionaries of words are association lists, which keep the insertion order of the code's.
\<close>

section \<open>Readers\<close>

type_synonym 'c read_op = "'c \<Rightarrow> int \<Rightarrow> int \<Rightarrow> 'c \<times> u16 list res"

record 'c reader =
  rd_holding :: "'c read_op"
  rd_input :: "'c read_op"

definition read_words :: "'c reader \<Rightarrow> register_function \<Rightarrow> 'c read_op" where
  "read_words rd fn = (if fn = Input then rd_input rd else rd_holding rd)"

definition read_block :: "'c reader \<Rightarrow> 'c \<Rightarrow> register_block \<Rightarrow> 'c \<times> u16 list res" where
  "read_block rd c b = read_words rd (rb_function b) c (rb_address b) (rb_count b)"

section \<open>The state of a profile\<close>

type_synonym word_table = "((register_function \<times> int) \<times> int) list"

fun store_words :: "register_function \<Rightarrow> int \<Rightarrow> u16 list \<Rightarrow> word_table \<Rightarrow> word_table" where
  "store_words fn a [] t = t"
| "store_words fn a (w # ws) t = store_words fn (a + 1) ws (AList.update (fn, a) (uint w) t)"

record catalog_profile =
  cp_spec :: device_profile_spec
  cp_metadata :: word_table
  cp_cached :: "(register_function \<times> int \<times> int) set"

definition CatalogProfile :: "device_profile_spec \<Rightarrow> catalog_profile" where
  "CatalogProfile spec = \<lparr>cp_spec = spec, cp_metadata = [], cp_cached = {}\<rparr>"

definition block_key :: "register_block \<Rightarrow> register_function \<times> int \<times> int" where
  "block_key b = (rb_function b, rb_address b, rb_count b)"

text \<open>\<open>_load_metadata\<close>: the loop over the blocks.\<close>

fun load_blocks :: "'c reader \<Rightarrow> register_block list \<Rightarrow> catalog_profile \<Rightarrow> 'c \<Rightarrow>
    catalog_profile \<times> 'c \<times> unit res" where
  "load_blocks rd [] p c = (p, c, Inr ())"
| "load_blocks rd (b # bs) p c =
    (if \<not> rb_cache b \<or> block_key b \<in> cp_cached p then load_blocks rd bs p c
     else case read_block rd c b of
       (c', Inl e) \<Rightarrow> if rb_optional b then load_blocks rd bs p c' else (p, c', Inl e)
     | (c', Inr words) \<Rightarrow>
         load_blocks rd bs
           (p\<lparr>cp_metadata := store_words (rb_function b) (rb_address b) words (cp_metadata p),
              cp_cached := insert (block_key b) (cp_cached p)\<rparr>) c')"

definition load_metadata :: "'c reader \<Rightarrow> catalog_profile \<Rightarrow> 'c \<Rightarrow> catalog_profile \<times> 'c \<times> unit res" where
  "load_metadata rd p c = load_blocks rd (sp_blocks (cp_spec p)) p c"

section \<open>Decoding\<close>

definition context_of :: "word_table \<Rightarrow> register_function \<Rightarrow> int \<rightharpoonup> int" where
  "context_of t fn a = map_of t (fn, a)"

definition addresses :: "register_spec \<Rightarrow> int list" where
  "addresses r = map (\<lambda>i. rs_address r + int i) [0..<nat (rs_words r)]"

definition decode_register :: "register_spec \<Rightarrow> int list \<Rightarrow> (int \<rightharpoonup> int) \<Rightarrow> pyval res" where
  "decode_register r raw ctx =
    rbind (decode_value (rs_decoder r) raw ctx) (\<lambda>v.
      case v of
        VInt i \<Rightarrow>
          if rs_enum r \<noteq> [] then
            Inr (VStr (case map_of (rev (rs_enum r)) i of
              Some name \<Rightarrow> name | None \<Rightarrow> ''UNKNOWN_'' @ show_int i))
          else if rs_bits r \<noteq> [] then
            (let active = map snd (filter (\<lambda>(b, name). i AND push_bit b 1 \<noteq> 0) (rs_bits r)) in
             Inr (VStr (if active \<noteq> [] then str_join '','' active else ''NONE'')))
          else Inr v
      | _ \<Rightarrow> Inr v)"

definition register_gate :: "register_spec \<Rightarrow> string option \<times> string option" where
  "register_gate r = (rs_since_firmware r, rs_until_firmware r)"

definition block_gate :: "register_block \<Rightarrow> string option \<times> string option" where
  "block_gate b = (rb_since_firmware b, rb_until_firmware b)"

text \<open>One register of \<open>_decode_named\<close>: nothing when the category differs or a word is missing.\<close>

definition decode_one :: "word_table \<Rightarrow> register_category option \<Rightarrow> register_spec \<Rightarrow> register_value list res" where
  "decode_one t category r =
    (if category \<noteq> None \<and> Some (rs_category r) \<noteq> category then Inr []
     else
       let ctx = context_of t (rs_function r);
           raw = List.map_filter ctx (addresses r) in
       if int (length raw) \<noteq> rs_words r then Inr []
       else rbind (decode_register r raw ctx) (\<lambda>v.
         Inr [\<lparr>rv_name = rs_name r, rv_address = rs_address r, rv_function = rs_function r,
               rv_raw = raw, rv_value = v, rv_unit = rs_unit r\<rparr>]))"

definition decode_named ::
  "device_profile_spec \<Rightarrow> word_table \<Rightarrow> register_category option \<Rightarrow> pyval \<Rightarrow> register_value list res" where
  "decode_named spec t category firmware =
    rbind (effective_items register_gate (sp_registers spec) firmware) (\<lambda>rs.
    rbind (rmap (decode_one t category) rs) (\<lambda>vs. Inr (concat vs)))"

section \<open>\<open>catalog/derived.py\<close>\<close>

definition numeric :: "register_value option \<Rightarrow> pyfloat option res" where
  "numeric v = (case v of
     None \<Rightarrow> Inr None
   | Some r \<Rightarrow> (case rv_value r of
       VInt i \<Rightarrow> rbind (float_of_int i) (\<lambda>x. Inr (if fle (Fin 0) x then Some x else None))
     | VFloat x \<Rightarrow> Inr (if fle (Fin 0) x then Some x else None)
     | _ \<Rightarrow> Inr None))"

definition value_named :: "register_value list \<Rightarrow> string \<Rightarrow> register_value option" where
  "value_named vs name = map_of (rev (map (\<lambda>v. (rv_name v, v)) vs)) name"

definition battery_side_power :: "(string \<Rightarrow> register_value option) \<Rightarrow> (pyfloat option \<times> string) res" where
  "battery_side_power values =
    rbind (numeric (values ''output_power'')) (\<lambda>output_power.
      case output_power of
        Some x \<Rightarrow> Inr (Some x, ''controller_output_power'')
      | None \<Rightarrow>
        rbind (numeric (values ''battery_voltage'')) (\<lambda>battery_voltage.
        rbind (numeric (values ''battery_charge_current'')) (\<lambda>charge_current.
          case (battery_voltage, charge_current) of
            (Some v, Some i) \<Rightarrow> Inr (Some (fmul v i), ''battery_voltage_x_charge_current'')
          | _ \<Rightarrow> Inr (None, ''unavailable''))))"

definition reported_input_is_suspect :: "pyfloat \<Rightarrow> pyfloat option \<Rightarrow> bool" where
  "reported_input_is_suspect reported output_reference =
    (case output_reference of
       None \<Rightarrow> False
     | Some ref \<Rightarrow>
       if flt ref (Fin 25) then flt (Fin 250) reported
       else
         let too_high = flt (fmax (fmul ref (Fin 2)) (fadd ref (Fin 250))) reported;
             too_low = flt reported (fmul ref (Fin (1 / 2)))
         in too_high \<or> too_low)"

definition INPUT_POWER_ADDRESS :: int where
  "INPUT_POWER_ADDRESS = 0x003B"

definition derived_value :: "string \<Rightarrow> int list \<Rightarrow> pyval \<Rightarrow> string option \<Rightarrow> register_value" where
  "derived_value name raw v unit = \<lparr>rv_name = name, rv_address = INPUT_POWER_ADDRESS,
     rv_function = Holding, rv_raw = raw, rv_value = v, rv_unit = unit\<rparr>"

definition suspect_note :: "pyfloat \<Rightarrow> pyfloat \<Rightarrow> string \<Rightarrow> string" where
  "suspect_note reported ref source =
     ''controller-reported input power '' @ fmt_fixed2 reported @
     '' W is inconsistent with battery-side power '' @ fmt_fixed2 ref @ '' W ('' @ source @
     ''); using the battery-side value as a conservative operational proxy''"

definition reported_note :: string where
  "reported_note = ''Morningstar reports this input-power estimate from a non-precision array-current measurement; use input_power_reported for the unmodified controller value''"

definition derive_register_values :: "string \<Rightarrow> register_value list \<Rightarrow> register_value list res" where
  "derive_register_values profile_name named_values =
    (if profile_name \<noteq> ''tristar_mppt'' then Inr []
     else
       let values = value_named named_values in
       rbind (numeric (values ''input_power_reported'')) (\<lambda>reported'.
         case (values ''input_power_reported'', reported') of
           (Some reported_register, Some reported) \<Rightarrow>
             rbind (battery_side_power values) (\<lambda>(output_reference, output_source).
               let suspect = reported_input_is_suspect reported output_reference;
                   (selected, source, quality, note) =
                     (case (suspect, output_reference) of
                        (True, Some ref) \<Rightarrow>
                          (ref, ''charge_output_proxy'', ''estimated_from_output'',
                           suspect_note reported ref output_source)
                      | _ \<Rightarrow> (reported, ''controller_reported'', ''reported_unverified'', reported_note));
                   raw = rv_raw reported_register
               in Inr [derived_value ''input_power'' raw (VFloat selected) (Some ''W''),
                       derived_value ''input_power_source'' raw (VStr source) None,
                       derived_value ''input_power_quality'' raw (VStr quality) None,
                       derived_value ''input_power_note'' raw (VStr note) None])
         | _ \<Rightarrow> Inr []))"

section \<open>\<open>read_metadata\<close> and \<open>poll\<close>\<close>

text \<open>The metadata registers whose words no cached block brought: read one by one, failures skipped.\<close>

fun load_registers :: "'c reader \<Rightarrow> register_spec list \<Rightarrow> catalog_profile \<Rightarrow> 'c \<Rightarrow> catalog_profile \<times> 'c" where
  "load_registers rd [] p c = (p, c)"
| "load_registers rd (r # rs) p c =
    (if rs_category r \<noteq> Metadata \<or>
        list_all (\<lambda>a. map_of (cp_metadata p) (rs_function r, a) \<noteq> None) (addresses r)
     then load_registers rd rs p c
     else case read_words rd (rs_function r) c (rs_address r) (rs_words r) of
       (c', Inl e) \<Rightarrow> load_registers rd rs p c'
     | (c', Inr words) \<Rightarrow>
         load_registers rd rs
           (p\<lparr>cp_metadata := store_words (rs_function r) (rs_address r) words (cp_metadata p)\<rparr>) c')"

definition read_metadata ::
  "'c reader \<Rightarrow> catalog_profile \<Rightarrow> 'c \<Rightarrow> catalog_profile \<times> 'c \<times> register_value list res" where
  "read_metadata rd p c =
    (case load_metadata rd p c of
       (p1, c1, Inl e) \<Rightarrow> (p1, c1, Inl e)
     | (p1, c1, Inr _) \<Rightarrow>
       (let (p2, c2) = load_registers rd (sp_registers (cp_spec p1)) p1 c1 in
        (p2, c2, decode_named (cp_spec p2) (cp_metadata p2) (Some Metadata) (VStr ''''))))"

text \<open>The loop of \<open>poll\<close> over the blocks that are not cached.\<close>

fun poll_blocks :: "'c reader \<Rightarrow> register_block list \<Rightarrow> word_table \<Rightarrow> 'c \<Rightarrow> 'c \<times> word_table res" where
  "poll_blocks rd [] t c = (c, Inr t)"
| "poll_blocks rd (b # bs) t c =
    (if rb_cache b then poll_blocks rd bs t c
     else case read_block rd c b of
       (c', Inl e) \<Rightarrow> if rb_optional b then poll_blocks rd bs t c' else (c', Inl e)
     | (c', Inr words) \<Rightarrow> poll_blocks rd bs (store_words (rb_function b) (rb_address b) words t) c')"

definition raw_value :: "(register_function \<times> int) \<times> int \<Rightarrow> register_value" where
  "raw_value = (\<lambda>((fn, a), w). \<lparr>rv_name = function_str fn @ ''_0x'' @ HEX04 (nat a), rv_address = a,
     rv_function = fn, rv_raw = [w], rv_value = VInt w, rv_unit = None\<rparr>)"

definition poll_values :: "device_profile_spec \<Rightarrow> word_table \<Rightarrow> pyval \<Rightarrow> register_value list res" where
  "poll_values spec t firmware =
    rbind (decode_named spec t None firmware) (\<lambda>named.
    rbind (derive_register_values (sp_name spec) named) (\<lambda>derived.
      Inr (map raw_value (sort_key fst t) @ named @ derived)))"

definition poll ::
  "'c reader \<Rightarrow> catalog_profile \<Rightarrow> 'c \<Rightarrow> pyval \<Rightarrow> catalog_profile \<times> 'c \<times> register_value list res" where
  "poll rd p c firmware =
    (case load_metadata rd p c of
       (p1, c1, Inl e) \<Rightarrow> (p1, c1, Inl e)
     | (p1, c1, Inr _) \<Rightarrow>
       (case effective_items block_gate (sp_blocks (cp_spec p1)) firmware of
          Inl e \<Rightarrow> (p1, c1, Inl e)
        | Inr blocks \<Rightarrow>
          (case poll_blocks rd blocks (cp_metadata p1) c1 of
             (c2, Inl e) \<Rightarrow> (p1, c2, Inl e)
           | (c2, Inr t) \<Rightarrow> (p1, c2, poll_values (cp_spec p1) t firmware))))"

section \<open>\<open>detect_profile\<close>\<close>

text \<open>\<open>low <= words[i] * factor <= high\<close>, as the code computes it.\<close>

definition scaled_between :: "int \<Rightarrow> rat \<Rightarrow> u16 \<Rightarrow> rat \<Rightarrow> bool" where
  "scaled_between low factor w high =
    (let x = fmul (Fin (of_int (uint w))) (fl factor) in fle (Fin (of_int low)) x \<and> fle x (Fin high))"

definition looks_like_gen2 :: "u16 list \<Rightarrow> bool" where
  "looks_like_gen2 ws \<longleftrightarrow> 4 \<le> length ws \<and> scaled_between 100 (1 / 10) (ws ! 0) 3000 \<and>
     scaled_between 10 (1 / 100) (ws ! 1) 60 \<and> scaled_between 90 (1 / 10) (ws ! 2) 260 \<and>
     45 \<le> uint (ws ! 3) \<and> uint (ws ! 3) \<le> 65"

definition looks_like_classic :: "u16 list \<Rightarrow> bool" where
  "looks_like_classic ws \<longleftrightarrow> length ws = 2 \<and> 90 \<le> uint (ws ! 0) \<and> uint (ws ! 0) \<le> 260 \<and>
     45 \<le> uint (ws ! 1) \<and> uint (ws ! 1) \<le> 65"

definition looks_like_duo :: "u16 list \<Rightarrow> bool" where
  "looks_like_duo ws \<longleftrightarrow> 4 < length ws \<and> uint (ws ! 2) \<in> {1, 3, 4} \<and> uint (ws ! 4) \<le> 0xFF"

definition looks_like_pwm :: "u16 list \<Rightarrow> bool" where
  "looks_like_pwm ws \<longleftrightarrow> length ws = 2 \<and> uint (ws ! 0) \<in> {0, 1, 2, 3} \<and> uint (ws ! 1) \<le> 8"

text \<open>The fingerprints in order; an exception of a probe or of its test counts as no match.\<close>

definition probes :: "(int \<times> int \<times> (u16 list \<Rightarrow> bool) \<times> device_profile_spec) list" where
  "probes = [(0x0003, 4, looks_like_gen2, SURESINE_GEN2), (0x000D, 2, looks_like_classic, SURESINE_CLASSIC),
     (0x0106, 6, looks_like_duo, SUNSAVER_DUO), (0x001A, 2, looks_like_pwm, TRISTAR_PWM)]"

fun run_probes :: "'c reader \<Rightarrow> (int \<times> int \<times> (u16 list \<Rightarrow> bool) \<times> device_profile_spec) list \<Rightarrow>
    device_profile_spec \<Rightarrow> 'c \<Rightarrow> 'c \<times> device_profile_spec" where
  "run_probes rd [] selected c = (c, selected)"
| "run_probes rd ((address, count, matches, spec) # ps) selected c =
    (case rd_holding rd c address count of
       (c', Inr ws) \<Rightarrow> if matches ws then (c', spec) else run_probes rd ps selected c'
     | (c', Inl e) \<Rightarrow> run_probes rd ps selected c')"

definition select_profile :: "string \<Rightarrow> string \<Rightarrow> catalog_profile" where
  "select_profile vendor_text product_text = CatalogProfile (select_spec vendor_text product_text)"

definition get_profile :: "string \<Rightarrow> catalog_profile" where
  "get_profile name = CatalogProfile (case PROFILE_BY_NAME name of Some spec \<Rightarrow> spec | None \<Rightarrow> GENERIC)"

definition detect_profile :: "'c reader \<Rightarrow> 'c \<Rightarrow> device_identification \<Rightarrow> 'c \<times> catalog_profile" where
  "detect_profile rd c identity =
    (let selected = select_spec (vendor_name identity) (product_code identity) in
     if sp_name selected \<noteq> ''generic'' then (c, CatalogProfile selected)
     else if is_explicit_non_morningstar_vendor (vendor_name identity) then (c, CatalogProfile selected)
     else let (c', spec) = run_probes rd probes selected c in (c', CatalogProfile spec))"

end
