(* ===== verification/Catalog_Facts.thy ===== *)
theory Catalog_Facts
  imports Catalog_Profile
begin

text \<open>
  Facts about the catalog.  \<open>spec_ok\<close> says what the reader of a profile relies on: every block is
  a legal read request, every register has a decoder that cannot fail on its number of words and
  lies in one block of its own function, names are unique, and no register overlaps words the
  catalog declares reserved.  Each profile is checked by evaluation.
\<close>

section \<open>Well-formed profiles\<close>

definition block_ok :: "register_block \<Rightarrow> bool" where
  "block_ok b \<longleftrightarrow> 0 \<le> rb_address b \<and> 1 \<le> rb_count b \<and> rb_count b \<le> 125 \<and>
     rb_address b + rb_count b \<le> 65536"

definition block_covers :: "register_spec \<Rightarrow> register_block \<Rightarrow> bool" where
  "block_covers r b \<longleftrightarrow> rb_function b = rs_function r \<and> rb_address b \<le> rs_address r \<and>
     rs_address r + rs_words r \<le> rb_address b + rb_count b"

definition register_ok :: "register_spec \<Rightarrow> bool" where
  "register_ok r \<longleftrightarrow> 1 \<le> rs_words r \<and> decoder_ok (rs_decoder r) (rs_words r) \<and>
     distinct (map fst (rs_enum r)) \<and> distinct (map fst (rs_bits r))"

definition clear_of :: "reserved_register_range \<Rightarrow> register_spec \<Rightarrow> bool" where
  "clear_of g r \<longleftrightarrow> rs_function r \<noteq> rr_function g \<or> rs_address r + rs_words r \<le> rr_address g \<or>
     rr_address g + rr_count g \<le> rs_address r"

text \<open>The registers the derived input power is computed from are decoded to floats.\<close>

definition derivation_ok :: "register_spec \<Rightarrow> bool" where
  "derivation_ok r \<longleftrightarrow>
     (if rs_decoder r = ''tristar_voltage'' \<or> rs_decoder r = ''tristar_current'' \<or> rs_decoder r = ''tristar_power''
      then True
      else rs_name r \<noteq> ''input_power_reported'' \<and> rs_name r \<noteq> ''output_power'' \<and>
        rs_name r \<noteq> ''battery_voltage'' \<and> rs_name r \<noteq> ''battery_charge_current'')"

definition spec_ok :: "device_profile_spec \<Rightarrow> bool" where
  "spec_ok spec \<longleftrightarrow> list_all block_ok (sp_blocks spec) \<and> list_all register_ok (sp_registers spec) \<and>
     list_all (\<lambda>r. list_ex (block_covers r) (sp_blocks spec)) (sp_registers spec) \<and>
     list_all (\<lambda>g. list_all (clear_of g) (sp_registers spec)) (sp_reserved_ranges spec) \<and>
     list_all (\<lambda>r. register_gate r = (None, None)) (sp_registers spec) \<and>
     list_all (\<lambda>b. block_gate b = (None, None)) (sp_blocks spec) \<and>
     (sp_name spec = ''tristar_mppt'' \<longrightarrow> list_all derivation_ok (sp_registers spec)) \<and>
     distinct (register_names spec)"

end
