(* ===== verification/Profile_Facts.thy ===== *)
theory Profile_Facts
  imports Catalog_Facts
begin

text \<open>
  Facts about reading and decoding a profile.  The locale \<open>read_only_reader\<close> is the interface a
  profile relies on: what a read returns when it succeeds and what it leaves on the wire.  The
  facts of the locale hold for every client that keeps it.
\<close>

section \<open>Tables of words\<close>

lemma map_of_store_words:
  "map_of (store_words fn a ws t) (g, x) =
    (if g = fn \<and> a \<le> x \<and> x < a + int (length ws) then Some (uint (ws ! nat (x - a)))
     else map_of t (g, x))"
proof (induction fn a ws t rule: store_words.induct)
  case (1 fn a t)
  then show ?case by auto
next
  case (2 fn a w ws t)
  show ?case
  proof (cases "g = fn \<and> a \<le> x \<and> x < a + int (length (w # ws))")
    case True
    show ?thesis
    proof (cases "x = a")
      case True
      then show ?thesis using 2 by (simp add: update_conv')
    next
      case False
      then have "nat (x - a) = Suc (nat (x - (a + 1)))" using True by arith
      then show ?thesis using 2 True False by simp
    qed
  next
    case False
    then show ?thesis using 2 by (auto simp: update_conv')
  qed
qed

lemma distinct_store_words: "distinct (map fst t) \<Longrightarrow> distinct (map fst (store_words fn a ws t))"
  by (induction fn a ws t rule: store_words.induct) (simp_all add: distinct_update)

definition covered :: "word_table \<Rightarrow> register_block \<Rightarrow> bool" where
  "covered t b \<longleftrightarrow> (\<forall>x. rb_address b \<le> x \<and> x < rb_address b + rb_count b \<longrightarrow>
     map_of t (rb_function b, x) \<noteq> None)"

lemma covered_store_words: "covered t b \<Longrightarrow> covered (store_words fn a ws t) b"
  by (auto simp: covered_def map_of_store_words)

lemma covered_stored:
  "int (length ws) = rb_count b \<Longrightarrow> covered (store_words (rb_function b) (rb_address b) ws t) b"
  by (auto simp: covered_def map_of_store_words)

section \<open>Decoding cannot raise on a well-formed profile\<close>

lemma decode_register_returns:
  assumes "register_ok r" "int (length raw) = rs_words r"
  shows "returns (decode_register r raw ctx)"
proof -
  have "returns (decode_value (rs_decoder r) raw ctx)"
    using assms by (intro decode_value_returns) (simp add: register_ok_def)
  then show ?thesis by (auto simp: decode_register_def returns_def Let_def split: pyval.splits)
qed

lemma decode_one_returns: "register_ok r \<Longrightarrow> returns (decode_one t category r)"
proof -
  assume r: "register_ok r"
  show ?thesis
  proof (cases "int (length (List.map_filter (context_of t (rs_function r)) (addresses r))) = rs_words r")
    case True
    with r obtain v where
      "decode_register r (List.map_filter (context_of t (rs_function r)) (addresses r))
         (context_of t (rs_function r)) = Inr v"
      using decode_register_returns unfolding returns_def by blast
    then show ?thesis using True by (simp add: decode_one_def Let_def)
  qed (simp add: decode_one_def Let_def)
qed

text \<open>A profile whose registers and blocks decode and are not gated.\<close>

lemma spec_okD:
  assumes "spec_ok spec"
  shows "\<And>r. r \<in> set (sp_registers spec) \<Longrightarrow> register_ok r"
    "\<And>r. r \<in> set (sp_registers spec) \<Longrightarrow> register_gate r = (None, None)"
    "\<And>b. b \<in> set (sp_blocks spec) \<Longrightarrow> block_gate b = (None, None)"
    "\<And>b. b \<in> set (sp_blocks spec) \<Longrightarrow> block_ok b"
    "\<And>r. r \<in> set (sp_registers spec) \<Longrightarrow> \<exists>b \<in> set (sp_blocks spec). block_covers r b"
    "\<And>r. sp_name spec = ''tristar_mppt'' \<Longrightarrow> r \<in> set (sp_registers spec) \<Longrightarrow> derivation_ok r"
  using assms by (auto simp: spec_ok_def list_all_iff list_ex_iff)

lemma decode_named_Inr:
  assumes "spec_ok spec"
  shows "\<exists>vss. rmap (decode_one t category) (sp_registers spec) = Inr vss \<and>
    decode_named spec t category firmware = Inr (concat vss)"
proof -
  have "effective_items register_gate (sp_registers spec) firmware = Inr (sp_registers spec)"
    by (rule effective_items_ungated) (use spec_okD(2) [OF assms] in blast)
  moreover have "\<exists>vss. rmap (decode_one t category) (sp_registers spec) = Inr vss"
    by (rule rmap_total) (use decode_one_returns spec_okD(1) [OF assms] in \<open>auto simp: returns_def\<close>)
  ultimately show ?thesis by (auto simp: decode_named_def)
qed

lemma rmap_Inr_mem: "rmap f xs = Inr ys \<Longrightarrow> x \<in> set xs \<Longrightarrow> \<exists>y \<in> set ys. f x = Inr y"
  by (induction xs arbitrary: ys) (auto simp: rbind_eq_Inr)

lemma decode_one_value:
  assumes "decode_one t None r = Inr vs"
    "\<And>x. rs_address r \<le> x \<Longrightarrow> x < rs_address r + rs_words r \<Longrightarrow> map_of t (rs_function r, x) \<noteq> None"
    "0 \<le> rs_words r"
  shows "\<exists>v \<in> set vs. rv_name v = rs_name r \<and> rv_function v = rs_function r \<and>
    rv_raw v = map (\<lambda>x. the (map_of t (rs_function r, x))) (addresses r)"
proof -
  let ?ctx = "context_of t (rs_function r)"
  have def: "?ctx x \<noteq> None" if "x \<in> set (addresses r)" for x
    using that assms(2) [of x] by (auto simp: addresses_def context_of_def)
  then have f: "List.map_filter ?ctx (addresses r) = map (\<lambda>x. the (?ctx x)) (addresses r)"
    by (induction "addresses r") (auto simp: List.map_filter_def)
  have "int (length (List.map_filter ?ctx (addresses r))) = rs_words r"
    unfolding f using assms(3) by (simp add: addresses_def)
  with assms(1) show ?thesis
    by (auto simp: decode_one_def Let_def rbind_eq_Inr f context_of_def)
qed

section \<open>The derived input power\<close>

lemma numeric_VFloat: "rv_value v = VFloat x \<Longrightarrow> returns (numeric (Some v))"
  by (simp add: numeric_def)

definition floats_named :: "register_value list \<Rightarrow> bool" where
  "floats_named vs \<longleftrightarrow> (\<forall>v \<in> set vs. rv_name v \<in> {''input_power_reported'', ''output_power'',
     ''battery_voltage'', ''battery_charge_current''} \<longrightarrow> (\<exists>x. rv_value v = VFloat x))"

lemma value_named_Some: "value_named vs n = Some v \<Longrightarrow> v \<in> set vs \<and> rv_name v = n"
  unfolding value_named_def by (drule map_of_SomeD) auto

lemma numeric_named:
  assumes "floats_named vs" "n \<in> {''input_power_reported'', ''output_power'', ''battery_voltage'',
     ''battery_charge_current''}"
  shows "returns (numeric (value_named vs n))"
proof (cases "value_named vs n")
  case None
  then show ?thesis by (simp add: numeric_def)
next
  case (Some v)
  then obtain x where "rv_value v = VFloat x"
    using value_named_Some [OF Some] assms unfolding floats_named_def by blast
  then show ?thesis using Some numeric_VFloat by simp
qed

lemma battery_side_power_returns:
  "floats_named vs \<Longrightarrow> returns (battery_side_power (value_named vs))"
proof -
  assume f: "floats_named vs"
  have "returns (numeric (value_named vs ''output_power''))"
    "returns (numeric (value_named vs ''battery_voltage''))"
    "returns (numeric (value_named vs ''battery_charge_current''))"
    by (rule numeric_named [OF f]; simp)+
  then obtain o' v i where "numeric (value_named vs ''output_power'') = Inr o'"
    "numeric (value_named vs ''battery_voltage'') = Inr v"
    "numeric (value_named vs ''battery_charge_current'') = Inr i"
    unfolding returns_def by (elim exE)
  then show ?thesis
    by (cases o'; cases v; cases i) (simp_all add: battery_side_power_def)
qed

lemma derive_returns: "floats_named vs \<Longrightarrow> returns (derive_register_values name vs)"
proof -
  assume f: "floats_named vs"
  have "returns (numeric (value_named vs ''input_power_reported''))"
    by (rule numeric_named [OF f]) simp
  with battery_side_power_returns [OF f] obtain r b where
    "numeric (value_named vs ''input_power_reported'') = Inr r"
    "battery_side_power (value_named vs) = Inr b"
    unfolding returns_def by (elim exE)
  then show ?thesis
    by (cases r; cases b; cases "value_named vs ''input_power_reported''")
      (simp_all add: derive_register_values_def Let_def split: prod.splits)
qed

lemma decode_value_float:
  assumes d: "d = ''tristar_voltage'' \<or> d = ''tristar_current'' \<or> d = ''tristar_power''"
    and v: "decode_value d raw ctx = Inr v"
  shows "\<exists>x. v = VFloat x"
proof -
  have f: "vfloat m = Inr v \<Longrightarrow> \<exists>x. v = VFloat x" for m
    by (auto simp: vfloat_def rbind_eq_Inr)
  have ne: "raw \<noteq> []"
  proof
    assume "raw = []"
    then have "decode_value d raw ctx = Inl (ValueError ''cannot decode an empty register field'')"
      by (simp add: decode_value_def)
    with v show False by simp
  qed
  have eq: "decode_value ''tristar_voltage'' raw ctx = vfloat (rbind (voltage_scale ctx) (scaled_16 (raw ! 0)))"
    "decode_value ''tristar_current'' raw ctx = vfloat (rbind (current_scale ctx) (scaled_16 (raw ! 0)))"
    "decode_value ''tristar_power'' raw ctx =
       vfloat (rbind (voltage_scale ctx) (\<lambda>v. rbind (current_scale ctx) (\<lambda>c.
         rbind (mul_int_float (raw ! 0 AND 0xFFFF) v) (\<lambda>p. fdiv (fmul p c) (Fin 131072)))))"
    using ne by (simp_all add: decode_value_def startswith_def)
  have g: "decode_value d raw ctx = vfloat m \<Longrightarrow> \<exists>x. v = VFloat x" for m
    using v f [of m] by simp
  from d show ?thesis
  proof (elim disjE)
    assume "d = ''tristar_voltage''"
    then show ?thesis using eq(1) by (intro g) (simp only:)
  next
    assume "d = ''tristar_current''"
    then show ?thesis using eq(2) by (intro g) (simp only:)
  next
    assume "d = ''tristar_power''"
    then show ?thesis using eq(3) by (intro g) (simp only:)
  qed
qed

lemma decode_one_shape:
  assumes "decode_one t category r = Inr vs"
  shows "vs = [] \<or> (\<exists>v raw. vs = [v] \<and> rv_name v = rs_name r \<and>
    decode_register r raw (context_of t (rs_function r)) = Inr (rv_value v))"
proof -
  let ?ctx = "context_of t (rs_function r)" and ?raw = "List.map_filter (context_of t (rs_function r)) (addresses r)"
  have "vs = [] \<or> (\<exists>x. decode_register r ?raw ?ctx = Inr x \<and>
      vs = [\<lparr>rv_name = rs_name r, rv_address = rs_address r, rv_function = rs_function r,
             rv_raw = ?raw, rv_value = x, rv_unit = rs_unit r\<rparr>])"
    using assms by (simp add: decode_one_def Let_def rbind_eq_Inr split: if_splits) auto
  then show ?thesis by (elim disjE exE conjE) (auto intro!: exI [of _ ?raw])
qed

lemma decode_one_float:
  assumes "derivation_ok r" "decode_one t category r = Inr vs"
  shows "floats_named vs"
proof (cases "rs_decoder r = ''tristar_voltage'' \<or> rs_decoder r = ''tristar_current'' \<or>
    rs_decoder r = ''tristar_power''")
  case True
  have "\<exists>x. v = VFloat x" if d: "decode_register r raw ctx = Inr v" for raw ctx v
  proof -
    obtain w where w: "decode_value (rs_decoder r) raw ctx = Inr w"
      using d by (auto simp: decode_register_def rbind_eq_Inr)
    from decode_value_float [OF True w] obtain x where "w = VFloat x" by blast
    then show ?thesis using d w by (auto simp: decode_register_def)
  qed
  then show ?thesis using decode_one_shape [OF assms(2)] by (auto simp: floats_named_def)
next
  case False
  then have "rs_name r \<notin> {''input_power_reported'', ''output_power'', ''battery_voltage'',
      ''battery_charge_current''}"
    using assms(1) unfolding derivation_ok_def by (simp only: if_False) blast
  then show ?thesis using decode_one_shape [OF assms(2)] unfolding floats_named_def by fastforce
qed

lemma poll_values_returns:
  assumes "spec_ok spec" shows "returns (poll_values spec t firmware)"
proof -
  obtain vss where vss: "rmap (decode_one t None) (sp_registers spec) = Inr vss"
    "decode_named spec t None firmware = Inr (concat vss)"
    using decode_named_Inr [OF assms] by blast
  have "returns (derive_register_values (sp_name spec) (concat vss))"
  proof (cases "sp_name spec = ''tristar_mppt''")
    case True
    have "floats_named vs" if "vs \<in> set vss" for vs
      using rmap_Inr_set [OF vss(1) that] decode_one_float spec_okD(6) [OF assms True] by blast
    then have "floats_named (concat vss)" by (auto simp: floats_named_def)
    then show ?thesis by (rule derive_returns)
  qed (simp add: derive_register_values_def)
  then show ?thesis by (auto simp: poll_values_def vss(2) returns_def)
qed

section \<open>The state of a profile\<close>

text \<open>Every block marked as cached has all its words in the metadata.\<close>

definition profile_ok :: "catalog_profile \<Rightarrow> bool" where
  "profile_ok p \<longleftrightarrow> distinct (map fst (cp_metadata p)) \<and>
     (\<forall>b. block_key b \<in> cp_cached p \<longrightarrow> covered (cp_metadata p) b)"

lemma profile_ok_new [simp]: "profile_ok (CatalogProfile spec)"
  by (simp add: profile_ok_def CatalogProfile_def)

lemma covered_key: "block_key b = block_key b' \<Longrightarrow> covered t b = covered t b'"
  by (simp add: covered_def block_key_def)

text \<open>Reading blocks that are all cached reads nothing.\<close>

lemma load_blocks_cached:
  "\<forall>b \<in> set bs. rb_cache b \<longrightarrow> block_key b \<in> cp_cached p \<Longrightarrow> load_blocks rd bs p c = (p, c, Inr ())"
  by (induction bs) auto

lemma load_blocks_mono:
  "load_blocks rd bs p c = (p', c', r) \<Longrightarrow> cp_spec p' = cp_spec p \<and> cp_cached p \<subseteq> cp_cached p' \<and>
    (r = Inr () \<longrightarrow> (\<forall>b \<in> set bs. rb_cache b \<and> \<not> rb_optional b \<longrightarrow> block_key b \<in> cp_cached p')) \<and>
    (\<forall>e. r = Inl e \<longrightarrow> (\<exists>b \<in> set bs. \<not> rb_optional b \<and> (\<exists>c1 c2. read_block rd c1 b = (c2, Inl e))))"
proof (induction bs arbitrary: p c)
  case (Cons b bs)
  obtain c1 x where rb: "read_block rd c b = (c1, x)" by fastforce
  show ?case
  proof (cases "\<not> rb_cache b \<or> block_key b \<in> cp_cached p")
    case True
    then have "load_blocks rd bs p c = (p', c', r)" using Cons.prems by simp
    from Cons.IH [OF this] True show ?thesis by auto
  next
    case False
    show ?thesis
    proof (cases x)
      case (Inl e)
      show ?thesis
      proof (cases "rb_optional b")
        case True
        then have "load_blocks rd bs p c1 = (p', c', r)" using Cons.prems rb False Inl by simp
        from Cons.IH [OF this] True show ?thesis by auto
      next
        case nopt: False
        then show ?thesis using Cons.prems rb False Inl by auto
      qed
    next
      case (Inr ws)
      then have "load_blocks rd bs (p\<lparr>cp_metadata := store_words (rb_function b) (rb_address b) ws (cp_metadata p),
          cp_cached := insert (block_key b) (cp_cached p)\<rparr>) c1 = (p', c', r)"
        using Cons.prems rb False by simp
      from Cons.IH [OF this] show ?thesis by auto
    qed
  qed
qed auto

lemma poll_blocks_error:
  "poll_blocks rd bs t c = (c', Inl e) \<Longrightarrow>
    \<exists>b \<in> set bs. \<not> rb_optional b \<and> (\<exists>c1 c2. read_block rd c1 b = (c2, Inl e))"
proof (induction bs arbitrary: t c)
  case (Cons b bs)
  obtain c1 x where rb: "read_block rd c b = (c1, x)" by fastforce
  show ?case using Cons.prems rb Cons.IH
    by (cases x) (auto split: if_splits)
qed simp

lemma poll_blocks_distinct:
  "poll_blocks rd bs t c = (c', Inr t') \<Longrightarrow> distinct (map fst t) \<Longrightarrow> distinct (map fst t')"
proof (induction bs arbitrary: t c)
  case (Cons b bs)
  obtain c1 x where rb: "read_block rd c b = (c1, x)" by fastforce
  show ?case using Cons.prems rb
    by (cases x) (auto split: if_splits dest: Cons.IH simp: distinct_store_words)
qed simp

lemma ungated_blocks:
  "spec_ok spec \<Longrightarrow> effective_items block_gate (sp_blocks spec) fw = Inr (sp_blocks spec)"
  by (rule effective_items_ungated) (use spec_okD(3) in blast)

text \<open>The ways a poll of a well-formed profile can go.\<close>

lemma poll_cases:
  assumes "spec_ok (cp_spec p)" "poll rd p c fw = (p', c', r)"
  shows "(\<exists>e. r = Inl e \<and> (\<exists>b \<in> set (sp_blocks (cp_spec p)). \<not> rb_optional b \<and>
             (\<exists>c1 c2. read_block rd c1 b = (c2, Inl e)))) \<or>
    (\<exists>c1 t vs. load_metadata rd p c = (p', c1, Inr ()) \<and> cp_spec p' = cp_spec p \<and>
       poll_blocks rd (sp_blocks (cp_spec p)) (cp_metadata p') c1 = (c', Inr t) \<and>
       poll_values (cp_spec p) t fw = Inr vs \<and> r = Inr vs)"
proof -
  obtain p1 c1 l where l: "load_metadata rd p c = (p1, c1, l)" by (cases "load_metadata rd p c") auto
  note m = load_blocks_mono [OF l [unfolded load_metadata_def]]
  show ?thesis
  proof (cases l)
    case (Inl e)
    then show ?thesis using assms l m by (auto simp: poll_def)
  next
    case (Inr u)
    have g: "effective_items block_gate (sp_blocks (cp_spec p1)) fw = Inr (sp_blocks (cp_spec p))"
      using ungated_blocks [OF assms(1)] m by simp
    obtain c2 q where q: "poll_blocks rd (sp_blocks (cp_spec p)) (cp_metadata p1) c1 = (c2, q)" by fastforce
    show ?thesis
    proof (cases q)
      case (Inl e)
      then have "r = Inl e" using assms(2) l Inr g q by (simp add: poll_def)
      then show ?thesis using poll_blocks_error [OF q [unfolded Inl]] by blast
    next
      case (Inr t)
      obtain vs where "poll_values (cp_spec p) t fw = Inr vs"
        using poll_values_returns [OF assms(1)] unfolding returns_def by blast
      moreover have "p' = p1" "c' = c2" "r = poll_values (cp_spec p1) t fw"
        using assms(2) l \<open>l = Inr u\<close> g q Inr by (auto simp: poll_def)
      ultimately show ?thesis using l \<open>l = Inr u\<close> q Inr m by simp
    qed
  qed
qed

section \<open>The interface of a reader\<close>

definition reads_only :: "modbus_exchange list \<Rightarrow> bool" where
  "reads_only es \<longleftrightarrow> list_all (\<lambda>e. ex_function_code e \<in> {3, 4}) es"

text \<open>
  What a profile relies on: a read that succeeds returns as many words as were asked for, and the
  exchanges a read leaves in the client's log are register reads.
\<close>

locale read_only_reader =
  fixes rd :: "'c reader"
    and wire :: "'c \<Rightarrow> modbus_exchange list"
  assumes read_length: "read_words rd fn c a n = (c', Inr ws) \<Longrightarrow> int (length ws) = n"
    and read_wire: "read_words rd fn c a n = (c', r) \<Longrightarrow> \<exists>es. wire c' = wire c @ es \<and> reads_only es"
begin

definition extends :: "'c \<Rightarrow> 'c \<Rightarrow> bool" where
  "extends c c' \<longleftrightarrow> (\<exists>es. wire c' = wire c @ es \<and> reads_only es)"

lemma extends_refl [simp]: "extends c c"
  by (auto simp: extends_def reads_only_def)

lemma extends_trans: "extends a b \<Longrightarrow> extends b c \<Longrightarrow> extends a c"
  by (fastforce simp: extends_def reads_only_def)

lemma block_extends: "read_block rd c b = (c', r) \<Longrightarrow> extends c c'"
  unfolding read_block_def extends_def by (rule read_wire)

lemma load_blocks_extends: "load_blocks rd bs p c = (p', c', r) \<Longrightarrow> extends c c'"
proof (induction bs arbitrary: p c)
  case (Cons b bs)
  obtain c1 x where rb: "read_block rd c b = (c1, x)" by fastforce
  show ?case using Cons.prems rb block_extends [OF rb]
    by (cases x) (auto split: if_splits dest!: Cons.IH intro: extends_trans)
qed simp

lemma poll_blocks_extends: "poll_blocks rd bs t c = (c', r) \<Longrightarrow> extends c c'"
proof (induction bs arbitrary: t c)
  case (Cons b bs)
  obtain c1 x where rb: "read_block rd c b = (c1, x)" by fastforce
  show ?case using Cons.prems rb block_extends [OF rb]
    by (cases x) (auto split: if_splits dest!: Cons.IH intro: extends_trans)
qed simp

lemma load_registers_extends: "load_registers rd rs p c = (p', c') \<Longrightarrow> extends c c'"
proof (induction rs arbitrary: p c)
  case (Cons r rs)
  obtain c1 x where rb: "read_words rd (rs_function r) c (rs_address r) (rs_words r) = (c1, x)" by fastforce
  have "extends c c1" using read_wire [OF rb] by (simp add: extends_def)
  then show ?case using Cons.prems rb
    by (cases x) (auto split: if_splits dest!: Cons.IH intro: extends_trans)
qed simp

lemma run_probes_extends: "run_probes rd ps s c = (c', spec) \<Longrightarrow> extends c c'"
proof (induction ps arbitrary: c)
  case (Cons pr ps)
  obtain a n m sp where pr: "pr = (a, n, m, sp)" by (cases pr) auto
  obtain c1 x where rb: "rd_holding rd c a n = (c1, x)" by fastforce
  have "extends c c1" using read_wire [of Holding c a n c1 x] rb by (simp add: extends_def read_words_def)
  then show ?case using Cons.prems rb pr
    by (cases x) (auto split: if_splits dest!: Cons.IH intro: extends_trans)
qed simp

text \<open>Every operation of the catalog leaves only register reads on the wire.\<close>

lemma poll_extends: "poll rd p c fw = (p', c', r) \<Longrightarrow> extends c c'"
  unfolding poll_def load_metadata_def
  by (fastforce split: prod.splits sum.splits dest: load_blocks_extends poll_blocks_extends intro: extends_trans)

lemma read_metadata_extends: "read_metadata rd p c = (p', c', r) \<Longrightarrow> extends c c'"
  unfolding read_metadata_def load_metadata_def
  by (fastforce split: prod.splits sum.splits dest: load_blocks_extends load_registers_extends
      intro: extends_trans)

lemma detect_extends: "detect_profile rd c ident = (c', p) \<Longrightarrow> extends c c'"
  unfolding detect_profile_def
  by (auto simp: Let_def split: if_splits prod.splits dest: run_probes_extends)

text \<open>What the law on lengths adds: cached and polled blocks leave all their words in the table.\<close>

lemma block_length: "read_block rd c b = (c', Inr ws) \<Longrightarrow> int (length ws) = rb_count b"
  unfolding read_block_def by (rule read_length)

lemma load_blocks_profile_ok:
  "load_blocks rd bs p c = (p', c', r) \<Longrightarrow> profile_ok p \<Longrightarrow> profile_ok p'"
proof (induction bs arbitrary: p c)
  case (Cons b bs)
  obtain c1 x where rb: "read_block rd c b = (c1, x)" by fastforce
  show ?case
  proof (cases x)
    case (Inl e)
    then show ?thesis using Cons.prems rb by (auto split: if_splits dest: Cons.IH)
  next
    case (Inr ws)
    let ?q = "p\<lparr>cp_metadata := store_words (rb_function b) (rb_address b) ws (cp_metadata p),
      cp_cached := insert (block_key b) (cp_cached p)\<rparr>"
    have new: "covered (cp_metadata ?q) b" using block_length [OF rb [unfolded Inr]] by (simp add: covered_stored)
    have "covered (cp_metadata ?q) b'" if k: "block_key b' \<in> cp_cached ?q" for b'
    proof (cases "block_key b' = block_key b")
      case True
      from iffD2 [OF covered_key [OF this] new] show ?thesis .
    next
      case False
      then have "covered (cp_metadata p) b'" using k Cons.prems(2) by (simp add: profile_ok_def)
      then show ?thesis by (simp add: covered_store_words)
    qed
    then have "profile_ok ?q"
      using Cons.prems(2) by (simp add: profile_ok_def distinct_store_words)
    then show ?thesis using Cons.prems rb Inr by (auto split: if_splits dest: Cons.IH)
  qed
qed simp

lemma poll_blocks_covered:
  "poll_blocks rd bs t c = (c', Inr t') \<Longrightarrow> (\<forall>b. covered t b \<longrightarrow> covered t' b) \<and>
    (\<forall>b \<in> set bs. \<not> rb_cache b \<and> \<not> rb_optional b \<longrightarrow> covered t' b)"
proof (induction bs arbitrary: t c)
  case (Cons b bs)
  obtain c1 x where rb: "read_block rd c b = (c1, x)" by fastforce
  show ?case
  proof (cases x)
    case (Inl e)
    then show ?thesis using Cons.prems rb by (auto split: if_splits dest: Cons.IH)
  next
    case (Inr ws)
    let ?t = "store_words (rb_function b) (rb_address b) ws t"
    show ?thesis
    proof (cases "rb_cache b")
      case True
      then have "poll_blocks rd bs t c = (c', Inr t')" using Cons.prems by simp
      from Cons.IH [OF this] True show ?thesis by auto
    next
      case False
      then have "poll_blocks rd bs ?t c1 = (c', Inr t')" using Cons.prems rb Inr by simp
      from Cons.IH [OF this] covered_stored [OF block_length [OF rb [unfolded Inr]]] covered_store_words
      show ?thesis by auto
    qed
  qed
qed simp

lemma poll_table:
  assumes "spec_ok (cp_spec p)" "profile_ok p" "poll rd p c fw = (p', c', Inr vs)"
  shows "profile_ok p' \<and> cp_spec p' = cp_spec p \<and> (\<exists>t. poll_values (cp_spec p) t fw = Inr vs \<and>
    distinct (map fst t) \<and> (\<forall>b \<in> set (sp_blocks (cp_spec p)). \<not> rb_optional b \<longrightarrow> covered t b))"
proof -
  obtain c1 t where t: "load_metadata rd p c = (p', c1, Inr ())" "cp_spec p' = cp_spec p"
    "poll_blocks rd (sp_blocks (cp_spec p)) (cp_metadata p') c1 = (c', Inr t)"
    "poll_values (cp_spec p) t fw = Inr vs"
    using poll_cases [OF assms(1,3)] by auto
  note l = t(1) [unfolded load_metadata_def]
  have ok: "profile_ok p'" by (rule load_blocks_profile_ok [OF l assms(2)])
  then have "distinct (map fst t)" using poll_blocks_distinct [OF t(3)] by (simp add: profile_ok_def)
  moreover have "covered t b" if "b \<in> set (sp_blocks (cp_spec p))" "\<not> rb_optional b" for b
    using that poll_blocks_covered [OF t(3)] load_blocks_mono [OF l] ok
    by (cases "rb_cache b") (auto simp: profile_ok_def)
  ultimately show ?thesis using ok t(2,4) by blast
qed

lemma poll_complete:
  assumes "spec_ok (cp_spec p)" "profile_ok p" "poll rd p c fw = (p', c', Inr vs)"
    and r: "r \<in> set (sp_registers (cp_spec p))"
    and b: "b \<in> set (sp_blocks (cp_spec p))" "\<not> rb_optional b" "block_covers r b"
  shows "\<exists>v \<in> set vs. rv_name v = rs_name r \<and> rv_function v = rs_function r \<and>
    int (length (rv_raw v)) = rs_words r"
proof -
  obtain t where t: "poll_values (cp_spec p) t fw = Inr vs" "covered t b"
    using poll_table [OF assms(1-3)] b by blast
  obtain vss where vss: "rmap (decode_one t None) (sp_registers (cp_spec p)) = Inr vss"
    "decode_named (cp_spec p) t None fw = Inr (concat vss)"
    using decode_named_Inr [OF assms(1)] by blast
  obtain ws where ws: "ws \<in> set vss" "decode_one t None r = Inr ws" using rmap_Inr_mem [OF vss(1) r] by blast
  have w: "1 \<le> rs_words r" using spec_okD(1) [OF assms(1) r] by (simp add: register_ok_def)
  have def: "map_of t (rs_function r, x) \<noteq> None"
    if "rs_address r \<le> x" "x < rs_address r + rs_words r" for x
    using t(2) b(3) that by (auto simp: covered_def block_covers_def)
  obtain v where "v \<in> set ws" "rv_name v = rs_name r" "rv_function v = rs_function r"
    "rv_raw v = map (\<lambda>x. the (map_of t (rs_function r, x))) (addresses r)"
    using decode_one_value [OF ws(2) def] w by fastforce
  moreover have "v \<in> set vs"
    using calculation(1) ws(1) t(1) by (auto simp: poll_values_def vss(2) rbind_eq_Inr)
  ultimately show ?thesis using w by (auto simp: addresses_def)
qed

end

end
