(* ===== verification/Catalog_Checked.thy ===== *)
theory Catalog_Checked
  imports Profile_Facts
begin

text \<open>
  The catalog itself: each of the profiles is evaluated against \<open>spec_ok\<close>, and each alias against
  the selection.  What holds of a well-formed profile holds of the catalog from here on.
\<close>

lemma spec_ok_genstar: "spec_ok GENSTAR_MPPT" by code_simp
lemma spec_ok_readyedge: "spec_ok READYEDGE" by code_simp
lemma spec_ok_suresine_gen2: "spec_ok SURESINE_GEN2" by code_simp
lemma spec_ok_tristar_600v: "spec_ok TRISTAR_MPPT_600V" by code_simp
lemma spec_ok_tristar_mppt: "spec_ok TRISTAR_MPPT" by code_simp
lemma spec_ok_tristar_pwm: "spec_ok TRISTAR_PWM" by code_simp
lemma spec_ok_prostar_mppt: "spec_ok PROSTAR_MPPT" by code_simp
lemma spec_ok_prostar_pwm: "spec_ok PROSTAR_PWM" by code_simp
lemma spec_ok_sunsaver_mppt: "spec_ok SUNSAVER_MPPT" by code_simp
lemma spec_ok_sunsaver_duo: "spec_ok SUNSAVER_DUO" by code_simp
lemma spec_ok_suresine_classic: "spec_ok SURESINE_CLASSIC" by code_simp
lemma spec_ok_relay_driver: "spec_ok RELAY_DRIVER" by code_simp
lemma spec_ok_generic: "spec_ok GENERIC" by code_simp

lemmas spec_ok_each =
  spec_ok_genstar spec_ok_readyedge spec_ok_suresine_gen2 spec_ok_tristar_600v spec_ok_tristar_mppt
  spec_ok_tristar_pwm spec_ok_prostar_mppt spec_ok_prostar_pwm spec_ok_sunsaver_mppt
  spec_ok_sunsaver_duo spec_ok_suresine_classic spec_ok_relay_driver spec_ok_generic

lemma set_PROFILES: "set PROFILES = {GENSTAR_MPPT, READYEDGE, SURESINE_GEN2, TRISTAR_MPPT_600V,
    TRISTAR_MPPT, TRISTAR_PWM, PROSTAR_MPPT, PROSTAR_PWM, SUNSAVER_MPPT, SUNSAVER_DUO,
    SURESINE_CLASSIC, RELAY_DRIVER}"
  unfolding PROFILES_def set_sort by (simp only: list.set)

lemma spec_ok_PROFILES: "spec \<in> set (PROFILES @ [GENERIC]) \<Longrightarrow> spec_ok spec"
  unfolding set_append set_PROFILES list.set
  by (elim UnE insertE emptyE) (simp_all only: spec_ok_each)

lemma PROFILE_BY_NAME_mem: "PROFILE_BY_NAME name = Some spec \<Longrightarrow> spec \<in> set (PROFILES @ [GENERIC])"
  unfolding PROFILE_BY_NAME_def by (drule map_of_SomeD) auto

end
