(* ===== verification/Catalog_Selection.thy ===== *)
theory Catalog_Selection
  imports Catalog_Checked
begin

text \<open>
  Which profile the registry selects.  The selection looks only at names and aliases, so it is
  evaluated on the table of these.
\<close>

fun first_name :: "string \<Rightarrow> string \<Rightarrow> (string \<times> string list) list \<Rightarrow> string" where
  "first_name identity product [] = ''generic''"
| "first_name identity product ((name, aliases) # rest) =
    (if list_ex (alias_matches identity product) aliases then name else first_name identity product rest)"

definition names_and_aliases :: "device_profile_spec \<Rightarrow> string \<times> string list" where
  "names_and_aliases spec = (sp_name spec, sp_aliases spec)"

lemma name_GENERIC: "sp_name GENERIC = ''generic''"
  by (simp add: GENERIC_def DeviceProfileSpec_def)

lemma first_match_name: "sp_name (first_match i p specs) = first_name i p (map names_and_aliases specs)"
  by (induction specs)
    (auto simp: name_GENERIC names_and_aliases_def aliases_longest_first_def list_ex_iff)

lemmas profile_defs = GENSTAR_MPPT_def BASE_GENSTAR_MPPT_def READYEDGE_def SURESINE_GEN2_def
  TRISTAR_MPPT_600V_def TRISTAR_MPPT_def TRISTAR_PWM_def PROSTAR_MPPT_def PROSTAR_PWM_def
  SUNSAVER_MPPT_def SUNSAVER_DUO_def SURESINE_CLASSIC_def RELAY_DRIVER_def DeviceProfileSpec_def

lemma priorities:
  "sp_detection_priority GENSTAR_MPPT = 1" "sp_detection_priority READYEDGE = 2"
  "sp_detection_priority SURESINE_GEN2 = 5" "sp_detection_priority TRISTAR_MPPT_600V = 10"
  "sp_detection_priority TRISTAR_MPPT = 20" "sp_detection_priority TRISTAR_PWM = 30"
  "sp_detection_priority PROSTAR_MPPT = 40" "sp_detection_priority PROSTAR_PWM = 50"
  "sp_detection_priority SUNSAVER_MPPT = 60" "sp_detection_priority SUNSAVER_DUO = 70"
  "sp_detection_priority SURESINE_CLASSIC = 80" "sp_detection_priority RELAY_DRIVER = 90"
  by (simp_all add: profile_defs)

text \<open>The source lists the profiles in the order of their priorities already.\<close>

lemma PROFILES_order: "PROFILES = [GENSTAR_MPPT, READYEDGE, SURESINE_GEN2, TRISTAR_MPPT_600V,
    TRISTAR_MPPT, TRISTAR_PWM, PROSTAR_MPPT, PROSTAR_PWM, SUNSAVER_MPPT, SUNSAVER_DUO,
    SURESINE_CLASSIC, RELAY_DRIVER]"
  by (simp add: PROFILES_def priorities)

definition selection_table :: "(string \<times> string list) list" where
  "selection_table = [
     (''genstar_mppt'', [''genstar mppt'', ''gs-mppt'', ''gsmppt'']),
     (''readyedge'', [''readyedge'', ''ready edge'', ''re-1'']),
     (''suresine_gen2'', [''suresine gen2'', ''suresine 2'', ''suresine2'', ''suresine-2'']),
     (''tristar_mppt_600v'', [''tristar mppt 600v'', ''ts-mppt-60-600v'', ''tsmppt600v'']),
     (''tristar_mppt'', [''tristar mppt'', ''ts-mppt-45'', ''ts-mppt-60'', ''tsmppt'']),
     (''tristar_pwm'', [''tristar pwm'', ''tristar-45'', ''tristar-60'', ''ts-45'', ''ts-60'', ''tristar'']),
     (''prostar_mppt'', [''prostar mppt'', ''ps-mppt'', ''psmppt'']),
     (''prostar_pwm'', [''prostar pwm'', ''ps-pwm'', ''prostar gen3'', ''prostar'']),
     (''sunsaver_mppt'', [''sunsaver mppt'', ''ss-mppt'', ''ssmppt'']),
     (''sunsaver_duo'', [''sunsaver duo'', ''ssd'', ''sunsaverduo'']),
     (''suresine_classic'', [''suresine300'', ''suresine 300'', ''suresine classic'']),
     (''relay_driver'', [''relay driver'', ''relaydriver'', ''rd-1''])]"

lemma selection_table: "map names_and_aliases PROFILES = selection_table"
  by (simp add: PROFILES_order names_and_aliases_def selection_table_def profile_defs)

lemma select_spec_name:
  "sp_name (select_spec v p) = (if is_explicit_non_morningstar_vendor v then ''generic''
     else first_name (normalize_identity (v @ '' '' @ p)) (normalize_identity p) selection_table)"
  by (simp add: select_spec_def first_match_name selection_table name_GENERIC)

section \<open>What the selection returns\<close>

lemma GENERIC_not_PROFILES: "GENERIC \<notin> set PROFILES"
proof
  assume "GENERIC \<in> set PROFILES"
  then have "''generic'' \<in> fst ` set selection_table"
    using name_GENERIC unfolding selection_table [symmetric] by (force simp: names_and_aliases_def)
  then show False by (simp add: selection_table_def)
qed

lemma first_match_cases:
  "first_match i p specs = GENERIC \<and> (\<forall>s \<in> set specs. s \<noteq> GENERIC \<longrightarrow> (\<forall>a \<in> set (sp_aliases s). \<not> alias_matches i p a)) \<or>
   (\<exists>pre post. specs = pre @ first_match i p specs # post \<and>
      (\<exists>a \<in> set (sp_aliases (first_match i p specs)). alias_matches i p a) \<and>
      (\<forall>s \<in> set pre. \<forall>a \<in> set (sp_aliases s). \<not> alias_matches i p a))"
proof (induction specs)
  case (Cons s ss)
  show ?case
  proof (cases "list_ex (alias_matches i p) (aliases_longest_first s)")
    case True
    then have "\<exists>a \<in> set (sp_aliases s). alias_matches i p a"
      by (auto simp: aliases_longest_first_def list_ex_iff)
    then show ?thesis using True by (intro disjI2 exI [of _ "[]"] exI [of _ ss]) simp
  next
    case False
    then have n: "\<forall>a \<in> set (sp_aliases s). \<not> alias_matches i p a"
      by (auto simp: aliases_longest_first_def list_ex_iff)
    from Cons.IH show ?thesis
    proof (elim disjE exE conjE)
      fix pre post
      assume "ss = pre @ first_match i p ss # post" "\<exists>a \<in> set (sp_aliases (first_match i p ss)). alias_matches i p a"
        "\<forall>s \<in> set pre. \<forall>a \<in> set (sp_aliases s). \<not> alias_matches i p a"
      then show ?thesis using False n by (intro disjI2 exI [of _ "s # pre"] exI [of _ post]) simp
    qed (use False n in simp)
  qed
qed simp

lemma to_lower_idem: "to_lower (to_lower c) = to_lower c"
  by (cases c) (simp add: to_lower_code is_upper_code, blast)

lemma to_lower_223: "to_lower c = chr 223 \<longleftrightarrow> c = chr 223"
  by (cases c) (auto simp: to_lower_code is_upper_code chr_def char_of_def bit_numeral_rec)

lemma casefold_lower: "casefold (str_lower s) = casefold s"
  unfolding casefold_def str_lower_def map_map
  by (intro arg_cong [where f = concat] map_cong refl) (simp add: to_lower_223 to_lower_idem)

lemma normalize_lower: "normalize_identity (str_lower s) = normalize_identity s"
  by (simp add: normalize_identity_def casefold_lower)

lemma select_lower: "select_spec (str_lower v) (str_lower p) = select_spec v p"
proof -
  have "str_lower v @ '' '' @ str_lower p = str_lower (v @ '' '' @ p)"
    by (simp add: str_lower_def to_lower_code is_upper_code)
  then show ?thesis
    unfolding select_spec_def is_explicit_non_morningstar_vendor_def by (simp only: normalize_lower)
qed

text \<open>The selection is conservative and ordered: a vendor that is not Morningstar is never given a
  profile; a profile is given only when one of its aliases is in the reported identity and no
  alias of a profile of higher priority is; without a match the generic profile is used; and the
  spelling of upper and lower case does not matter.\<close>

theorem select_spec_first_match:
  fixes v p
  defines "ident \<equiv> normalize_identity (v @ '' '' @ p)" and "product \<equiv> normalize_identity p"
  shows "(is_explicit_non_morningstar_vendor v \<longrightarrow> select_spec v p = GENERIC) \<and>
    (select_spec v p \<noteq> GENERIC \<longrightarrow> (\<exists>pre post. PROFILES = pre @ select_spec v p # post \<and>
       (\<exists>a \<in> set (sp_aliases (select_spec v p)). alias_matches ident product a) \<and>
       (\<forall>s \<in> set pre. \<forall>a \<in> set (sp_aliases s). \<not> alias_matches ident product a))) \<and>
    (select_spec v p = GENERIC \<and> \<not> is_explicit_non_morningstar_vendor v \<longrightarrow>
       (\<forall>s \<in> set PROFILES. \<forall>a \<in> set (sp_aliases s). \<not> alias_matches ident product a)) \<and>
    select_spec (str_lower v) (str_lower p) = select_spec v p"
proof (cases "is_explicit_non_morningstar_vendor v")
  case True
  then show ?thesis using select_lower [of v p] by (simp add: select_spec_def)
next
  case False
  then have e: "select_spec v p = first_match ident product PROFILES"
    by (simp add: select_spec_def ident_def product_def)
  from first_match_cases [of ident product PROFILES]
  have "(select_spec v p = GENERIC \<and> (\<forall>s \<in> set PROFILES. \<forall>a \<in> set (sp_aliases s). \<not> alias_matches ident product a)) \<or>
    (select_spec v p \<noteq> GENERIC \<and> (\<exists>pre post. PROFILES = pre @ select_spec v p # post \<and>
      (\<exists>a \<in> set (sp_aliases (select_spec v p)). alias_matches ident product a) \<and>
      (\<forall>s \<in> set pre. \<forall>a \<in> set (sp_aliases s). \<not> alias_matches ident product a)))"
    unfolding e [symmetric] using GENERIC_not_PROFILES by (metis in_set_conv_decomp)
  then show ?thesis using False select_lower [of v p] by blast
qed

theorem select_spec_first_match_witness:
  "\<exists>pre post. PROFILES = pre @ select_spec '''' ''GSMPPT'' # post \<and>
     (\<forall>s \<in> set pre. \<forall>a \<in> set (sp_aliases s).
        \<not> alias_matches (normalize_identity ('''' @ '' '' @ ''GSMPPT'')) (normalize_identity ''GSMPPT'') a)"
proof -
  have v: "is_explicit_non_morningstar_vendor '''' = False" by code_simp
  have "alias_matches (normalize_identity ('''' @ '' '' @ ''GSMPPT'')) (normalize_identity ''GSMPPT'') ''gsmppt''"
    by code_simp
  then have "first_name (normalize_identity ('''' @ '' '' @ ''GSMPPT'')) (normalize_identity ''GSMPPT'')
      selection_table = ''genstar_mppt''"
    unfolding selection_table_def first_name.simps by (simp add: list_ex_iff)
  then have "sp_name (select_spec '''' ''GSMPPT'') = ''genstar_mppt''"
    unfolding select_spec_name v by (simp only: if_False)
  then have "select_spec '''' ''GSMPPT'' \<noteq> GENERIC" using name_GENERIC by auto
  then show ?thesis using select_spec_first_match [of "''''" "''GSMPPT''"] by blast
qed

end
