(* ===== verification/Modbus_Crc.thy ===== *)
theory Modbus_Crc
  imports Py_Text
begin

text \<open>
  The Modbus RTU checksum of \<open>protocol/codec.py\<close>: \<open>crc16\<close>, \<open>append_crc\<close> and \<open>valid_crc\<close>.

  \<open>crc16\<close> is the source's loop on Python integers.  \<open>crcw\<close> is the same loop on 16-bit words,
  on which the algebra of the code is easy to state: one bit step is linear over exclusive or
  and a bijection, so one frame byte, and even two neighbouring ones, can never change without
  changing the checksum.  As a polynomial a frame that ends in its checksum is a multiple of the generator, which is what
  \<open>poly_rem\<close> and \<open>divides_frame\<close> say without the loop.
\<close>

unbundle bit_operations_syntax

section \<open>The source's loop\<close>

definition crc_bit :: "int \<Rightarrow> int" where
  "crc_bit crc = (if crc AND 1 \<noteq> 0 then drop_bit 1 crc XOR 0xA001 else drop_bit 1 crc)"

definition crc_byte :: "int \<Rightarrow> byte \<Rightarrow> int" where
  "crc_byte crc b = (crc_bit ^^ 8) (crc XOR uint b)"

definition crc16 :: "bytes \<Rightarrow> int" where
  "crc16 payload = foldl crc_byte 0xFFFF payload AND 0xFFFF"

definition append_crc :: "bytes \<Rightarrow> bytes" where
  "append_crc payload = payload @ le16 (word_of_int (crc16 payload))"

definition valid_crc :: "bytes \<Rightarrow> bool" where
  "valid_crc frame = (let n = length frame in
     3 \<le> n \<and> crc16 (take (n - 2) frame) = uint (mk16 (frame ! (n - 1)) (frame ! (n - 2))))"

section \<open>The loop on 16-bit words\<close>

definition crcw_bit :: "u16 \<Rightarrow> u16" where
  "crcw_bit w = (if bit w 0 then drop_bit 1 w XOR 0xA001 else drop_bit 1 w)"

definition crcw_byte :: "u16 \<Rightarrow> byte \<Rightarrow> u16" where
  "crcw_byte w b = (crcw_bit ^^ 8) (w XOR ucast b)"

definition crcw :: "bytes \<Rightarrow> u16" where
  "crcw = foldl crcw_byte 0xFFFF"

lemma crc_bit_uint: "crc_bit (uint w) = uint (crcw_bit w)"
proof -
  have "(uint w AND 1 \<noteq> 0) = bit w 0"
    using bit_uint_iff [of w 0] by (simp add: and_one_eq bit_0 odd_iff_mod_2_eq_one [symmetric])
  moreover have "uint (drop_bit 1 w) = drop_bit 1 (uint w)"
    by (rule bit_eqI) (auto simp: bit_simps)
  ultimately show ?thesis
    by (simp add: crc_bit_def crcw_bit_def unsigned_xor_eq)
qed

lemma crc_bit_funpow: "(crc_bit ^^ n) (uint w) = uint ((crcw_bit ^^ n) w)"
  by (induction n) (simp_all add: crc_bit_uint)

lemma crc_byte_uint: "crc_byte (uint w) b = uint (crcw_byte w b)"
proof -
  have "uint w XOR uint b = uint (w XOR ucast b)"
    by (rule bit_eqI) (auto simp: bit_simps dest: bit_imp_le_length)
  then show ?thesis by (simp only: crc_byte_def crcw_byte_def crc_bit_funpow)
qed

lemma foldl_crc_uint: "foldl crc_byte (uint w) bs = uint (foldl crcw_byte w bs)"
  by (induction bs arbitrary: w) (simp_all add: crc_byte_uint)

lemma crc16_crcw: "crc16 bs = uint (crcw bs)"
proof -
  have "foldl crc_byte 0xFFFF bs = uint (crcw bs)"
    using foldl_crc_uint [of "0xFFFF" bs] by (simp add: crcw_def)
  moreover have "uint (crcw bs) AND 0xFFFF = uint (crcw bs)"
  proof -
    have "(0xFFFF :: int) = mask 16" by (simp add: mask_eq_exp_minus_1)
    moreover have "uint (crcw bs) AND mask 16 = uint (crcw bs)"
      by (rule bit_eqI) (auto simp: bit_simps dest: bit_imp_le_length)
    ultimately show ?thesis by simp
  qed
  ultimately show ?thesis by (simp add: crc16_def)
qed

section \<open>Algebra of the bit step\<close>

lemma crcw_bit_xor: "crcw_bit (a XOR b) = crcw_bit a XOR crcw_bit b"
  unfolding crcw_bit_def
  by (rule bit_eqI) (auto simp: bit_simps)

lemma crcw_funpow_xor: "(crcw_bit ^^ n) (a XOR b) = (crcw_bit ^^ n) a XOR (crcw_bit ^^ n) b"
  by (induction n) (simp_all add: crcw_bit_xor)

lemma crcw_bit_0_iff: "crcw_bit w = 0 \<longleftrightarrow> w = 0"
proof
  assume z: "crcw_bit w = 0"
  then have "\<not> bit (crcw_bit w) 15" by simp
  then have b0: "\<not> bit w 0"
    by (auto simp: crcw_bit_def bit_simps dest: bit_imp_le_length split: if_splits)
  with z have d: "drop_bit 1 w = 0" by (simp add: crcw_bit_def)
  show "w = 0"
  proof (rule bit_eqI)
    fix n
    show "bit w n = bit 0 n"
    proof (cases n)
      case 0
      with b0 show ?thesis by simp
    next
      case (Suc m)
      have "bit w (Suc m) = bit (drop_bit 1 w) m" by (simp add: bit_simps)
      with d Suc show ?thesis by simp
    qed
  qed
qed (simp add: crcw_bit_def)

lemma crcw_funpow_0_iff: "(crcw_bit ^^ n) w = 0 \<longleftrightarrow> w = 0"
  by (induction n) (simp_all add: crcw_bit_0_iff)

lemma xor_eq_0_iff: "a XOR b = 0 \<longleftrightarrow> a = (b :: 'a :: len word)"
  by (metis bit.xor_self xor.assoc xor.right_neutral bit.xor_left_self)

lemma crcw_funpow_inj: "(crcw_bit ^^ n) a = (crcw_bit ^^ n) b \<longleftrightarrow> a = b"
  by (metis crcw_funpow_0_iff crcw_funpow_xor xor_eq_0_iff)

section \<open>What the checksum guarantees\<close>

lemma xor_cancel_left: "a XOR b = a XOR c \<longleftrightarrow> b = (c :: 'a :: len word)"
  by (metis bit.xor_left_self)

lemma xor_cancel_right: "b XOR a = c XOR a \<longleftrightarrow> b = (c :: 'a :: len word)"
  by (simp only: xor.commute [of _ a] xor_cancel_left)

lemma crcw_byte_inj: "crcw_byte s x = crcw_byte t x \<longleftrightarrow> s = t"
  unfolding crcw_byte_def crcw_funpow_inj by (rule xor_cancel_right)

lemma foldl_crcw_inj: "foldl crcw_byte s bs = foldl crcw_byte t bs \<longleftrightarrow> s = t"
  by (induction bs arbitrary: s t) (simp_all add: crcw_byte_inj)

text \<open>A word whose low byte is zero is only shifted by the eight bit steps.\<close>

lemma crcw_shift:
  assumes "\<And>i. i < n \<Longrightarrow> \<not> bit w i"
  shows "(crcw_bit ^^ n) w = drop_bit n w"
  using assms
proof (induction n)
  case (Suc n)
  then have "(crcw_bit ^^ n) w = drop_bit n w" by simp
  then have "(crcw_bit ^^ Suc n) w = crcw_bit (drop_bit n w)" by simp
  also have "\<not> bit (drop_bit n w) 0" using Suc.prems [of n] by (simp add: bit_simps)
  then have "crcw_bit (drop_bit n w) = drop_bit 1 (drop_bit n w)" by (simp add: crcw_bit_def)
  finally show ?case by simp
qed simp

text \<open>Two byte steps are sixteen bit steps on the two bytes read as one little-endian word.\<close>

lemma crcw_byte_byte:
  "crcw_byte (crcw_byte s x) y = (crcw_bit ^^ 16) (s XOR mk16 y x)"
proof -
  have y: "(crcw_bit ^^ 8) (push_bit 8 (ucast y)) = (ucast y :: u16)"
  proof -
    have "(crcw_bit ^^ 8) (push_bit 8 (ucast y)) = drop_bit 8 (push_bit 8 (ucast y) :: u16)"
      by (rule crcw_shift) (simp add: bit_simps)
    also have "\<dots> = ucast y"
      by (rule bit_eqI) (auto simp: bit_simps dest: bit_imp_le_length)
    finally show ?thesis .
  qed
  have m: "mk16 y x = ucast x XOR push_bit 8 (ucast y)"
  proof -
    have "push_bit 8 (uint y) + uint x = push_bit 8 (uint y) OR uint x"
      by (rule disjunctive_add) (auto simp: bit_simps dest: bit_imp_le_length)
    moreover have "uint y * 256 = push_bit 8 (uint y)" by (simp add: push_bit_eq_mult)
    ultimately have "mk16 y x = word_of_int (push_bit 8 (uint y) OR uint x)" by (simp only: mk16_def)
    also have "\<dots> = ucast x XOR push_bit 8 (ucast y)"
      by (rule bit_eqI) (auto simp: bit_simps dest: bit_imp_le_length)
    finally show ?thesis .
  qed
  have "crcw_byte (crcw_byte s x) y
      = (crcw_bit ^^ 8) ((crcw_bit ^^ 8) (s XOR ucast x) XOR (crcw_bit ^^ 8) (push_bit 8 (ucast y)))"
    by (simp only: crcw_byte_def y)
  also have "\<dots> = (crcw_bit ^^ (8 + 8)) (s XOR mk16 y x)"
    by (simp only: crcw_funpow_xor [symmetric] m funpow_add comp_apply xor.assoc)
  finally show ?thesis by simp
qed

lemma mk16_inj: "mk16 a b = mk16 c d \<longleftrightarrow> a = c \<and> b = d"
  by (metis hi_mk16 lo_mk16)

lemma crcw_pair_inj:
  "crcw_byte (crcw_byte s x) y = crcw_byte (crcw_byte s x') y' \<longleftrightarrow> x = x' \<and> y = y'"
proof -
  show ?thesis
    unfolding crcw_byte_byte crcw_funpow_inj xor_cancel_left by (auto simp: mk16_inj)
qed

lemma crcw_append: "crcw (xs @ ys) = foldl crcw_byte (crcw xs) ys"
  by (simp add: crcw_def)

text \<open>Any change within two neighbouring payload bytes changes the checksum.\<close>

lemma crcw_burst:
  "crcw (xs @ [a, b] @ ys) = crcw (xs @ [a', b'] @ ys) \<longleftrightarrow> a = a' \<and> b = b'"
  unfolding crcw_append by (simp add: foldl_crcw_inj crcw_pair_inj)

lemma valid_crc_alt:
  "valid_crc frame \<longleftrightarrow> (\<exists>p hi lo. frame = p @ [lo, hi] \<and> p \<noteq> [] \<and> crcw p = mk16 hi lo)"
proof
  assume v: "valid_crc frame"
  then have n: "3 \<le> length frame" by (simp add: valid_crc_def Let_def)
  then obtain q hi where q: "frame = q @ [hi]" by (cases frame rule: rev_cases) auto
  with n obtain p lo where p: "q = p @ [lo]" by (cases q rule: rev_cases) auto
  have f: "frame = p @ [lo, hi]" "p \<noteq> []" using n q p by auto
  then have i: "frame ! (length frame - 1) = hi" "frame ! (length frame - 2) = lo"
    by (simp_all add: nth_append)
  have "crcw (take (length frame - 2) frame) = mk16 hi lo"
    using v unfolding valid_crc_def Let_def i crc16_crcw by (simp only: word_uint_eq_iff)
  with f show "\<exists>p hi lo. frame = p @ [lo, hi] \<and> p \<noteq> [] \<and> crcw p = mk16 hi lo"
    by auto
next
  assume "\<exists>p hi lo. frame = p @ [lo, hi] \<and> p \<noteq> [] \<and> crcw p = mk16 hi lo"
  then obtain p hi lo where f: "frame = p @ [lo, hi]" "p \<noteq> []" "crcw p = mk16 hi lo" by blast
  then have "frame ! (length frame - 1) = hi" "frame ! (length frame - 2) = lo"
    by (simp_all add: nth_append)
  with f show "valid_crc frame"
    by (cases p) (simp_all add: valid_crc_def Let_def crc16_crcw)
qed

text \<open>The residue: running the checksum over a whole frame, checksum included, gives zero.\<close>

lemma crcw_residue: "crcw (p @ [lo, hi]) = 0 \<longleftrightarrow> crcw p = mk16 hi lo"
  unfolding crcw_append by (simp add: crcw_byte_byte crcw_funpow_0_iff xor_eq_0_iff)

lemma valid_crc_residue: "valid_crc frame \<longleftrightarrow> 3 \<le> length frame \<and> crcw frame = 0"
proof
  assume "valid_crc frame"
  then show "3 \<le> length frame \<and> crcw frame = 0"
    by (auto simp: valid_crc_alt crcw_residue Suc_le_eq)
next
  assume a: "3 \<le> length frame \<and> crcw frame = 0"
  then obtain q hi where q: "frame = q @ [hi]" by (cases frame rule: rev_cases) auto
  with a obtain p lo where p: "q = p @ [lo]" by (cases q rule: rev_cases) auto
  with a q show "valid_crc frame"
    unfolding valid_crc_alt using crcw_residue [of p lo hi] by (intro exI [of _ p]) auto
qed

lemma append_crc_valid: "p \<noteq> [] \<Longrightarrow> valid_crc (append_crc p)"
  unfolding valid_crc_alt append_crc_def le16_def
  by (intro exI [of _ p] exI [of _ "ucast (drop_bit 8 (crcw p))"] exI [of _ "ucast (crcw p)"])
    (simp add: crc16_crcw)

section \<open>The checksum as division of polynomials\<close>

text \<open>
  An independent reading of the checksum: the bits of the frame in the order of the wire, least
  significant bit of a byte first, the first sixteen of them inverted, are the coefficients of a
  polynomial over the field of two elements, highest power first.  \<open>poly_rem\<close> is long division
  by \<open>x^16 + x^15 + x^2 + 1\<close>: while the dividend has more than sixteen coefficients, a leading one
  subtracts the generator and a leading zero is dropped.
\<close>

definition generator :: "bool list" where
  "generator = [True, False, False, False, False, False, False, False,
     False, False, False, False, False, True, False, True]"

fun xor_front :: "bool list \<Rightarrow> bool list \<Rightarrow> bool list" where
  "xor_front (g # gs) (b # bs) = (g \<noteq> b) # xor_front gs bs"
| "xor_front gs bs = bs"

lemma length_xor_front [simp]: "length (xor_front gs bs) = length bs"
  by (induction gs bs rule: xor_front.induct) simp_all

function poly_rem :: "bool list \<Rightarrow> bool list" where
  "poly_rem [] = []"
| "poly_rem (b # bs) =
    (if length bs < 16 then b # bs else poly_rem (if b then xor_front generator bs else bs))"
  by pat_completeness auto

termination by (relation "measure length") auto

declare poly_rem.simps(2) [simp del]

definition wire_bits :: "bytes \<Rightarrow> bool list" where
  "wire_bits bs = concat (map (\<lambda>b. map (bit b) [0..<8]) bs)"

definition divides_frame :: "bytes \<Rightarrow> bool" where
  "divides_frame f =
    (poly_rem (map Not (take 16 (wire_bits f)) @ drop 16 (wire_bits f)) = replicate 16 False)"

definition word_bits :: "u16 \<Rightarrow> bool list" where
  "word_bits w = map (bit w) [0..<16]"

lemma upt_16: "[0..<16] = [0, 1, 2, 3, 4, 5, 6, 7, 8, 9, 10, 11, 12, 13, 14, 15 :: nat]"
  by code_simp

lemma word_bits_inj: "word_bits v = word_bits w \<longleftrightarrow> v = w"
proof
  assume e: "word_bits v = word_bits w"
  show "v = w"
  proof (rule bit_word_eqI)
    fix n :: nat assume "n < LENGTH(16)"
    then show "bit v n = bit w n"
      using arg_cong [OF e, of "\<lambda>xs. xs ! n"] by (simp add: word_bits_def)
  qed
qed simp

lemma word_bits_zero: "word_bits w = replicate 16 False \<longleftrightarrow> w = 0"
proof -
  have "word_bits 0 = replicate 16 False" by code_simp
  then show ?thesis using word_bits_inj [of w 0] by simp
qed

text \<open>One step of the division on the register that holds the front of the dividend.\<close>

definition next_bit :: "u16 \<Rightarrow> bool \<Rightarrow> u16" where
  "next_bit w m = crcw_bit w XOR (if m then 0x8000 else 0)"

lemma bits_constant:
  fixes w :: u16
  assumes "\<forall>n \<in> set [0..<16]. bit w n = P n" and "\<And>n. P n \<Longrightarrow> n < 16"
  shows "bit w n = P n"
proof (cases "n < 16")
  case True
  then show ?thesis using assms(1) by simp
next
  case False
  then show ?thesis using assms(2) [of n] bit_imp_le_length [of w n] by auto
qed

lemma bits_A001: "bit (0xA001 :: u16) n \<longleftrightarrow> n = 0 \<or> n = 13 \<or> n = 15"
  by (rule bits_constant [where P = "\<lambda>n. n = 0 \<or> n = 13 \<or> n = 15"]) (code_simp, auto)

lemma bits_8000: "bit (0x8000 :: u16) n \<longleftrightarrow> n = 15"
  by (rule bits_constant [where P = "\<lambda>n. n = 15"]) (code_simp, auto)

lemma bit_crcw_bit:
  "bit (crcw_bit w) n \<longleftrightarrow> bit w (Suc n) \<noteq> (bit w 0 \<and> (n = 0 \<or> n = 13 \<or> n = 15))"
  by (cases "bit w 0")
    (simp_all only: crcw_bit_def if_True if_False bit_xor_iff bit_drop_bit_eq comp_apply bits_A001
      plus_1_eq_Suc simp_thms)

lemma bit_next_bit:
  assumes "n < 16"
  shows "bit (next_bit w m) n \<longleftrightarrow>
    (if n = 15 then m else bit w (Suc n)) \<noteq> (bit w 0 \<and> (n = 0 \<or> n = 13 \<or> n = 15))"
proof -
  have "\<not> bit w 16" using bit_imp_le_length [of w 16] by auto
  then show ?thesis
    using assms by (cases m; cases "n = 15")
      (simp_all only: next_bit_def bit_xor_iff bit_crcw_bit bits_8000 if_True if_False bit_0_eq
        bot_apply simp_thms, simp_all)
qed

lemma poly_rem_long:
  "16 \<le> length bs \<Longrightarrow> poly_rem (b # bs) = poly_rem (if b then xor_front generator bs else bs)"
  by (subst poly_rem.simps(2)) simp

lemma poly_rem_short: "length bs < 16 \<Longrightarrow> poly_rem (b # bs) = b # bs"
  by (subst poly_rem.simps(2)) simp

lemma poly_rem_step: "poly_rem (word_bits w @ m # ms) = poly_rem (word_bits (next_bit w m) @ ms)"
proof -
  have w: "word_bits w = bit w 0 # map (bit w) [1, 2, 3, 4, 5, 6, 7, 8, 9, 10, 11, 12, 13, 14, 15]"
    by (simp add: word_bits_def upt_16)
  show ?thesis unfolding w append.simps
    by (subst poly_rem_long) (simp_all add: word_bits_def upt_16 bit_next_bit generator_def
        numeral_2_eq_2 [symmetric])
qed

lemma poly_rem_register: "poly_rem (word_bits w @ ms) = word_bits (foldl next_bit w ms)"
proof (induction ms arbitrary: w)
  case Nil
  then show ?case by (simp add: word_bits_def upt_16 poly_rem_short)
next
  case (Cons m ms)
  then show ?case by (simp only: poly_rem_step foldl_Cons)
qed

text \<open>The register of the code runs sixteen steps ahead of that of the division.\<close>

definition feed_bit :: "u16 \<Rightarrow> bool \<Rightarrow> u16" where
  "feed_bit w m = crcw_bit (w XOR of_bool m)"

lemma funpow_next_bit: "(crcw_bit ^^ 16) (next_bit w m) = feed_bit ((crcw_bit ^^ 16) w) m"
proof -
  have s: "(crcw_bit ^^ 15) 0x8000 = 1"
  proof -
    have "(crcw_bit ^^ 15) (0x8000 :: u16) = drop_bit 15 0x8000"
      by (rule crcw_shift) (simp only: bits_8000 nat_neq_iff simp_thms)
    also have "\<dots> = 1" by code_simp
    finally show ?thesis .
  qed
  have z: "(crcw_bit ^^ n) 0 = 0" for n by (simp add: crcw_funpow_0_iff)
  have "(crcw_bit ^^ 16) (if m then 0x8000 else 0) = crcw_bit (of_bool m)"
  proof (cases m)
    case True
    have "(crcw_bit ^^ Suc 15) 0x8000 = crcw_bit 1" by (simp only: funpow.simps comp_apply s)
    with True show ?thesis by simp
  next
    case False
    then show ?thesis using z [of 16] z [of 1] by simp
  qed
  moreover have "(crcw_bit ^^ 16) (crcw_bit w) = crcw_bit ((crcw_bit ^^ 16) w)"
    by (simp only: funpow_swap1)
  ultimately show ?thesis by (simp only: next_bit_def feed_bit_def crcw_funpow_xor crcw_bit_xor)
qed

lemma funpow_foldl_next:
  "(crcw_bit ^^ 16) (foldl next_bit w ms) = foldl feed_bit ((crcw_bit ^^ 16) w) ms"
  by (induction ms arbitrary: w) (simp_all add: funpow_next_bit del: funpow.simps)

lemma feed_bits:
  assumes "n \<le> 16"
  shows "foldl feed_bit s (map (bit (v :: u16)) [0..<n]) = (crcw_bit ^^ n) (s XOR take_bit n v)"
  using assms
proof (induction n)
  case 0
  then show ?case by simp
next
  case (Suc n)
  have t: "take_bit (Suc n) v = take_bit n v XOR (if bit v n then push_bit n 1 else 0)"
    by (rule bit_eqI) (auto simp: bit_simps less_Suc_eq dest: bit_imp_le_length)
  have sh: "(crcw_bit ^^ n) (if bit v n then push_bit n 1 else 0) = of_bool (bit v n)"
  proof (cases "bit v n")
    case True
    have "(crcw_bit ^^ n) (push_bit n 1 :: u16) = drop_bit n (push_bit n 1)"
      by (rule crcw_shift) (simp add: bit_simps)
    also have "\<dots> = 1" using Suc.prems
      by (intro bit_eqI) (auto simp: bit_simps dest: bit_imp_le_length)
    finally show ?thesis using True by simp
  next
    case False
    then show ?thesis using crcw_funpow_0_iff [of n 0] by simp
  qed
  have ih: "foldl feed_bit s (map (bit v) [0..<n]) = (crcw_bit ^^ n) (s XOR take_bit n v)"
    using Suc.IH Suc.prems by simp
  have "foldl feed_bit s (map (bit v) [0..<Suc n])
      = feed_bit (foldl feed_bit s (map (bit v) [0..<n])) (bit v n)" by simp
  also have "\<dots> = crcw_bit ((crcw_bit ^^ n) (s XOR take_bit n v) XOR of_bool (bit v n))"
    unfolding ih by (rule feed_bit_def)
  also have "\<dots> = (crcw_bit ^^ Suc n) (s XOR take_bit (Suc n) v)"
    by (simp only: t crcw_funpow_xor sh funpow.simps comp_apply xor.assoc)
  finally show ?case .
qed

lemma feed_byte: "foldl feed_bit s (map (bit b) [0..<8]) = crcw_byte s b"
proof -
  have "map (bit b) [0..<8] = map (bit (ucast b :: u16)) [0..<8]" by (auto simp: bit_simps)
  moreover have "take_bit 8 (ucast b :: u16) = ucast b"
    by (rule bit_eqI) (auto simp: bit_simps dest: bit_imp_le_length)
  moreover have "(8 :: nat) \<le> 16" by simp
  ultimately show ?thesis using feed_bits [of 8 s "ucast b"] by (simp only: crcw_byte_def simp_thms)
qed

lemma feed_bytes: "foldl feed_bit s (wire_bits bs) = foldl crcw_byte s bs"
proof (induction bs arbitrary: s)
  case Nil
  then show ?case by (simp add: wire_bits_def)
next
  case (Cons b bs)
  have "wire_bits (b # bs) = map (bit b) [0..<8] @ wire_bits bs" by (simp add: wire_bits_def)
  then show ?case by (simp only: foldl_append feed_byte Cons foldl_Cons)
qed

lemma bit_mk16: "i < 16 \<Longrightarrow> bit (mk16 y x) i \<longleftrightarrow> (if i < 8 then bit x i else bit y (i - 8))"
proof -
  assume i: "i < 16"
  have l: "bit (ucast (mk16 y x) :: byte) i = bit x i" by simp
  have h: "bit (ucast (drop_bit 8 (mk16 y x)) :: byte) (i - 8) = bit y (i - 8)" by simp
  show ?thesis
  proof (cases "i < 8")
    case True
    with l show ?thesis unfolding bit_ucast_iff by simp
  next
    case False
    then have "8 + (i - 8) = i" "i - 8 < 8" using i by simp_all
    with h False show ?thesis unfolding bit_ucast_iff bit_drop_bit_eq comp_apply by simp
  qed
qed

lemma bits_FFFF: "i < 16 \<Longrightarrow> bit (0xFFFF :: u16) i"
  by (rule bits_constant [where P = "\<lambda>n. n < 16", THEN iffD2]) (code_simp, assumption)

lemma divides_frame_crcw:
  assumes "2 \<le> length f"
  shows "divides_frame f \<longleftrightarrow> crcw f = 0"
proof -
  obtain x y bs where f: "f = x # y # bs"
    using assms by (cases f; cases "tl f") auto
  have w: "map Not (map (bit x) [0..<8] @ map (bit y) [0..<8]) = word_bits (0xFFFF XOR mk16 y x)"
  proof (rule nth_equalityI)
    fix i assume "i < length (map Not (map (bit x) [0..<8] @ map (bit y) [0..<8]))"
    then have i: "i < 16" by simp
    then have "bit (0xFFFF :: u16) i" using bits_FFFF by simp
    then show "map Not (map (bit x) [0..<8] @ map (bit y) [0..<8]) ! i = word_bits (0xFFFF XOR mk16 y x) ! i"
      using i by (simp add: word_bits_def nth_append bit_xor_iff bit_mk16)
  qed (simp add: word_bits_def)
  have b: "take 16 (wire_bits f) = map (bit x) [0..<8] @ map (bit y) [0..<8]"
    "drop 16 (wire_bits f) = wire_bits bs"
    by (simp_all add: wire_bits_def f)
  have "divides_frame f \<longleftrightarrow> foldl next_bit (0xFFFF XOR mk16 y x) (wire_bits bs) = 0"
    by (simp only: divides_frame_def b w poly_rem_register word_bits_zero)
  also have "\<dots> \<longleftrightarrow> (crcw_bit ^^ 16) (foldl next_bit (0xFFFF XOR mk16 y x) (wire_bits bs)) = 0"
    by (simp only: crcw_funpow_0_iff)
  also have "\<dots> \<longleftrightarrow> foldl crcw_byte (crcw_byte (crcw_byte 0xFFFF x) y) bs = 0"
    by (simp only: funpow_foldl_next feed_bytes crcw_byte_byte)
  also have "\<dots> \<longleftrightarrow> crcw f = 0" by (simp add: crcw_def f)
  finally show ?thesis .
qed

section \<open>Properties\<close>

text \<open>C8: \<open>valid_crc\<close> accepts exactly the frames of at least three bytes whose bits, in the order
  of the wire and with the first sixteen inverted, are divisible by \<open>x^16 + x^15 + x^2 + 1\<close>, which
  is the checksum of Modbus; \<open>append_crc\<close> gives such a frame for every payload but the empty
  one, the payload comes back by dropping two bytes, and no other two bytes after the payload are
  accepted.\<close>

theorem append_crc_roundtrip:
  "(valid_crc frame \<longleftrightarrow> 3 \<le> length frame \<and> divides_frame frame) \<and>
   (valid_crc (append_crc payload) \<longleftrightarrow> payload \<noteq> []) \<and>
   take (length (append_crc payload) - 2) (append_crc payload) = payload \<and>
   (valid_crc (payload @ [lo, hi]) \<longleftrightarrow> payload \<noteq> [] \<and> payload @ [lo, hi] = append_crc payload)"
proof (intro conjI)
  show "valid_crc frame \<longleftrightarrow> 3 \<le> length frame \<and> divides_frame frame"
    using divides_frame_crcw [of frame] by (auto simp: valid_crc_residue)
  have "\<not> valid_crc (append_crc [])" by (simp add: valid_crc_def append_crc_def)
  then show v: "valid_crc (append_crc payload) \<longleftrightarrow> payload \<noteq> []" by (auto simp: append_crc_valid)
  show "take (length (append_crc payload) - 2) (append_crc payload) = payload"
    by (simp add: append_crc_def)
  have "valid_crc (payload @ [lo, hi]) \<longleftrightarrow> payload \<noteq> [] \<and> crcw payload = mk16 hi lo"
    by (auto simp: valid_crc_alt)
  also have "crcw payload = mk16 hi lo \<longleftrightarrow> payload @ [lo, hi] = append_crc payload"
    by (auto simp: append_crc_def le16_def crc16_crcw)
  finally show "valid_crc (payload @ [lo, hi]) \<longleftrightarrow> payload \<noteq> [] \<and> payload @ [lo, hi] = append_crc payload" .
qed

text \<open>C9: any error burst confined to two neighbouring bytes of a valid frame, the two checksum
  bytes included, is detected by \<open>valid_crc\<close>.\<close>

theorem valid_crc_detects_burst:
  assumes "valid_crc (xs @ [a, b] @ ys)" and "(a', b') \<noteq> (a, b)"
  shows "\<not> valid_crc (xs @ [a', b'] @ ys)"
  using assms crcw_burst [of xs a b ys a' b'] by (auto simp: valid_crc_residue)

theorem valid_crc_detects_burst_witness:
  "valid_crc (append_crc [1, 3, 0, 8, 0, 6]) \<and>
   \<not> valid_crc ([1, 3] @ [7, 9] @ drop 4 (append_crc [1, 3, 0, 8, 0, 6]))"
proof -
  have v: "valid_crc (append_crc [1, 3, 0, 8, 0, 6])" by (simp add: append_crc_valid)
  moreover have "append_crc [1, 3, 0, 8, 0, 6]
      = [1, 3] @ [0, 8] @ drop 4 (append_crc [1, 3, 0, 8, 0, 6])"
    by (simp add: append_crc_def)
  ultimately have "valid_crc ([1, 3] @ [0, 8] @ drop 4 (append_crc [1, 3, 0, 8, 0, 6]))" by metis
  then have "\<not> valid_crc ([1, 3] @ [7, 9] @ drop 4 (append_crc [1, 3, 0, 8, 0, 6]))"
    by (rule valid_crc_detects_burst) simp
  with v show ?thesis ..
qed

text \<open>The loop on Python's unbounded integers never leaves 16 bits: \<open>crc16\<close> is the 16-bit
  register machine, so its final mask changes nothing.\<close>

theorem crc16_is_u16_register:
  "crc16 payload = uint (crcw payload) \<and> 0 \<le> crc16 payload \<and> crc16 payload < 2 ^ 16"
  using uint_lt2p [of "crcw payload"] by (simp add: crc16_crcw)

end
