(* ===== verification/Modbus_Codec.thy ===== *)
theory Modbus_Codec
  imports Modbus_Crc Domain_Models
begin

text \<open>
  The protocol data units of \<open>protocol/codec.py\<close>: building a register read, parsing its answer,
  and parsing a Read Device Identification answer.  Every \<open>raise\<close> of the source is a branch.
  The characterisation lemmas say exactly which byte strings each parser accepts and what it
  returns for them.
\<close>

section \<open>Register reads\<close>

definition READ_DEVICE_IDENTIFICATION :: bytes where
  "READ_DEVICE_IDENTIFICATION = [0x2B, 0x0E, 0x01, 0x00]"

definition read_registers_pdu :: "int \<Rightarrow> int \<Rightarrow> int \<Rightarrow> bytes res" where
  "read_registers_pdu function_code address count =
    (if function_code \<noteq> 3 \<and> function_code \<noteq> 4 then
       Inl (ValueError ''only holding (0x03) and input (0x04) reads are supported'')
     else if \<not> (0 \<le> address \<and> address \<le> 0xFFFF) then Inl (ValueError ''address must fit uint16'')
     else if \<not> (1 \<le> count \<and> count \<le> 125) then Inl (ValueError ''count must be between 1 and 125'')
     else Inr (word_of_int function_code # be16 (word_of_int address) @ be16 (word_of_int count)))"

text \<open>\<open>struct.unpack(f">{count}H", payload)\<close> on a payload of even length.\<close>

fun unpack_words :: "bytes \<Rightarrow> u16 list" where
  "unpack_words (hi # lo # rest) = mk16 hi lo # unpack_words rest"
| "unpack_words _ = []"

definition parse_register_response :: "bytes \<Rightarrow> int \<Rightarrow> int \<Rightarrow> u16 list res" where
  "parse_register_response pdu function_code count =
    (if length pdu < 2 \<or> uint (pdu ! 0) \<noteq> function_code then
       Inl (ModbusProtocolError ''unexpected register response function'')
     else if uint (pdu ! 1) \<noteq> count * 2 \<or> int (length (drop 2 pdu)) \<noteq> count * 2 then
       Inl (ModbusProtocolError ''register response byte count mismatch'')
     else Inr (unpack_words (drop 2 pdu)))"

section \<open>Device identification\<close>

text \<open>The loop over the objects: the cursor moves over a two-byte header and its value.\<close>

fun id_objects :: "bytes \<Rightarrow> nat \<Rightarrow> nat \<Rightarrow> (nat \<times> (nat \<times> string) list) res" where
  "id_objects pdu 0 cursor = Inr (cursor, [])"
| "id_objects pdu (Suc n) cursor =
    (if cursor + 2 > length pdu then
       Inl (ModbusProtocolError ''truncated device-identification object header'')
     else
       (let object_id = unat (pdu ! cursor); len = unat (pdu ! (cursor + 1)); c = cursor + 2 in
        if c + len > length pdu then
          Inl (ModbusProtocolError ''truncated device-identification object value'')
        else
          rbind (id_objects pdu n (c + len)) (\<lambda>(c', rest).
            Inr (c', (object_id, str_strip (ascii_decode (take len (drop c pdu)))) # rest))))"

text \<open>\<open>dict(objects).get(key, "")\<close>: a later object with the same id wins.\<close>

definition object_value :: "(nat \<times> string) list \<Rightarrow> nat \<Rightarrow> string" where
  "object_value objects k = (case map_of (rev objects) k of None \<Rightarrow> '''' | Some v \<Rightarrow> v)"

definition parse_device_identification :: "bytes \<Rightarrow> device_identification res" where
  "parse_device_identification pdu =
    (if length pdu < 7 then
       Inl (ModbusProtocolError ''truncated Read Device Identification response'')
     else if take 3 pdu \<noteq> [0x2B, 0x0E, 0x01] then
       Inl (ModbusProtocolError ''unexpected Read Device Identification header'')
     else rbind (id_objects pdu (unat (pdu ! 6)) 7) (\<lambda>(cursor, objects).
       if cursor \<noteq> length pdu then
         Inl (ModbusProtocolError ''unexpected trailing bytes in device-identification response'')
       else Inr \<lparr>vendor_name = object_value objects 0, product_code = object_value objects 1,
         major_minor_revision = object_value objects 2, conformity_level = unat (pdu ! 3),
         raw_objects = objects, raw_pdu_hex = bytes_hex pdu\<rparr>))"

section \<open>Register responses: what the parser accepts\<close>

definition pack_words :: "u16 list \<Rightarrow> bytes" where
  "pack_words ws = concat (map be16 ws)"

lemma length_pack_words [simp]: "length (pack_words ws) = 2 * length ws"
  by (induction ws) (simp_all add: pack_words_def)

lemma unpack_pack_words [simp]: "unpack_words (pack_words ws) = ws"
  by (induction ws) (simp_all add: pack_words_def be16_def)

lemma pack_unpack_words: "even (length bs) \<Longrightarrow> pack_words (unpack_words bs) = bs"
  by (induction bs rule: unpack_words.induct) (simp_all add: pack_words_def be16_def)

lemma length_unpack_words: "length (unpack_words bs) = length bs div 2"
  by (induction bs rule: unpack_words.induct) simp_all

text \<open>The answer of a device that returns the words \<open>ws\<close>.\<close>

definition register_response :: "int \<Rightarrow> u16 list \<Rightarrow> bytes" where
  "register_response fc ws = word_of_int fc # word_of_int (2 * int (length ws)) # pack_words ws"

lemma parse_register_response_iff:
  assumes "0 \<le> fc" "fc < 256"
  shows "parse_register_response pdu fc n = Inr ws \<longleftrightarrow>
    pdu = register_response fc ws \<and> n = int (length ws) \<and> length ws < 128"
proof
  assume p: "parse_register_response pdu fc n = Inr ws"
  then have l: "2 \<le> length pdu" and f: "uint (pdu ! 0) = fc" and c: "uint (pdu ! 1) = n * 2"
    and d: "int (length (drop 2 pdu)) = n * 2" and w: "ws = unpack_words (drop 2 pdu)"
    by (auto simp: parse_register_response_def split: if_splits)
  obtain x y r where pdu: "pdu = x # y # r"
    using l by (cases pdu; cases "tl pdu") auto
  have r: "int (length r) = n * 2" "ws = unpack_words r" using d w pdu by simp_all
  then have "even (length r)" by presburger
  then have r2: "pack_words ws = r" using r by (simp add: pack_unpack_words)
  have n: "n = int (length ws)" using r by (simp add: length_unpack_words)
  have y: "uint y = n * 2" "x = word_of_int fc" using f c pdu by auto
  have "uint y < 256" using uint_lt2p [of y] by simp
  moreover have "y = word_of_int (2 * int (length ws))"
    using y n by (metis mult.commute word_of_int_uint)
  ultimately show "pdu = register_response fc ws \<and> n = int (length ws) \<and> length ws < 128"
    using y n pdu r2 by (simp add: register_response_def)
next
  assume a: "pdu = register_response fc ws \<and> n = int (length ws) \<and> length ws < 128"
  then have "uint (word_of_int (2 * int (length ws)) :: byte) = 2 * int (length ws)"
    by (subst uint_word_of_int) simp
  moreover have "uint (word_of_int fc :: byte) = fc"
    using assms by (subst uint_word_of_int) simp
  ultimately show "parse_register_response pdu fc n = Inr ws"
    using a by (simp add: parse_register_response_def register_response_def)
qed

section \<open>Device identification: what the parser accepts\<close>

text \<open>The wire form of an object list, and the answer that carries it.\<close>

definition pack_objects :: "(byte \<times> bytes) list \<Rightarrow> bytes" where
  "pack_objects objs = concat (map (\<lambda>(i, v). i # word_of_nat (length v) # v) objs)"

definition identification_response :: "byte \<Rightarrow> byte \<Rightarrow> byte \<Rightarrow> (byte \<times> bytes) list \<Rightarrow> bytes" where
  "identification_response conformity follows nxt objs =
    [0x2B, 0x0E, 0x01, conformity, follows, nxt, word_of_nat (length objs)] @ pack_objects objs"

definition small_objects :: "(byte \<times> bytes) list \<Rightarrow> bool" where
  "small_objects objs = list_all (\<lambda>(i, v). length v < 256) objs"

definition object_text :: "byte \<times> bytes \<Rightarrow> nat \<times> string" where
  "object_text o' = (unat (fst o'), str_strip (ascii_decode (snd o')))"

lemma pack_objects_simps [simp]:
  "pack_objects [] = []"
  "pack_objects ((i, v) # objs) = i # word_of_nat (length v) # v @ pack_objects objs"
  by (simp_all add: pack_objects_def)

lemma unat_len [simp]: "n < 256 \<Longrightarrow> unat (word_of_nat n :: byte) = n"
  by (simp add: unat_of_nat)

lemma id_objects_complete:
  assumes "small_objects objs" "drop cursor pdu = pack_objects objs @ rest" "cursor \<le> length pdu"
  shows "id_objects pdu (length objs) cursor
      = Inr (cursor + length (pack_objects objs), map object_text objs)"
  using assms
proof (induction objs arbitrary: cursor)
  case (Cons o' objs)
  obtain i v where o': "o' = (i, v)" by (cases o')
  let ?rest = "pack_objects objs @ rest"
  have d: "drop cursor pdu = i # word_of_nat (length v) # v @ ?rest" using Cons.prems o' by simp
  have l: "length pdu = cursor + 2 + length v + length ?rest"
    using arg_cong [OF d, of length] Cons.prems(3) by simp
  have n: "pdu ! (cursor + k) = (i # word_of_nat (length v) # v @ ?rest) ! k" for k
    unfolding d [symmetric] by (rule nth_drop [symmetric]) (rule Cons.prems(3))
  have p: "pdu ! cursor = i" "pdu ! (cursor + 1) = word_of_nat (length v)"
    using n [of 0] n [of 1] by simp_all
  have "drop (cursor + 2) pdu = drop 2 (drop cursor pdu)" by (simp add: add.commute)
  then have v: "drop (cursor + 2) pdu = v @ ?rest" unfolding d by simp
  have "drop (cursor + 2 + length v) pdu = drop (length v) (drop (cursor + 2) pdu)"
    by (simp add: add.commute)
  then have r: "drop (cursor + 2 + length v) pdu = ?rest" unfolding v by simp
  have s: "length v < 256" "small_objects objs"
    using Cons.prems(1) o' by (simp_all add: small_objects_def)
  have IH: "id_objects pdu (length objs) (cursor + 2 + length v)
      = Inr (cursor + 2 + length v + length (pack_objects objs), map object_text objs)"
    using Cons.IH [OF s(2) r] l by simp
  have u: "unat (pdu ! (cursor + 1)) = length v" using p(2) s(1) by simp
  have t: "take (length v) (drop (cursor + 2) pdu) = v" unfolding v by simp
  have "id_objects pdu (Suc (length objs)) cursor
      = Inr (cursor + 2 + length v + length (pack_objects objs),
             object_text (i, v) # map object_text objs)"
    unfolding id_objects.simps Let_def u t p(1) IH using l by (simp add: object_text_def)
  then show ?case by (simp add: o')
qed simp

lemma id_objects_sound:
  assumes "id_objects pdu n cursor = Inr (c', texts)" "cursor \<le> length pdu"
  shows "\<exists>objs. small_objects objs \<and> length objs = n \<and> texts = map object_text objs \<and>
    c' = cursor + length (pack_objects objs) \<and> c' \<le> length pdu \<and>
    take (c' - cursor) (drop cursor pdu) = pack_objects objs"
  using assms
proof (induction n arbitrary: cursor texts)
  case 0
  then show ?case by (intro exI [of _ "[]"]) (simp add: small_objects_def)
next
  case (Suc n)
  let ?len = "unat (pdu ! (cursor + 1))"
  let ?c = "cursor + 2 + ?len"
  let ?v = "take ?len (drop (cursor + 2) pdu)"
  have b: "cursor + 2 \<le> length pdu" "?c \<le> length pdu"
    using Suc.prems(1) by (auto simp: Let_def split: if_splits)
  obtain rest where r: "id_objects pdu n ?c = Inr (c', rest)"
    and t: "texts = (unat (pdu ! cursor), str_strip (ascii_decode ?v)) # rest"
    using Suc.prems(1) b by (auto simp: Let_def rbind_eq_Inr split: if_splits prod.splits)
  obtain objs where o': "small_objects objs" "length objs = n" "rest = map object_text objs"
    "c' = ?c + length (pack_objects objs)" "c' \<le> length pdu"
    "take (c' - ?c) (drop ?c pdu) = pack_objects objs"
    using Suc.IH [OF r b(2)] by blast
  have lv: "length ?v = ?len" using b by simp
  have l256: "?len < 256" using unsigned_less [of "pdu ! (cursor + 1)"] by simp
  have d: "drop cursor pdu = pdu ! cursor # pdu ! (cursor + 1) # drop (cursor + 2) pdu"
    using b by (simp add: Cons_nth_drop_Suc)
  have "take (c' - cursor) (drop cursor pdu)
      = pdu ! cursor # pdu ! (cursor + 1) # take (?len + (c' - ?c)) (drop (cursor + 2) pdu)"
    using o'(4) by (simp add: d)
  also have "take (?len + (c' - ?c)) (drop (cursor + 2) pdu) = ?v @ pack_objects objs"
    using o'(6) by (simp add: take_add add.commute)
  finally show ?case
    using o' t lv l256 b
    by (intro exI [of _ "(pdu ! cursor, ?v) # objs"]) (simp add: small_objects_def object_text_def)
qed

text \<open>The record the parser builds from a list of objects.\<close>

definition identification_of :: "byte \<Rightarrow> (nat \<times> string) list \<Rightarrow> bytes \<Rightarrow> device_identification" where
  "identification_of conformity texts pdu = \<lparr>vendor_name = object_value texts 0,
     product_code = object_value texts 1, major_minor_revision = object_value texts 2,
     conformity_level = unat conformity, raw_objects = texts, raw_pdu_hex = bytes_hex pdu\<rparr>"

lemma identification_response_nth:
  "identification_response c f n objs ! 3 = c"
  "identification_response c f n objs ! 6 = word_of_nat (length objs)"
  by (simp_all add: identification_response_def nth_append)

lemma parse_identification_complete:
  assumes "small_objects objs" "length objs < 256"
    and pdu_def: "pdu = identification_response c f n objs"
  shows "parse_device_identification pdu = Inr (identification_of c (map object_text objs) pdu)"
proof -
  have l: "length pdu = 7 + length (pack_objects objs)"
    by (simp add: pdu_def identification_response_def)
  have d: "drop 7 pdu = pack_objects objs @ []" by (simp add: pdu_def identification_response_def)
  have t: "take 3 pdu = [0x2B, 0x0E, 0x01]" by (simp add: pdu_def identification_response_def)
  have i: "id_objects pdu (unat (pdu ! 6)) 7
      = Inr (7 + length (pack_objects objs), map object_text objs)"
    using id_objects_complete [OF assms(1) d] l assms(2)
    by (simp add: pdu_def identification_response_nth)
  have c: "pdu ! 3 = c" by (simp add: pdu_def identification_response_nth)
  show ?thesis
    unfolding parse_device_identification_def t i c using l by (simp add: identification_of_def)
qed

lemma parse_identification_sound:
  assumes "parse_device_identification pdu = Inr d"
  shows "\<exists>c f n objs. pdu = identification_response c f n objs \<and> small_objects objs \<and>
    length objs < 256 \<and> d = identification_of c (map object_text objs) pdu"
proof -
  have l: "7 \<le> length pdu" and t: "take 3 pdu = [0x2B, 0x0E, 0x01]"
    using assms by (auto simp: parse_device_identification_def split: if_splits)
  obtain texts where i: "id_objects pdu (unat (pdu ! 6)) 7 = Inr (length pdu, texts)"
    and d: "d = identification_of (pdu ! 3) texts pdu"
    using assms l t
    by (auto simp: parse_device_identification_def rbind_eq_Inr identification_of_def
        split: if_splits prod.splits)
  obtain objs where o': "small_objects objs" "length objs = unat (pdu ! 6)"
    "texts = map object_text objs" "take (length pdu - 7) (drop 7 pdu) = pack_objects objs"
    using id_objects_sound [OF i] l by auto
  have n: "length objs < 256" using o'(2) unsigned_less [of "pdu ! 6"] by simp
  have w: "word_of_nat (length objs) = pdu ! 6" unfolding o'(2) by simp
  have "pdu = take 3 pdu @ take 4 (drop 3 pdu) @ drop 7 pdu"
    by (metis append_take_drop_id drop_drop add.commute numeral_plus_numeral add_num_simps)
  also have "take 4 (drop 3 pdu) = [pdu ! 3, pdu ! 4, pdu ! 5, pdu ! 6]"
    using l by (simp add: take_Suc_conv_app_nth eval_nat_numeral Cons_nth_drop_Suc [symmetric])
  also have "drop 7 pdu = pack_objects objs" using o'(4) by simp
  finally have "pdu = identification_response (pdu ! 3) (pdu ! 4) (pdu ! 5) objs"
    by (simp add: t identification_response_def w)
  with o'(1,3) n d show ?thesis by blast
qed

section \<open>Properties\<close>

text \<open>C6: the register-response parser accepts exactly the answers of the asked function that
  carry the asked number of words, with the byte count that says so, and returns those words.\<close>

theorem parse_register_response_exact:
  "parse_register_response pdu (uint (fc :: byte)) n = Inr ws \<longleftrightarrow>
    pdu = register_response (uint fc) ws \<and> n = int (length ws) \<and> length ws < 128"
  using uint_lt2p [of fc] by (intro parse_register_response_iff) simp_all

text \<open>C7: the identification parser accepts exactly the byte strings that are a Read Device
  Identification header followed by the announced number of well-formed objects and nothing
  else, and returns the stripped text of each object, the last object of an id winning.\<close>

theorem parse_device_identification_exact:
  "parse_device_identification pdu = Inr d \<longleftrightarrow>
    (\<exists>c f n objs. pdu = identification_response c f n objs \<and> small_objects objs \<and>
       length objs < 256 \<and> d = identification_of c (map object_text objs) pdu)"
  using parse_identification_complete parse_identification_sound by blast

end
