(* ===== verification/Modbus_Transport.thy ===== *)
theory Modbus_Transport
  imports Modbus_Codec
begin

text \<open>
  The two read-only clients of \<open>transports/modbus.py\<close>.

  The world outside the program is a parameter.  For TCP it is a \<open>network\<close>: what the peer
  does once the request bytes are written.  For RTU it is a \<open>serial_port\<close>: whether the port
  opens and accepts the frame, the bytes the bus delivers, and a finite schedule that says for
  every pass of the read loop whether the deadline has expired, the driver fails, or how many
  bytes are available.  A client is a record of the fields the operations change or test; the
  observer is the log of the exchanges handed to it.  The lock and the single worker thread
  make each request atomic, which a state-passing function is.
\<close>

section \<open>Requests\<close>

definition request_shape :: "bytes \<Rightarrow> (nat \<times> nat) option" where
  "request_shape pdu = (if 5 \<le> length pdu \<and> (pdu ! 0 = 3 \<or> pdu ! 0 = 4)
     then Some (unat (mk16 (pdu ! 1) (pdu ! 2)), unat (mk16 (pdu ! 3) (pdu ! 4))) else None)"

definition mk_exchange ::
  "transport_name \<Rightarrow> int \<Rightarrow> bytes \<Rightarrow> bytes \<Rightarrow> bytes \<Rightarrow> bytes \<Rightarrow> py_error option \<Rightarrow> modbus_exchange" where
  "mk_exchange tr unit pdu request response response_pdu err =
    \<lparr>ex_transport = tr, ex_unit_id = unit, ex_function_code = unat (pdu ! 0),
     ex_address = map_option fst (request_shape pdu), ex_count = map_option snd (request_shape pdu),
     ex_request_hex = bytes_hex request, ex_response_hex = bytes_hex response,
     ex_request_pdu_hex = bytes_hex pdu, ex_response_pdu_hex = bytes_hex response_pdu,
     ex_error = err\<rparr>"

text \<open>The error component of an exchange: the exception in flight, if any.\<close>

definition err_of :: "'a res \<Rightarrow> py_error option" where
  "err_of r = (case r of Inl e \<Rightarrow> Some e | Inr _ \<Rightarrow> None)"

section \<open>\<open>AsyncModbusTcpClient\<close>\<close>

record tcp_client =
  tc_unit_id :: int
  tc_transaction_id :: int
  tc_observed :: bool
  tc_log :: "modbus_exchange list"

definition tcp_client_new :: "int \<Rightarrow> bool \<Rightarrow> tcp_client res" where
  "tcp_client_new unit_id observed =
    (if \<not> (1 \<le> unit_id \<and> unit_id \<le> 247) then Inl (ValueError ''unit_id must be 1..247'')
     else Inr \<lparr>tc_unit_id = unit_id, tc_transaction_id = 0, tc_observed = observed, tc_log = []\<rparr>)"

text \<open>
  What happens to a connection attempt that writes \<open>request\<close>: it fails with an exception, or
  the stream delivers some bytes and answers a read past them with an exception (end of file,
  reset, or the timeout that encloses the whole exchange).
\<close>

datatype tcp_conn = Refused py_error | Stream bytes py_error

type_synonym network = "bytes \<Rightarrow> tcp_conn"

definition readexactly :: "nat \<Rightarrow> bytes \<Rightarrow> py_error \<Rightarrow> (bytes \<times> bytes) res" where
  "readexactly n input e = (if n \<le> length input then Inr (take n input, drop n input) else Inl e)"

definition raise_if_exception :: "bytes \<Rightarrow> unit res" where
  "raise_if_exception pdu =
    (if pdu = [] then Inl (ModbusProtocolError ''empty Modbus response'')
     else if pdu ! 0 AND 0x80 \<noteq> 0 then
       (if length pdu < 2 then Inl (ModbusProtocolError ''truncated Modbus exception response'')
        else Inl (ModbusDeviceError (unat (pdu ! 0 AND 0x7F)) (unat (pdu ! 1))))
     else Inr ())"

text \<open>The bytes before a PDU on a TCP connection: \<open>struct.pack(">HHHB", tid, 0, len(pdu) + 1, unit)\<close>.\<close>

definition mbap_header :: "int \<Rightarrow> int \<Rightarrow> int \<Rightarrow> bytes" where
  "mbap_header tid len unit = be16 (word_of_int tid) @ [0, 0] @ be16 (word_of_int len) @ [word_of_int unit]"

text \<open>Reading and checking the answer: the header, its fields, then \<open>length - 1\<close> bytes of PDU.\<close>

definition tcp_read_response :: "int \<Rightarrow> int \<Rightarrow> bytes \<Rightarrow> py_error \<Rightarrow> (bytes \<times> bytes) res" where
  "tcp_read_response tid unit input e =
    rbind (readexactly 7 input e) (\<lambda>(header, rest).
      let rx_id = uint (mk16 (header ! 0) (header ! 1));
          protocol_id = uint (mk16 (header ! 2) (header ! 3));
          len = unat (mk16 (header ! 4) (header ! 5));
          unit_id = uint (header ! 6) in
      if rx_id \<noteq> tid \<or> protocol_id \<noteq> 0 \<or> unit_id \<noteq> unit then
        Inl (ModbusProtocolError ''invalid Modbus TCP response header'')
      else if len < 2 then Inl (ModbusProtocolError ''invalid Modbus TCP response length'')
      else rbind (readexactly (len - 1) rest e) (\<lambda>(response_pdu, _). Inr (header, response_pdu)))"

definition tcp_request :: "network \<Rightarrow> tcp_client \<Rightarrow> bytes \<Rightarrow> tcp_client \<times> bytes res" where
  "tcp_request net c pdu =
    (let tid = (tc_transaction_id c + 1) AND 0xFFFF;
         unit = tc_unit_id c;
         request = mbap_header tid (int (length pdu) + 1) unit @ pdu;
         received = (case net request of
             Refused e \<Rightarrow> Inl e
           | Stream input e \<Rightarrow> tcp_read_response tid unit input e);
         result = rbind received (\<lambda>(_, response_pdu).
           rbind (raise_if_exception response_pdu) (\<lambda>_.
             if response_pdu ! 0 \<noteq> pdu ! 0 then
               Inl (ModbusProtocolError ''Modbus function code mismatch'')
             else Inr response_pdu));
         response = (case received of Inl _ \<Rightarrow> [] | Inr (h, p) \<Rightarrow> h @ p);
         response_pdu = (case received of Inl _ \<Rightarrow> [] | Inr (h, p) \<Rightarrow> p);
         exchange = mk_exchange Tcp unit pdu request response response_pdu (err_of result)
     in (c\<lparr>tc_transaction_id := tid,
           tc_log := (if tc_observed c then tc_log c @ [exchange] else tc_log c)\<rparr>, result))"

text \<open>The three read operations, over any \<open>_request\<close>; building the request comes first.\<close>

definition read_registers ::
  "('c \<Rightarrow> bytes \<Rightarrow> 'c \<times> bytes res) \<Rightarrow> 'c \<Rightarrow> int \<Rightarrow> int \<Rightarrow> int \<Rightarrow> 'c \<times> u16 list res" where
  "read_registers request c fc address count =
    (case read_registers_pdu fc address count of
       Inl e \<Rightarrow> (c, Inl e)
     | Inr pdu \<Rightarrow> (let (c', r) = request c pdu in
         (c', rbind r (\<lambda>response. parse_register_response response fc count))))"

definition read_device_identification ::
  "('c \<Rightarrow> bytes \<Rightarrow> 'c \<times> bytes res) \<Rightarrow> 'c \<Rightarrow> 'c \<times> device_identification res" where
  "read_device_identification request c =
    (let (c', r) = request c READ_DEVICE_IDENTIFICATION in (c', rbind r parse_device_identification))"

definition tcp_read_holding_registers :: "network \<Rightarrow> tcp_client \<Rightarrow> int \<Rightarrow> int \<Rightarrow> tcp_client \<times> u16 list res" where
  "tcp_read_holding_registers net c = read_registers (tcp_request net) c 3"

definition tcp_read_input_registers :: "network \<Rightarrow> tcp_client \<Rightarrow> int \<Rightarrow> int \<Rightarrow> tcp_client \<times> u16 list res" where
  "tcp_read_input_registers net c = read_registers (tcp_request net) c 4"

section \<open>\<open>AsyncModbusRtuClient\<close>\<close>

record rtu_client =
  rc_unit_id :: int
  rc_stop_bits :: int
  rc_is_open :: bool
  rc_closed :: bool
  rc_observed :: bool
  rc_log :: "modbus_exchange list"

definition rtu_client_new :: "int \<Rightarrow> int \<Rightarrow> bool \<Rightarrow> rtu_client res" where
  "rtu_client_new unit_id stop_bits observed =
    (if \<not> (1 \<le> unit_id \<and> unit_id \<le> 247) then Inl (ValueError ''unit_id must be 1..247'')
     else if stop_bits \<noteq> 1 \<and> stop_bits \<noteq> 2 then Inl (ValueError ''stop_bits must be 1 or 2'')
     else Inr \<lparr>rc_unit_id = unit_id, rc_stop_bits = stop_bits, rc_is_open = False, rc_closed = False,
               rc_observed = observed, rc_log = []\<rparr>)"

text \<open>One pass of the read loop; a schedule that is used up means that the deadline has passed.\<close>

datatype tick = Expired | PortError | Chunk nat

record line =
  ln_pending :: bytes
  ln_ticks :: "tick list"

type_synonym 'a io = "line \<Rightarrow> 'a res \<times> line"

definition io_bind :: "'a io \<Rightarrow> ('a \<Rightarrow> 'b io) \<Rightarrow> 'b io" where
  "io_bind m f l = (case m l of (Inl e, l') \<Rightarrow> (Inl e, l') | (Inr x, l') \<Rightarrow> f x l')"

definition io_return :: "'a \<Rightarrow> 'a io" where
  "io_return x l = (Inr x, l)"

definition io_raise :: "py_error \<Rightarrow> 'a io" where
  "io_raise e l = (Inl e, l)"

fun read_loop :: "nat \<Rightarrow> bytes \<Rightarrow> bytes \<Rightarrow> tick list \<Rightarrow> bytes res \<times> bytes \<times> tick list" where
  "read_loop need payload pending [] =
    (if need \<le> length payload then (Inr payload, pending, []) else (Inl TimeoutError, pending, []))"
| "read_loop need payload pending (t # ts) =
    (if need \<le> length payload then (Inr payload, pending, t # ts)
     else case t of
       Expired \<Rightarrow> (Inl TimeoutError, pending, ts)
     | PortError \<Rightarrow> (Inl OSError, pending, ts)
     | Chunk n \<Rightarrow>
         (let k = min n (min (need - length payload) (length pending)) in
          read_loop need (payload @ take k pending) (drop k pending) ts))"

definition read_exact :: "nat \<Rightarrow> bytes io" where
  "read_exact need l = (let (r, pending, ticks) = read_loop need [] (ln_pending l) (ln_ticks l)
     in (r, \<lparr>ln_pending = pending, ln_ticks = ticks\<rparr>))"

text \<open>The objects of an identification answer: a two-byte header, then as many bytes as it says.\<close>

fun read_objects :: "nat \<Rightarrow> bytes io" where
  "read_objects 0 = io_return []"
| "read_objects (Suc n) =
    io_bind (read_exact 2) (\<lambda>header.
    io_bind (read_exact (unat (header ! 1))) (\<lambda>body.
    io_bind (read_objects n) (\<lambda>rest. io_return (header @ body @ rest))))"

text \<open>
  \<open>_exchange_blocking\<close> after the frame is written, in its three steps: the rest of an answer
  that is no exception, by function code; the checks on a whole answer; and the read of the
  first two bytes, which decides what follows.
\<close>

definition rtu_read_rest :: "bytes \<Rightarrow> bytes io" where
  "rtu_read_rest pre =
    (let function_code = pre ! 1 in
     if function_code = 3 \<or> function_code = 4 then
       io_bind (read_exact 1) (\<lambda>byte_count_raw.
       io_bind (read_exact (unat (byte_count_raw ! 0) + 2)) (\<lambda>body.
         io_return (pre @ byte_count_raw @ body)))
     else if function_code = 0x2B then
       io_bind (read_exact 6) (\<lambda>fixed.
         if fixed ! 0 \<noteq> 0x0E \<or> fixed ! 1 \<noteq> 0x01 then
           io_raise (ModbusProtocolError ''unexpected device-identification RTU header'')
         else io_bind (read_objects (unat (fixed ! 5))) (\<lambda>objects.
           io_bind (read_exact 2) (\<lambda>crc. io_return (pre @ fixed @ objects @ crc))))
     else io_raise (ModbusProtocolError ''unsupported RTU function''))"

definition rtu_check :: "bytes \<Rightarrow> bytes \<Rightarrow> (bytes \<times> bytes) res" where
  "rtu_check pdu response =
    (if \<not> valid_crc response then Inl (ModbusProtocolError ''invalid RTU CRC'')
     else
       let response_pdu = drop 1 (take (length response - 2) response) in
       if response_pdu ! 0 \<noteq> pdu ! 0 then
         Inl (ModbusProtocolError ''Modbus function code mismatch'')
       else Inr (response_pdu, response))"

definition rtu_receive :: "int \<Rightarrow> bytes \<Rightarrow> (bytes \<times> bytes) io" where
  "rtu_receive unit pdu =
    io_bind (read_exact 2) (\<lambda>prefix.
      let unit_id = uint (prefix ! 0); function_code = prefix ! 1 in
      if unit_id \<noteq> unit then io_raise (ModbusProtocolError ''unexpected unit ID'')
      else if function_code AND 0x80 \<noteq> 0 then
        io_bind (read_exact 3) (\<lambda>tail.
          if \<not> valid_crc (prefix @ tail) then io_raise (ModbusProtocolError ''invalid RTU CRC'')
          else io_raise (ModbusDeviceError (unat (function_code AND 0x7F)) (unat (tail ! 0))))
      else io_bind (rtu_read_rest prefix) (\<lambda>response l. (rtu_check pdu response, l)))"

text \<open>The port: what opening it and writing to it raise, if anything, and the line that follows a frame.\<close>

record serial_port =
  sp_open_error :: "py_error option"
  sp_write_error :: "py_error option"
  sp_answer :: "bytes \<Rightarrow> line"

definition close_blocking :: "rtu_client \<Rightarrow> rtu_client" where
  "close_blocking c = c\<lparr>rc_is_open := False\<rparr>"

text \<open>\<open>except (OSError, TimeoutError)\<close>.\<close>

definition is_os_error :: "py_error \<Rightarrow> bool" where
  "is_os_error e = (e = OSError \<or> e = TimeoutError)"

definition exchange_blocking ::
  "serial_port \<Rightarrow> rtu_client \<Rightarrow> bytes \<Rightarrow> bytes \<Rightarrow> rtu_client \<times> (bytes \<times> bytes) res" where
  "exchange_blocking port c pdu frame =
    (case (if rc_is_open c then None else sp_open_error port) of
       Some e \<Rightarrow> (c, Inl e)
     | None \<Rightarrow>
       (let c1 = c\<lparr>rc_is_open := True\<rparr>;
            r = (case sp_write_error port of
                   Some e \<Rightarrow> Inl e
                 | None \<Rightarrow> fst (rtu_receive (rc_unit_id c) pdu (sp_answer port frame)))
        in case r of
             Inl e \<Rightarrow> ((if is_os_error e then close_blocking c1 else c1), Inl e)
           | Inr x \<Rightarrow> (c1, Inr x)))"

definition rtu_request :: "serial_port \<Rightarrow> rtu_client \<Rightarrow> bytes \<Rightarrow> rtu_client \<times> bytes res" where
  "rtu_request port c pdu =
    (if rc_closed c then (c, Inl (RuntimeError ''RTU client is closed''))
     else
       let request = append_crc (word_of_int (rc_unit_id c) # pdu);
           (c1, r) = exchange_blocking port c pdu request;
           response = (case r of Inl _ \<Rightarrow> [] | Inr (p, f) \<Rightarrow> f);
           response_pdu = (case r of Inl _ \<Rightarrow> [] | Inr (p, f) \<Rightarrow> p);
           exchange = mk_exchange Serial (rc_unit_id c) pdu request response response_pdu (err_of r)
       in (c1\<lparr>rc_log := (if rc_observed c then rc_log c1 @ [exchange] else rc_log c1)\<rparr>,
           rbind r (\<lambda>(p, f). Inr p)))"

definition rtu_read_holding_registers :: "serial_port \<Rightarrow> rtu_client \<Rightarrow> int \<Rightarrow> int \<Rightarrow> rtu_client \<times> u16 list res" where
  "rtu_read_holding_registers port c = read_registers (rtu_request port) c 3"

definition rtu_read_input_registers :: "serial_port \<Rightarrow> rtu_client \<Rightarrow> int \<Rightarrow> int \<Rightarrow> rtu_client \<times> u16 list res" where
  "rtu_read_input_registers port c = read_registers (rtu_request port) c 4"

definition rtu_close :: "rtu_client \<Rightarrow> rtu_client" where
  "rtu_close c = (if rc_closed c then c else close_blocking (c\<lparr>rc_closed := True\<rparr>))"

end
