(* ===== verification/Transport_Tcp.thy ===== *)
theory Transport_Tcp
  imports Modbus_Transport
begin

text \<open>
  Facts about the TCP client: its invariant, which byte streams \<open>_request\<close> accepts, and what the
  register reads return end to end.
\<close>

section \<open>The invariant of a client\<close>

definition tcp_ok :: "tcp_client \<Rightarrow> bool" where
  "tcp_ok c \<longleftrightarrow> 1 \<le> tc_unit_id c \<and> tc_unit_id c \<le> 247 \<and>
     0 \<le> tc_transaction_id c \<and> tc_transaction_id c \<le> 0xFFFF"

lemma tcp_client_new_ok: "tcp_client_new unit_id observed = Inr c \<Longrightarrow> tcp_ok c"
  by (auto simp: tcp_client_new_def tcp_ok_def split: if_splits)

lemma tcp_request_unit [simp]: "tc_unit_id (fst (tcp_request net c pdu)) = tc_unit_id c"
  by (simp add: tcp_request_def Let_def)

lemma tcp_request_tid:
  "tc_transaction_id (fst (tcp_request net c pdu)) = (tc_transaction_id c + 1) mod 65536"
  by (simp add: tcp_request_def Let_def and_FFFF)

lemma tcp_request_ok: "tcp_ok c \<Longrightarrow> tcp_ok (fst (tcp_request net c pdu))"
  using tcp_request_tid [of net c pdu] by (simp add: tcp_ok_def)

section \<open>The accepted streams\<close>

lemma length_mbap [simp]: "length (mbap_header tid len unit) = 7"
  by (simp add: mbap_header_def)

lemma uint_mk16_be16:
  "mk16 (be16 w ! 0) (be16 w ! 1) = w"
  by (simp add: be16_def)

lemma be16_mk16: "be16 (mk16 hi lo) = [hi, lo]"
  by (simp add: be16_def)

lemma tcp_read_response_complete:
  assumes "0 \<le> tid" "tid \<le> 0xFFFF" "0 \<le> unit" "unit \<le> 255" "p \<noteq> []" "length p < 65535"
  shows "tcp_read_response tid unit (mbap_header tid (int (length p) + 1) unit @ p @ tail) e
    = Inr (mbap_header tid (int (length p) + 1) unit, p)"
proof -
  let ?h = "mbap_header tid (int (length p) + 1) unit"
  have h: "?h = [ucast (drop_bit 8 (word_of_int tid :: u16)), ucast (word_of_int tid :: u16), 0, 0,
      ucast (drop_bit 8 (word_of_int (int (length p) + 1) :: u16)),
      ucast (word_of_int (int (length p) + 1) :: u16), word_of_int unit]"
    by (simp only: mbap_header_def be16_def append.simps)
  have t: "uint (word_of_int tid :: u16) = tid"
    using assms by (subst uint_word_of_int) simp
  have u: "uint (word_of_int unit :: byte) = unit"
    using assms by (subst uint_word_of_int) simp
  have "uint (word_of_int (int (length p) + 1) :: u16) = int (length p) + 1"
    using assms by (subst uint_word_of_int) simp
  then have l: "unat (word_of_int (int (length p) + 1) :: u16) = length p + 1"
    by (simp only: nat_uint_eq [symmetric])
  have z: "uint (mk16 0 0) = 0" by (simp add: uint_mk16)
  have r: "readexactly 7 (?h @ p @ tail) e = Inr (?h, p @ tail)"
    by (simp add: readexactly_def)
  have i: "?h ! 0 = ucast (drop_bit 8 (word_of_int tid :: u16))" "?h ! 1 = ucast (word_of_int tid :: u16)"
    "?h ! 2 = 0" "?h ! 3 = 0"
    "?h ! 4 = ucast (drop_bit 8 (word_of_int (int (length p) + 1) :: u16))"
    "?h ! 5 = ucast (word_of_int (int (length p) + 1) :: u16)" "?h ! 6 = word_of_int unit"
    by (simp_all only: h numeral_nat pred_numeral_simps One_nat_def nth_Cons_Suc nth_Cons_0)
  have q: "readexactly (length p) (p @ tail) e = Inr (p, tail)" by (simp add: readexactly_def)
  have n: "\<not> length p + 1 < 2" using assms(5) by (cases p) simp_all
  show ?thesis
    unfolding tcp_read_response_def r rbind_Inr prod.case Let_def i mk16_be16 t u l z
    using n q by simp
qed

lemma tcp_read_response_Cons:
  "tcp_read_response tid unit (a # b # c # d # f # g # u # r) e =
    (if uint (mk16 a b) \<noteq> tid \<or> uint (mk16 c d) \<noteq> 0 \<or> uint u \<noteq> unit then
       Inl (ModbusProtocolError ''invalid Modbus TCP response header'')
     else if unat (mk16 f g) < 2 then Inl (ModbusProtocolError ''invalid Modbus TCP response length'')
     else rbind (readexactly (unat (mk16 f g) - 1) r e) (\<lambda>(p, _). Inr ([a, b, c, d, f, g, u], p)))"
proof -
  have "readexactly 7 (a # b # c # d # f # g # u # r) e = Inr ([a, b, c, d, f, g, u], r)"
    unfolding readexactly_def by simp
  then show ?thesis unfolding tcp_read_response_def Let_def
    by (simp only: rbind_Inr prod.case nth_Cons_0 nth_Cons_numeral nth_Cons_Suc One_nat_def
        pred_numeral_simps numeral_nat)
qed

lemma guard_chain:
  assumes "(if P then Inl e1 else if Q then Inl e2
    else rbind (if R then Inr x else Inl e3) (\<lambda>(p, _). Inr (k, p))) = Inr (h, q)"
  shows "\<not> P \<and> \<not> Q \<and> R \<and> h = k \<and> q = fst x"
  using assms by (cases x) (auto split: if_splits)

lemma tcp_read_response_sound:
  assumes "tcp_read_response tid unit input e = Inr (h, p)"
  shows "\<exists>tail. input = h @ p @ tail \<and> h = mbap_header tid (int (length p) + 1) unit \<and>
    p \<noteq> [] \<and> length p < 65535"
proof -
  have l7: "7 \<le> length input"
  proof (rule ccontr)
    assume "\<not> 7 \<le> length input"
    then have "tcp_read_response tid unit input e = Inl e"
      by (simp add: tcp_read_response_def readexactly_def)
    with assms show False by simp
  qed
  then obtain a b c d f g u r where inp: "input = a # b # c # d # f # g # u # r"
    by (auto simp: eval_nat_numeral Suc_le_length_iff)
  let ?len = "unat (mk16 f g)"
  have h: "h = [a, b, c, d, f, g, u]" and tid: "uint (mk16 a b) = tid" and z: "uint (mk16 c d) = 0"
    and un: "uint u = unit" and len: "2 \<le> ?len" and p: "p = take (?len - 1) r"
    and rest: "?len - 1 \<le> length r"
    using guard_chain [OF assms [unfolded inp tcp_read_response_Cons readexactly_def]]
    by (simp_all only: de_Morgan_disj not_not not_less fst_conv)
  have lp: "length p = ?len - 1" using p rest by simp
  have "mk16 c d = mk16 0 0" using z by (intro word_uint_eqI) (simp add: uint_mk16)
  then have cd: "c = 0" "d = 0" by (simp_all add: mk16_inj)
  have "uint (mk16 f g) = int ?len" by (rule uint_nat)
  then have "int (length p) + 1 = uint (mk16 f g)" using lp len by linarith
  then have lw: "word_of_int (int (length p) + 1) = mk16 f g" by (simp only: word_of_int_uint)
  have "h = mbap_header tid (int (length p) + 1) unit"
    unfolding mbap_header_def lw tid [symmetric] un [symmetric] word_of_int_uint be16_mk16
    by (simp add: h cd)
  moreover have "input = h @ p @ drop (?len - 1) r"
    unfolding p h inp by simp
  moreover have "?len < 2 ^ LENGTH(16)" by (rule unsigned_less)
  then have "length p < 65535" using lp len by simp
  moreover have "p \<noteq> []" using lp len by auto
  ultimately show ?thesis by blast
qed

text \<open>The answers \<open>_request\<close> returns: same function code, no exception bit.\<close>

definition good_answer :: "bytes \<Rightarrow> bytes \<Rightarrow> bool" where
  "good_answer pdu p \<longleftrightarrow> p \<noteq> [] \<and> length p < 65535 \<and> p ! 0 AND 0x80 = 0 \<and> p ! 0 = pdu ! 0"

lemma tcp_request_Inr_iff:
  fixes c pdu
  defines "tid \<equiv> (tc_transaction_id c + 1) mod 65536"
  assumes ok: "tcp_ok c"
  shows "snd (tcp_request net c pdu) = Inr p \<longleftrightarrow> good_answer pdu p \<and>
    (\<exists>tail e. net (mbap_header tid (int (length pdu) + 1) (tc_unit_id c) @ pdu)
       = Stream (mbap_header tid (int (length p) + 1) (tc_unit_id c) @ p @ tail) e)"
    (is "?lhs \<longleftrightarrow> _ \<and> (\<exists>tail e. net ?req = Stream (?h @ p @ tail) e)")
proof
  assume a: ?lhs
  then obtain input e h where s: "net ?req = Stream input e"
    and r: "tcp_read_response tid (tc_unit_id c) input e = Inr (h, p)"
    and g: "p \<noteq> []" "p ! 0 AND 0x80 = 0" "p ! 0 = pdu ! 0"
    by (auto simp: tcp_request_def Let_def and_FFFF tid_def rbind_eq_Inr raise_if_exception_def
        split: tcp_conn.splits if_splits)
  obtain tail where "input = ?h @ p @ tail" "length p < 65535"
    using tcp_read_response_sound [OF r] by blast
  with s g show "good_answer pdu p \<and> (\<exists>tail e. net ?req = Stream (?h @ p @ tail) e)"
    unfolding good_answer_def by blast
next
  assume a: "good_answer pdu p \<and> (\<exists>tail e. net ?req = Stream (?h @ p @ tail) e)"
  then obtain tail e where s: "net ?req = Stream (?h @ p @ tail) e" by blast
  have "tcp_read_response tid (tc_unit_id c) (?h @ p @ tail) e = Inr (?h, p)"
    using ok a by (intro tcp_read_response_complete)
      (auto simp: tid_def tcp_ok_def good_answer_def)
  moreover have "raise_if_exception p = Inr ()" "p ! 0 = pdu ! 0"
    using a by (auto simp: good_answer_def raise_if_exception_def)
  ultimately show ?lhs using s
    by (simp add: tcp_request_def Let_def and_FFFF flip: tid_def)
qed

section \<open>Register reads end to end\<close>

text \<open>The request PDU of a read whose arguments passed the checks.\<close>

definition read_pdu :: "int \<Rightarrow> int \<Rightarrow> int \<Rightarrow> bytes" where
  "read_pdu fc address count
    = word_of_int fc # be16 (word_of_int address) @ be16 (word_of_int count)"

definition valid_read :: "int \<Rightarrow> int \<Rightarrow> bool" where
  "valid_read address count \<longleftrightarrow> 0 \<le> address \<and> address \<le> 0xFFFF \<and> 1 \<le> count \<and> count \<le> 125"

lemma read_registers_pdu_ok:
  "fc = 3 \<or> fc = 4 \<Longrightarrow> valid_read address count \<Longrightarrow>
   read_registers_pdu fc address count = Inr (read_pdu fc address count)"
  by (auto simp: read_registers_pdu_def valid_read_def read_pdu_def)

lemma read_registers_pdu_err:
  "fc = 3 \<or> fc = 4 \<Longrightarrow> \<not> valid_read address count \<Longrightarrow>
   \<exists>m. read_registers_pdu fc address count = Inl (ValueError m)"
  by (auto simp: read_registers_pdu_def valid_read_def)

lemma length_read_pdu [simp]: "length (read_pdu fc a n) = 5"
  by (simp add: read_pdu_def)

lemma length_register_response [simp]: "length (register_response fc ws) = 2 + 2 * length ws"
  by (simp add: register_response_def)

lemma good_register_response:
  assumes "fc = 3 \<or> fc = 4" "length ws \<le> 125"
  shows "good_answer (read_pdu fc a n) (register_response fc ws)"
  using assms by (auto simp: good_answer_def register_response_def read_pdu_def)

lemma read_registers_Inr:
  assumes "fc = 3 \<or> fc = 4"
  shows "snd (read_registers request c fc address count) = Inr ws \<longleftrightarrow>
    valid_read address count \<and> int (length ws) = count \<and>
    snd (request c (read_pdu fc address count)) = Inr (register_response fc ws)"
proof (cases "valid_read address count")
  case True
  have f: "0 \<le> fc" "fc < 256" using assms by auto
  have "snd (read_registers request c fc address count)
      = rbind (snd (request c (read_pdu fc address count))) (\<lambda>r. parse_register_response r fc count)"
    using read_registers_pdu_ok [OF assms True] by (simp add: read_registers_def split: prod.split)
  then show ?thesis using True
    by (auto simp: rbind_eq_Inr parse_register_response_iff [OF f] valid_read_def)
next
  case False
  with read_registers_pdu_err [OF assms False] show ?thesis by (auto simp: read_registers_def)
qed

lemma tcp_read_registers_Inr:
  fixes c
  defines "tid \<equiv> (tc_transaction_id c + 1) mod 65536"
  assumes "tcp_ok c" "fc = 3 \<or> fc = 4"
  shows "snd (read_registers (tcp_request net) c fc address count) = Inr ws \<longleftrightarrow>
    valid_read address count \<and> int (length ws) = count \<and>
    (\<exists>tail e. net (mbap_header tid 6 (tc_unit_id c) @ read_pdu fc address count)
      = Stream (mbap_header tid (2 * count + 3) (tc_unit_id c) @ register_response fc ws @ tail) e)"
proof -
  have l: "int (length (read_pdu fc address count)) + 1 = 6" by simp
  have m: "int (length (register_response fc ws)) + 1 = 2 * int (length ws) + 3" by simp
  show ?thesis
    unfolding read_registers_Inr [OF assms(3)] tcp_request_Inr_iff [OF assms(2)] l m tid_def
    using good_register_response [OF assms(3), of ws address count]
    by (auto simp: valid_read_def)
qed

section \<open>Properties\<close>

text \<open>C1: \<open>read_holding_registers\<close> over TCP returns words exactly when the arguments are a legal
  read and the peer answers the request it was sent, under the client's fresh transaction id
  and unit, with a holding-register response that carries that many words; then the words it
  returns are the ones on the wire.\<close>

theorem tcp_read_holding_exact:
  assumes "tcp_ok c" and "tid = (tc_transaction_id c + 1) mod 65536"
  shows "snd (tcp_read_holding_registers net c address count) = Inr ws \<longleftrightarrow>
    valid_read address count \<and> int (length ws) = count \<and>
    (\<exists>tail e. net (mbap_header tid 6 (tc_unit_id c) @ read_pdu 3 address count)
      = Stream (mbap_header tid (2 * count + 3) (tc_unit_id c) @ register_response 3 ws @ tail) e)"
  unfolding tcp_read_holding_registers_def assms(2)
  by (rule tcp_read_registers_Inr [OF assms(1)]) simp

theorem tcp_read_holding_exact_witness:
  "snd (tcp_read_holding_registers
      (\<lambda>_. Stream (mbap_header 1 5 7 @ register_response 3 [0x1234] @ []) TimeoutError)
      \<lparr>tc_unit_id = 7, tc_transaction_id = 0, tc_observed = False, tc_log = []\<rparr> 8 1) = Inr [0x1234]"
  by (subst tcp_read_holding_exact [where tid = 1]) (auto simp: tcp_ok_def valid_read_def)

text \<open>A client's life: any number of requests, each to a network of its own.\<close>

fun tcp_session :: "tcp_client \<Rightarrow> (network \<times> bytes) list \<Rightarrow> tcp_client" where
  "tcp_session c [] = c"
| "tcp_session c ((net, pdu) # rs) = tcp_session (fst (tcp_request net c pdu)) rs"

lemma tcp_request_log:
  "tc_observed c \<Longrightarrow> \<exists>x. tc_log (fst (tcp_request net c pdu)) = tc_log c @ [x] \<and>
     ex_request_pdu_hex x = bytes_hex pdu \<and> ex_error x = err_of (snd (tcp_request net c pdu))"
  by (simp add: tcp_request_def Let_def mk_exchange_def)

lemma tcp_request_observed [simp]: "tc_observed (fst (tcp_request net c pdu)) = tc_observed c"
  by (simp add: tcp_request_def Let_def)

text \<open>C2: over any sequence of requests, failed ones included, the transaction id advances by one
  per request and wraps at 16 bits, the invariant of the client holds, and the observer has seen
  exactly one exchange per request, in order.\<close>

theorem tcp_session_accounting:
  assumes "tcp_ok c" and "tc_observed c"
  shows "tcp_ok (tcp_session c rs) \<and>
    tc_transaction_id (tcp_session c rs) = (tc_transaction_id c + int (length rs)) mod 65536 \<and>
    map ex_request_pdu_hex (tc_log (tcp_session c rs))
      = map ex_request_pdu_hex (tc_log c) @ map (\<lambda>(net, pdu). bytes_hex pdu) rs"
  using assms
proof (induction rs arbitrary: c)
  case Nil
  then show ?case by (simp add: tcp_ok_def)
next
  case (Cons r rs)
  obtain net pdu where r: "r = (net, pdu)" by (cases r)
  obtain x where x: "tc_log (fst (tcp_request net c pdu)) = tc_log c @ [x]"
    "ex_request_pdu_hex x = bytes_hex pdu"
    using tcp_request_log [OF Cons.prems(2)] by blast
  have "((tc_transaction_id c + 1) mod 65536 + int (length rs)) mod 65536
      = (tc_transaction_id c + (1 + int (length rs))) mod 65536"
    by (simp add: mod_add_left_eq add.assoc)
  then show ?case
    using Cons.IH [of "fst (tcp_request net c pdu)"] Cons.prems x tcp_request_ok
    by (simp add: r tcp_request_tid)
qed

theorem tcp_session_accounting_witness:
  "tc_transaction_id (tcp_session
     \<lparr>tc_unit_id = 1, tc_transaction_id = 65534, tc_observed = True, tc_log = []\<rparr>
     [(\<lambda>_. Refused OSError, [3]), (\<lambda>_. Refused OSError, [4]), (\<lambda>_. Refused OSError, [4])]) = 1"
  by (subst tcp_session_accounting) (simp_all add: tcp_ok_def)

end
