(* ===== verification/Transport_Rtu.thy ===== *)
theory Transport_Rtu
  imports Transport_Tcp
begin

text \<open>
  Facts about the RTU client: whatever the timing of the driver, \<open>read_exact\<close> delivers the bytes
  of the bus in order and in the asked number; \<open>rtu_receive\<close> returns only whole frames with a
  valid checksum, the client's unit and the asked function; and a register read succeeds under
  every schedule that keeps delivering.  A session is a sequence of requests over one client, whose port is left open
  unless the last one ended in a timeout or an operating-system error.
\<close>

named_theorems io_simps \<open>unfolding of the reader's operations\<close>

declare io_bind_def [io_simps] io_return_def [io_simps] io_raise_def [io_simps]

lemma io_bind_Inr:
  "io_bind m f l = (Inr y, l') \<longleftrightarrow> (\<exists>x l1. m l = (Inr x, l1) \<and> f x l1 = (Inr y, l'))"
  by (auto simp: io_bind_def split: sum.splits prod.splits)

section \<open>\<open>_read_exact\<close>\<close>

lemma read_loop_sound:
  assumes "read_loop need payload pending ts = (Inr r, pending', ts')" "length payload \<le> need"
  shows "\<exists>used. pending = used @ pending' \<and> r = payload @ used \<and> length r = need"
  using assms
proof (induction need payload pending ts rule: read_loop.induct)
  case (2 need payload pending t ts)
  show ?case
  proof (cases "need \<le> length payload")
    case True
    with 2 show ?thesis by auto
  next
    case False
    with 2(2) obtain n where t: "t = Chunk n" by (cases t) auto
    let ?k = "min n (min (need - length payload) (length pending))"
    have s: "read_loop need (payload @ take ?k pending) (drop ?k pending) ts
        = (Inr r, pending', ts')"
      using 2(2) False t by (simp add: Let_def)
    have "length (payload @ take ?k pending) \<le> need" using False by simp
    with 2(1) [OF False t refl s] obtain used where
      "drop ?k pending = used @ pending'" "r = (payload @ take ?k pending) @ used" "length r = need"
      by blast
    then show ?thesis
      by (intro exI [of _ "take ?k pending @ used"]) (metis append.assoc append_take_drop_id)
  qed
qed (auto split: if_splits)

lemma read_exact_sound:
  assumes "read_exact n l = (Inr bs, l')"
  shows "ln_pending l = bs @ ln_pending l' \<and> length bs = n"
  using assms read_loop_sound [of n "[]" "ln_pending l" "ln_ticks l" bs "ln_pending l'" "ln_ticks l'"]
  by (auto simp: read_exact_def Let_def split: prod.splits)

text \<open>A failure of \<open>read_exact\<close> is the deadline or the driver, nothing else.\<close>

lemma read_loop_error:
  "read_loop need payload pending ts = (Inl e, pending', ts') \<Longrightarrow> e = TimeoutError \<or> e = OSError"
  by (induction need payload pending ts rule: read_loop.induct)
    (auto simp: Let_def split: if_splits tick.splits)

lemma read_exact_error: "read_exact n l = (Inl e, l') \<Longrightarrow> is_os_error e"
  by (auto simp: read_exact_def Let_def is_os_error_def dest: read_loop_error split: prod.splits)

text \<open>A steady schedule: every pass delivers at least one byte.\<close>

fun delivers :: "tick \<Rightarrow> bool" where
  "delivers (Chunk n) = (0 < n)"
| "delivers _ = False"

definition steady :: "tick list \<Rightarrow> bool" where
  "steady ts = list_all delivers ts"

lemma read_loop_steady:
  assumes "steady ts" "length payload \<le> need" "need - length payload \<le> length pending"
    "need - length payload \<le> length ts"
  shows "\<exists>ts'. read_loop need payload pending ts =
      (Inr (payload @ take (need - length payload) pending), drop (need - length payload) pending, ts')
    \<and> steady ts' \<and> length ts \<le> length ts' + (need - length payload)"
  using assms
proof (induction need payload pending ts rule: read_loop.induct)
  case (1 need payload pending)
  then show ?case by simp
next
  case (2 need payload pending t ts)
  show ?case
  proof (cases "need \<le> length payload")
    case True
    with 2 show ?thesis by simp
  next
    case False
    from 2(2) obtain n where t: "t = Chunk n" "0 < n" by (cases t) (auto simp: steady_def)
    let ?d = "need - length payload"
    obtain k where kd: "k = min n (min ?d (length pending))" by blast
    have k: "0 < k" "k \<le> ?d" "k \<le> length pending" unfolding kd using t False 2(4) by auto
    have st: "steady ts" using 2(2) by (simp add: steady_def)
    have lp: "length (payload @ take k pending) = length payload + k" using k(3) by simp
    have e: "need - length (payload @ take k pending) = ?d - k" unfolding lp by simp
    have a1: "length (payload @ take k pending) \<le> need" unfolding lp using k(2) False by simp
    have a2: "?d - k \<le> length (drop k pending)" using 2(4) by simp
    have a3: "?d - k \<le> length ts" using 2(5) k(1) by simp
    have s: "read_loop need payload pending (t # ts)
        = read_loop need (payload @ take k pending) (drop k pending) ts"
      using False t by (simp add: Let_def kd)
    from 2(1) [OF False t(1) kd st a1 a2 [folded e] a3 [folded e], unfolded e]
    obtain ts' where r: "read_loop need (payload @ take k pending) (drop k pending) ts =
        (Inr ((payload @ take k pending) @ take (?d - k) (drop k pending)),
         drop (?d - k) (drop k pending), ts')" "steady ts'" "length ts \<le> length ts' + (?d - k)"
      by blast
    have j: "take k pending @ take (?d - k) (drop k pending) = take ?d pending"
      using take_add [of k "?d - k" pending] unfolding le_add_diff_inverse [OF k(2)] by (rule sym)
    have j2: "drop (?d - k) (drop k pending) = drop ?d pending"
      unfolding drop_drop le_add_diff_inverse2 [OF k(2)] by (rule refl)
    have "length (t # ts) \<le> length ts' + ?d" using r(3) k(1,2) by simp
    then show ?thesis
      using r(2) unfolding s r(1) j2 append.assoc j by blast
  qed
qed

lemma read_exact_steady:
  assumes "steady (ln_ticks l)" "ln_pending l = bs @ rest" "length bs = n" "n \<le> length (ln_ticks l)"
  shows "\<exists>ts. read_exact n l = (Inr bs, \<lparr>ln_pending = rest, ln_ticks = ts\<rparr>) \<and> steady ts \<and>
    length (ln_ticks l) \<le> length ts + n"
  using read_loop_steady [OF assms(1), of "[]" n "ln_pending l"] assms
  by (auto simp: read_exact_def)

section \<open>Receiving a frame\<close>

lemma read_objects_sound:
  "read_objects n l = (Inr bs, l') \<Longrightarrow> ln_pending l = bs @ ln_pending l'"
proof (induction n arbitrary: l bs)
  case 0
  then show ?case by (simp add: io_simps)
next
  case (Suc n)
  then obtain h b r l1 l2 where "read_exact 2 l = (Inr h, l1)"
    and "read_exact (unat (h ! 1)) l1 = (Inr b, l2)"
    and "read_objects n l2 = (Inr r, l')" and "bs = h @ b @ r"
    by (auto simp: io_bind_Inr io_return_def)
  then show ?case using Suc.IH read_exact_sound by fastforce
qed

text \<open>What a frame the receiver accepts looks like.\<close>

definition good_frame :: "int \<Rightarrow> bytes \<Rightarrow> bytes \<Rightarrow> bytes \<Rightarrow> bool" where
  "good_frame unit pdu p f \<longleftrightarrow> valid_crc f \<and> 4 \<le> length f \<and> uint (f ! 0) = unit \<and>
     p = drop 1 (take (length f - 2) f) \<and> p ! 0 = pdu ! 0 \<and> f ! 1 \<in> {3, 4, 0x2B}"

lemma rtu_check_Inr:
  "rtu_check pdu f = Inr (p, g) \<longleftrightarrow>
    valid_crc f \<and> g = f \<and> p = drop 1 (take (length f - 2) f) \<and> p ! 0 = pdu ! 0"
  by (auto simp: rtu_check_def Let_def)

lemma io_raise_not_Inr [simp]: "io_raise e l \<noteq> (Inr x, l')"
  by (simp add: io_raise_def)

lemma rtu_read_rest_sound:
  assumes "rtu_read_rest pre l = (Inr f, l')"
  shows "\<exists>body. ln_pending l = body @ ln_pending l' \<and> f = pre @ body \<and> 2 \<le> length body \<and>
    pre ! 1 \<in> {3, 4, 0x2B}"
proof (cases "pre ! 1 = 3 \<or> pre ! 1 = 4")
  case True
  then have "rtu_read_rest pre = io_bind (read_exact 1) (\<lambda>bc.
       io_bind (read_exact (unat (bc ! 0) + 2)) (\<lambda>body. io_return (pre @ bc @ body)))"
    by (simp add: rtu_read_rest_def)
  with assms obtain bc body l1 where r: "read_exact 1 l = (Inr bc, l1)"
    "read_exact (unat (bc ! 0) + 2) l1 = (Inr body, l')" "f = pre @ bc @ body"
    by (auto simp: io_bind_Inr io_return_def)
  show ?thesis
    using read_exact_sound [OF r(1)] read_exact_sound [OF r(2)] r(3) True
    by (intro exI [of _ "bc @ body"]) auto
next
  case False
  then have k: "pre ! 1 = 0x2B" using assms by (auto simp: rtu_read_rest_def Let_def split: if_splits)
  obtain fx l1 where fx: "read_exact 6 l = (Inr fx, l1)"
    and r: "(if fx ! 0 \<noteq> 0x0E \<or> fx ! 1 \<noteq> 0x01 then
           io_raise (ModbusProtocolError ''unexpected device-identification RTU header'')
         else io_bind (read_objects (unat (fx ! 5))) (\<lambda>objects.
           io_bind (read_exact 2) (\<lambda>crc. io_return (pre @ fx @ objects @ crc)))) l1 = (Inr f, l')"
    using assms False k by (simp add: rtu_read_rest_def io_bind_Inr) blast
  from r obtain ob l2 cr where q: "read_objects (unat (fx ! 5)) l1 = (Inr ob, l2)"
    "read_exact 2 l2 = (Inr cr, l')" "f = pre @ fx @ ob @ cr"
    by (auto simp: io_bind_Inr io_return_def split: if_splits)
  show ?thesis
    using read_exact_sound [OF fx] read_objects_sound [OF q(1)] read_exact_sound [OF q(2)] q(3) k
    by (intro exI [of _ "fx @ ob @ cr"]) simp
qed

lemma rtu_receive_sound:
  assumes "rtu_receive unit pdu l = (Inr (p, f), l')"
  shows "ln_pending l = f @ ln_pending l' \<and> good_frame unit pdu p f"
proof -
  obtain pre l1 where pre: "read_exact 2 l = (Inr pre, l1)"
    and k: "(if uint (pre ! 0) \<noteq> unit then io_raise (ModbusProtocolError ''unexpected unit ID'')
      else if pre ! 1 AND 0x80 \<noteq> 0 then
        io_bind (read_exact 3) (\<lambda>tail.
          if \<not> valid_crc (pre @ tail) then io_raise (ModbusProtocolError ''invalid RTU CRC'')
          else io_raise (ModbusDeviceError (unat (pre ! 1 AND 0x7F)) (unat (tail ! 0))))
      else io_bind (rtu_read_rest pre) (\<lambda>response l. (rtu_check pdu response, l))) l1
      = (Inr (p, f), l')"
    using assms unfolding rtu_receive_def io_bind_Inr [of "read_exact 2"] Let_def by blast
  from k have u: "uint (pre ! 0) = unit" by (simp split: if_splits)
  with k have x: "pre ! 1 AND 0x80 = 0" by (auto simp: io_bind_Inr split: if_splits)
  from k u x obtain g where g: "rtu_read_rest pre l1 = (Inr g, l')" "rtu_check pdu g = Inr (p, f)"
    by (auto simp: io_bind_Inr)
  obtain body where b: "ln_pending l1 = body @ ln_pending l'" "g = pre @ body" "2 \<le> length body"
    "pre ! 1 \<in> {3, 4, 0x2B}"
    using rtu_read_rest_sound [OF g(1)] by blast
  have P: "ln_pending l = pre @ ln_pending l1" "length pre = 2"
    using read_exact_sound [OF pre] by simp_all
  have c: "valid_crc f" "g = f" "p = drop 1 (take (length f - 2) f)" "p ! 0 = pdu ! 0"
    using g(2) by (auto simp: rtu_check_Inr)
  have "f ! 0 = pre ! 0" "f ! 1 = pre ! 1" using b(2) c(2) P(2) by (simp_all add: nth_append)
  with P b c u show ?thesis unfolding good_frame_def by simp
qed

text \<open>A register answer read in three pieces.\<close>

lemma rtu_receive_register:
  assumes "read_exact 2 l = (Inr [a, b], l1)" "read_exact 1 l1 = (Inr [n], l2)"
    "read_exact (unat n + 2) l2 = (Inr body, l3)" "uint a = unit" "b = 3 \<or> b = 4"
    "rtu_check pdu ([a, b] @ [n] @ body) = Inr x"
  shows "rtu_receive unit pdu l = (Inr x, l3)"
proof -
  have r: "rtu_read_rest [a, b] l1 = (Inr ([a, b] @ [n] @ body), l3)"
    using assms(5) by (simp add: rtu_read_rest_def io_bind_def io_return_def assms(2) [simplified]
        assms(3) [simplified])
  have z: "b AND 0x80 = 0" using assms(5) by auto
  show ?thesis
    unfolding rtu_receive_def io_bind_def [of "read_exact 2"] assms(1) prod.case sum.case Let_def
    using assms(4,6) z r by (simp add: io_bind_def)
qed

lemma rtu_receive_steady:
  assumes fc: "fc = 3 \<or> fc = 4" and n: "length ws \<le> 125" and u: "0 \<le> unit" "unit \<le> 255"
    and f: "f = append_crc (word_of_int unit # register_response fc ws)"
    and l: "ln_pending l = f @ rest" "steady (ln_ticks l)" "length f \<le> length (ln_ticks l)"
    and p: "pdu ! 0 = word_of_int fc"
  shows "fst (rtu_receive unit pdu l) = Inr (register_response fc ws, f)"
proof -
  obtain a b n' body where ab: "a = (word_of_int unit :: byte)" "b = (word_of_int fc :: byte)"
    and n': "n' = (word_of_int (2 * int (length ws)) :: byte)"
    and body: "body = pack_words ws @
      le16 (word_of_int (crc16 (word_of_int unit # register_response fc ws)))" by blast
  have f': "f = [a, b] @ [n'] @ body"
    by (simp only: f append_crc_def register_response_def append.simps ab n' body)
  have lb: "length body = 2 * length ws + 2" unfolding body by simp
  have "uint n' = 2 * int (length ws)" unfolding n' using n by (subst uint_word_of_int) simp
  then have un: "unat n' = 2 * length ws" by (simp only: nat_uint_eq [symmetric])
  have ua: "uint a = unit" unfolding ab using u by (subst uint_word_of_int) simp
  have b34: "b = 3 \<or> b = 4" unfolding ab using fc by auto
  have lf: "length f = 2 * length ws + 5" unfolding f' using lb by simp
  have e1: "ln_pending l = [a, b] @ [n'] @ body @ rest" using l(1) by (simp add: f')
  obtain l1 where r1: "read_exact 2 l = (Inr [a, b], l1)" "steady (ln_ticks l1)"
    "ln_pending l1 = [n'] @ body @ rest" "length (ln_ticks l) \<le> length (ln_ticks l1) + 2"
    using read_exact_steady [OF l(2) e1, of 2] l(3) lf by auto
  obtain l2 where r2: "read_exact 1 l1 = (Inr [n'], l2)" "steady (ln_ticks l2)"
    "ln_pending l2 = body @ rest" "length (ln_ticks l1) \<le> length (ln_ticks l2) + 1"
    using read_exact_steady [OF r1(2,3), of 1] r1(4) l(3) lf by auto
  obtain l3 where r3: "read_exact (unat n' + 2) l2 = (Inr body, l3)"
    using read_exact_steady [OF r2(2,3), of "unat n' + 2"] r1(4) r2(4) l(3) lf lb un by auto
  have v: "valid_crc f" unfolding f by (rule append_crc_valid) simp
  have d: "drop 1 (take (length f - 2) f) = register_response fc ws"
    unfolding f append_crc_def by simp
  have "rtu_check pdu f = Inr (register_response fc ws, f)"
    using v d p unfolding rtu_check_Inr by (simp add: register_response_def)
  then show ?thesis
    using rtu_receive_register [OF r1(1) r2(1) r3 ua b34] unfolding f' by simp
qed

section \<open>Requests and the state of the port\<close>

definition rtu_ok :: "rtu_client \<Rightarrow> bool" where
  "rtu_ok c \<longleftrightarrow> 1 \<le> rc_unit_id c \<and> rc_unit_id c \<le> 247 \<and> (rc_closed c \<longrightarrow> \<not> rc_is_open c)"

lemma rtu_client_new_ok: "rtu_client_new unit_id stop observed = Inr c \<Longrightarrow> rtu_ok c"
  by (auto simp: rtu_client_new_def rtu_ok_def split: if_splits)

lemma rtu_close_ok: "rtu_ok c \<Longrightarrow> rtu_ok (rtu_close c)"
  by (auto simp: rtu_ok_def rtu_close_def close_blocking_def)

lemma exchange_blocking_fields:
  "rc_unit_id (fst (exchange_blocking port c pdu frame)) = rc_unit_id c"
  "rc_closed (fst (exchange_blocking port c pdu frame)) = rc_closed c"
  "rc_observed (fst (exchange_blocking port c pdu frame)) = rc_observed c"
  "rc_log (fst (exchange_blocking port c pdu frame)) = rc_log c"
  by (auto simp: exchange_blocking_def close_blocking_def Let_def split: option.splits sum.splits)

lemma rtu_request_ok: "rtu_ok c \<Longrightarrow> rtu_ok (fst (rtu_request port c pdu))"
  using exchange_blocking_fields [of port c pdu "append_crc (word_of_int (rc_unit_id c) # pdu)"]
  by (auto simp: rtu_request_def rtu_ok_def Let_def split: prod.splits)

lemma rtu_request_Inr:
  "snd (rtu_request port c pdu) = Inr p \<longleftrightarrow>
    \<not> rc_closed c \<and> (rc_is_open c \<or> sp_open_error port = None) \<and> sp_write_error port = None \<and>
    (\<exists>f. fst (rtu_receive (rc_unit_id c) pdu
        (sp_answer port (append_crc (word_of_int (rc_unit_id c) # pdu)))) = Inr (p, f))"
  by (auto simp: rtu_request_def exchange_blocking_def Let_def rbind_eq_Inr
      split: prod.splits option.splits sum.splits if_splits)

section \<open>Properties\<close>

text \<open>\<open>_read_exact\<close> does not depend on how the driver cuts the bytes into reads: whenever it
  returns it has taken exactly the asked number of bytes off the line, in order; when it fails
  the exception is the deadline or an operating-system error; and every schedule whose reads
  deliver makes it return once enough bytes are there.\<close>

theorem read_exact_chunking:
  "(fst (read_exact n l) = Inr bs \<longrightarrow>
      ln_pending l = bs @ ln_pending (snd (read_exact n l)) \<and> length bs = n) \<and>
   (fst (read_exact n l) = Inl e \<longrightarrow> e = TimeoutError \<or> e = OSError) \<and>
   (steady (ln_ticks l) \<and> n \<le> length (ln_pending l) \<and> n \<le> length (ln_ticks l) \<longrightarrow>
      fst (read_exact n l) = Inr (take n (ln_pending l)))"
proof (intro conjI impI)
  assume "fst (read_exact n l) = Inr bs"
  then have "read_exact n l = (Inr bs, snd (read_exact n l))" by (cases "read_exact n l") simp
  from read_exact_sound [OF this]
  show "ln_pending l = bs @ ln_pending (snd (read_exact n l))" "length bs = n" by simp_all
next
  assume "fst (read_exact n l) = Inl e"
  then have "read_exact n l = (Inl e, snd (read_exact n l))" by (cases "read_exact n l") simp
  from read_exact_error [OF this] show "e = TimeoutError \<or> e = OSError"
    by (auto simp: is_os_error_def)
next
  assume a: "steady (ln_ticks l) \<and> n \<le> length (ln_pending l) \<and> n \<le> length (ln_ticks l)"
  then have "ln_pending l = take n (ln_pending l) @ drop n (ln_pending l)" by simp
  from read_exact_steady [OF _ this, of n] a
  show "fst (read_exact n l) = Inr (take n (ln_pending l))" by auto
qed

theorem read_exact_chunking_witness:
  "fst (read_exact 3 \<lparr>ln_pending = [1, 2, 3, 4], ln_ticks = [Chunk 1, Chunk 9, Chunk 2]\<rparr>)
     = Inr [1, 2, 3]"
  using read_exact_chunking [of 3 "\<lparr>ln_pending = [1, 2, 3, 4], ln_ticks = [Chunk 1, Chunk 9, Chunk 2]\<rparr>"]
  by (simp add: steady_def)

text \<open>C3: an RTU request returns a PDU only from a whole frame taken off the front of the line
  whose checksum is valid, whose unit is the client's, whose function code is the asked one and
  a supported one, and whose content between unit and checksum is that PDU.\<close>

theorem rtu_request_sound:
  assumes "snd (rtu_request port c pdu) = Inr p"
  shows "\<exists>f rest. ln_pending (sp_answer port (append_crc (word_of_int (rc_unit_id c) # pdu))) = f @ rest \<and>
    valid_crc f \<and> uint (f ! 0) = rc_unit_id c \<and> f ! 1 \<in> {3, 4, 0x2B} \<and>
    p = drop 1 (take (length f - 2) f) \<and> p ! 0 = pdu ! 0"
proof -
  let ?l = "sp_answer port (append_crc (word_of_int (rc_unit_id c) # pdu))"
  obtain f where "fst (rtu_receive (rc_unit_id c) pdu ?l) = Inr (p, f)"
    using assms unfolding rtu_request_Inr by blast
  then have "rtu_receive (rc_unit_id c) pdu ?l = (Inr (p, f), snd (rtu_receive (rc_unit_id c) pdu ?l))"
    by (cases "rtu_receive (rc_unit_id c) pdu ?l") simp
  from rtu_receive_sound [OF this] show ?thesis by (auto simp: good_frame_def)
qed

theorem rtu_request_sound_witness:
  "\<exists>f rest. append_crc [1, 3, 2, 0x0D, 0x05] @ [0xFF] = f @ rest \<and> valid_crc f \<and>
    uint (f ! 0) = 1 \<and> f ! 1 \<in> {3, 4, 0x2B} \<and>
    [3, 2, 0x0D, 0x05] = drop 1 (take (length f - 2) f) \<and> [3, 2, 0x0D, 0x05 :: byte] ! 0 = [3, 0, 8, 0, 1] ! 0"
proof -
  let ?port = "\<lparr>sp_open_error = None, sp_write_error = None,
      sp_answer = \<lambda>_. \<lparr>ln_pending = append_crc [1, 3, 2, 0x0D, 0x05] @ [0xFF], ln_ticks = replicate 7 (Chunk 3)\<rparr>\<rparr>"
  let ?c = "\<lparr>rc_unit_id = 1, rc_stop_bits = 2, rc_is_open = False, rc_closed = False,
      rc_observed = False, rc_log = []\<rparr>"
  have "snd (rtu_request ?port ?c [3, 0, 8, 0, 1]) = Inr [3, 2, 0x0D, 0x05]" by code_simp
  from rtu_request_sound [OF this] show ?thesis by simp
qed

text \<open>C4: over RTU a legal register read of a device that answers the frame it was sent with its
  words returns exactly these words, for every schedule of the driver that delivers and lasts,
  whether the port was open or has to be opened.\<close>

theorem rtu_read_holding_complete:
  assumes "rtu_ok c" "\<not> rc_closed c" "sp_open_error port = None" "sp_write_error port = None"
    and "valid_read address (int (length ws))"
    and "sp_answer port (append_crc (word_of_int (rc_unit_id c) # read_pdu 3 address (int (length ws)))) = l"
    and "ln_pending l = append_crc (word_of_int (rc_unit_id c) # register_response 3 ws) @ rest"
    and "steady (ln_ticks l)" "2 * length ws + 5 \<le> length (ln_ticks l)"
  shows "snd (rtu_read_holding_registers port c address (int (length ws))) = Inr ws"
proof -
  let ?f = "append_crc (word_of_int (rc_unit_id c) # register_response 3 ws)"
  have lf: "length ?f = 2 * length ws + 5" by (simp add: append_crc_def)
  have n: "length ws \<le> 125" using assms(5) by (simp add: valid_read_def)
  have u: "0 \<le> rc_unit_id c" "rc_unit_id c \<le> 255" using assms(1) by (simp_all add: rtu_ok_def)
  have "fst (rtu_receive (rc_unit_id c) (read_pdu 3 address (int (length ws))) l)
      = Inr (register_response 3 ws, ?f)"
    using assms(7-9) lf by (intro rtu_receive_steady [OF _ n u refl]) (simp_all add: read_pdu_def)
  then show ?thesis
    using assms(2-6) unfolding rtu_read_holding_registers_def
    by (simp add: read_registers_Inr rtu_request_Inr)
qed

theorem rtu_read_holding_complete_witness:
  "snd (rtu_read_holding_registers
     \<lparr>sp_open_error = None, sp_write_error = None,
      sp_answer = \<lambda>_. \<lparr>ln_pending = append_crc (word_of_int 1 # register_response 3 [0x0D05]) @ [],
                       ln_ticks = replicate 7 (Chunk 3)\<rparr>\<rparr>
     \<lparr>rc_unit_id = 1, rc_stop_bits = 2, rc_is_open = False, rc_closed = False,
      rc_observed = False, rc_log = []\<rparr> 8 (int (length [0x0D05 :: u16]))) = Inr [0x0D05]"
  by (rule rtu_read_holding_complete [OF _ _ _ _ _ refl, where rest = "[]"])
    (simp_all add: rtu_ok_def valid_read_def steady_def numeral_eq_Suc)

text \<open>Sequences of requests, each with the port and the device as they are at that moment.\<close>

fun rtu_session :: "rtu_client \<Rightarrow> (serial_port \<times> bytes) list \<Rightarrow> rtu_client \<times> bytes res list" where
  "rtu_session c [] = (c, [])"
| "rtu_session c ((port, pdu) # steps) =
    (let (c1, r) = rtu_request port c pdu; (c2, rs) = rtu_session c1 steps in (c2, r # rs))"

text \<open>What the line answers to a request of a unit, as a client that has just opened the port sees it.\<close>

definition line_result :: "int \<Rightarrow> serial_port \<Rightarrow> bytes \<Rightarrow> bytes res" where
  "line_result unit port pdu =
    (case sp_write_error port of
       Some e \<Rightarrow> Inl e
     | None \<Rightarrow> rbind (fst (rtu_receive unit pdu (sp_answer port (append_crc (word_of_int unit # pdu)))))
         (\<lambda>(p, f). Inr p))"

lemma rtu_request_step:
  assumes "rtu_request port c pdu = (c1, r)" "\<not> rc_closed c"
    and "sp_open_error port \<in> {None, Some TimeoutError, Some OSError}"
  shows "r = (case sp_open_error port of
      Some e \<Rightarrow> if rc_is_open c then line_result (rc_unit_id c) port pdu else Inl e
    | None \<Rightarrow> line_result (rc_unit_id c) port pdu)"
    and "rc_is_open c1 \<longleftrightarrow> r \<noteq> Inl TimeoutError \<and> r \<noteq> Inl OSError"
    and "rc_unit_id c1 = rc_unit_id c" "\<not> rc_closed c1" "rc_observed c1 = rc_observed c"
    and "rc_observed c \<Longrightarrow> \<exists>x. rc_log c1 = rc_log c @ [x] \<and>
      ex_request_pdu_hex x = bytes_hex pdu \<and> ex_error x = err_of r"
proof -
  let ?frame = "append_crc (word_of_int (rc_unit_id c) # pdu)"
  obtain c0 q where e: "exchange_blocking port c pdu ?frame = (c0, q)" by fastforce
  have f: "rc_unit_id c0 = rc_unit_id c" "rc_closed c0 = rc_closed c" "rc_observed c0 = rc_observed c"
    "rc_log c0 = rc_log c"
    using exchange_blocking_fields [of port c pdu ?frame] unfolding e by simp_all
  have r: "r = rbind q (\<lambda>(p, f). Inr p)" and i: "rc_is_open c1 = rc_is_open c0"
    using assms(1,2) by (auto simp: rtu_request_def e Let_def)
  show "rc_unit_id c1 = rc_unit_id c" "\<not> rc_closed c1" "rc_observed c1 = rc_observed c"
    using assms(1,2) f by (auto simp: rtu_request_def e Let_def)
  show "rc_observed c \<Longrightarrow> \<exists>x. rc_log c1 = rc_log c @ [x] \<and>
      ex_request_pdu_hex x = bytes_hex pdu \<and> ex_error x = err_of r"
    using assms(1,2) f by (cases q) (auto simp: rtu_request_def e Let_def mk_exchange_def err_of_def)
  show "r = (case sp_open_error port of
      Some e \<Rightarrow> if rc_is_open c then line_result (rc_unit_id c) port pdu else Inl e
    | None \<Rightarrow> line_result (rc_unit_id c) port pdu)"
    using e unfolding r line_result_def exchange_blocking_def Let_def
    by (auto split: option.splits sum.splits if_splits)
  show "rc_is_open c1 \<longleftrightarrow> r \<noteq> Inl TimeoutError \<and> r \<noteq> Inl OSError"
  proof -
    have "rc_is_open c0 \<longleftrightarrow> q \<noteq> Inl TimeoutError \<and> q \<noteq> Inl OSError"
      using e assms(3) unfolding exchange_blocking_def Let_def close_blocking_def is_os_error_def
      by (auto split: option.splits sum.splits if_splits)
    then show ?thesis unfolding i r by (cases q) auto
  qed
qed

text \<open>C5: the port over any sequence of requests of a client that is not closed, on ports whose
  opening succeeds or raises a timeout or an operating-system error.  The port is left open unless
  the last request ended in one of these two; the port is opened only for the first request of a
  client without one and after such a failure, and only there can opening it fail; every other
  result is exactly what the line answers now to the request's frame, so no earlier failure
  reaches a later answer; and an observer has seen one exchange per request, with its PDU and
  its error.\<close>

theorem rtu_session_port:
  assumes "rtu_session c steps = (c', rs)" "\<not> rc_closed c"
    and "\<forall>(port, pdu) \<in> set steps. sp_open_error port \<in> {None, Some TimeoutError, Some OSError}"
  shows "length rs = length steps \<and>
    (rc_is_open c' \<longleftrightarrow> (if steps = [] then rc_is_open c
       else last rs \<noteq> Inl TimeoutError \<and> last rs \<noteq> Inl OSError)) \<and>
    (\<forall>k < length steps. rs ! k =
       (case sp_open_error (fst (steps ! k)) of
          Some e \<Rightarrow>
            if (k = 0 \<and> \<not> rc_is_open c)
              \<or> (0 < k \<and> (rs ! (k - 1) = Inl TimeoutError \<or> rs ! (k - 1) = Inl OSError))
            then Inl e else line_result (rc_unit_id c) (fst (steps ! k)) (snd (steps ! k))
        | None \<Rightarrow> line_result (rc_unit_id c) (fst (steps ! k)) (snd (steps ! k)))) \<and>
    (rc_observed c \<longrightarrow>
       map ex_request_pdu_hex (rc_log c') = map ex_request_pdu_hex (rc_log c) @ map (bytes_hex \<circ> snd) steps \<and>
       map ex_error (rc_log c') = map ex_error (rc_log c) @ map err_of rs)"
  using assms
proof (induction steps arbitrary: c c' rs)
  case Nil
  then show ?case by simp
next
  case (Cons s steps)
  obtain port pdu where s: "s = (port, pdu)" by (cases s)
  obtain c1 r where q: "rtu_request port c pdu = (c1, r)" by fastforce
  obtain c2 rs' where t: "rtu_session c1 steps = (c2, rs')" by fastforce
  have c': "c' = c2" "rs = r # rs'" using Cons.prems(1) by (simp_all add: s q t)
  have o: "sp_open_error port \<in> {None, Some TimeoutError, Some OSError}"
    using Cons.prems(3) by (simp add: s)
  note st = rtu_request_step [OF q Cons.prems(2) o]
  have ih: "length rs' = length steps"
    "rc_is_open c2 \<longleftrightarrow> (if steps = [] then rc_is_open c1
       else last rs' \<noteq> Inl TimeoutError \<and> last rs' \<noteq> Inl OSError)"
    "\<forall>k < length steps. rs' ! k =
       (case sp_open_error (fst (steps ! k)) of
          Some e \<Rightarrow>
            if (k = 0 \<and> \<not> rc_is_open c1)
              \<or> (0 < k \<and> (rs' ! (k - 1) = Inl TimeoutError \<or> rs' ! (k - 1) = Inl OSError))
            then Inl e else line_result (rc_unit_id c1) (fst (steps ! k)) (snd (steps ! k))
        | None \<Rightarrow> line_result (rc_unit_id c1) (fst (steps ! k)) (snd (steps ! k)))"
    "rc_observed c1 \<longrightarrow>
       map ex_request_pdu_hex (rc_log c2) = map ex_request_pdu_hex (rc_log c1) @ map (bytes_hex \<circ> snd) steps \<and>
       map ex_error (rc_log c2) = map ex_error (rc_log c1) @ map err_of rs'"
    using Cons.IH [OF t st(4)] Cons.prems(3) by simp_all
  show ?case
  proof (intro conjI allI impI)
    show "length rs = length (s # steps)" by (simp add: c' ih(1))
    show "rc_is_open c' \<longleftrightarrow> (if s # steps = [] then rc_is_open c
       else last rs \<noteq> Inl TimeoutError \<and> last rs \<noteq> Inl OSError)"
      using ih(1,2) st(2) by (auto simp: c')
    fix k assume k: "k < length (s # steps)"
    show "rs ! k =
       (case sp_open_error (fst ((s # steps) ! k)) of
          Some e \<Rightarrow>
            if (k = 0 \<and> \<not> rc_is_open c)
              \<or> (0 < k \<and> (rs ! (k - 1) = Inl TimeoutError \<or> rs ! (k - 1) = Inl OSError))
            then Inl e else line_result (rc_unit_id c) (fst ((s # steps) ! k)) (snd ((s # steps) ! k))
        | None \<Rightarrow> line_result (rc_unit_id c) (fst ((s # steps) ! k)) (snd ((s # steps) ! k)))"
    proof (cases k)
      case 0
      then show ?thesis using st(1) by (auto simp: c' s split: option.splits)
    next
      case (Suc j)
      with k have "j < length steps" by simp
      note h = mp [OF spec [OF ih(3)] this, unfolded st(3)]
      have "(j = 0 \<and> \<not> rc_is_open c1) \<or> (0 < j \<and> (rs' ! (j - 1) = Inl TimeoutError \<or> rs' ! (j - 1) = Inl OSError))
        \<longleftrightarrow> rs ! j = Inl TimeoutError \<or> rs ! j = Inl OSError"
        unfolding c' st(2) by (cases j) simp_all
      then show ?thesis
        using h unfolding Suc by (simp only: c' nth_Cons_Suc diff_Suc_1 nat.distinct(2) zero_less_Suc simp_thms)
    qed
  next
    assume ob: "rc_observed c"
    then obtain x where x: "rc_log c1 = rc_log c @ [x]" "ex_request_pdu_hex x = bytes_hex pdu"
      "ex_error x = err_of r" using st(6) by blast
    have ob1: "rc_observed c1" using ob st(5) by simp
    show "map ex_request_pdu_hex (rc_log c') = map ex_request_pdu_hex (rc_log c) @ map (bytes_hex \<circ> snd) (s # steps)"
      "map ex_error (rc_log c') = map ex_error (rc_log c) @ map err_of rs"
      using ih(4) ob1 x by (simp_all add: c' s)
  qed
qed

text \<open>A write that fails, then the port unplugged, then the device back.\<close>

theorem rtu_session_port_witness:
  "let up = \<lparr>sp_open_error = None, sp_write_error = None,
        sp_answer = \<lambda>_. \<lparr>ln_pending = append_crc [1, 3, 2, 0x0D, 0x05], ln_ticks = replicate 7 (Chunk 3)\<rparr>\<rparr>;
     c = \<lparr>rc_unit_id = 1, rc_stop_bits = 2, rc_is_open = False, rc_closed = False,
        rc_observed = True, rc_log = []\<rparr>;
     steps = [(up\<lparr>sp_write_error := Some OSError\<rparr>, [3, 0, 8, 0, 1]),
        (up\<lparr>sp_open_error := Some OSError\<rparr>, [3, 0, 8, 0, 1]), (up, [3, 0, 8, 0, 1])]
   in rc_is_open (fst (rtu_session c steps)) \<and>
      snd (rtu_session c steps) = [Inl OSError, Inl OSError, Inr [3, 2, 0x0D, 0x05]] \<and>
      length (rc_log (fst (rtu_session c steps))) = 3"
proof -
  let ?up = "\<lparr>sp_open_error = None, sp_write_error = None,
    sp_answer = \<lambda>_. \<lparr>ln_pending = append_crc [1, 3, 2, 0x0D, 0x05], ln_ticks = replicate 7 (Chunk 3)\<rparr>\<rparr>"
  let ?c = "\<lparr>rc_unit_id = 1, rc_stop_bits = 2, rc_is_open = False, rc_closed = False,
    rc_observed = True, rc_log = []\<rparr>"
  let ?steps = "[(?up\<lparr>sp_write_error := Some OSError\<rparr>, [3, 0, 8, 0, 1 :: byte]),
    (?up\<lparr>sp_open_error := Some OSError\<rparr>, [3, 0, 8, 0, 1]), (?up, [3, 0, 8, 0, 1])]"
  have v: "line_result 1 ?up [3, 0, 8, 0, 1] = Inr [3, 2, 0x0D, 0x05]" by code_simp
  obtain c' rs where e: "rtu_session ?c ?steps = (c', rs)" by (meson surj_pair)
  have p: "length rs = length ?steps \<and>
    (rc_is_open c' \<longleftrightarrow> (if ?steps = [] then rc_is_open ?c
       else last rs \<noteq> Inl TimeoutError \<and> last rs \<noteq> Inl OSError)) \<and>
    (\<forall>k < length ?steps. rs ! k =
       (case sp_open_error (fst (?steps ! k)) of
          Some e \<Rightarrow>
            if (k = 0 \<and> \<not> rc_is_open ?c)
              \<or> (0 < k \<and> (rs ! (k - 1) = Inl TimeoutError \<or> rs ! (k - 1) = Inl OSError))
            then Inl e else line_result (rc_unit_id ?c) (fst (?steps ! k)) (snd (?steps ! k))
        | None \<Rightarrow> line_result (rc_unit_id ?c) (fst (?steps ! k)) (snd (?steps ! k)))) \<and>
    (rc_observed ?c \<longrightarrow>
       map ex_request_pdu_hex (rc_log c') = map ex_request_pdu_hex (rc_log ?c) @ map (bytes_hex \<circ> snd) ?steps \<and>
       map ex_error (rc_log c') = map ex_error (rc_log ?c) @ map err_of rs)"
    by (rule rtu_session_port [OF e]) simp_all
  have n: "length rs = 3" using p [THEN conjunct1] by simp
  have o: "rc_is_open c' \<longleftrightarrow> last rs \<noteq> Inl TimeoutError \<and> last rs \<noteq> Inl OSError"
    using p [THEN conjunct2, THEN conjunct1] by simp
  have l: "map ex_error (rc_log c') = map err_of rs"
    using p [THEN conjunct2, THEN conjunct2, THEN conjunct2] by simp
  note q = p [THEN conjunct2, THEN conjunct2, THEN conjunct1, rule_format]
  from n obtain x y z where rs: "rs = [x, y, z]" by (auto simp: length_Suc_conv numeral_3_eq_3)
  have x: "x = Inl OSError" using q [of 0] unfolding rs by (simp add: line_result_def)
  have y: "y = Inl OSError" using q [of 1] x unfolding rs by simp
  have z: "z = Inr [3, 2, 0x0D, 0x05]" using q [of 2] v unfolding rs by simp
  note k = x y z
  have "rc_is_open c'" using o k by (simp add: rs)
  moreover have "length (rc_log c') = 3" using arg_cong [OF l, of length] n by simp
  ultimately show ?thesis using e by (simp add: Let_def rs k)
qed

end
