(* ===== verification/Profile_Readers.thy ===== *)
theory Profile_Readers
  imports Profile_Facts Transport_Rtu
begin

text \<open>
  The two clients as readers: each keeps the interface \<open>read_only_reader\<close>, so what is proved of a
  profile over the interface holds over TCP and over RTU.  The world of a client is the stream of
  networks, or of ports, that its successive requests meet.
\<close>

section \<open>Readers over the clients\<close>

type_synonym tcp_world = "tcp_client \<times> (nat \<Rightarrow> network)"
type_synonym rtu_world = "rtu_client \<times> (nat \<Rightarrow> serial_port)"

definition tcp_read :: "int \<Rightarrow> tcp_world read_op" where
  "tcp_read fc w address count =
    (let (c', r) = read_registers (tcp_request (snd w 0)) (fst w) fc address count in
     ((c', \<lambda>k. snd w (Suc k)), r))"

definition tcp_reader :: "tcp_world reader" where
  "tcp_reader = \<lparr>rd_holding = tcp_read 3, rd_input = tcp_read 4\<rparr>"

definition rtu_read :: "int \<Rightarrow> rtu_world read_op" where
  "rtu_read fc w address count =
    (let (c', r) = read_registers (rtu_request (snd w 0)) (fst w) fc address count in
     ((c', \<lambda>k. snd w (Suc k)), r))"

definition rtu_reader :: "rtu_world reader" where
  "rtu_reader = \<lparr>rd_holding = rtu_read 3, rd_input = rtu_read 4\<rparr>"

lemma tcp_reader_is_client:
  "rd_holding tcp_reader (c, nets) a n = (let (c', r) = tcp_read_holding_registers (nets 0) c a n in
     ((c', \<lambda>k. nets (Suc k)), r))"
  "rd_input tcp_reader (c, nets) a n = (let (c', r) = tcp_read_input_registers (nets 0) c a n in
     ((c', \<lambda>k. nets (Suc k)), r))"
  by (simp_all add: tcp_reader_def tcp_read_def tcp_read_holding_registers_def tcp_read_input_registers_def)

lemma read_words_tcp: "read_words tcp_reader fn = tcp_read (if fn = Input then 4 else 3)"
  by (simp add: read_words_def tcp_reader_def)

lemma read_words_rtu: "read_words rtu_reader fn = rtu_read (if fn = Input then 4 else 3)"
  by (simp add: read_words_def rtu_reader_def)

text \<open>The request of a register read carries its function code.\<close>

lemma read_registers_request:
  assumes "fc = 3 \<or> fc = 4"
  shows "fst (read_registers request c fc a n) = c \<or>
    fst (read_registers request c fc a n) = fst (request c (read_pdu fc a n))"
  using read_registers_pdu_ok [OF assms, of a n] read_registers_pdu_err [OF assms, of a n]
  by (cases "valid_read a n") (auto simp: read_registers_def split: prod.splits)

lemma read_pdu_function: "fc = 3 \<or> fc = 4 \<Longrightarrow> unat (read_pdu fc a n ! 0) \<in> {3, 4}"
  by (auto simp: read_pdu_def)

lemma mk_exchange_function [simp]: "ex_function_code (mk_exchange tr u pdu rq rs rp e) = unat (pdu ! 0)"
  by (simp add: mk_exchange_def)

lemma tcp_request_wire:
  "fc = 3 \<or> fc = 4 \<Longrightarrow>
   \<exists>es. tc_log (fst (tcp_request net c (read_pdu fc a n))) = tc_log c @ es \<and> reads_only es"
  using read_pdu_function [of fc a n] by (auto simp: tcp_request_def Let_def reads_only_def)

lemma rtu_request_wire:
  "fc = 3 \<or> fc = 4 \<Longrightarrow>
   \<exists>es. rc_log (fst (rtu_request port c (read_pdu fc a n))) = rc_log c @ es \<and> reads_only es"
  using read_pdu_function [of fc a n]
    exchange_blocking_fields [of port c "read_pdu fc a n" "append_crc (word_of_int (rc_unit_id c) # read_pdu fc a n)"]
  by (auto simp: rtu_request_def Let_def reads_only_def split: prod.splits)

lemma reads_only_Nil [simp]: "reads_only []"
  by (simp add: reads_only_def)

interpretation tcp: read_only_reader tcp_reader "\<lambda>w. tc_log (fst w)"
proof
  fix fn c a n c' r
  let ?fc = "if fn = Input then 4 else 3 :: int"
  have fc: "?fc = 3 \<or> ?fc = 4" by simp
  show "\<And>ws. read_words tcp_reader fn c a n = (c', Inr ws) \<Longrightarrow> int (length ws) = n"
    using read_registers_Inr [OF fc, of "tcp_request (snd c 0)" "fst c" a n]
    by (auto simp: read_words_tcp tcp_read_def Let_def split: prod.splits)
  assume "read_words tcp_reader fn c a n = (c', r)"
  then have "fst c' = fst (read_registers (tcp_request (snd c 0)) (fst c) ?fc a n)"
    by (auto simp: read_words_tcp tcp_read_def Let_def split: prod.splits)
  then show "\<exists>es. tc_log (fst c') = tc_log (fst c) @ es \<and> reads_only es"
    using read_registers_request [OF fc, of "tcp_request (snd c 0)" "fst c" a n]
      tcp_request_wire [OF fc, of "snd c 0" "fst c" a n]
    by auto
qed

interpretation rtu: read_only_reader rtu_reader "\<lambda>w. rc_log (fst w)"
proof
  fix fn c a n c' r
  let ?fc = "if fn = Input then 4 else 3 :: int"
  have fc: "?fc = 3 \<or> ?fc = 4" by simp
  show "\<And>ws. read_words rtu_reader fn c a n = (c', Inr ws) \<Longrightarrow> int (length ws) = n"
    using read_registers_Inr [OF fc, of "rtu_request (snd c 0)" "fst c" a n]
    by (auto simp: read_words_rtu rtu_read_def Let_def split: prod.splits)
  assume "read_words rtu_reader fn c a n = (c', r)"
  then have "fst c' = fst (read_registers (rtu_request (snd c 0)) (fst c) ?fc a n)"
    by (auto simp: read_words_rtu rtu_read_def Let_def split: prod.splits)
  then show "\<exists>es. rc_log (fst c') = rc_log (fst c) @ es \<and> reads_only es"
    using read_registers_request [OF fc, of "rtu_request (snd c 0)" "fst c" a n]
      rtu_request_wire [OF fc, of "snd c 0" "fst c" a n]
    by auto
qed

end
