(* ===== verification/Catalog_Properties.thy ===== *)
theory Catalog_Properties
  imports Catalog_Selection Profile_Readers
begin

text \<open>
  The properties of the catalog and of the profiles that read through it, over both transports.
\<close>

section \<open>Reading a profile\<close>

text \<open>C10: every profile of the catalog is well formed: its blocks are legal read requests, every
  register has a decoder that fits its number of words and lies within one block of its function,
  no register overlaps a range the catalog declares reserved, and names are unique.\<close>

theorem catalog_well_formed: "list_all spec_ok (PROFILES @ [GENERIC])"
  unfolding list_all_iff by (intro ballI spec_ok_PROFILES)

text \<open>C11: with a profile of the catalog, whatever words the device returns and whatever firmware it
  reports, decoding and derivation never raise: if a poll fails, its exception is the one a read
  of a block that is not optional raised.\<close>

theorem poll_error_is_read_error:
  assumes "cp_spec p \<in> set (PROFILES @ [GENERIC])" "poll rd p c firmware = (p', c', Inl e)"
  shows "\<exists>b \<in> set (sp_blocks (cp_spec p)). \<not> rb_optional b \<and> (\<exists>c1 c2. read_block rd c1 b = (c2, Inl e))"
  using poll_cases [OF spec_ok_PROFILES [OF assms(1)] assms(2)] by auto

text \<open>A reader that always times out, on the SunSaver Duo.\<close>

definition dead_reader :: "unit reader" where
  "dead_reader = \<lparr>rd_holding = (\<lambda>c a n. (c, Inl TimeoutError)), rd_input = (\<lambda>c a n. (c, Inl TimeoutError))\<rparr>"

theorem poll_error_is_read_error_witness:
  "\<exists>b \<in> set (sp_blocks SUNSAVER_DUO). \<not> rb_optional b \<and>
    (\<exists>c1 c2. read_block dead_reader c1 b = (c2, Inl TimeoutError))"
proof -
  have m: "SUNSAVER_DUO \<in> set (PROFILES @ [GENERIC])" by (simp add: set_PROFILES)
  have "poll dead_reader (CatalogProfile SUNSAVER_DUO) () (VStr ''1'') = (CatalogProfile SUNSAVER_DUO, (), Inl TimeoutError)"
    by code_simp
  then show ?thesis
    using poll_error_is_read_error [of "CatalogProfile SUNSAVER_DUO" dead_reader "()" "VStr ''1''"] m
    by (simp add: CatalogProfile_def)
qed

text \<open>C12: polling, metadata reads and detection are read-only: whatever the profile and the device,
  the exchanges they leave in the log of a client are reads of holding or input registers, over
  TCP and over RTU.\<close>

theorem catalog_reads_only:
  "(poll tcp_reader p w firmware = (p', w', r) \<longrightarrow>
      (\<exists>es. tc_log (fst w') = tc_log (fst w) @ es \<and> reads_only es)) \<and>
   (read_metadata tcp_reader p w = (p', w', r) \<longrightarrow>
      (\<exists>es. tc_log (fst w') = tc_log (fst w) @ es \<and> reads_only es)) \<and>
   (detect_profile tcp_reader w identity = (w', q) \<longrightarrow>
      (\<exists>es. tc_log (fst w') = tc_log (fst w) @ es \<and> reads_only es)) \<and>
   (poll rtu_reader p v firmware = (p', v', r) \<longrightarrow>
      (\<exists>es. rc_log (fst v') = rc_log (fst v) @ es \<and> reads_only es)) \<and>
   (read_metadata rtu_reader p v = (p', v', r) \<longrightarrow>
      (\<exists>es. rc_log (fst v') = rc_log (fst v) @ es \<and> reads_only es)) \<and>
   (detect_profile rtu_reader v identity = (v', q) \<longrightarrow>
      (\<exists>es. rc_log (fst v') = rc_log (fst v) @ es \<and> reads_only es))"
  using tcp.poll_extends [of p w firmware p' w' r, unfolded tcp.extends_def]
    tcp.read_metadata_extends [of p w p' w' r, unfolded tcp.extends_def]
    tcp.detect_extends [of w identity w' q, unfolded tcp.extends_def]
    rtu.poll_extends [of p v firmware p' v' r, unfolded rtu.extends_def]
    rtu.read_metadata_extends [of p v p' v' r, unfolded rtu.extends_def]
    rtu.detect_extends [of v identity v' q, unfolded rtu.extends_def]
  by blast

definition silent_client :: tcp_client where
  "silent_client = \<lparr>tc_unit_id = 1, tc_transaction_id = 0, tc_observed = True, tc_log = []\<rparr>"

definition refused :: "nat \<Rightarrow> network" where
  "refused k = (\<lambda>_. Refused OSError)"

theorem catalog_reads_only_witness:
  "\<exists>es. tc_log (fst (fst (detect_profile tcp_reader (silent_client, refused) empty_identification)))
     = tc_log silent_client @ es \<and> reads_only es"
  using catalog_reads_only [of undefined "(silent_client, refused)"]
  by (metis fst_conv surjective_pairing)

text \<open>C13: against a device that answers, a poll of a catalog profile succeeds and is complete: if every
  read of a legal block returns its words, every register that lies in a block that is not
  optional is among the values under its name, with all its words, and what was cached stays
  consistent.\<close>

theorem poll_covers_registers:
  assumes "cp_spec p \<in> set (PROFILES @ [GENERIC])" "profile_ok p"
    and law: "\<And>fn c a n c' ws. read_words rd fn c a n = (c', Inr ws) \<Longrightarrow> int (length ws) = n"
    and answers: "\<And>b c. b \<in> set (sp_blocks (cp_spec p)) \<Longrightarrow> \<exists>c' ws. read_block rd c b = (c', Inr ws)"
    and "r \<in> set (sp_registers (cp_spec p))"
    and "b \<in> set (sp_blocks (cp_spec p))" "\<not> rb_optional b" "block_covers r b"
  shows "\<exists>p' c' vs. poll rd p c firmware = (p', c', Inr vs) \<and> profile_ok p' \<and>
    (\<exists>v \<in> set vs. rv_name v = rs_name r \<and> rv_function v = rs_function r \<and>
       int (length (rv_raw v)) = rs_words r)"
proof -
  have law: "read_only_reader rd (\<lambda>_. [])" by unfold_locales (auto dest: law)
  note ok = spec_ok_PROFILES [OF assms(1)]
  obtain p' c' res where p: "poll rd p c firmware = (p', c', res)" by (cases "poll rd p c firmware") auto
  obtain vs where vs: "res = Inr vs"
  proof -
    have "\<not> (\<exists>c1 c2. read_block rd c1 b = (c2, Inl e))" if "b \<in> set (sp_blocks (cp_spec p))" for b e
      using answers [OF that] by (metis Inl_Inr_False prod.inject)
    then show ?thesis using poll_cases [OF ok p] that by blast
  qed
  show ?thesis
    using read_only_reader.poll_complete [OF law ok assms(2) p [unfolded vs] assms(5-8)]
      read_only_reader.poll_table [OF law ok assms(2) p [unfolded vs]] p vs by blast
qed

text \<open>A device whose registers are all zero.\<close>

definition zero_read :: "unit read_op" where
  "zero_read c a n = (c, if n < 0 then Inl (ValueError ''count must be between 1 and 125'') else Inr (replicate (nat n) 0))"

definition zero_reader :: "unit reader" where
  "zero_reader = \<lparr>rd_holding = zero_read, rd_input = zero_read\<rparr>"

lemma zero_reader_words: "read_words zero_reader fn c a n = zero_read c a n"
  by (simp add: read_words_def zero_reader_def)

theorem poll_covers_registers_witness:
  "\<exists>p' c' vs. poll zero_reader (CatalogProfile SUNSAVER_DUO) () (VStr '''') = (p', c', Inr vs) \<and> profile_ok p' \<and>
    (\<exists>v \<in> set vs. rv_name v = ''battery_1_voltage'' \<and> rv_function v = Holding \<and> int (length (rv_raw v)) = 1)"
proof -
  have s: "cp_spec (CatalogProfile SUNSAVER_DUO) = SUNSAVER_DUO" by (simp add: CatalogProfile_def)
  let ?r = "sp_registers SUNSAVER_DUO ! 0" and ?b = "sp_blocks SUNSAVER_DUO ! 0"
  have rb: "?r \<in> set (sp_registers SUNSAVER_DUO)" "?b \<in> set (sp_blocks SUNSAVER_DUO)" "\<not> rb_optional ?b"
    "block_covers ?r ?b" "rs_name ?r = ''battery_1_voltage''" "rs_function ?r = Holding" "rs_words ?r = 1"
    by code_simp+
  have "block_ok b" if "b \<in> set (sp_blocks SUNSAVER_DUO)" for b
    using spec_okD(4) [OF spec_ok_sunsaver_duo that] .
  then have a: "\<exists>c' ws. read_block zero_reader c b = (c', Inr ws)" if "b \<in> set (sp_blocks SUNSAVER_DUO)" for b c
    using that by (fastforce simp: read_block_def zero_reader_words zero_read_def block_ok_def)
  have l: "int (length ws) = n" if "read_words zero_reader fn c a n = (c', Inr ws)" for fn c a n c' ws
    using that by (auto simp: zero_reader_words zero_read_def split: if_splits)
  show ?thesis
    using poll_covers_registers [of "CatalogProfile SUNSAVER_DUO" zero_reader ?r ?b "()" "VStr ''''", unfolded s,
        OF _ profile_ok_new l a rb(1-4)] rb(5-7)
    by (auto simp: set_PROFILES)
qed

text \<open>Metadata is read once: after a load that succeeds every mandatory cached block is in the
  cache, nothing leaves it, and as soon as the optional ones have been read too, loading again
  touches neither the device nor the profile.\<close>

theorem metadata_read_once:
  assumes "load_metadata rd p c = (p', c', Inr ())"
  shows "(\<forall>b \<in> set (sp_blocks (cp_spec p)). rb_cache b \<and> \<not> rb_optional b \<longrightarrow> block_key b \<in> cp_cached p') \<and>
    cp_cached p \<subseteq> cp_cached p' \<and> cp_spec p' = cp_spec p \<and>
    ((\<forall>b \<in> set (sp_blocks (cp_spec p)). rb_cache b \<longrightarrow> block_key b \<in> cp_cached p') \<longrightarrow>
       load_metadata rd' p' d = (p', d, Inr ()))"
  using load_blocks_mono [OF assms [unfolded load_metadata_def]]
  by (simp add: load_metadata_def load_blocks_cached)

theorem metadata_read_once_witness:
  "load_metadata dead_reader (fst (load_metadata zero_reader (CatalogProfile SUNSAVER_DUO) ())) ()
    = (fst (load_metadata zero_reader (CatalogProfile SUNSAVER_DUO) ()), (), Inr ())"
proof -
  have "load_metadata zero_reader (CatalogProfile SUNSAVER_DUO) () = (CatalogProfile SUNSAVER_DUO, (), Inr ())"
    and "list_all (\<lambda>b. \<not> rb_cache b) (sp_blocks SUNSAVER_DUO)"
    by code_simp+
  then have f: "load_metadata zero_reader (CatalogProfile SUNSAVER_DUO) () = (CatalogProfile SUNSAVER_DUO, (), Inr ())"
    and b: "\<forall>b \<in> set (sp_blocks (cp_spec (CatalogProfile SUNSAVER_DUO))). rb_cache b \<longrightarrow>
      block_key b \<in> cp_cached (CatalogProfile SUNSAVER_DUO)"
    by (simp_all add: CatalogProfile_def list_all_iff)
  from metadata_read_once [OF f, of dead_reader "()"] b show ?thesis by (simp add: f)
qed

text \<open>The raw values of a poll come first, one for each word that was read, in strictly ascending
  order of function and address; the decoded registers and the derived values follow.\<close>

theorem poll_values_raw_first:
  assumes "poll_values spec t firmware = Inr vs" "distinct (map fst t)"
  shows "take (length t) vs = map raw_value (sort_key fst t) \<and>
    sorted_wrt (<) (map fst (sort_key fst t)) \<and>
    (\<forall>fn a w. map_of t (fn, a) = Some w \<longrightarrow> raw_value ((fn, a), w) \<in> set (take (length t) vs)) \<and>
    (\<exists>named derived. decode_named spec t None firmware = Inr named \<and>
       derive_register_values (sp_name spec) named = Inr derived \<and> drop (length t) vs = named @ derived)"
proof -
  obtain named derived where n: "decode_named spec t None firmware = Inr named"
    "derive_register_values (sp_name spec) named = Inr derived"
    "vs = map raw_value (sort_key fst t) @ named @ derived"
    using assms(1) by (auto simp: poll_values_def rbind_eq_Inr)
  have "sorted (map fst (sort_key fst t))" by (rule sorted_sort_key)
  moreover have "distinct (map fst (sort_key fst t))"
    using assms(2) by (simp add: distinct_map)
  ultimately have "sorted_wrt (<) (map fst (sort_key fst t))" by (simp add: strict_sorted_iff)
  moreover have "raw_value ((fn, a), w) \<in> set (take (length t) vs)" if "map_of t (fn, a) = Some w" for fn a w
    using map_of_SomeD [OF that] unfolding n(3) by simp
  ultimately show ?thesis using n by auto
qed

theorem poll_values_raw_first_witness:
  "sorted_wrt (<) (map fst (sort_key fst [((Input, 7 :: int), 1), ((Holding, 9), 2), ((Holding, 3), 4 :: int)]))"
proof -
  obtain vs where "poll_values GENERIC [((Input, 7), 1), ((Holding, 9), 2), ((Holding, 3), 4)] (VStr '''') = Inr vs"
    using poll_values_returns [OF spec_ok_generic] unfolding returns_def by blast
  from poll_values_raw_first [OF this] show ?thesis by (simp only: list.map fst_conv) simp
qed

section \<open>Derived values\<close>

lemma reference_not_suspect:
  assumes "is_double ref" "fle (Fin 0) ref"
  shows "\<not> reported_input_is_suspect ref (Some ref)"
proof (cases ref)
  case (Fin a)
  have d: "fl a = Fin a" using assms(1) by (simp add: Fin is_double_Fin)
  have a: "0 \<le> a" using assms(2) by (simp add: Fin)
  show ?thesis
  proof (cases "a < 25")
    case True
    then show ?thesis by (simp add: reported_input_is_suspect_def Fin)
  next
    case False
    have hi: "fle (Fin a) (fl (a * 2))" by (rule fl_le [OF _ _ d]) (use a in simp_all)
    have lo: "fle (fl (a * (1 / 2))) (Fin a)" using fl_mono [of "a * (1 / 2)" a] a by (simp add: d)
    have n: "flt x y \<Longrightarrow> \<not> fle y x" for x y by (cases x; cases y) auto
    have "\<not> flt (fmax (fl (a * 2)) (fl (a + 250))) (Fin a)"
    proof
      assume lt: "flt (fmax (fl (a * 2)) (fl (a + 250))) (Fin a)"
      have "fle (fl (a * 2)) (fmax (fl (a * 2)) (fl (a + 250)))"
        using flt_imp_fle by (auto simp: fmax_def)
      with hi have "fle (Fin a) (fmax (fl (a * 2)) (fl (a + 250)))" by (rule fle_trans)
      with n [OF lt] show False by simp
    qed
    moreover have "\<not> flt (Fin a) (fl (a * (1 / 2)))" using n lo by blast
    ultimately show ?thesis using False by (simp add: reported_input_is_suspect_def Fin Let_def)
  qed
qed (use assms in \<open>simp_all add: reported_input_is_suspect_def fmax_def inf_of_def\<close>)

lemma numeric_double:
  "numeric v = Inr (Some x) \<Longrightarrow> (\<And>r y. v = Some r \<Longrightarrow> rv_value r = VFloat y \<Longrightarrow> is_double y) \<Longrightarrow>
   is_double x \<and> fle (Fin 0) x"
proof -
  assume v: "numeric v = Inr (Some x)" and d: "\<And>r y. v = Some r \<Longrightarrow> rv_value r = VFloat y \<Longrightarrow> is_double y"
  obtain r where r: "v = Some r" using v by (cases v) (auto simp: numeric_def)
  show ?thesis
  proof (cases "rv_value r")
    case (VInt i)
    then obtain y where "float_of_int i = Inr y" "y = x" "fle (Fin 0) x"
      using v r by (auto simp: numeric_def rbind_eq_Inr split: if_splits)
    moreover from this have "x = fl (of_int i)" by (auto simp: float_of_int_def split: pyfloat.splits)
    ultimately show ?thesis by simp
  next
    case (VFloat y)
    then show ?thesis using v r d by (auto simp: numeric_def split: if_splits)
  qed (use v r in \<open>auto simp: numeric_def\<close>)
qed

lemma fmul_nonneg: "fle (Fin 0) a \<Longrightarrow> fle (Fin 0) b \<Longrightarrow> fmul a b \<noteq> NaN \<Longrightarrow> fle (Fin 0) (fmul a b)"
  using fl_mono [of 0] by (cases a; cases b) (auto simp: inf_of_def split: if_splits)

definition doubles :: "register_value list \<Rightarrow> bool" where
  "doubles vs \<longleftrightarrow> (\<forall>v \<in> set vs. \<forall>x. rv_value v = VFloat x \<longrightarrow> is_double x)"

lemma battery_side_power_double:
  assumes "doubles vs" "battery_side_power (value_named vs) = Inr (Some ref, src)"
  shows "is_double ref \<and> (ref = NaN \<or> fle (Fin 0) ref)"
proof -
  have d: "numeric (value_named vs n) = Inr (Some x) \<Longrightarrow> is_double x \<and> fle (Fin 0) x" for n x
    by (rule numeric_double) (use assms(1) in \<open>auto simp: doubles_def dest!: value_named_Some\<close>)
  obtain out where out: "numeric (value_named vs ''output_power'') = Inr out"
    using assms(2) by (auto simp: battery_side_power_def rbind_eq_Inr)
  show ?thesis
  proof (cases out)
    case (Some x)
    then show ?thesis using assms(2) out d [of "''output_power''" x] by (auto simp: battery_side_power_def)
  next
    case None
    obtain v i where vi: "numeric (value_named vs ''battery_voltage'') = Inr (Some v)"
      "numeric (value_named vs ''battery_charge_current'') = Inr (Some i)" "ref = fmul v i"
      using assms(2) out None by (auto simp: battery_side_power_def rbind_eq_Inr split: option.splits)
    then show ?thesis using d [OF vi(1)] d [OF vi(2)] fmul_nonneg [of v i] by auto
  qed
qed

lemma NaN_not_suspect: "\<not> reported_input_is_suspect x (Some NaN)"
  by (cases x) (simp_all add: reported_input_is_suspect_def fmax_def)

text \<open>The derived input power is never suspect: whenever \<open>derive_register_values\<close> emits values, the
  first is an \<open>input_power\<close> that passes the plausibility test against the battery side, and it is
  either the reported value or the battery-side reference itself; the reported register is kept.\<close>

theorem derived_input_power_plausible:
  assumes "derive_register_values ''tristar_mppt'' vs = Inr ds" "ds \<noteq> []" "doubles vs"
  shows "\<exists>x reported reg ref src. value_named vs ''input_power_reported'' = Some reg \<and>
    numeric (Some reg) = Inr (Some reported) \<and> battery_side_power (value_named vs) = Inr (ref, src) \<and>
    rv_name (ds ! 0) = ''input_power'' \<and> rv_value (ds ! 0) = VFloat x \<and> rv_raw (ds ! 0) = rv_raw reg \<and>
    (x = reported \<or> Some x = ref) \<and> \<not> reported_input_is_suspect x ref"
proof -
  let ?v = "value_named vs"
  obtain reg reported where r: "?v ''input_power_reported'' = Some reg"
    "numeric (?v ''input_power_reported'') = Inr (Some reported)"
    using assms(1,2) by (auto simp: derive_register_values_def Let_def rbind_eq_Inr split: option.splits)
  obtain ref src where b: "battery_side_power ?v = Inr (ref, src)"
    using assms(1) r by (auto simp: derive_register_values_def Let_def rbind_eq_Inr)
  show ?thesis
  proof (cases "reported_input_is_suspect reported ref \<and> ref \<noteq> None")
    case True
    then obtain y where y: "ref = Some y" by auto
    have "is_double y \<and> (y = NaN \<or> fle (Fin 0) y)" using battery_side_power_double [OF assms(3)] b y by simp
    then have "\<not> reported_input_is_suspect y ref"
      unfolding y using reference_not_suspect NaN_not_suspect by blast
    then show ?thesis using assms(1) r b True y
      by (auto simp: derive_register_values_def derived_value_def Let_def)
  next
    case False
    have s: "\<not> reported_input_is_suspect reported ref"
    proof (cases ref)
      case None
      then show ?thesis by (simp add: reported_input_is_suspect_def)
    qed (use False in simp)
    then show ?thesis using assms(1) r b
      by (cases ref) (auto simp: derive_register_values_def derived_value_def Let_def)
  qed
qed

definition demo_value :: "string \<Rightarrow> rat \<Rightarrow> register_value" where
  "demo_value name x = \<lparr>rv_name = name, rv_address = 0, rv_function = Holding, rv_raw = [7],
     rv_value = VFloat (Fin x), rv_unit = None\<rparr>"

theorem derived_input_power_plausible_witness:
  "\<exists>ds x. derive_register_values ''tristar_mppt''
      [demo_value ''input_power_reported'' 300, demo_value ''output_power'' 10] = Inr ds \<and>
    rv_value (ds ! 0) = VFloat x \<and> \<not> reported_input_is_suspect x (Some (Fin 10))"
proof -
  let ?vs = "[demo_value ''input_power_reported'' 300, demo_value ''output_power'' 10]"
  have d: "doubles ?vs" using fl_int [of 300] fl_int [of 10] by (simp add: doubles_def demo_value_def is_double_Fin)
  have b: "battery_side_power (value_named ?vs) = Inr (Some (Fin 10), ''controller_output_power'')"
    by (simp add: battery_side_power_def value_named_def demo_value_def numeric_def)
  obtain ds where ds: "derive_register_values ''tristar_mppt'' ?vs = Inr ds" "ds \<noteq> []"
  proof -
    have v: "value_named ?vs ''input_power_reported'' = Some (demo_value ''input_power_reported'' 300)"
      by (simp add: value_named_def demo_value_def)
    have n: "numeric (Some (demo_value ''input_power_reported'' 300)) = Inr (Some (Fin 300))"
      by (simp add: numeric_def demo_value_def)
    have s: "reported_input_is_suspect (Fin 300) (Some (Fin 10))"
      by (simp add: reported_input_is_suspect_def)
    show ?thesis
      by (rule that) (simp add: derive_register_values_def v n b s Let_def, simp)
  qed
  from derived_input_power_plausible [OF ds d] b show ?thesis using ds(1) by auto
qed

section \<open>Detection\<close>

lemma run_probes_result:
  "run_probes rd ps sel c = (c', spec) \<Longrightarrow> spec = sel \<or>
    (\<exists>a n m. (a, n, m, spec) \<in> set ps \<and> (\<exists>c1 c2 ws. rd_holding rd c1 a n = (c2, Inr ws) \<and> m ws))"
proof (induction ps arbitrary: c)
  case (Cons pr ps)
  obtain a n m sp where pr: "pr = (a, n, m, sp)" by (cases pr) auto
  obtain c1 x where rb: "rd_holding rd c a n = (c1, x)" by fastforce
  show ?case
  proof (cases "\<exists>ws. x = Inr ws \<and> m ws")
    case True
    then obtain ws where ws: "x = Inr ws" "m ws" by blast
    then have "spec = sp" using Cons.prems rb pr by simp
    moreover have "(a, n, m, sp) \<in> set (pr # ps)" by (simp add: pr)
    moreover have "rd_holding rd c a n = (c1, Inr ws)" using rb ws(1) by simp
    ultimately show ?thesis using ws(2) by blast
  next
    case False
    then have "run_probes rd ps sel c1 = (c', spec)" using Cons.prems rb pr by (cases x) auto
    from Cons.IH [OF this] show ?thesis by (meson list.set_intros(2))
  qed
qed simp

text \<open>C14: detection is conservative: a device that names another vendor, or that is recognised by its
  identity, is not probed at all; any other device gets one of the four fingerprinted profiles,
  and only when a probe it answered matches, else the generic one; a failing probe is never an
  error.\<close>

theorem detect_profile_conservative:
  fixes identity
  defines "sel \<equiv> select_spec (vendor_name identity) (product_code identity)"
  shows "(sp_name sel \<noteq> ''generic'' \<or> is_explicit_non_morningstar_vendor (vendor_name identity) \<longrightarrow>
      detect_profile rd c identity = (c, CatalogProfile sel)) \<and>
    (\<exists>spec. snd (detect_profile rd c identity) = CatalogProfile spec \<and>
      (spec = sel \<or> (\<exists>a n m. (a, n, m, spec) \<in> set probes \<and>
         (\<exists>c1 c2 ws. rd_holding rd c1 a n = (c2, Inr ws) \<and> m ws))))"
  using run_probes_result [of rd probes sel c] unfolding detect_profile_def sel_def [symmetric]
  by (auto simp: Let_def split: prod.splits)

theorem detect_profile_conservative_witness:
  "detect_profile dead_reader () \<lparr>vendor_name = ''Acme'', product_code = ''TriStar'', major_minor_revision = '''',
      conformity_level = 0, raw_objects = [], raw_pdu_hex = ''''\<rparr> = ((), CatalogProfile GENERIC)"
proof -
  have "is_explicit_non_morningstar_vendor ''Acme''" by code_simp
  moreover from this have "select_spec ''Acme'' ''TriStar'' = GENERIC" by (simp add: select_spec_def)
  ultimately show ?thesis
    using detect_profile_conservative [of "\<lparr>vendor_name = ''Acme'', product_code = ''TriStar'', major_minor_revision = '''',
      conformity_level = 0, raw_objects = [], raw_pdu_hex = ''''\<rparr>" dead_reader "()"] by simp
qed

end
