(* ===== verification/Py_Repr.thy ===== *)
theory Py_Repr
  imports Catalog_Compat "HOL-Library.Char_ord"
begin

text \<open>
  \<open>str(x)\<close> of the values that reach text, and the order of strings.  A float prints as the
  shortest decimal that rounds back to it; a double is determined by 17 significant digits, so
  the search ends there.  Strings are ordered by code point.
\<close>

text \<open>Decimal digits on binary integers, for evaluation.\<close>

function show_pos :: "int \<Rightarrow> string" where
  "show_pos n = (if n < 10 then [digit_char (nat n)] else show_pos (n div 10) @ [digit_char (nat (n mod 10))])"
  by pat_completeness auto
termination by (relation "measure nat") auto

declare show_pos.simps [simp del]

lemma show_pos_int: "show_pos (int n) = show_nat n"
proof (induction n rule: show_nat.induct)
  case (1 n)
  then show ?case
    by (subst show_pos.simps, subst show_nat.simps) (simp add: nat_mod_distrib zdiv_int)
qed

lemma show_int_code [code]: "show_int a = (if a < 0 then CHR ''-'' # show_pos (- a) else show_pos a)"
  using show_pos_int [of "nat a"] show_pos_int [of "nat (- a)"] by (cases "a < 0") (simp_all add: show_int_def)

definition significant :: "nat \<Rightarrow> rat \<Rightarrow> int \<times> int" where
  "significant n x = (let e = decimal_exponent x; m = rhe (x / 10 powi (e - int n + 1)) in
     if m = 10 ^ n then (10 ^ (n - 1), e + 1) else (m, e))"

definition significant_value :: "nat \<Rightarrow> int \<times> int \<Rightarrow> rat" where
  "significant_value n d = of_int (fst d) * 10 powi (snd d - int n + 1)"

definition shortest :: "rat \<Rightarrow> int \<times> int" where
  "shortest x = (case List.find (\<lambda>n. fl (significant_value n (significant n x)) = Fin x) [1..<17] of
     Some n \<Rightarrow> significant n x | None \<Rightarrow> significant 17 x)"

definition float_repr :: "pyfloat \<Rightarrow> string" where
  "float_repr x = (case x of
     NaN \<Rightarrow> ''nan'' | PosInf \<Rightarrow> ''inf'' | NegInf \<Rightarrow> ''-inf''
   | Fin a \<Rightarrow> if a = 0 then ''0.0'' else
       (let (m, e) = shortest \<bar>a\<bar>; ds = show_int m;
            dot = (\<lambda>f. CHR ''.'' # (if f = [] then ''0'' else f));
            body = (if e < - 4 \<or> 16 \<le> e then
                      take 1 ds @ (if tl ds = [] then [] else CHR ''.'' # tl ds) @ ''e'' @
                      (if e < 0 then ''-'' else ''+'') @ pad0 2 (show_int \<bar>e\<bar>)
                    else if e < 0 then ''0'' @ dot (replicate (nat (- e - 1)) (CHR ''0'') @ ds)
                    else take (nat (e + 1)) ds @ replicate (nat (e + 1) - length ds) (CHR ''0'') @
                      dot (drop (nat (e + 1)) ds))
        in (if a < 0 then ''-'' @ body else body)))"

fun py_str :: "pyval \<Rightarrow> string" where
  "py_str VNone = ''None''"
| "py_str (VBool b) = (if b then ''True'' else ''False'')"
| "py_str (VInt i) = show_int i"
| "py_str (VFloat x) = float_repr x"
| "py_str (VStr s) = s"

text \<open>\<open>tuple(sorted(set(xs)))\<close> and the order of a dictionary's items by key.\<close>

definition sorted_set :: "string list \<Rightarrow> string list" where
  "sorted_set xs = sort (remdups xs)"

lemma set_sorted_set [simp]: "set (sorted_set xs) = set xs"
  by (simp add: sorted_set_def)

lemma sorted_set_sorted [simp]: "sorted (sorted_set xs)" "distinct (sorted_set xs)"
  by (simp_all add: sorted_set_def)

lemma sorted_set_cong: "set xs = set ys \<Longrightarrow> sorted_set xs = sorted_set ys"
  unfolding sorted_set_def by (rule sorted_distinct_set_unique) simp_all

text \<open>The class of an exception, as \<open>type(exc).__name__\<close> prints it.\<close>

fun error_class :: "py_error \<Rightarrow> string" where
  "error_class (ValueError _) = ''ValueError''"
| "error_class (ModbusProtocolError _) = ''ModbusProtocolError''"
| "error_class (ModbusDeviceError _ _) = ''ModbusDeviceError''"
| "error_class TimeoutError = ''TimeoutError''"
| "error_class OSError = ''OSError''"
| "error_class (RuntimeError _) = ''RuntimeError''"
| "error_class OverflowError = ''OverflowError''"
| "error_class ZeroDivisionError = ''ZeroDivisionError''"
| "error_class (KeyError _) = ''KeyError''"
| "error_class IndexError = ''IndexError''"
| "error_class TypeError = ''TypeError''"
| "error_class IncompleteReadError = ''IncompleteReadError''"
| "error_class (HistoryQueryError _) = ''HistoryQueryError''"
| "error_class (HistoryQueryTooLarge _) = ''HistoryQueryTooLarge''"

end
