(* ===== verification/Intelligence.thy ===== *)
theory Intelligence
  imports Catalog_Profile Py_Repr
begin

text \<open>
  \<open>intelligence/\<close>: which capabilities, identity and confidence the service claims for a device.
  \<open>resolve_device_intelligence\<close> runs once at discovery over a client; \<open>refresh_intelligence\<close>
  re-validates the claim after every poll.
\<close>

section \<open>\<open>capabilities.py\<close> and \<open>confidence.py\<close>\<close>

definition negotiate_capabilities ::
  "device_profile_spec \<Rightarrow> endpoint option \<Rightarrow> register_value list \<Rightarrow> string list" where
  "negotiate_capabilities spec ep vs =
    (let names = map rv_name vs in
     sorted_set (sp_capabilities spec @
       (case ep of None \<Rightarrow> [] | Some e \<Rightarrow> [if ep_transport e = Tcp then ''modbus_tcp'' else ''rtu'']) @
       (if ''battery_soc'' \<in> set names \<or> ''soc'' \<in> set names then [''battery_soc''] else []) @
       (if ''load_state'' \<in> set names then [''load_control''] else []) @
       (if list_ex (\<lambda>n. startswith n ''generator_'') names then [''generator_control''] else []) @
       (if ''rts_temp'' \<in> set names then [''remote_temperature_sensor''] else []) @
       (if ''battery_sense_voltage'' \<in> set names then [''battery_voltage_sense''] else [])))"

definition score :: "intelligence_evidence list \<Rightarrow> pyfloat" where
  "score evidence =
    (let positive = fsum (map ev_weight (filter ev_passed evidence));
         negative = fsum (map (\<lambda>e. fabs (ev_weight e)) (filter (\<lambda>e. \<not> ev_passed e) evidence)) in
     fmax (Fin 0) (fmin (Fin 1) (fsub positive negative)))"

section \<open>\<open>validation.py\<close>\<close>

definition evidence :: "string \<Rightarrow> string \<Rightarrow> rat \<Rightarrow> intelligence_evidence" where
  "evidence code message weight =
    \<lparr>ev_code = code, ev_message = message, ev_weight = fl weight, ev_passed = True\<rparr>"

definition is_raw_name :: "string \<Rightarrow> bool" where
  "is_raw_name n \<longleftrightarrow> startswith n ''holding_0x'' \<or> startswith n ''input_0x''"

text \<open>The plausibility envelope of a unit.\<close>

definition envelope :: "string option \<Rightarrow> (pyfloat \<times> pyfloat) option" where
  "envelope unit =
    (if unit = Some ''V'' then Some (Fin (- 1), Fin 1000)
     else if unit = Some ''A'' then Some (Fin (- 1000), Fin 1000)
     else if unit = Some ''C'' then Some (Fin (- 80), Fin 180)
     else if unit = Some ''%'' then Some (Fin (- 1), Fin 101)
     else if unit = Some ''Hz'' then Some (Fin 0, Fin 1000)
     else None)"

text \<open>\<open>float(decoded)\<close> of a number.\<close>

definition number_float :: "pyval \<Rightarrow> pyfloat res" where
  "number_float v = (case v of VInt i \<Rightarrow> float_of_int i | VFloat x \<Rightarrow> Inr x | _ \<Rightarrow> Inl TypeError)"

definition outside :: "string option \<Rightarrow> pyval \<Rightarrow> bool res" where
  "outside unit v = (case envelope unit of
     None \<Rightarrow> Inr False
   | Some (lo, hi) \<Rightarrow> rbind (number_float v) (\<lambda>x. Inr (\<not> (fle lo x \<and> fle x hi))))"

definition non_finite :: "pyval \<Rightarrow> bool" where
  "non_finite v = (case v of VFloat x \<Rightarrow> \<not> fis_finite x | _ \<Rightarrow> False)"

fun is_number :: "pyval \<Rightarrow> bool" where
  "is_number (VInt _) = True"
| "is_number (VFloat _) = True"
| "is_number _ = False"

text \<open>The loop over the named values: the count of invalid ones so far and the issues.\<close>

fun validate_loop :: "register_value list \<Rightarrow> nat \<Rightarrow> validation_issue list \<Rightarrow> (nat \<times> validation_issue list) res" where
  "validate_loop [] invalid issues = Inr (invalid, issues)"
| "validate_loop (v # vs) invalid issues =
    (if non_finite (rv_value v) then
       validate_loop vs (Suc invalid)
         (issues @ [\<lparr>vi_code = ''non-finite'', vi_message = rv_name v @ '' decoded to a non-finite value'',
            vi_severity = Error\<rparr>])
     else if \<not> is_number (rv_value v) then validate_loop vs invalid issues
     else rbind (outside (rv_unit v) (rv_value v)) (\<lambda>out.
       let invalid' = (if out then Suc invalid else invalid) in
       validate_loop vs invalid'
         (if invalid' \<noteq> 0 \<and> (issues = [] \<or> vi_code (last issues) \<noteq> ''implausible-value'')
          then issues @ [\<lparr>vi_code = ''implausible-value'',
            vi_message = rv_name v @ '' is outside a broad physical plausibility envelope'',
            vi_severity = Error\<rparr>]
          else issues)))"

definition validate_values :: "register_value list \<Rightarrow> (intelligence_evidence list \<times> validation_issue list) res" where
  "validate_values vs =
    (let named = filter (\<lambda>v. \<not> is_raw_name (rv_name v)) vs;
         named_evidence = (if named \<noteq> [] then
           [evidence ''named-registers'' ''named catalog registers decoded'' (8 / 100)] else []) in
     rbind (validate_loop named 0 []) (\<lambda>(invalid, issues).
       Inr (named_evidence @
         (if invalid \<noteq> 0 then
            [(evidence ''telemetry-plausibility''
               (show_nat invalid @ '' decoded value(s) failed plausibility checks'') (30 / 100))
             \<lparr>ev_passed := False\<rparr>]
          else if named \<noteq> [] then
            [evidence ''telemetry-plausibility'' ''decoded values are plausible'' (12 / 100)]
          else []), issues)))"

section \<open>\<open>resolver.py\<close>\<close>

text \<open>\<open>_metadata_dict\<close>, a dictionary in order of first insertion.\<close>

definition metadata_dict :: "register_value list \<Rightarrow> (string \<times> pyval) list" where
  "metadata_dict vs = fold (\<lambda>v. AList.update (rv_name v) (rv_value v))
     (filter (\<lambda>v. \<not> is_raw_name (rv_name v)) vs) []"

fun first_text :: "(string \<times> pyval) list \<Rightarrow> string list \<Rightarrow> string" where
  "first_text metadata [] = []"
| "first_text metadata (n # ns) = (case map_of metadata n of
     None \<Rightarrow> first_text metadata ns
   | Some v \<Rightarrow> if v = VNone \<or> v = VStr [] \<or> v = VStr ''NONE'' then first_text metadata ns else py_str v)"

text \<open>\<open>spec.firmware_verified_max and version_tuple(firmware)\<close>, then the comparison.\<close>

definition newer_than_verified :: "device_profile_spec \<Rightarrow> string \<Rightarrow> bool res" where
  "newer_than_verified spec firmware =
    (if truthy (sp_firmware_verified_max spec) \<and> version_tuple (VStr firmware) \<noteq> []
     then rbind (compare_versions (VStr firmware) (VStr (the (sp_firmware_verified_max spec)))) (\<lambda>k. Inr (0 < k))
     else Inr False)"

definition status_of :: "device_profile_spec \<Rightarrow> pyfloat \<Rightarrow> string \<Rightarrow> validation_issue list \<Rightarrow> intelligence_status res" where
  "status_of spec confidence firmware warnings =
    (if sp_name spec = ''generic'' then Inr GenericStatus
     else if \<exists>i \<in> set warnings. vi_severity i = Error then Inr Invalid
     else rbind (newer_than_verified spec firmware) (\<lambda>newer.
       Inr (if newer then NewerFirmwareUnverified
            else if fle (fl (85 / 100)) confidence then Verified
            else if fle (fl (60 / 100)) confidence then Probable
            else FamilyOnly)))"

definition text_or :: "string \<Rightarrow> string \<Rightarrow> string" where
  "text_or s t = (if s \<noteq> [] then s else t)"

text \<open>The evidence in the order the resolver collects it.\<close>

definition identity_evidence :: "device_identification \<Rightarrow> device_profile_spec \<Rightarrow> intelligence_evidence list" where
  "identity_evidence identity spec =
    (if str_contains ''morningstar'' (casefold (vendor_name identity))
     then [evidence ''vendor'' ''Morningstar vendor identity matched'' (28 / 100)] else []) @
    (if sp_name (select_spec (vendor_name identity) (product_code identity)) = sp_name spec \<and> sp_name spec \<noteq> ''generic''
     then [evidence ''product-code'' ''product code matched catalog aliases'' (32 / 100)]
     else if sp_name spec \<noteq> ''generic''
     then [evidence ''fingerprint'' ''read-only register fingerprint matched'' (22 / 100)] else [])"

definition resolved_evidence ::
  "device_identification \<Rightarrow> device_profile_spec \<Rightarrow> register_value list \<Rightarrow> string \<Rightarrow> string \<Rightarrow> intelligence_evidence list" where
  "resolved_evidence identity spec metadata_values firmware serial =
    identity_evidence identity spec @
    (if metadata_values \<noteq> [] then [evidence ''metadata'' ''stable metadata registers decoded'' (18 / 100)] else []) @
    (if firmware \<noteq> [] then [evidence ''firmware'' ''firmware revision resolved'' (8 / 100)] else []) @
    (if serial \<noteq> [] then [evidence ''serial'' ''serial number resolved'' (6 / 100)] else [])"

text \<open>The part of the resolver after the metadata has been read (or has failed with a warning).\<close>

definition resolve_with ::
  "device_identification \<Rightarrow> endpoint option \<Rightarrow> device_profile_spec \<Rightarrow> register_value list \<Rightarrow> validation_issue list \<Rightarrow>
   device_intelligence res" where
  "resolve_with identity ep spec metadata_values warnings =
    (let metadata = metadata_dict metadata_values;
         firmware = text_or (first_text metadata [''firmware_version'', ''firmware'', ''software_version''])
           (major_minor_revision identity);
         hardware = first_text metadata [''hardware_version'', ''hardware_revision'', ''fpga_version''];
         model = text_or (first_text metadata [''model'', ''model_name'', ''model_flag'']) (product_code identity);
         serial = first_text metadata [''serial_number'', ''serial''];
         evs = resolved_evidence identity spec metadata_values firmware serial;
         confidence = score evs in
     rbind (newer_than_verified spec firmware) (\<lambda>newer.
     let warnings' = warnings @ (if newer then
           [\<lparr>vi_code = ''newer-firmware'', vi_message = ''device firmware '' @ firmware @
              '' is newer than verified catalog limit '' @ the (sp_firmware_verified_max spec),
              vi_severity = Warning\<rparr>] else []) in
     rbind (status_of spec confidence firmware warnings') (\<lambda>status.
       Inr \<lparr>di_profile = sp_name spec, di_family = sp_family spec, di_model = model, di_serial_number = serial,
         di_firmware = firmware, di_hardware_revision = hardware,
         di_catalog_revision = text_or (sp_catalog_revision spec) (sp_source_id spec),
         di_confidence = confidence, di_status = status,
         di_capabilities = negotiate_capabilities spec ep metadata_values,
         di_network = sp_network spec, di_evidence = evs, di_warnings = warnings',
         di_metadata = sort_key fst metadata\<rparr>)))"

definition resolve_device_intelligence ::
  "'c reader \<Rightarrow> 'c \<Rightarrow> device_identification \<Rightarrow> endpoint option \<Rightarrow> 'c \<times> device_intelligence res" where
  "resolve_device_intelligence rd c identity ep =
    (let (c1, profile) = detect_profile rd c identity; spec = cp_spec profile in
     if sp_name spec = ''generic'' then (c1, resolve_with identity ep spec [] [])
     else (case read_metadata rd profile c1 of
       (p2, c2, Inr metadata_values) \<Rightarrow> (c2, resolve_with identity ep spec metadata_values [])
     | (p2, c2, Inl e) \<Rightarrow> (c2, resolve_with identity ep spec []
         [\<lparr>vi_code = ''metadata-unavailable'',
           vi_message = ''optional identity metadata could not be read: '' @ error_class e,
           vi_severity = Info\<rparr>])))"

definition spec_named :: "string \<Rightarrow> device_profile_spec" where
  "spec_named name = (case PROFILE_BY_NAME name of Some spec \<Rightarrow> spec | None \<Rightarrow> GENERIC)"

definition refresh_intelligence ::
  "device_intelligence \<Rightarrow> register_value list \<Rightarrow> endpoint option \<Rightarrow> device_intelligence res" where
  "refresh_intelligence di vs ep =
    (let spec = spec_named (di_profile di) in
     rbind (validate_values vs) (\<lambda>(validation_evidence, issues).
     let evs = filter (\<lambda>e. ev_code e \<notin> {''named-registers'', ''telemetry-plausibility''}) (di_evidence di) @
           validation_evidence;
         confidence = score evs;
         warnings = filter (\<lambda>i. vi_code i \<notin> {''non-finite'', ''implausible-value''}) (di_warnings di) @ issues in
     rbind (status_of spec confidence (di_firmware di) warnings) (\<lambda>status.
       Inr (di\<lparr>di_confidence := confidence, di_status := status,
         di_capabilities := negotiate_capabilities spec ep vs, di_evidence := evs, di_warnings := warnings\<rparr>))))"

text \<open>\<open>effective_register_map\<close>, before its export to JSON: the catalog entries that apply to a firmware.\<close>

record register_map =
  rm_profile :: string
  rm_family :: string
  rm_catalog_revision :: string
  rm_firmware :: string
  rm_blocks :: "register_block list"
  rm_reserved_ranges :: "reserved_register_range list"
  rm_registers :: "register_spec list"

definition reserved_gate :: "reserved_register_range \<Rightarrow> string option \<times> string option" where
  "reserved_gate r = (rr_since_firmware r, rr_until_firmware r)"

definition effective_register_map :: "string \<Rightarrow> string \<Rightarrow> register_map option res" where
  "effective_register_map profile_name firmware = (case PROFILE_BY_NAME profile_name of
     None \<Rightarrow> Inr None
   | Some spec \<Rightarrow>
       rbind (effective_items block_gate (sp_blocks spec) (VStr firmware)) (\<lambda>blocks.
       rbind (effective_items register_gate (sp_registers spec) (VStr firmware)) (\<lambda>registers.
       rbind (effective_items reserved_gate (sp_reserved_ranges spec) (VStr firmware)) (\<lambda>reserved_ranges.
         Inr (Some \<lparr>rm_profile = sp_name spec, rm_family = sp_family spec,
           rm_catalog_revision = text_or (sp_catalog_revision spec) (sp_source_id spec),
           rm_firmware = firmware, rm_blocks = blocks, rm_reserved_ranges = reserved_ranges,
           rm_registers = registers\<rparr>)))))"

end
