(* ===== verification/Py_Order.thy ===== *)
theory Py_Order
  imports Py_Float
begin

text \<open>
  Floats as a linear order, so that the library's \<open>sort\<close>, \<open>Min\<close> and \<open>Max\<close> apply to them.  NaN is put
  above every other value; Python's comparisons with a NaN are all false, so on lists without one
  \<open>sorted\<close>, \<open>min\<close> and \<open>max\<close> of the source are the library's.
\<close>

instantiation pyfloat :: linorder
begin

definition less_eq_pyfloat :: "pyfloat \<Rightarrow> pyfloat \<Rightarrow> bool" where
  "a \<le> b \<longleftrightarrow> b = NaN \<or> fle a b"

definition less_pyfloat :: "pyfloat \<Rightarrow> pyfloat \<Rightarrow> bool" where
  "a < b \<longleftrightarrow> (a \<noteq> NaN \<and> b = NaN) \<or> flt a b"

instance
proof
  fix a b c :: pyfloat
  show "(a < b) = (a \<le> b \<and> \<not> b \<le> a)"
    by (cases a; cases b) (auto simp: less_eq_pyfloat_def less_pyfloat_def)
  show "a \<le> a" by (cases a) (simp_all add: less_eq_pyfloat_def)
  show "a \<le> b \<Longrightarrow> b \<le> c \<Longrightarrow> a \<le> c"
    by (cases a; cases b; cases c) (auto simp: less_eq_pyfloat_def)
  show "a \<le> b \<Longrightarrow> b \<le> a \<Longrightarrow> a = b"
    by (cases a; cases b) (auto simp: less_eq_pyfloat_def)
  show "a \<le> b \<or> b \<le> a"
    by (cases a; cases b) (auto simp: less_eq_pyfloat_def)
qed

end

lemma fle_iff_le: "fle a b \<longleftrightarrow> a \<le> b \<and> b \<noteq> NaN"
  by (cases a; cases b) (auto simp: less_eq_pyfloat_def)

lemma flt_iff_less: "flt a b \<longleftrightarrow> a < b \<and> b \<noteq> NaN"
  by (cases a; cases b) (auto simp: less_pyfloat_def)

lemma fmin_le: "a \<noteq> NaN \<Longrightarrow> fle (fmin a b) a"
  by (cases a; cases b) (auto simp: fmin_def)

lemma fmax_ge: "a \<noteq> NaN \<Longrightarrow> fle a (fmax a b)"
  by (cases a; cases b) (auto simp: fmax_def)

text \<open>Powers of two are represented up to \<open>2 ^ 1023\<close>; beyond, the conversion of the integer raises.\<close>

lemma rnd_power: "rnd (2 ^ k) = 2 ^ k"
  using rnd_exact [of 1 "int k"] by simp

lemma power_overflow: "1024 \<le> k \<Longrightarrow> (2 :: rat) ^ 1024 \<le> 2 ^ k"
  by (rule power_increasing) simp_all

lemma float_of_power: "float_of_int (2 ^ k) = (if k < 1024 then Inr (Fin (2 ^ k)) else Inl OverflowError)"
proof (cases "k < 1024")
  case True
  then have "(2 :: rat) ^ k < 2 ^ 1024" by (rule power_strict_increasing) simp
  then have "fl (2 ^ k) = Fin (2 ^ k)" by (intro fl_eq_FinI rnd_power) simp
  then show ?thesis using True by (simp add: float_of_int_def)
next
  case False
  then have "fl (2 ^ k) = PosInf" using power_overflow [of k] by (simp add: fl_def rnd_power del: power_numeral)
  then show ?thesis using False by (simp add: float_of_int_def)
qed

lemma fl_power: "k < 1024 \<Longrightarrow> fl (2 ^ k) = Fin (2 ^ k)"
  using float_of_power [of k] fl_ne_NaN [of "2 ^ k"]
  by (auto simp: float_of_int_def dest: fl_Fin_rnd split: pyfloat.splits)

text \<open>Rounding of a value that is not too large gives a finite value.\<close>

lemma fl_finite:
  assumes "\<bar>x\<bar> \<le> 2 ^ 1000" obtains r where "fl x = Fin r"
proof -
  have p: "fl (2 ^ 1000) = Fin (2 ^ 1000)" by (rule fl_power) simp
  then have "rnd (- (2 ^ 1000)) = - (2 ^ 1000)" using fl_Fin_rnd [OF p] by (simp only: rnd_minus)
  then have m: "fl (- (2 ^ 1000)) = Fin (- (2 ^ 1000))"
    by (rule fl_eq_FinI) (simp add: power_strict_increasing del: power_numeral)
  have "fle (fl (- (2 ^ 1000))) (fl x)" "fle (fl x) (fl (2 ^ 1000))"
    using assms by (simp_all add: fl_mono abs_le_iff)
  then show ?thesis using that unfolding m p by (cases "fl x") auto
qed

lemma float_of_int_returns: "\<bar>n\<bar> \<le> 2 ^ 60 \<Longrightarrow> \<exists>r. float_of_int n = Inr (Fin r)"
proof -
  assume "\<bar>n\<bar> \<le> 2 ^ 60"
  then have "\<bar>of_int n :: rat\<bar> \<le> of_int (2 ^ 60)" by (simp only: of_int_abs [symmetric] of_int_le_iff)
  also have "\<dots> \<le> 2 ^ 1000" by simp
  finally obtain r where "fl (of_int n) = Fin r" by (rule fl_finite)
  then show ?thesis by (simp add: float_of_int_def)
qed

lemma int_truediv_returns: "\<bar>a\<bar> \<le> 2 ^ 64 \<Longrightarrow> b \<noteq> 0 \<Longrightarrow> \<exists>r. int_truediv a b = Inr (Fin r)"
proof -
  assume a: "\<bar>a\<bar> \<le> 2 ^ 64" and b: "b \<noteq> 0"
  have "1 \<le> \<bar>b\<bar>" using b by linarith
  then have b1: "1 \<le> \<bar>of_int b :: rat\<bar>" by (simp add: of_int_abs [symmetric] del: of_int_abs)
  have "\<bar>of_int a / of_int b :: rat\<bar> \<le> \<bar>of_int a\<bar>"
    using b b1 by (simp add: abs_divide divide_le_eq mult_le_cancel_left1)
  also have "\<dots> \<le> of_int (2 ^ 64)" using a by (simp only: of_int_abs [symmetric] of_int_le_iff)
  also have "\<dots> \<le> 2 ^ 1000" by simp
  finally obtain r where "fl (of_int a / of_int b) = Fin r" by (rule fl_finite)
  then show ?thesis using b by (simp add: int_truediv_def)
qed

end
