(* ===== verification/Py_Sum.thy ===== *)
theory Py_Sum
  imports Py_Order
begin

text \<open>
  How far float sums are from the exact ones.  Near zero a rounding moves a value by at most \<open>ulp\<close>;
  \<open>fsum\<close>, the compensated sum of Python, stays within a few \<open>ulp\<close> per item of the exact sum.
\<close>

definition ulp :: rat where
  "ulp = 1 / 2 ^ 52"

lemma ulp_pos: "0 < ulp"
  by (simp add: ulp_def)

lemma rnd_near:
  assumes "\<bar>x\<bar> \<le> 2" shows "\<bar>rnd x - x\<bar> \<le> ulp"
proof (cases "x = 0")
  case False
  let ?e = "rexp x"
  have "2 powi (flog2 \<bar>x\<bar>) \<le> (2 :: rat) powi 1" using flog2_bounds(1) [of "\<bar>x\<bar>"] False assms by simp
  then have "flog2 \<bar>x\<bar> \<le> 1" by (simp only: powi_le_iff)
  then have "?e \<le> - 51" by (simp add: rexp_def)
  then have p: "(2 :: rat) powi ?e \<le> 2 powi (- 51)" by (simp only: powi_le_iff)
  have "rnd x - x = (of_int (rhe (x / 2 powi ?e)) - x / 2 powi ?e) * 2 powi ?e"
    using False by (simp add: rnd_def algebra_simps)
  then have "\<bar>rnd x - x\<bar> = \<bar>of_int (rhe (x / 2 powi ?e)) - x / 2 powi ?e\<bar> * 2 powi ?e"
    by (simp add: abs_mult)
  also have "\<dots> \<le> 1 / 2 * 2 powi (- 51)"
    using rhe_near [of "x / 2 powi ?e"] p by (intro mult_mono) simp_all
  also have "\<dots> = ulp" by (simp add: ulp_def power_int_def power_one_over)
  finally show ?thesis .
qed (use ulp_pos in simp)

lemma fl_near:
  assumes "\<bar>x\<bar> \<le> 2" obtains r where "fl x = Fin r" "\<bar>r - x\<bar> \<le> ulp"
proof -
  have n: "\<bar>rnd x - x\<bar> \<le> ulp" using assms by (rule rnd_near)
  moreover have "ulp \<le> 1" by (simp add: ulp_def)
  ultimately have "\<bar>rnd x\<bar> \<le> 3" using assms by linarith
  also have "(3 :: rat) < 2 ^ 1024" by simp
  finally have "fl x = Fin (rnd x)" by (intro fl_eq_FinI) simp_all
  with n that show ?thesis by blast
qed

text \<open>One step of the compensated sum.\<close>

lemma cs_add_near:
  assumes "\<bar>h\<bar> + \<bar>x\<bar> \<le> 3 / 2" "\<bar>l\<bar> \<le> 1 / 4"
  obtains h' l' where "cs_add (Fin h, Fin l) (Fin x) = (Fin h', Fin l')"
    "\<bar>h' - (h + x)\<bar> \<le> ulp" "\<bar>l'\<bar> \<le> \<bar>l\<bar> + 4 * ulp"
proof -
  have u: "0 < ulp" "ulp \<le> 1 / 100" by (simp_all add: ulp_def)
  have hx: "\<bar>h + x\<bar> \<le> 2" using assms(1) abs_triangle_ineq [of h x] by linarith
  then obtain t where t: "fl (h + x) = Fin t" "\<bar>t - (h + x)\<bar> \<le> ulp" by (rule fl_near)
  have step: "\<exists>l'. fadd (Fin l) (fadd (fsub (Fin a) (Fin t)) (Fin b)) = Fin l' \<and> \<bar>l'\<bar> \<le> \<bar>l\<bar> + 4 * ulp"
    if ab: "a + b = h + x" "\<bar>b\<bar> \<le> 3 / 2" for a b
  proof -
    have e1: "\<bar>a + - t + b\<bar> \<le> ulp" using t(2) ab(1) by (simp add: abs_le_iff)
    then have "\<bar>a + - t\<bar> \<le> 2" using ab(2) u unfolding abs_le_iff by linarith
    then obtain d where d: "fl (a + - t) = Fin d" "\<bar>d - (a + - t)\<bar> \<le> ulp" by (rule fl_near)
    have e2: "\<bar>d + b\<bar> \<le> 2 * ulp" using d(2) e1 unfolding abs_le_iff by linarith
    then have "\<bar>d + b\<bar> \<le> 2" using u unfolding abs_le_iff by linarith
    then obtain c where c: "fl (d + b) = Fin c" "\<bar>c - (d + b)\<bar> \<le> ulp" by (rule fl_near)
    have e3: "\<bar>c\<bar> \<le> 3 * ulp" using c(2) e2 unfolding abs_le_iff by linarith
    then have "\<bar>l + c\<bar> \<le> 2" using assms(2) u unfolding abs_le_iff by linarith
    then obtain l' where l': "fl (l + c) = Fin l'" "\<bar>l' - (l + c)\<bar> \<le> ulp" by (rule fl_near)
    have "\<bar>l'\<bar> \<le> \<bar>l\<bar> + 4 * ulp" using l'(2) e3 by linarith
    then show ?thesis using d(1) c(1) l'(1) by (simp add: fsub_def)
  qed
  show ?thesis
  proof (cases "fle (fabs (Fin x)) (fabs (Fin h))")
    case True
    then show ?thesis using step [of h x] assms(1) that [OF _ t(2)] t(1) by (auto simp: cs_add_def Let_def)
  next
    case False
    have "\<bar>h\<bar> \<le> 3 / 2" using assms(1) by linarith
    then show ?thesis using False step [of x h] that [OF _ t(2)] t(1) by (auto simp: cs_add_def Let_def add.commute)
  qed
qed

lemma cs_fold_near:
  assumes "\<bar>h\<bar> + sum_list (map abs xs) + of_nat (length xs) * ulp \<le> 3 / 2"
    "\<bar>l\<bar> + of_nat (length xs) * (4 * ulp) \<le> 1 / 4"
  shows "\<exists>h' l'. foldl cs_add (Fin h, Fin l) (map Fin xs) = (Fin h', Fin l') \<and>
    \<bar>h' - (h + sum_list xs)\<bar> \<le> of_nat (length xs) * ulp \<and>
    \<bar>l'\<bar> \<le> \<bar>l\<bar> + of_nat (length xs) * (4 * ulp)"
  using assms
proof (induction xs arbitrary: h l)
  case (Cons x xs)
  have n: "0 \<le> of_nat (length xs) * ulp" "0 \<le> sum_list (map abs xs)"
    using ulp_pos by (simp, intro sum_list_nonneg) auto
  obtain h1 l1 where s: "cs_add (Fin h, Fin l) (Fin x) = (Fin h1, Fin l1)"
    "\<bar>h1 - (h + x)\<bar> \<le> ulp" "\<bar>l1\<bar> \<le> \<bar>l\<bar> + 4 * ulp"
  proof (rule cs_add_near)
    have "\<bar>h\<bar> + (\<bar>x\<bar> + sum_list (map abs xs)) + (of_nat (length xs) * ulp + ulp) \<le> 3 / 2"
      "\<bar>l\<bar> + (of_nat (length xs) * (4 * ulp) + 4 * ulp) \<le> 1 / 4"
      using Cons.prems by (simp_all add: algebra_simps)
    then show "\<bar>h\<bar> + \<bar>x\<bar> \<le> 3 / 2" "\<bar>l\<bar> \<le> 1 / 4" using n ulp_pos by linarith+
  qed
  have h1: "\<bar>h1\<bar> \<le> \<bar>h\<bar> + \<bar>x\<bar> + ulp" using s(2) by linarith
  have "\<exists>h' l'. foldl cs_add (Fin h1, Fin l1) (map Fin xs) = (Fin h', Fin l') \<and>
    \<bar>h' - (h1 + sum_list xs)\<bar> \<le> of_nat (length xs) * ulp \<and>
    \<bar>l'\<bar> \<le> \<bar>l1\<bar> + of_nat (length xs) * (4 * ulp)"
    by (rule Cons.IH) (use Cons.prems h1 s(3) in \<open>simp_all add: algebra_simps\<close>)
  then obtain h' l' where r: "foldl cs_add (Fin h1, Fin l1) (map Fin xs) = (Fin h', Fin l')"
    "\<bar>h' - (h1 + sum_list xs)\<bar> \<le> of_nat (length xs) * ulp"
    "\<bar>l'\<bar> \<le> \<bar>l1\<bar> + of_nat (length xs) * (4 * ulp)" by blast
  have "\<bar>h' - (h + sum_list (x # xs))\<bar> \<le> of_nat (length (x # xs)) * ulp"
    using r(2) s(2) by (simp add: algebra_simps)
  moreover have "\<bar>l'\<bar> \<le> \<bar>l\<bar> + of_nat (length (x # xs)) * (4 * ulp)"
    using r(3) s(3) by (simp add: algebra_simps)
  ultimately show ?case using s(1) r(1) by simp
qed simp

theorem fsum_near:
  assumes "sum_list (map abs xs) \<le> 1" "length xs \<le> 1000"
  obtains r where "fsum (map Fin xs) = Fin r" "\<bar>r - sum_list xs\<bar> \<le> of_nat (5 * length xs + 1) * ulp"
proof -
  have k: "of_nat (length xs) * ulp \<le> 1000 * ulp" "0 \<le> of_nat (length xs) * ulp"
    using assms(2) ulp_pos by (simp_all add: mult_right_mono)
  have u: "1000 * ulp \<le> 1 / 100" by (simp add: ulp_def)
  obtain h l where f: "foldl cs_add (Fin 0, Fin 0) (map Fin xs) = (Fin h, Fin l)"
    "\<bar>h - sum_list xs\<bar> \<le> of_nat (length xs) * ulp" "\<bar>l\<bar> \<le> of_nat (length xs) * (4 * ulp)"
    using cs_fold_near [of 0 xs 0] assms(1) k u by (auto simp: algebra_simps)
  have s: "\<bar>sum_list xs\<bar> \<le> 1"
    using sum_list_abs [of xs] assms(1) by linarith
  show ?thesis
  proof (cases "l = 0")
    case True
    show ?thesis
    proof (rule that)
      show "fsum (map Fin xs) = Fin h" using f(1) True by (simp add: fsum_def)
      show "\<bar>h - sum_list xs\<bar> \<le> of_nat (5 * length xs + 1) * ulp"
        using f(2) k ulp_pos by (simp add: algebra_simps)
    qed
  next
    case False
    have "\<bar>h + l\<bar> \<le> 2" using f(2,3) s k u by (simp add: algebra_simps)
    then obtain r where r: "fl (h + l) = Fin r" "\<bar>r - (h + l)\<bar> \<le> ulp" by (rule fl_near)
    show ?thesis
    proof (rule that)
      show "fsum (map Fin xs) = Fin r" using f(1) r(1) False by (simp add: fsum_def fis_finite_def)
      show "\<bar>r - sum_list xs\<bar> \<le> of_nat (5 * length xs + 1) * ulp"
        using r(2) f(2,3) by (simp add: algebra_simps)
    qed
  qed
qed

end
