(* ===== verification/Intelligence_Facts.thy ===== *)
theory Intelligence_Facts
  imports Intelligence Py_Sum Catalog_Properties
begin

text \<open>
  What the intelligence layer claims and when: the confidence of a list of passed evidence is the
  sum of its weights up to rounding, so the thresholds of the status can be read as conditions on
  the evidence; validation flags exactly the implausible values; a refresh forgets the last one.
\<close>

section \<open>Confidence\<close>

lemma fsum_Nil [simp]: "fsum [] = Fin 0"
  by (simp add: fsum_def)

lemma score_bounds: "fle (Fin 0) (score es) \<and> fle (score es) (Fin 1)"
  unfolding score_def Let_def by (rule fclamp_bounds) simp

lemma fl_list_near:
  assumes "list_all (\<lambda>w. 0 \<le> w \<and> w \<le> 1) ws"
  shows "\<exists>xs. map fl ws = map Fin xs \<and> length xs = length ws \<and>
    sum_list (map abs xs) \<le> sum_list ws + of_nat (length ws) * ulp \<and>
    \<bar>sum_list xs - sum_list ws\<bar> \<le> of_nat (length ws) * ulp"
  using assms
proof (induction ws)
  case (Cons w ws)
  then obtain xs where xs: "map fl ws = map Fin xs" "length xs = length ws"
    "sum_list (map abs xs) \<le> sum_list ws + of_nat (length ws) * ulp"
    "\<bar>sum_list xs - sum_list ws\<bar> \<le> of_nat (length ws) * ulp" by auto
  have w: "0 \<le> w" "w \<le> 1" using Cons.prems by simp_all
  then obtain x where x: "fl w = Fin x" "\<bar>x - w\<bar> \<le> ulp" using fl_near [of w] by auto
  have "\<bar>x\<bar> \<le> w + ulp" using x(2) w by linarith
  then show ?case using xs x by (intro exI [of _ "x # xs"]) (simp add: algebra_simps)
qed simp

lemma score_near:
  assumes "list_all ev_passed es" "map ev_weight es = map fl ws"
    "list_all (\<lambda>w. 0 \<le> w \<and> w \<le> 1) ws" "sum_list ws \<le> 98 / 100" "length ws \<le> 100"
  obtains s where "score es = Fin s" "\<bar>s - sum_list ws\<bar> \<le> 1 / 1000"
proof -
  have u: "100 * ulp \<le> 1 / 100000" "0 < ulp" by (simp_all add: ulp_def)
  have n: "of_nat (length ws) * ulp \<le> 100 * ulp" using assms(5) u(2) by (simp add: mult_right_mono)
  obtain xs where xs: "map fl ws = map Fin xs" "length xs = length ws"
    "sum_list (map abs xs) \<le> sum_list ws + of_nat (length ws) * ulp"
    "\<bar>sum_list xs - sum_list ws\<bar> \<le> of_nat (length ws) * ulp"
    using fl_list_near [OF assms(3)] by blast
  obtain r where r: "fsum (map Fin xs) = Fin r" "\<bar>r - sum_list xs\<bar> \<le> of_nat (5 * length xs + 1) * ulp"
  proof (rule fsum_near [of xs])
    show "sum_list (map abs xs) \<le> 1" using xs(3) assms(4) n u by linarith
    show "length xs \<le> 1000" using xs(2) assms(5) by simp
  qed
  have "of_nat (5 * length xs + 1) * ulp \<le> (501 :: rat) * ulp"
    using assms(5) xs(2) u(2) by (intro mult_right_mono) simp_all
  then have near: "\<bar>r - sum_list ws\<bar> \<le> 1 / 10000" using r(2) xs(4) n u by linarith
  have w: "0 \<le> sum_list ws" using assms(3) by (intro sum_list_nonneg) (auto simp: list_all_iff)
  have "\<bar>r\<bar> \<le> 2" using near w assms(4) by linarith
  then obtain q where q: "fl r = Fin q" "\<bar>q - r\<bar> \<le> ulp" by (rule fl_near)
  have p: "filter ev_passed es = es" "filter (\<lambda>e. \<not> ev_passed e) es = []"
    using assms(1) by (auto simp: list_all_iff intro!: filter_True filter_False)
  have "score es = fmax (Fin 0) (fmin (Fin 1) (Fin q))"
    using r(1) q(1) assms(2) xs(1) p by (simp add: score_def fsub_def)
  moreover have "q < 1" using q(2) near assms(4) u by linarith
  ultimately have "score es = Fin (max 0 q)" by (simp add: fmax_def fmin_def max_def)
  moreover have "\<bar>max 0 q - sum_list ws\<bar> \<le> 1 / 1000"
  proof (cases "0 \<le> q")
    case True
    then have "max 0 q = q" by simp
    with q(2) near u show ?thesis by linarith
  next
    case False
    then have "max 0 q = 0" "q < 0" by simp_all
    with q(2) near w u show ?thesis by linarith
  qed
  ultimately show ?thesis by (rule that)
qed

text \<open>A threshold that no sum of weights comes near.\<close>

lemma threshold:
  assumes "\<bar>s - w\<bar> \<le> 1 / 1000" "\<bar>w - t\<bar> \<ge> 1 / 200" "0 \<le> t" "t \<le> 1"
  shows "fle (fl t) (Fin s) \<longleftrightarrow> t \<le> w"
proof -
  obtain r where r: "fl t = Fin r" "\<bar>r - t\<bar> \<le> ulp" using assms(3,4) fl_near [of t] by auto
  have "ulp \<le> 1 / 1000" by (simp add: ulp_def)
  then have "r \<le> s \<longleftrightarrow> t \<le> w" using r(2) assms(1,2) by (auto simp: abs_le_iff abs_if split: if_splits)
  then show ?thesis by (simp add: r(1))
qed

section \<open>Validation\<close>

text \<open>A value validation counts: not finite, or a number outside the envelope of its unit.\<close>

definition flagged :: "register_value \<Rightarrow> bool" where
  "flagged v \<longleftrightarrow> non_finite (rv_value v) \<or> (is_number (rv_value v) \<and> outside (rv_unit v) (rv_value v) = Inr True)"

lemma validate_loop_Inr:
  assumes "validate_loop vs n is = Inr (n', is')" "is = [] \<longleftrightarrow> n = 0"
    "\<forall>i \<in> set is. vi_severity i = Error \<and> vi_code i \<in> {''non-finite'', ''implausible-value''}"
  shows "n' = n + length (filter flagged vs) \<and> (is' = [] \<longleftrightarrow> n' = 0) \<and>
    (\<forall>i \<in> set is'. vi_severity i = Error \<and> vi_code i \<in> {''non-finite'', ''implausible-value''})"
  using assms
proof (induction vs arbitrary: n "is")
  case (Cons v vs)
  consider (inf) "non_finite (rv_value v)" | (skip) "\<not> non_finite (rv_value v)" "\<not> is_number (rv_value v)"
    | (num) "\<not> non_finite (rv_value v)" "is_number (rv_value v)" by blast
  then show ?case
  proof cases
    case inf
    have "n' = Suc n + length (filter flagged vs) \<and> (is' = [] \<longleftrightarrow> n' = 0) \<and>
      (\<forall>i \<in> set is'. vi_severity i = Error \<and> vi_code i \<in> {''non-finite'', ''implausible-value''})"
      by (rule Cons.IH [OF Cons.prems(1) [simplified validate_loop.simps inf if_True]])
        (use Cons.prems in auto)
    moreover have "flagged v" using inf by (simp add: flagged_def)
    ultimately show ?thesis by simp
  next
    case skip
    then have "\<not> flagged v" by (simp add: flagged_def)
    then show ?thesis using Cons.IH [of n "is"] Cons.prems skip by simp
  next
    case num
    obtain out where out: "outside (rv_unit v) (rv_value v) = Inr out"
      using Cons.prems(1) num by (auto simp: rbind_eq_Inr)
    have f: "flagged v \<longleftrightarrow> out" using num out by (simp add: flagged_def)
    let ?n = "if out then Suc n else n"
    obtain js where js: "validate_loop vs ?n js = Inr (n', is')" "js = [] \<longleftrightarrow> ?n = 0"
      "\<forall>i \<in> set js. vi_severity i = Error \<and> vi_code i \<in> {''non-finite'', ''implausible-value''}"
    proof (rule that)
      let ?js = "if ?n \<noteq> 0 \<and> (is = [] \<or> vi_code (last is) \<noteq> ''implausible-value'')
          then is @ [\<lparr>vi_code = ''implausible-value'',
            vi_message = rv_name v @ '' is outside a broad physical plausibility envelope'',
            vi_severity = Error\<rparr>] else is"
      show "validate_loop vs ?n ?js = Inr (n', is')"
        using Cons.prems(1) num out by (simp only: validate_loop.simps if_False rbind_Inr Let_def not_True_eq_False)
      show "?js = [] \<longleftrightarrow> ?n = 0" using Cons.prems(2) by auto
      show "\<forall>i \<in> set ?js. vi_severity i = Error \<and> vi_code i \<in> {''non-finite'', ''implausible-value''}"
        using Cons.prems(3) by auto
    qed
    from Cons.IH [OF this] f show ?thesis by simp
  qed
qed simp

text \<open>Which values are reported.  Nothing is before the first flagged value; from there on every value
  that is not finite is, and of each run of finite numbers between such values the first one is.\<close>

definition issue_of :: "register_value \<Rightarrow> validation_issue" where
  "issue_of v =
    (if non_finite (rv_value v)
     then \<lparr>vi_code = ''non-finite'', vi_message = rv_name v @ '' decoded to a non-finite value'', vi_severity = Error\<rparr>
     else \<lparr>vi_code = ''implausible-value'',
       vi_message = rv_name v @ '' is outside a broad physical plausibility envelope'', vi_severity = Error\<rparr>)"

fun first_of_runs :: "bool \<Rightarrow> register_value list \<Rightarrow> register_value list" where
  "first_of_runs start [] = []"
| "first_of_runs start (v # vs) =
    (if non_finite (rv_value v) then v # first_of_runs True vs
     else if start then v # first_of_runs False vs
     else first_of_runs False vs)"

lemma vi_code_issue_of:
  "vi_code (issue_of v) = (if non_finite (rv_value v) then ''non-finite'' else ''implausible-value'')"
  by (simp add: issue_of_def)

lemma non_finite_number: "non_finite v \<Longrightarrow> is_number v"
  by (cases v) (simp_all add: non_finite_def)

lemma validate_loop_reports:
  assumes "validate_loop vs n is = Inr (n', is')" "n \<noteq> 0" "is \<noteq> []"
  shows "is' = is @ map issue_of (first_of_runs (vi_code (last is) \<noteq> ''implausible-value'')
    (filter (\<lambda>v. is_number (rv_value v)) vs))"
  using assms
proof (induction vs arbitrary: n "is")
  case (Cons v vs)
  consider (inf) "non_finite (rv_value v)" | (skip) "\<not> non_finite (rv_value v)" "\<not> is_number (rv_value v)"
    | (num) "\<not> non_finite (rv_value v)" "is_number (rv_value v)" by blast
  then show ?case
  proof cases
    case inf
    have "is' = (is @ [issue_of v]) @ map issue_of (first_of_runs
        (vi_code (last (is @ [issue_of v])) \<noteq> ''implausible-value'') (filter (\<lambda>v. is_number (rv_value v)) vs))"
      by (rule Cons.IH [of "Suc n"]) (use Cons.prems(1) inf in \<open>simp_all add: issue_of_def\<close>)
    then show ?thesis using inf non_finite_number [OF inf] by (simp add: vi_code_issue_of)
  next
    case skip
    then show ?thesis using Cons.IH [of n "is"] Cons.prems by simp
  next
    case num
    obtain out where out: "outside (rv_unit v) (rv_value v) = Inr out"
      using Cons.prems(1) num by (auto simp: rbind_eq_Inr)
    have nz: "(if out then Suc n else n) \<noteq> 0" using Cons.prems(2) by simp
    let ?js = "if vi_code (last is) \<noteq> ''implausible-value'' then is @ [issue_of v] else is"
    have "validate_loop vs (if out then Suc n else n) ?js = Inr (n', is')"
      using Cons.prems(1,3) num out nz by (simp add: issue_of_def Let_def split: if_splits)
    from Cons.IH [OF this nz] Cons.prems(3) num show ?thesis
      by (cases "vi_code (last is) = ''implausible-value''") (simp_all add: vi_code_issue_of)
  qed
qed simp

lemma validate_loop_issues:
  "validate_loop vs 0 [] = Inr (n', is') \<Longrightarrow>
    is' = map issue_of (first_of_runs True (filter (\<lambda>v. is_number (rv_value v)) (dropWhile (\<lambda>v. \<not> flagged v) vs)))"
proof (induction vs)
  case (Cons v vs)
  show ?case
  proof (cases "flagged v")
    case True
    then have nm: "is_number (rv_value v)" using non_finite_number by (auto simp: flagged_def)
    have "validate_loop vs (Suc 0) [issue_of v] = Inr (n', is')"
      using Cons.prems True nm by (auto simp: flagged_def issue_of_def split: if_splits)
    from validate_loop_reports [OF this] True nm show ?thesis by (simp add: vi_code_issue_of)
  next
    case False
    then have "validate_loop vs 0 [] = Inr (n', is')"
      using Cons.prems by (auto simp: flagged_def rbind_eq_Inr split: if_splits)
    with Cons.IH False show ?thesis by simp
  qed
qed simp

section \<open>Profiles\<close>

lemma no_verified_max: "spec \<in> set (PROFILES @ [GENERIC]) \<Longrightarrow> sp_firmware_verified_max spec = None"
  unfolding set_append set_PROFILES list.set
  by (elim UnE insertE emptyE) (simp_all add: profile_defs GENERIC_def)

lemma profile_names: "map sp_name PROFILES = map fst selection_table"
  unfolding selection_table [symmetric] by (simp add: names_and_aliases_def)

lemma generic_name: "spec \<in> set (PROFILES @ [GENERIC]) \<Longrightarrow> sp_name spec = ''generic'' \<longleftrightarrow> spec = GENERIC"
proof -
  have "''generic'' \<notin> set (map sp_name PROFILES)" unfolding profile_names by (simp add: selection_table_def)
  then show "spec \<in> set (PROFILES @ [GENERIC]) \<Longrightarrow> ?thesis" by (force simp: name_GENERIC)
qed

lemma spec_named_mem: "spec_named n \<in> set (PROFILES @ [GENERIC])"
  using PROFILE_BY_NAME_mem [of n] by (auto simp: spec_named_def split: option.split)

text \<open>The names of the profiles are distinct, so a profile is found under its name.\<close>

lemma spec_named_self:
  assumes "spec \<in> set (PROFILES @ [GENERIC])" shows "spec_named (sp_name spec) = spec"
proof -
  let ?t = "map (\<lambda>s. (sp_name s, s)) (PROFILES @ [GENERIC])"
  have "map fst ?t = map fst selection_table @ [''generic'']"
    by (simp add: profile_names [symmetric] name_GENERIC)
  then have "distinct (map fst ?t)" by (simp add: selection_table_def)
  then have "distinct (map fst (rev ?t))" unfolding rev_map [symmetric] distinct_rev .
  then have "map_of (rev ?t) (sp_name spec) = Some spec"
    using assms by (intro map_of_is_SomeI) auto
  then show ?thesis by (simp add: spec_named_def PROFILE_BY_NAME_def)
qed

lemma probes_mem: "(a, n, m, spec) \<in> set probes \<Longrightarrow> spec \<in> set (PROFILES @ [GENERIC])"
  unfolding set_append set_PROFILES probes_def by auto

lemma select_spec_mem: "select_spec v p \<in> set (PROFILES @ [GENERIC])"
proof -
  have "first_match i q specs \<in> set specs \<union> {GENERIC}" for i q specs by (induction specs) auto
  from this [of _ _ PROFILES] show ?thesis unfolding select_spec_def by auto
qed

lemma detect_profile_mem: "cp_spec (snd (detect_profile rd c identity)) \<in> set (PROFILES @ [GENERIC])"
proof -
  let ?s = "select_spec (vendor_name identity) (product_code identity)"
  obtain c' spec where r: "run_probes rd probes ?s c = (c', spec)" by fastforce
  from run_probes_result [OF r] have "spec \<in> set (PROFILES @ [GENERIC])"
    using select_spec_mem [of "vendor_name identity" "product_code identity"] probes_mem by blast
  then show ?thesis using r select_spec_mem [of "vendor_name identity" "product_code identity"]
    by (simp add: detect_profile_def CatalogProfile_def Let_def)
qed

section \<open>Resolution\<close>

lemma newer_none: "spec \<in> set (PROFILES @ [GENERIC]) \<Longrightarrow> newer_than_verified spec fw = Inr False"
  by (drule no_verified_max) (simp add: newer_than_verified_def truthy_def)

lemma status_of_catalog:
  "spec \<in> set (PROFILES @ [GENERIC]) \<Longrightarrow>
   status_of spec confidence fw ws = Inr
     (if spec = GENERIC then GenericStatus else if \<exists>i \<in> set ws. vi_severity i = Error then Invalid
      else if fle (fl (85 / 100)) confidence then Verified
      else if fle (fl (60 / 100)) confidence then Probable else FamilyOnly)"
  using newer_none [of spec fw] generic_name [of spec] unfolding status_of_def by simp

definition resolved :: "device_identification \<Rightarrow> device_profile_spec \<Rightarrow> device_intelligence \<Rightarrow> bool" where
  "resolved identity spec di \<longleftrightarrow> di_profile di = sp_name spec \<and> di_confidence di = score (di_evidence di) \<and>
     (\<forall>i \<in> set (di_warnings di). vi_severity i = Info) \<and>
     (\<exists>mv fw serial. di_evidence di = resolved_evidence identity spec mv fw serial) \<and>
     status_of spec (di_confidence di) (di_firmware di) (di_warnings di) = Inr (di_status di)"

lemma resolve_with_resolved:
  assumes "spec \<in> set (PROFILES @ [GENERIC])" "\<forall>i \<in> set ws. vi_severity i = Info"
  shows "\<exists>di. resolve_with identity ep spec mv ws = Inr di \<and> resolved identity spec di"
  using assms(2) newer_none [OF assms(1)] status_of_catalog [OF assms(1)] unfolding resolved_def
  by (auto simp: resolve_with_def Let_def)

lemma resolve_resolved:
  "\<exists>c' di spec. resolve_device_intelligence rd c identity ep = (c', Inr di) \<and>
     spec \<in> set (PROFILES @ [GENERIC]) \<and> resolved identity spec di"
proof -
  obtain c1 p where d: "detect_profile rd c identity = (c1, p)" by fastforce
  have s: "cp_spec p \<in> set (PROFILES @ [GENERIC])" using detect_profile_mem [of rd c identity] d by simp
  obtain p2 c2 r where m: "read_metadata rd p c1 = (p2, c2, r)" by (metis prod_cases3)
  let ?w = "\<lambda>e. \<lparr>vi_code = ''metadata-unavailable'',
    vi_message = ''optional identity metadata could not be read: '' @ error_class e, vi_severity = Info\<rparr>"
  show ?thesis
  proof (cases "sp_name (cp_spec p) = ''generic''")
    case True
    then have "resolve_device_intelligence rd c identity ep = (c1, resolve_with identity ep (cp_spec p) [] [])"
      using d by (simp add: resolve_device_intelligence_def)
    then show ?thesis using resolve_with_resolved [OF s, of "[]" identity ep "[]"] s by auto
  next
    case False
    show ?thesis
    proof (cases r)
      case (Inl e)
      then have "resolve_device_intelligence rd c identity ep = (c2, resolve_with identity ep (cp_spec p) [] [?w e])"
        using d m False by (simp add: resolve_device_intelligence_def)
      then show ?thesis using resolve_with_resolved [OF s, of "[?w e]" identity ep "[]"] s by auto
    next
      case (Inr mv)
      then have "resolve_device_intelligence rd c identity ep = (c2, resolve_with identity ep (cp_spec p) mv [])"
        using d m False by (simp add: resolve_device_intelligence_def)
      then show ?thesis using resolve_with_resolved [OF s, of "[]" identity ep mv] s by auto
    qed
  qed
qed

text \<open>The weights of the resolver's evidence, and when they reach the threshold of a verified identity.\<close>

definition resolved_weights :: "device_identification \<Rightarrow> device_profile_spec \<Rightarrow> register_value list \<Rightarrow> string \<Rightarrow> string \<Rightarrow> rat list" where
  "resolved_weights identity spec mv fw serial =
    (if str_contains ''morningstar'' (casefold (vendor_name identity)) then [28 / 100] else []) @
    (if sp_name (select_spec (vendor_name identity) (product_code identity)) = sp_name spec \<and> sp_name spec \<noteq> ''generic''
     then [32 / 100] else if sp_name spec \<noteq> ''generic'' then [22 / 100] else []) @
    (if mv \<noteq> [] then [18 / 100] else []) @ (if fw \<noteq> [] then [8 / 100] else []) @
    (if serial \<noteq> [] then [6 / 100] else [])"

lemma resolved_weights:
  "map ev_weight (resolved_evidence identity spec mv fw serial) = map fl (resolved_weights identity spec mv fw serial)"
  "list_all ev_passed (resolved_evidence identity spec mv fw serial)"
  by (simp_all add: resolved_evidence_def resolved_weights_def identity_evidence_def evidence_def)

lemma weight_gap:
  fixes v a b m f s
  defines "w \<equiv> (if v then 28 / 100 else 0) + (if a then 32 / 100 else if b then 22 / 100 else 0) +
    (if m then 18 / 100 else 0) + (if f then 8 / 100 else 0) + (if s then 6 / 100 else (0 :: rat))"
  shows "\<bar>w - 85 / 100\<bar> \<ge> 1 / 200" "85 / 100 \<le> w \<longleftrightarrow> v \<and> a \<and> m \<and> f" "w \<le> 98 / 100"
  unfolding w_def by (cases v; cases a; cases b; cases m; cases f; cases s; simp)+

lemma sum_resolved_weights:
  "sum_list (resolved_weights identity spec mv fw serial) =
    (if str_contains ''morningstar'' (casefold (vendor_name identity)) then 28 / 100 else 0) +
    (if sp_name (select_spec (vendor_name identity) (product_code identity)) = sp_name spec \<and> sp_name spec \<noteq> ''generic''
     then 32 / 100 else if sp_name spec \<noteq> ''generic'' then 22 / 100 else 0) +
    (if mv \<noteq> [] then 18 / 100 else 0) + (if fw \<noteq> [] then 8 / 100 else 0) + (if serial \<noteq> [] then 6 / 100 else 0)"
  by (simp add: resolved_weights_def)

lemma code_mem:
  "c \<in> ev_code ` set (if P then xs else ys) \<longleftrightarrow> (if P then c \<in> ev_code ` set xs else c \<in> ev_code ` set ys)"
  "c \<in> ev_code ` set (xs @ ys) \<longleftrightarrow> c \<in> ev_code ` set xs \<or> c \<in> ev_code ` set ys"
  "c \<in> ev_code ` set [evidence k m w] \<longleftrightarrow> c = k"
  "c \<in> ev_code ` set [] \<longleftrightarrow> False"
  by (auto simp: evidence_def)

lemma resolved_codes:
  fixes identity spec mv fw serial
  defines "C \<equiv> ev_code ` set (resolved_evidence identity spec mv fw serial)"
  shows "''vendor'' \<in> C \<longleftrightarrow> str_contains ''morningstar'' (casefold (vendor_name identity))"
    "''product-code'' \<in> C \<longleftrightarrow>
       sp_name (select_spec (vendor_name identity) (product_code identity)) = sp_name spec \<and> sp_name spec \<noteq> ''generic''"
    "''metadata'' \<in> C \<longleftrightarrow> mv \<noteq> []" "''firmware'' \<in> C \<longleftrightarrow> fw \<noteq> []"
  unfolding C_def resolved_evidence_def identity_evidence_def code_mem by simp_all

lemma resolved_verified:
  "fle (fl (85 / 100)) (score (resolved_evidence identity spec mv fw serial)) \<longleftrightarrow>
   {''vendor'', ''product-code'', ''metadata'', ''firmware''} \<subseteq> ev_code ` set (resolved_evidence identity spec mv fw serial)"
proof -
  let ?E = "resolved_evidence identity spec mv fw serial" and ?W = "resolved_weights identity spec mv fw serial"
  have W: "list_all (\<lambda>w. 0 \<le> w \<and> w \<le> 1) ?W" "length ?W \<le> 100" by (simp_all add: resolved_weights_def)
  obtain s where s: "score ?E = Fin s" "\<bar>s - sum_list ?W\<bar> \<le> 1 / 1000"
    by (rule score_near [OF resolved_weights(2,1) W(1) _ W(2)]) (simp only: sum_resolved_weights weight_gap(3))
  have "fle (fl (85 / 100)) (Fin s) \<longleftrightarrow> 85 / 100 \<le> sum_list ?W"
    using s(2) by (rule threshold) (unfold sum_resolved_weights, rule weight_gap(1), simp_all)
  then show ?thesis
    unfolding s(1) sum_resolved_weights weight_gap(2) insert_subset resolved_codes by simp
qed

section \<open>Properties\<close>

text \<open>C16: resolving a device never raises, whatever it answers: it claims a profile of the catalog with a
  confidence between 0 and 1, calls the device generic exactly when that profile is the fallback, and
  calls it verified exactly when vendor, product code, metadata and firmware all gave evidence.\<close>

theorem resolve_intelligence_sound:
  "\<exists>c' di spec. resolve_device_intelligence rd c identity ep = (c', Inr di) \<and>
     spec \<in> set (PROFILES @ [GENERIC]) \<and> spec_named (di_profile di) = spec \<and>
     fle (Fin 0) (di_confidence di) \<and> fle (di_confidence di) (Fin 1) \<and>
     (di_status di = GenericStatus \<longleftrightarrow> spec = GENERIC) \<and>
     (di_status di = Verified \<longleftrightarrow>
        {''vendor'', ''product-code'', ''metadata'', ''firmware''} \<subseteq> ev_code ` set (di_evidence di))"
proof -
  obtain c' di spec where r: "resolve_device_intelligence rd c identity ep = (c', Inr di)"
    "spec \<in> set (PROFILES @ [GENERIC])" "resolved identity spec di"
    using resolve_resolved [of rd c identity ep] by blast
  obtain mv fw serial where e: "di_evidence di = resolved_evidence identity spec mv fw serial"
    using r(3) by (auto simp: resolved_def)
  have st: "di_status di = (if spec = GENERIC then GenericStatus
      else if fle (fl (85 / 100)) (score (di_evidence di)) then Verified
      else if fle (fl (60 / 100)) (score (di_evidence di)) then Probable else FamilyOnly)"
    using r(3) status_of_catalog [OF r(2)] by (force simp: resolved_def)
  have g: "''product-code'' \<notin> ev_code ` set (di_evidence di)" if "spec = GENERIC"
    unfolding e resolved_codes that name_GENERIC by simp
  have "spec_named (di_profile di) = spec" using spec_named_self [OF r(2)] r(3) by (simp add: resolved_def)
  moreover have "di_status di = GenericStatus \<longleftrightarrow> spec = GENERIC" unfolding st by simp
  moreover have "di_status di = Verified \<longleftrightarrow>
      {''vendor'', ''product-code'', ''metadata'', ''firmware''} \<subseteq> ev_code ` set (di_evidence di)"
    unfolding st using resolved_verified [of identity spec mv fw serial, folded e] g by auto
  moreover have "di_confidence di = score (di_evidence di)" using r(3) by (simp add: resolved_def)
  ultimately show ?thesis using r(1,2) score_bounds [of "di_evidence di"]
    by (intro exI [of _ c'] exI [of _ di] exI [of _ spec]) simp
qed

text \<open>C17: what validation reports, as the code has it.  A named value is bad when it is not finite
  or lies outside the envelope of its unit.  The issues are, in order: nothing before the first bad
  value; from there on one issue for each value that is not finite, and one for the first finite
  number of each run between them, bad or not (after a value that is not finite the next number is
  blamed even when it is plausible, and a second bad value of a run is not).  So there is an issue
  exactly when there is a bad value, each of severity error; and the evidence is that of named
  registers, then a failure with the number of bad values or, without any, a pass.\<close>

theorem validate_values_exact:
  assumes "validate_values vs = Inr (es, issues)"
  shows "(let named = filter (\<lambda>v. \<not> is_raw_name (rv_name v)) vs; bad = filter flagged named in
    issues = map issue_of (first_of_runs True
      (filter (\<lambda>v. is_number (rv_value v)) (dropWhile (\<lambda>v. \<not> flagged v) named))) \<and>
    (issues = [] \<longleftrightarrow> bad = []) \<and> (\<forall>i \<in> set issues. vi_severity i = Error) \<and>
    es = (if named = [] then [] else
      [evidence ''named-registers'' ''named catalog registers decoded'' (8 / 100),
       if bad = [] then evidence ''telemetry-plausibility'' ''decoded values are plausible'' (12 / 100)
       else (evidence ''telemetry-plausibility''
         (show_nat (length bad) @ '' decoded value(s) failed plausibility checks'') (30 / 100))
           \<lparr>ev_passed := False\<rparr>]))"
proof -
  let ?named = "filter (\<lambda>v. \<not> is_raw_name (rv_name v)) vs"
  obtain n where n: "validate_loop ?named 0 [] = Inr (n, issues)"
    using assms by (auto simp: validate_values_def Let_def rbind_eq_Inr)
  from validate_loop_Inr [OF n] have f: "n = length (filter flagged ?named)" "issues = [] \<longleftrightarrow> n = 0"
    "\<forall>i \<in> set issues. vi_severity i = Error" by auto
  have z: "n = 0 \<longleftrightarrow> filter flagged ?named = []" using f(1) by simp
  have e: "es = (if ?named \<noteq> [] then [evidence ''named-registers'' ''named catalog registers decoded'' (8 / 100)] else []) @
      (if n \<noteq> 0 then [(evidence ''telemetry-plausibility''
          (show_nat n @ '' decoded value(s) failed plausibility checks'') (30 / 100)) \<lparr>ev_passed := False\<rparr>]
       else if ?named \<noteq> [] then [evidence ''telemetry-plausibility'' ''decoded values are plausible'' (12 / 100)]
       else [])"
    using assms by (simp only: validate_values_def Let_def n rbind_Inr prod.case sum.inject prod.inject)
  have "es = (if ?named = [] then [] else
      [evidence ''named-registers'' ''named catalog registers decoded'' (8 / 100),
       if filter flagged ?named = [] then evidence ''telemetry-plausibility'' ''decoded values are plausible'' (12 / 100)
       else (evidence ''telemetry-plausibility''
         (show_nat (length (filter flagged ?named)) @ '' decoded value(s) failed plausibility checks'') (30 / 100))
           \<lparr>ev_passed := False\<rparr>])"
    unfolding e z f(1) by (cases "?named = []"; cases "filter flagged ?named = []"; simp)
  then show ?thesis using f(2,3) z validate_loop_issues [OF n] unfolding Let_def by blast
qed

definition volts :: "string \<Rightarrow> pyfloat \<Rightarrow> register_value" where
  "volts name x = \<lparr>rv_name = name, rv_address = 8, rv_function = Holding, rv_raw = [1], rv_value = VFloat x,
     rv_unit = Some ''V''\<rparr>"

lemma volts_loop:
  "validate_values [volts ''battery_voltage'' (Fin 2000)] = Inr
    ([evidence ''named-registers'' ''named catalog registers decoded'' (8 / 100),
      (evidence ''telemetry-plausibility'' (show_nat 1 @ '' decoded value(s) failed plausibility checks'') (30 / 100))
        \<lparr>ev_passed := False\<rparr>],
     [\<lparr>vi_code = ''implausible-value'',
       vi_message = ''battery_voltage is outside a broad physical plausibility envelope'', vi_severity = Error\<rparr>])"
  by (simp add: validate_values_def volts_def is_raw_name_def startswith_def non_finite_def outside_def
      envelope_def number_float_def fis_finite_def)

theorem validate_values_exact_witness:
  "flagged (volts ''battery_voltage'' (Fin 2000)) \<and>
   snd (projr (validate_values [volts ''battery_voltage'' (Fin 2000)])) =
     map issue_of (first_of_runs True [volts ''battery_voltage'' (Fin 2000)])"
proof -
  have v: "\<not> is_raw_name (rv_name (volts ''battery_voltage'' (Fin 2000)))" by code_simp
  have n: "is_number (rv_value (volts ''battery_voltage'' (Fin 2000)))" by code_simp
  from validate_values_exact [OF volts_loop]
  have b: "filter flagged (filter (\<lambda>v. \<not> is_raw_name (rv_name v)) [volts ''battery_voltage'' (Fin 2000)]) \<noteq> []"
    and i: "snd (projr (validate_values [volts ''battery_voltage'' (Fin 2000)])) =
      map issue_of (first_of_runs True (filter (\<lambda>v. is_number (rv_value v)) (dropWhile (\<lambda>v. \<not> flagged v)
        (filter (\<lambda>v. \<not> is_raw_name (rv_name v)) [volts ''battery_voltage'' (Fin 2000)]))))"
    unfolding Let_def volts_loop sum.sel snd_conv by blast+
  from b have f: "flagged (volts ''battery_voltage'' (Fin 2000))" by (auto split: if_splits)
  from i v n f have "snd (projr (validate_values [volts ''battery_voltage'' (Fin 2000)])) =
     map issue_of (first_of_runs True [volts ''battery_voltage'' (Fin 2000)])"
    by (simp only: filter.simps dropWhile.simps comp_apply not_True_eq_False if_True if_False simp_thms)
  with f show ?thesis by (rule conjI)
qed

text \<open>A plausible voltage reported as outside its envelope, after one that is not a number.\<close>

lemma plausible_value_blamed:
  "\<not> flagged (volts ''array_voltage'' (Fin 18)) \<and>
   map vi_message (snd (projr (validate_values [volts ''battery_voltage'' NaN, volts ''array_voltage'' (Fin 18)]))) =
     [''battery_voltage decoded to a non-finite value'',
      ''array_voltage is outside a broad physical plausibility envelope'']"
  by (simp add: validate_values_def volts_def is_raw_name_def startswith_def non_finite_def outside_def
      envelope_def number_float_def fis_finite_def flagged_def)

lemma refresh_forgets:
  assumes "refresh_intelligence di vs0 ep0 = Inr di0"
  shows "refresh_intelligence di0 vs ep' = refresh_intelligence di vs ep'"
proof -
  obtain es issues where v: "validate_values vs0 = Inr (es, issues)"
    using assms by (auto simp: refresh_intelligence_def Let_def rbind_eq_Inr)
  obtain n where n: "validate_loop (filter (\<lambda>v. \<not> is_raw_name (rv_name v)) vs0) 0 [] = Inr (n, issues)"
    using v by (auto simp: validate_values_def Let_def rbind_eq_Inr)
  have i: "filter (\<lambda>i. vi_code i \<notin> {''non-finite'', ''implausible-value''}) issues = []"
    using validate_loop_Inr [OF n] by (auto simp: filter_empty_conv)
  have e: "filter (\<lambda>e. ev_code e \<notin> {''named-registers'', ''telemetry-plausibility''}) es = []"
    using v by (auto simp: validate_values_def Let_def rbind_eq_Inr evidence_def filter_empty_conv split: if_splits)
  obtain st caps conf where d: "di0 = di\<lparr>di_confidence := conf, di_status := st, di_capabilities := caps,
      di_evidence := filter (\<lambda>e. ev_code e \<notin> {''named-registers'', ''telemetry-plausibility''}) (di_evidence di) @ es,
      di_warnings := filter (\<lambda>i. vi_code i \<notin> {''non-finite'', ''implausible-value''}) (di_warnings di) @ issues\<rparr>"
    using assms v by (auto simp: refresh_intelligence_def Let_def rbind_eq_Inr)
  have f: "filter P (filter P xs @ ys) = filter P xs" if "filter P ys = []" for P :: "'b \<Rightarrow> bool" and xs ys
    using that by simp
  show ?thesis unfolding d refresh_intelligence_def
    by (cases di) (simp only: f [OF e] f [OF i] device_intelligence.select_convs device_intelligence.update_convs)
qed

text \<open>A refresh reflects the latest poll only: after any earlier refresh it gives what it would have
  given on the resolved identity, and the device is then invalid exactly when it has a profile of its
  own and a named value of that poll is implausible.\<close>

theorem refresh_reflects_latest_poll:
  assumes "resolve_device_intelligence rd c identity ep = (c', Inr di)"
    "refresh_intelligence di vs0 ep0 = Inr di0" "refresh_intelligence di0 vs ep' = Inr di1"
  shows "refresh_intelligence di vs ep' = Inr di1 \<and>
    (di_status di1 = Invalid \<longleftrightarrow> di_profile di \<noteq> ''generic'' \<and>
      (\<exists>v \<in> set vs. \<not> is_raw_name (rv_name v) \<and> flagged v)) \<and>
    fle (Fin 0) (di_confidence di1) \<and> fle (di_confidence di1) (Fin 1)"
proof -
  have r: "refresh_intelligence di vs ep' = Inr di1" using refresh_forgets [OF assms(2)] assms(3) by simp
  obtain spec where s: "spec \<in> set (PROFILES @ [GENERIC])" "resolved identity spec di"
    using resolve_resolved [of rd c identity ep] assms(1) by auto
  have n: "spec_named (di_profile di) = spec" "di_profile di = sp_name spec"
    using spec_named_self [OF s(1)] s(2) by (simp_all add: resolved_def)
  obtain es issues where v: "validate_values vs = Inr (es, issues)"
    using r by (auto simp: refresh_intelligence_def Let_def rbind_eq_Inr)
  obtain k where k: "validate_loop (filter (\<lambda>v. \<not> is_raw_name (rv_name v)) vs) 0 [] = Inr (k, issues)"
    using v by (auto simp: validate_values_def Let_def rbind_eq_Inr)
  have iss: "(\<exists>i \<in> set issues. vi_severity i = Error) \<longleftrightarrow> (\<exists>v \<in> set vs. \<not> is_raw_name (rv_name v) \<and> flagged v)"
  proof -
    have "(\<exists>i \<in> set issues. vi_severity i = Error) \<longleftrightarrow> issues \<noteq> []"
      using validate_loop_Inr [OF k] by (cases issues) auto
    also have "\<dots> \<longleftrightarrow> (\<exists>v \<in> set vs. \<not> is_raw_name (rv_name v) \<and> flagged v)"
      using validate_loop_Inr [OF k] by (auto simp: filter_empty_conv)
    finally show ?thesis .
  qed
  let ?W = "filter (\<lambda>i. vi_code i \<notin> {''non-finite'', ''implausible-value''}) (di_warnings di) @ issues"
  have w: "(\<exists>i \<in> set ?W. vi_severity i = Error) \<longleftrightarrow> (\<exists>i \<in> set issues. vi_severity i = Error)"
    using s(2) by (force simp: resolved_def)
  have st: "status_of spec (di_confidence di1) (di_firmware di) ?W = Inr (di_status di1)"
    "\<exists>xs. di_confidence di1 = score xs"
    using r v n(1) by (auto simp: refresh_intelligence_def Let_def rbind_eq_Inr)
  have "di_status di1 = Invalid \<longleftrightarrow> spec \<noteq> GENERIC \<and> (\<exists>i \<in> set ?W. vi_severity i = Error)"
    using st(1) unfolding status_of_catalog [OF s(1)] by (auto split: if_splits)
  then show ?thesis using r st(2) score_bounds generic_name [OF s(1)] unfolding w iss n(2) by auto
qed

lemma refresh_returns: "validate_values vs = Inr r \<Longrightarrow> \<exists>di'. refresh_intelligence di vs ep' = Inr di'"
  using status_of_catalog [OF spec_named_mem [of "di_profile di"]]
  by (cases r) (simp add: refresh_intelligence_def Let_def)

theorem refresh_reflects_latest_poll_witness:
  "\<exists>c' di di0 di1. resolve_device_intelligence dead_reader () empty_identification None = (c', Inr di) \<and>
     refresh_intelligence di [volts ''battery_voltage'' (Fin 2000)] None = Inr di0 \<and>
     refresh_intelligence di0 [] None = Inr di1 \<and> di_status di1 \<noteq> Invalid"
proof -
  obtain c' di where r: "resolve_device_intelligence dead_reader () empty_identification None = (c', Inr di)"
    using resolve_resolved [of dead_reader "()" empty_identification None] by blast
  obtain di0 where r0: "refresh_intelligence di [volts ''battery_voltage'' (Fin 2000)] None = Inr di0"
    using refresh_returns [OF volts_loop] by blast
  have "validate_values [] = Inr ([], [])" by (simp add: validate_values_def)
  then obtain di1 where r1: "refresh_intelligence di0 [] None = Inr di1" using refresh_returns by blast
  from refresh_reflects_latest_poll [OF r r0 r1] have "di_status di1 \<noteq> Invalid" by simp
  with r r0 r1 show ?thesis by blast
qed

text \<open>After one value that is not finite, the loop reports the next plausible one as implausible: the
  count it tests is the count of all invalid values so far.\<close>

theorem validation_blames_plausible_value:
  "\<not> flagged (volts ''battery_voltage'' (Fin 12)) \<and>
   (\<exists>es. validate_values [volts ''array_voltage'' NaN, volts ''battery_voltage'' (Fin 12)] = Inr (es,
     [\<lparr>vi_code = ''non-finite'', vi_message = ''array_voltage decoded to a non-finite value'', vi_severity = Error\<rparr>,
      \<lparr>vi_code = ''implausible-value'',
        vi_message = ''battery_voltage is outside a broad physical plausibility envelope'', vi_severity = Error\<rparr>]))"
  by (simp add: validate_values_def volts_def is_raw_name_def startswith_def non_finite_def outside_def
      envelope_def number_float_def fis_finite_def flagged_def)

end
