(* ===== verification/Lifecycle.thy ===== *)
theory Lifecycle
  imports Py_Order Py_Text
begin

text \<open>
  \<open>controllers/lifecycle.py\<close>: the state of one device and its retry policy.  Every operation is a
  function on the record; the two clocks it reads are arguments (\<open>ts\<close> the wall clock as text, \<open>t\<close> the
  monotonic clock).  \<open>lifecycle_step\<close> is the transition relation the operations make together, for a
  fixed policy; the states that can occur are those reachable from a new record.
\<close>

section \<open>Operations\<close>

datatype lifecycle_state = Discovered | Connecting | Online | Degraded | Offline | Rediscovering

record device_lifecycle =
  lc_state :: lifecycle_state
  lc_consecutive_failures :: int
  lc_reconnect_count :: int
  lc_endpoint_changes :: int
  lc_last_discovered :: string
  lc_last_success :: string
  lc_offline_since :: string
  lc_next_retry :: pyfloat
  lc_retry_in :: pyfloat

definition DeviceLifecycle :: device_lifecycle where
  "DeviceLifecycle = \<lparr>lc_state = Discovered, lc_consecutive_failures = 0, lc_reconnect_count = 0,
     lc_endpoint_changes = 0, lc_last_discovered = '''', lc_last_success = '''', lc_offline_since = '''',
     lc_next_retry = Fin 0, lc_retry_in = Fin 0\<rparr>"

definition mark_discovered :: "string \<Rightarrow> bool \<Rightarrow> device_lifecycle \<Rightarrow> device_lifecycle" where
  "mark_discovered ts endpoint_changed l =
    l\<lparr>lc_last_discovered := ts,
      lc_endpoint_changes := (if endpoint_changed then lc_endpoint_changes l + 1 else lc_endpoint_changes l),
      lc_state := (if lc_state l \<in> {Offline, Rediscovering} then Connecting
                   else if lc_state l \<noteq> Online then Discovered else lc_state l),
      lc_next_retry := Fin 0, lc_retry_in := Fin 0\<rparr>"

definition mark_missing :: "string \<Rightarrow> device_lifecycle \<Rightarrow> device_lifecycle" where
  "mark_missing ts l =
    l\<lparr>lc_state := (if lc_state l \<noteq> Offline then Rediscovering else lc_state l),
      lc_offline_since := (if lc_offline_since l = [] then ts else lc_offline_since l)\<rparr>"

definition mark_connecting :: "device_lifecycle \<Rightarrow> device_lifecycle" where
  "mark_connecting l = l\<lparr>lc_state := (if lc_state l \<noteq> Online then Connecting else lc_state l)\<rparr>"

definition mark_success :: "string \<Rightarrow> device_lifecycle \<Rightarrow> device_lifecycle" where
  "mark_success ts l =
    l\<lparr>lc_reconnect_count :=
        (if lc_state l \<in> {Offline, Rediscovering, Degraded} \<or> lc_consecutive_failures l \<noteq> 0
         then lc_reconnect_count l + 1 else lc_reconnect_count l),
      lc_state := Online, lc_consecutive_failures := 0, lc_last_success := ts, lc_offline_since := '''',
      lc_next_retry := Fin 0, lc_retry_in := Fin 0\<rparr>"

record retry_policy =
  rp_threshold :: int
  rp_initial_backoff :: pyfloat
  rp_max_backoff :: pyfloat

text \<open>\<open>min(max_backoff, initial_backoff * (2**exponent))\<close>: the power is an integer, which the product
  converts to a float.\<close>

definition backoff :: "retry_policy \<Rightarrow> int \<Rightarrow> pyfloat res" where
  "backoff rp failures =
    rbind (float_of_int (2 ^ nat (max 0 (failures - 1)))) (\<lambda>p.
      Inr (fmin (rp_max_backoff rp) (fmul (rp_initial_backoff rp) p)))"

text \<open>The state is changed before the delay is computed, so an exception leaves the first half.\<close>

definition count_failure :: "retry_policy \<Rightarrow> string \<Rightarrow> device_lifecycle \<Rightarrow> device_lifecycle" where
  "count_failure rp ts l =
    (let n = lc_consecutive_failures l + 1;
         st = (if rp_threshold rp \<le> n then Offline else Degraded) in
     l\<lparr>lc_consecutive_failures := n, lc_state := st,
       lc_offline_since := (if st = Offline \<and> lc_offline_since l = [] then ts else lc_offline_since l)\<rparr>)"

definition mark_failure :: "retry_policy \<Rightarrow> string \<Rightarrow> pyfloat \<Rightarrow> device_lifecycle \<Rightarrow> device_lifecycle \<times> unit res" where
  "mark_failure rp ts t l =
    (let l' = count_failure rp ts l in
     case backoff rp (lc_consecutive_failures l') of
       Inl e \<Rightarrow> (l', Inl e)
     | Inr delay \<Rightarrow> (l'\<lparr>lc_retry_in := delay, lc_next_retry := fadd t delay\<rparr>, Inr ()))"

definition can_poll :: "pyfloat \<Rightarrow> device_lifecycle \<Rightarrow> bool" where
  "can_poll now l \<longleftrightarrow> lc_state l \<noteq> Rediscovering \<and> fle (lc_next_retry l) now"

lemmas lifecycle_defs = mark_discovered_def mark_missing_def mark_connecting_def mark_success_def
  mark_failure_def count_failure_def

section \<open>The state machine\<close>

inductive lifecycle_step :: "retry_policy \<Rightarrow> device_lifecycle \<Rightarrow> device_lifecycle \<Rightarrow> bool" for rp where
  discovered: "ts \<noteq> [] \<Longrightarrow> lifecycle_step rp l (mark_discovered ts changed l)"
| missing: "ts \<noteq> [] \<Longrightarrow> lifecycle_step rp l (mark_missing ts l)"
| connecting: "lifecycle_step rp l (mark_connecting l)"
| success: "ts \<noteq> [] \<Longrightarrow> lifecycle_step rp l (mark_success ts l)"
| failure: "ts \<noteq> [] \<Longrightarrow> mark_failure rp ts t l = (l', r) \<Longrightarrow> lifecycle_step rp l l'"

inductive lifecycle_reachable :: "retry_policy \<Rightarrow> device_lifecycle \<Rightarrow> bool" for rp where
  start: "lifecycle_reachable rp DeviceLifecycle"
| step: "lifecycle_reachable rp l \<Longrightarrow> lifecycle_step rp l l' \<Longrightarrow> lifecycle_reachable rp l'"

inductive_cases lifecycle_stepE: "lifecycle_step rp l l'"

definition policy_ok :: "retry_policy \<Rightarrow> bool" where
  "policy_ok rp \<longleftrightarrow> 1 \<le> rp_threshold rp \<and> flt (Fin 0) (rp_initial_backoff rp) \<and>
     fle (rp_initial_backoff rp) (rp_max_backoff rp) \<and> is_double (rp_initial_backoff rp) \<and>
     fis_finite (rp_max_backoff rp)"

text \<open>What each state says about the counters, and the bounds of the delay.\<close>

definition lifecycle_ok :: "retry_policy \<Rightarrow> device_lifecycle \<Rightarrow> bool" where
  "lifecycle_ok rp l \<longleftrightarrow>
     0 \<le> lc_consecutive_failures l \<and> 0 \<le> lc_reconnect_count l \<and> 0 \<le> lc_endpoint_changes l \<and>
     (lc_state l = Online \<longrightarrow> lc_consecutive_failures l = 0 \<and> lc_offline_since l = [] \<and>
        lc_last_success l \<noteq> [] \<and> lc_next_retry l = Fin 0) \<and>
     (lc_state l = Offline \<longrightarrow> rp_threshold rp \<le> lc_consecutive_failures l \<and> lc_offline_since l \<noteq> []) \<and>
     (lc_state l = Degraded \<longrightarrow> 1 \<le> lc_consecutive_failures l \<and> lc_consecutive_failures l < rp_threshold rp) \<and>
     (lc_state l = Rediscovering \<longrightarrow> lc_offline_since l \<noteq> []) \<and>
     (rp_threshold rp \<le> lc_consecutive_failures l \<longrightarrow> lc_offline_since l \<noteq> []) \<and>
     fle (Fin 0) (lc_retry_in l) \<and> fle (lc_retry_in l) (rp_max_backoff rp)"

section \<open>Facts\<close>

lemma backoff_scaled:
  assumes "1 \<le> n" "n \<le> 1024"
  shows "backoff rp n = Inr (fmin (rp_max_backoff rp) (fmul (rp_initial_backoff rp) (Fin (2 ^ nat (n - 1)))))"
proof -
  have "nat (max 0 (n - 1)) = nat (n - 1)" "nat (n - 1) < 1024" using assms by auto
  then show ?thesis by (simp add: backoff_def float_of_power)
qed

lemma backoff_overflow: "1024 < n \<Longrightarrow> backoff rp n = Inl OverflowError"
proof -
  assume "1024 < n"
  then have "nat (max 0 (n - 1)) = nat (n - 1)" "\<not> nat (n - 1) < 1024" by auto
  then show ?thesis by (simp add: backoff_def float_of_power)
qed

lemma fmin_mono: "fle x y \<Longrightarrow> m \<noteq> NaN \<Longrightarrow> fle (fmin m x) (fmin m y)"
  by (cases m; cases x; cases y) (auto simp: fmin_def)

lemma scaled_mono:
  assumes "flt (Fin 0) i" "0 \<le> a" "a \<le> b"
  shows "0 < a \<Longrightarrow> fle (fmul i (Fin a)) (fmul i (Fin b))"
  using assms by (cases i) (auto intro!: fl_mono mult_left_mono simp: inf_of_def)

lemma backoff_bounds:
  assumes "policy_ok rp" "backoff rp n = Inr d"
  shows "fle (rp_initial_backoff rp) d \<and> fle d (rp_max_backoff rp)"
proof -
  let ?m = "rp_max_backoff rp" and ?i = "rp_initial_backoff rp"
  obtain i m where im: "?i = Fin i" "?m = Fin m" "0 < i" "i \<le> m"
    using assms(1) by (cases ?i; cases ?m) (auto simp: policy_ok_def fis_finite_def)
  have di: "fl i = Fin i" using assms(1) im by (simp add: policy_ok_def is_double_Fin)
  obtain k where k: "d = fmin ?m (fmul ?i (Fin (2 ^ k)))"
    using assms(2) by (auto simp: backoff_def rbind_eq_Inr float_of_power split: if_splits)
  have "i \<le> i * 2 ^ k" using im(3) by simp
  then have "fle (Fin i) (fl (i * 2 ^ k))" by (intro fl_le [OF _ _ di]) simp_all
  then have "fle (Fin i) d" unfolding k im using im(4)
    by (cases "fl (i * 2 ^ k)") (auto simp: fmin_def)
  moreover have "fle d ?m" unfolding k by (rule fmin_le) (simp add: im)
  ultimately show ?thesis by (simp add: im)
qed

lemma failure_cases:
  "mark_failure rp ts t l = (l', r) \<Longrightarrow>
   (\<exists>e. r = Inl e \<and> l' = count_failure rp ts l) \<or>
   (\<exists>d. r = Inr () \<and> backoff rp (lc_consecutive_failures l + 1) = Inr d \<and>
      l' = (count_failure rp ts l)\<lparr>lc_retry_in := d, lc_next_retry := fadd t d\<rparr>)"
  by (auto simp: mark_failure_def count_failure_def Let_def split: sum.splits)

lemma count_failure_ok:
  "policy_ok rp \<Longrightarrow> lifecycle_ok rp l \<Longrightarrow> ts \<noteq> [] \<Longrightarrow> lifecycle_ok rp (count_failure rp ts l)"
  by (auto simp: lifecycle_ok_def count_failure_def policy_ok_def Let_def)

lemma policy_positive: "policy_ok rp \<Longrightarrow> fle (Fin 0) (rp_max_backoff rp)"
  unfolding policy_ok_def using fle_trans flt_imp_fle by blast

lemma mark_ok:
  assumes "policy_ok rp" "lifecycle_ok rp l" "ts \<noteq> []"
  shows "lifecycle_ok rp (mark_discovered ts changed l)" "lifecycle_ok rp (mark_missing ts l)"
    "lifecycle_ok rp (mark_connecting l)" "lifecycle_ok rp (mark_success ts l)"
  using assms policy_positive [OF assms(1)]
  by (cases "lc_state l"; simp add: lifecycle_ok_def policy_ok_def
    mark_discovered_def mark_missing_def mark_connecting_def mark_success_def)+

lemma lifecycle_step_ok:
  assumes "policy_ok rp" "lifecycle_step rp l l'" "lifecycle_ok rp l"
  shows "lifecycle_ok rp l'"
  using assms(2)
proof (cases rule: lifecycle_step.cases)
  case (failure ts t r)
  from count_failure_ok [OF assms(1,3) failure(1)]
  have c: "lifecycle_ok rp (count_failure rp ts l)" .
  from failure_cases [OF failure(2)] show ?thesis
  proof (elim disjE exE conjE)
    fix d assume d: "backoff rp (lc_consecutive_failures l + 1) = Inr d"
      "l' = (count_failure rp ts l)\<lparr>lc_retry_in := d, lc_next_retry := fadd t d\<rparr>"
    have "fle (Fin 0) d \<and> fle d (rp_max_backoff rp)"
      using backoff_bounds [OF assms(1) d(1)] assms(1) fle_trans flt_imp_fle unfolding policy_ok_def by blast
    moreover have "lc_state (count_failure rp ts l) \<noteq> Online" by (simp add: count_failure_def Let_def)
    ultimately show ?thesis using c by (simp add: d(2) lifecycle_ok_def)
  qed (use c in simp)
qed (use mark_ok [OF assms(1,3)] mark_ok(3) [OF assms(1,3), of "''now''"] in simp_all)

lemma lifecycle_new_ok: "policy_ok rp \<Longrightarrow> lifecycle_ok rp DeviceLifecycle"
  using policy_positive [of rp] by (simp add: lifecycle_ok_def DeviceLifecycle_def policy_ok_def)

lemma lifecycle_reachable_ok:
  assumes "policy_ok rp" "lifecycle_reachable rp l"
  shows "lifecycle_ok rp l"
  using assms(2)
proof induction
  case start
  show ?case by (rule lifecycle_new_ok [OF assms(1)])
next
  case (step l l')
  show ?case by (rule lifecycle_step_ok [OF assms(1) step.hyps(2) step.IH])
qed

section \<open>Properties\<close>

text \<open>C18: in every reachable state of a device's life cycle, online means no failures and nothing to
  wait for, degraded means fewer failures in a row than the threshold and offline at least that many
  with the time of the outage kept, a device being rediscovered is never polled, and the announced
  delay lies between 0 and the maximum.\<close>

theorem lifecycle_invariant:
  assumes "policy_ok rp" "lifecycle_reachable rp l"
  shows "(lc_state l = Online \<longrightarrow> lc_consecutive_failures l = 0 \<and> lc_offline_since l = [] \<and>
      lc_last_success l \<noteq> [] \<and> (\<forall>now. fle (Fin 0) now \<longrightarrow> can_poll now l)) \<and>
    (lc_state l = Degraded \<longrightarrow> 1 \<le> lc_consecutive_failures l \<and> lc_consecutive_failures l < rp_threshold rp) \<and>
    (lc_state l = Offline \<longrightarrow> rp_threshold rp \<le> lc_consecutive_failures l) \<and>
    (lc_state l = Offline \<or> lc_state l = Rediscovering \<or> rp_threshold rp \<le> lc_consecutive_failures l \<longrightarrow>
      lc_offline_since l \<noteq> []) \<and>
    (lc_state l = Rediscovering \<longrightarrow> \<not> can_poll now l) \<and>
    fle (Fin 0) (lc_retry_in l) \<and> fle (lc_retry_in l) (rp_max_backoff rp)"
  using lifecycle_reachable_ok [OF assms] by (auto simp: lifecycle_ok_def can_poll_def)

definition default_policy :: retry_policy where
  "default_policy = \<lparr>rp_threshold = 3, rp_initial_backoff = Fin 2, rp_max_backoff = Fin 60\<rparr>"

lemma default_policy_ok: "policy_ok default_policy"
  using fl_int [of 2] by (simp add: policy_ok_def default_policy_def is_double_Fin fis_finite_def)

theorem lifecycle_invariant_witness:
  "lc_offline_since (mark_missing ''09:30'' DeviceLifecycle) \<noteq> [] \<and>
   \<not> can_poll (Fin 5) (mark_missing ''09:30'' DeviceLifecycle)"
proof -
  have "lifecycle_reachable default_policy (mark_missing ''09:30'' DeviceLifecycle)"
    by (rule step [OF start]) (rule missing, simp)
  from lifecycle_invariant [OF default_policy_ok this, of "Fin 5"] show ?thesis
    by (simp add: mark_missing_def DeviceLifecycle_def)
qed

text \<open>C19: the retry delay doubles with every failure in a row up to the maximum: after the \<open>n\<close>-th the
  delay is the smaller of the maximum and the initial delay times \<open>2 ^ (n - 1)\<close>, it lies between the
  initial delay and the maximum, and it never shrinks; from the 1025th failure in a row on, however,
  \<open>mark_failure\<close> raises \<open>OverflowError\<close>, with the failure counted and no new delay set.\<close>

theorem backoff_schedule:
  assumes "policy_ok rp" "0 \<le> lc_consecutive_failures l" "n = lc_consecutive_failures l + 1"
  shows "(n \<le> 1024 \<longrightarrow> (\<exists>d. mark_failure rp ts t l =
        ((count_failure rp ts l)\<lparr>lc_retry_in := d, lc_next_retry := fadd t d\<rparr>, Inr ()) \<and>
      d = fmin (rp_max_backoff rp) (fmul (rp_initial_backoff rp) (Fin (2 ^ nat (n - 1)))) \<and>
      fle (rp_initial_backoff rp) d \<and> fle d (rp_max_backoff rp) \<and>
      (\<forall>m d'. n \<le> m \<and> backoff rp m = Inr d' \<longrightarrow> fle d d'))) \<and>
    (1024 < n \<longrightarrow> mark_failure rp ts t l = (count_failure rp ts l, Inl OverflowError) \<and>
      lc_retry_in (count_failure rp ts l) = lc_retry_in l)"
proof (intro conjI impI)
  have n: "lc_consecutive_failures (count_failure rp ts l) = n" "1 \<le> n"
    using assms(2,3) by (simp_all add: count_failure_def Let_def)
  show "\<exists>d. mark_failure rp ts t l =
        ((count_failure rp ts l)\<lparr>lc_retry_in := d, lc_next_retry := fadd t d\<rparr>, Inr ()) \<and>
      d = fmin (rp_max_backoff rp) (fmul (rp_initial_backoff rp) (Fin (2 ^ nat (n - 1)))) \<and>
      fle (rp_initial_backoff rp) d \<and> fle d (rp_max_backoff rp) \<and>
      (\<forall>m d'. n \<le> m \<and> backoff rp m = Inr d' \<longrightarrow> fle d d')" if "n \<le> 1024"
  proof -
    let ?d = "fmin (rp_max_backoff rp) (fmul (rp_initial_backoff rp) (Fin (2 ^ nat (n - 1))))"
    have b: "backoff rp n = Inr ?d" using n(2) that by (rule backoff_scaled)
    have "fle ?d d'" if m: "n \<le> m" "backoff rp m = Inr d'" for m d'
    proof -
      have "m \<le> 1024" using m(2) backoff_overflow [of m rp] by (cases "m \<le> 1024") auto
      then have "d' = fmin (rp_max_backoff rp) (fmul (rp_initial_backoff rp) (Fin (2 ^ nat (m - 1))))"
        using backoff_scaled [of m rp] m n(2) by simp
      moreover have "(2 :: rat) ^ nat (n - 1) \<le> 2 ^ nat (m - 1)" using m(1) by (intro power_increasing) auto
      ultimately show ?thesis using assms(1) unfolding policy_ok_def
        by (auto intro!: fmin_mono scaled_mono simp: fis_finite_def split: pyfloat.splits)
    qed
    then have "\<forall>m d'. n \<le> m \<and> backoff rp m = Inr d' \<longrightarrow> fle ?d d'" by blast
    then show ?thesis using b n(1) backoff_bounds [OF assms(1) b] by (intro exI [of _ ?d]) (simp add: mark_failure_def)
  qed
  show "mark_failure rp ts t l = (count_failure rp ts l, Inl OverflowError)" if "1024 < n"
    using backoff_overflow [OF that] n(1) by (simp add: mark_failure_def)
  show "lc_retry_in (count_failure rp ts l) = lc_retry_in l" by (simp add: count_failure_def Let_def)
qed

theorem backoff_schedule_witness:
  "snd (mark_failure default_policy ''09:30'' (Fin 7) (DeviceLifecycle\<lparr>lc_consecutive_failures := 1024\<rparr>)) =
     Inl OverflowError"
  using backoff_schedule [OF default_policy_ok, of "DeviceLifecycle\<lparr>lc_consecutive_failures := 1024\<rparr>" 1025] by simp

text \<open>A device that goes missing without a failed poll and comes back is not counted as a reconnect.\<close>

theorem missing_reconnect_uncounted:
  "lc_state l = Online \<Longrightarrow> lc_consecutive_failures l = 0 \<Longrightarrow>
   lc_reconnect_count (mark_success a (mark_connecting (mark_discovered b c (mark_missing d l)))) = lc_reconnect_count l"
  by (simp add: mark_success_def mark_connecting_def mark_discovered_def mark_missing_def)

end
