(* ===== verification/Polling.thy ===== *)
theory Polling
  imports Py_Repr Py_Order Domain_Models
begin

text \<open>
  \<open>polling/service.py\<close>: the traffic of one poll, the rate limit on persistence, and the controller
  that calibrates the poll interval in stages.  Times are arguments: the wall clock of a sample is the
  instant it denotes, in microseconds, or \<open>None\<close> for a text that is no timestamp.
\<close>

section \<open>Samples\<close>

record poll_sample =
  ps_observed_at :: "int option"
  ps_transport :: transport_name
  ps_interval :: pyfloat
  ps_latency_ms :: pyfloat
  ps_request_count :: int
  ps_successful_requests :: int
  ps_failed_requests :: int
  ps_request_bytes :: int
  ps_response_bytes :: int
  ps_wire_time_ms :: "pyfloat option"
  ps_bus_utilization :: "pyfloat option"
  ps_deadline_missed :: bool
  ps_success :: bool
  ps_error :: string

definition total_bytes :: "poll_sample \<Rightarrow> int" where
  "total_bytes s = ps_request_bytes s + ps_response_bytes s"

definition frame_size :: "string \<Rightarrow> int" where
  "frame_size hex_payload = int (length hex_payload div 2)"

definition bits_per_character :: "int \<Rightarrow> int" where
  "bits_per_character stop_bits = 1 + 8 + stop_bits"

definition estimate_rtu_wire_time_ms :: "int \<Rightarrow> int \<Rightarrow> int \<Rightarrow> int \<Rightarrow> int \<Rightarrow> pyfloat res" where
  "estimate_rtu_wire_time_ms request_bytes response_bytes request_count baudrate stop_bits =
    (if baudrate \<le> 0 \<or> request_count \<le> 0 then Inr (Fin 0)
     else
       let frame_bits = (request_bytes + response_bytes) * bits_per_character stop_bits in
       rbind (float_of_int request_count) (\<lambda>rc.
       rbind (float_of_int (bits_per_character stop_bits)) (\<lambda>bits.
       rbind (float_of_int frame_bits) (\<lambda>frame.
       rbind (float_of_int baudrate) (\<lambda>baud.
       rbind (fdiv (fadd frame (fmul (fmul rc (Fin 7)) bits)) baud) (\<lambda>t.
         Inr (fmul t (Fin 1000))))))))"

text \<open>\<open>PollTrafficTracker\<close>.\<close>

record traffic_tracker =
  tt_transport :: transport_name
  tt_baudrate :: "int option"
  tt_stop_bits :: int
  tt_exchanges :: "modbus_exchange list"

definition tracker_begin :: "traffic_tracker \<Rightarrow> traffic_tracker" where
  "tracker_begin t = t\<lparr>tt_exchanges := []\<rparr>"

definition tracker_record :: "modbus_exchange \<Rightarrow> traffic_tracker \<Rightarrow> traffic_tracker" where
  "tracker_record e t = t\<lparr>tt_exchanges := tt_exchanges t @ [e]\<rparr>"

text \<open>The wire time and the bus utilization: only on a serial line whose speed is known.\<close>

definition tracker_wire :: "traffic_tracker \<Rightarrow> pyfloat \<Rightarrow> int \<Rightarrow> int \<Rightarrow> (pyfloat option \<times> pyfloat option) res" where
  "tracker_wire t interval request_bytes response_bytes =
    (if tt_transport t = Serial \<and> int_or (tt_baudrate t) 0 \<noteq> 0 then
       rbind (estimate_rtu_wire_time_ms request_bytes response_bytes (int (length (tt_exchanges t)))
           (the (tt_baudrate t)) (tt_stop_bits t)) (\<lambda>wire.
       if flt (Fin 0) interval then
         rbind (fdiv wire (fmul interval (Fin 1000))) (\<lambda>u. Inr (Some wire, Some (fmul u (Fin 100))))
       else Inr (Some wire, None))
     else Inr (None, None))"

definition tracker_finish ::
  "int \<Rightarrow> pyfloat \<Rightarrow> pyfloat \<Rightarrow> bool \<Rightarrow> string \<Rightarrow> traffic_tracker \<Rightarrow> poll_sample res" where
  "tracker_finish now interval latency_ms success err t =
    (let exchanges = tt_exchanges t;
         request_bytes = sum_list (map (\<lambda>e. frame_size (ex_request_hex e)) exchanges);
         response_bytes = sum_list (map (\<lambda>e. frame_size (ex_response_hex e)) exchanges);
         successful = int (length (filter (\<lambda>e. ex_error e = None) exchanges)) in
     rbind (tracker_wire t interval request_bytes response_bytes) (\<lambda>(wire, bus).
       Inr \<lparr>ps_observed_at = Some now, ps_transport = tt_transport t, ps_interval = interval,
         ps_latency_ms = latency_ms, ps_request_count = int (length exchanges),
         ps_successful_requests = successful, ps_failed_requests = int (length exchanges) - successful,
         ps_request_bytes = request_bytes, ps_response_bytes = response_bytes,
         ps_wire_time_ms = wire, ps_bus_utilization = bus,
         ps_deadline_missed = flt (fmul interval (Fin 1000)) latency_ms,
         ps_success = success, ps_error = take 1000 err\<rparr>))"

section \<open>\<open>PollPersistenceLimiter\<close>\<close>

record persistence_limiter =
  pl_interval :: pyfloat
  pl_last_write :: "string \<rightharpoonup> pyfloat"

definition limiter_new :: "pyfloat \<Rightarrow> persistence_limiter res" where
  "limiter_new interval =
    (if fle interval (Fin 0) then Inl (ValueError ''persistence interval must be positive'')
     else Inr \<lparr>pl_interval = interval, pl_last_write = Map.empty\<rparr>)"

definition should_persist :: "pyfloat \<Rightarrow> string \<Rightarrow> persistence_limiter \<Rightarrow> persistence_limiter \<times> bool" where
  "should_persist now controller_id pl =
    (case pl_last_write pl controller_id of
       Some previous \<Rightarrow>
         if flt (fsub now previous) (pl_interval pl) then (pl, False)
         else (pl\<lparr>pl_last_write := (pl_last_write pl)(controller_id \<mapsto> now)\<rparr>, True)
     | None \<Rightarrow> (pl\<lparr>pl_last_write := (pl_last_write pl)(controller_id \<mapsto> now)\<rparr>, True))"

definition limiter_forget :: "string \<Rightarrow> persistence_limiter \<Rightarrow> persistence_limiter" where
  "limiter_forget controller_id pl = pl\<lparr>pl_last_write := (pl_last_write pl)(controller_id := None)\<rparr>"

section \<open>Benchmark stages\<close>

text \<open>\<open>xs[i]\<close> of Python: negative indices count from the end.\<close>

definition py_index :: "'a list \<Rightarrow> int \<Rightarrow> 'a res" where
  "py_index xs i =
    (if 0 \<le> i \<and> i < int (length xs) then Inr (xs ! nat i)
     else if i < 0 \<and> - int (length xs) \<le> i then Inr (xs ! nat (i + int (length xs)))
     else Inl IndexError)"

definition percentile :: "pyfloat list \<Rightarrow> pyfloat \<Rightarrow> pyfloat option res" where
  "percentile vs fraction =
    (if vs = [] then Inr None
     else
       let ordered = sort vs; n = int (length ordered) in
       if n = 1 then Inr (Some (ordered ! 0))
       else
         rbind (float_of_int (n - 1)) (\<lambda>m.
         let position = fmul m fraction in
         rbind (int_of_float position) (\<lambda>lower.
         let upper = min (lower + 1) (n - 1) in
         rbind (float_of_int lower) (\<lambda>lower_f.
         let weight = fsub position lower_f in
         rbind (py_index ordered lower) (\<lambda>a.
         rbind (py_index ordered upper) (\<lambda>b.
           Inr (Some (fadd (fmul a (fsub (Fin 1) weight)) (fmul b weight)))))))))"

record perf_summary =
  su_samples :: int
  su_success_rate :: pyfloat
  su_poll_rate_hz :: pyfloat
  su_p50_ms :: "pyfloat option"
  su_p95_ms :: "pyfloat option"
  su_p99_ms :: "pyfloat option"
  su_deadline_misses :: int
  su_deadline_miss_rate :: pyfloat
  su_request_count :: int
  su_request_failure_rate :: pyfloat
  su_requests_per_second :: pyfloat
  su_bytes_per_second :: pyfloat
  su_bus_mean :: "pyfloat option"
  su_bus_max :: "pyfloat option"

definition count_true :: "bool list \<Rightarrow> int" where
  "count_true bs = sum_list (map of_bool bs)"

text \<open>\<open>max((max(timestamps) - min(timestamps)).total_seconds(), 0.0)\<close>.\<close>

definition duration_seconds :: "int list \<Rightarrow> pyfloat res" where
  "duration_seconds ts =
    (if 2 \<le> length ts then rbind (int_truediv (Max (set ts) - Min (set ts)) 1000000) (\<lambda>d. Inr (fmax d (Fin 0)))
     else Inr (Fin 0))"

definition rate :: "int \<Rightarrow> pyfloat \<Rightarrow> pyfloat res" where
  "rate n duration = (if flt (Fin 0) duration then rbind (float_of_int n) (\<lambda>x. fdiv x duration) else Inr (Fin 0))"

text \<open>The built-in \<open>max\<close> of a list of floats that is not empty.\<close>

fun fmaximum :: "pyfloat list \<Rightarrow> pyfloat" where
  "fmaximum [] = NaN"
| "fmaximum (x # xs) = foldl fmax x xs"

definition fmean :: "pyfloat list \<Rightarrow> pyfloat res" where
  "fmean xs = rbind (float_of_int (int (length xs))) (fdiv (fsum xs))"

definition empty_summary :: perf_summary where
  "empty_summary = \<lparr>su_samples = 0, su_success_rate = Fin 0, su_poll_rate_hz = Fin 0, su_p50_ms = None,
     su_p95_ms = None, su_p99_ms = None, su_deadline_misses = 0, su_deadline_miss_rate = Fin 0,
     su_request_count = 0, su_request_failure_rate = Fin 0, su_requests_per_second = Fin 0,
     su_bytes_per_second = Fin 0, su_bus_mean = None, su_bus_max = None\<rparr>"

definition summarize_performance :: "poll_sample list \<Rightarrow> perf_summary res" where
  "summarize_performance samples =
    (if samples = [] then Inr empty_summary
     else
       let n = int (length samples);
           latencies = map ps_latency_ms samples;
           success_count = count_true (map ps_success samples);
           misses = count_true (map ps_deadline_missed samples);
           requests = sum_list (map ps_request_count samples);
           failed = sum_list (map ps_failed_requests samples);
           bytes = sum_list (map total_bytes samples);
           bus = List.map_filter ps_bus_utilization samples in
       rbind (duration_seconds (List.map_filter ps_observed_at samples)) (\<lambda>duration.
       rbind (rate (n - 1) duration) (\<lambda>poll_rate.
       rbind (rate requests duration) (\<lambda>request_rate.
       rbind (rate bytes duration) (\<lambda>byte_rate.
       rbind (int_truediv success_count n) (\<lambda>success_rate.
       rbind (percentile latencies (fl (50 / 100))) (\<lambda>p50.
       rbind (percentile latencies (fl (95 / 100))) (\<lambda>p95.
       rbind (percentile latencies (fl (99 / 100))) (\<lambda>p99.
       rbind (int_truediv misses n) (\<lambda>miss_rate.
       rbind (if requests \<noteq> 0 then int_truediv failed requests else Inr (Fin 0)) (\<lambda>failure_rate.
       rbind (if bus \<noteq> [] then rbind (fmean bus) (\<lambda>m. Inr (Some m)) else Inr None) (\<lambda>bus_mean.
         Inr \<lparr>su_samples = n, su_success_rate = success_rate, su_poll_rate_hz = poll_rate, su_p50_ms = p50,
           su_p95_ms = p95, su_p99_ms = p99, su_deadline_misses = misses, su_deadline_miss_rate = miss_rate,
           su_request_count = requests, su_request_failure_rate = failure_rate,
           su_requests_per_second = request_rate, su_bytes_per_second = byte_rate, su_bus_mean = bus_mean,
           su_bus_max = (if bus \<noteq> [] then Some (fmaximum bus) else None)\<rparr>))))))))))))"

record benchmark_thresholds =
  bt_min_success_rate :: pyfloat
  bt_max_p95_interval_ratio :: pyfloat
  bt_max_deadline_miss_rate :: pyfloat
  bt_max_request_failure_rate :: pyfloat
  bt_max_bus_utilization :: pyfloat

definition BenchmarkThresholds :: benchmark_thresholds where
  "BenchmarkThresholds = \<lparr>bt_min_success_rate = fl (98 / 100), bt_max_p95_interval_ratio = fl (80 / 100),
     bt_max_deadline_miss_rate = fl (5 / 100), bt_max_request_failure_rate = fl (2 / 100),
     bt_max_bus_utilization = Fin 70\<rparr>"

record benchmark_stage =
  bs_interval :: pyfloat
  bs_passed :: bool
  bs_summary :: perf_summary
  bs_reasons :: "string list"

definition stage_reasons :: "pyfloat \<Rightarrow> perf_summary \<Rightarrow> benchmark_thresholds \<Rightarrow> string list" where
  "stage_reasons interval su th =
    (if flt (su_success_rate su) (bt_min_success_rate th) then [''poll success rate below threshold''] else []) @
    (if (case su_p95_ms su of None \<Rightarrow> True
         | Some p95 \<Rightarrow> flt (fmul (fmul interval (Fin 1000)) (bt_max_p95_interval_ratio th)) p95)
     then [''p95 poll latency leaves insufficient interval headroom''] else []) @
    (if flt (bt_max_deadline_miss_rate th) (su_deadline_miss_rate su) then [''deadline-miss rate above threshold''] else []) @
    (if flt (bt_max_request_failure_rate th) (su_request_failure_rate su)
     then [''Modbus request failure rate above threshold''] else []) @
    (if (case su_bus_max su of None \<Rightarrow> False | Some bus \<Rightarrow> flt (bt_max_bus_utilization th) bus)
     then [''estimated RTU bus utilization above threshold''] else [])"

definition evaluate_benchmark_stage :: "pyfloat \<Rightarrow> poll_sample list \<Rightarrow> benchmark_thresholds \<Rightarrow> benchmark_stage res" where
  "evaluate_benchmark_stage interval samples th =
    rbind (summarize_performance samples) (\<lambda>su.
      let reasons = stage_reasons interval su th in
      Inr \<lparr>bs_interval = interval, bs_passed = (reasons = []), bs_summary = su, bs_reasons = reasons\<rparr>)"

record benchmark_report =
  br_profile :: string
  br_transport :: string
  br_stages :: "benchmark_stage list"
  br_recommended :: "pyfloat option"
  br_fastest :: "pyfloat option"

text \<open>The loop stops after the first stage that did not pass.\<close>

fun report_loop :: "benchmark_stage list \<Rightarrow> pyfloat option \<Rightarrow> pyfloat option \<Rightarrow> pyfloat option \<times> pyfloat option" where
  "report_loop [] recommended fastest = (recommended, fastest)"
| "report_loop (s # ss) recommended fastest =
    (if bs_passed s then report_loop ss (Some (bs_interval s)) (Some (bs_interval s))
     else (recommended, Some (bs_interval s)))"

definition build_benchmark_report :: "string \<Rightarrow> string \<Rightarrow> benchmark_stage list \<Rightarrow> benchmark_report" where
  "build_benchmark_report profile transport stages =
    (let (recommended, fastest) = report_loop stages None None in
     \<lparr>br_profile = profile, br_transport = transport, br_stages = stages, br_recommended = recommended,
       br_fastest = fastest\<rparr>)"

section \<open>\<open>AutoPollIntervalController\<close>\<close>

record auto_poll =
  ap_intervals :: "pyfloat list"
  ap_samples_per_interval :: int
  ap_thresholds :: benchmark_thresholds
  ap_fallback :: pyfloat
  ap_stage :: nat
  ap_last_safe :: "pyfloat option"
  ap_locked :: "pyfloat option"
  ap_samples :: "string \<rightharpoonup> poll_sample list"

definition auto_poll_new :: "pyfloat list \<Rightarrow> int \<Rightarrow> benchmark_thresholds \<Rightarrow> pyfloat \<Rightarrow> auto_poll res" where
  "auto_poll_new intervals samples_per_interval th fallback =
    (if intervals = [] then Inl (ValueError ''auto polling requires at least one interval'')
     else if samples_per_interval < 3
       then Inl (ValueError ''auto polling requires at least three samples per interval'')
     else if flt fallback (Max (set intervals))
       then Inl (ValueError ''auto polling fallback must be at least as slow as the first interval'')
     else Inr \<lparr>ap_intervals = rev (sorted_list_of_set (insert fallback (set intervals))),
       ap_samples_per_interval = samples_per_interval, ap_thresholds = th, ap_fallback = fallback,
       ap_stage = 0, ap_last_safe = None, ap_locked = None, ap_samples = Map.empty\<rparr>)"

definition current_interval :: "auto_poll \<Rightarrow> pyfloat" where
  "current_interval ap = (case ap_locked ap of Some x \<Rightarrow> x | None \<Rightarrow> ap_intervals ap ! ap_stage ap)"

definition calibrating :: "auto_poll \<Rightarrow> bool" where
  "calibrating ap \<longleftrightarrow> ap_locked ap = None"

definition auto_reset :: "auto_poll \<Rightarrow> auto_poll" where
  "auto_reset ap = ap\<lparr>ap_stage := 0, ap_last_safe := None, ap_locked := None, ap_samples := Map.empty\<rparr>"

definition samples_of :: "(string \<rightharpoonup> poll_sample list) \<Rightarrow> string \<Rightarrow> poll_sample list" where
  "samples_of m c = (case m c of None \<Rightarrow> [] | Some ss \<Rightarrow> ss)"

text \<open>The samples of this cycle, appended for the controllers that are present.\<close>

definition collect :: "(string \<rightharpoonup> poll_sample) \<Rightarrow> string list \<Rightarrow> (string \<rightharpoonup> poll_sample list) \<Rightarrow> (string \<rightharpoonup> poll_sample list)" where
  "collect samples ids m = (\<lambda>c. if c \<in> set ids then
     (case samples c of None \<Rightarrow> m c | Some s \<Rightarrow> Some (samples_of m c @ [s])) else m c)"

text \<open>\<open>self._samples[id][-n:]\<close>.\<close>

definition last_n :: "int \<Rightarrow> 'a list \<Rightarrow> 'a list" where
  "last_n n xs = drop (length xs - nat n) xs"

fun stage_failures :: "pyfloat \<Rightarrow> int \<Rightarrow> benchmark_thresholds \<Rightarrow> (string \<rightharpoonup> poll_sample list) \<Rightarrow> string list \<Rightarrow> string list res" where
  "stage_failures interval n th m [] = Inr []"
| "stage_failures interval n th m (c # cs) =
    rbind (evaluate_benchmark_stage interval (last_n n (samples_of m c)) th) (\<lambda>stage.
    rbind (stage_failures interval n th m cs) (\<lambda>rest.
      Inr ((if bs_passed stage then [] else [c @ '': '' @ str_join '', '' (bs_reasons stage)]) @ rest)))"

text \<open>\<open>a or b\<close> on an optional float: 0 counts as missing.\<close>

definition float_or :: "pyfloat option \<Rightarrow> pyfloat \<Rightarrow> pyfloat" where
  "float_or x d = (case x of None \<Rightarrow> d | Some y \<Rightarrow> if y = Fin 0 then d else y)"

definition observe ::
  "(string \<rightharpoonup> poll_sample) \<Rightarrow> string list \<Rightarrow> auto_poll \<Rightarrow> auto_poll \<times> string option res" where
  "observe samples controller_ids ap =
    (if ap_locked ap \<noteq> None \<or> controller_ids = [] then (ap, Inr None)
     else
       let m = collect samples controller_ids (ap_samples ap); ap1 = ap\<lparr>ap_samples := m\<rparr> in
       if list_ex (\<lambda>c. int (length (samples_of m c)) < ap_samples_per_interval ap) controller_ids then (ap1, Inr None)
       else
         let interval = current_interval ap in
         case stage_failures interval (ap_samples_per_interval ap) (ap_thresholds ap) m (sorted_set controller_ids) of
           Inl e \<Rightarrow> (ap1, Inl e)
         | Inr failures \<Rightarrow>
           let ap2 = ap1\<lparr>ap_samples := Map.empty\<rparr> in
           if failures \<noteq> [] then
             let selected = float_or (ap_last_safe ap) (ap_fallback ap) in
             (ap2\<lparr>ap_locked := Some selected\<rparr>,
              Inr (Some (''auto polling stopped at '' @ fmt_g interval @ ''s; using '' @ fmt_g selected @
                ''s because '' @ str_join ''; '' failures)))
           else if ap_stage ap + 1 < length (ap_intervals ap) then
             (ap2\<lparr>ap_last_safe := Some interval, ap_stage := ap_stage ap + 1\<rparr>,
              Inr (Some (''auto polling stage '' @ fmt_g interval @ ''s passed; testing '' @
                fmt_g (ap_intervals ap ! (ap_stage ap + 1)) @ ''s'')))
           else
             (ap2\<lparr>ap_last_safe := Some interval, ap_locked := Some interval\<rparr>,
              Inr (Some (''auto polling selected '' @ fmt_g interval @ ''s after all configured stages passed''))))"

end
