(* ===== verification/Polling_Properties.thy ===== *)
theory Polling_Properties
  imports Polling_Facts
begin

text \<open>
  The properties of polling: what the calibration of the interval does and that it ends, that the
  command-line benchmark and the watcher agree, and how often a poll is persisted.
\<close>

section \<open>Samples of a working service are summarised\<close>

definition sample_ok :: "poll_sample \<Rightarrow> bool" where
  "sample_ok s \<longleftrightarrow> (\<forall>t. ps_observed_at s = Some t \<longrightarrow> 0 \<le> t \<and> t \<le> 2 ^ 60) \<and>
     0 \<le> ps_failed_requests s \<and> ps_failed_requests s \<le> 2 ^ 40 \<and>
     0 \<le> ps_request_count s \<and> ps_request_count s \<le> 2 ^ 40 \<and>
     0 \<le> total_bytes s \<and> total_bytes s \<le> 2 ^ 40"

lemma sum_bounds:
  assumes "\<forall>x \<in> set xs. 0 \<le> f x \<and> f x \<le> (b :: int)"
  shows "0 \<le> sum_list (map f xs) \<and> sum_list (map f xs) \<le> int (length xs) * b"
  using assms by (induction xs) (auto simp: algebra_simps)

lemma fraction_bounds:
  assumes "0 \<le> (n :: int)" "n \<le> 2 ^ 53" "0 \<le> f" "f \<le> 1"
  obtains p where "fl (of_int n * f) = Fin p" "0 \<le> p" "p \<le> of_int n"
proof -
  have n: "fl (of_int n) = Fin (of_int n)" using assms by (intro fl_int) simp
  have "fle (fl 0) (fl (of_int n * f))" "fle (fl (of_int n * f)) (fl (of_int n))"
    using assms fl_mono [of 0 "of_int n * f"] by (simp_all add: fl_mono mult_left_le del: fl_0)
  then show ?thesis using that unfolding n fl_0 by (cases "fl (of_int n * f)") auto
qed

lemma percentile_returns:
  assumes "length vs \<le> 2 ^ 20" "0 \<le> f" "f \<le> 1"
  shows "\<exists>r. percentile vs (fl f) = Inr r"
proof -
  obtain g where g: "fl f = Fin g" "0 \<le> g" "g \<le> 1" using fraction_bounds [of 1 f] assms by auto
  show ?thesis
  proof (cases "vs = [] \<or> length vs = 1")
    case False
    let ?n = "int (length (sort vs))"
    have n: "1 < ?n" "?n \<le> 2 ^ 20" using False assms(1) by (auto simp: Suc_lessI)
    then have ne: "vs \<noteq> []" by auto
    have m: "float_of_int (?n - 1) = Inr (Fin (of_int (?n - 1)))" using n by (intro float_of_int_exact) simp
    have m53: "0 \<le> ?n - 1" "?n - 1 \<le> 2 ^ 53" using n(1) by (linarith, use n(2) in simp)
    obtain p where p: "fl (of_int (?n - 1) * g) = Fin p" "0 \<le> p" "p \<le> of_int (?n - 1)"
      using fraction_bounds [OF m53 g(2,3)] by blast
    have fp: "0 \<le> \<lfloor>p\<rfloor>" "\<lfloor>p\<rfloor> \<le> ?n - 1"
      using p(2) floor_mono [OF p(3)] unfolding floor_of_int by simp_all
    have "\<bar>\<lfloor>p\<rfloor>\<bar> \<le> 2 ^ 60"
    proof -
      have "?n - 1 \<le> 2 ^ 60" using n(2) by simp
      then show ?thesis using fp by linarith
    qed
    then obtain r where r: "float_of_int \<lfloor>p\<rfloor> = Inr (Fin r)" using float_of_int_returns by blast
    have i: "\<exists>a. py_index (sort vs) \<lfloor>p\<rfloor> = Inr a" "\<exists>b. py_index (sort vs) (min (\<lfloor>p\<rfloor> + 1) (?n - 1)) = Inr b"
      using fp n ne by (auto simp: py_index_def)
    show ?thesis using False m p(1,2) r i g(1) by (auto simp: percentile_def Let_def int_of_float_def)
  qed (auto simp: percentile_def Let_def)
qed

lemma duration_returns:
  assumes "\<forall>t \<in> set ts. 0 \<le> t \<and> t \<le> (2 :: int) ^ 60"
  shows "\<exists>d. duration_seconds ts = Inr (Fin d)"
proof (cases "2 \<le> length ts")
  case True
  then have "set ts \<noteq> {}" by auto
  then have "Max (set ts) \<in> set ts" "Min (set ts) \<in> set ts" by simp_all
  then have "0 \<le> Max (set ts)" "Max (set ts) \<le> 2 ^ 60" "0 \<le> Min (set ts)" "Min (set ts) \<le> 2 ^ 60"
    using assms by blast+
  then have "\<bar>Max (set ts) - Min (set ts)\<bar> \<le> 2 ^ 64" by simp
  then obtain r where "int_truediv (Max (set ts) - Min (set ts)) 1000000 = Inr (Fin r)"
    using int_truediv_returns [of "Max (set ts) - Min (set ts)" 1000000] by auto
  then show ?thesis using True by (simp add: duration_seconds_def fmax_def)
qed (simp add: duration_seconds_def)

lemma rate_returns: "\<bar>n\<bar> \<le> 2 ^ 60 \<Longrightarrow> \<exists>r. rate n (Fin d) = Inr r"
  using float_of_int_returns [of n] by (auto simp: rate_def)

lemma fmean_returns:
  assumes "xs \<noteq> []" "length xs \<le> 2 ^ 20" shows "\<exists>r. fmean xs = Inr r"
proof -
  have "\<bar>int (length xs)\<bar> \<le> 2 ^ 53" using assms(2) by simp
  then show ?thesis using assms(1) by (simp add: fmean_def float_of_int_exact)
qed

lemma count_true_bounds: "0 \<le> count_true bs \<and> count_true bs \<le> int (length bs)"
  using sum_bounds [of bs of_bool 1] by (auto simp: count_true_def)

lemma summarize_returns:
  assumes "\<forall>s \<in> set ss. sample_ok s" "length ss \<le> 4096"
  shows "\<exists>r. summarize_performance ss = Inr r"
proof (cases "ss = []")
  case False
  let ?n = "int (length ss)"
  have n: "0 < ?n" "?n \<le> 4096" using False assms(2) by simp_all
  have b: "int (length ss) * 2 ^ 40 \<le> 2 ^ 52" using assms(2) by simp
  have "\<forall>t \<in> set (List.map_filter ps_observed_at ss). 0 \<le> t \<and> t \<le> 2 ^ 60"
    using assms(1) by (auto simp: sample_ok_def map_filter_def)
  from duration_returns [OF this] obtain d where
    d: "duration_seconds (List.map_filter ps_observed_at ss) = Inr (Fin d)" by blast
  have sums: "\<bar>sum_list (map ps_request_count ss)\<bar> \<le> 2 ^ 60" "\<bar>sum_list (map total_bytes ss)\<bar> \<le> 2 ^ 60"
    "\<bar>sum_list (map ps_failed_requests ss)\<bar> \<le> 2 ^ 60"
    using sum_bounds [of ss ps_request_count "2 ^ 40"] sum_bounds [of ss total_bytes "2 ^ 40"]
      sum_bounds [of ss ps_failed_requests "2 ^ 40"] assms(1) b by (auto simp: sample_ok_def)
  have counts: "\<bar>count_true bs\<bar> \<le> 2 ^ 64" if "length bs = length ss" for bs
    using count_true_bounds [of bs] that n by simp
  have r1: "\<exists>r. rate (?n - 1) (Fin d) = Inr r" using n by (intro rate_returns) simp
  have r2: "\<exists>r. rate (sum_list (map ps_request_count ss)) (Fin d) = Inr r" by (rule rate_returns [OF sums(1)])
  have r3: "\<exists>r. rate (sum_list (map total_bytes ss)) (Fin d) = Inr r" by (rule rate_returns [OF sums(2)])
  have t: "\<exists>r. int_truediv (count_true (map ps_success ss)) ?n = Inr r"
    "\<exists>r. int_truediv (count_true (map ps_deadline_missed ss)) ?n = Inr r"
    using int_truediv_returns [OF counts, of "map ps_success ss" ?n]
      int_truediv_returns [OF counts, of "map ps_deadline_missed ss" ?n] n by auto
  have f: "\<exists>r. (if sum_list (map ps_request_count ss) \<noteq> 0
      then int_truediv (sum_list (map ps_failed_requests ss)) (sum_list (map ps_request_count ss)) else Inr (Fin 0)) = Inr r"
    using int_truediv_returns [of "sum_list (map ps_failed_requests ss)"] sums(3) by auto
  have l: "length (map ps_latency_ms ss) \<le> 2 ^ 20" using assms(2) by simp
  have p: "\<exists>r. percentile (map ps_latency_ms ss) (fl (50 / 100)) = Inr r"
    "\<exists>r. percentile (map ps_latency_ms ss) (fl (95 / 100)) = Inr r"
    "\<exists>r. percentile (map ps_latency_ms ss) (fl (99 / 100)) = Inr r"
    by (rule percentile_returns [OF l]; simp)+
  have "length (List.map_filter ps_bus_utilization ss) \<le> 2 ^ 20"
    using assms(2) by (simp add: map_filter_def) (rule order.trans [OF length_filter_le], simp)
  then have m: "\<exists>r. (if List.map_filter ps_bus_utilization ss \<noteq> []
      then rbind (fmean (List.map_filter ps_bus_utilization ss)) (\<lambda>m. Inr (Some m)) else Inr None) = Inr r"
    using fmean_returns by fastforce
  obtain a1 a2 a3 a4 a5 a6 a7 a8 a9 a10 where
    "rate (?n - 1) (Fin d) = Inr a1" "rate (sum_list (map ps_request_count ss)) (Fin d) = Inr a2"
    "rate (sum_list (map total_bytes ss)) (Fin d) = Inr a3"
    "int_truediv (count_true (map ps_success ss)) ?n = Inr a4"
    "percentile (map ps_latency_ms ss) (fl (50 / 100)) = Inr a5"
    "percentile (map ps_latency_ms ss) (fl (95 / 100)) = Inr a6"
    "percentile (map ps_latency_ms ss) (fl (99 / 100)) = Inr a7"
    "int_truediv (count_true (map ps_deadline_missed ss)) ?n = Inr a8"
    "(if sum_list (map ps_request_count ss) \<noteq> 0
      then int_truediv (sum_list (map ps_failed_requests ss)) (sum_list (map ps_request_count ss)) else Inr (Fin 0)) = Inr a9"
    "(if List.map_filter ps_bus_utilization ss \<noteq> []
      then rbind (fmean (List.map_filter ps_bus_utilization ss)) (\<lambda>m. Inr (Some m)) else Inr None) = Inr a10"
    using r1 r2 r3 t p f m by blast
  then show ?thesis using False d
    unfolding summarize_performance_def Let_def by (simp only: rbind_Inr if_False) blast
qed (simp add: summarize_performance_def)

lemma evaluate_returns:
  "\<forall>s \<in> set ss. sample_ok s \<Longrightarrow> length ss \<le> 4096 \<Longrightarrow> \<exists>stage. evaluate_benchmark_stage i ss th = Inr stage"
  using summarize_returns by (fastforce simp: evaluate_benchmark_stage_def Let_def)

section \<open>Calibration\<close>

lemma observe_ok:
  assumes "auto_ok ap" "observe samples ids ap = (ap', Inr msg)"
  shows "auto_ok ap'"
proof -
  note o = observe_search [OF assms]
  have st: "ap_stage ap' < length (ap_intervals ap) \<and> (\<forall>x. ap_locked ap' = Some x \<longrightarrow> x \<in> set (ap_intervals ap))"
  proof (cases "stage_complete samples ids ap")
    case True
    then have l: "ap_locked ap = None" by (simp add: stage_complete_def)
    let ?is = "ap_intervals ap" and ?i = "ap_stage ap"
    have i: "?i < length ?is" "ap_fallback ap = hd ?is" using assms(1) by (simp_all add: auto_ok_def)
    then have "?is \<noteq> []" by auto
    with i have fb: "ap_fallback ap \<in> set ?is" by simp
    have "search_of ap' = search_step ?is (ap_fallback ap) (Testing ?i) (stage_passes samples ids ap)"
      using o True l by (simp add: search_of_def)
    then have s: "search_of ap' = Testing (Suc ?i) \<and> Suc ?i < length ?is \<or> (\<exists>x \<in> set ?is. search_of ap' = Locked x)"
      using i(1) fb by (auto split: if_splits)
    have "ap_stage ap' = ?i \<or> ap_stage ap' = Suc ?i \<and> Suc ?i < length ?is"
      using assms(2) by (auto simp: observe_def Let_def split: if_splits sum.splits)
    then show ?thesis using s i(1) by (auto simp: search_of_def split: option.splits)
  next
    case False
    then have "ap_stage ap' = ap_stage ap \<and> ap_locked ap' = ap_locked ap"
      using assms(2) by (auto simp: observe_def stage_complete_def list_ex_iff Let_def not_less split: if_splits sum.splits)
    then show ?thesis using assms(1) by (auto simp: auto_ok_def)
  qed
  then show "auto_ok ap'" using assms(1) o by (auto simp: auto_ok_def)
qed

text \<open>C20: the calibration of the poll interval is a search through the configured intervals, slowest
  first: an observation that does not complete a stage changes nothing, one that does moves to the
  next faster interval if every controller passed and otherwise locks the last interval that had
  passed, or the fallback when none had; the interval in use is that of the search.\<close>

theorem auto_poll_refines_search:
  assumes "auto_ok ap" "observe samples ids ap = (ap', Inr msg)"
  shows "auto_ok ap' \<and>
    search_of ap' = (if stage_complete samples ids ap
      then search_step (ap_intervals ap) (ap_fallback ap) (search_of ap) (stage_passes samples ids ap)
      else search_of ap) \<and>
    current_interval ap' = search_interval (ap_intervals ap) (search_of ap')"
  using observe_search [OF assms] observe_ok [OF assms] current_interval_search [of ap'] by simp

definition demo_sample :: poll_sample where
  "demo_sample = \<lparr>ps_observed_at = Some 0, ps_transport = Tcp, ps_interval = Fin 1, ps_latency_ms = Fin 9,
     ps_request_count = 2, ps_successful_requests = 2, ps_failed_requests = 0, ps_request_bytes = 24,
     ps_response_bytes = 40, ps_wire_time_ms = None, ps_bus_utilization = None, ps_deadline_missed = False,
     ps_success = True, ps_error = ''''\<rparr>"

definition demo_auto :: auto_poll where
  "demo_auto = \<lparr>ap_intervals = [Fin 5, Fin 1], ap_samples_per_interval = 3, ap_thresholds = BenchmarkThresholds,
     ap_fallback = Fin 5, ap_stage = 0, ap_last_safe = None, ap_locked = None, ap_samples = Map.empty\<rparr>"

lemma demo_auto_ok: "auto_ok demo_auto"
  by (simp add: auto_ok_def demo_auto_def less_pyfloat_def)

theorem auto_poll_refines_search_witness:
  "auto_ok (fst (observe [''a'' \<mapsto> demo_sample] [''a''] demo_auto)) \<and>
   search_of (fst (observe [''a'' \<mapsto> demo_sample] [''a''] demo_auto)) = Testing 0"
proof -
  have o: "observe [''a'' \<mapsto> demo_sample] [''a''] demo_auto =
    (demo_auto\<lparr>ap_samples := collect [''a'' \<mapsto> demo_sample] [''a''] Map.empty\<rparr>, Inr None)"
    by (simp add: observe_def demo_auto_def collect_def samples_of_def Let_def)
  have "\<not> stage_complete [''a'' \<mapsto> demo_sample] [''a''] demo_auto" "search_of demo_auto = Testing 0"
    by (simp_all add: stage_complete_def demo_auto_def collect_def samples_of_def search_of_def)
  with auto_poll_refines_search [OF demo_auto_ok o] show ?thesis by (simp add: o)
qed

text \<open>The cycles of a watcher: observations of the same controllers, one after the other.\<close>

fun observe_all :: "string list \<Rightarrow> (string \<rightharpoonup> poll_sample) list \<Rightarrow> auto_poll \<Rightarrow> auto_poll res" where
  "observe_all ids [] ap = Inr ap"
| "observe_all ids (m # ms) ap = (case observe m ids ap of
     (ap', Inl e) \<Rightarrow> Inl e
   | (ap', Inr msg) \<Rightarrow> observe_all ids ms ap')"

definition delivers :: "string list \<Rightarrow> (string \<rightharpoonup> poll_sample) \<Rightarrow> bool" where
  "delivers ids m \<longleftrightarrow> (\<forall>c \<in> set ids. \<exists>s. m c = Some s \<and> sample_ok s)"

text \<open>While the controller calibrates, every one of the controllers has delivered \<open>k\<close> samples to the stage.\<close>

definition collected :: "string list \<Rightarrow> nat \<Rightarrow> auto_poll \<Rightarrow> bool" where
  "collected ids k ap \<longleftrightarrow> (\<forall>c \<in> set ids. length (samples_of (ap_samples ap) c) = k \<and>
     (\<forall>s \<in> set (samples_of (ap_samples ap) c). sample_ok s))"

lemma collect_delivers:
  "delivers ids m \<Longrightarrow> collected ids k ap \<Longrightarrow> c \<in> set ids \<Longrightarrow>
   length (samples_of (collect m ids (ap_samples ap)) c) = Suc k \<and>
   (\<forall>s \<in> set (samples_of (collect m ids (ap_samples ap)) c). sample_ok s)"
  by (fastforce simp: delivers_def collected_def collect_def samples_of_def split: option.splits)

lemma observe_returns:
  assumes "delivers ids m" "collected ids k ap" "ap_samples_per_interval ap \<le> 4096" "int k < ap_samples_per_interval ap"
  shows "\<exists>ap' msg. observe m ids ap = (ap', Inr msg)"
proof -
  have f: "\<exists>fs. stage_failures i (ap_samples_per_interval ap) th (collect m ids (ap_samples ap)) cs = Inr fs"
    if "set cs \<subseteq> set ids" for i th cs
    using that
  proof (induction cs)
    case (Cons c cs)
    note d = collect_delivers [OF assms(1,2), of c]
    have "\<exists>stage. evaluate_benchmark_stage i
        (last_n (ap_samples_per_interval ap) (samples_of (collect m ids (ap_samples ap)) c)) th = Inr stage"
      using d Cons.prems assms(3,4)
      by (intro evaluate_returns) (auto simp: last_n_def dest: in_set_dropD)
    then show ?case using Cons by auto
  qed simp
  obtain fs where "stage_failures (current_interval ap) (ap_samples_per_interval ap) (ap_thresholds ap)
      (collect m ids (ap_samples ap)) (sorted_set ids) = Inr fs" using f [of "sorted_set ids"] by auto
  then show ?thesis by (simp add: observe_def Let_def)
qed

lemma calibration_ends:
  assumes "auto_ok ap" "ids \<noteq> []" "ap_samples_per_interval ap \<le> 4096" "\<forall>m \<in> set ms. delivers ids m"
    "collected ids k ap" "int k < ap_samples_per_interval ap"
    "nat (ap_samples_per_interval ap) * (length (ap_intervals ap) - ap_stage ap) \<le> length ms + k \<or> ap_locked ap \<noteq> None"
  shows "\<exists>ap'. observe_all ids ms ap = Inr ap' \<and> auto_ok ap' \<and> ap_locked ap' \<noteq> None \<and> ap_intervals ap' = ap_intervals ap"
  using assms
proof (induction ms arbitrary: ap k)
  case Nil
  have "0 < nat (ap_samples_per_interval ap)" "0 < length (ap_intervals ap) - ap_stage ap"
    using Nil.prems(1) by (auto simp: auto_ok_def)
  then have "nat (ap_samples_per_interval ap) * 1 \<le> nat (ap_samples_per_interval ap) * (length (ap_intervals ap) - ap_stage ap)"
    by (intro mult_le_mono2) simp
  then have "nat (ap_samples_per_interval ap) \<le> k \<or> ap_locked ap \<noteq> None"
    using Nil.prems(7) unfolding mult_1_right list.size by linarith
  then have "ap_locked ap \<noteq> None" using Nil.prems(6) by linarith
  then show ?case using Nil.prems(1) by simp
next
  case (Cons m ms)
  let ?n = "ap_samples_per_interval ap" and ?L = "length (ap_intervals ap)"
  have d: "delivers ids m" using Cons.prems(4) by simp
  obtain ap1 msg where o: "observe m ids ap = (ap1, Inr msg)"
    using observe_returns [OF d Cons.prems(5,3,6)] by blast
  note s = observe_search [OF Cons.prems(1) o]
  have ok: "auto_ok ap1" by (rule observe_ok [OF Cons.prems(1) o])
  have same: "ap_intervals ap1 = ap_intervals ap" "ap_samples_per_interval ap1 = ?n" using s by simp_all
  have "\<exists>ap'. observe_all ids ms ap1 = Inr ap' \<and> auto_ok ap' \<and> ap_locked ap' \<noteq> None \<and> ap_intervals ap' = ap_intervals ap1"
  proof (cases "ap_locked ap \<noteq> None")
    case True
    then have "ap1 = ap" using o by (auto simp: observe_def)
    then show ?thesis using Cons.IH [OF ok Cons.prems(2), of k] Cons.prems True by auto
  next
    case False
    then have b: "nat ?n * (?L - ap_stage ap) \<le> length (m # ms) + k" using Cons.prems(7) by simp
    note c = collect_delivers [OF d Cons.prems(5)]
    have complete: "stage_complete m ids ap \<longleftrightarrow> ?n \<le> int (Suc k)"
      using False Cons.prems(2) c by (auto simp: stage_complete_def neq_Nil_conv)
    show ?thesis
    proof (cases "?n \<le> int (Suc k)")
      case False
      then have "ap1 = ap\<lparr>ap_samples := collect m ids (ap_samples ap)\<rparr>"
        using o \<open>\<not> ap_locked ap \<noteq> None\<close> Cons.prems(2) complete
        by (auto simp: observe_def stage_complete_def list_ex_iff Let_def not_less split: if_splits sum.splits)
      moreover from this have "collected ids (Suc k) ap1" using c by (simp add: collected_def)
      ultimately show ?thesis using Cons.IH [OF ok Cons.prems(2), of "Suc k"] Cons.prems(3,4) False b same by auto
    next
      case True
      then have k: "Suc k = nat ?n" using Cons.prems(6) by simp
      have e: "collected ids 0 ap1" using s complete True False Cons.prems(2) by (simp add: collected_def samples_of_def)
      have n0: "0 < ?n" using Cons.prems(6) by simp
      have st: "ap_stage ap < ?L" using Cons.prems(1) by (simp add: auto_ok_def)
      have "search_of ap1 = search_step (ap_intervals ap) (ap_fallback ap) (Testing (ap_stage ap)) (stage_passes m ids ap)"
        using s complete True False by (simp add: search_of_def)
      then consider "search_of ap1 = Testing (Suc (ap_stage ap))" | x where "search_of ap1 = Locked x"
        by (auto split: if_splits)
      then show ?thesis
      proof cases
        case 1
        then have "ap_stage ap1 = Suc (ap_stage ap)" by (auto simp: search_of_def split: option.splits)
        moreover have "nat ?n * (?L - Suc (ap_stage ap)) + nat ?n = nat ?n * (?L - ap_stage ap)"
        proof -
          have "?L - ap_stage ap = Suc (?L - Suc (ap_stage ap))" using st by simp
          then show ?thesis by simp
        qed
        ultimately show ?thesis using Cons.IH [OF ok Cons.prems(2), of 0] Cons.prems(3,4) e b k n0 same by auto
      next
        case 2
        then have "ap_locked ap1 \<noteq> None" by (auto simp: search_of_def split: option.splits)
        then show ?thesis using Cons.IH [OF ok Cons.prems(2), of 0] Cons.prems(3,4) e n0 same by auto
      qed
    qed
  qed
  then show ?case using o same(1) by simp
qed

text \<open>C21: calibration ends: when every cycle brings a sample of every controller, the interval is locked
  after at most as many cycles as the samples of all stages together, without any evaluation raising,
  and the interval it locks is one of the configured ones or the fallback.\<close>

theorem calibration_terminates:
  assumes "auto_poll_new is n th fb = Inr ap" "\<forall>x \<in> set is. flt (Fin 0) x" "fb \<noteq> NaN" "n \<le> 4096" "ids \<noteq> []"
    "\<forall>m \<in> set ms. delivers ids m" "length ms = nat n * card (insert fb (set is))"
  shows "\<exists>ap' x. observe_all ids ms ap = Inr ap' \<and> ap_locked ap' = Some x \<and> current_interval ap' = x \<and>
    x \<in> insert fb (set is)"
proof -
  note ok = auto_poll_new_ok [OF assms(1-3)]
  have ap: "ap_samples_per_interval ap = n" "ap_samples ap = Map.empty" "ap_stage ap = 0" "3 \<le> n"
    "length (ap_intervals ap) = card (insert fb (set is))"
    using assms(1) by (auto simp: auto_poll_new_def simp del: sorted_list_of_set_insert_remove split: if_splits)
  have c: "collected ids 0 ap" by (simp add: collected_def samples_of_def ap(2))
  obtain ap' where "observe_all ids ms ap = Inr ap'" "auto_ok ap'" "ap_locked ap' \<noteq> None" "ap_intervals ap' = ap_intervals ap"
    using calibration_ends [of ap ids ms 0] ok assms(4,5,6,7) c ap by auto
  then show ?thesis using ok by (auto simp: auto_ok_def current_interval_def)
qed

theorem calibration_terminates_witness:
  "\<exists>ap ap' x. auto_poll_new [Fin 1] 3 BenchmarkThresholds (Fin 5) = Inr ap \<and>
     observe_all [''a''] (replicate 6 [''a'' \<mapsto> demo_sample]) ap = Inr ap' \<and> ap_locked ap' = Some x \<and> x \<in> {Fin 5, Fin 1}"
proof -
  obtain ap where ap: "auto_poll_new [Fin 1] 3 BenchmarkThresholds (Fin 5) = Inr ap"
    by (simp add: auto_poll_new_def)
  have "delivers [''a''] [''a'' \<mapsto> demo_sample]"
    by (simp add: delivers_def sample_ok_def demo_sample_def total_bytes_def)
  then have "\<exists>ap' x. observe_all [''a''] (replicate 6 [''a'' \<mapsto> demo_sample]) ap = Inr ap' \<and> ap_locked ap' = Some x \<and>
      current_interval ap' = x \<and> x \<in> insert (Fin 5) (set [Fin 1])"
    by (intro calibration_terminates [OF ap]) simp_all
  with ap show ?thesis by auto
qed

section \<open>The benchmark of the command line\<close>

lemma report_loop_prefix:
  "fst (report_loop ss r f) = (let ps = takeWhile bs_passed ss in if ps = [] then r else Some (bs_interval (last ps)))"
  by (induction ss arbitrary: r f) (auto simp: Let_def)

text \<open>The report and the abstract search agree on stages at the intervals of the search.\<close>

lemma report_matches_search:
  fixes stages profile transport "is" fb
  defines "r \<equiv> br_recommended (build_benchmark_report profile transport stages)"
    and "s \<equiv> foldl (search_step is fb) (Testing 0) (map bs_passed stages)"
  assumes "map bs_interval stages = take (length stages) is" "length stages \<le> length is" "is \<noteq> []"
  shows "s = Locked (case r of None \<Rightarrow> fb | Some x \<Rightarrow> x) \<or>
    s = Testing (length stages) \<and> list_all bs_passed stages \<and> length stages < length is"
proof -
  let ?ps = "takeWhile bs_passed stages"
  have tw: "takeWhile (\<lambda>v. v) (map bs_passed stages) = map bs_passed ?ps" by (simp add: takeWhile_map comp_def)
  have len: "length ?ps \<le> length is" using assms(4) length_takeWhile_le [of bs_passed stages] by (rule order.trans [rotated])
  have r: "r = (if ?ps = [] then None else Some (bs_interval (last ?ps)))"
    using report_loop_prefix [of stages None None]
    by (cases "report_loop stages None None") (simp add: r_def build_benchmark_report_def Let_def)
  have last: "bs_interval (last ?ps) = is ! (length ?ps - 1)" if "?ps \<noteq> []"
  proof -
    have i: "length ?ps - 1 < length ?ps" using that by simp
    then have j: "length ?ps - 1 < length stages" using length_takeWhile_le [of bs_passed stages] by simp
    have "bs_interval (last ?ps) = map bs_interval stages ! (length ?ps - 1)"
      using that i j by (simp add: last_conv_nth takeWhile_nth)
    then show ?thesis using assms(3) j by simp
  qed
  have s: "s = (let k = length ?ps in
     if k = length is then Locked (is ! (k - 1))
     else if map bs_passed ?ps = map bs_passed stages then Testing k
     else Locked (if k = 0 then fb else is ! (k - 1)))"
    unfolding s_def using search_run [of 0 "map bs_passed stages" "is" fb] len assms(5)
    unfolding tw length_map by simp
  have eq: "map bs_passed ?ps = map bs_passed stages \<longleftrightarrow> ?ps = stages"
    by (metis length_map takeWhile_eq_take take_all_iff order.refl)
  show ?thesis
  proof (cases "length ?ps = length is")
    case True
    then have "?ps \<noteq> []" using assms(5) by auto
    then show ?thesis using s r last True by (simp add: Let_def)
  next
    case False
    show ?thesis
    proof (cases "?ps = stages")
      case True
      then have "list_all bs_passed stages" by (metis list_all_iff set_takeWhileD)
      moreover have "length stages < length is" using False True assms(4) by simp
      ultimately show ?thesis using s False True by (simp add: Let_def)
    next
      case ne: False
      then show ?thesis using s r last False eq by (auto simp: Let_def)
    qed
  qed
qed

text \<open>The samples of one controller arrive one per cycle; stage by stage the controller's calibration
  evaluates what the benchmark evaluates.\<close>

lemma evaluate_interval: "evaluate_benchmark_stage i ss th = Inr st \<Longrightarrow> bs_interval st = i"
  by (auto simp: evaluate_benchmark_stage_def Let_def rbind_eq_Inr)

lemma observe_collecting:
  assumes "ap_locked ap = None" "int (length (samples_of (ap_samples ap) c)) + 1 < ap_samples_per_interval ap"
  shows "observe [c \<mapsto> s] [c] ap =
    (ap\<lparr>ap_samples := (ap_samples ap)(c \<mapsto> samples_of (ap_samples ap) c @ [s])\<rparr>, Inr None)"
proof -
  have "collect [c \<mapsto> s] [c] (ap_samples ap) = (ap_samples ap)(c \<mapsto> samples_of (ap_samples ap) c @ [s])"
    by (rule ext) (simp add: collect_def)
  then show ?thesis using assms by (simp add: observe_def Let_def samples_of_def)
qed

lemma observe_completing:
  assumes "auto_ok ap" "ap_locked ap = None"
    and "int (length (samples_of (ap_samples ap) c @ [s])) = ap_samples_per_interval ap"
    and "evaluate_benchmark_stage (current_interval ap) (samples_of (ap_samples ap) c @ [s]) (ap_thresholds ap) = Inr st"
  shows "\<exists>ap' msg. observe [c \<mapsto> s] [c] ap = (ap', Inr msg) \<and> ap_samples ap' = Map.empty \<and>
    search_of ap' = search_step (ap_intervals ap) (ap_fallback ap) (Testing (ap_stage ap)) (bs_passed st)"
proof -
  let ?xs = "samples_of (ap_samples ap) c @ [s]"
  have c: "samples_of (collect [c \<mapsto> s] [c] (ap_samples ap)) c = ?xs" by (simp add: collect_def samples_of_def)
  have l: "last_n (ap_samples_per_interval ap) ?xs = ?xs" using assms(3) by (simp add: last_n_def)
  have ss: "sorted_set [c] = [c]" by (simp add: sorted_set_def)
  have "stage_failures (current_interval ap) (ap_samples_per_interval ap) (ap_thresholds ap)
      (collect [c \<mapsto> s] [c] (ap_samples ap)) (sorted_set [c]) =
      Inr (if bs_passed st then [] else [c @ '': '' @ str_join '', '' (bs_reasons st)])"
    unfolding ss stage_failures.simps c l assms(4) by simp
  then have "\<exists>ap' msg. observe [c \<mapsto> s] [c] ap = (ap', Inr msg)"
    using assms(2,3) c by (cases "bs_passed st"; cases "ap_stage ap + 1 < length (ap_intervals ap)")
      (simp_all add: observe_def Let_def)
  then obtain ap' msg where o: "observe [c \<mapsto> s] [c] ap = (ap', Inr msg)" by blast
  have full: "stage_complete [c \<mapsto> s] [c] ap" using assms(2,3) c by (simp add: stage_complete_def)
  have "stage_passes [c \<mapsto> s] [c] ap \<longleftrightarrow> bs_passed st" by (simp add: stage_passes_def c l assms(4))
  with observe_search [OF assms(1) o] full assms(2) o show ?thesis by (simp add: search_of_def)
qed

lemma calibrate_stage:
  assumes "auto_ok ap" "ap_locked ap = None" "ss \<noteq> []"
    and "int (length (samples_of (ap_samples ap) c @ ss)) = ap_samples_per_interval ap"
    and "evaluate_benchmark_stage (current_interval ap) (samples_of (ap_samples ap) c @ ss) (ap_thresholds ap) = Inr st"
  shows "\<exists>ap'. observe_all [c] (map (\<lambda>s. [c \<mapsto> s]) ss) ap = Inr ap' \<and> ap_samples ap' = Map.empty \<and> auto_ok ap' \<and>
    ap_intervals ap' = ap_intervals ap \<and> ap_fallback ap' = ap_fallback ap \<and>
    ap_samples_per_interval ap' = ap_samples_per_interval ap \<and> ap_thresholds ap' = ap_thresholds ap \<and>
    search_of ap' = search_step (ap_intervals ap) (ap_fallback ap) (Testing (ap_stage ap)) (bs_passed st)"
  using assms
proof (induction ss arbitrary: ap)
  case Nil
  then show ?case by simp
next
  case (Cons s ss)
  show ?case
  proof (cases "ss = []")
    case True
    then have "int (length (samples_of (ap_samples ap) c @ [s])) = ap_samples_per_interval ap"
      "evaluate_benchmark_stage (current_interval ap) (samples_of (ap_samples ap) c @ [s]) (ap_thresholds ap) = Inr st"
      using Cons.prems(4,5) by simp_all
    from observe_completing [OF Cons.prems(1,2) this] obtain ap' msg where
      o: "observe [c \<mapsto> s] [c] ap = (ap', Inr msg)" and r: "ap_samples ap' = Map.empty"
        "search_of ap' = search_step (ap_intervals ap) (ap_fallback ap) (Testing (ap_stage ap)) (bs_passed st)" by blast
    have "observe_all [c] (map (\<lambda>s. [c \<mapsto> s]) (s # ss)) ap = Inr ap'" using True o by simp
    then show ?thesis using r observe_ok [OF Cons.prems(1) o] observe_search [OF Cons.prems(1) o] by blast
  next
    case False
    let ?ap = "ap\<lparr>ap_samples := (ap_samples ap)(c \<mapsto> samples_of (ap_samples ap) c @ [s])\<rparr>"
    have "int (length (samples_of (ap_samples ap) c)) + 1 < ap_samples_per_interval ap"
      using Cons.prems(4) False by (cases ss) simp_all
    then have o: "observe [c \<mapsto> s] [c] ap = (?ap, Inr None)" by (rule observe_collecting [OF Cons.prems(2)])
    have c: "samples_of (ap_samples ?ap) c = samples_of (ap_samples ap) c @ [s]" by (simp add: samples_of_def)
    have i: "current_interval ?ap = current_interval ap" by (simp add: current_interval_def split: option.split)
    have "\<exists>ap'. observe_all [c] (map (\<lambda>s. [c \<mapsto> s]) ss) ?ap = Inr ap' \<and> ap_samples ap' = Map.empty \<and> auto_ok ap' \<and>
        ap_intervals ap' = ap_intervals ?ap \<and> ap_fallback ap' = ap_fallback ?ap \<and>
        ap_samples_per_interval ap' = ap_samples_per_interval ?ap \<and> ap_thresholds ap' = ap_thresholds ?ap \<and>
        search_of ap' = search_step (ap_intervals ?ap) (ap_fallback ?ap) (Testing (ap_stage ?ap)) (bs_passed st)"
    proof (rule Cons.IH [OF observe_ok [OF Cons.prems(1) o] _ False])
      show "ap_locked ?ap = None" using Cons.prems(2) by simp
      show "int (length (samples_of (ap_samples ?ap) c @ ss)) = ap_samples_per_interval ?ap"
        unfolding c using Cons.prems(4) by simp
      show "evaluate_benchmark_stage (current_interval ?ap) (samples_of (ap_samples ?ap) c @ ss) (ap_thresholds ?ap) = Inr st"
        unfolding c i using Cons.prems(5) by simp
    qed
    moreover have "observe_all [c] (map (\<lambda>s. [c \<mapsto> s]) (s # ss)) ap = observe_all [c] (map (\<lambda>s. [c \<mapsto> s]) ss) ?ap"
      by (simp only: list.map observe_all.simps o prod.case sum.case)
    moreover have "ap_intervals ?ap = ap_intervals ap" "ap_fallback ?ap = ap_fallback ap" "ap_stage ?ap = ap_stage ap"
      "ap_samples_per_interval ?ap = ap_samples_per_interval ap" "ap_thresholds ?ap = ap_thresholds ap" by simp_all
    ultimately show ?thesis by (simp only:)
  qed
qed

lemma observe_all_locked: "ap_locked ap \<noteq> None \<Longrightarrow> observe_all ids ms ap = Inr ap"
  by (induction ms) (simp_all add: observe_def)

lemma observe_all_append:
  "observe_all ids (xs @ ys) ap = rbind (observe_all ids xs ap) (observe_all ids ys)"
  by (induction xs arbitrary: ap) (simp_all split: prod.split sum.split)

lemma calibrate_stages:
  assumes "auto_ok ap" "ap_locked ap = None \<longrightarrow> ap_samples ap = Map.empty"
    and "length stages = length sss" "ap_stage ap + length sss \<le> length (ap_intervals ap)"
    and "\<forall>ss \<in> set sss. int (length ss) = ap_samples_per_interval ap"
    and "\<forall>j < length sss. evaluate_benchmark_stage (ap_intervals ap ! (ap_stage ap + j)) (sss ! j) (ap_thresholds ap)
      = Inr (stages ! j)"
  shows "\<exists>ap'. observe_all [c] (concat (map (map (\<lambda>s. [c \<mapsto> s])) sss)) ap = Inr ap' \<and>
    ap_intervals ap' = ap_intervals ap \<and>
    search_of ap' = foldl (search_step (ap_intervals ap) (ap_fallback ap)) (search_of ap) (map bs_passed stages)"
  using assms
proof (induction sss arbitrary: ap stages)
  case Nil
  then show ?case by simp
next
  case (Cons ss sss)
  show ?case
  proof (cases "ap_locked ap")
    case (Some x)
    then have "search_of ap = Locked x" by (simp add: search_of_def)
    then show ?thesis using Some by (simp add: observe_all_locked locked_stays)
  next
    case None
    obtain st sts where st: "stages = st # sts" using Cons.prems(3) by (cases stages) auto
    have s: "search_of ap = Testing (ap_stage ap)" using None by (simp add: search_of_def)
    have e: "samples_of (ap_samples ap) c = []" using None Cons.prems(2) by (simp add: samples_of_def)
    have n: "int (length ss) = ap_samples_per_interval ap" using Cons.prems(5) by simp
    moreover from this have ne: "ss \<noteq> []" using Cons.prems(1) by (auto simp: auto_ok_def)
    moreover have "evaluate_benchmark_stage (current_interval ap) ss (ap_thresholds ap) = Inr st"
      using Cons.prems(6) [rule_format, of 0] None by (simp add: st current_interval_def)
    ultimately obtain ap1 where
      o: "observe_all [c] (map (\<lambda>s. [c \<mapsto> s]) ss) ap = Inr ap1" "ap_samples ap1 = Map.empty" "auto_ok ap1"
        "ap_intervals ap1 = ap_intervals ap" "ap_fallback ap1 = ap_fallback ap"
        "ap_samples_per_interval ap1 = ap_samples_per_interval ap" "ap_thresholds ap1 = ap_thresholds ap"
        "search_of ap1 = search_step (ap_intervals ap) (ap_fallback ap) (Testing (ap_stage ap)) (bs_passed st)"
      using calibrate_stage [OF Cons.prems(1) None, of ss c st] unfolding e by auto
    have "\<exists>ap'. observe_all [c] (concat (map (map (\<lambda>s. [c \<mapsto> s])) sss)) ap1 = Inr ap' \<and>
      ap_intervals ap' = ap_intervals ap1 \<and>
      search_of ap' = foldl (search_step (ap_intervals ap1) (ap_fallback ap1)) (search_of ap1) (map bs_passed sts)"
    proof (cases "ap_locked ap1")
      case (Some x)
      then have "search_of ap1 = Locked x" by (simp add: search_of_def)
      then show ?thesis using Some by (simp add: observe_all_locked locked_stays)
    next
      case un: None
      then have "search_of ap1 = Testing (ap_stage ap1)" by (simp add: search_of_def)
      then have "ap_stage ap1 = Suc (ap_stage ap)" using o(8) by (auto split: if_splits)
      moreover have "evaluate_benchmark_stage (ap_intervals ap ! (Suc (ap_stage ap) + j)) (sss ! j) (ap_thresholds ap)
          = Inr (sts ! j)" if "j < length sss" for j
        using Cons.prems(6) [rule_format, of "Suc j"] that by (simp add: st)
      ultimately show ?thesis
        using Cons.prems(3-5) st o by (intro Cons.IH) simp_all
    qed
    then obtain ap' where
      q: "observe_all [c] (concat (map (map (\<lambda>s. [c \<mapsto> s])) sss)) ap1 = Inr ap'" "ap_intervals ap' = ap_intervals ap1"
        "search_of ap' = foldl (search_step (ap_intervals ap1) (ap_fallback ap1)) (search_of ap1) (map bs_passed sts)"
      by blast
    have "observe_all [c] (concat (map (map (\<lambda>s. [c \<mapsto> s])) (ss # sss))) ap = Inr ap'"
      by (simp only: list.map concat.simps observe_all_append o(1) q(1) rbind_Inr)
    moreover have "search_of ap' =
        foldl (search_step (ap_intervals ap) (ap_fallback ap)) (search_of ap) (map bs_passed stages)"
      by (simp only: q(3) o(4,5,8) s st list.map foldl_Cons)
    ultimately show ?thesis using q(2) o(4) by metis
  qed
qed

text \<open>C22: the command-line benchmark and the watcher agree.  A calibration is created by
  \<open>auto_poll_new\<close> with positive intervals and a fallback that is a number; its one controller gets
  the samples of the stages one after the other, each stage as many as it asks for, and the
  benchmark evaluates the same samples at the same intervals and thresholds (no evaluation raises).
  Then observing never raises, and the controller locks exactly the interval the report recommends,
  no recommendation standing for the fallback; while every stage passed and some are left it is not
  locked and tests the next interval.\<close>

theorem benchmark_matches_calibration:
  fixes stages profile transport "is" fb
  defines "r \<equiv> br_recommended (build_benchmark_report profile transport stages)"
  assumes "auto_poll_new is n th fb = Inr ap" "\<forall>x \<in> set is. flt (Fin 0) x" "fb \<noteq> NaN"
    and "length sss \<le> length (ap_intervals ap)" "length stages = length sss"
    and "\<forall>ss \<in> set sss. int (length ss) = n"
    and "\<forall>j < length sss. evaluate_benchmark_stage (ap_intervals ap ! j) (sss ! j) th = Inr (stages ! j)"
  shows "\<exists>ap'. observe_all [c] (concat (map (map (\<lambda>s. [c \<mapsto> s])) sss)) ap = Inr ap' \<and>
    (if list_all bs_passed stages \<and> length stages < length (ap_intervals ap)
     then ap_locked ap' = None \<and> current_interval ap' = ap_intervals ap ! length stages
     else ap_locked ap' = Some (case r of None \<Rightarrow> fb | Some x \<Rightarrow> x))"
proof -
  note ok = auto_poll_new_ok [OF assms(2-4)]
  have ap: "ap_samples_per_interval ap = n" "ap_samples ap = Map.empty" "ap_stage ap = 0" "ap_thresholds ap = th"
    "ap_fallback ap = fb"
    using assms(2) by (auto simp: auto_poll_new_def simp del: sorted_list_of_set_insert_remove split: if_splits)
  have a: "auto_ok ap" "search_of ap = Testing 0" "ap_intervals ap \<noteq> []" using ok by auto
  obtain ap' where o: "observe_all [c] (concat (map (map (\<lambda>s. [c \<mapsto> s])) sss)) ap = Inr ap'"
    and i: "ap_intervals ap' = ap_intervals ap"
    and s: "search_of ap' = foldl (search_step (ap_intervals ap) fb) (Testing 0) (map bs_passed stages)"
    using calibrate_stages [of ap stages sss c] a assms(5-8) unfolding ap by auto
  have "map bs_interval stages = take (length stages) (ap_intervals ap)"
  proof (rule nth_equalityI)
    show "length (map bs_interval stages) = length (take (length stages) (ap_intervals ap))"
      using assms(5,6) by simp
    fix j assume "j < length (map bs_interval stages)"
    then have j: "j < length sss" using assms(6) by simp
    with assms(8) have "evaluate_benchmark_stage (ap_intervals ap ! j) (sss ! j) th = Inr (stages ! j)" by blast
    then have "bs_interval (stages ! j) = ap_intervals ap ! j" by (rule evaluate_interval)
    then show "map bs_interval stages ! j = take (length stages) (ap_intervals ap) ! j" using j assms(6) by simp
  qed
  from report_matches_search [OF this _ a(3), of fb profile transport, folded r_def s] assms(5,6)
  have d: "search_of ap' = Locked (case r of None \<Rightarrow> fb | Some x \<Rightarrow> x) \<or>
      search_of ap' = Testing (length stages) \<and> list_all bs_passed stages \<and> length stages < length (ap_intervals ap)"
    by simp
  have t: "search_of ap' = Testing (length stages)"
    if p: "list_all bs_passed stages" and q: "length stages < length (ap_intervals ap)"
  proof -
    have "takeWhile (\<lambda>v. v) (map bs_passed stages) = map bs_passed stages"
      using p by (auto simp: takeWhile_eq_all_conv list_all_iff)
    moreover have "0 + length (map bs_passed stages) \<le> length (ap_intervals ap)" "0 < length (ap_intervals ap)"
      using q a(3) by simp_all
    ultimately show ?thesis
      unfolding s using search_run [of 0 "map bs_passed stages" "ap_intervals ap" fb] q
      by (simp only: Let_def add_0 length_map if_False if_True less_not_refl2 simp_thms) simp
  qed
  show ?thesis
    using o d t i by (intro exI [of _ ap']) (auto simp: search_of_def current_interval_def split: option.splits)
qed

theorem benchmark_matches_calibration_witness:
  "\<exists>ap ap'. auto_poll_new [Fin 5] 3 BenchmarkThresholds (Fin 5) = Inr ap \<and>
     observe_all [''a''] (replicate 3 [''a'' \<mapsto> demo_sample]) ap = Inr ap' \<and> ap_locked ap' = Some (Fin 5)"
proof -
  obtain ap where ap: "auto_poll_new [Fin 5] 3 BenchmarkThresholds (Fin 5) = Inr ap"
    by (simp add: auto_poll_new_def)
  have i: "ap_intervals ap = [Fin 5]" using ap by (auto simp: auto_poll_new_def)
  have "\<forall>s \<in> set (replicate 3 demo_sample). sample_ok s" by (simp add: sample_ok_def demo_sample_def total_bytes_def)
  then obtain st where st: "evaluate_benchmark_stage (Fin 5) (replicate 3 demo_sample) BenchmarkThresholds = Inr st"
    using evaluate_returns [of "replicate 3 demo_sample" "Fin 5" BenchmarkThresholds] by auto
  then have iv: "bs_interval st = Fin 5" by (rule evaluate_interval)
  have "\<exists>ap'. observe_all [''a''] (concat (map (map (\<lambda>s. [''a'' \<mapsto> s])) [replicate 3 demo_sample])) ap = Inr ap' \<and>
    (if list_all bs_passed [st] \<and> length [st] < length (ap_intervals ap)
     then ap_locked ap' = None \<and> current_interval ap' = ap_intervals ap ! length [st]
     else ap_locked ap' = Some (case br_recommended (build_benchmark_report ''p'' ''tcp'' [st]) of
       None \<Rightarrow> Fin 5 | Some x \<Rightarrow> x))"
    by (rule benchmark_matches_calibration [OF ap]) (simp_all add: i st)
  moreover have "(case br_recommended (build_benchmark_report ''p'' ''tcp'' [st]) of None \<Rightarrow> Fin 5 | Some x \<Rightarrow> x) = Fin 5"
    by (simp add: build_benchmark_report_def iv)
  ultimately show ?thesis using ap by (simp add: i)
qed

section \<open>Persistence\<close>

text \<open>The times at which the polls of one controller are persisted, over a sequence of calls.\<close>

fun writes :: "string \<Rightarrow> (pyfloat \<times> string) list \<Rightarrow> persistence_limiter \<Rightarrow> pyfloat list" where
  "writes c [] pl = []"
| "writes c ((now, d) # calls) pl =
    (let (pl', persisted) = should_persist now d pl in
     (if d = c \<and> persisted then [now] else []) @ writes c calls pl')"

lemma should_persist_fields:
  "should_persist now d pl = (pl', b) \<Longrightarrow> pl_interval pl' = pl_interval pl \<and>
   pl_last_write pl' c = (if c = d \<and> b then Some now else pl_last_write pl c) \<and>
   (\<not> b \<longleftrightarrow> (\<exists>t. pl_last_write pl d = Some t \<and> flt (fsub now t) (pl_interval pl)))"
  by (auto simp: should_persist_def split: option.splits if_splits)

lemma writes_other: "pl_interval pl = pl_interval pl2 \<Longrightarrow> pl_last_write pl c = pl_last_write pl2 c \<Longrightarrow>
  writes c calls pl = writes c (filter (\<lambda>(t, d). d = c) calls) pl2"
proof (induction calls arbitrary: pl pl2)
  case (Cons call calls)
  obtain now d where call: "call = (now, d)" by fastforce
  obtain p b p2 b2 where p: "should_persist now d pl = (p, b)" "should_persist now d pl2 = (p2, b2)"
    by (metis surj_pair)
  note f = should_persist_fields [OF p(1), of c] should_persist_fields [OF p(2), of c]
  show ?case
  proof (cases "d = c")
    case True
    then have "b = b2" using f Cons.prems by auto
    then have "pl_last_write p c = pl_last_write p2 c"
      using f(1) [THEN conjunct2, THEN conjunct1] f(2) [THEN conjunct2, THEN conjunct1] Cons.prems(2) by simp
    then show ?thesis using Cons.IH [of p p2] f Cons.prems p call True \<open>b = b2\<close> by simp
  next
    case False
    then show ?thesis using Cons.IH [of p pl2] f(1) Cons.prems p(1) call by simp
  qed
qed simp

text \<open>C23: persistence is rate limited per controller and never starves: any two writes of a controller in a
  row are at least the configured interval apart, the first call for a controller is always written,
  and the calls for other controllers make no difference.\<close>

theorem persistence_spacing:
  "successively (\<lambda>t1 t2. \<not> flt (fsub t2 t1) (pl_interval pl))
     ((case pl_last_write pl c of None \<Rightarrow> [] | Some t \<Rightarrow> [t]) @ writes c calls pl) \<and>
   (pl_last_write pl c = None \<and> (\<exists>now. (now, c) \<in> set calls) \<longrightarrow> writes c calls pl \<noteq> []) \<and>
   writes c calls pl = writes c (filter (\<lambda>(t, d). d = c) calls) pl"
proof (intro conjI impI)
  show "successively (\<lambda>t1 t2. \<not> flt (fsub t2 t1) (pl_interval pl))
     ((case pl_last_write pl c of None \<Rightarrow> [] | Some t \<Rightarrow> [t]) @ writes c calls pl)"
  proof (induction calls arbitrary: pl)
    case (Cons call calls)
    obtain now d where call: "call = (now, d)" by fastforce
    obtain p b where p: "should_persist now d pl = (p, b)" by fastforce
    note f = should_persist_fields [OF p, of c]
    from Cons.IH [of p] show ?case using f p call by (cases "c = d \<and> b") (auto split: option.splits)
  qed (simp split: option.split)
  show "writes c calls pl = writes c (filter (\<lambda>(t, d). d = c) calls) pl" by (rule writes_other) simp_all
  assume "pl_last_write pl c = None \<and> (\<exists>now. (now, c) \<in> set calls)"
  then show "writes c calls pl \<noteq> []"
  proof (induction calls arbitrary: pl)
    case (Cons call calls)
    obtain now d where call: "call = (now, d)" by fastforce
    obtain p b where p: "should_persist now d pl = (p, b)" by fastforce
    note f = should_persist_fields [OF p, of c]
    show ?case
    proof (cases "d = c")
      case True
      then have b using f Cons.prems by auto
      then show ?thesis using True p call by simp
    next
      case False
      then show ?thesis using Cons.IH [of p] Cons.prems f p call by auto
    qed
  qed simp
qed

theorem persistence_spacing_witness:
  "writes ''a'' [(Fin 0, ''b''), (Fin 1, ''a'')] \<lparr>pl_interval = Fin 5, pl_last_write = Map.empty\<rparr> \<noteq> []"
  using persistence_spacing [of "\<lparr>pl_interval = Fin 5, pl_last_write = Map.empty\<rparr>" "''a''" "[(Fin 0, ''b''), (Fin 1, ''a'')]"]
  by auto

end
