(* ===== verification/Watcher.thy ===== *)
theory Watcher
  imports Intelligence Lifecycle Polling
begin

text \<open>
  \<open>runtime/watcher.py\<close>: the state the watcher keeps per endpoint key and per controller, and its two
  steps, refreshing the devices from a discovery and polling those that are due.  The world outside
  is a parameter: the client a device gets (its reader, and what its observer has recorded), the
  result of a discovery as the inventory resolved it, the clocks, and which store calls fail.  Calls of
  the store and of client \<open>close\<close> are events in \<open>w_events\<close>.  The polls of one cycle run in a task
  group; each touches the entries of its own key only, so running them one after the other gives the
  same state.
\<close>

section \<open>State\<close>

datatype watcher_event =
    CloseClient string
  | MarkOffline string
  | ReconcilePresence "(string \<times> string) list"
  | SaveIntelligence string device_intelligence
  | SavePoll string "register_value list"
  | RecordSuccess string string
  | SavePerformance string poll_sample
  | SaveError string string
  | StartBackfill string string

record 'c watcher =
  w_devices :: "string \<rightharpoonup> discovered_device"
  w_device_ids :: "string \<rightharpoonup> string"
  w_controller_ids :: "string \<rightharpoonup> string"
  w_controller_keys :: "string \<rightharpoonup> string"
  w_canonical_ids :: "string \<rightharpoonup> string"
  w_clients :: "string \<rightharpoonup> 'c"
  w_profiles :: "string \<rightharpoonup> catalog_profile"
  w_intelligence :: "string \<rightharpoonup> device_intelligence"
  w_lifecycles :: "string \<rightharpoonup> device_lifecycle"
  w_traffic :: "string \<rightharpoonup> traffic_tracker"
  w_present_keys :: "string list"
  w_present_controllers :: "string list"
  w_auto :: "auto_poll option"
  w_signature :: "(string \<times> string \<times> string \<times> string) list option"
  w_limiter :: persistence_limiter
  w_history_attempted :: "string set"
  w_history_running :: "string set"
  w_events :: "watcher_event list"

record watch_config =
  wc_policy :: retry_policy
  wc_poll_interval :: pyfloat
  wc_discovery_interval :: pyfloat
  wc_baudrate :: int
  wc_stop_bits :: int
  wc_backfill_on_startup :: bool
  wc_backfill_on_reconnect :: bool

definition event :: "watcher_event \<Rightarrow> 'c watcher \<Rightarrow> 'c watcher" where
  "event e w = w\<lparr>w_events := w_events w @ [e]\<rparr>"

text \<open>\<open>self._clients.pop(key, None)\<close>, closing the client if there was one.\<close>

definition drop_client :: "string \<Rightarrow> 'c watcher \<Rightarrow> 'c watcher" where
  "drop_client key w = (case w_clients w key of
     None \<Rightarrow> w
   | Some c \<Rightarrow> event (CloseClient key) (w\<lparr>w_clients := (w_clients w)(key := None)\<rparr>))"

definition lifecycle_at :: "string \<Rightarrow> 'c watcher \<Rightarrow> device_lifecycle" where
  "lifecycle_at key w = (case w_lifecycles w key of None \<Rightarrow> DeviceLifecycle | Some l \<Rightarrow> l)"

definition set_lifecycle :: "string \<Rightarrow> device_lifecycle \<Rightarrow> 'c watcher \<Rightarrow> 'c watcher" where
  "set_lifecycle key l w = w\<lparr>w_lifecycles := (w_lifecycles w)(key \<mapsto> l)\<rparr>"

definition poll_interval :: "watch_config \<Rightarrow> 'c watcher \<Rightarrow> pyfloat" where
  "poll_interval cfg w = (case w_auto w of Some ap \<Rightarrow> current_interval ap | None \<Rightarrow> wc_poll_interval cfg)"

section \<open>Which endpoint represents a controller\<close>

type_synonym candidate = "string \<times> string \<times> discovered_device"

definition endpoint_preference :: "candidate \<Rightarrow> int \<times> string" where
  "endpoint_preference = (\<lambda>(device_id, key, device).
     (if ep_transport (dd_endpoint device) = Tcp then 0
      else if truthy (ep_usb_serial (dd_endpoint device)) then 1 else 2, key))"

text \<open>\<open>min(xs, key=f)\<close>: the first of the least.\<close>

fun first_min :: "('a \<Rightarrow> 'k :: linorder) \<Rightarrow> 'a \<Rightarrow> 'a list \<Rightarrow> 'a" where
  "first_min f b [] = b"
| "first_min f b (x # xs) = first_min f (if f x < f b then x else b) xs"

text \<open>The candidates of each controller, in order of first appearance.\<close>

fun group_by :: "(string \<times> candidate) list \<Rightarrow> (string \<times> candidate list) list \<Rightarrow> (string \<times> candidate list) list" where
  "group_by [] g = g"
| "group_by ((cid, cand) # rest) g =
    group_by rest (AList.update cid ((case map_of g cid of None \<Rightarrow> [] | Some cs \<Rightarrow> cs) @ [cand]) g)"

definition choose_endpoint :: "string option \<Rightarrow> candidate list \<Rightarrow> candidate" where
  "choose_endpoint existing_key cands =
    (case List.find (\<lambda>(device_id, key, device). Some key = existing_key) cands of
       Some c \<Rightarrow> c | None \<Rightarrow> first_min endpoint_preference (hd cands) (tl cands))"

definition select_controller_endpoints ::
  "(string \<rightharpoonup> string) \<Rightarrow> (string \<times> candidate) list \<Rightarrow> (string \<times> candidate) list" where
  "select_controller_endpoints controller_keys resolved =
     map (\<lambda>(cid, cands). (cid, choose_endpoint (controller_keys cid) cands)) (group_by resolved [])"

section \<open>\<open>_refresh_devices\<close>\<close>

definition mark_controller_missing :: "string \<Rightarrow> string \<Rightarrow> 'c watcher \<Rightarrow> 'c watcher" where
  "mark_controller_missing ts cid w =
    (let w1 = (case w_controller_keys w cid of
         None \<Rightarrow> w
       | Some key \<Rightarrow> drop_client key (set_lifecycle key (mark_missing ts (lifecycle_at key w)) w)) in
     case w_canonical_ids w cid of None \<Rightarrow> w1 | Some did \<Rightarrow> event (MarkOffline did) w1)"

definition previous_device :: "string \<Rightarrow> string \<Rightarrow> 'c watcher \<Rightarrow> discovered_device option" where
  "previous_device cid key w =
    (case w_controller_keys w cid of
       None \<Rightarrow> w_devices w key
     | Some k \<Rightarrow> (case w_devices w k of None \<Rightarrow> w_devices w key | Some d \<Rightarrow> Some d))"

text \<open>All entries of a key the controller has left.\<close>

definition forget_key :: "string \<Rightarrow> 'c watcher \<Rightarrow> 'c watcher" where
  "forget_key k w = (drop_client k (w\<lparr>w_lifecycles := (w_lifecycles w)(k := None)\<rparr>))
     \<lparr>w_profiles := (w_profiles w)(k := None), w_intelligence := (w_intelligence w)(k := None),
      w_traffic := (w_traffic w)(k := None), w_devices := (w_devices w)(k := None),
      w_device_ids := (w_device_ids w)(k := None), w_controller_ids := (w_controller_ids w)(k := None)\<rparr>"

definition rekeyed :: "string \<Rightarrow> string \<Rightarrow> 'c watcher \<Rightarrow> bool" where
  "rekeyed cid key w \<longleftrightarrow> w_controller_keys w cid \<noteq> None \<and> w_controller_keys w cid \<noteq> Some key"

definition endpoint_moved :: "string \<Rightarrow> string \<Rightarrow> discovered_device \<Rightarrow> 'c watcher \<Rightarrow> bool" where
  "endpoint_moved cid key device w \<longleftrightarrow> rekeyed cid key w \<or>
     (case previous_device cid key w of None \<Rightarrow> False | Some d \<Rightarrow> dd_endpoint d \<noteq> dd_endpoint device)"

definition profile_changed :: "string \<Rightarrow> string \<Rightarrow> discovered_device \<Rightarrow> 'c watcher \<Rightarrow> bool" where
  "profile_changed cid key device w =
     (case previous_device cid key w of None \<Rightarrow> False | Some d \<Rightarrow> dd_profile d \<noteq> dd_profile device)"

text \<open>The lifecycle moves with the controller; its other entries at the old key are dropped.\<close>

definition carried_lifecycle :: "string \<Rightarrow> string \<Rightarrow> 'c watcher \<Rightarrow> device_lifecycle" where
  "carried_lifecycle cid key w = lifecycle_at (if rekeyed cid key w then the (w_controller_keys w cid) else key) w"

definition leave_key :: "string \<Rightarrow> string \<Rightarrow> 'c watcher \<Rightarrow> 'c watcher" where
  "leave_key cid key w = (if rekeyed cid key w then forget_key (the (w_controller_keys w cid)) w else w)"

definition renew_client :: "bool \<Rightarrow> string \<Rightarrow> 'c watcher \<Rightarrow> 'c watcher" where
  "renew_client moved_in_place key w =
    (if moved_in_place then (drop_client key w)\<lparr>w_traffic := (w_traffic w)(key := None)\<rparr> else w)"

definition renew_profile :: "bool \<Rightarrow> string \<Rightarrow> 'c watcher \<Rightarrow> 'c watcher" where
  "renew_profile changed key w = (if changed then w\<lparr>w_profiles := (w_profiles w)(key := None)\<rparr> else w)"

definition adopt_intelligence :: "string \<Rightarrow> string \<Rightarrow> device_intelligence option \<Rightarrow> 'c watcher \<Rightarrow> 'c watcher" where
  "adopt_intelligence did key di w = (case di of
     None \<Rightarrow> w
   | Some i \<Rightarrow> event (SaveIntelligence did i) (w\<lparr>w_intelligence := (w_intelligence w)(key \<mapsto> i)\<rparr>))"

definition record_binding :: "string \<times> candidate \<Rightarrow> 'c watcher \<Rightarrow> 'c watcher" where
  "record_binding = (\<lambda>(cid, did, key, device) w.
     w\<lparr>w_devices := (w_devices w)(key \<mapsto> device), w_device_ids := (w_device_ids w)(key \<mapsto> did),
       w_controller_ids := (w_controller_ids w)(key \<mapsto> cid),
       w_controller_keys := (w_controller_keys w)(cid \<mapsto> key),
       w_canonical_ids := (w_canonical_ids w)(cid \<mapsto> did)\<rparr>)"

definition bind_controller :: "string \<Rightarrow> string \<times> candidate \<Rightarrow> 'c watcher \<Rightarrow> 'c watcher" where
  "bind_controller ts = (\<lambda>(cid, did, key, device) w.
    let moved = endpoint_moved cid key device w;
        changed = profile_changed cid key device w;
        lifecycle = carried_lifecycle cid key w;
        w1 = leave_key cid key w;
        w2 = renew_client (moved \<and> w_controller_keys w cid = Some key) key w1;
        w3 = set_lifecycle key (mark_discovered ts moved lifecycle) w2;
        w4 = renew_profile (moved \<or> changed) key w3
    in record_binding (cid, did, key, device) (adopt_intelligence did key (dd_intelligence device) w4))"

definition signature_of :: "(string \<times> candidate) list \<Rightarrow> (string \<times> string \<times> string \<times> string) list" where
  "signature_of selected = sort (map (\<lambda>(cid, did, key, device).
     (cid, key, dd_profile device, transport_str (ep_transport (dd_endpoint device)))) selected)"

text \<open>Presence is reconciled, and a changed set of controllers restarts the calibration.\<close>

definition begin_refresh :: "(string \<times> candidate) list \<Rightarrow> 'c watcher \<Rightarrow> 'c watcher" where
  "begin_refresh selected w =
    (let sig = signature_of selected;
         w1 = event (ReconcilePresence (map (\<lambda>(cid, did, key, device). (cid, key)) selected)) w in
     (case (w_auto w, w_signature w) of
        (Some ap, Some old) \<Rightarrow> if sig \<noteq> old then w1\<lparr>w_auto := Some (auto_reset ap)\<rparr> else w1
      | _ \<Rightarrow> w1)\<lparr>w_signature := Some sig\<rparr>)"

definition refresh_devices :: "string \<Rightarrow> (string \<times> candidate) list \<Rightarrow> 'c watcher \<Rightarrow> 'c watcher" where
  "refresh_devices ts resolved w =
    (let selected = select_controller_endpoints (w_controller_keys w) resolved;
         found = map fst selected;
         w1 = fold (mark_controller_missing ts) (filter (\<lambda>c. c \<notin> set found) (w_present_controllers w))
                (begin_refresh selected w);
         w2 = fold (bind_controller ts) selected w1
     in w2\<lparr>w_present_controllers := found, w_present_keys := map (\<lambda>(cid, did, key, device). key) selected\<rparr>)"

section \<open>Clients, profiles, trackers\<close>

text \<open>The arguments \<open>_create_client\<close> passes to a client's constructor.\<close>

record client_config =
  cl_transport :: transport_name
  cl_target :: string
  cl_port :: int
  cl_baudrate :: int
  cl_stop_bits :: int
  cl_unit_id :: int

definition client_config_of :: "watch_config \<Rightarrow> endpoint \<Rightarrow> client_config" where
  "client_config_of cfg e = \<lparr>cl_transport = ep_transport e, cl_target = ep_target e, cl_port = int_or (ep_port e) 502,
     cl_baudrate = int_or (ep_baudrate e) (wc_baudrate cfg), cl_stop_bits = int_or (ep_stop_bits e) (wc_stop_bits cfg),
     cl_unit_id = ep_unit_id e\<rparr>"

record 'c client_api =
  ca_create :: "client_config \<Rightarrow> 'c"
  ca_reader :: "'c reader"
  ca_observed :: "'c \<Rightarrow> modbus_exchange list"

definition tracker_for :: "watch_config \<Rightarrow> endpoint \<Rightarrow> traffic_tracker" where
  "tracker_for cfg e = \<lparr>tt_transport = ep_transport e,
     tt_baudrate = (if ep_transport e = Serial then Some (int_or (ep_baudrate e) (wc_baudrate cfg)) else None),
     tt_stop_bits = int_or (ep_stop_bits e) (wc_stop_bits cfg), tt_exchanges = []\<rparr>"

definition tracker_at :: "watch_config \<Rightarrow> string \<Rightarrow> discovered_device \<Rightarrow> 'c watcher \<Rightarrow> traffic_tracker" where
  "tracker_at cfg key device w = (case w_traffic w key of Some t \<Rightarrow> t | None \<Rightarrow> tracker_for cfg (dd_endpoint device))"

definition client_at :: "'c client_api \<Rightarrow> watch_config \<Rightarrow> string \<Rightarrow> discovered_device \<Rightarrow> 'c watcher \<Rightarrow> 'c" where
  "client_at api cfg key device w = (case w_clients w key of
     Some c \<Rightarrow> c | None \<Rightarrow> ca_create api (client_config_of cfg (dd_endpoint device)))"

definition profile_at :: "string \<Rightarrow> discovered_device \<Rightarrow> 'c watcher \<Rightarrow> catalog_profile" where
  "profile_at key device w = (case w_profiles w key of
     Some p \<Rightarrow> if sp_name (cp_spec p) = dd_profile device then p else get_profile (dd_profile device)
   | None \<Rightarrow> get_profile (dd_profile device))"

section \<open>\<open>_poll_one\<close>\<close>

text \<open>What the clocks and the store answer during one poll; \<open>exc_text\<close> is \<open>str(exc)\<close>.\<close>

record poll_world =
  pw_latency_ms :: pyfloat
  pw_now :: int
  pw_text :: string
  pw_monotonic :: pyfloat
  pw_store_ok :: bool
  pw_exc_text :: "py_error \<Rightarrow> string"
  pw_backfill_supported :: bool

definition schedule_backfill :: "watch_config \<Rightarrow> poll_world \<Rightarrow> string \<Rightarrow> string \<Rightarrow> bool \<Rightarrow> 'c watcher \<Rightarrow> 'c watcher" where
  "schedule_backfill cfg pw cid did reconnected w =
    (let initial_sync = (cid \<notin> w_history_attempted w);
         should_sync = (initial_sync \<and> wc_backfill_on_startup cfg) \<or> (reconnected \<and> wc_backfill_on_reconnect cfg) in
     if \<not> pw_backfill_supported pw \<or> \<not> should_sync \<or> cid \<in> w_history_running w then w
     else event (StartBackfill cid did)
       (w\<lparr>w_history_attempted := insert cid (w_history_attempted w),
          w_history_running := insert cid (w_history_running w)\<rparr>))"

definition backfill_finished :: "string \<Rightarrow> 'c watcher \<Rightarrow> 'c watcher" where
  "backfill_finished cid w = w\<lparr>w_history_running := w_history_running w - {cid}\<rparr>"

text \<open>The writes after a successful poll: none of the others when the telemetry itself cannot be saved.\<close>

definition persist_success ::
  "poll_world \<Rightarrow> string \<Rightarrow> string \<Rightarrow> string \<Rightarrow> register_value list \<Rightarrow> poll_sample \<Rightarrow> device_intelligence option \<Rightarrow>
   'c watcher \<Rightarrow> 'c watcher" where
  "persist_success pw cid did key vs sample di w =
    (if \<not> pw_store_ok pw then event (SavePoll did vs) w
     else (case di of None \<Rightarrow> id | Some i \<Rightarrow> event (SaveIntelligence did i))
       (event (SavePerformance did sample) (event (RecordSuccess cid key) (event (SavePoll did vs) w))))"

definition persist_failure :: "string \<Rightarrow> poll_sample \<Rightarrow> string \<Rightarrow> 'c watcher \<Rightarrow> 'c watcher" where
  "persist_failure did sample err w = event (SaveError did err) (event (SavePerformance did sample) w)"

definition limited :: "poll_world \<Rightarrow> string \<Rightarrow> ('c watcher \<Rightarrow> 'c watcher) \<Rightarrow> 'c watcher \<Rightarrow> 'c watcher" where
  "limited pw cid write w =
    (let (pl, persisted) = should_persist (pw_monotonic pw) cid (w_limiter w); w' = w\<lparr>w_limiter := pl\<rparr> in
     if persisted then write w' else w')"

text \<open>The \<open>except\<close> branch; \<open>mark_failure\<close> itself may raise, before the client is dropped.\<close>

definition poll_failed ::
  "watch_config \<Rightarrow> poll_world \<Rightarrow> pyfloat \<Rightarrow> string \<Rightarrow> string \<Rightarrow> string \<Rightarrow> py_error \<Rightarrow> 'c watcher \<Rightarrow>
   'c watcher \<times> poll_sample option res" where
  "poll_failed cfg pw interval key cid did exc w =
    (let err = error_class exc @ '': '' @ pw_exc_text pw exc in
     case tracker_finish (pw_now pw) interval (pw_latency_ms pw) False err (the (w_traffic w key)) of
       Inl e \<Rightarrow> (w, Inl e)
     | Inr sample \<Rightarrow>
       (case mark_failure (wc_policy cfg) (pw_text pw) (pw_monotonic pw) (lifecycle_at key w) of
          (l, Inl e) \<Rightarrow> (set_lifecycle key l w, Inl e)
        | (l, Inr _) \<Rightarrow>
          (limited pw cid (persist_failure did sample err) (drop_client key (set_lifecycle key l w)), Inr (Some sample))))"

text \<open>The \<open>try\<close> branch after a poll that returned values.\<close>

definition poll_succeeded ::
  "watch_config \<Rightarrow> poll_world \<Rightarrow> pyfloat \<Rightarrow> string \<Rightarrow> discovered_device \<Rightarrow> string \<Rightarrow> string \<Rightarrow> bool \<Rightarrow> register_value list \<Rightarrow>
   'c watcher \<Rightarrow> 'c watcher \<times> poll_sample option res" where
  "poll_succeeded cfg pw interval key device cid did reconnected vs w =
    (let w1 = set_lifecycle key (mark_success (pw_text pw) (lifecycle_at key w)) w in
     case tracker_finish (pw_now pw) interval (pw_latency_ms pw) True '''' (the (w_traffic w1 key)) of
       Inl e \<Rightarrow> poll_failed cfg pw interval key cid did e w1
     | Inr sample \<Rightarrow>
       (case (case w_intelligence w1 key of
            None \<Rightarrow> Inr (w1, None)
          | Some di \<Rightarrow> rbind (refresh_intelligence di vs (Some (dd_endpoint device))) (\<lambda>di'.
              Inr (w1\<lparr>w_intelligence := (w_intelligence w1)(key \<mapsto> di')\<rparr>, Some di'))) of
          Inl e \<Rightarrow> poll_failed cfg pw interval key cid did e w1
        | Inr (w2, di') \<Rightarrow>
          (schedule_backfill cfg pw cid did reconnected
             (limited pw cid (persist_success pw cid did (stable_key (dd_endpoint device)) vs sample di') w2),
           Inr (Some sample))))"

definition poll_one ::
  "'c client_api \<Rightarrow> watch_config \<Rightarrow> poll_world \<Rightarrow> pyfloat \<Rightarrow> string \<Rightarrow> discovered_device \<Rightarrow> 'c watcher \<Rightarrow>
   'c watcher \<times> poll_sample option res" where
  "poll_one api cfg pw interval key device w =
    (case (w_device_ids w key, w_controller_ids w key) of
       (Some did, Some cid) \<Rightarrow>
         (let l = lifecycle_at key w;
              reconnected = (lc_offline_since l \<noteq> [] \<or> lc_consecutive_failures l \<noteq> 0);
              w1 = set_lifecycle key (mark_connecting l) w;
              c = client_at api cfg key device w;
              firmware = (case w_intelligence w key of None \<Rightarrow> '''' | Some di \<Rightarrow> di_firmware di) in
          case poll (ca_reader api) (profile_at key device w) c (VStr firmware) of
            (p, c', r) \<Rightarrow>
              (let exchanges = drop (length (ca_observed api c)) (ca_observed api c');
                   t = (tracker_begin (tracker_at cfg key device w))\<lparr>tt_exchanges := exchanges\<rparr>;
                   w2 = w1\<lparr>w_traffic := (w_traffic w1)(key \<mapsto> t), w_clients := (w_clients w1)(key \<mapsto> c'),
                           w_profiles := (w_profiles w1)(key \<mapsto> p)\<rparr> in
               case r of
                 Inr vs \<Rightarrow> poll_succeeded cfg pw interval key device cid did reconnected vs w2
               | Inl e \<Rightarrow> poll_failed cfg pw interval key cid did e w2))
     | _ \<Rightarrow> (w, Inr None))"

section \<open>\<open>_poll_all\<close>, one cycle of \<open>run\<close>, \<open>stop\<close>\<close>

text \<open>The keys whose device is known and may be polled now; every key gets a lifecycle.\<close>

definition due_keys :: "pyfloat \<Rightarrow> 'c watcher \<Rightarrow> (string \<times> string \<times> discovered_device) list" where
  "due_keys now w = List.map_filter (\<lambda>key. case (w_devices w key, w_controller_ids w key) of
       (Some device, Some cid) \<Rightarrow> if can_poll now (lifecycle_at key w) then Some (key, cid, device) else None
     | _ \<Rightarrow> None) (w_present_keys w)"

fun poll_due ::
  "'c client_api \<Rightarrow> watch_config \<Rightarrow> (string \<Rightarrow> poll_world) \<Rightarrow> pyfloat \<Rightarrow> (string \<times> string \<times> discovered_device) list \<Rightarrow>
   (string \<rightharpoonup> poll_sample) \<Rightarrow> 'c watcher \<Rightarrow> 'c watcher \<times> (string \<rightharpoonup> poll_sample) res" where
  "poll_due api cfg pw interval [] results w = (w, Inr results)"
| "poll_due api cfg pw interval ((key, cid, device) # due) results w =
    (case poll_one api cfg (pw key) interval key device w of
       (w', Inl e) \<Rightarrow> (w', Inl e)
     | (w', Inr None) \<Rightarrow> poll_due api cfg pw interval due results w'
     | (w', Inr (Some s)) \<Rightarrow> poll_due api cfg pw interval due (results(cid \<mapsto> s)) w')"

definition poll_all ::
  "'c client_api \<Rightarrow> watch_config \<Rightarrow> (string \<Rightarrow> poll_world) \<Rightarrow> pyfloat \<Rightarrow> pyfloat \<Rightarrow> 'c watcher \<Rightarrow>
   'c watcher \<times> (string \<rightharpoonup> poll_sample) res" where
  "poll_all api cfg pw now interval w =
    poll_due api cfg pw interval (due_keys now w) Map.empty
      (fold (\<lambda>key w. set_lifecycle key (lifecycle_at key w) w) (w_present_keys w) w)"

definition observe_cycle :: "(string \<rightharpoonup> poll_sample) \<Rightarrow> 'c watcher \<Rightarrow> 'c watcher \<times> unit res" where
  "observe_cycle samples w = (case w_auto w of
     None \<Rightarrow> (w, Inr ())
   | Some ap \<Rightarrow> (case observe samples (w_present_controllers w) ap of
       (ap', r) \<Rightarrow> (w\<lparr>w_auto := Some ap'\<rparr>, rbind r (\<lambda>m. Inr ()))))"

text \<open>One pass of the loop: a discovery when it is due, a poll of all, the calibration, and the time to sleep.\<close>

definition run_cycle ::
  "'c client_api \<Rightarrow> watch_config \<Rightarrow> (string \<Rightarrow> poll_world) \<Rightarrow> string \<Rightarrow> (string \<times> candidate) list \<Rightarrow> pyfloat \<Rightarrow> pyfloat \<Rightarrow>
   pyfloat \<Rightarrow> 'c watcher \<Rightarrow> 'c watcher \<times> (pyfloat \<times> pyfloat) res" where
  "run_cycle api cfg pw ts resolved now elapsed next_discovery w =
    (let due = fle next_discovery now;
         w1 = (if due then refresh_devices ts resolved w else w);
         next' = (if due then fadd now (wc_discovery_interval cfg) else next_discovery) in
     case poll_all api cfg pw now (poll_interval cfg w1) w1 of
       (w2, Inl e) \<Rightarrow> (w2, Inl e)
     | (w2, Inr samples) \<Rightarrow>
       (case observe_cycle samples w2 of
          (w3, Inl e) \<Rightarrow> (w3, Inl e)
        | (w3, Inr _) \<Rightarrow> (w3, Inr (next', fmax (Fin 0) (fsub (poll_interval cfg w3) elapsed)))))"

definition stop :: "string list \<Rightarrow> string list \<Rightarrow> 'c watcher \<Rightarrow> 'c watcher" where
  "stop device_ids keys w =
    (fold (\<lambda>k. event (CloseClient k)) (filter (\<lambda>k. w_clients w k \<noteq> None) keys)
      (fold (\<lambda>d. event (MarkOffline d)) device_ids w))
     \<lparr>w_clients := Map.empty, w_profiles := Map.empty, w_intelligence := Map.empty, w_traffic := Map.empty,
      w_history_running := {}\<rparr>"

end
