(* ===== verification/Watcher_Facts.thy ===== *)
theory Watcher_Facts
  imports Watcher
begin

text \<open>
  What a refresh and a poll do to the watcher's maps.  A refresh binds every selected controller to its
  endpoint, provided no controller takes over the key another selected one had before; a poll touches
  the entries of its own key only.
\<close>

abbreviation cand_key :: "string \<times> candidate \<Rightarrow> string" where
  "cand_key e \<equiv> fst (snd (snd e))"

section \<open>Selection\<close>

lemma first_min_mem: "first_min f b xs \<in> insert b (set xs)"
proof (induction xs arbitrary: b)
  case (Cons x xs)
  show ?case using Cons.IH [of "if f x < f b then x else b"] by (auto split: if_splits)
qed simp

lemma first_min_least: "x \<in> insert b (set xs) \<Longrightarrow> f (first_min f b xs) \<le> f x"
proof (induction xs arbitrary: b x)
  case (Cons y ys)
  let ?b = "if f y < f b then y else b"
  have i: "f (first_min f ?b ys) \<le> f z" if "z \<in> insert ?b (set ys)" for z by (rule Cons.IH [OF that])
  have "f ?b \<le> f y" "f ?b \<le> f b" by auto
  then show ?case using Cons.prems i [of ?b] i [of x] by (auto intro: order.trans)
qed simp

lemma find_mem: "List.find P xs = Some x \<Longrightarrow> x \<in> set xs"
  by (induction xs) (auto split: if_splits)

lemma choose_endpoint_mem: "cands \<noteq> [] \<Longrightarrow> choose_endpoint k cands \<in> set cands"
  using first_min_mem [of endpoint_preference "hd cands" "tl cands"]
  by (cases cands) (auto simp: choose_endpoint_def simp del: List.find.simps split: option.split dest: find_mem)

lemma group_by_distinct: "distinct (map fst g) \<Longrightarrow> distinct (map fst (group_by resolved g))"
  by (induction resolved g rule: group_by.induct) (simp_all add: distinct_update)

lemma group_by_mem:
  assumes "(cid, cands) \<in> set (group_by resolved g)" "distinct (map fst g)"
    "\<forall>(c, cs) \<in> set g. cs \<noteq> [] \<and> (\<forall>x \<in> set cs. (c, x) \<in> R)" "set resolved \<subseteq> R"
  shows "cands \<noteq> [] \<and> (\<forall>x \<in> set cands. (cid, x) \<in> R)"
  using assms
proof (induction resolved g rule: group_by.induct)
  case (2 c x rest g)
  let ?g = "AList.update c ((case map_of g c of None \<Rightarrow> [] | Some cs \<Rightarrow> cs) @ [x]) g"
  have d: "distinct (map fst ?g)" using 2(3) by (simp add: distinct_update)
  have "\<forall>(d, cs) \<in> set ?g. cs \<noteq> [] \<and> (\<forall>y \<in> set cs. (d, y) \<in> R)"
  proof (intro ballI, clarify)
    fix d cs assume "(d, cs) \<in> set ?g"
    then have m: "map_of ?g d = Some cs" using d by simp
    show "cs \<noteq> [] \<and> (\<forall>y \<in> set cs. (d, y) \<in> R)"
    proof (cases "d = c")
      case True
      then have cs: "cs = (case map_of g c of None \<Rightarrow> [] | Some cs \<Rightarrow> cs) @ [x]" using m by (simp add: update_conv')
      have "(c, x) \<in> R" using 2(5) by simp
      moreover have "(c, y) \<in> R" if "map_of g c = Some ds" "y \<in> set ds" for y ds
        using 2(4) map_of_SomeD [OF that(1)] that(2) by blast
      ultimately show ?thesis using cs True by (auto split: option.splits)
    next
      case False
      then have "(d, cs) \<in> set g" using m by (simp add: update_conv' map_of_SomeD)
      then show ?thesis using 2(4) by blast
    qed
  qed
  with 2 d show ?case by simp
qed auto

lemma select_distinct: "distinct (map fst (select_controller_endpoints ks resolved))"
proof -
  have "map fst (select_controller_endpoints ks resolved) = map fst (group_by resolved [])"
    by (simp add: select_controller_endpoints_def comp_def case_prod_beta)
  then show ?thesis using group_by_distinct [of "[]" resolved] by simp
qed

lemma group_by_keys: "fst ` set (group_by resolved g) = fst ` set resolved \<union> fst ` set g"
proof (induction resolved g rule: group_by.induct)
  case (2 c x rest g)
  have "fst ` set (AList.update c v g) = insert c (fst ` set g)" for v
    using arg_cong [OF update_keys [of c v g], of set] by (auto split: if_splits)
  with 2 show ?case by simp
qed simp

lemma select_controllers: "set (map fst (select_controller_endpoints ks resolved)) = set (map fst resolved)"
proof -
  have "map fst (select_controller_endpoints ks resolved) = map fst (group_by resolved [])"
    by (simp add: select_controller_endpoints_def comp_def case_prod_beta)
  then show ?thesis using group_by_keys [of resolved "[]"] by simp
qed

lemma select_mem: "e \<in> set (select_controller_endpoints ks resolved) \<Longrightarrow> e \<in> set resolved"
  using group_by_mem [of _ _ resolved "[]" "set resolved"] choose_endpoint_mem
  by (fastforce simp: select_controller_endpoints_def)

lemma select_keys_distinct:
  assumes "distinct (map cand_key resolved)"
  shows "distinct (map cand_key (select_controller_endpoints ks resolved))"
  unfolding distinct_map
proof (intro conjI inj_onI)
  let ?s = "select_controller_endpoints ks resolved"
  show "distinct ?s" using select_distinct [of ks resolved] by (simp add: distinct_map)
  fix e e' assume e: "e \<in> set ?s" "e' \<in> set ?s" "cand_key e = cand_key e'"
  then show "e = e'" using select_mem assms by (auto simp: distinct_map inj_on_def)
qed

section \<open>Binding\<close>

lemma lifecycle_at_set: "lifecycle_at k (set_lifecycle j l w) = (if k = j then l else lifecycle_at k w)"
  by (simp add: lifecycle_at_def set_lifecycle_def)

lemma drop_client_fields [simp]:
  "w_devices (drop_client k w) = w_devices w" "w_device_ids (drop_client k w) = w_device_ids w"
  "w_controller_ids (drop_client k w) = w_controller_ids w" "w_controller_keys (drop_client k w) = w_controller_keys w"
  "w_canonical_ids (drop_client k w) = w_canonical_ids w" "w_lifecycles (drop_client k w) = w_lifecycles w"
  "w_clients (drop_client k w) = (w_clients w)(k := None)" "w_profiles (drop_client k w) = w_profiles w"
  "w_intelligence (drop_client k w) = w_intelligence w" "w_traffic (drop_client k w) = w_traffic w"
  "w_limiter (drop_client k w) = w_limiter w"
  by (auto simp: drop_client_def event_def split: option.split)

lemma event_fields [simp]:
  "w_devices (event e w) = w_devices w" "w_device_ids (event e w) = w_device_ids w"
  "w_controller_ids (event e w) = w_controller_ids w" "w_controller_keys (event e w) = w_controller_keys w"
  "w_canonical_ids (event e w) = w_canonical_ids w" "w_lifecycles (event e w) = w_lifecycles w"
  "w_clients (event e w) = w_clients w" "w_profiles (event e w) = w_profiles w"
  "w_intelligence (event e w) = w_intelligence w" "w_traffic (event e w) = w_traffic w"
  "w_limiter (event e w) = w_limiter w"
  by (simp_all add: event_def)

lemma set_lifecycle_fields [simp]:
  "w_devices (set_lifecycle k l w) = w_devices w" "w_device_ids (set_lifecycle k l w) = w_device_ids w"
  "w_controller_ids (set_lifecycle k l w) = w_controller_ids w" "w_controller_keys (set_lifecycle k l w) = w_controller_keys w"
  "w_canonical_ids (set_lifecycle k l w) = w_canonical_ids w" "w_clients (set_lifecycle k l w) = w_clients w"
  "w_profiles (set_lifecycle k l w) = w_profiles w" "w_intelligence (set_lifecycle k l w) = w_intelligence w"
  "w_traffic (set_lifecycle k l w) = w_traffic w" "w_limiter (set_lifecycle k l w) = w_limiter w"
  "w_lifecycles (set_lifecycle k l w) = (w_lifecycles w)(k \<mapsto> l)"
  by (simp_all add: set_lifecycle_def)

text \<open>The entries a controller is found under once it is bound.\<close>

definition bound :: "string \<times> candidate \<Rightarrow> 'c watcher \<Rightarrow> bool" where
  "bound = (\<lambda>(cid, did, key, device) w. w_devices w key = Some device \<and> w_device_ids w key = Some did \<and>
     w_controller_ids w key = Some cid \<and> w_controller_keys w cid = Some key \<and> w_canonical_ids w cid = Some did)"

lemma stage_fields [simp]:
  "w_lifecycles (renew_client m key w) = w_lifecycles w"
  "w_clients (renew_client m key w) k = (if m \<and> k = key then None else w_clients w k)"
  "w_controller_keys (renew_client m key w) = w_controller_keys w" "w_canonical_ids (renew_client m key w) = w_canonical_ids w"
  "w_devices (renew_client m key w) = w_devices w" "w_device_ids (renew_client m key w) = w_device_ids w"
  "w_controller_ids (renew_client m key w) = w_controller_ids w"
  "w_lifecycles (renew_profile m key w) = w_lifecycles w" "w_clients (renew_profile m key w) = w_clients w"
  "w_controller_keys (renew_profile m key w) = w_controller_keys w" "w_canonical_ids (renew_profile m key w) = w_canonical_ids w"
  "w_devices (renew_profile m key w) = w_devices w" "w_device_ids (renew_profile m key w) = w_device_ids w"
  "w_controller_ids (renew_profile m key w) = w_controller_ids w"
  "w_lifecycles (adopt_intelligence did key di w) = w_lifecycles w" "w_clients (adopt_intelligence did key di w) = w_clients w"
  "w_controller_keys (adopt_intelligence did key di w) = w_controller_keys w"
  "w_canonical_ids (adopt_intelligence did key di w) = w_canonical_ids w"
  "w_devices (adopt_intelligence did key di w) = w_devices w" "w_device_ids (adopt_intelligence did key di w) = w_device_ids w"
  "w_controller_ids (adopt_intelligence did key di w) = w_controller_ids w"
  by (simp_all add: renew_client_def renew_profile_def adopt_intelligence_def split: option.split)

lemma record_binding_fields [simp]:
  "w_lifecycles (record_binding (cid, did, key, device) w) = w_lifecycles w"
  "w_clients (record_binding (cid, did, key, device) w) = w_clients w"
  "w_devices (record_binding (cid, did, key, device) w) = (w_devices w)(key \<mapsto> device)"
  "w_device_ids (record_binding (cid, did, key, device) w) = (w_device_ids w)(key \<mapsto> did)"
  "w_controller_ids (record_binding (cid, did, key, device) w) = (w_controller_ids w)(key \<mapsto> cid)"
  "w_controller_keys (record_binding (cid, did, key, device) w) = (w_controller_keys w)(cid \<mapsto> key)"
  "w_canonical_ids (record_binding (cid, did, key, device) w) = (w_canonical_ids w)(cid \<mapsto> did)"
  by (simp_all add: record_binding_def)

lemma leave_key_fields:
  "w_controller_keys (leave_key cid key w) = w_controller_keys w" "w_canonical_ids (leave_key cid key w) = w_canonical_ids w"
  "w_controller_keys w cid \<noteq> Some k \<Longrightarrow> w_devices (leave_key cid key w) k = w_devices w k \<and>
     w_device_ids (leave_key cid key w) k = w_device_ids w k \<and> w_controller_ids (leave_key cid key w) k = w_controller_ids w k \<and>
     w_lifecycles (leave_key cid key w) k = w_lifecycles w k \<and> w_clients (leave_key cid key w) k = w_clients w k"
  by (auto simp: leave_key_def forget_key_def rekeyed_def)

lemma bind_self:
  "bound (cid, did, key, device) (bind_controller ts (cid, did, key, device) w)"
  "w_lifecycles (bind_controller ts (cid, did, key, device) w) key =
     Some (mark_discovered ts (endpoint_moved cid key device w) (carried_lifecycle cid key w))"
  by (simp_all add: bind_controller_def bound_def Let_def)

text \<open>Binding one controller leaves the entries of another key alone unless it leaves that key itself.\<close>

lemma bind_other:
  assumes "k \<noteq> key" "w_controller_keys w cid \<noteq> Some k"
  shows "w_devices (bind_controller ts (cid, did, key, device) w) k = w_devices w k \<and>
    w_device_ids (bind_controller ts (cid, did, key, device) w) k = w_device_ids w k \<and>
    w_controller_ids (bind_controller ts (cid, did, key, device) w) k = w_controller_ids w k \<and>
    w_lifecycles (bind_controller ts (cid, did, key, device) w) k = w_lifecycles w k \<and>
    w_clients (bind_controller ts (cid, did, key, device) w) k = w_clients w k"
  using assms(1) leave_key_fields(3) [OF assms(2), of key] by (simp add: bind_controller_def Let_def)

lemma bind_keys:
  "w_controller_keys (bind_controller ts (cid, did, key, device) w) = (w_controller_keys w)(cid \<mapsto> key)"
  "w_canonical_ids (bind_controller ts (cid, did, key, device) w) = (w_canonical_ids w)(cid \<mapsto> did)"
  by (simp_all add: bind_controller_def Let_def leave_key_fields(1,2))

section \<open>Refresh\<close>

text \<open>Nobody moves to a key another selected controller has had, and no two of them had the same key.\<close>

definition no_takeover :: "(string \<rightharpoonup> string) \<Rightarrow> (string \<times> candidate) list \<Rightarrow> bool" where
  "no_takeover ks selected \<longleftrightarrow> (\<forall>e \<in> set selected. \<forall>e' \<in> set selected. fst e' \<noteq> fst e \<longrightarrow>
     ks (fst e') \<noteq> Some (cand_key e) \<and> (ks (fst e') = None \<or> ks (fst e') \<noteq> ks (fst e)))"

lemma fold_bind_other:
  assumes "\<forall>e \<in> set selected. cand_key e \<noteq> k \<and> w_controller_keys w (fst e) \<noteq> Some k" "distinct (map fst selected)"
  shows "w_devices (fold (bind_controller ts) selected w) k = w_devices w k \<and>
    w_device_ids (fold (bind_controller ts) selected w) k = w_device_ids w k \<and>
    w_controller_ids (fold (bind_controller ts) selected w) k = w_controller_ids w k \<and>
    w_lifecycles (fold (bind_controller ts) selected w) k = w_lifecycles w k \<and>
    w_clients (fold (bind_controller ts) selected w) k = w_clients w k"
  using assms
proof (induction selected arbitrary: w)
  case (Cons e es)
  obtain cid did key device where e: "e = (cid, did, key, device)" by (cases e) auto
  let ?w = "bind_controller ts e w"
  have "\<forall>e' \<in> set es. cand_key e' \<noteq> k \<and> w_controller_keys ?w (fst e') \<noteq> Some k"
    using Cons.prems by (auto simp: e bind_keys)
  moreover have "distinct (map fst es)" using Cons.prems by simp
  moreover have "k \<noteq> key" "w_controller_keys w cid \<noteq> Some k" using Cons.prems by (auto simp: e)
  ultimately show ?case using Cons.IH [of ?w] bind_other [of k key w cid ts did device] by (simp add: e)
qed simp

lemma fold_bind_keys:
  "c \<notin> fst ` set selected \<Longrightarrow> w_controller_keys (fold (bind_controller ts) selected w) c = w_controller_keys w c \<and>
   w_canonical_ids (fold (bind_controller ts) selected w) c = w_canonical_ids w c"
proof (induction selected arbitrary: w)
  case (Cons e es)
  then show ?case by (cases e) (auto simp: bind_keys)
qed simp

lemma no_takeover_step:
  assumes "no_takeover ks ((cid, did, key, device) # es)" "distinct (map fst ((cid, did, key, device) # es))"
  shows "no_takeover (ks(cid \<mapsto> key)) es"
    and "(cid', did', key', device') \<in> set es \<Longrightarrow> cid' \<noteq> cid \<and> ks cid \<noteq> Some key' \<and> ks cid' \<noteq> Some key \<and>
      (ks cid' = None \<or> ks cid' \<noteq> ks cid)"
proof -
  have c: "fst e \<noteq> cid" if "e \<in> set es" for e using assms(2) that by force
  then show "no_takeover (ks(cid \<mapsto> key)) es" using assms(1) by (auto simp: no_takeover_def)
  assume e: "(cid', did', key', device') \<in> set es"
  from c [OF e] have "cid' \<noteq> cid" by simp
  then show "cid' \<noteq> cid \<and> ks cid \<noteq> Some key' \<and> ks cid' \<noteq> Some key \<and> (ks cid' = None \<or> ks cid' \<noteq> ks cid)"
    using assms(1) [unfolded no_takeover_def, THEN bspec, of "(cid, did, key, device)", THEN bspec, of "(cid', did', key', device')"]
      assms(1) [unfolded no_takeover_def, THEN bspec, of "(cid', did', key', device')", THEN bspec, of "(cid, did, key, device)"] e
    by simp
qed

lemma fold_bind_bound:
  assumes "distinct (map fst selected)" "distinct (map cand_key selected)" "no_takeover (w_controller_keys w) selected"
    "(cid, did, key, device) \<in> set selected"
  shows "bound (cid, did, key, device) (fold (bind_controller ts) selected w) \<and>
    (\<exists>moved. w_lifecycles (fold (bind_controller ts) selected w) key =
      Some (mark_discovered ts moved (carried_lifecycle cid key w)))"
  using assms
proof (induction selected arbitrary: w)
  case (Cons x es)
  obtain c0 d0 k0 v0 where x: "x = (c0, d0, k0, v0)" by (cases x) auto
  let ?w = "bind_controller ts x w"
  have d: "distinct (map fst es)" "distinct (map cand_key es)" using Cons.prems(1,2) by simp_all
  note nt = no_takeover_step [OF Cons.prems(3,1) [unfolded x]]
  have wk: "w_controller_keys ?w = (w_controller_keys w)(c0 \<mapsto> k0)" by (simp add: x bind_keys)
  show ?case
  proof (cases "(cid, did, key, device) = x")
    case True
    have o: "\<forall>e' \<in> set es. cand_key e' \<noteq> key \<and> w_controller_keys ?w (fst e') \<noteq> Some key"
    proof
      fix e' assume e': "e' \<in> set es"
      obtain c1 d1 k1 v1 where e1: "e' = (c1, d1, k1, v1)" by (cases e') auto
      have "k1 \<noteq> key" using Cons.prems(2) e' True by (force simp: e1 x)
      then show "cand_key e' \<noteq> key \<and> w_controller_keys ?w (fst e') \<noteq> Some key"
        using nt(2) [OF e' [unfolded e1]] True unfolding wk e1 by (simp add: x)
    qed
    have c: "cid \<notin> fst ` set es" using Cons.prems(1) True by (force simp: x)
    show ?thesis using fold_bind_other [OF o d(1), of ts] fold_bind_keys [OF c, of ts ?w] bind_self [where cid = cid and did = did and key = key and device = device and ts = ts and w = w]
      by (auto simp add: True [symmetric] bound_def)
  next
    case False
    then have e: "(cid, did, key, device) \<in> set es" using Cons.prems(4) by simp
    have ne: "cid \<noteq> c0" "w_controller_keys w c0 \<noteq> Some key" "w_controller_keys w cid \<noteq> Some k0"
      "w_controller_keys w cid = None \<or> w_controller_keys w cid \<noteq> w_controller_keys w c0" using nt(2) [OF e] by blast+
    have kne: "key \<noteq> k0" using Cons.prems(2) e by (force simp: x)
    have "w_lifecycles ?w j = w_lifecycles w j" if "j = key \<or> w_controller_keys w cid = Some j" for j
      using bind_other [where k = j and key = k0 and w = w and cid = c0 and ts = ts and did = d0 and device = v0] that ne kne by (auto simp: x)
    then have "carried_lifecycle cid key ?w = carried_lifecycle cid key w"
      using ne(1) by (auto simp: carried_lifecycle_def rekeyed_def lifecycle_at_def wk)
    moreover have "no_takeover (w_controller_keys ?w) es" using nt(1) wk by simp
    note Cons.IH [OF d this e]
    ultimately show ?thesis by (simp add: x)
  qed
qed simp

lemma can_poll_discovered: "fle (Fin 0) now \<Longrightarrow> can_poll now (mark_discovered ts moved l)"
  by (simp add: mark_discovered_def can_poll_def Let_def)

lemma failures_discovered: "lc_consecutive_failures (mark_discovered ts moved l) = lc_consecutive_failures l"
  by (simp add: mark_discovered_def Let_def)

text \<open>Marking the missing controllers changes no key and no failure count.\<close>

lemma mark_controller_missing_fields:
  "w_controller_keys (mark_controller_missing ts c w) = w_controller_keys w"
  "lc_consecutive_failures (lifecycle_at k (mark_controller_missing ts c w)) = lc_consecutive_failures (lifecycle_at k w)"
  by (auto simp: mark_controller_missing_def Let_def lifecycle_at_def mark_missing_def split: option.split)

lemma fold_missing_fields:
  "w_controller_keys (fold (mark_controller_missing ts) cs w) = w_controller_keys w"
  "lc_consecutive_failures (lifecycle_at k (fold (mark_controller_missing ts) cs w)) = lc_consecutive_failures (lifecycle_at k w)"
  by (induction cs arbitrary: w) (simp_all add: mark_controller_missing_fields)

text \<open>The watcher as the binding of the selected controllers finds it.\<close>

definition refresh_start :: "string \<Rightarrow> (string \<times> candidate) list \<Rightarrow> 'c watcher \<Rightarrow> 'c watcher" where
  "refresh_start ts selected w = fold (mark_controller_missing ts)
     (filter (\<lambda>c. c \<notin> set (map fst selected)) (w_present_controllers w)) (begin_refresh selected w)"

lemma refresh_devices_split:
  "refresh_devices ts resolved w = (let selected = select_controller_endpoints (w_controller_keys w) resolved in
     (fold (bind_controller ts) selected (refresh_start ts selected w))
     \<lparr>w_present_controllers := map fst selected, w_present_keys := map cand_key selected\<rparr>)"
  unfolding refresh_devices_def refresh_start_def Let_def case_prod_beta' ..

lemma begin_refresh_fields:
  "w_controller_keys (begin_refresh selected w) = w_controller_keys w" "w_lifecycles (begin_refresh selected w) = w_lifecycles w"
  by (simp_all add: begin_refresh_def Let_def split: option.split)

lemma refresh_start_fields:
  "w_controller_keys (refresh_start ts selected w) = w_controller_keys w"
  "lc_consecutive_failures (lifecycle_at k (refresh_start ts selected w)) = lc_consecutive_failures (lifecycle_at k w)"
  unfolding refresh_start_def fold_missing_fields by (simp_all add: begin_refresh_fields lifecycle_at_def)

text \<open>After a refresh every selected controller is bound and can be polled at once.\<close>

lemma refresh_binds:
  assumes "distinct (map cand_key resolved)"
    "no_takeover (w_controller_keys w) (select_controller_endpoints (w_controller_keys w) resolved)"
    "(cid, did, key, device) \<in> set (select_controller_endpoints (w_controller_keys w) resolved)"
  shows "bound (cid, did, key, device) (refresh_devices ts resolved w) \<and>
    (\<exists>moved l. lifecycle_at key (refresh_devices ts resolved w) = mark_discovered ts moved l \<and>
      lc_consecutive_failures l =
        lc_consecutive_failures (lifecycle_at (case w_controller_keys w cid of None \<Rightarrow> key | Some k \<Rightarrow> k) w))"
proof -
  let ?s = "select_controller_endpoints (w_controller_keys w) resolved"
  let ?w = "refresh_start ts ?s w"
  have "no_takeover (w_controller_keys ?w) ?s" using assms(2) by (simp add: refresh_start_fields)
  from fold_bind_bound [OF select_distinct select_keys_distinct [OF assms(1)] this assms(3), of ts]
  obtain moved where b: "bound (cid, did, key, device) (fold (bind_controller ts) ?s ?w)"
      "w_lifecycles (fold (bind_controller ts) ?s ?w) key = Some (mark_discovered ts moved (carried_lifecycle cid key ?w))"
    by blast
  have "lc_consecutive_failures (carried_lifecycle cid key ?w) =
      lc_consecutive_failures (lifecycle_at (case w_controller_keys w cid of None \<Rightarrow> key | Some k \<Rightarrow> k) w)"
    by (auto simp: carried_lifecycle_def rekeyed_def refresh_start_fields split: option.split)
  moreover have "lifecycle_at key (refresh_devices ts resolved w) = mark_discovered ts moved (carried_lifecycle cid key ?w)"
    using b(2) by (simp add: refresh_devices_split lifecycle_at_def Let_def)
  moreover have "bound (cid, did, key, device) (refresh_devices ts resolved w)"
    using b(1) by (simp add: refresh_devices_split bound_def Let_def)
  ultimately show ?thesis by blast
qed

lemma map_filter_all: "(\<And>x. x \<in> set xs \<Longrightarrow> f (g x) = Some (h x)) \<Longrightarrow> List.map_filter f (map g xs) = map h xs"
  by (induction xs) (simp_all add: List.map_filter_simps)

lemma present_refresh:
  "w_present_keys (refresh_devices ts resolved w) = map cand_key (select_controller_endpoints (w_controller_keys w) resolved)"
  "w_present_controllers (refresh_devices ts resolved w) = map fst (select_controller_endpoints (w_controller_keys w) resolved)"
  by (simp_all add: refresh_devices_split Let_def)

text \<open>After a discovery every controller it found is polled in the same cycle, on exactly one
  endpoint: the ones \<open>_poll_all\<close> starts a poll for are the selected endpoints, whatever their retry
  delay was, and each controller keeps its failure count, also when its endpoint changed.  This holds
  as long as the discovered endpoints have different keys and no controller appears under the key
  another controller of the discovery had before.
\<close>

lemma refresh_due:
  assumes "distinct (map cand_key resolved)"
    "no_takeover (w_controller_keys w) (select_controller_endpoints (w_controller_keys w) resolved)"
    "fle (Fin 0) now"
  shows "due_keys now (refresh_devices ts resolved w) =
      map (\<lambda>(cid, did, key, device). (key, cid, device)) (select_controller_endpoints (w_controller_keys w) resolved) \<and>
    set (map fst (select_controller_endpoints (w_controller_keys w) resolved)) = set (map fst resolved) \<and>
    distinct (map fst (select_controller_endpoints (w_controller_keys w) resolved)) \<and>
    (\<forall>(cid, did, key, device) \<in> set (select_controller_endpoints (w_controller_keys w) resolved).
       w_controller_keys (refresh_devices ts resolved w) cid = Some key \<and>
       lc_consecutive_failures (lifecycle_at key (refresh_devices ts resolved w)) =
         lc_consecutive_failures (lifecycle_at (case w_controller_keys w cid of None \<Rightarrow> key | Some k \<Rightarrow> k) w))"
proof (intro conjI)
  let ?s = "select_controller_endpoints (w_controller_keys w) resolved"
  let ?w = "refresh_devices ts resolved w"
  note binds = refresh_binds [OF assms(1,2), where ts = ts]
  show "due_keys now ?w = map (\<lambda>(cid, did, key, device). (key, cid, device)) ?s"
    unfolding due_keys_def present_refresh
  proof (rule map_filter_all)
    fix e assume e: "e \<in> set ?s"
    obtain cid did key device where x: "e = (cid, did, key, device)" by (cases e) auto
    from binds [OF e [unfolded x]] have "bound e ?w" "can_poll now (lifecycle_at (cand_key e) ?w)"
      using can_poll_discovered [OF assms(3)] by (auto simp: x)
    then show "(case (w_devices ?w (cand_key e), w_controller_ids ?w (cand_key e)) of
        (Some d, Some c) \<Rightarrow> if can_poll now (lifecycle_at (cand_key e) ?w) then Some (cand_key e, c, d) else None
      | _ \<Rightarrow> None) = Some ((\<lambda>(cid, did, key, device). (key, cid, device)) e)"
      by (simp add: x bound_def)
  qed
  show "\<forall>(cid, did, key, device) \<in> set ?s. w_controller_keys ?w cid = Some key \<and>
      lc_consecutive_failures (lifecycle_at key ?w) =
        lc_consecutive_failures (lifecycle_at (case w_controller_keys w cid of None \<Rightarrow> key | Some k \<Rightarrow> k) w)"
  proof clarify
    fix cid did key device assume "(cid, did, key, device) \<in> set ?s"
    from binds [OF this] show "w_controller_keys ?w cid = Some key \<and> lc_consecutive_failures (lifecycle_at key ?w) =
        lc_consecutive_failures (lifecycle_at (case w_controller_keys w cid of None \<Rightarrow> key | Some k \<Rightarrow> k) w)"
      unfolding bound_def case_prod_conv by (metis failures_discovered)
  qed
qed (rule select_controllers select_distinct)+

section \<open>Polling\<close>

text \<open>Two watchers that differ at most in the entries of one key and in the write limiter, the running
  backfills and the events.\<close>

definition same_elsewhere :: "string \<Rightarrow> 'c watcher \<Rightarrow> 'c watcher \<Rightarrow> bool" where
  "same_elsewhere key w w' \<longleftrightarrow> w_devices w' = w_devices w \<and> w_device_ids w' = w_device_ids w \<and>
     w_controller_ids w' = w_controller_ids w \<and> w_controller_keys w' = w_controller_keys w \<and>
     w_canonical_ids w' = w_canonical_ids w \<and> w_present_keys w' = w_present_keys w \<and>
     w_present_controllers w' = w_present_controllers w \<and> w_auto w' = w_auto w \<and> w_signature w' = w_signature w \<and>
     (\<forall>k \<in> - {key}. w_lifecycles w' k = w_lifecycles w k \<and> w_clients w' k = w_clients w k \<and>
        w_profiles w' k = w_profiles w k \<and> w_traffic w' k = w_traffic w k \<and> w_intelligence w' k = w_intelligence w k)"

lemma same_elsewhere_trans: "same_elsewhere k w w1 \<Longrightarrow> same_elsewhere k w1 w2 \<Longrightarrow> same_elsewhere k w w2"
  by (simp add: same_elsewhere_def)

lemma same_elsewhere_steps [simp]:
  "same_elsewhere k w w" "same_elsewhere k w (event e w)" "same_elsewhere k w (set_lifecycle k l w)"
  "same_elsewhere k w (drop_client k w)" "same_elsewhere k w (w\<lparr>w_intelligence := (w_intelligence w)(k \<mapsto> di)\<rparr>)"
  "same_elsewhere k w (w\<lparr>w_limiter := pl\<rparr>)" "same_elsewhere k w (schedule_backfill cfg pw cid did rc w)"
  "same_elsewhere k w (w\<lparr>w_traffic := (w_traffic w)(k \<mapsto> t), w_clients := (w_clients w)(k \<mapsto> c), w_profiles := (w_profiles w)(k \<mapsto> p)\<rparr>)"
  by (simp_all add: same_elsewhere_def event_def set_lifecycle_def drop_client_def schedule_backfill_def Let_def split: option.split)

lemma same_elsewhere_persist [simp]:
  "same_elsewhere k w (persist_success pw cid did j vs s di w)" "same_elsewhere k w (persist_failure did s err w)"
  by (simp_all add: persist_success_def persist_failure_def event_def same_elsewhere_def split: option.split)

text \<open>What the writes of a poll leave alone.\<close>

lemma write_fields [simp]:
  "w_lifecycles (persist_success pw cid did j vs s di w) = w_lifecycles w" "w_clients (persist_success pw cid did j vs s di w) = w_clients w"
  "w_lifecycles (persist_failure did s err w) = w_lifecycles w" "w_clients (persist_failure did s err w) = w_clients w"
  "w_lifecycles (schedule_backfill cfg pw cid did rc w) = w_lifecycles w" "w_clients (schedule_backfill cfg pw cid did rc w) = w_clients w"
  by (simp_all add: persist_success_def persist_failure_def schedule_backfill_def Let_def split: option.split)

lemma limited_fields:
  assumes "\<And>w. w_lifecycles (f w) = w_lifecycles w" "\<And>w. w_clients (f w) = w_clients w" "\<And>w. same_elsewhere k w (f w)"
  shows "w_lifecycles (limited pw cid f w) = w_lifecycles w" "w_clients (limited pw cid f w) = w_clients w"
    "same_elsewhere k w (limited pw cid f w)"
  using assms same_elsewhere_trans [OF same_elsewhere_steps(6) assms(3)] by (auto simp: limited_def Let_def split: prod.split)

lemma limited_persist [simp]:
  "w_lifecycles (limited pw cid (persist_failure did s err) w) = w_lifecycles w"
  "w_clients (limited pw cid (persist_failure did s err) w) = w_clients w"
  "same_elsewhere k w (limited pw cid (persist_failure did s err) w)"
  "w_lifecycles (limited pw cid (persist_success pw cid did j vs s di) w) = w_lifecycles w"
  "w_clients (limited pw cid (persist_success pw cid did j vs s di) w) = w_clients w"
  "same_elsewhere k w (limited pw cid (persist_success pw cid did j vs s di) w)"
  using limited_fields [of "persist_failure did s err" k, OF write_fields(3,4) same_elsewhere_persist(2)]
    limited_fields [of "persist_success pw cid did j vs s di" k, OF write_fields(1,2) same_elsewhere_persist(1)]
  by blast+

lemma finish_success: "tracker_finish now interval latency ok err t = Inr s \<Longrightarrow> ps_success s = ok"
  by (auto simp: tracker_finish_def Let_def rbind_eq_Inr)

text \<open>A failed poll: the client is dropped and the failure counted.\<close>

definition poll_lost :: "watch_config \<Rightarrow> string \<Rightarrow> device_lifecycle \<Rightarrow> 'c watcher \<Rightarrow> bool" where
  "poll_lost cfg key l w \<longleftrightarrow> w_clients w key = None \<and> lc_consecutive_failures (lifecycle_at key w) = lc_consecutive_failures l + 1 \<and>
     lc_state (lifecycle_at key w) =
       (if rp_threshold (wc_policy cfg) \<le> lc_consecutive_failures l + 1 then Offline else Degraded)"

lemma poll_failed_outcome:
  assumes "poll_failed cfg pw interval key cid did exc w = (w', r)"
  shows "same_elsewhere key w w'"
    and "r \<noteq> Inr None"
    and "r = Inr (Some s) \<Longrightarrow> \<not> ps_success s \<and> poll_lost cfg key (lifecycle_at key w) w'"
proof -
  let ?err = "error_class exc @ '': '' @ pw_exc_text pw exc"
  let ?f = "mark_failure (wc_policy cfg) (pw_text pw) (pw_monotonic pw) (lifecycle_at key w)"
  have m: "lc_consecutive_failures (fst ?f) = lc_consecutive_failures (lifecycle_at key w) + 1"
    "lc_state (fst ?f) = (if rp_threshold (wc_policy cfg) \<le> lc_consecutive_failures (lifecycle_at key w) + 1 then Offline else Degraded)"
    by (simp_all add: mark_failure_def count_failure_def Let_def split: sum.split)
  have e: "same_elsewhere key w (limited pw cid (persist_failure did s ?err) (drop_client key (set_lifecycle key l w)))" for s l
    using same_elsewhere_trans [OF same_elsewhere_trans [OF same_elsewhere_steps(3,4)] limited_persist(3)] .
  show "same_elsewhere key w w'" "r \<noteq> Inr None" using assms e by (auto simp: poll_failed_def Let_def split: sum.splits prod.splits)
  assume "r = Inr (Some s)"
  then obtain l' u where s: "tracker_finish (pw_now pw) interval (pw_latency_ms pw) False ?err (the (w_traffic w key)) = Inr s"
      "?f = (l', u)" "w' = limited pw cid (persist_failure did s ?err) (drop_client key (set_lifecycle key l' w))"
    using assms by (auto simp: poll_failed_def Let_def split: sum.splits prod.splits)
  have "w_clients w' key = None" "lifecycle_at key w' = l'" using s(3) by (simp_all add: lifecycle_at_def)
  then show "\<not> ps_success s \<and> poll_lost cfg key (lifecycle_at key w) w'"
    using finish_success [OF s(1)] m s(2) by (simp add: poll_lost_def)
qed

text \<open>What is done with the values of a poll that returned can raise: summarising its traffic, and
  refreshing the intelligence of the device where there is one.\<close>

definition processed ::
  "poll_world \<Rightarrow> pyfloat \<Rightarrow> discovered_device \<Rightarrow> traffic_tracker \<Rightarrow> device_intelligence option \<Rightarrow> register_value list \<Rightarrow> bool"
  where
  "processed pw interval device t di vs \<longleftrightarrow>
     (\<exists>s. tracker_finish (pw_now pw) interval (pw_latency_ms pw) True '''' t = Inr s) \<and>
     (\<forall>i. di = Some i \<longrightarrow> (\<exists>i'. refresh_intelligence i vs (Some (dd_endpoint device)) = Inr i'))"

lemma poll_succeeded_unprocessed:
  assumes "\<not> processed pw interval device (the (w_traffic w key)) (w_intelligence w key) vs"
  shows "\<exists>e. poll_succeeded cfg pw interval key device cid did rc vs w =
    poll_failed cfg pw interval key cid did e (set_lifecycle key (mark_success (pw_text pw) (lifecycle_at key w)) w)"
proof (cases "tracker_finish (pw_now pw) interval (pw_latency_ms pw) True '''' (the (w_traffic w key))")
  case (Inl e)
  then show ?thesis by (auto simp: poll_succeeded_def Let_def)
next
  case (Inr s)
  then obtain i e where "w_intelligence w key = Some i" "refresh_intelligence i vs (Some (dd_endpoint device)) = Inl e"
    using assms unfolding processed_def by (metis sum.exhaust)
  with Inr show ?thesis by (auto simp: poll_succeeded_def Let_def)
qed

lemma poll_succeeded_processed:
  assumes "processed pw interval device (the (w_traffic w key)) (w_intelligence w key) vs"
    and "poll_succeeded cfg pw interval key device cid did rc vs w = (w', r)"
  shows "same_elsewhere key w w' \<and> lifecycle_at key w' = mark_success (pw_text pw) (lifecycle_at key w) \<and>
    w_clients w' key = w_clients w key \<and> (\<exists>s. r = Inr (Some s) \<and> ps_success s)"
proof -
  let ?l = "mark_success (pw_text pw) (lifecycle_at key w)"
  let ?w1 = "set_lifecycle key ?l w"
  let ?wr = "\<lambda>s di. persist_success pw cid did (stable_key (dd_endpoint device)) vs s di"
  obtain s where s: "tracker_finish (pw_now pw) interval (pw_latency_ms pw) True '''' (the (w_traffic w key)) = Inr s"
    using assms(1) by (auto simp: processed_def)
  obtain w2 di where w2: "w2 = ?w1 \<or> (\<exists>i. w2 = ?w1\<lparr>w_intelligence := (w_intelligence ?w1)(key \<mapsto> i)\<rparr>)"
      "w' = schedule_backfill cfg pw cid did rc (limited pw cid (?wr s di) w2)" "r = Inr (Some s)"
  proof (cases "w_intelligence w key")
    case None
    then show ?thesis using assms(2) s that [of ?w1 None] by (auto simp: poll_succeeded_def Let_def)
  next
    case (Some i)
    then obtain i' where i': "refresh_intelligence i vs (Some (dd_endpoint device)) = Inr i'"
      using assms(1) by (auto simp: processed_def)
    let ?w2 = "?w1\<lparr>w_intelligence := (w_intelligence ?w1)(key \<mapsto> i')\<rparr>"
    have "poll_succeeded cfg pw interval key device cid did rc vs w =
        (schedule_backfill cfg pw cid did rc (limited pw cid (?wr s (Some i')) ?w2), Inr (Some s))"
      using s Some i' by (simp add: poll_succeeded_def Let_def)
    then have "w' = schedule_backfill cfg pw cid did rc (limited pw cid (?wr s (Some i')) ?w2)" "r = Inr (Some s)"
      using assms(2) by simp_all
    moreover have "\<exists>i. ?w2 = ?w1\<lparr>w_intelligence := (w_intelligence ?w1)(key \<mapsto> i)\<rparr>" by (rule exI) (rule refl)
    ultimately show ?thesis by (intro that [OF disjI2])
  qed
  have "same_elsewhere key w w2" using w2(1) same_elsewhere_trans [OF same_elsewhere_steps(3,5)] by auto
  then have "same_elsewhere key w w'"
    unfolding w2(2) by (rule same_elsewhere_trans [OF same_elsewhere_trans [OF _ limited_persist(6)] same_elsewhere_steps(7)])
  moreover have "lifecycle_at key w2 = ?l" "w_clients w2 = w_clients w" using w2(1) by (auto simp: lifecycle_at_def)
  moreover have "w_lifecycles w' = w_lifecycles w2" "w_clients w' = w_clients w2" using w2(2) by simp_all
  ultimately show ?thesis using w2(3) finish_success [OF s] by (simp add: lifecycle_at_def)
qed

text \<open>C24: One poll of one device.  It changes only the entries of its own key, and returns no sample, and
  changes nothing, exactly when the key is not bound.  When the device answered and its values were
  processed, it never raises: the sample is one of success, the lifecycle is online without failures
  and the client is kept.  When reading the device failed, a sample that is returned is one of failure,
  the client is dropped, and the failures are those before the poll plus one; when the device answered
  but its values could not be processed the same, with exactly one failure, since the success was
  counted first.  The state is then offline once the failures reach the threshold, degraded before.
\<close>

theorem poll_one_outcome:
  "case poll_one api cfg pw interval key device w of (w', r) \<Rightarrow>
   case poll (ca_reader api) (profile_at key device w) (client_at api cfg key device w)
       (VStr (case w_intelligence w key of None \<Rightarrow> '''' | Some di \<Rightarrow> di_firmware di)) of (p, c', q) \<Rightarrow>
   let t = (tracker_begin (tracker_at cfg key device w))\<lparr>tt_exchanges :=
         drop (length (ca_observed api (client_at api cfg key device w))) (ca_observed api c')\<rparr>;
       answered = (\<exists>vs. q = Inr vs \<and> processed pw interval device t (w_intelligence w key) vs);
       failures = (case q of Inl e \<Rightarrow> lc_consecutive_failures (lifecycle_at key w) + 1 | Inr vs \<Rightarrow> 1) in
    same_elsewhere key w w' \<and>
    (r = Inr None \<longleftrightarrow> w_device_ids w key = None \<or> w_controller_ids w key = None) \<and>
    (case r of
       Inl e \<Rightarrow> \<not> answered
     | Inr None \<Rightarrow> w' = w
     | Inr (Some s) \<Rightarrow>
         (if answered
          then ps_success s \<and> lc_state (lifecycle_at key w') = Online \<and>
            lc_consecutive_failures (lifecycle_at key w') = 0 \<and> w_clients w' key = Some c'
          else \<not> ps_success s \<and> w_clients w' key = None \<and>
            lc_consecutive_failures (lifecycle_at key w') = failures \<and>
            lc_state (lifecycle_at key w') = (if rp_threshold (wc_policy cfg) \<le> failures then Offline else Degraded)))"
proof (cases "w_device_ids w key = None \<or> w_controller_ids w key = None")
  case True
  then have "poll_one api cfg pw interval key device w = (w, Inr None)" by (auto simp: poll_one_def split: option.splits)
  with True show ?thesis by (simp add: Let_def split: prod.split)
next
  case False
  then obtain did cid where ids: "w_device_ids w key = Some did" "w_controller_ids w key = Some cid" by auto
  obtain w' r where wr: "poll_one api cfg pw interval key device w = (w', r)" by fastforce
  let ?l = "mark_connecting (lifecycle_at key w)"
  obtain p c q where q: "poll (ca_reader api) (profile_at key device w) (client_at api cfg key device w)
      (VStr (case w_intelligence w key of None \<Rightarrow> '''' | Some di \<Rightarrow> di_firmware di)) = (p, c, q)" by (metis prod_cases3)
  obtain t where t: "t = (tracker_begin (tracker_at cfg key device w))\<lparr>tt_exchanges :=
      drop (length (ca_observed api (client_at api cfg key device w))) (ca_observed api c)\<rparr>" by blast
  obtain w2 rc where w2: "same_elsewhere key w w2" "lifecycle_at key w2 = ?l" "w_clients w2 key = Some c"
    "w_traffic w2 key = Some t" "w_intelligence w2 key = w_intelligence w key"
    "(case q of Inr vs \<Rightarrow> poll_succeeded cfg pw interval key device cid did rc vs w2
      | Inl e \<Rightarrow> poll_failed cfg pw interval key cid did e w2) = (w', r)"
  proof (rule that)
    let ?w1 = "set_lifecycle key ?l w"
    let ?w2 = "?w1\<lparr>w_traffic := (w_traffic ?w1)(key \<mapsto> t), w_clients := (w_clients ?w1)(key \<mapsto> c), w_profiles := (w_profiles ?w1)(key \<mapsto> p)\<rparr>"
    let ?rc = "lc_offline_since (lifecycle_at key w) \<noteq> [] \<or> lc_consecutive_failures (lifecycle_at key w) \<noteq> 0"
    show "same_elsewhere key w ?w2" by (rule same_elsewhere_trans [OF same_elsewhere_steps(3,8)])
    show "lifecycle_at key ?w2 = ?l" "w_clients ?w2 key = Some c" "w_traffic ?w2 key = Some t"
      "w_intelligence ?w2 key = w_intelligence w key" by (simp_all add: lifecycle_at_def)
    show "(case q of Inr vs \<Rightarrow> poll_succeeded cfg pw interval key device cid did ?rc vs ?w2
      | Inl e \<Rightarrow> poll_failed cfg pw interval key cid did e ?w2) = (w', r)"
      using wr ids q unfolding poll_one_def Let_def t by (cases q) simp_all
  qed
  have l: "lc_consecutive_failures ?l = lc_consecutive_failures (lifecycle_at key w)"
    "lc_consecutive_failures (mark_success ts l) = 0" "lc_state (mark_success ts l) = Online" for ts l
    by (simp_all add: mark_connecting_def mark_success_def)
  have b: "r = Inr None \<longleftrightarrow> w_device_ids w key = None \<or> w_controller_ids w key = None" if "r \<noteq> Inr None"
    using that ids by simp
  show ?thesis
  proof (cases q)
    case (Inl e)
    note f = poll_failed_outcome [OF w2(6) [unfolded Inl sum.case]]
    show ?thesis
      unfolding wr q prod.case Let_def Inl
      using b [OF f(2)] f(2,3) same_elsewhere_trans [OF w2(1) f(1)] l w2(2)
      by (cases r; cases "projr r") (auto simp: poll_lost_def)
  next
    case (Inr vs)
    note ps = w2(6) [unfolded Inr sum.case]
    show ?thesis
    proof (cases "processed pw interval device t (w_intelligence w key) vs")
      case True
      then have "processed pw interval device (the (w_traffic w2 key)) (w_intelligence w2 key) vs"
        by (simp add: w2(4,5))
      from poll_succeeded_processed [OF this ps] same_elsewhere_trans [OF w2(1)]
      show ?thesis using True ids l w2(3) unfolding wr q prod.case Let_def Inr t by auto
    next
      case False
      then have "\<not> processed pw interval device (the (w_traffic w2 key)) (w_intelligence w2 key) vs"
        by (simp add: w2(4,5))
      from poll_succeeded_unprocessed [OF this] ps obtain e where
        "poll_failed cfg pw interval key cid did e (set_lifecycle key (mark_success (pw_text pw) (lifecycle_at key w2)) w2) = (w', r)"
        by metis
      note f = poll_failed_outcome [OF this]
      have "same_elsewhere key w w'"
        by (rule same_elsewhere_trans [OF w2(1) same_elsewhere_trans [OF same_elsewhere_steps(3) f(1)]])
      then show ?thesis
        unfolding wr q prod.case Let_def Inr
        using b [OF f(2)] f(2,3) l False [unfolded t]
        by (cases r; cases "projr r") (auto simp: poll_lost_def lifecycle_at_set)
    qed
  qed
qed

section \<open>Concrete watchers\<close>

definition tcp_device :: "string \<Rightarrow> discovered_device" where
  "tcp_device target = \<lparr>dd_endpoint = \<lparr>ep_transport = Tcp, ep_target = target, ep_unit_id = 1, ep_port = Some 502,
       ep_baudrate = None, ep_stop_bits = None, ep_usb_serial = None, ep_usb_vid = None, ep_usb_pid = None\<rparr>,
     dd_identification = empty_identification, dd_latency_ms = Fin 1, dd_profile = ''generic'', dd_intelligence = None\<rparr>"

text \<open>Two controllers that have been polled on their endpoints, the second one failing.\<close>

definition two_controllers :: "unit watcher" where
  "two_controllers = \<lparr>w_devices = [''k1'' \<mapsto> tcp_device ''a'', ''k2'' \<mapsto> tcp_device ''b''],
     w_device_ids = [''k1'' \<mapsto> ''d1'', ''k2'' \<mapsto> ''d2''], w_controller_ids = [''k1'' \<mapsto> ''c1'', ''k2'' \<mapsto> ''c2''],
     w_controller_keys = [''c1'' \<mapsto> ''k1'', ''c2'' \<mapsto> ''k2''], w_canonical_ids = [''c1'' \<mapsto> ''d1'', ''c2'' \<mapsto> ''d2''],
     w_clients = [''k1'' \<mapsto> ()], w_profiles = Map.empty, w_intelligence = Map.empty,
     w_lifecycles = [''k1'' \<mapsto> DeviceLifecycle,
       ''k2'' \<mapsto> DeviceLifecycle\<lparr>lc_state := Degraded, lc_consecutive_failures := 2, lc_next_retry := Fin 30\<rparr>],
     w_traffic = Map.empty, w_present_keys = [''k1'', ''k2''], w_present_controllers = [''c1'', ''c2''],
     w_auto = None, w_signature = None, w_limiter = \<lparr>pl_interval = Fin 1, pl_last_write = Map.empty\<rparr>,
     w_history_attempted = {}, w_history_running = {}, w_events = []\<rparr>"

definition moved_endpoint :: "(string \<times> candidate) list" where
  "moved_endpoint = [(''c1'', ''d1'', ''k1'', tcp_device ''a''), (''c2'', ''d2'', ''k3'', tcp_device ''c'')]"

lemma select_moved_endpoint: "select_controller_endpoints (w_controller_keys two_controllers) moved_endpoint = moved_endpoint"
  by (simp add: select_controller_endpoints_def choose_endpoint_def two_controllers_def moved_endpoint_def)

text \<open>The second controller comes back under a new key: it is polled again and keeps its two failures.\<close>

lemma refresh_due_example:
  "due_keys (Fin 5) (refresh_devices ''t'' moved_endpoint two_controllers) =
     [(''k1'', ''c1'', tcp_device ''a''), (''k3'', ''c2'', tcp_device ''c'')] \<and>
   lc_consecutive_failures (lifecycle_at ''k3'' (refresh_devices ''t'' moved_endpoint two_controllers)) = 2"
proof -
  have "distinct (map cand_key moved_endpoint)" by (simp add: moved_endpoint_def)
  moreover have "no_takeover (w_controller_keys two_controllers) moved_endpoint"
    by (simp add: no_takeover_def moved_endpoint_def two_controllers_def)
  moreover have "lc_consecutive_failures (lifecycle_at ''k2'' two_controllers) = 2" "w_controller_keys two_controllers ''c2'' = Some ''k2''"
    by (simp_all add: lifecycle_at_def two_controllers_def)
  ultimately show ?thesis
    using refresh_due [of moved_endpoint two_controllers "Fin 5" "''t''"] unfolding select_moved_endpoint
    by (simp add: moved_endpoint_def)
qed

text \<open>
  Two controllers that swap their endpoints: binding the second one drops the entries the first one has
  just been bound to, so the first is present without being polled until the next discovery.
\<close>

lemma bind_forgets:
  assumes "w_controller_keys w cid = Some k" "k \<noteq> key"
  shows "w_devices (bind_controller ts (cid, did, key, device) w) k = None"
  using assms by (simp add: bind_controller_def leave_key_def rekeyed_def forget_key_def Let_def)

definition swapped_endpoints :: "(string \<times> candidate) list" where
  "swapped_endpoints = [(''c1'', ''d1'', ''k2'', tcp_device ''b''), (''c2'', ''d2'', ''k1'', tcp_device ''a'')]"

lemma select_swapped_endpoints:
  "select_controller_endpoints (w_controller_keys two_controllers) swapped_endpoints = swapped_endpoints"
  by (simp add: select_controller_endpoints_def choose_endpoint_def two_controllers_def swapped_endpoints_def)

lemma swap_loses_controller:
  "w_present_controllers (refresh_devices ''t'' swapped_endpoints two_controllers) = [''c1'', ''c2'']"
  "due_keys (Fin 5) (refresh_devices ''t'' swapped_endpoints two_controllers) = [(''k1'', ''c2'', tcp_device ''a'')]"
proof -
  let ?w = "refresh_devices ''t'' swapped_endpoints two_controllers"
  let ?w1 = "bind_controller ''t'' (''c1'', ''d1'', ''k2'', tcp_device ''b'') (refresh_start ''t'' swapped_endpoints two_controllers)"
  let ?w2 = "bind_controller ''t'' (''c2'', ''d2'', ''k1'', tcp_device ''a'') ?w1"
  have w: "?w = ?w2\<lparr>w_present_controllers := [''c1'', ''c2''], w_present_keys := [''k2'', ''k1'']\<rparr>"
    unfolding refresh_devices_split Let_def select_swapped_endpoints by (simp add: swapped_endpoints_def)
  have "w_controller_keys ?w1 ''c2'' = Some ''k2''" by (simp add: bind_keys refresh_start_fields two_controllers_def)
  then have "w_devices ?w2 ''k2'' = None" by (rule bind_forgets) simp
  moreover note bind_self [where cid = "''c2''" and did = "''d2''" and key = "''k1''" and device = "tcp_device ''a''"
    and ts = "''t''" and w = ?w1]
  ultimately show "due_keys (Fin 5) ?w = [(''k1'', ''c2'', tcp_device ''a'')]"
    unfolding w by (simp add: due_keys_def List.map_filter_simps lifecycle_at_def bound_def can_poll_discovered)
  show "w_present_controllers ?w = [''c1'', ''c2'']" by (simp add: w)
qed

end
