(* ===== verification/Config_Settings.thy ===== *)
theory Config_Settings
  imports Py_Order Py_Repr Py_Sum
begin

text \<open>
  \<open>config/settings.py\<close>: the sections of the configuration with their defaults, and \<open>_validate\<close>,
  which \<open>load_config\<close> runs on every configuration it returns.  The dataclasses do not check types; a
  configuration here has values of the annotated types (a number of a float field is the float it
  compares as), except the poll interval, whose normalisation is part of the validation.  Parsing TOML
  and the text of IP networks is a parameter (\<open>ip_library\<close>).
\<close>

section \<open>Sections\<close>

record database_config =
  db_path :: string
  db_telemetry_write_interval_seconds :: pyfloat

definition DatabaseConfig :: database_config where
  "DatabaseConfig = \<lparr>db_path = ''./morningstar.db'', db_telemetry_write_interval_seconds = Fin 1\<rparr>"

record storage_config =
  st_enabled :: bool
  st_archive_dir :: string
  st_maintenance_interval_seconds :: pyfloat
  st_hot_days :: int
  st_warm_days :: int
  st_cool_days :: int
  st_warm_bucket_seconds :: int
  st_cool_bucket_seconds :: int
  st_cold_bucket_seconds :: int
  st_archive_batch_rows :: int
  st_parquet_compression_level :: int
  st_prune_archived_raw :: bool
  st_incremental_vacuum_pages :: int

definition StorageConfig :: storage_config where
  "StorageConfig = \<lparr>st_enabled = True, st_archive_dir = ''./morningstar-archive'',
     st_maintenance_interval_seconds = Fin 21600, st_hot_days = 7, st_warm_days = 30, st_cool_days = 180,
     st_warm_bucket_seconds = 10, st_cool_bucket_seconds = 60, st_cold_bucket_seconds = 300,
     st_archive_batch_rows = 10000, st_parquet_compression_level = 19, st_prune_archived_raw = True,
     st_incremental_vacuum_pages = 2048\<rparr>"

record watch_settings =
  wa_poll_interval_seconds :: pyval
  wa_discovery_interval_seconds :: pyfloat
  wa_request_timeout_seconds :: pyfloat
  wa_unit_ids :: "int list"
  wa_max_tcp_concurrency :: int
  wa_failure_threshold :: int
  wa_retry_backoff_initial_seconds :: pyfloat
  wa_retry_backoff_max_seconds :: pyfloat

definition WatchConfig :: watch_settings where
  "WatchConfig = \<lparr>wa_poll_interval_seconds = VFloat (Fin 5), wa_discovery_interval_seconds = Fin 30,
     wa_request_timeout_seconds = fl (15 / 10), wa_unit_ids = [1], wa_max_tcp_concurrency = 32,
     wa_failure_threshold = 3, wa_retry_backoff_initial_seconds = Fin 2,
     wa_retry_backoff_max_seconds = Fin 60\<rparr>"

record poll_benchmark_config =
  be_intervals_seconds :: "pyfloat list"
  be_samples_per_interval :: int
  be_min_success_rate :: pyfloat
  be_max_p95_interval_ratio :: pyfloat
  be_max_deadline_miss_rate :: pyfloat
  be_max_request_failure_rate :: pyfloat
  be_max_bus_utilization_percent :: pyfloat
  be_minimum_interval_seconds :: pyfloat
  be_auto_fallback_interval_seconds :: pyfloat

definition PollBenchmarkConfig :: poll_benchmark_config where
  "PollBenchmarkConfig = \<lparr>be_intervals_seconds = [Fin 1, fl (5 / 10), fl (25 / 100)],
     be_samples_per_interval = 12, be_min_success_rate = fl (98 / 100), be_max_p95_interval_ratio = fl (80 / 100),
     be_max_deadline_miss_rate = fl (5 / 100), be_max_request_failure_rate = fl (2 / 100),
     be_max_bus_utilization_percent = Fin 70, be_minimum_interval_seconds = fl (25 / 100),
     be_auto_fallback_interval_seconds = Fin 5\<rparr>"

record serial_config =
  se_enabled :: bool
  se_baudrate :: int
  se_stop_bits :: int
  se_ports :: "string list"

definition SerialConfig :: serial_config where
  "SerialConfig = \<lparr>se_enabled = True, se_baudrate = 9600, se_stop_bits = 2, se_ports = []\<rparr>"

record tcp_config =
  tp_enabled :: bool
  tp_port :: int
  tp_hosts :: "string list"
  tp_subnets :: "string list"

definition TcpConfig :: tcp_config where
  "TcpConfig = \<lparr>tp_enabled = True, tp_port = 502, tp_hosts = [], tp_subnets = []\<rparr>"

record backfill_config =
  bf_enabled :: bool
  bf_on_startup :: bool
  bf_on_reconnect :: bool
  bf_max_days :: int
  bf_calendar_timezone :: string
  bf_http_port :: int
  bf_http_path :: string
  bf_timeout_seconds :: pyfloat
  bf_max_response_bytes :: int

definition HistoryBackfillConfig :: backfill_config where
  "HistoryBackfillConfig = \<lparr>bf_enabled = True, bf_on_startup = True, bf_on_reconnect = True,
     bf_max_days = 200, bf_calendar_timezone = ''local'', bf_http_port = 80, bf_http_path = ''/datalog.html'',
     bf_timeout_seconds = Fin 3, bf_max_response_bytes = 1048576\<rparr>"

record system_config =
  sy_default_uid :: string
  sy_default_name :: string

definition SystemApiConfig :: system_config where
  "SystemApiConfig = \<lparr>sy_default_uid = ''sys_default'', sy_default_name = ''default''\<rparr>"

record snmp_config =
  sn_enabled :: bool
  sn_host :: string
  sn_port :: int
  sn_max_packet_bytes :: int

definition SnmpTrapConfig :: snmp_config where
  "SnmpTrapConfig = \<lparr>sn_enabled = False, sn_host = ''127.0.0.1'', sn_port = 9162,
     sn_max_packet_bytes = 65507\<rparr>"

record api_config =
  ai_host :: string
  ai_port :: int

definition ApiConfig :: api_config where
  "ApiConfig = \<lparr>ai_host = ''127.0.0.1'', ai_port = 8080\<rparr>"


record app_config =
  ac_database :: database_config
  ac_storage :: storage_config
  ac_watch :: watch_settings
  ac_poll_benchmark :: poll_benchmark_config
  ac_serial :: serial_config
  ac_tcp :: tcp_config
  ac_backfill :: backfill_config
  ac_system :: system_config
  ac_snmp :: snmp_config
  ac_api :: api_config

definition AppConfig :: app_config where
  "AppConfig = \<lparr>ac_database = DatabaseConfig, ac_storage = StorageConfig, ac_watch = WatchConfig,
     ac_poll_benchmark = PollBenchmarkConfig, ac_serial = SerialConfig, ac_tcp = TcpConfig,
     ac_backfill = HistoryBackfillConfig, ac_system = SystemApiConfig, ac_snmp = SnmpTrapConfig,
     ac_api = ApiConfig\<rparr>"

section \<open>IP networks\<close>

text \<open>A network of the standard library: its width in bits, its (masked) address and prefix length.\<close>

record ip_network =
  ip_bits :: nat
  ip_address :: nat
  ip_prefix :: nat

record ip_library =
  il_network :: "string \<Rightarrow> ip_network res"
  il_text :: "nat \<Rightarrow> nat \<Rightarrow> string"

definition num_addresses :: "ip_network \<Rightarrow> nat" where
  "num_addresses net = 2 ^ (ip_bits net - ip_prefix net)"

text \<open>\<open>hosts()\<close>: without the network address, and in IPv4 the broadcast address, except in the two
  longest prefixes.\<close>

definition network_hosts :: "ip_network \<Rightarrow> nat list" where
  "network_hosts net =
    (let a = ip_address net; n = num_addresses net in
     if n \<le> 2 then [a..<a + n]
     else if ip_bits net = 32 then [a + 1..<a + n - 1] else [a + 1..<a + n])"

section \<open>Validation\<close>

definition normalize_poll_interval :: "pyval \<Rightarrow> pyval res" where
  "normalize_poll_interval v =
    (let bad = Inl (ValueError ''watch.poll_interval_seconds must be a positive number or \"auto\"'');
         positive = (\<lambda>x. if fle x (Fin 0) then Inl (ValueError ''watch.poll_interval_seconds must be positive'')
                         else Inr (VFloat x)) in
     case v of
       VStr s \<Rightarrow> if str_lower (str_strip s) = ''auto'' then Inr (VStr ''auto'') else bad
     | VInt i \<Rightarrow> rbind (float_of_int i) positive
     | VFloat x \<Rightarrow> positive x
     | _ \<Rightarrow> bad)"

text \<open>The checks, in order, each with what it raises when its condition is false.\<close>

type_synonym check = "bool \<times> string"

fun run_checks :: "check list \<Rightarrow> unit res" where
  "run_checks [] = Inr ()"
| "run_checks ((ok, message) # cs) = (if ok then run_checks cs else Inl (ValueError message))"

definition storage_checks :: "storage_config \<Rightarrow> check list" where
  "storage_checks st =
    [(\<not> flt (st_maintenance_interval_seconds st) (Fin 60), ''storage.maintenance_interval_seconds must be >= 60''),
     (1 \<le> st_hot_days st \<and> st_hot_days st \<le> st_warm_days st \<and> st_warm_days st \<le> st_cool_days st,
        ''storage retention tiers must satisfy hot_days <= warm_days <= cool_days''),
     (\<not> st_warm_bucket_seconds st < 1, ''storage.warm_bucket_seconds must be positive''),
     (\<not> st_cool_bucket_seconds st < 1, ''storage.cool_bucket_seconds must be positive''),
     (\<not> st_cold_bucket_seconds st < 1, ''storage.cold_bucket_seconds must be positive''),
     (st_warm_bucket_seconds st \<le> st_cool_bucket_seconds st \<and> st_cool_bucket_seconds st \<le> st_cold_bucket_seconds st,
        ''storage bucket sizes must increase from warm to cold''),
     (100 \<le> st_archive_batch_rows st \<and> st_archive_batch_rows st \<le> 1000000,
        ''storage.archive_batch_rows must be within 100..1000000''),
     (1 \<le> st_parquet_compression_level st \<and> st_parquet_compression_level st \<le> 22,
        ''storage.parquet_compression_level must be within 1..22''),
     (\<not> st_incremental_vacuum_pages st < 1, ''storage.incremental_vacuum_pages must be positive''),
     (str_strip (st_archive_dir st) \<noteq> [], ''storage.archive_dir must not be empty'')]"

definition watch_checks :: "watch_settings \<Rightarrow> check list" where
  "watch_checks wa =
    [(list_all (\<lambda>unit. 1 \<le> unit \<and> unit \<le> 247) (wa_unit_ids wa), ''unit_ids must be within 1..247''),
     (1 \<le> wa_max_tcp_concurrency wa \<and> wa_max_tcp_concurrency wa \<le> 256, ''max_tcp_concurrency must be within 1..256''),
     (\<not> wa_failure_threshold wa < 1, ''failure_threshold must be positive''),
     (\<not> fle (wa_retry_backoff_initial_seconds wa) (Fin 0), ''retry_backoff_initial_seconds must be positive''),
     (\<not> flt (wa_retry_backoff_max_seconds wa) (wa_retry_backoff_initial_seconds wa),
        ''retry_backoff_max_seconds must be >= retry_backoff_initial_seconds'')]"

definition backfill_checks :: "backfill_config \<Rightarrow> check list" where
  "backfill_checks bf =
    [(1 \<le> bf_max_days bf \<and> bf_max_days bf \<le> 200, ''backfill.max_days must be within 1..200''),
     (str_strip (bf_calendar_timezone bf) \<noteq> [], ''backfill.calendar_timezone must not be empty''),
     (1 \<le> bf_http_port bf \<and> bf_http_port bf \<le> 65535, ''backfill.http_port must be within 1..65535''),
     (startswith ''/'' (bf_http_path bf), ''backfill.http_path must start with /''),
     (list_all (\<lambda>c. of_char c < (128 :: nat) \<and> c \<noteq> CHR 13 \<and> c \<noteq> CHR 10) (bf_http_path bf),
        ''backfill.http_path must be ASCII and contain no line breaks''),
     (\<not> fle (bf_timeout_seconds bf) (Fin 0), ''backfill.timeout_seconds must be positive''),
     (16384 \<le> bf_max_response_bytes bf \<and> bf_max_response_bytes bf \<le> 8388608,
        ''backfill.max_response_bytes must be between 16 KiB and 8 MiB'')]"

definition uid_char :: "char \<Rightarrow> bool" where
  "uid_char c \<longleftrightarrow> is_upper c \<or> is_lower c \<or> is_digit c \<or> c \<in> set ''_.:-''"

definition system_checks :: "system_config \<Rightarrow> check list" where
  "system_checks sy =
    [(sy_default_uid sy \<noteq> [] \<and> list_all uid_char (sy_default_uid sy),
        ''system.default_uid must contain only letters, digits, _, ., :, or -''),
     (str_strip (sy_default_name sy) \<noteq> [], ''system.default_name must not be empty''),
     (\<not> 128 < length (sy_default_name sy), ''system.default_name must be at most 128 characters'')]"

definition snmp_checks :: "snmp_config \<Rightarrow> check list" where
  "snmp_checks sn =
    [(1 \<le> sn_port sn \<and> sn_port sn \<le> 65535, ''snmp.port must be within 1..65535''),
     (str_strip (sn_host sn) \<noteq> [], ''snmp.host must not be empty''),
     (512 \<le> sn_max_packet_bytes sn \<and> sn_max_packet_bytes sn \<le> 65507, ''snmp.max_packet_bytes must be within 512..65507'')]"

text \<open>\<open>max(xs)\<close> of a non-empty list; an empty list has been refused by an earlier check.\<close>

fun float_maximum :: "pyfloat list \<Rightarrow> pyfloat" where
  "float_maximum [] = Fin 0"
| "float_maximum (x # xs) = fold (\<lambda>y m. fmax m y) xs x"

definition benchmark_checks :: "poll_benchmark_config \<Rightarrow> check list" where
  "benchmark_checks be =
    [(\<not> fle (be_minimum_interval_seconds be) (Fin 0), ''poll_benchmark.minimum_interval_seconds must be positive''),
     (be_intervals_seconds be \<noteq> [], ''poll_benchmark.intervals_seconds must not be empty''),
     (\<not> list_ex (\<lambda>x. flt x (be_minimum_interval_seconds be)) (be_intervals_seconds be),
        ''poll benchmark interval is below minimum_interval_seconds''),
     (\<not> be_samples_per_interval be < 3, ''poll_benchmark.samples_per_interval must be >= 3''),
     (\<not> fle (be_auto_fallback_interval_seconds be) (Fin 0),
        ''poll_benchmark.auto_fallback_interval_seconds must be positive''),
     (\<not> flt (be_auto_fallback_interval_seconds be) (float_maximum (be_intervals_seconds be)),
        ''poll_benchmark.auto_fallback_interval_seconds must be >= the slowest benchmark interval''),
     (fle (Fin 0) (be_min_success_rate be) \<and> fle (be_min_success_rate be) (Fin 1),
        ''poll_benchmark.min_success_rate must be within 0..1''),
     (fle (Fin 0) (be_max_p95_interval_ratio be) \<and> fle (be_max_p95_interval_ratio be) (Fin 1),
        ''poll_benchmark.max_p95_interval_ratio must be within 0..1''),
     (fle (Fin 0) (be_max_deadline_miss_rate be) \<and> fle (be_max_deadline_miss_rate be) (Fin 1),
        ''poll_benchmark.max_deadline_miss_rate must be within 0..1''),
     (fle (Fin 0) (be_max_request_failure_rate be) \<and> fle (be_max_request_failure_rate be) (Fin 1),
        ''poll_benchmark.max_request_failure_rate must be within 0..1''),
     (flt (Fin 0) (be_max_bus_utilization_percent be) \<and> fle (be_max_bus_utilization_percent be) (Fin 100),
        ''poll_benchmark.max_bus_utilization_percent must be within 0..100'')]"

fun validate_subnets :: "ip_library \<Rightarrow> string list \<Rightarrow> unit res" where
  "validate_subnets lib [] = Inr ()"
| "validate_subnets lib (s # ss) = rbind (il_network lib s) (\<lambda>net.
     if 4096 < num_addresses net
     then Inl (ValueError (''refusing TCP discovery network larger than /20: '' @ s))
     else validate_subnets lib ss)"

text \<open>\<open>_validate\<close> returns the configuration with its poll interval normalised.\<close>

definition validate :: "ip_library \<Rightarrow> app_config \<Rightarrow> app_config res" where
  "validate lib cfg =
    rbind (normalize_poll_interval (wa_poll_interval_seconds (ac_watch cfg))) (\<lambda>interval.
    rbind (run_checks
      ([(\<not> fle (wa_discovery_interval_seconds (ac_watch cfg)) (Fin 0), ''watch discovery interval must be positive''),
        (\<not> flt (db_telemetry_write_interval_seconds (ac_database cfg)) (Fin 1),
           ''database.telemetry_write_interval_seconds must be >= 1.0'')] @
       storage_checks (ac_storage cfg) @ watch_checks (ac_watch cfg) @ backfill_checks (ac_backfill cfg) @
       system_checks (ac_system cfg) @ snmp_checks (ac_snmp cfg) @ benchmark_checks (ac_poll_benchmark cfg))) (\<lambda>_.
    rbind (validate_subnets lib (tp_subnets (ac_tcp cfg))) (\<lambda>_.
      Inr (cfg\<lparr>ac_watch := (ac_watch cfg)\<lparr>wa_poll_interval_seconds := interval\<rparr>\<rparr>))))"

text \<open>\<open>load_config\<close>, with the configuration read from the file if a path was given.\<close>

definition load_config :: "ip_library \<Rightarrow> app_config option \<Rightarrow> app_config res" where
  "load_config lib file = validate lib (case file of None \<Rightarrow> AppConfig | Some cfg \<Rightarrow> cfg)"

lemma run_checks_Inr: "run_checks cs = Inr u \<longleftrightarrow> list_all fst cs"
  by (induction cs rule: run_checks.induct) auto

lemma validate_Inr:
  "validate lib cfg = Inr cfg' \<longleftrightarrow>
    (\<exists>interval. normalize_poll_interval (wa_poll_interval_seconds (ac_watch cfg)) = Inr interval \<and>
      cfg' = cfg\<lparr>ac_watch := (ac_watch cfg)\<lparr>wa_poll_interval_seconds := interval\<rparr>\<rparr>) \<and>
    \<not> fle (wa_discovery_interval_seconds (ac_watch cfg)) (Fin 0) \<and>
    \<not> flt (db_telemetry_write_interval_seconds (ac_database cfg)) (Fin 1) \<and>
    list_all fst (storage_checks (ac_storage cfg)) \<and> list_all fst (watch_checks (ac_watch cfg)) \<and>
    list_all fst (backfill_checks (ac_backfill cfg)) \<and> list_all fst (system_checks (ac_system cfg)) \<and>
    list_all fst (snmp_checks (ac_snmp cfg)) \<and> list_all fst (benchmark_checks (ac_poll_benchmark cfg)) \<and>
    validate_subnets lib (tp_subnets (ac_tcp cfg)) = Inr ()"
  unfolding validate_def by (auto simp: rbind_eq_Inr run_checks_Inr)

lemma normalize_Inr:
  "normalize_poll_interval v = Inr v' \<Longrightarrow> v' = VStr ''auto'' \<or> (\<exists>x. v' = VFloat x \<and> \<not> fle x (Fin 0))"
  by (cases v) (auto simp: normalize_poll_interval_def Let_def rbind_eq_Inr split: if_splits)

text \<open>The default configuration passes.\<close>

lemma fl_between:
  assumes "0 \<le> x" "x \<le> 1" obtains r where "fl x = Fin r" "x - 1 / 1000 \<le> r" "r \<le> x + 1 / 1000"
proof -
  have "\<bar>x\<bar> \<le> 2" using assms by simp
  then obtain r where r: "fl x = Fin r" "\<bar>r - x\<bar> \<le> ulp" by (rule fl_near)
  have "ulp \<le> 1 / 1000" by (simp add: ulp_def)
  then have "x - 1 / 1000 \<le> r" "r \<le> x + 1 / 1000" using r(2) by (simp_all add: abs_le_iff)
  with r(1) show thesis by (rule that)
qed

lemma default_benchmark: "list_all fst (benchmark_checks PollBenchmarkConfig)"
proof -
  obtain a where a: "fl (98 / 100) = Fin a" "98 / 100 - 1 / 1000 \<le> a" "a \<le> 98 / 100 + 1 / 1000" by (rule fl_between [of "98 / 100"]) simp_all
  obtain b where b: "fl (80 / 100) = Fin b" "80 / 100 - 1 / 1000 \<le> b" "b \<le> 80 / 100 + 1 / 1000" by (rule fl_between [of "80 / 100"]) simp_all
  obtain c where c: "fl (5 / 100) = Fin c" "5 / 100 - 1 / 1000 \<le> c" "c \<le> 5 / 100 + 1 / 1000" by (rule fl_between [of "5 / 100"]) simp_all
  obtain d where d: "fl (2 / 100) = Fin d" "2 / 100 - 1 / 1000 \<le> d" "d \<le> 2 / 100 + 1 / 1000" by (rule fl_between [of "2 / 100"]) simp_all
  obtain e where e: "fl (5 / 10) = Fin e" "5 / 10 - 1 / 1000 \<le> e" "e \<le> 5 / 10 + 1 / 1000" by (rule fl_between [of "5 / 10"]) simp_all
  obtain f where f: "fl (25 / 100) = Fin f" "25 / 100 - 1 / 1000 \<le> f" "f \<le> 25 / 100 + 1 / 1000" by (rule fl_between [of "25 / 100"]) simp_all
  have i: "\<not> flt (Fin 5) (float_maximum [Fin 1, Fin e, Fin f])" "\<not> list_ex (\<lambda>x. flt x (Fin f)) [Fin 1, Fin e, Fin f]"
    using e(2,3) f(2,3) by (simp_all add: fmax_def)
  then show ?thesis
    using a(2,3) b(2,3) c(2,3) d(2,3) f(2,3)
    unfolding benchmark_checks_def PollBenchmarkConfig_def poll_benchmark_config.select_convs a(1) b(1) c(1) d(1) e(1) f(1)
    by simp
qed

lemma default_config: "load_config lib None = Inr AppConfig"
proof -
  have "list_all fst (storage_checks StorageConfig) \<and> list_all fst (watch_checks WatchConfig) \<and>
      list_all fst (backfill_checks HistoryBackfillConfig) \<and> list_all fst (system_checks SystemApiConfig) \<and>
      list_all fst (snmp_checks SnmpTrapConfig)"
    by (simp add: storage_checks_def StorageConfig_def watch_checks_def WatchConfig_def backfill_checks_def
        HistoryBackfillConfig_def system_checks_def SystemApiConfig_def snmp_checks_def SnmpTrapConfig_def
        str_strip_def rstrip_by_def is_space_def code_of_def startswith_def uid_char_def is_digit_def is_lower_def is_upper_def)
  with default_benchmark show ?thesis
    unfolding load_config_def option.case validate_Inr
    by (simp add: AppConfig_def WatchConfig_def DatabaseConfig_def TcpConfig_def normalize_poll_interval_def Let_def)
qed

end
