(* ===== verification/Discovery.thy ===== *)
theory Discovery
  imports Config_Settings Watcher
begin

text \<open>
  \<open>discovery/service.py\<close>: which endpoints a discovery probes, what a probe of one endpoint gives, and
  the merge of the answers by stable key.  Every probe has a client of its own, so probing one after the
  other gives what the concurrent tasks give.  The serial ports of the machine, the clients (what
  connecting gives, how they identify a device and read registers) and the clock are parameters.
\<close>

section \<open>Probing one endpoint\<close>

record 'c prober =
  pb_connect :: "client_config \<Rightarrow> 'c"
  pb_reader :: "'c reader"
  pb_identify :: "'c \<Rightarrow> 'c \<times> device_identification res"
  pb_latency :: "endpoint \<Rightarrow> pyfloat"

text \<open>The checks of the clients' constructors.\<close>

definition check_client :: "client_config \<Rightarrow> unit res" where
  "check_client cl =
    (if \<not> (1 \<le> cl_unit_id cl \<and> cl_unit_id cl \<le> 247) then Inl (ValueError ''unit_id must be 1..247'')
     else if cl_transport cl = Serial \<and> cl_stop_bits cl \<notin> {1, 2} then Inl (ValueError ''stop_bits must be 1 or 2'')
     else Inr ())"

text \<open>\<open>_probe\<close>: a device that does not identify itself must at least answer a read; any exception means
  that there is no device.\<close>

definition probe_identity :: "'c prober \<Rightarrow> 'c \<Rightarrow> 'c \<times> device_identification res" where
  "probe_identity pb c = (case pb_identify pb c of
     (c1, Inr identity) \<Rightarrow> (c1, Inr identity)
   | (c1, Inl e) \<Rightarrow> (case rd_holding (pb_reader pb) c1 0 1 of
       (c2, r) \<Rightarrow> (c2, rbind r (\<lambda>_. Inr empty_identification))))"

definition probe :: "'c prober \<Rightarrow> client_config \<Rightarrow> endpoint \<Rightarrow> discovered_device option" where
  "probe pb cl ep = (case probe_identity pb (pb_connect pb cl) of
     (c, Inl e) \<Rightarrow> None
   | (c, Inr identity) \<Rightarrow> (case snd (resolve_device_intelligence (pb_reader pb) c identity (Some ep)) of
       Inl e \<Rightarrow> None
     | Inr di \<Rightarrow> Some \<lparr>dd_endpoint = ep, dd_identification = identity, dd_latency_ms = pb_latency pb ep,
         dd_profile = di_profile di, dd_intelligence = Some di\<rparr>))"

fun probe_all :: "'c prober \<Rightarrow> (client_config \<times> endpoint) list \<Rightarrow> discovered_device list res" where
  "probe_all pb [] = Inr []"
| "probe_all pb ((cl, ep) # es) = rbind (check_client cl) (\<lambda>_. rbind (probe_all pb es) (\<lambda>ds.
     Inr (case probe pb cl ep of None \<Rightarrow> ds | Some d \<Rightarrow> d # ds)))"

section \<open>What is probed\<close>

text \<open>A port as the serial library lists it.\<close>

record serial_port_info =
  pi_device :: string
  pi_serial_number :: "string option"
  pi_vid :: "nat option"
  pi_pid :: "nat option"

definition serial_endpoint :: "app_config \<Rightarrow> serial_port_info \<Rightarrow> int \<Rightarrow> client_config \<times> endpoint" where
  "serial_endpoint cfg port unit =
    (\<lparr>cl_transport = Serial, cl_target = pi_device port, cl_port = 502, cl_baudrate = se_baudrate (ac_serial cfg),
       cl_stop_bits = se_stop_bits (ac_serial cfg), cl_unit_id = unit\<rparr>,
     \<lparr>ep_transport = Serial, ep_target = pi_device port, ep_unit_id = unit, ep_port = None,
       ep_baudrate = Some (se_baudrate (ac_serial cfg)), ep_stop_bits = Some (se_stop_bits (ac_serial cfg)),
       ep_usb_serial = pi_serial_number port, ep_usb_vid = pi_vid port, ep_usb_pid = pi_pid port\<rparr>)"

definition serial_endpoints :: "app_config \<Rightarrow> serial_port_info list \<Rightarrow> (client_config \<times> endpoint) list" where
  "serial_endpoints cfg ports =
    (let allowlist = se_ports (ac_serial cfg) in
     concat (map (\<lambda>port. map (serial_endpoint cfg port) (wa_unit_ids (ac_watch cfg)))
       (filter (\<lambda>port. allowlist = [] \<or> pi_device port \<in> set allowlist) ports)))"

definition discover_serial :: "'c prober \<Rightarrow> app_config \<Rightarrow> serial_port_info list \<Rightarrow> discovered_device list res" where
  "discover_serial pb cfg ports =
    (if \<not> se_enabled (ac_serial cfg) then Inr [] else probe_all pb (serial_endpoints cfg ports))"

text \<open>\<open>_tcp_hosts\<close>: the configured hosts, then those of the subnets, each once.\<close>

fun yield_hosts :: "string set \<Rightarrow> string list \<Rightarrow> string list" where
  "yield_hosts yielded [] = []"
| "yield_hosts yielded (h # hs) =
    (if h \<in> yielded then yield_hosts yielded hs else h # yield_hosts (insert h yielded) hs)"

fun subnet_hosts :: "ip_library \<Rightarrow> string list \<Rightarrow> string list res" where
  "subnet_hosts lib [] = Inr []"
| "subnet_hosts lib (s # ss) = rbind (il_network lib s) (\<lambda>net. rbind (subnet_hosts lib ss) (\<lambda>hs.
     Inr (map (il_text lib (ip_bits net)) (network_hosts net) @ hs)))"

definition tcp_hosts :: "ip_library \<Rightarrow> tcp_config \<Rightarrow> string list res" where
  "tcp_hosts lib tcp = rbind (subnet_hosts lib (tp_subnets tcp)) (\<lambda>hs. Inr (yield_hosts {} (tp_hosts tcp @ hs)))"

definition tcp_endpoint :: "app_config \<Rightarrow> string \<Rightarrow> int \<Rightarrow> client_config \<times> endpoint" where
  "tcp_endpoint cfg host unit =
    (\<lparr>cl_transport = Tcp, cl_target = host, cl_port = tp_port (ac_tcp cfg), cl_baudrate = 9600, cl_stop_bits = 2,
       cl_unit_id = unit\<rparr>,
     \<lparr>ep_transport = Tcp, ep_target = host, ep_unit_id = unit, ep_port = Some (tp_port (ac_tcp cfg)),
       ep_baudrate = None, ep_stop_bits = None, ep_usb_serial = None, ep_usb_vid = None, ep_usb_pid = None\<rparr>)"

definition tcp_endpoints :: "ip_library \<Rightarrow> app_config \<Rightarrow> (client_config \<times> endpoint) list res" where
  "tcp_endpoints lib cfg = rbind (tcp_hosts lib (ac_tcp cfg)) (\<lambda>hs.
     Inr (concat (map (\<lambda>host. map (tcp_endpoint cfg host) (wa_unit_ids (ac_watch cfg))) hs)))"

definition discover_tcp :: "ip_library \<Rightarrow> 'c prober \<Rightarrow> app_config \<Rightarrow> discovered_device list res" where
  "discover_tcp lib pb cfg =
    (if \<not> tp_enabled (ac_tcp cfg) then Inr [] else rbind (tcp_endpoints lib cfg) (probe_all pb))"

section \<open>The merge\<close>

abbreviation dd_key :: "discovered_device \<Rightarrow> string" where
  "dd_key d \<equiv> stable_key (dd_endpoint d)"

definition merge_devices :: "discovered_device list \<Rightarrow> discovered_device list" where
  "merge_devices ds = map snd (fold (\<lambda>d. AList.update (dd_key d) d) ds [])"

definition discover ::
  "ip_library \<Rightarrow> 'c prober \<Rightarrow> app_config \<Rightarrow> serial_port_info list \<Rightarrow> discovered_device list res" where
  "discover lib pb cfg ports =
    rbind (discover_serial pb cfg ports) (\<lambda>serial_devices.
    rbind (discover_tcp lib pb cfg) (\<lambda>tcp_devices.
      Inr (merge_devices (serial_devices @ tcp_devices))))"

end
