(* ===== verification/Discovery_Facts.thy ===== *)
theory Discovery_Facts
  imports Discovery Intelligence_Facts
begin

text \<open>
  What a discovery returns: one device per stable key, each the answer of a probe of a configured
  endpoint; and, for a configuration that passed the validation, that it returns at all and how many
  hosts it dials.
\<close>

section \<open>Probes\<close>

lemma probe_all_Inr:
  "probe_all pb es = Inr ds \<longleftrightarrow>
    list_all (\<lambda>(cl, ep). check_client cl = Inr ()) es \<and> ds = List.map_filter (\<lambda>(cl, ep). probe pb cl ep) es"
proof (induction es arbitrary: ds)
  case (Cons e es)
  obtain cl ep where e: "e = (cl, ep)" by fastforce
  have IH: "probe_all pb es = Inr (List.map_filter (\<lambda>(cl, ep). probe pb cl ep) es)"
    if "list_all (\<lambda>(cl, ep). check_client cl = Inr ()) es" using Cons.IH that by blast
  show ?case
  proof (cases "check_client cl = Inr () \<and> list_all (\<lambda>(cl, ep). check_client cl = Inr ()) es")
    case True
    then show ?thesis using IH by (auto simp: e List.map_filter_simps split: option.split)
  next
    case False
    then show ?thesis using Cons.IH by (cases "check_client cl") (auto simp: e rbind_eq_Inr)
  qed
qed (auto simp: List.map_filter_simps)

lemma set_map_filter: "set (List.map_filter f xs) = {y. \<exists>x \<in> set xs. f x = Some y}"
  by (induction xs) (auto simp: List.map_filter_simps split: option.split)

definition answers :: "'c prober \<Rightarrow> (client_config \<times> endpoint) set \<Rightarrow> discovered_device set" where
  "answers pb E = {d. \<exists>(cl, ep) \<in> E. probe pb cl ep = Some d}"

lemma answers_simps: "answers pb {} = {}" "answers pb (E \<union> F) = answers pb E \<union> answers pb F"
  by (auto simp: answers_def)

lemma probe_all_answers: "probe_all pb es = Inr ds \<Longrightarrow> set ds = answers pb (set es) \<and> (\<forall>(cl, ep) \<in> set es. check_client cl = Inr ())"
  by (simp add: probe_all_Inr set_map_filter answers_def list_all_iff case_prod_beta')

lemma probe_endpoint: "probe pb cl ep = Some d \<Longrightarrow> dd_endpoint d = ep"
  by (auto simp: probe_def split: prod.splits sum.splits)

text \<open>Whatever answered has a profile of the catalog.\<close>

lemma probe_profile:
  assumes "probe pb cl ep = Some d"
  shows "\<exists>di. dd_intelligence d = Some di \<and> di_profile di = dd_profile d \<and>
    (\<exists>spec \<in> set (PROFILES @ [GENERIC]). dd_profile d = sp_name spec)"
proof -
  obtain c identity where p: "probe_identity pb (pb_connect pb cl) = (c, Inr identity)"
    using assms by (auto simp: probe_def split: prod.splits sum.splits)
  obtain c' di spec where r: "resolve_device_intelligence (pb_reader pb) c identity (Some ep) = (c', Inr di)"
    "spec \<in> set (PROFILES @ [GENERIC])" "resolved identity spec di"
    using resolve_resolved [of "pb_reader pb" c identity "Some ep"] by blast
  then show ?thesis using assms p by (auto simp: probe_def resolved_def)
qed

text \<open>An endpoint that can be read always gives a device: resolving it does not fail.\<close>

lemma probe_answers:
  assumes "probe_identity pb (pb_connect pb cl) = (c, Inr identity)"
  obtains d where "probe pb cl ep = Some d"
proof -
  obtain c' di spec where r: "resolve_device_intelligence (pb_reader pb) c identity (Some ep) = (c', Inr di)"
    using resolve_resolved [of "pb_reader pb" c identity "Some ep"] by blast
  then show thesis using assms that by (simp add: probe_def)
qed

section \<open>The merge\<close>

lemma merge_invariant:
  fixes m :: "(string \<times> discovered_device) list"
  assumes "distinct (map fst m)" "\<forall>(k, d) \<in> set m. k = dd_key d \<and> d \<in> D" "set ds \<subseteq> D"
  shows "distinct (map fst (fold (\<lambda>d. AList.update (dd_key d) d) ds m)) \<and>
    (\<forall>(k, d) \<in> set (fold (\<lambda>d. AList.update (dd_key d) d) ds m). k = dd_key d \<and> d \<in> D) \<and>
    fst ` set (fold (\<lambda>d. AList.update (dd_key d) d) ds m) = fst ` set m \<union> dd_key ` set ds"
  using assms
proof (induction ds arbitrary: m)
  case (Cons d ds)
  let ?m = "AList.update (dd_key d) d m"
  have d: "distinct (map fst ?m)" using Cons.prems(1) by (rule distinct_update)
  have "k = dd_key e \<and> e \<in> D" if "(k, e) \<in> set ?m" for k e
  proof -
    have "map_of ?m k = Some e" using d that by simp
    then show ?thesis using Cons.prems(2,3) by (auto simp: update_conv' split: if_splits dest: map_of_SomeD)
  qed
  then have "\<forall>(k, d) \<in> set ?m. k = dd_key d \<and> d \<in> D" by blast
  moreover have "fst ` set ?m = insert (dd_key d) (fst ` set m)"
    using arg_cong [OF update_keys [of "dd_key d" d m], of set] by (auto split: if_splits)
  ultimately show ?case using Cons.IH [OF d] Cons.prems(3) by simp
qed simp

lemma merge_devices_facts:
  "distinct (map dd_key (merge_devices ds))" "set (merge_devices ds) \<subseteq> set ds" "dd_key ` set (merge_devices ds) = dd_key ` set ds"
proof -
  let ?m = "fold (\<lambda>d. AList.update (dd_key d) d) ds []"
  note m = merge_invariant [of "[]" "set ds" ds, simplified]
  have k: "map dd_key (merge_devices ds) = map fst ?m" using m by (auto simp: merge_devices_def)
  then show "distinct (map dd_key (merge_devices ds))" using m by simp
  show "set (merge_devices ds) \<subseteq> set ds" using m by (auto simp: merge_devices_def)
  show "dd_key ` set (merge_devices ds) = dd_key ` set ds" using m arg_cong [OF k, of set] by simp
qed

section \<open>Hosts\<close>

lemma yield_hosts_facts:
  "distinct (yield_hosts Y hs)" "length (yield_hosts Y hs) \<le> length hs"
proof -
  have s: "x \<in> set (yield_hosts Y hs) \<Longrightarrow> x \<notin> Y" for x Y and hs :: "string list"
    by (induction Y hs rule: yield_hosts.induct) (auto split: if_splits)
  have n: "h \<notin> set (yield_hosts (insert h Y) hs)" for h Y and hs :: "string list" using s [of h "insert h Y" hs] by blast
  show "distinct (yield_hosts Y hs)" by (induction Y hs rule: yield_hosts.induct) (simp_all add: n)
  show "length (yield_hosts Y hs) \<le> length hs" by (induction Y hs rule: yield_hosts.induct) auto
qed

lemma length_network_hosts: "length (network_hosts net) \<le> num_addresses net"
  by (simp add: network_hosts_def Let_def)

lemma subnet_hosts_validated:
  "validate_subnets lib ss = Inr () \<Longrightarrow> \<exists>hs. subnet_hosts lib ss = Inr hs \<and> length hs \<le> 4096 * length ss"
proof (induction ss)
  case (Cons s ss)
  then obtain net hs where "il_network lib s = Inr net" "num_addresses net \<le> 4096" "subnet_hosts lib ss = Inr hs"
    "length hs \<le> 4096 * length ss"
    by (auto simp: rbind_eq_Inr split: if_splits)
  then show ?case using length_network_hosts [of net] by simp
qed simp

lemma set_yield_hosts: "set (yield_hosts Y hs) = set hs - Y"
  by (induction Y hs rule: yield_hosts.induct) auto

lemma tcp_hosts_validated:
  assumes "validate_subnets lib (tp_subnets tcp) = Inr ()"
  shows "\<exists>shs hs. subnet_hosts lib (tp_subnets tcp) = Inr shs \<and> tcp_hosts lib tcp = Inr hs \<and> distinct hs \<and>
    set hs = set (tp_hosts tcp) \<union> set shs \<and> length hs \<le> length (tp_hosts tcp) + 4096 * length (tp_subnets tcp)"
proof -
  obtain shs where shs: "subnet_hosts lib (tp_subnets tcp) = Inr shs" "length shs \<le> 4096 * length (tp_subnets tcp)"
    using subnet_hosts_validated [OF assms] by blast
  then show ?thesis
    using yield_hosts_facts [of "{}" "tp_hosts tcp @ shs"]
    by (intro exI [of _ shs] exI [of _ "yield_hosts {} (tp_hosts tcp @ shs)"]) (simp add: tcp_hosts_def set_yield_hosts)
qed

section \<open>A discovery\<close>

text \<open>The endpoints a discovery probes.\<close>

definition probed :: "ip_library \<Rightarrow> app_config \<Rightarrow> serial_port_info list \<Rightarrow> (client_config \<times> endpoint) set" where
  "probed lib cfg ports =
    (if se_enabled (ac_serial cfg) then set (serial_endpoints cfg ports) else {}) \<union>
    (if tp_enabled (ac_tcp cfg) then (case tcp_endpoints lib cfg of Inl e \<Rightarrow> {} | Inr es \<Rightarrow> set es) else {})"

lemma discover_Inr:
  assumes "discover lib pb cfg ports = Inr ds"
  obtains all where "ds = merge_devices all" "set all = answers pb (probed lib cfg ports)"
    "\<forall>(cl, ep) \<in> probed lib cfg ports. check_client cl = Inr ()"
proof -
  obtain s t where st: "discover_serial pb cfg ports = Inr s" "discover_tcp lib pb cfg = Inr t" "ds = merge_devices (s @ t)"
    using assms by (auto simp: discover_def rbind_eq_Inr)
  let ?S = "if se_enabled (ac_serial cfg) then set (serial_endpoints cfg ports) else {}"
  let ?T = "if tp_enabled (ac_tcp cfg) then (case tcp_endpoints lib cfg of Inl e \<Rightarrow> {} | Inr es \<Rightarrow> set es) else {}"
  have "set s = answers pb ?S \<and> (\<forall>(cl, ep) \<in> ?S. check_client cl = Inr ())"
    using st(1) probe_all_answers by (cases "se_enabled (ac_serial cfg)") (simp_all add: discover_serial_def answers_simps)
  moreover have "set t = answers pb ?T \<and> (\<forall>(cl, ep) \<in> ?T. check_client cl = Inr ())"
  proof (cases "tp_enabled (ac_tcp cfg)")
    case True
    then obtain es where es: "tcp_endpoints lib cfg = Inr es" "probe_all pb es = Inr t"
      using st(2) by (auto simp: discover_tcp_def rbind_eq_Inr)
    then show ?thesis using probe_all_answers [OF es(2)] True by simp
  qed (use st(2) in \<open>simp add: discover_tcp_def answers_simps\<close>)
  ultimately have "set (s @ t) = answers pb (probed lib cfg ports)" "\<forall>(cl, ep) \<in> probed lib cfg ports. check_client cl = Inr ()"
    unfolding probed_def answers_simps set_append ball_Un by simp_all
  with st(3) show thesis by (rule that)
qed

text \<open>C26: A discovery returns each stable key once: the keys it returns are exactly those of the endpoints
  that answered their probe, every device it returns is the answer of a probe of a configured endpoint,
  with a client whose settings are legal, and carries a profile of the catalog, the one its
  intelligence names.\<close>

theorem discover_sound:
  assumes "discover lib pb cfg ports = Inr ds"
  shows "distinct (map dd_key ds) \<and>
    dd_key ` set ds = dd_key ` answers pb (probed lib cfg ports) \<and>
    (\<forall>d \<in> set ds. \<exists>cl di spec. (cl, dd_endpoint d) \<in> probed lib cfg ports \<and> probe pb cl (dd_endpoint d) = Some d \<and>
      check_client cl = Inr () \<and> dd_intelligence d = Some di \<and> di_profile di = dd_profile d \<and>
      spec \<in> set (PROFILES @ [GENERIC]) \<and> dd_profile d = sp_name spec)"
proof -
  obtain all where all: "ds = merge_devices all" "set all = answers pb (probed lib cfg ports)"
    "\<forall>(cl, ep) \<in> probed lib cfg ports. check_client cl = Inr ()"
    by (rule discover_Inr [OF assms])
  note m = merge_devices_facts [of all, folded all(1)]
  have "\<exists>cl di spec. (cl, dd_endpoint d) \<in> probed lib cfg ports \<and> probe pb cl (dd_endpoint d) = Some d \<and>
      check_client cl = Inr () \<and> dd_intelligence d = Some di \<and> di_profile di = dd_profile d \<and>
      spec \<in> set (PROFILES @ [GENERIC]) \<and> dd_profile d = sp_name spec" if d: "d \<in> set ds" for d
  proof -
    obtain cl ep where p: "(cl, ep) \<in> probed lib cfg ports" "probe pb cl ep = Some d"
      using subsetD [OF m(2) d] unfolding all(2) answers_def by blast
    obtain di spec where q: "dd_intelligence d = Some di" "di_profile di = dd_profile d" "spec \<in> set (PROFILES @ [GENERIC])"
      "dd_profile d = sp_name spec"
      using probe_profile [OF p(2)] by (elim exE conjE bexE)
    have "check_client cl = Inr ()" using bspec [OF all(3) p(1)] by simp
    then show ?thesis using p q unfolding probe_endpoint [OF p(2)] by (intro exI conjI)
  qed
  then show ?thesis unfolding m(3) all(2) using m(1) by blast
qed

text \<open>C27: For a configuration that passed the validation, the TCP side of a discovery dials exactly the
  pairs of a host and a configured unit id, host by host: the hosts are the configured ones and those
  of the subnets, each once, at most 4096 for each subnet, so each host is dialled once for each entry
  of the list of unit ids.  The discovery then returns unless a serial port would be probed with stop
  bits other than 1 and 2, which the validation does not exclude; and every device it returns has a
  legal unit id.\<close>

theorem validated_discovery:
  assumes "validate lib cfg = Inr cfg'"
  shows "\<exists>shs hs es. subnet_hosts lib (tp_subnets (ac_tcp cfg)) = Inr shs \<and> tcp_hosts lib (ac_tcp cfg') = Inr hs \<and>
    distinct hs \<and> set hs = set (tp_hosts (ac_tcp cfg)) \<union> set shs \<and>
    length hs \<le> length (tp_hosts (ac_tcp cfg)) + 4096 * length (tp_subnets (ac_tcp cfg)) \<and>
    tcp_endpoints lib cfg' = Inr es \<and>
    map (\<lambda>(cl, ep). (cl_target cl, cl_unit_id cl)) es = List.product hs (wa_unit_ids (ac_watch cfg)) \<and>
    ((\<exists>ds. discover lib pb cfg' ports = Inr ds) \<longleftrightarrow>
       \<not> se_enabled (ac_serial cfg) \<or> serial_endpoints cfg' ports = [] \<or> se_stop_bits (ac_serial cfg) \<in> {1, 2}) \<and>
    (\<forall>ds. discover lib pb cfg' ports = Inr ds \<longrightarrow>
       (\<forall>d \<in> set ds. 1 \<le> ep_unit_id (dd_endpoint d) \<and> ep_unit_id (dd_endpoint d) \<le> 247))"
proof -
  have v: "ac_tcp cfg' = ac_tcp cfg" "ac_serial cfg' = ac_serial cfg" "wa_unit_ids (ac_watch cfg') = wa_unit_ids (ac_watch cfg)"
    "list_all (\<lambda>unit. 1 \<le> unit \<and> unit \<le> 247) (wa_unit_ids (ac_watch cfg))" "validate_subnets lib (tp_subnets (ac_tcp cfg)) = Inr ()"
    using assms by (auto simp: validate_Inr watch_checks_def)
  let ?units = "wa_unit_ids (ac_watch cfg)"
  obtain shs hs where hs: "subnet_hosts lib (tp_subnets (ac_tcp cfg)) = Inr shs" "tcp_hosts lib (ac_tcp cfg) = Inr hs"
      "distinct hs" "set hs = set (tp_hosts (ac_tcp cfg)) \<union> set shs"
      "length hs \<le> length (tp_hosts (ac_tcp cfg)) + 4096 * length (tp_subnets (ac_tcp cfg))"
    using tcp_hosts_validated [OF v(5)] by blast
  define es where "es = concat (map (\<lambda>host. map (tcp_endpoint cfg' host) ?units) hs)"
  have es: "tcp_endpoints lib cfg' = Inr es" using hs(2) by (simp add: tcp_endpoints_def v(1,3) es_def)
  have prod: "map (\<lambda>(cl, ep). (cl_target cl, cl_unit_id cl)) es = List.product hs ?units"
    unfolding es_def by (induction hs) (simp_all add: tcp_endpoint_def)
  have tl: "1 \<le> ep_unit_id ep \<and> ep_unit_id ep \<le> 247 \<and> check_client cl = Inr ()" if "(cl, ep) \<in> set es" for cl ep
    using that v(4) by (auto simp: es_def check_client_def tcp_endpoint_def list_all_iff)
  have sl: "1 \<le> ep_unit_id ep \<and> ep_unit_id ep \<le> 247 \<and>
      (check_client cl = Inr () \<longleftrightarrow> se_stop_bits (ac_serial cfg) \<in> {1, 2})"
    if "(cl, ep) \<in> set (serial_endpoints cfg' ports)" for cl ep
    using that v(4) by (auto simp: serial_endpoints_def Let_def check_client_def serial_endpoint_def list_all_iff v(2,3))
  have t: "\<exists>t. discover_tcp lib pb cfg' = Inr t"
    using tl es by (cases "tp_enabled (ac_tcp cfg')") (auto simp: discover_tcp_def probe_all_Inr list_all_iff)
  have s: "(\<exists>u. discover_serial pb cfg' ports = Inr u) \<longleftrightarrow>
      \<not> se_enabled (ac_serial cfg) \<or> serial_endpoints cfg' ports = [] \<or> se_stop_bits (ac_serial cfg) \<in> {1, 2}"
  proof (cases "serial_endpoints cfg' ports")
    case Nil
    then show ?thesis by (simp add: discover_serial_def v(2))
  next
    case (Cons e rest)
    then have "list_all (\<lambda>(cl, ep). check_client cl = Inr ()) (serial_endpoints cfg' ports)
        \<longleftrightarrow> se_stop_bits (ac_serial cfg) \<in> {1, 2}"
      using sl by (fastforce simp: list_all_iff)
    then show ?thesis using Cons by (simp add: discover_serial_def v(2) probe_all_Inr)
  qed
  have d: "(\<exists>ds. discover lib pb cfg' ports = Inr ds) \<longleftrightarrow> (\<exists>u. discover_serial pb cfg' ports = Inr u)"
    using t by (auto simp: discover_def rbind_eq_Inr)
  have "1 \<le> ep_unit_id (dd_endpoint d) \<and> ep_unit_id (dd_endpoint d) \<le> 247"
    if ds: "discover lib pb cfg' ports = Inr ds" and dd: "d \<in> set ds" for ds d
  proof -
    obtain all where all: "ds = merge_devices all" "set all = answers pb (probed lib cfg' ports)"
      by (rule discover_Inr [OF ds])
    then obtain cl where "(cl, dd_endpoint d) \<in> probed lib cfg' ports"
      using dd merge_devices_facts(2) [of all] probe_endpoint unfolding answers_def by fastforce
    then show ?thesis using sl tl es unfolding probed_def by (auto split: if_splits)
  qed
  then show ?thesis
    using hs es prod d s unfolding v(1) by (intro exI [of _ shs] exI [of _ hs] exI [of _ es]) blast
qed

section \<open>A concrete discovery\<close>

definition no_networks :: ip_library where
  "no_networks = \<lparr>il_network = (\<lambda>s. Inl (ValueError s)), il_text = (\<lambda>bits a. [])\<rparr>"

text \<open>Devices that identify themselves and answer no read.\<close>

definition lone_prober :: "unit prober" where
  "lone_prober = \<lparr>pb_connect = (\<lambda>cl. ()), pb_reader = \<lparr>rd_holding = (\<lambda>c a n. (c, Inl TimeoutError)),
     rd_input = (\<lambda>c a n. (c, Inl TimeoutError))\<rparr>, pb_identify = (\<lambda>c. (c, Inr empty_identification)), pb_latency = (\<lambda>ep. Fin 1)\<rparr>"

definition lone_config :: app_config where
  "lone_config = AppConfig\<lparr>ac_serial := SerialConfig\<lparr>se_enabled := False\<rparr>, ac_tcp := TcpConfig\<lparr>tp_hosts := [''a'']\<rparr>\<rparr>"

lemma lone_probed:
  "probed no_networks lone_config [] = {tcp_endpoint lone_config ''a'' 1}"
  "discover_serial lone_prober lone_config [] = Inr []"
  by (simp_all add: probed_def lone_config_def tcp_endpoints_def tcp_hosts_def TcpConfig_def AppConfig_def WatchConfig_def
      SerialConfig_def discover_serial_def)

lemma lone_discovery:
  obtains d where "discover no_networks lone_prober lone_config [] = Inr [d]" "dd_endpoint d = snd (tcp_endpoint lone_config ''a'' 1)"
proof -
  have i: "probe_identity lone_prober (pb_connect lone_prober (fst (tcp_endpoint lone_config ''a'' 1))) = ((), Inr empty_identification)"
    by (simp add: probe_identity_def lone_prober_def)
  obtain d where d: "probe lone_prober (fst (tcp_endpoint lone_config ''a'' 1)) (snd (tcp_endpoint lone_config ''a'' 1)) = Some d"
    by (rule probe_answers [OF i])
  have "tcp_endpoints no_networks lone_config = Inr [tcp_endpoint lone_config ''a'' 1]"
    by (simp add: lone_config_def tcp_endpoints_def tcp_hosts_def TcpConfig_def AppConfig_def WatchConfig_def)
  moreover have "check_client (fst (tcp_endpoint lone_config ''a'' 1)) = Inr ()" by (simp add: check_client_def tcp_endpoint_def)
  moreover have "tp_enabled (ac_tcp lone_config)" by (simp add: lone_config_def TcpConfig_def)
  ultimately have "discover_tcp no_networks lone_prober lone_config = Inr [d]"
    using d by (cases "tcp_endpoint lone_config ''a'' 1") (simp add: discover_tcp_def)
  then have "discover no_networks lone_prober lone_config [] = Inr [d]"
    by (simp add: discover_def lone_probed(2) merge_devices_def)
  then show thesis using probe_endpoint [OF d] that by blast
qed

theorem discover_sound_witness:
  "\<exists>d di. discover no_networks lone_prober lone_config [] = Inr [d] \<and> dd_intelligence d = Some di \<and> di_profile di = dd_profile d"
proof -
  obtain d where d: "discover no_networks lone_prober lone_config [] = Inr [d]" by (rule lone_discovery)
  from discover_sound [OF d] have "\<exists>di. dd_intelligence d = Some di \<and> di_profile di = dd_profile d"
    unfolding list.set by blast
  with d show ?thesis by blast
qed

theorem validated_discovery_witness:
  "\<exists>ds. discover no_networks lone_prober AppConfig [] = Inr ds"
proof -
  have "validate no_networks AppConfig = Inr AppConfig" using default_config [of no_networks] by (simp add: load_config_def)
  from validated_discovery [OF this, of lone_prober "[]"] show ?thesis
    by (auto simp: serial_endpoints_def)
qed

end
