(* ===== verification/Startup.thy ===== *)
theory Startup
  imports Discovery_Facts Watcher_Facts Polling_Facts
begin

text \<open>
  \<open>Watcher.__init__\<close> on a configuration that \<open>load_config\<close> returned, and one refresh of the watcher from
  a discovery: the contracts the components rely on (the retry policy, the calibration, the unit ids,
  distinct keys) follow from the validation of the configuration and the merge of the discovery.
\<close>

section \<open>A watcher from a configuration\<close>

definition policy_of :: "app_config \<Rightarrow> retry_policy" where
  "policy_of cfg = \<lparr>rp_threshold = wa_failure_threshold (ac_watch cfg),
     rp_initial_backoff = wa_retry_backoff_initial_seconds (ac_watch cfg),
     rp_max_backoff = wa_retry_backoff_max_seconds (ac_watch cfg)\<rparr>"

definition thresholds_of :: "poll_benchmark_config \<Rightarrow> benchmark_thresholds" where
  "thresholds_of be = \<lparr>bt_min_success_rate = be_min_success_rate be, bt_max_p95_interval_ratio = be_max_p95_interval_ratio be,
     bt_max_deadline_miss_rate = be_max_deadline_miss_rate be, bt_max_request_failure_rate = be_max_request_failure_rate be,
     bt_max_bus_utilization = be_max_bus_utilization_percent be\<rparr>"

text \<open>The numeric interval is only read when the configuration does not say ''auto''.\<close>

definition watch_config_of :: "app_config \<Rightarrow> watch_config" where
  "watch_config_of cfg = \<lparr>wc_policy = policy_of cfg,
     wc_poll_interval = (case wa_poll_interval_seconds (ac_watch cfg) of VFloat x \<Rightarrow> x | _ \<Rightarrow> NaN),
     wc_discovery_interval = wa_discovery_interval_seconds (ac_watch cfg),
     wc_baudrate = se_baudrate (ac_serial cfg), wc_stop_bits = se_stop_bits (ac_serial cfg),
     wc_backfill_on_startup = bf_on_startup (ac_backfill cfg), wc_backfill_on_reconnect = bf_on_reconnect (ac_backfill cfg)\<rparr>"

definition auto_poll_of :: "app_config \<Rightarrow> auto_poll option res" where
  "auto_poll_of cfg = (let be = ac_poll_benchmark cfg in
     if wa_poll_interval_seconds (ac_watch cfg) = VStr ''auto'' then
       rbind (auto_poll_new (be_intervals_seconds be) (be_samples_per_interval be) (thresholds_of be)
         (be_auto_fallback_interval_seconds be)) (\<lambda>ap. Inr (Some ap))
     else Inr None)"

definition watcher_new :: "app_config \<Rightarrow> 'c watcher res" where
  "watcher_new cfg =
    rbind (auto_poll_of cfg) (\<lambda>auto.
    rbind (limiter_new (db_telemetry_write_interval_seconds (ac_database cfg))) (\<lambda>limiter.
      Inr \<lparr>w_devices = Map.empty, w_device_ids = Map.empty, w_controller_ids = Map.empty, w_controller_keys = Map.empty,
        w_canonical_ids = Map.empty, w_clients = Map.empty, w_profiles = Map.empty, w_intelligence = Map.empty,
        w_lifecycles = Map.empty, w_traffic = Map.empty, w_present_keys = [], w_present_controllers = [],
        w_auto = auto, w_signature = None, w_limiter = limiter, w_history_attempted = {}, w_history_running = {},
        w_events = []\<rparr>))"

section \<open>Validation\<close>

lemma fold_fmax: "m \<noteq> NaN \<Longrightarrow> \<forall>x \<in> set xs. x \<noteq> NaN \<Longrightarrow> fold (\<lambda>y m. fmax m y) xs m = Max (insert m (set xs))"
proof (induction xs arbitrary: m)
  case (Cons x xs)
  have "fmax m x = max m x" using Cons.prems by (auto simp: fmax_def flt_iff_less max_def)
  moreover have "max m x \<noteq> NaN" using Cons.prems by (auto simp: max_def)
  ultimately show ?case using Cons.IH [of "max m x"] Cons.prems
    by (cases "xs = []") (simp_all add: insert_commute max.assoc)
qed simp

lemma float_maximum_Max: "xs \<noteq> [] \<Longrightarrow> \<forall>x \<in> set xs. x \<noteq> NaN \<Longrightarrow> float_maximum xs = Max (set xs)"
  by (cases xs) (simp_all add: fold_fmax)

section \<open>Properties\<close>

text \<open>The floats of the configuration are finite doubles: no NaN and no infinity, which TOML can write.\<close>

definition regular :: "pyfloat \<Rightarrow> bool" where
  "regular x \<longleftrightarrow> fis_finite x \<and> is_double x"

definition regular_config :: "app_config \<Rightarrow> bool" where
  "regular_config cfg \<longleftrightarrow> list_all regular
     ([db_telemetry_write_interval_seconds (ac_database cfg), wa_discovery_interval_seconds (ac_watch cfg),
       wa_retry_backoff_initial_seconds (ac_watch cfg), wa_retry_backoff_max_seconds (ac_watch cfg),
       be_minimum_interval_seconds (ac_poll_benchmark cfg), be_auto_fallback_interval_seconds (ac_poll_benchmark cfg)] @
      be_intervals_seconds (ac_poll_benchmark cfg) @
      (case wa_poll_interval_seconds (ac_watch cfg) of VFloat x \<Rightarrow> [x] | _ \<Rightarrow> []))"

lemma regular_not_NaN: "regular x \<Longrightarrow> x \<noteq> NaN"
  by (auto simp: regular_def fis_finite_def)

lemma not_fle: "x \<noteq> NaN \<Longrightarrow> y \<noteq> NaN \<Longrightarrow> \<not> fle x y \<longleftrightarrow> flt y x"
  by (simp add: fle_iff_le flt_iff_less not_le)

lemma not_flt: "x \<noteq> NaN \<Longrightarrow> y \<noteq> NaN \<Longrightarrow> \<not> flt x y \<longleftrightarrow> fle y x"
  by (simp add: fle_iff_le flt_iff_less not_less)

lemma benchmark_starts:
  assumes "list_all fst (benchmark_checks be)" "list_all regular
    ([be_minimum_interval_seconds be, be_auto_fallback_interval_seconds be] @ be_intervals_seconds be)"
  obtains ap where "auto_poll_new (be_intervals_seconds be) (be_samples_per_interval be) th
      (be_auto_fallback_interval_seconds be) = Inr ap" "auto_ok ap"
proof -
  let ?is = "be_intervals_seconds be" and ?fb = "be_auto_fallback_interval_seconds be"
  have nan: "?fb \<noteq> NaN" "be_minimum_interval_seconds be \<noteq> NaN" "\<forall>x \<in> set ?is. x \<noteq> NaN"
    using assms(2) regular_not_NaN by (auto simp: list_all_iff)
  have ne: "?is \<noteq> []" using assms(1) by (simp add: benchmark_checks_def)
  have pos: "\<forall>x \<in> set ?is. flt (Fin 0) x"
  proof
    fix x assume x: "x \<in> set ?is"
    have "flt (Fin 0) (be_minimum_interval_seconds be)" "\<not> flt x (be_minimum_interval_seconds be)"
      using assms(1) x nan(2) by (auto simp: benchmark_checks_def not_fle list_ex_iff)
    then show "flt (Fin 0) x" using nan(2,3) x by (auto simp: flt_iff_less)
  qed
  have "\<not> flt ?fb (Max (set ?is))" "\<not> be_samples_per_interval be < 3"
    using assms(1) float_maximum_Max [OF ne nan(3)] by (simp_all add: benchmark_checks_def)
  with ne obtain ap where ap: "auto_poll_new ?is (be_samples_per_interval be) th ?fb = Inr ap"
    by (simp add: auto_poll_new_def)
  with auto_poll_new_ok [OF ap pos nan(1)] that show ?thesis by blast
qed

lemma limiter_starts:
  assumes "\<not> flt x (Fin 1)" "x \<noteq> NaN"
  shows "\<exists>pl. limiter_new x = Inr pl \<and> fle (Fin 1) (pl_interval pl)"
  using assms by (cases x) (auto simp: limiter_new_def)

lemma auto_ok_interval: "auto_ok ap \<Longrightarrow> flt (Fin 0) (current_interval ap)"
  by (auto simp: auto_ok_def current_interval_def split: option.split)

lemma normalize_not_NaN:
  assumes "normalize_poll_interval v = Inr (VFloat x)" "list_all regular (case v of VFloat y \<Rightarrow> [y] | _ \<Rightarrow> [])"
  shows "x \<noteq> NaN"
  using assms by (cases v) (auto simp: normalize_poll_interval_def Let_def rbind_eq_Inr float_of_int_def regular_not_NaN
      split: if_splits pyfloat.splits)

text \<open>C25: Every configuration that passes the validation, with floats that are finite, starts a watcher: the
  calibration and the write limiter accept it, the retry policy is one the backoff is bounded for, the
  poll interval is positive, writes are at least a second apart, every unit id is a legal one, and
  validating the result again changes nothing.\<close>

theorem validated_config_starts:
  assumes "validate lib cfg = Inr cfg'" "regular_config cfg"
  shows "validate lib cfg' = Inr cfg' \<and> policy_ok (wc_policy (watch_config_of cfg')) \<and>
    list_all (\<lambda>unit. 1 \<le> unit \<and> unit \<le> 247) (wa_unit_ids (ac_watch cfg')) \<and>
    (\<exists>w. watcher_new cfg' = Inr w \<and> flt (Fin 0) (poll_interval (watch_config_of cfg') w) \<and>
      fle (Fin 1) (pl_interval (w_limiter w)) \<and> list_all auto_ok (case w_auto w of None \<Rightarrow> [] | Some ap \<Rightarrow> [ap]))"
proof (intro conjI)
  note v = validate_Inr [THEN iffD1, OF assms(1)]
  let ?be = "ac_poll_benchmark cfg" and ?wa = "ac_watch cfg"
  obtain interval where i: "normalize_poll_interval (wa_poll_interval_seconds ?wa) = Inr interval"
    and c: "cfg' = cfg\<lparr>ac_watch := ?wa\<lparr>wa_poll_interval_seconds := interval\<rparr>\<rparr>" using v by blast
  have n: "normalize_poll_interval interval = Inr interval"
    using normalize_Inr [OF i] by (auto simp: normalize_poll_interval_def Let_def str_lower_def str_strip_def rstrip_by_def is_space_def
        to_lower_def is_upper_def code_of_def)
  show "validate lib cfg' = Inr cfg'"
    using v n unfolding validate_Inr c by (auto simp: watch_checks_def)
  show "policy_ok (wc_policy (watch_config_of cfg'))" "list_all (\<lambda>unit. 1 \<le> unit \<and> unit \<le> 247) (wa_unit_ids (ac_watch cfg'))"
    using v assms(2) by (auto simp: policy_ok_def watch_config_of_def policy_of_def c watch_checks_def regular_config_def
        regular_def not_fle not_flt regular_not_NaN)
  obtain ap where ap: "auto_poll_new (be_intervals_seconds ?be) (be_samples_per_interval ?be) (thresholds_of ?be)
      (be_auto_fallback_interval_seconds ?be) = Inr ap" "auto_ok ap"
    by (rule benchmark_starts [of ?be]) (use v assms(2) in \<open>auto simp: regular_config_def\<close>)
  obtain pl where pl: "limiter_new (db_telemetry_write_interval_seconds (ac_database cfg)) = Inr pl" "fle (Fin 1) (pl_interval pl)"
    using limiter_starts v assms(2) regular_not_NaN by (auto simp: regular_config_def)
  show "\<exists>w. watcher_new cfg' = Inr w \<and> flt (Fin 0) (poll_interval (watch_config_of cfg') w) \<and>
      fle (Fin 1) (pl_interval (w_limiter w)) \<and> list_all auto_ok (case w_auto w of None \<Rightarrow> [] | Some ap \<Rightarrow> [ap])"
  proof (cases "interval = VStr ''auto''")
    case True
    note auto_ok_interval [OF ap(2)]
    then show ?thesis using True ap pl by (simp add: watcher_new_def auto_poll_of_def c Let_def poll_interval_def)
  next
    case False
    then obtain x where x: "interval = VFloat x" "\<not> fle x (Fin 0)" using normalize_Inr [OF i] by blast
    have "x \<noteq> NaN" by (rule normalize_not_NaN [OF i [unfolded x(1)]]) (use assms(2) in \<open>simp add: regular_config_def\<close>)
    then have "flt (Fin 0) x" using x(2) by (simp add: not_fle)
    then show ?thesis using pl x(1)
      by (simp add: watcher_new_def auto_poll_of_def c Let_def poll_interval_def watch_config_of_def)
  qed
qed

theorem validated_config_starts_witness:
  "\<exists>w :: unit watcher. watcher_new AppConfig = Inr w \<and> fle (Fin 1) (pl_interval (w_limiter w))"
proof -
  have v: "validate no_networks AppConfig = Inr AppConfig" using default_config [of no_networks] by (simp add: load_config_def)
  have n: "regular (Fin 1)" "regular (Fin 2)" "regular (Fin 5)" "regular (Fin 30)" "regular (Fin 60)"
    using fl_int [of 1] fl_int [of 2] fl_int [of 5] fl_int [of 30] fl_int [of 60] by (simp_all add: regular_def fis_finite_def is_double_Fin)
  have f: "regular (fl x)" if b: "0 \<le> x" "x \<le> 1" for x
  proof -
    obtain r where "fl x = Fin r" by (rule fl_between [OF b])
    then show ?thesis using is_double_fl [of x] by (simp add: regular_def fis_finite_def)
  qed
  have "regular_config AppConfig"
    unfolding regular_config_def AppConfig_def app_config.select_convs DatabaseConfig_def WatchConfig_def PollBenchmarkConfig_def
      database_config.select_convs watch_settings.select_convs poll_benchmark_config.select_convs pyval.case append.simps
    using n f by simp
  from validated_config_starts [OF v this] show ?thesis by blast
qed

section \<open>A discovery and the refresh that follows it\<close>

text \<open>What the controller inventory answers for each device: a controller and a device identifier.\<close>

definition resolved_devices ::
  "(discovered_device \<Rightarrow> string) \<Rightarrow> (discovered_device \<Rightarrow> string) \<Rightarrow> discovered_device list \<Rightarrow> (string \<times> candidate) list" where
  "resolved_devices controller device ds = map (\<lambda>d. (controller d, device d, dd_key d, d)) ds"

text \<open>C28: From a discovery to the polls of the same cycle: whatever the inventory makes of the devices, every
  controller it names is bound to one of its endpoints and polled at once, whatever its retry delay was,
  with its failure count carried over, unless a controller appears under the key another one had.\<close>

theorem discovery_cycle_polls_all:
  assumes "discover lib pb cfg ports = Inr ds" "fle (Fin 0) now"
    "no_takeover (w_controller_keys w) (select_controller_endpoints (w_controller_keys w) (resolved_devices controller device ds))"
  shows "(let selected = select_controller_endpoints (w_controller_keys w) (resolved_devices controller device ds);
      w' = refresh_devices ts (resolved_devices controller device ds) w in
    due_keys now w' = map (\<lambda>(cid, did, key, d). (key, cid, d)) selected \<and>
    distinct (map fst selected) \<and> set (map fst selected) = controller ` set ds \<and>
    (\<forall>(cid, did, key, d) \<in> set selected. d \<in> set ds \<and> cid = controller d \<and> key = dd_key d \<and>
       lc_consecutive_failures (lifecycle_at key w') =
         lc_consecutive_failures (lifecycle_at (case w_controller_keys w cid of None \<Rightarrow> key | Some k \<Rightarrow> k) w)))"
proof -
  let ?r = "resolved_devices controller device ds"
  obtain all where "ds = merge_devices all" by (rule discover_Inr [OF assms(1)])
  then have k: "distinct (map cand_key ?r)" using merge_devices_facts(1) [of all] by (simp add: resolved_devices_def comp_def)
  have m: "d \<in> set ds \<and> cid = controller d \<and> key = dd_key d"
    if "(cid, did, key, d) \<in> set (select_controller_endpoints (w_controller_keys w) ?r)" for cid did key d
    using select_mem [OF that] by (auto simp: resolved_devices_def)
  have c: "set (map fst ?r) = controller ` set ds" by (auto simp: resolved_devices_def)
  show ?thesis using refresh_due [OF k assms(3,2), of ts] m unfolding Let_def c by blast
qed

theorem discovery_cycle_polls_all_witness:
  "\<exists>d. discover no_networks lone_prober lone_config [] = Inr [d] \<and>
    due_keys (Fin 5) (refresh_devices ''t'' (resolved_devices (\<lambda>d. ''c3'') (\<lambda>d. ''d3'') [d]) two_controllers) = [(dd_key d, ''c3'', d)]"
proof -
  obtain d where d: "discover no_networks lone_prober lone_config [] = Inr [d]" by (rule lone_discovery)
  let ?r = "resolved_devices (\<lambda>d. ''c3'') (\<lambda>d. ''d3'') [d]"
  have s: "select_controller_endpoints (w_controller_keys two_controllers) ?r = [(''c3'', ''d3'', dd_key d, d)]"
    by (simp add: select_controller_endpoints_def choose_endpoint_def resolved_devices_def two_controllers_def)
  have "no_takeover (w_controller_keys two_controllers) (select_controller_endpoints (w_controller_keys two_controllers) ?r)"
    unfolding s by (simp add: no_takeover_def)
  from discovery_cycle_polls_all [OF d _ this, where now = "Fin 5" and ts = "''t''"] d show ?thesis
    unfolding s Let_def by simp
qed

text \<open>TOML can write NaN, and no check refuses it: with a NaN as the largest backoff a device that failed once is
  not polled again before the next discovery finds it.\<close>

lemma nan_min: "fmin NaN x = NaN"
  by (cases x) (simp_all add: fmin_def)

lemma nan_sum: "fadd x NaN = NaN"
  by (cases x) simp_all

lemma nan_backoff_accepted:
  "validate no_networks (AppConfig\<lparr>ac_watch := WatchConfig\<lparr>wa_retry_backoff_max_seconds := NaN\<rparr>\<rparr>) =
     Inr (AppConfig\<lparr>ac_watch := WatchConfig\<lparr>wa_retry_backoff_max_seconds := NaN\<rparr>\<rparr>)"
  "rp_max_backoff rp = NaN \<Longrightarrow> mark_failure rp ts t l = (l', Inr u) \<Longrightarrow> \<not> can_poll now l'"
proof -
  have "validate no_networks AppConfig = Inr AppConfig" using default_config [of no_networks] by (simp add: load_config_def)
  then show "validate no_networks (AppConfig\<lparr>ac_watch := WatchConfig\<lparr>wa_retry_backoff_max_seconds := NaN\<rparr>\<rparr>) =
      Inr (AppConfig\<lparr>ac_watch := WatchConfig\<lparr>wa_retry_backoff_max_seconds := NaN\<rparr>\<rparr>)"
    unfolding validate_Inr by (simp add: AppConfig_def WatchConfig_def watch_checks_def normalize_poll_interval_def Let_def)
  assume "rp_max_backoff rp = NaN" "mark_failure rp ts t l = (l', Inr u)"
  then show "\<not> can_poll now l'"
    using nan_min nan_sum by (auto simp: mark_failure_def backoff_def can_poll_def Let_def rbind_def split: sum.splits)
qed

end
