(* ===== verification/Sql_Table.thy ===== *)
theory Sql_Table
  imports Main "HOL-Library.Multiset" "HOL-Library.Char_ord" "HOL-Library.List_Lexorder" "HOL-Library.Product_Lexorder"
begin

text \<open>
  What the repositories use of SQLite.  A table is the list of its rows in the order they were inserted; a
  unique column or primary key is a function of the row.  An \<open>INSERT\<close> or \<open>UPDATE\<close> that breaks a constraint
  raises \<open>IntegrityError\<close>; \<open>INSERT ... ON CONFLICT(key) DO UPDATE\<close> is \<open>upsert\<close>, with the \<open>SET\<close> clause as a
  function of the stored and the offered row.  Text is compared by bytes, as SQLite's default collation
  does.  The laws of \<open>upsert\<close> are proved once, for every table whose \<open>SET\<close> clause keeps the key.
\<close>

datatype sqlite_error = IntegrityError

type_synonym 'a sql = "sqlite_error + 'a"

definition sbind :: "'a sql \<Rightarrow> ('a \<Rightarrow> 'b sql) \<Rightarrow> 'b sql" where
  "sbind m f = (case m of Inl e \<Rightarrow> Inl e | Inr x \<Rightarrow> f x)"

lemma sbind_simps [simp]: "sbind (Inl e) f = Inl e" "sbind (Inr x) f = f x"
  by (simp_all add: sbind_def)

lemma sbind_eq_Inr: "sbind m f = Inr y \<longleftrightarrow> (\<exists>x. m = Inr x \<and> f x = Inr y)"
  by (cases m) auto

section \<open>Statements\<close>

text \<open>\<open>SELECT ... WHERE key=?\<close> and \<open>fetchone\<close>.\<close>

definition select_row :: "('r \<Rightarrow> 'k) \<Rightarrow> 'k \<Rightarrow> 'r list \<Rightarrow> 'r option" where
  "select_row key k t = List.find (\<lambda>r. key r = k) t"

text \<open>\<open>INSERT\<close> into a table with the primary key \<open>key\<close>.\<close>

definition insert_row :: "('r \<Rightarrow> 'k) \<Rightarrow> 'r \<Rightarrow> 'r list \<Rightarrow> 'r list sql" where
  "insert_row key row t = (if key row \<in> key ` set t then Inl IntegrityError else Inr (t @ [row]))"

definition update_rows :: "('r \<Rightarrow> bool) \<Rightarrow> ('r \<Rightarrow> 'r) \<Rightarrow> 'r list \<Rightarrow> 'r list" where
  "update_rows p f t = map (\<lambda>r. if p r then f r else r) t"

text \<open>The statement fails when its result breaks the uniqueness of \<open>key\<close>.\<close>

definition checked :: "('r \<Rightarrow> 'k) \<Rightarrow> 'r list \<Rightarrow> 'r list sql" where
  "checked key t = (if distinct (map key t) then Inr t else Inl IntegrityError)"

definition upsert :: "('r \<Rightarrow> 'k) \<Rightarrow> ('r \<Rightarrow> 'r \<Rightarrow> 'r) \<Rightarrow> 'r \<Rightarrow> 'r list \<Rightarrow> 'r list" where
  "upsert key merge row t =
    (if key row \<in> key ` set t then map (\<lambda>old. if key old = key row then merge old row else old) t else t @ [row])"

text \<open>\<open>ORDER BY f DESC\<close>, and with \<open>LIMIT 1\<close>; SQLite leaves the order of rows with equal keys open.\<close>

definition order_desc :: "('r \<Rightarrow> 'k::linorder) \<Rightarrow> 'r list \<Rightarrow> 'r list" where
  "order_desc f t = rev (sort_key f t)"

definition latest_row :: "('r \<Rightarrow> 'k::linorder) \<Rightarrow> 'r list \<Rightarrow> 'r option" where
  "latest_row f t = (case order_desc f t of [] \<Rightarrow> None | r # _ \<Rightarrow> Some r)"

section \<open>Facts of the statements\<close>

lemma select_row_Some:
  assumes "select_row key k t = Some r"
  shows "r \<in> set t" and "key r = k"
  using assms by (auto simp: select_row_def find_Some_iff)

lemma select_row_None: "select_row key k t = None \<longleftrightarrow> k \<notin> key ` set t"
  by (auto simp: select_row_def find_None_iff)

lemma select_row_key:
  assumes "distinct (map key t)" and "r \<in> set t"
  shows "select_row key (key r) t = Some r"
proof -
  obtain r' where r': "select_row key (key r) t = Some r'"
    using assms(2) by (cases "select_row key (key r) t") (auto simp: select_row_None)
  then have "r' \<in> set t" "key r' = key r" by (auto dest: select_row_Some)
  then show ?thesis using assms r' by (auto simp: distinct_map inj_on_def)
qed

lemma insert_row_Inr: "insert_row key row t = Inr t' \<longleftrightarrow> key row \<notin> key ` set t \<and> t' = t @ [row]"
  by (auto simp: insert_row_def)

lemma set_order_desc [simp]: "set (order_desc f t) = set t"
  by (simp add: order_desc_def)

lemma distinct_order_desc [simp]: "distinct (map g (order_desc f t)) \<longleftrightarrow> distinct (map g t)"
proof -
  have "mset (map g (rev (sort_key f t))) = mset (map g t)" by simp
  then show ?thesis unfolding order_desc_def using mset_eq_imp_distinct_iff by blast
qed

lemma latest_row_Some: "latest_row f t = Some r \<Longrightarrow> r \<in> set t"
  using set_order_desc [of f t] by (cases "order_desc f t") (auto simp: latest_row_def)

lemma latest_row_None: "latest_row f t = None \<longleftrightarrow> t = []"
  by (cases "order_desc f t") (use set_order_desc [of f t] in \<open>auto simp: latest_row_def\<close>)

lemma map_update_rows:
  assumes "\<And>r. p r \<Longrightarrow> g (f r) = g r"
  shows "map g (update_rows p f t) = map g t"
  using assms by (simp add: update_rows_def)

lemma image_update_rows:
  assumes "\<And>r. p r \<Longrightarrow> g (f r) = g r"
  shows "g ` set (update_rows p f t) = g ` set t"
  using map_update_rows [of p g f t, OF assms] by (metis list.set_map)

lemma set_update_rows: "set (update_rows p f t) = (\<lambda>r. if p r then f r else r) ` set t"
  by (simp add: update_rows_def)

section \<open>Tables with a key\<close>

locale keyed_table =
  fixes key :: "'r \<Rightarrow> 'k" and merge :: "'r \<Rightarrow> 'r \<Rightarrow> 'r"
  assumes merge_key: "key old = key row \<Longrightarrow> key (merge old row) = key row"
begin

lemma keys: "map key (upsert key merge row t) = (if key row \<in> key ` set t then map key t else map key t @ [key row])"
  by (auto simp: upsert_def merge_key)

lemma key_set: "key ` set (upsert key merge row t) = insert (key row) (key ` set t)"
  using arg_cong [OF keys [of row t], of set] by (auto split: if_splits)

lemma distinct_keys: "distinct (map key t) \<Longrightarrow> distinct (map key (upsert key merge row t))"
  by (simp only: keys) auto

lemma find_merged:
  "List.find (\<lambda>r. key r = k) (map (\<lambda>old. if key old = key row then merge old row else old) t) =
    (if k = key row then map_option (\<lambda>old. merge old row) (List.find (\<lambda>r. key r = k) t)
     else List.find (\<lambda>r. key r = k) t)"
  by (induction t) (auto simp: merge_key)

lemma find_append: "List.find p (xs @ ys) = (case List.find p xs of None \<Rightarrow> List.find p ys | Some r \<Rightarrow> Some r)"
  by (induction xs) auto

lemma others: "k \<noteq> key row \<Longrightarrow> select_row key k (upsert key merge row t) = select_row key k t"
  by (simp add: select_row_def upsert_def find_merged find_append split: option.splits)

lemma upserted:
  "select_row key (key row) (upsert key merge row t) =
    Some (case select_row key (key row) t of None \<Rightarrow> row | Some old \<Rightarrow> merge old row)"
proof (cases "key row \<in> key ` set t")
  case True
  then have "select_row key (key row) t \<noteq> None" by (simp add: select_row_None)
  then show ?thesis using True by (auto simp: select_row_def upsert_def find_merged)
next
  case False
  then have "select_row key (key row) t = None" by (simp add: select_row_None)
  then show ?thesis using False by (simp add: select_row_def upsert_def find_append)
qed

text \<open>A column the \<open>SET\<close> clause takes from neither row stays, or is that of the new row.\<close>

lemma column:
  assumes "\<And>old row. g (merge old row) = g old" and "r \<in> set (upsert key merge row t)"
  shows "(\<exists>old \<in> set t. key r = key old \<and> g r = g old) \<or> (key r = key row \<and> g r = g row)"
proof (cases "key row \<in> key ` set t")
  case True
  then obtain old where "old \<in> set t" "r = (if key old = key row then merge old row else old)"
    using assms(2) by (auto simp: upsert_def)
  then show ?thesis using assms(1) merge_key by (metis (full_types))
next
  case False
  then show ?thesis using assms(2) by (auto simp: upsert_def)
qed

text \<open>The pairs of the key and a column the \<open>SET\<close> clause takes from the offered row.\<close>

lemma pairs_new: "key row \<notin> key ` set t \<Longrightarrow>
    map (\<lambda>r. (key r, c r)) (upsert key merge row t) = map (\<lambda>r. (key r, c r)) t @ [(key row, c row)]"
  by (simp add: upsert_def)

lemma kept: "r \<in> set t \<Longrightarrow> key r \<noteq> key row \<Longrightarrow> r \<in> set (upsert key merge row t)"
  by (auto simp: upsert_def image_iff)

lemma offered:
  assumes "\<And>old row. c (merge old row) = c row" and "r \<in> set (upsert key merge row t)" and "key r = key row"
  shows "c r = c row"
proof (cases "key row \<in> key ` set t")
  case True
  then show ?thesis using assms by (auto simp: upsert_def merge_key split: if_splits)
next
  case False
  then have "r \<in> set t \<Longrightarrow> False" using assms(3) by (metis imageI)
  then show ?thesis using assms(2) False by (auto simp: upsert_def)
qed

lemma pairs_same:
  assumes c: "\<And>old row. c (merge old row) = c row" and dist: "distinct (map key t)"
    and pair: "(key row, c row) \<in> set (map (\<lambda>r. (key r, c r)) t)"
  shows "map (\<lambda>r. (key r, c r)) (upsert key merge row t) = map (\<lambda>r. (key r, c r)) t"
proof -
  obtain r where r: "r \<in> set t" "key r = key row" "c r = c row" using pair by auto
  have "c old = c row" if "old \<in> set t" "key old = key row" for old
    using that r dist by (metis distinct_map inj_onD)
  moreover have "key row \<in> key ` set t" using r by (metis imageI)
  ultimately show ?thesis by (simp add: upsert_def merge_key c)
qed

end

end
