(* ===== verification/Incident_Store.thy ===== *)
theory Incident_Store
  imports Py_Order Py_Repr Sql_Table "HOL-Library.AList"
begin

text \<open>
  \<open>persistence/incidents.py\<close>: the table of incidents and the reconciliation of one scan with it.  The
  table is the list of its rows in the order they were inserted; the unique index on the fingerprint of
  active rows and the primary key are checked by the insertion, which raises as SQLite does.  One scan
  is one transaction, so a scan that raises leaves the table as it was.  The random identifiers of new
  incidents and the clock are parameters.
\<close>

section \<open>Findings and incidents\<close>

datatype inc_severity = SevInfo | SevWarning | SevCritical
datatype inc_confidence = ConfLow | ConfMedium | ConfHigh
datatype inc_category = Production | Charging | Battery | Communications | DataIntegrity

datatype evidence_value = EvNone | EvNumber pyfloat | EvText string | EvInt int | EvStates "string list"

record inc_evidence =
  ie_code :: string
  ie_message :: string
  ie_value :: evidence_value
  ie_unit :: "string option"
  ie_source :: string

record finding =
  fd_detector :: string
  fd_evaluation_key :: string
  fd_fingerprint :: string
  fd_category :: inc_category
  fd_severity :: inc_severity
  fd_confidence :: inc_confidence
  fd_title :: string
  fd_summary :: string
  fd_controller_uid :: "string option"
  fd_observed_value :: "pyfloat option"
  fd_expected_low :: "pyfloat option"
  fd_expected_high :: "pyfloat option"
  fd_unit :: "string option"
  fd_evidence :: "inc_evidence list"

datatype incident_state = Active | Resolved

text \<open>A row of the table: the finding it was last seen as, and its lifecycle.\<close>

record incident =
  in_uid :: string
  in_system_uid :: string
  in_finding :: finding
  in_state :: incident_state
  in_opened_at :: string
  in_last_observed_at :: string
  in_updated_at :: string
  in_resolved_at :: "string option"
  in_occurrence_count :: nat

type_synonym incident_table = "incident list"

abbreviation in_fingerprint :: "incident \<Rightarrow> string" where
  "in_fingerprint r \<equiv> fd_fingerprint (in_finding r)"

datatype transition_kind = Opened | Updated | ResolvedTransition

type_synonym transition = "transition_kind \<times> incident"



section \<open>Statements on the table\<close>

definition active_in :: "string \<Rightarrow> incident \<Rightarrow> bool" where
  "active_in system_uid r \<longleftrightarrow> in_system_uid r = system_uid \<and> in_state r = Active"

definition insert_incident :: "incident \<Rightarrow> incident_table \<Rightarrow> sqlite_error + incident_table" where
  "insert_incident row t =
    (if in_uid row \<in> in_uid ` set t \<or>
        (in_state row = Active \<and> in_fingerprint row \<in> in_fingerprint ` set (filter (\<lambda>r. in_state r = Active) t))
     then Inl IntegrityError else Inr (t @ [row]))"

definition update_where :: "(incident \<Rightarrow> bool) \<Rightarrow> (incident \<Rightarrow> incident) \<Rightarrow> incident_table \<Rightarrow> incident_table" where
  "update_where p f t = map (\<lambda>r. if p r then f r else r) t"

definition select_uid :: "string \<Rightarrow> incident_table \<Rightarrow> incident option" where
  "select_uid uid t = List.find (\<lambda>r. in_uid r = uid) t"

section \<open>\<open>reconcile\<close>\<close>

text \<open>\<open>{str(row["fingerprint"]): row for row in active_rows}\<close>\<close>

definition active_rows :: "string \<Rightarrow> incident_table \<Rightarrow> (string \<times> incident) list" where
  "active_rows system_uid t = fold (\<lambda>r. AList.update (in_fingerprint r) r) (filter (active_in system_uid) t) []"

definition new_incident :: "string \<Rightarrow> string \<Rightarrow> string \<Rightarrow> finding \<Rightarrow> incident" where
  "new_incident uid system_uid ts f = \<lparr>in_uid = uid, in_system_uid = system_uid, in_finding = f, in_state = Active,
     in_opened_at = ts, in_last_observed_at = ts, in_updated_at = ts, in_resolved_at = None, in_occurrence_count = 1\<rparr>"

definition changed :: "incident \<Rightarrow> finding \<Rightarrow> bool" where
  "changed previous f \<longleftrightarrow> (let old = in_finding previous in
     fd_severity old \<noteq> fd_severity f \<or> fd_confidence old \<noteq> fd_confidence f \<or> fd_title old \<noteq> fd_title f \<or>
     fd_summary old \<noteq> fd_summary f)"

text \<open>The columns an update sets: the identity of the incident stays.\<close>

definition observe_again :: "string \<Rightarrow> finding \<Rightarrow> incident \<Rightarrow> incident" where
  "observe_again ts f r = r\<lparr>in_finding := (in_finding r)\<lparr>fd_category := fd_category f, fd_severity := fd_severity f,
       fd_confidence := fd_confidence f, fd_title := fd_title f, fd_summary := fd_summary f,
       fd_observed_value := fd_observed_value f, fd_expected_low := fd_expected_low f,
       fd_expected_high := fd_expected_high f, fd_unit := fd_unit f, fd_evidence := fd_evidence f\<rparr>,
     in_last_observed_at := ts, in_updated_at := ts, in_occurrence_count := in_occurrence_count r + 1\<rparr>"

definition resolve_incident :: "string \<Rightarrow> incident \<Rightarrow> incident" where
  "resolve_incident ts r = r\<lparr>in_state := Resolved, in_resolved_at := Some ts, in_updated_at := ts\<rparr>"

definition transition_of :: "transition_kind \<Rightarrow> string \<Rightarrow> incident_table \<Rightarrow> transition list" where
  "transition_of kind uid t = (case select_uid uid t of None \<Rightarrow> [] | Some r \<Rightarrow> [(kind, r)])"

text \<open>The findings, in order; \<open>n\<close> counts the identifiers drawn, \<open>active\<close> is the snapshot of the start.\<close>

fun apply_findings ::
  "(nat \<Rightarrow> string) \<Rightarrow> string \<Rightarrow> string \<Rightarrow> (string \<times> incident) list \<Rightarrow> nat \<Rightarrow> finding list \<Rightarrow> incident_table \<Rightarrow>
   sqlite_error + incident_table \<times> transition list" where
  "apply_findings fresh sys ts active n [] t = Inr (t, [])"
| "apply_findings fresh sys ts active n (f # fs) t =
    (case map_of active (fd_fingerprint f) of
       None \<Rightarrow>
         (case insert_incident (new_incident (fresh n) sys ts f) t of
            Inl e \<Rightarrow> Inl e
          | Inr t' \<Rightarrow>
            (case apply_findings fresh sys ts active (Suc n) fs t' of
               Inl e \<Rightarrow> Inl e
             | Inr (t'', trs) \<Rightarrow> Inr (t'', transition_of Opened (fresh n) t' @ trs)))
     | Some previous \<Rightarrow>
         (let t' = update_where (\<lambda>r. in_uid r = in_uid previous) (observe_again ts f) t in
          case apply_findings fresh sys ts active n fs t' of
            Inl e \<Rightarrow> Inl e
          | Inr (t'', trs) \<Rightarrow>
            Inr (t'', (if changed previous f then transition_of Updated (in_uid previous) t' else []) @ trs)))"

fun resolve_absent ::
  "string \<Rightarrow> string set \<Rightarrow> string set \<Rightarrow> (string \<times> incident) list \<Rightarrow> incident_table \<Rightarrow> incident_table \<times> transition list" where
  "resolve_absent ts present evaluated [] t = (t, [])"
| "resolve_absent ts present evaluated ((fingerprint, row) # rows) t =
    (if fingerprint \<in> present \<or> fd_evaluation_key (in_finding row) \<notin> evaluated
     then resolve_absent ts present evaluated rows t
     else
       let t' = update_where (\<lambda>r. in_uid r = in_uid row \<and> in_state r = Active) (resolve_incident ts) t;
           (t'', trs) = resolve_absent ts present evaluated rows t'
       in (t'', transition_of ResolvedTransition (in_uid row) t' @ trs))"

definition reconcile ::
  "(nat \<Rightarrow> string) \<Rightarrow> string \<Rightarrow> string \<Rightarrow> finding list \<Rightarrow> string set \<Rightarrow> incident_table \<Rightarrow>
   incident_table \<times> (sqlite_error + transition list)" where
  "reconcile fresh sys ts findings evaluated t =
    (let active = active_rows sys t; present = set (map fd_fingerprint findings) in
     case apply_findings fresh sys ts active 0 findings t of
       Inl e \<Rightarrow> (t, Inl e)
     | Inr (t', trs) \<Rightarrow>
       (let (t'', trs') = resolve_absent ts present evaluated active t' in (t'', Inr (trs @ trs'))))"

section \<open>Reading the table\<close>

definition matches :: "string option \<Rightarrow> string option \<Rightarrow> incident_state option \<Rightarrow> inc_severity option \<Rightarrow> incident \<Rightarrow> bool" where
  "matches sys controller st sev r \<longleftrightarrow>
     (case sys of None \<Rightarrow> True | Some s \<Rightarrow> in_system_uid r = s) \<and>
     (case controller of None \<Rightarrow> True | Some c \<Rightarrow> fd_controller_uid (in_finding r) = Some c) \<and>
     (case st of None \<Rightarrow> True | Some s \<Rightarrow> in_state r = s) \<and>
     (case sev of None \<Rightarrow> True | Some s \<Rightarrow> fd_severity (in_finding r) = s)"

text \<open>\<open>ORDER BY\<close> the state and, newest first, the two times; rows with the same times come in some order.\<close>

definition newest_first :: "incident list \<Rightarrow> incident list" where
  "newest_first rs = rev (sort_key (\<lambda>r. (in_updated_at r, in_opened_at r)) rs)"

definition list_incidents ::
  "string option \<Rightarrow> string option \<Rightarrow> incident_state option \<Rightarrow> inc_severity option \<Rightarrow> int \<Rightarrow> incident_table \<Rightarrow> incident list" where
  "list_incidents sys controller st sev limit t =
    (let rows = filter (matches sys controller st sev) t in
     take (nat (max 1 (min limit 5000)))
       (newest_first (filter (\<lambda>r. in_state r = Active) rows) @ newest_first (filter (\<lambda>r. in_state r \<noteq> Active) rows)))"

end
