(* ===== verification/System_Metrics.thy ===== *)
theory System_Metrics
  imports Py_Prelude
begin

text \<open>
  \<open>systems/semantics.py\<close>: the metrics of a system, each with the registers that can supply it, in the order
  of preference, and the way the values of several controllers are put together.
\<close>

datatype system_aggregation = AggSum | AggMedian | AggMax | AggMin | AggLatest | AggStateSet

datatype system_metric_category = MSolar | MBattery | MLoad | MEnergy | MTemperature | MState | MHealth

datatype system_metric_spec = SystemMetricSpec
  (smt_name: string) (smt_unit: "string option") (smt_aggregation: system_aggregation)
  (smt_category: system_metric_category) (smt_registers: "string list") (smt_description: string)

definition SYSTEM_METRICS :: "system_metric_spec list" where
  "SYSTEM_METRICS =
  [
   SystemMetricSpec ''solar_input_power_w'' (Some ''W'') AggSum MSolar
     [''input_power'', ''array_power'', ''pv_power'', ''solar_power'', ''input_power_reported'']
     ''Total instantaneous solar/PV input power contributed by participating controllers. A reconciled operational input-power value is preferred over a raw reported estimate when a profile exposes both.'',
   SystemMetricSpec ''charge_output_power_w'' (Some ''W'') AggSum MBattery
     [''output_power'', ''charge_power'', ''battery_charge_power'']
     ''Total instantaneous charging output power delivered toward the battery system.'',
   SystemMetricSpec ''battery_charge_current_a'' (Some ''A'') AggSum MBattery
     [''battery_charge_current'', ''charge_current'', ''output_current'']
     ''Total controller-local charging current contributed toward the battery system.'',
   SystemMetricSpec ''system_charge_current_a'' (Some ''A'') AggMedian MBattery
     [''system_charge_current'']
     ''Morningstar-reported whole-system charging current. Multiple reporters are treated as parallel observations of one system quantity and are never summed.'',
   SystemMetricSpec ''battery_net_current_a'' (Some ''A'') AggMedian MBattery
     [''system_battery_current'']
     ''Morningstar-reported whole-system battery current. This is distinct from charger output current and is never synthesized from charger current.'',
   SystemMetricSpec ''system_load_current_a'' (Some ''A'') AggMedian MLoad
     [''system_load_current'']
     ''Morningstar-reported whole-system load current. Multiple reporters are resolved as observations of one system quantity rather than additive branch currents.'',
   SystemMetricSpec ''battery_voltage_v'' (Some ''V'') AggMedian MBattery
     [''battery_sense_voltage'', ''battery_terminal_voltage'', ''battery_voltage'', ''battery_voltage_1m'']
     ''Representative battery-system voltage using the median of available bus observations.'',
   SystemMetricSpec ''load_voltage_v'' (Some ''V'') AggMedian MLoad
     [''load_voltage'']
     ''Representative source-backed load-terminal voltage when available.'',
   SystemMetricSpec ''array_voltage_v'' (Some ''V'') AggMax MSolar
     [''array_voltage'', ''pv_voltage'', ''solar_voltage'']
     ''Highest active array/PV voltage observed across participating controllers.'',
   SystemMetricSpec ''battery_soc_percent'' (Some ''%'') AggMedian MBattery
     [''battery_soc'', ''batt_soc'', ''state_of_charge'', ''soc'']
     ''Representative battery state of charge when available.'',
   SystemMetricSpec ''battery_temperature_c'' (Some ''C'') AggMedian MTemperature
     [''battery_temp'', ''battery_temperature'', ''rts_temp'']
     ''Representative battery temperature across available controller sensors.'',
   SystemMetricSpec ''daily_charge_wh'' (Some ''Wh'') AggSum MEnergy
     [''daily_charge_wh'', ''charge_wh_daily'', ''daily_energy_wh'']
     ''Total controller-local charging energy accumulated during the current controller day in Wh.'',
   SystemMetricSpec ''daily_charge_kwh'' (Some ''kWh'') AggSum MEnergy
     [''daily_charge_kwh'', ''internal_charge_kwh_daily'']
     ''Total controller-local charging energy accumulated during the current day in kWh.'',
   SystemMetricSpec ''daily_charge_ah'' (Some ''Ah'') AggSum MEnergy
     [''daily_charge_ah'', ''charge_ah_daily'', ''daily_amp_hours'', ''internal_charge_ah_daily'']
     ''Total controller-local charging amp-hours accumulated during the current day.'',
   SystemMetricSpec ''lifetime_charge_kwh'' (Some ''kWh'') AggSum MEnergy
     [''charge_kwh_total'', ''lifetime_energy_kwh'', ''energy_total_kwh'', ''internal_charge_kwh_total'']
     ''Combined lifetime controller-local charging energy.'',
   SystemMetricSpec ''system_charge_kwh_daily'' (Some ''kWh'') AggMedian MEnergy
     [''system_charge_kwh_daily'']
     ''Morningstar whole-system charge-energy counter for the current day. Multiple reporters are treated as observations of one counter and are not summed.'',
   SystemMetricSpec ''system_charge_ah_daily'' (Some ''Ah'') AggMedian MEnergy
     [''system_charge_ah_daily'']
     ''Morningstar whole-system charge amp-hours for the current day.'',
   SystemMetricSpec ''system_battery_ah_daily'' (Some ''Ah'') AggMedian MEnergy
     [''system_battery_ah_daily'']
     ''Morningstar whole-system signed battery net amp-hours for the current day.'',
   SystemMetricSpec ''system_load_ah_daily'' (Some ''Ah'') AggMedian MEnergy
     [''system_load_ah_daily'']
     ''Morningstar whole-system load amp-hours for the current day.'',
   SystemMetricSpec ''external_source_charge_kwh_daily'' (Some ''kWh'') AggMedian MEnergy
     [''aggregated_shunt_charge_kwh_daily'']
     ''Aggregated external-source shunt charge energy for the current day.'',
   SystemMetricSpec ''external_source_charge_ah_daily'' (Some ''Ah'') AggMedian MEnergy
     [''aggregated_shunt_charge_ah_daily'']
     ''Aggregated external-source shunt charge amp-hours for the current day.'',
   SystemMetricSpec ''shunt_battery_net_ah_daily'' (Some ''Ah'') AggMedian MEnergy
     [''aggregated_shunt_battery_ah_daily'']
     ''Aggregated shunt signed battery net amp-hours for the current day.'',
   SystemMetricSpec ''shunt_load_ah_daily'' (Some ''Ah'') AggMedian MEnergy
     [''aggregated_shunt_load_ah_daily'']
     ''Aggregated shunt load amp-hours for the current day.'',
   SystemMetricSpec ''charge_state'' None AggStateSet MState
     [''charge_state'', ''charger_state'']
     ''Set of charge states currently reported across participating controllers.'',
   SystemMetricSpec ''faults'' None AggStateSet MHealth
     [''faults'', ''fault_state'', ''active_faults'']
     ''Current device-health fault state values reported by participating controllers.'',
   SystemMetricSpec ''alarms'' None AggStateSet MHealth
     [''alarms'', ''alarm_state'', ''active_alarms'']
     ''Current device-health alarm state values reported by participating controllers.'']"

text \<open>The dictionaries over the table: of equal keys the last one stays.\<close>

definition SYSTEM_METRIC_BY_NAME :: "string \<rightharpoonup> system_metric_spec" where
  "SYSTEM_METRIC_BY_NAME = map_of (rev (map (\<lambda>m. (smt_name m, m)) SYSTEM_METRICS))"

definition SYSTEM_METRIC_BY_REGISTER :: "string \<rightharpoonup> system_metric_spec" where
  "SYSTEM_METRIC_BY_REGISTER = map_of (rev (concat (map (\<lambda>m. map (\<lambda>r. (r, m)) (smt_registers m)) SYSTEM_METRICS)))"

definition metric_spec :: "string \<Rightarrow> system_metric_spec option" where
  "metric_spec name = SYSTEM_METRIC_BY_NAME name"

definition metric_for_register :: "string \<Rightarrow> system_metric_spec option" where
  "metric_for_register register_name = SYSTEM_METRIC_BY_REGISTER register_name"

section \<open>The table\<close>

lemma metric_names_distinct: "distinct (map smt_name SYSTEM_METRICS)"
  by code_simp

lemma metric_registers_distinct: "distinct (concat (map smt_registers SYSTEM_METRICS))"
  by code_simp

lemma metric_registers_nonempty: "\<forall>m \<in> set SYSTEM_METRICS. smt_registers m \<noteq> []"
  by (simp add: SYSTEM_METRICS_def)

lemma metric_spec_iff: "metric_spec name = Some m \<longleftrightarrow> m \<in> set SYSTEM_METRICS \<and> smt_name m = name"
proof -
  have "distinct (map fst (rev (map (\<lambda>m. (smt_name m, m)) SYSTEM_METRICS)))"
    using metric_names_distinct by (simp add: comp_def rev_map [symmetric])
  then show ?thesis unfolding metric_spec_def SYSTEM_METRIC_BY_NAME_def by (auto simp: map_of_eq_Some_iff)
qed

text \<open>The registers of the metrics are disjoint: the register determines the metric it supplies.\<close>

lemma metric_for_register_iff: "metric_for_register r = Some m \<longleftrightarrow> m \<in> set SYSTEM_METRICS \<and> r \<in> set (smt_registers m)"
proof -
  have "map fst (concat (map (\<lambda>m. map (\<lambda>r. (r, m)) (smt_registers m)) ms)) = concat (map smt_registers ms)" for ms
    by (induction ms) (simp_all add: comp_def)
  then have "distinct (map fst (rev (concat (map (\<lambda>m. map (\<lambda>r. (r, m)) (smt_registers m)) SYSTEM_METRICS))))"
    using metric_registers_distinct by (simp add: rev_map [symmetric])
  then show ?thesis unfolding metric_for_register_def SYSTEM_METRIC_BY_REGISTER_def by (auto simp: map_of_eq_Some_iff)
qed

end
