(* ===== verification/Py_Time.thy ===== *)
theory Py_Time
  imports Py_Order
begin

text \<open>
  Instants of \<open>datetime\<close>, as microseconds.  Parsing a text into one (\<open>datetime.fromisoformat\<close>) is a parameter
  \<open>parse_time\<close> of the definitions that use it.
\<close>

text \<open>\<open>timedelta.total_seconds\<close> in floats.\<close>

definition total_seconds :: "int \<Rightarrow> pyfloat" where
  "total_seconds us = fl (of_int us / 1000000)"

end
