(* ===== verification/Py_Median.thy ===== *)
theory Py_Median
  imports Py_Order
begin

text \<open>
  \<open>statistics.median\<close> and the built-in \<open>max\<close> and \<open>min\<close> on lists of floats, and their place between the
  smallest and the largest element.
\<close>

fun fhalf :: "pyfloat \<Rightarrow> pyfloat" where
  "fhalf (Fin a) = fl (a / 2)"
| "fhalf i = i"

text \<open>Of an even number of values, \<open>median\<close> takes half the sum of the two in the middle.\<close>

definition median :: "pyfloat list \<Rightarrow> pyfloat" where
  "median xs = (let data = sort xs; n = length data in
     if odd n then data ! (n div 2) else fhalf (fadd (data ! (n div 2 - 1)) (data ! (n div 2))))"

fun max_of :: "pyfloat list \<Rightarrow> pyfloat" where
  "max_of [] = NaN"
| "max_of (x # xs) = foldl fmax x xs"

fun min_of :: "pyfloat list \<Rightarrow> pyfloat" where
  "min_of [] = NaN"
| "min_of (x # xs) = foldl fmin x xs"

lemma fhalf_fdiv: "fdiv x (Fin 2) = Inr (fhalf x)"
  by (cases x) (simp_all add: inf_of_def)

section \<open>Largest and smallest\<close>

lemma fmax_max: "a \<noteq> NaN \<Longrightarrow> b \<noteq> NaN \<Longrightarrow> fmax a b = max a b"
  by (auto simp: fmax_def max_def flt_iff_less)

lemma fmin_min: "a \<noteq> NaN \<Longrightarrow> b \<noteq> NaN \<Longrightarrow> fmin a b = min a b"
  by (auto simp: fmin_def min_def flt_iff_less)

lemma foldl_fmax: "a \<noteq> NaN \<Longrightarrow> NaN \<notin> set xs \<Longrightarrow> foldl fmax a xs = Max (set (a # xs))"
proof (induction xs arbitrary: a)
  case (Cons x xs)
  then have "fmax a x = max a x" "max a x \<noteq> NaN" by (auto simp: fmax_max max_def)
  then have "foldl fmax a (x # xs) = Max (set (max a x # xs))" using Cons by simp
  also have "\<dots> = Max (set (a # x # xs))" by (cases "xs = []") (simp_all add: max.assoc)
  finally show ?case .
qed simp

lemma foldl_fmin: "a \<noteq> NaN \<Longrightarrow> NaN \<notin> set xs \<Longrightarrow> foldl fmin a xs = Min (set (a # xs))"
proof (induction xs arbitrary: a)
  case (Cons x xs)
  then have "fmin a x = min a x" "min a x \<noteq> NaN" by (auto simp: fmin_min min_def)
  then have "foldl fmin a (x # xs) = Min (set (min a x # xs))" using Cons by simp
  also have "\<dots> = Min (set (a # x # xs))" by (cases "xs = []") (simp_all add: min.assoc)
  finally show ?case .
qed simp

lemma max_of_Max: "xs \<noteq> [] \<Longrightarrow> NaN \<notin> set xs \<Longrightarrow> max_of xs = Max (set xs)"
  by (cases xs) (auto simp: foldl_fmax simp del: Max_insert)

lemma min_of_Min: "xs \<noteq> [] \<Longrightarrow> NaN \<notin> set xs \<Longrightarrow> min_of xs = Min (set xs)"
  by (cases xs) (auto simp: foldl_fmin simp del: Min_insert)

section \<open>The median\<close>

lemma rnd_form: obtains m k where "rnd x = of_int m * 2 powi k" "\<bar>m\<bar> \<le> 2 ^ 53" "- 1074 \<le> k"
proof (cases "x = 0")
  case True
  then show ?thesis using that [of 0 0] by simp
next
  case False
  let ?e = "rexp x" and ?f = "flog2 \<bar>x\<bar>"
  have "\<bar>x\<bar> < 2 powi (?f + 1)" using flog2_bounds [of "\<bar>x\<bar>"] False by simp
  moreover have "2 powi (?f + 1) \<le> (2 :: rat) powi (53 + ?e)"
    unfolding powi_le_iff by (simp add: rexp_def)
  moreover have "(2 :: rat) powi (53 + ?e) = 2 ^ 53 * 2 powi ?e"
    by (subst power_int_add) simp_all
  ultimately have "\<bar>x\<bar> \<le> 2 ^ 53 * 2 powi ?e" by (metis less_imp_le order_trans)
  then have "\<bar>x / 2 powi ?e\<bar> \<le> of_int (2 ^ 53)" by (simp add: abs_divide divide_le_eq)
  then have "\<bar>rhe (x / 2 powi ?e)\<bar> \<le> 2 ^ 53" by (rule rhe_abs_le)
  then show ?thesis using that [of "rhe (x / 2 powi ?e)" ?e] False by (simp add: rnd_def rexp_def)
qed

lemma fl_twice: "fl a = Fin a \<Longrightarrow> \<bar>a\<bar> < 2 ^ 1023 \<Longrightarrow> fl (2 * a) = Fin (2 * a)"
proof -
  assume a: "fl a = Fin a" "\<bar>a\<bar> < 2 ^ 1023"
  obtain m k where m: "rnd a = of_int m * 2 powi k" "\<bar>m\<bar> \<le> 2 ^ 53" "- 1074 \<le> k" by (rule rnd_form)
  have "a = rnd a" using a(1) by (rule fl_Fin_rnd)
  then have "2 * a = of_int m * 2 powi (k + 1)" using m(1) by (simp add: power_int_add)
  then have "rnd (2 * a) = 2 * a" using rnd_exact [OF m(2), of "k + 1"] m(3) by simp
  moreover have "\<bar>2 * a\<bar> < 2 * 2 ^ 1023" using a(2) by (simp del: power_numeral)
  then have "\<bar>2 * a\<bar> < 2 ^ 1024" by (simp only: power_Suc [symmetric]) simp
  ultimately show ?thesis by (rule fl_eq_FinI)
qed

lemma midpoint:
  assumes "fl a = Fin a" "fl b = Fin b" "\<bar>a\<bar> < 2 ^ 1023" "\<bar>b\<bar> < 2 ^ 1023" "a \<le> b"
  obtains m where "fhalf (fadd (Fin a) (Fin b)) = Fin m" "a \<le> m" "m \<le> b"
proof -
  have "fle (fl (2 * a)) (fl (a + b))" "fle (fl (a + b)) (fl (2 * b))" using assms(5) by (simp_all add: fl_mono)
  then obtain s where s: "fl (a + b) = Fin s" "2 * a \<le> s" "s \<le> 2 * b"
    unfolding fl_twice [OF assms(1,3)] fl_twice [OF assms(2,4)] by (cases "fl (a + b)") auto
  have "fle (fl a) (fl (s / 2))" "fle (fl (s / 2)) (fl b)" using s(2,3) by (simp_all add: fl_mono)
  then obtain m where "fl (s / 2) = Fin m" "a \<le> m" "m \<le> b" unfolding assms(1,2) by (cases "fl (s / 2)") auto
  then show thesis using that s(1) by simp
qed

text \<open>A finite double that can be doubled.\<close>

definition moderate :: "pyfloat \<Rightarrow> bool" where
  "moderate x \<longleftrightarrow> (case x of Fin a \<Rightarrow> fl a = Fin a \<and> \<bar>a\<bar> < 2 ^ 1023 | _ \<Rightarrow> False)"

lemma moderate_not_NaN [simp]: "\<not> moderate NaN" "\<not> moderate PosInf" "\<not> moderate NegInf"
  by (simp_all add: moderate_def)

lemma moderate_Fin: "moderate x \<Longrightarrow> \<exists>a. x = Fin a \<and> fl a = Fin a \<and> \<bar>a\<bar> < 2 ^ 1023"
  by (cases x) (simp_all add: moderate_def)

lemma midpoint_between:
  assumes "moderate x" "moderate y" "x \<le> y"
  shows "x \<le> fhalf (fadd x y) \<and> fhalf (fadd x y) \<le> y \<and> fis_finite (fhalf (fadd x y))"
proof -
  obtain a b where a: "x = Fin a" "fl a = Fin a" "\<bar>a\<bar> < 2 ^ 1023" and b: "y = Fin b" "fl b = Fin b" "\<bar>b\<bar> < 2 ^ 1023"
    using moderate_Fin assms(1,2) by blast
  have "a \<le> b" using assms(3) a(1) b(1) by (simp add: less_eq_pyfloat_def)
  then obtain m where "fhalf (fadd (Fin a) (Fin b)) = Fin m" "a \<le> m" "m \<le> b" by (rule midpoint [OF a(2) b(2) a(3) b(3)])
  then show ?thesis using a(1) b(1) by (simp add: less_eq_pyfloat_def fis_finite_def)
qed

theorem median_between:
  assumes "xs \<noteq> []" "\<forall>x \<in> set xs. moderate x"
  shows "Min (set xs) \<le> median xs \<and> median xs \<le> Max (set xs) \<and> fis_finite (median xs)"
proof -
  let ?d = "sort xs" and ?n = "length xs"
  have nth: "moderate (?d ! i) \<and> Min (set xs) \<le> ?d ! i \<and> ?d ! i \<le> Max (set xs)" if i: "i < ?n" for i
  proof -
    have "?d ! i \<in> set xs" using nth_mem [of i ?d] i by simp
    then show ?thesis using assms(2) by simp
  qed
  have n: "0 < ?n" using assms(1) by simp
  show ?thesis
  proof (cases "odd ?n")
    case True
    have "?n div 2 < ?n" using n by simp
    then show ?thesis using nth [of "?n div 2"] True by (auto simp: median_def Let_def fis_finite_def dest!: moderate_Fin)
  next
    case False
    let ?a = "?d ! (?n div 2 - 1)" and ?b = "?d ! (?n div 2)"
    have i: "?n div 2 - 1 < ?n" "?n div 2 < ?n" using n by linarith+
    have "?a \<le> ?b" using i(2) by (simp add: sorted_nth_mono)
    then have "?a \<le> fhalf (fadd ?a ?b) \<and> fhalf (fadd ?a ?b) \<le> ?b \<and> fis_finite (fhalf (fadd ?a ?b))"
      using midpoint_between nth [OF i(1)] nth [OF i(2)] by blast
    moreover have "median xs = fhalf (fadd ?a ?b)" using False by (simp add: median_def Let_def)
    ultimately show ?thesis using nth [OF i(1)] nth [OF i(2)] by (metis order_trans)
  qed
qed

end
