(* ===== verification/System_Data.thy ===== *)
theory System_Data
  imports System_Metrics Py_Time Catalog_Profile Py_Median Py_Repr "HOL-Library.AList"
begin

text \<open>
  \<open>systems/data.py\<close>: systems as sets of controllers, and the metrics of a system from the latest sample of
  each.  The tables are lists of rows in the order of insertion; the clock and \<open>datetime.fromisoformat\<close> are
  parameters, instants are microseconds.
\<close>

section \<open>Rows\<close>

text \<open>A value of a row: \<open>REAL\<close>, \<open>TEXT\<close> or \<open>NULL\<close>; \<open>_normalize_raw_value\<close> joins the two columns.\<close>

datatype cell = CNull | CNumber pyfloat | CText string

definition normalize_raw_value :: "pyfloat option \<Rightarrow> string option \<Rightarrow> cell" where
  "normalize_raw_value num txt =
    (case num of Some x \<Rightarrow> CNumber x | None \<Rightarrow> (case txt of Some s \<Rightarrow> CText s | None \<Rightarrow> CNull))"

record value_row =
  vr_name :: string
  vr_value :: cell
  vr_unit :: "string option"

record snapshot =
  sn_observed_at :: string
  sn_values :: "value_row list"

record controller_row =
  ct_uid :: string
  ct_profile :: string
  ct_status :: "string option"

fun numeric_of :: "cell \<Rightarrow> pyfloat option" where
  "numeric_of (CNumber x) = Some x"
| "numeric_of _ = None"

text \<open>\<open>str(value)\<close> of a value.\<close>

fun cell_str :: "cell \<Rightarrow> string" where
  "cell_str CNull = ''None''"
| "cell_str (CNumber x) = float_repr x"
| "cell_str (CText s) = s"

definition clear_texts :: "string list" where
  "clear_texts = ['''', ''0'', ''0.0'', ''[]'', ''{}'', ''none'', ''clear'', ''normal'', ''ok'']"

fun state_clear :: "cell \<Rightarrow> bool" where
  "state_clear CNull = True"
| "state_clear (CNumber x) = feq x (Fin 0)"
| "state_clear (CText s) = (str_lower (str_strip s) \<in> set clear_texts)"

section \<open>Systems and their members\<close>

record systems_db =
  sy_systems :: "(string \<times> string) list"
  sy_members :: "(string \<times> string) list"

datatype systems_error = NameTaken | SystemNotFoundError string

text \<open>\<open>initialize\<close>: the default system by its identifier, its name being unique; then every known controller
  becomes a member of it.\<close>

definition insert_default :: "string \<Rightarrow> string \<Rightarrow> systems_db \<Rightarrow> systems_error + systems_db" where
  "insert_default uid name db =
    (if uid \<in> fst ` set (sy_systems db) then Inr db
     else if name \<in> snd ` set (sy_systems db) then Inl NameTaken
     else Inr (db\<lparr>sy_systems := sy_systems db @ [(uid, name)]\<rparr>))"

definition sync_memberships :: "string \<Rightarrow> controller_row list \<Rightarrow> systems_db \<Rightarrow> systems_db" where
  "sync_memberships default_uid controllers db =
    db\<lparr>sy_members := fold (\<lambda>c ms. if (default_uid, ct_uid c) \<in> set ms then ms else ms @ [(default_uid, ct_uid c)])
       controllers (sy_members db)\<rparr>"

definition initialize :: "string \<Rightarrow> string \<Rightarrow> controller_row list \<Rightarrow> systems_db \<Rightarrow> systems_db \<times> (systems_error + unit)" where
  "initialize uid name controllers db =
    (case insert_default uid name db of Inl e \<Rightarrow> (db, Inl e) | Inr db' \<Rightarrow> (sync_memberships uid controllers db', Inr ()))"

definition resolve_uid :: "string \<Rightarrow> systems_db \<Rightarrow> systems_error + string" where
  "resolve_uid identifier db =
    (case List.find (\<lambda>(uid, name). uid = identifier \<or> name = identifier) (sy_systems db) of
       None \<Rightarrow> Inl (SystemNotFoundError identifier) | Some (uid, _) \<Rightarrow> Inr uid)"

text \<open>The controllers of a system, in the order of the inventory.\<close>

definition system_controllers :: "string \<Rightarrow> controller_row list \<Rightarrow> systems_db \<Rightarrow> controller_row list" where
  "system_controllers uid controllers db = filter (\<lambda>c. (uid, ct_uid c) \<in> set (sy_members db)) controllers"

section \<open>One metric\<close>

record observation =
  ob_controller_uid :: string
  ob_observed_at :: string
  ob_register_name :: string
  ob_value :: cell
  ob_unit :: "string option"

datatype metric_value = MvNone | MvNumber pyfloat | MvText string | MvStates "string list"

datatype metric_quality = QEmpty | QPartial | QComplete | QConflict | QDerived

record metric =
  mt_value :: metric_value
  mt_unit :: "string option"
  mt_aggregation :: system_aggregation
  mt_quality :: metric_quality
  mt_contributors :: nat
  mt_expected :: nat
  mt_oldest_age_ms :: "pyfloat option"
  mt_sources :: "observation list"

definition eligible_controller_uids :: "controller_row list \<Rightarrow> system_metric_spec \<Rightarrow> string set" where
  "eligible_controller_uids controllers spec = ct_uid ` set (filter (\<lambda>c.
     \<exists>r \<in> set (smt_registers spec). r \<in> set (register_names (cp_spec (get_profile (ct_profile c))))) controllers)"

definition by_name :: "value_row list \<Rightarrow> string \<rightharpoonup> value_row" where
  "by_name values = map_of (rev (map (\<lambda>v. (vr_name v, v)) values))"

definition unit_or :: "string option \<Rightarrow> string option \<Rightarrow> string option" where
  "unit_or u v = (case u of Some s \<Rightarrow> if s = [] then v else Some s | None \<Rightarrow> v)"

fun select_from :: "(string \<rightharpoonup> value_row) \<Rightarrow> string option \<Rightarrow> string list \<Rightarrow> (string \<times> cell \<times> string option) option" where
  "select_from rows unit [] = None"
| "select_from rows unit (r # rs) =
    (case rows r of
       None \<Rightarrow> select_from rows unit rs
     | Some v \<Rightarrow> if vr_value v = CNull then select_from rows unit rs else Some (r, vr_value v, unit_or (vr_unit v) unit))"

definition select_value :: "snapshot \<Rightarrow> system_metric_spec \<Rightarrow> (string \<times> cell \<times> string option) option" where
  "select_value sample spec = select_from (by_name (sn_values sample)) (smt_unit spec) (smt_registers spec)"

definition states_of :: "observation list \<Rightarrow> string list" where
  "states_of observations = fold (\<lambda>ob states. let text = cell_str (ob_value ob) in
     if text \<in> set states then states else states @ [text]) observations []"

text \<open>\<open>max(observations, key=...)\<close>: the first of the latest ones.\<close>

fun latest_observation :: "observation \<Rightarrow> observation list \<Rightarrow> observation" where
  "latest_observation best [] = best"
| "latest_observation best (o' # os) = latest_observation (if ob_observed_at best < ob_observed_at o' then o' else best) os"

fun metric_of_cell :: "cell \<Rightarrow> metric_value" where
  "metric_of_cell CNull = MvNone"
| "metric_of_cell (CNumber x) = MvNumber x"
| "metric_of_cell (CText s) = MvText s"

definition aggregate_value :: "system_aggregation \<Rightarrow> observation list \<Rightarrow> metric_value" where
  "aggregate_value aggregation observations =
    (let numbers = List.map_filter (\<lambda>ob. numeric_of (ob_value ob)) observations in
     case aggregation of
       AggStateSet \<Rightarrow> MvStates (states_of observations)
     | _ \<Rightarrow> if numbers = [] then MvNone
       else case aggregation of
         AggSum \<Rightarrow> MvNumber (fsum numbers)
       | AggMedian \<Rightarrow> MvNumber (median numbers)
       | AggMax \<Rightarrow> MvNumber (max_of numbers)
       | AggMin \<Rightarrow> MvNumber (min_of numbers)
       | _ \<Rightarrow> metric_of_cell (ob_value (latest_observation (hd observations) (tl observations))))"

text \<open>The age of an observation, in floats.\<close>

definition age_ms :: "int \<Rightarrow> (string \<Rightarrow> int option) \<Rightarrow> observation \<Rightarrow> pyfloat option" where
  "age_ms now parse_time ob = map_option (\<lambda>t. fmax (Fin 0) (fmul (total_seconds (now - t)) (Fin 1000))) (parse_time (ob_observed_at ob))"

definition quality_of :: "nat \<Rightarrow> nat \<Rightarrow> metric_quality" where
  "quality_of contributors expected =
    (if contributors = 0 then QEmpty else if expected = 0 \<or> expected \<le> contributors then QComplete else QPartial)"

definition aggregate_observations ::
  "int \<Rightarrow> (string \<Rightarrow> int option) \<Rightarrow> system_metric_spec \<Rightarrow> observation list \<Rightarrow> string set \<Rightarrow> metric" where
  "aggregate_observations now parse_time spec observations expected_uids =
    (let contributors = card (ob_controller_uid ` set observations);
         expected = card expected_uids;
         ages = List.map_filter (age_ms now parse_time) observations in
     \<lparr>mt_value = aggregate_value (smt_aggregation spec) observations,
      mt_unit = smt_unit spec,
      mt_aggregation = smt_aggregation spec,
      mt_quality = quality_of contributors expected,
      mt_contributors = contributors,
      mt_expected = expected,
      mt_oldest_age_ms = (if ages = [] then None else Some (max_of ages)),
      mt_sources = observations\<rparr>)"

section \<open>The latest state of a system\<close>

definition observe_metric :: "system_metric_spec \<Rightarrow> controller_row \<times> snapshot option \<Rightarrow> observation option" where
  "observe_metric spec x = (case x of
     (controller, None) \<Rightarrow> None
   | (controller, Some sample) \<Rightarrow>
       map_option (\<lambda>(r, value, unit). \<lparr>ob_controller_uid = ct_uid controller, ob_observed_at = sn_observed_at sample,
         ob_register_name = r, ob_value = value, ob_unit = unit\<rparr>) (select_value sample spec))"

definition metric_of :: "int \<Rightarrow> (string \<Rightarrow> int option) \<Rightarrow> (controller_row \<times> snapshot option) list \<Rightarrow> system_metric_spec \<Rightarrow> metric" where
  "metric_of now parse_time pairs spec =
    aggregate_observations now parse_time spec (List.map_filter (observe_metric spec) pairs) (eligible_controller_uids (map fst pairs) spec)"

record system_latest =
  sl_observed_at :: "string option"
  sl_controller_count :: nat
  sl_metrics :: "(string \<times> metric) list"

text \<open>\<open>max\<close> of the timestamps that are not empty.\<close>

definition latest_timestamp :: "(controller_row \<times> snapshot option) list \<Rightarrow> string option" where
  "latest_timestamp pairs =
    (let stamps = filter (\<lambda>s. s \<noteq> []) (map sn_observed_at (List.map_filter snd pairs)) in
     if stamps = [] then None else Some (Max (set stamps)))"

definition system_latest_of :: "int \<Rightarrow> (string \<Rightarrow> int option) \<Rightarrow> (controller_row \<times> snapshot option) list \<Rightarrow> system_latest" where
  "system_latest_of now parse_time pairs =
    \<lparr>sl_observed_at = latest_timestamp pairs, sl_controller_count = length pairs,
     sl_metrics = map (\<lambda>spec. (smt_name spec, metric_of now parse_time pairs spec)) SYSTEM_METRICS\<rparr>"

definition energy :: "system_latest \<Rightarrow> (string \<times> metric option) list" where
  "energy l = map (\<lambda>n. (n, map_of (sl_metrics l) n)) [''daily_charge_wh'', ''daily_charge_ah'', ''lifetime_charge_kwh'']"

datatype system_status = StatusOk | StatusWarning | StatusCritical

record system_health =
  sh_status :: system_status
  sh_controllers :: "(string \<times> nat) list"
  sh_active_faults :: nat
  sh_active_alarms :: nat

definition status_of_row :: "controller_row \<Rightarrow> string" where
  "status_of_row c = (case ct_status c of Some s \<Rightarrow> if s = [] then ''unknown'' else s | None \<Rightarrow> ''unknown'')"

definition status_counts :: "controller_row list \<Rightarrow> (string \<times> nat) list" where
  "status_counts controllers = fold (\<lambda>c m. AList.update (status_of_row c)
     ((case map_of m (status_of_row c) of Some n \<Rightarrow> n | None \<Rightarrow> 0) + 1) m) controllers []"

definition active_sources :: "string \<Rightarrow> system_latest \<Rightarrow> nat" where
  "active_sources name l = (case map_of (sl_metrics l) name of
     Some m \<Rightarrow> length (filter (\<lambda>ob. \<not> state_clear (ob_value ob)) (mt_sources m)) | None \<Rightarrow> 0)"

definition health :: "system_latest \<Rightarrow> controller_row list \<Rightarrow> system_health" where
  "health l controllers =
    (let counts = status_counts controllers;
         faults = active_sources ''faults'' l;
         alarms = active_sources ''alarms'' l;
         offline = sum_list (map snd (filter (\<lambda>(state, n). state \<noteq> ''online'') counts)) in
     \<lparr>sh_status = (if faults \<noteq> 0 then StatusCritical else if alarms \<noteq> 0 \<or> offline \<noteq> 0 then StatusWarning else StatusOk),
      sh_controllers = counts, sh_active_faults = faults, sh_active_alarms = alarms\<rparr>)"

end
