(* ===== verification/Py_Format.thy ===== *)
theory Py_Format
  imports Py_Text
begin

text \<open>\<open>f"{x:.nf}"\<close>: the exact value rounded half-even to \<open>n\<close> decimals.\<close>

definition fmt_fixed :: "nat \<Rightarrow> pyfloat \<Rightarrow> string" where
  "fmt_fixed n x = (case x of
     NaN \<Rightarrow> ''nan'' | PosInf \<Rightarrow> ''inf'' | NegInf \<Rightarrow> ''-inf''
   | Fin a \<Rightarrow>
     (let m = nat \<bar>rhe (a * 10 ^ n)\<bar>;
          body = show_nat (m div 10 ^ n) @ (if n = 0 then '''' else ''.'' @ pad0 n (show_nat (m mod 10 ^ n)))
      in if a < 0 then ''-'' @ body else body))"

lemma char_zero: "char_of (48 :: nat) = CHR ''0''"
  by code_simp

lemma fmt_fixed_2: "fmt_fixed 2 x = fmt_fixed2 x"
proof -
  have "pad0 2 (show_nat k) = [digit_char (k div 10), digit_char (k mod 10)]" if "k < 100" for k
  proof (cases "k < 10")
    case True
    then show ?thesis by (subst show_nat.simps) (simp add: pad0_def digit_char_def chr_def char_zero)
  next
    case False
    then have "show_nat k = [digit_char (k div 10), digit_char (k mod 10)]"
      using that by (subst show_nat.simps, subst show_nat.simps) simp
    then show ?thesis by (simp add: pad0_def)
  qed
  then show ?thesis by (cases x) (simp_all add: fmt_fixed_def fmt_fixed2_def Let_def mod_mod_cancel)
qed

end
