(* ===== verification/Detectors.thy ===== *)
theory Detectors
  imports Incident_Store System_Data Py_Format Polling
begin

text \<open>
  \<open>intelligence/incidents.py\<close>: the detectors that turn the latest sample, the polling performance and the
  history of a controller into findings, the scan of a system, and the health score.  A detector returns its finding,
  if any, and the key under which the scan counts as evaluated.  Queries of the store (polling summary, coverage,
  charge states, the baseline's history) enter as their results; the clock and the timestamps are parameters.
\<close>

section \<open>Policy\<close>

record incident_policy =
  scan_interval_seconds :: pyfloat
  sense_warning_v :: pyfloat
  sense_critical_v :: pyfloat
  minimum_efficiency_input_w :: pyfloat
  efficiency_warning :: pyfloat
  efficiency_critical :: pyfloat
  polling_min_samples :: int
  polling_warning_success_rate :: pyfloat
  polling_critical_success_rate :: pyfloat
  polling_warning_deadline_miss_rate :: pyfloat
  absorption_entries_warning :: int
  absorption_entries_critical :: int
  production_history_days :: int
  production_min_comparable_days :: nat
  production_min_expected_w :: pyfloat
  production_warning_fraction :: pyfloat
  production_critical_fraction :: pyfloat
  production_baseline_window_minutes :: int
  coverage_warning_percent :: pyfloat

definition IncidentPolicy :: incident_policy where
  "IncidentPolicy = \<lparr>scan_interval_seconds = Fin 60, sense_warning_v = fl (25 / 100), sense_critical_v = fl (50 / 100),
     minimum_efficiency_input_w = Fin 100, efficiency_warning = fl (80 / 100), efficiency_critical = fl (60 / 100),
     polling_min_samples = 20, polling_warning_success_rate = fl (95 / 100), polling_critical_success_rate = fl (80 / 100),
     polling_warning_deadline_miss_rate = fl (10 / 100), absorption_entries_warning = 6, absorption_entries_critical = 10,
     production_history_days = 8, production_min_comparable_days = 3, production_min_expected_w = Fin 100,
     production_warning_fraction = fl (60 / 100), production_critical_fraction = fl (25 / 100),
     production_baseline_window_minutes = 45, coverage_warning_percent = Fin 80\<rparr>"

section \<open>Reading a sample\<close>

fun first_row :: "(string \<rightharpoonup> value_row) \<Rightarrow> string list \<Rightarrow> value_row option" where
  "first_row rows [] = None"
| "first_row rows (n # ns) = (case rows n of Some row \<Rightarrow> Some row | None \<Rightarrow> first_row rows ns)"

definition register_of :: "snapshot \<Rightarrow> string list \<Rightarrow> value_row option" where
  "register_of sample names = first_row (by_name (sn_values sample)) names"

definition register_number :: "snapshot \<Rightarrow> string list \<Rightarrow> pyfloat option" where
  "register_number sample names = (case register_of sample names of None \<Rightarrow> None | Some row \<Rightarrow> numeric_of (vr_value row))"

section \<open>Findings\<close>

definition detector_key :: "string \<Rightarrow> string \<Rightarrow> string" where
  "detector_key detector uid = detector @ ''|'' @ uid"

definition new_finding ::
  "string \<Rightarrow> string \<Rightarrow> inc_category \<Rightarrow> inc_severity \<Rightarrow> inc_confidence \<Rightarrow> string \<Rightarrow> string \<Rightarrow> finding" where
  "new_finding detector key category severity confidence title summary =
    \<lparr>fd_detector = detector, fd_evaluation_key = key, fd_fingerprint = key, fd_category = category, fd_severity = severity,
     fd_confidence = confidence, fd_title = title, fd_summary = summary, fd_controller_uid = None, fd_observed_value = None,
     fd_expected_low = None, fd_expected_high = None, fd_unit = None, fd_evidence = []\<rparr>"

definition Evidence :: "string \<Rightarrow> string \<Rightarrow> evidence_value \<Rightarrow> string option \<Rightarrow> string \<Rightarrow> inc_evidence" where
  "Evidence code message value unit source = \<lparr>ie_code = code, ie_message = message, ie_value = value, ie_unit = unit, ie_source = source\<rparr>"

fun evidence_of_cell :: "cell \<Rightarrow> evidence_value" where
  "evidence_of_cell CNull = EvNone"
| "evidence_of_cell (CNumber x) = EvNumber x"
| "evidence_of_cell (CText s) = EvText s"

section \<open>Detectors of one controller\<close>

definition offline_finding :: "string \<Rightarrow> string option \<Rightarrow> finding option" where
  "offline_finding uid status =
    (let s = str_lower (case status of Some t \<Rightarrow> if t = [] then ''unknown'' else t | None \<Rightarrow> ''unknown'') in
     if s = ''online'' then None
     else Some ((new_finding ''controller_offline'' (detector_key ''controller_offline'' uid) Communications SevWarning ConfHigh
       ''Controller is offline'' ''The physical controller is not currently reporting as online.'')
       \<lparr>fd_controller_uid := Some uid,
        fd_evidence := [Evidence ''controller_status'' ''Physical-controller inventory status.'' (EvText s) None ''controller-inventory'']\<rparr>))"

definition sense_finding :: "incident_policy \<Rightarrow> string \<Rightarrow> snapshot \<Rightarrow> finding option \<times> string option" where
  "sense_finding policy uid sample =
    (case (register_number sample [''battery_sense_voltage'', ''battery_remote_sense_voltage''],
           register_number sample [''battery_terminal_voltage'', ''battery_voltage'']) of
       (Some sense, Some terminal) \<Rightarrow>
         (let key = detector_key ''battery_sense_divergence'' uid;
              delta = fabs (fsub terminal sense) in
          if flt delta (sense_warning_v policy) then (None, Some key)
          else (Some ((new_finding ''battery_sense_divergence'' key Battery
              (if fle (sense_critical_v policy) delta then SevCritical else SevWarning) ConfHigh
              ''Battery terminal and sense voltage disagree''
              (''The controller terminal voltage and remote-sense voltage differ by '' @ fmt_fixed 2 delta @ '' V.''))
              \<lparr>fd_controller_uid := Some uid, fd_observed_value := Some delta, fd_expected_low := Some (Fin 0),
               fd_expected_high := Some (sense_warning_v policy), fd_unit := Some ''V'',
               fd_evidence := [Evidence ''terminal_voltage'' ''Controller terminal voltage.'' (EvNumber terminal) (Some ''V'') ''telemetry'',
                 Evidence ''sense_voltage'' ''Remote battery sense voltage.'' (EvNumber sense) (Some ''V'') ''telemetry'']\<rparr>), Some key))
     | _ \<Rightarrow> (None, None))"

text \<open>The division of the ratio is only reached for a positive input power.\<close>

definition conversion_ratio :: "pyfloat \<Rightarrow> pyfloat \<Rightarrow> pyfloat res" where
  "conversion_ratio output_power input_power =
    (if flt (Fin 0) input_power then fdiv output_power input_power else Inr (Fin 0))"

definition efficiency_finding :: "incident_policy \<Rightarrow> string \<Rightarrow> snapshot \<Rightarrow> (finding option \<times> string option) res" where
  "efficiency_finding policy uid sample =
    (case (register_number sample [''input_power'', ''array_power'', ''pv_power'', ''input_power_reported''],
           register_number sample [''output_power'', ''charge_power'', ''battery_charge_power'']) of
       (Some input_power, Some output_power) \<Rightarrow>
         (if flt input_power (minimum_efficiency_input_w policy) then Inr (None, None)
          else
            let key = detector_key ''controller_efficiency'' uid in
            rbind (conversion_ratio output_power input_power) (\<lambda>efficiency.
            if fle (efficiency_warning policy) efficiency then Inr (None, Some key)
            else Inr (Some ((new_finding ''controller_efficiency'' key Production
              (if flt efficiency (efficiency_critical policy) then SevCritical else SevWarning) ConfMedium
              ''Controller conversion efficiency is unusually low''
              (''Source-backed input and output power imply a conversion ratio of '' @ fmt_fixed 1 (fmul efficiency (Fin 100)) @ ''%.''))
              \<lparr>fd_controller_uid := Some uid, fd_observed_value := Some (fmul efficiency (Fin 100)),
               fd_expected_low := Some (fmul (efficiency_warning policy) (Fin 100)), fd_expected_high := Some (Fin 100),
               fd_unit := Some ''%'',
               fd_evidence := [Evidence ''input_power'' ''Controller input power.'' (EvNumber input_power) (Some ''W'') ''telemetry'',
                 Evidence ''output_power'' ''Controller charging output power.'' (EvNumber output_power) (Some ''W'') ''telemetry'',
                 Evidence ''interpretation_boundary'' ''Low ratio is an observation, not a hardware-failure diagnosis.'' EvNone None ''policy'']\<rparr>),
              Some key)))
     | _ \<Rightarrow> Inr (None, None))"

text \<open>One entry of \<open>definitions\<close>: the detector, its registers, its severity and title.\<close>

definition status_finding :: "string \<Rightarrow> snapshot \<Rightarrow> string \<times> string list \<times> inc_severity \<times> string \<Rightarrow> finding option \<times> string option" where
  "status_finding uid sample d = (case d of (detector, names, severity, title) \<Rightarrow>
    (case register_of sample names of
       None \<Rightarrow> (None, None)
     | Some row \<Rightarrow>
       (let key = detector_key detector uid in
        if state_clear (vr_value row) then (None, Some key)
        else (Some ((new_finding detector key Communications severity ConfHigh title
            ''A source-backed controller status register reports a non-clear state.'')
            \<lparr>fd_controller_uid := Some uid,
             fd_evidence := [Evidence (if vr_name row = [] then detector else vr_name row) ''Raw controller-reported state.''
               (evidence_of_cell (vr_value row)) None ''controller-telemetry'']\<rparr>), Some key))))"

definition status_definitions :: "(string \<times> string list \<times> inc_severity \<times> string) list" where
  "status_definitions =
    [(''controller_fault'', [''faults'', ''fault_state''], SevCritical, ''Controller fault is active''),
     (''controller_alarm'', [''alarms'', ''alarm_state''], SevWarning, ''Controller alarm is active'')]"

text \<open>The summary of the last polls, or nothing when the query raised.\<close>

definition polling_finding :: "incident_policy \<Rightarrow> string \<Rightarrow> perf_summary option \<Rightarrow> finding option \<times> string option" where
  "polling_finding policy uid summary = (case summary of None \<Rightarrow> (None, None)
   | Some su \<Rightarrow>
     (if su_samples su < polling_min_samples policy then (None, None)
      else
        let key = detector_key ''polling_degradation'' uid; success = su_success_rate su; deadline = su_deadline_miss_rate su in
        if \<not> (flt success (polling_warning_success_rate policy) \<or> flt (polling_warning_deadline_miss_rate policy) deadline)
        then (None, Some key)
        else (Some ((new_finding ''polling_degradation'' key Communications
            (if flt success (polling_critical_success_rate policy) then SevCritical else SevWarning) ConfHigh
            ''Modbus polling reliability degraded''
            (''Recent poll success is '' @ fmt_fixed 1 (fmul success (Fin 100)) @ ''% with '' @
             fmt_fixed 1 (fmul deadline (Fin 100)) @ ''% deadline misses.''))
            \<lparr>fd_controller_uid := Some uid, fd_observed_value := Some (fmul success (Fin 100)),
             fd_expected_low := Some (fmul (polling_warning_success_rate policy) (Fin 100)), fd_expected_high := Some (Fin 100),
             fd_unit := Some ''%'',
             fd_evidence := [Evidence ''poll_samples'' ''Recent persisted polling-performance samples.'' (EvInt (su_samples su)) None ''telemetry'',
               Evidence ''success_rate'' ''Successful logical polls.'' (EvNumber (fmul success (Fin 100))) (Some ''%'') ''telemetry'',
               Evidence ''deadline_miss_rate'' ''Poll deadline misses.'' (EvNumber (fmul deadline (Fin 100))) (Some ''%'') ''telemetry'']\<rparr>), Some key)))"

section \<open>Charge cycles\<close>

definition to_upper :: "char \<Rightarrow> char" where
  "to_upper c = (if is_lower c then chr (code_of c - 32) else c)"

text \<open>\<open>str(row.get("value") or "").strip().upper()\<close>: zero and the empty text count as missing.\<close>

definition state_text :: "cell \<Rightarrow> string" where
  "state_text v = map to_upper (str_strip (case v of CNull \<Rightarrow> [] | CNumber x \<Rightarrow> if feq x (Fin 0) then [] else float_repr x | CText s \<Rightarrow> s))"

record cycle =
  cy_sequence :: "string list"
  cy_durations :: "(string \<times> pyfloat) list"
  cy_absorption :: nat
  cy_float :: nat
  cy_previous_state :: "string option"
  cy_previous_at :: "int option"

definition no_cycle :: cycle where
  "no_cycle = \<lparr>cy_sequence = [], cy_durations = [], cy_absorption = 0, cy_float = 0, cy_previous_state = None, cy_previous_at = None\<rparr>"

definition add_duration :: "string \<Rightarrow> pyfloat \<Rightarrow> (string \<times> pyfloat) list \<Rightarrow> (string \<times> pyfloat) list" where
  "add_duration state delta m = AList.update state (fadd (case map_of m state of Some d \<Rightarrow> d | None \<Rightarrow> Fin 0) delta) m"

definition cycle_step :: "(string \<Rightarrow> int option) \<Rightarrow> cell \<times> string \<Rightarrow> cycle \<Rightarrow> cycle" where
  "cycle_step parse_time row c =
    (let state = state_text (fst row); timestamp = parse_time (snd row) in
     if state = [] then c
     else
       let durations =
             (case (cy_previous_state c, cy_previous_at c, timestamp) of
                (Some previous, Some before, Some now) \<Rightarrow>
                  (let delta = fmax (Fin 0) (total_seconds (now - before)) in
                   if fle delta (Fin 900) then add_duration previous delta (cy_durations c) else cy_durations c)
              | _ \<Rightarrow> cy_durations c);
           entered = cy_previous_state c \<noteq> Some state in
       \<lparr>cy_sequence = (if entered then cy_sequence c @ [state] else cy_sequence c),
        cy_durations = durations,
        cy_absorption = (if entered \<and> state = ''ABSORPTION'' then cy_absorption c + 1 else cy_absorption c),
        cy_float = (if entered \<and> state = ''FLOAT'' then cy_float c + 1 else cy_float c),
        cy_previous_state = Some state, cy_previous_at = timestamp\<rparr>)"

record cycle_summary =
  cs_observed_samples :: nat
  cs_transition_count :: nat
  cs_absorption_entries :: nat
  cs_float_entries :: nat
  cs_stage_sequence :: "string list"
  cs_durations :: "(string \<times> pyfloat) list"

definition charge_cycle_summary :: "(string \<Rightarrow> int option) \<Rightarrow> (cell \<times> string) list \<Rightarrow> cycle_summary" where
  "charge_cycle_summary parse_time rows =
    (let c = fold (cycle_step parse_time) rows no_cycle in
     \<lparr>cs_observed_samples = length rows, cs_transition_count = length (cy_sequence c) - 1,
      cs_absorption_entries = cy_absorption c, cs_float_entries = cy_float c, cs_stage_sequence = cy_sequence c,
      cs_durations = cy_durations c\<rparr>)"

definition charge_cycle_finding :: "incident_policy \<Rightarrow> string \<Rightarrow> cycle_summary \<Rightarrow> finding option \<times> string option" where
  "charge_cycle_finding policy uid c =
    (if cs_observed_samples c < 3 then (None, None)
     else
       let key = detector_key ''charge_stage_cycling'' uid; entries = cs_absorption_entries c in
       if int entries < absorption_entries_warning policy then (None, Some key)
       else (Some ((new_finding ''charge_stage_cycling'' key Charging
           (if absorption_entries_critical policy \<le> int entries then SevCritical else SevWarning) ConfHigh
           ''Repeated charge-stage cycling detected''
           (''The controller entered Absorption '' @ show_nat entries @ '' times in the last 24 hours.''))
           \<lparr>fd_controller_uid := Some uid, fd_observed_value := Some (fl (of_nat entries)), fd_expected_low := Some (Fin 0),
            fd_expected_high := Some (fl (of_int (absorption_entries_warning policy - 1))), fd_unit := Some ''entries/24h'',
            fd_evidence := [Evidence ''stage_sequence'' ''Collapsed source-backed charge-state sequence.'' (EvStates (cs_stage_sequence c)) None ''controller-history'',
              Evidence ''transition_count'' ''Observed charge-state transitions.'' (EvInt (int (cs_transition_count c))) None ''controller-history'']\<rparr>), Some key))"

section \<open>Coverage of the history\<close>

record coverage =
  cv_day_count :: int
  cv_percent :: "pyfloat option"
  cv_covered_days :: int
  cv_recovered_days :: int
  cv_missing_days :: int

definition coverage_finding :: "incident_policy \<Rightarrow> string \<Rightarrow> coverage option \<Rightarrow> finding option \<times> string option" where
  "coverage_finding policy uid cov = (case cov of None \<Rightarrow> (None, None)
   | Some c \<Rightarrow>
     (case cv_percent c of None \<Rightarrow> (None, None)
      | Some percent \<Rightarrow>
        (if cv_day_count c < 3 then (None, None)
         else
           let key = detector_key ''history_coverage'' uid in
           if fle (coverage_warning_percent policy) percent then (None, Some key)
           else (Some ((new_finding ''history_coverage'' key DataIntegrity SevWarning ConfHigh
               ''Controller history evidence has gaps''
               (''Day-level live/recovered evidence covers '' @ fmt_fixed 1 percent @ ''% of the available analysis period.''))
               \<lparr>fd_controller_uid := Some uid, fd_observed_value := Some percent,
                fd_expected_low := Some (coverage_warning_percent policy), fd_expected_high := Some (Fin 100), fd_unit := Some ''%'',
                fd_evidence := [Evidence ''covered_days'' ''Days with local samples or complete retained evidence.'' (EvInt (cv_covered_days c)) None ''history-reconciliation'',
                  Evidence ''recovered_days'' ''Days recovered from complete retained controller history.'' (EvInt (cv_recovered_days c)) None ''history-reconciliation'',
                  Evidence ''missing_days'' ''Days with no defensible evidence.'' (EvInt (cv_missing_days c)) None ''history-reconciliation'']\<rparr>), Some key))))"

section \<open>The solar baseline\<close>

record baseline =
  bl_ready :: bool
  bl_current :: "pyfloat option"
  bl_low :: "pyfloat option"
  bl_median :: "pyfloat option"
  bl_high :: "pyfloat option"
  bl_comparable_days :: nat
  bl_confidence :: inc_confidence

text \<open>The day of an instant and the minute of its day, in UTC.\<close>

definition day_of :: "int \<Rightarrow> int" where
  "day_of us = us div 86400000000"

definition minute_of :: "int \<Rightarrow> int" where
  "minute_of us = us div 60000000 mod 1440"

text \<open>The points of the history that count for the time of day, collected by day in the order of the days' first points.\<close>

definition comparable :: "incident_policy \<Rightarrow> int \<Rightarrow> (string \<Rightarrow> int option) \<Rightarrow> string \<times> metric_value \<Rightarrow> (int \<times> pyfloat) option" where
  "comparable policy now parse_time point =
    (case (parse_time (fst point), snd point) of
       (Some t, MvNumber x) \<Rightarrow>
         if day_of t = day_of now then None
         else if \<bar>minute_of t - minute_of now\<bar> > production_baseline_window_minutes policy then None
         else Some (day_of t, x)
     | _ \<Rightarrow> None)"

definition by_day :: "(int \<times> pyfloat) list \<Rightarrow> (int \<times> pyfloat list) list" where
  "by_day points = fold (\<lambda>(d, x) m. AList.update d ((case map_of m d of Some xs \<Rightarrow> xs | None \<Rightarrow> []) @ [x]) m) points []"

definition solar_baseline ::
  "incident_policy \<Rightarrow> int \<Rightarrow> (string \<Rightarrow> int option) \<Rightarrow> metric_value \<Rightarrow> (string \<times> metric_value) list \<Rightarrow> baseline res" where
  "solar_baseline policy now parse_time current_value points =
    (let current = (case current_value of MvNumber x \<Rightarrow> Some x | _ \<Rightarrow> None) in
     rbind (rmap (\<lambda>(d, xs). fmean xs) (by_day (List.map_filter (comparable policy now parse_time) points))) (\<lambda>daily_values.
     rbind (percentile daily_values (fl (10 / 100))) (\<lambda>low.
     rbind (percentile daily_values (fl (50 / 100))) (\<lambda>mid.
     rbind (percentile daily_values (fl (90 / 100))) (\<lambda>high.
     let ready = (current \<noteq> None \<and> mid \<noteq> None \<and> production_min_comparable_days policy \<le> length daily_values) in
     Inr \<lparr>bl_ready = ready, bl_current = current, bl_low = low, bl_median = mid, bl_high = high,
       bl_comparable_days = length daily_values,
       bl_confidence = (if 5 \<le> length daily_values then ConfHigh else if ready then ConfMedium else ConfLow)\<rparr>)))))"

text \<open>\<open>low or median\<close>: a low of zero counts as missing.\<close>

definition low_or_median :: "pyfloat option \<Rightarrow> pyfloat \<Rightarrow> pyfloat" where
  "low_or_median low mid = (case low of Some x \<Rightarrow> if feq x (Fin 0) then mid else x | None \<Rightarrow> mid)"

definition production_trigger :: "incident_policy \<Rightarrow> pyfloat option \<Rightarrow> pyfloat \<Rightarrow> pyfloat" where
  "production_trigger policy low mid =
    fmin (fmul mid (production_warning_fraction policy)) (fmul (low_or_median low mid) (fl (75 / 100)))"

definition solar_finding :: "incident_policy \<Rightarrow> string \<Rightarrow> baseline \<Rightarrow> (finding option \<times> string option) res" where
  "solar_finding policy system_uid b =
    (let key = detector_key ''solar_underproduction'' system_uid in
     if \<not> bl_ready b then Inr (None, None)
     else
       (case (bl_current b, bl_median b) of
          (Some current, Some mid) \<Rightarrow>
            (if flt mid (production_min_expected_w policy) then Inr (None, Some key)
             else if fle (production_trigger policy (bl_low b) mid) current then Inr (None, Some key)
             else
               rbind (fdiv current mid) (\<lambda>ratio.
               let deviation = fmul (fsub ratio (Fin 1)) (Fin 100) in
               Inr (Some ((new_finding ''solar_underproduction'' key Production
                 (if flt current (fmul mid (production_critical_fraction policy)) then SevCritical else SevWarning)
                 (if 5 \<le> bl_comparable_days b then ConfHigh else ConfMedium)
                 ''Solar production below historical baseline''
                 (''Current site solar input is '' @ fmt_fixed 0 (fabs deviation) @ ''% below the time-of-day historical median.''))
                 \<lparr>fd_observed_value := Some current, fd_expected_low := bl_low b, fd_expected_high := bl_high b, fd_unit := Some ''W'',
                  fd_evidence := [Evidence ''current_solar_input'' ''Current normalized site solar input power.'' (EvNumber current) (Some ''W'') ''system-latest'',
                    Evidence ''historical_median'' ''Median from comparable UTC time windows on prior days.'' (EvNumber mid) (Some ''W'') ''system-history'',
                    Evidence ''comparable_days'' ''Prior days contributing to the local baseline.'' (EvInt (int (bl_comparable_days b))) None ''system-history'']\<rparr>),
                 Some key)))
        | _ \<Rightarrow> Inr (None, Some key)))"

section \<open>One scan\<close>

record controller_evidence =
  ce_uid :: string
  ce_status :: "string option"
  ce_sample :: "snapshot option"
  ce_polling :: "perf_summary option"
  ce_cycle :: cycle_summary
  ce_coverage :: "coverage option"

definition results_of :: "(finding option \<times> string option) list \<Rightarrow> finding list \<times> string list" where
  "results_of rs = (List.map_filter fst rs, List.map_filter snd rs)"

definition evaluate_controller :: "incident_policy \<Rightarrow> controller_evidence \<Rightarrow> (finding list \<times> string list) res" where
  "evaluate_controller policy e =
    (let uid = ce_uid e;
         offline = (offline_finding uid (ce_status e), Some (detector_key ''controller_offline'' uid)) in
     (case ce_sample e of
        None \<Rightarrow> Inr (results_of [offline])
      | Some sample \<Rightarrow>
        rbind (efficiency_finding policy uid sample) (\<lambda>efficiency.
          Inr (results_of ([offline, sense_finding policy uid sample, efficiency] @
            map (status_finding uid sample) status_definitions @
            [polling_finding policy uid (ce_polling e), charge_cycle_finding policy uid (ce_cycle e),
             coverage_finding policy uid (ce_coverage e)])))))"

definition evaluate_system ::
  "incident_policy \<Rightarrow> string \<Rightarrow> controller_evidence list \<Rightarrow> baseline res \<Rightarrow> (finding list \<times> string list) res" where
  "evaluate_system policy system_uid evidence solar =
    rbind (rmap (evaluate_controller policy) evidence) (\<lambda>rs.
    rbind solar (\<lambda>b.
    rbind (solar_finding policy system_uid b) (\<lambda>s.
      Inr (concat (map fst rs) @ fst (results_of [s]), concat (map snd rs) @ snd (results_of [s])))))"

datatype scan_error = EvaluationError py_error | StoreError sqlite_error

definition scan ::
  "(nat \<Rightarrow> string) \<Rightarrow> incident_policy \<Rightarrow> string \<Rightarrow> string \<Rightarrow> controller_evidence list \<Rightarrow> baseline res \<Rightarrow> incident_table \<Rightarrow>
   incident_table \<times> (scan_error + transition list)" where
  "scan fresh policy system_uid now evidence solar t =
    (case evaluate_system policy system_uid evidence solar of
       Inl e \<Rightarrow> (t, Inl (EvaluationError e))
     | Inr (findings, evaluated) \<Rightarrow>
       (case reconcile fresh system_uid now findings (set evaluated) t of
          (t', Inl e) \<Rightarrow> (t', Inl (StoreError e))
        | (t', Inr trs) \<Rightarrow> (t', Inr trs)))"

section \<open>Health score\<close>

fun penalty :: "inc_severity \<Rightarrow> int" where
  "penalty SevInfo = 2"
| "penalty SevWarning = 8"
| "penalty SevCritical = 20"

definition start_scores :: "(inc_category \<times> int) list" where
  "start_scores = [(Production, 20), (Charging, 20), (Battery, 20), (Communications, 20), (DataIntegrity, 20)]"

definition apply_penalty :: "incident \<Rightarrow> (inc_category \<times> int) list \<Rightarrow> (inc_category \<times> int) list" where
  "apply_penalty r scores = map (\<lambda>(c, s). if c = fd_category (in_finding r) then (c, max 0 (s - penalty (fd_severity (in_finding r)))) else (c, s)) scores"

datatype score_status = ScoreGood | ScoreWarning | ScoreCritical

record health_score =
  hs_score :: int
  hs_status :: score_status
  hs_components :: "(inc_category \<times> int) list"
  hs_active :: nat

definition health_score_of :: "incident list \<Rightarrow> health_score" where
  "health_score_of incidents =
    (let scores = fold apply_penalty incidents start_scores; score = sum_list (map snd scores) in
     \<lparr>hs_score = score, hs_status = (if 85 \<le> score then ScoreGood else if 60 \<le> score then ScoreWarning else ScoreCritical),
      hs_components = scores, hs_active = length incidents\<rparr>)"

definition system_health_score :: "string \<Rightarrow> string option \<Rightarrow> incident_table \<Rightarrow> health_score" where
  "system_health_score system_uid controller_uid t =
    health_score_of (list_incidents (Some system_uid) controller_uid (Some Active) None 1000 t)"

end
