(* ===== verification/Incident_Facts.thy ===== *)
theory Incident_Facts
  imports Incident_Store
begin

text \<open>
  A scan of one system does to every row what \<open>scanned\<close> says and appends a row for each new finding.  It is
  the reference for the loops of \<open>reconcile\<close>; what holds of the table over any number of scans follows.
\<close>

section \<open>The table\<close>

definition table_ok :: "incident_table \<Rightarrow> bool" where
  "table_ok t \<longleftrightarrow> distinct (map in_uid t) \<and> distinct (map in_fingerprint (filter (\<lambda>r. in_state r = Active) t)) \<and>
     (\<forall>r \<in> set t. (in_state r = Resolved \<longleftrightarrow> in_resolved_at r \<noteq> None) \<and> 1 \<le> in_occurrence_count r)"

definition scanned :: "string \<Rightarrow> string \<Rightarrow> finding list \<Rightarrow> string set \<Rightarrow> incident \<Rightarrow> incident" where
  "scanned sys ts fs evaluated r =
    (if \<not> active_in sys r then r
     else case List.find (\<lambda>f. fd_fingerprint f = in_fingerprint r) fs of
       Some f \<Rightarrow> observe_again ts f r
     | None \<Rightarrow> if fd_evaluation_key (in_finding r) \<in> evaluated then resolve_incident ts r else r)"

definition unknown_findings :: "string \<Rightarrow> incident_table \<Rightarrow> finding list \<Rightarrow> finding list" where
  "unknown_findings sys t fs = filter (\<lambda>f. fd_fingerprint f \<notin> in_fingerprint ` set (filter (active_in sys) t)) fs"

definition opened :: "(nat \<Rightarrow> string) \<Rightarrow> string \<Rightarrow> string \<Rightarrow> nat \<Rightarrow> finding list \<Rightarrow> incident list" where
  "opened fresh sys ts n fs = map (\<lambda>(k, f). new_incident (fresh k) sys ts f) (List.enumerate n fs)"

lemma opened_simps [simp]:
  "opened fresh sys ts n [] = []"
  "opened fresh sys ts n (f # fs) = new_incident (fresh n) sys ts f # opened fresh sys ts (Suc n) fs"
  by (simp_all add: opened_def)

lemma opened_mem:
  "r \<in> set (opened fresh sys ts n fs) \<Longrightarrow>
    (\<exists>k \<ge> n. in_uid r = fresh k) \<and> in_state r = Active \<and> in_system_uid r = sys \<and> in_finding r \<in> set fs \<and>
    in_resolved_at r = None \<and> in_occurrence_count r = 1"
proof (induction fs arbitrary: n)
  case (Cons f fs)
  show ?case
  proof (cases "r \<in> set (opened fresh sys ts (Suc n) fs)")
    case True
    then have tail: "(\<exists>k \<ge> Suc n. in_uid r = fresh k) \<and> in_state r = Active \<and> in_system_uid r = sys \<and> in_finding r \<in> set fs \<and>
      in_resolved_at r = None \<and> in_occurrence_count r = 1" by (rule Cons.IH)
    then show ?thesis by (meson Suc_leD list.set_intros(2))
  next
    case False
    then have "r = new_incident (fresh n) sys ts f" using Cons.prems by simp
    then show ?thesis by (auto simp: new_incident_def)
  qed
qed simp

lemma opened_distinct:
  assumes "inj fresh" "distinct (map fd_fingerprint fs)"
  shows "distinct (map in_uid (opened fresh sys ts n fs))" "distinct (map in_fingerprint (opened fresh sys ts n fs))"
proof -
  have u: "map in_uid (opened fresh sys ts n fs) = map fresh [n..<n + length fs]"
    by (induction fs arbitrary: n) (simp_all add: new_incident_def upt_conv_Cons del: upt_Suc)
  show "distinct (map in_uid (opened fresh sys ts n fs))" unfolding u using assms(1) by (simp add: distinct_map inj_on_def inj_def)
  have "map in_fingerprint (opened fresh sys ts n fs) = map fd_fingerprint fs"
    by (induction fs arbitrary: n) (simp_all add: new_incident_def)
  then show "distinct (map in_fingerprint (opened fresh sys ts n fs))" using assms(2) by simp
qed

lemma observe_again_fields [simp]:
  "in_uid (observe_again ts f r) = in_uid r" "in_system_uid (observe_again ts f r) = in_system_uid r"
  "in_fingerprint (observe_again ts f r) = in_fingerprint r" "in_state (observe_again ts f r) = in_state r"
  "fd_evaluation_key (in_finding (observe_again ts f r)) = fd_evaluation_key (in_finding r)"
  "in_resolved_at (observe_again ts f r) = in_resolved_at r"
  "in_occurrence_count (observe_again ts f r) = in_occurrence_count r + 1"
  "active_in sys (observe_again ts f r) = active_in sys r"
  by (simp_all add: observe_again_def active_in_def)

lemma resolve_incident_fields [simp]:
  "in_uid (resolve_incident ts r) = in_uid r" "in_system_uid (resolve_incident ts r) = in_system_uid r"
  "in_finding (resolve_incident ts r) = in_finding r" "in_state (resolve_incident ts r) = Resolved"
  "in_resolved_at (resolve_incident ts r) = Some ts" "in_occurrence_count (resolve_incident ts r) = in_occurrence_count r"
  by (simp_all add: resolve_incident_def)

lemma new_incident_fields [simp]:
  "in_uid (new_incident uid sys ts f) = uid" "in_system_uid (new_incident uid sys ts f) = sys"
  "in_finding (new_incident uid sys ts f) = f" "in_state (new_incident uid sys ts f) = Active"
  "in_resolved_at (new_incident uid sys ts f) = None" "in_occurrence_count (new_incident uid sys ts f) = 1"
  "active_in sys' (new_incident uid sys ts f) \<longleftrightarrow> sys' = sys"
  by (auto simp: new_incident_def active_in_def)

section \<open>The snapshot of the active rows\<close>

lemma map_of_fold_update:
  "distinct (map k rs) \<Longrightarrow> map_of (fold (\<lambda>r. AList.update (k r) r) rs m) x = Some r \<longleftrightarrow>
     (r \<in> set rs \<and> k r = x) \<or> (x \<notin> k ` set rs \<and> map_of m x = Some r)"
proof (induction rs arbitrary: m)
  case (Cons a rs)
  then show ?case by (auto simp: update_conv')
qed simp

lemma distinct_active_in:
  "distinct (map in_fingerprint (filter (\<lambda>r. in_state r = Active) t)) \<Longrightarrow> distinct (map in_fingerprint (filter (active_in sys) t))"
  using distinct_map_filter [of in_fingerprint "filter (\<lambda>r. in_state r = Active) t" "\<lambda>r. in_system_uid r = sys"]
  by (simp add: active_in_def [abs_def] conj_commute)

lemma map_of_active_rows:
  assumes "distinct (map in_fingerprint (filter (\<lambda>r. in_state r = Active) t))"
  shows "map_of (active_rows sys t) x = Some r \<longleftrightarrow> r \<in> set t \<and> active_in sys r \<and> in_fingerprint r = x"
  using map_of_fold_update [OF distinct_active_in [OF assms, of sys], of "[]" x r]
  by (auto simp: active_rows_def)

lemma map_of_active_rows_None:
  assumes "distinct (map in_fingerprint (filter (\<lambda>r. in_state r = Active) t))"
  shows "map_of (active_rows sys t) x = None \<longleftrightarrow> x \<notin> in_fingerprint ` set (filter (active_in sys) t)"
proof -
  have "map_of (active_rows sys t) x \<noteq> None \<longleftrightarrow> (\<exists>r. r \<in> set t \<and> active_in sys r \<and> in_fingerprint r = x)"
    using map_of_active_rows [OF assms, of sys x] by auto
  then show ?thesis by auto
qed

lemma distinct_active_rows: "distinct (map fst (active_rows sys t))"
proof -
  have "distinct (map fst m) \<Longrightarrow> distinct (map fst (fold (\<lambda>r. AList.update (in_fingerprint r) r) rs m))" for rs m
    by (induction rs arbitrary: m) (simp_all add: distinct_update)
  then show ?thesis by (simp add: active_rows_def)
qed

section \<open>The transitions\<close>

definition label :: "transition \<Rightarrow> transition_kind \<times> string" where
  "label tr = (fst tr, in_uid (snd tr))"

lemma transition_label: "uid \<in> in_uid ` set t \<Longrightarrow> map label (transition_of kind uid t) = [(kind, uid)]"
proof -
  assume "uid \<in> in_uid ` set t"
  then have "select_uid uid t \<noteq> None" unfolding select_uid_def find_None_iff by blast
  then obtain r where "select_uid uid t = Some r" by blast
  moreover from this have "in_uid r = uid" by (auto simp: select_uid_def find_Some_iff)
  ultimately show ?thesis by (simp add: transition_of_def label_def)
qed

lemma update_where_uids: "(\<And>r. in_uid (g r) = in_uid r) \<Longrightarrow> in_uid ` set (update_where p g t) = in_uid ` set t"
  unfolding update_where_def set_map image_image by (rule image_cong) simp_all

text \<open>What a scan reports: each finding that opens an incident, and each that changes one.\<close>

fun finding_labels :: "(nat \<Rightarrow> string) \<Rightarrow> (string \<rightharpoonup> incident) \<Rightarrow> nat \<Rightarrow> finding list \<Rightarrow> (transition_kind \<times> string) list" where
  "finding_labels fresh A n [] = []"
| "finding_labels fresh A n (f # fs) =
    (case A (fd_fingerprint f) of
       None \<Rightarrow> (Opened, fresh n) # finding_labels fresh A (Suc n) fs
     | Some previous \<Rightarrow> (if changed previous f then [(Updated, in_uid previous)] else []) @ finding_labels fresh A n fs)"

definition resolved_labels :: "string set \<Rightarrow> string set \<Rightarrow> (string \<times> incident) list \<Rightarrow> (transition_kind \<times> string) list" where
  "resolved_labels present evaluated rows = map (\<lambda>(fp, row). (ResolvedTransition, in_uid row))
     (filter (\<lambda>(fp, row). fp \<notin> present \<and> fd_evaluation_key (in_finding row) \<in> evaluated) rows)"

section \<open>The loops\<close>

text \<open>What the loop over the findings relies on: identifiers still to come are new, the snapshot names the
  rows that are active in the system, and a remaining finding whose fingerprint is active is in it.\<close>

type_synonym row_key = "string \<times> string \<times> bool \<times> string"

definition view :: "incident \<Rightarrow> row_key" where
  "view r = (in_uid r, in_fingerprint r, in_state r = Active, in_system_uid r)"

definition view_uids :: "row_key list \<Rightarrow> string list" where
  "view_uids vs = map fst vs"

definition view_active :: "row_key list \<Rightarrow> string list" where
  "view_active vs = map (\<lambda>(u, fp, a, s). fp) (filter (\<lambda>(u, fp, a, s). a) vs)"

definition loop_ok :: "(nat \<Rightarrow> string) \<Rightarrow> string \<Rightarrow> (string \<rightharpoonup> incident) \<Rightarrow> nat \<Rightarrow> finding list \<Rightarrow> row_key list \<Rightarrow> bool" where
  "loop_ok fresh sys A n fs vs \<longleftrightarrow> inj fresh \<and> distinct (view_uids vs) \<and> (\<forall>k \<ge> n. fresh k \<notin> set (view_uids vs)) \<and>
     distinct (view_active vs) \<and> distinct (map fd_fingerprint fs) \<and>
     (\<forall>f \<in> set fs. case A (fd_fingerprint f) of
        None \<Rightarrow> fd_fingerprint f \<notin> set (view_active vs)
      | Some row \<Rightarrow> (in_uid row, fd_fingerprint f, True, sys) \<in> set vs)"

lemma view_rows:
  "view_uids (map view t) = map in_uid t" "view_active (map view t) = map in_fingerprint (filter (\<lambda>r. in_state r = Active) t)"
  by (induction t) (simp_all add: view_uids_def view_active_def view_def)

lemma view_uids_append: "view_uids (vs @ ws) = view_uids vs @ view_uids ws" "view_active (vs @ ws) = view_active vs @ view_active ws"
  by (simp_all add: view_uids_def view_active_def)

lemma loop_ok_insert:
  assumes "loop_ok fresh sys A n (f # fs) vs" "A (fd_fingerprint f) = None"
  shows "loop_ok fresh sys A (Suc n) fs (vs @ [(fresh n, fd_fingerprint f, True, sys)])"
proof -
  have v: "view_uids [(fresh n, fd_fingerprint f, True, sys)] = [fresh n]"
    "view_active [(fresh n, fd_fingerprint f, True, sys)] = [fd_fingerprint f]" by (simp_all add: view_uids_def view_active_def)
  have k: "\<forall>k \<ge> Suc n. fresh k \<noteq> fresh n" using assms(1) by (auto simp: loop_ok_def dest: injD)
  have "fd_fingerprint f \<notin> fd_fingerprint ` set fs" using assms(1) by (simp add: loop_ok_def)
  then have "\<forall>g \<in> set fs. fd_fingerprint g \<noteq> fd_fingerprint f" by (metis imageI)
  then show ?thesis using assms k by (auto simp: loop_ok_def view_uids_append v split: option.splits)
qed

definition observed :: "string \<Rightarrow> string \<Rightarrow> finding list \<Rightarrow> incident \<Rightarrow> incident" where
  "observed sys ts fs r = (if \<not> active_in sys r then r
     else case List.find (\<lambda>f. fd_fingerprint f = in_fingerprint r) fs of Some f \<Rightarrow> observe_again ts f r | None \<Rightarrow> r)"

lemma observed_fields [simp]:
  "in_uid (observed sys ts fs r) = in_uid r" "in_fingerprint (observed sys ts fs r) = in_fingerprint r"
  "in_state (observed sys ts fs r) = in_state r" "active_in s (observed sys ts fs r) = active_in s r"
  "fd_evaluation_key (in_finding (observed sys ts fs r)) = fd_evaluation_key (in_finding r)"
  by (simp_all add: observed_def split: option.split)

lemma observed_other: "in_fingerprint r \<notin> fd_fingerprint ` set fs \<Longrightarrow> observed sys ts fs r = r"
proof -
  assume "in_fingerprint r \<notin> fd_fingerprint ` set fs"
  then have "List.find (\<lambda>f. fd_fingerprint f = in_fingerprint r) fs = None" unfolding find_None_iff by (metis imageI)
  then show ?thesis by (simp add: observed_def)
qed

lemma update_by_uid:
  assumes "distinct (map in_uid t)" "distinct (map in_fingerprint (filter (\<lambda>r. in_state r = Active) t))"
    "row \<in> set t" "active_in sys row" "in_fingerprint row = fp"
  shows "update_where (\<lambda>r. in_uid r = in_uid row) g t = map (\<lambda>r. if active_in sys r \<and> in_fingerprint r = fp then g r else r) t"
proof -
  have "in_uid r = in_uid row \<longleftrightarrow> active_in sys r \<and> in_fingerprint r = fp" if "r \<in> set t" for r
  proof
    assume "in_uid r = in_uid row"
    then have "r = row" using assms(1,3) that by (auto simp: distinct_map inj_on_def)
    then show "active_in sys r \<and> in_fingerprint r = fp" using assms(4,5) by simp
  next
    assume "active_in sys r \<and> in_fingerprint r = fp"
    then have "r = row" using assms(2,3,4,5) that by (auto simp: distinct_map inj_on_def active_in_def)
    then show "in_uid r = in_uid row" by simp
  qed
  then show ?thesis by (simp add: update_where_def)
qed

lemma apply_findings_exact:
  assumes "loop_ok fresh sys A n fs (map view t)" "map_of active = A"
  shows "\<exists>trs. apply_findings fresh sys ts active n fs t =
    Inr (map (observed sys ts fs) t @ opened fresh sys ts n (filter (\<lambda>f. A (fd_fingerprint f) = None) fs), trs) \<and>
    map label trs = finding_labels fresh A n fs"
  using assms(1)
proof (induction fs arbitrary: n t)
  case Nil
  have "map (observed sys ts []) t = t" by (rule map_idI) (simp add: observed_other)
  then show ?case by simp
next
  case (Cons f fs)
  note ok = Cons.prems [unfolded loop_ok_def view_rows]
  let ?fp = "fd_fingerprint f"
  have f: "?fp \<notin> fd_fingerprint ` set fs" using ok by simp
  show ?case
  proof (cases "A ?fp")
    case None
    let ?row = "new_incident (fresh n) sys ts f"
    have new: "?fp \<notin> in_fingerprint ` set (filter (\<lambda>r. in_state r = Active) t)" "fresh n \<notin> in_uid ` set t"
      using ok None by auto
    have ins: "insert_incident ?row t = Inr (t @ [?row])" using new by (auto simp: insert_incident_def)
    have "loop_ok fresh sys A (Suc n) fs (map view (t @ [?row]))"
      using loop_ok_insert [OF Cons.prems None] by (simp add: view_def [of ?row])
    from Cons.IH [OF this] obtain trs where
      ih: "apply_findings fresh sys ts active (Suc n) fs (t @ [?row]) =
        Inr (map (observed sys ts fs) (t @ [?row]) @ opened fresh sys ts (Suc n) (filter (\<lambda>f. A (fd_fingerprint f) = None) fs), trs)"
      and lb: "map label trs = finding_labels fresh A (Suc n) fs"
      by blast
    have tl: "map label (transition_of Opened (fresh n) (t @ [?row])) = [(Opened, fresh n)]" by (rule transition_label) simp
    have "observed sys ts fs ?row = ?row" using f by (simp add: observed_other)
    moreover have "map (observed sys ts fs) t = map (observed sys ts (f # fs)) t"
    proof (rule map_cong [OF refl])
      fix r assume r: "r \<in> set t"
      have "\<not> (active_in sys r \<and> in_fingerprint r = ?fp)" using new(1) r by (auto simp: active_in_def image_iff)
      then show "observed sys ts fs r = observed sys ts (f # fs) r" by (auto simp: observed_def)
    qed
    ultimately show ?thesis using ih lb tl None by (simp add: assms(2) ins)
  next
    case (Some previous)
    then obtain row where row: "row \<in> set t" "active_in sys row" "in_fingerprint row = ?fp" "in_uid row = in_uid previous"
      using ok by (auto simp: view_def active_in_def)
    let ?t = "map (\<lambda>r. if active_in sys r \<and> in_fingerprint r = ?fp then observe_again ts f r else r) t"
    have upd: "update_where (\<lambda>r. in_uid r = in_uid previous) (observe_again ts f) t = ?t"
      using update_by_uid [of t row sys ?fp "observe_again ts f"] ok row by simp
    have fn: "List.find (\<lambda>g. fd_fingerprint g = ?fp) fs = None" unfolding find_None_iff using f by (metis imageI)
    have v: "map view ?t = map view t" by (simp add: view_def observe_again_def)
    have "loop_ok fresh sys A n fs (map view t)" using Cons.prems by (simp add: loop_ok_def)
    then have "loop_ok fresh sys A n fs (map view ?t)" unfolding v .
    from Cons.IH [OF this] obtain trs where
      ih: "apply_findings fresh sys ts active n fs ?t =
        Inr (map (observed sys ts fs) ?t @ opened fresh sys ts n (filter (\<lambda>f. A (fd_fingerprint f) = None) fs), trs)"
      and lb: "map label trs = finding_labels fresh A n fs"
      by blast
    have tl: "map label (transition_of Updated (in_uid previous) ?t) = [(Updated, in_uid previous)]"
    proof (rule transition_label)
      have "in_uid row \<in> in_uid ` set (update_where (\<lambda>r. in_uid r = in_uid previous) (observe_again ts f) t)"
        unfolding update_where_uids [of "observe_again ts f", OF observe_again_fields(1)] using row(1) by (rule imageI)
      then show "in_uid previous \<in> in_uid ` set ?t" unfolding upd row(4) .
    qed
    have "map (observed sys ts fs) ?t = map (observed sys ts (f # fs)) t"
      by (auto simp: observed_def fn)
    then show ?thesis using ih lb tl Some by (simp add: assms(2) upd Let_def)
  qed
qed

lemma resolve_absent_exact:
  assumes "\<forall>(fp, row) \<in> set rows. in_uid row \<in> in_uid ` set t"
  shows "\<exists>trs. resolve_absent ts present evaluated rows t =
    (map (\<lambda>r. if in_state r = Active \<and> (\<exists>(fp, row) \<in> set rows. in_uid row = in_uid r \<and> fp \<notin> present \<and>
         fd_evaluation_key (in_finding row) \<in> evaluated) then resolve_incident ts r else r) t, trs) \<and>
    map label trs = resolved_labels present evaluated rows"
  using assms
proof (induction rows arbitrary: t)
  case Nil
  then show ?case by (simp add: map_idI resolved_labels_def)
next
  case (Cons x rows)
  obtain fp row where x: "x = (fp, row)" by fastforce
  show ?case
  proof (cases "fp \<in> present \<or> fd_evaluation_key (in_finding row) \<notin> evaluated")
    case True
    then show ?thesis using Cons.IH [of t] Cons.prems by (auto simp: x resolved_labels_def)
  next
    case False
    let ?t = "update_where (\<lambda>r. in_uid r = in_uid row \<and> in_state r = Active) (resolve_incident ts) t"
    have uids: "in_uid ` set ?t = in_uid ` set t" by (rule update_where_uids) simp
    have tl: "map label (transition_of ResolvedTransition (in_uid row) ?t) = [(ResolvedTransition, in_uid row)]"
      by (rule transition_label) (use Cons.prems uids in \<open>auto simp: x\<close>)
    obtain trs where ih: "resolve_absent ts present evaluated rows ?t =
      (map (\<lambda>r. if in_state r = Active \<and> (\<exists>(fp, row) \<in> set rows. in_uid row = in_uid r \<and> fp \<notin> present \<and>
         fd_evaluation_key (in_finding row) \<in> evaluated) then resolve_incident ts r else r) ?t, trs)"
      and lb: "map label trs = resolved_labels present evaluated rows"
      using Cons.IH [of ?t] Cons.prems uids by auto
    show ?thesis using False ih tl lb by (auto simp: x Let_def update_where_def resolved_labels_def)
  qed
qed

text \<open>A finding whose fingerprint is active in another system: the unique index spans all systems.\<close>

definition foreign :: "string \<Rightarrow> finding list \<Rightarrow> incident_table \<Rightarrow> bool" where
  "foreign sys fs t \<longleftrightarrow> (\<exists>r \<in> set t. in_state r = Active \<and> in_system_uid r \<noteq> sys \<and> in_fingerprint r \<in> fd_fingerprint ` set fs)"

lemma loop_ok_start:
  assumes "table_ok t" "distinct (map fd_fingerprint fs)" "inj fresh" "\<forall>k. fresh k \<notin> in_uid ` set t" "\<not> foreign sys fs t"
  shows "loop_ok fresh sys (map_of (active_rows sys t)) 0 fs (map view t)"
proof -
  have d: "distinct (map in_fingerprint (filter (\<lambda>r. in_state r = Active) t))" using assms(1) by (simp add: table_ok_def)
  have "case map_of (active_rows sys t) (fd_fingerprint f) of
      None \<Rightarrow> fd_fingerprint f \<notin> set (view_active (map view t))
    | Some row \<Rightarrow> (in_uid row, fd_fingerprint f, True, sys) \<in> set (map view t)" if f: "f \<in> set fs" for f
  proof (cases "map_of (active_rows sys t) (fd_fingerprint f)")
    case None
    have "fd_fingerprint f \<noteq> in_fingerprint r" if r: "r \<in> set t" "in_state r = Active" for r
    proof (cases "in_system_uid r = sys")
      case True
      then show ?thesis using None r map_of_active_rows_None [OF d] by (auto simp: active_in_def image_iff)
    next
      case False
      then show ?thesis using assms(5) r f by (metis foreign_def imageI)
    qed
    then show ?thesis unfolding view_rows using None by auto
  next
    case (Some row)
    then have "row \<in> set t \<and> active_in sys row \<and> in_fingerprint row = fd_fingerprint f" using map_of_active_rows [OF d] by blast
    then show ?thesis using Some by (auto simp: view_def active_in_def image_iff intro!: bexI [of _ row])
  qed
  then show ?thesis using assms(1-4) d unfolding loop_ok_def view_rows by (auto simp: table_ok_def)
qed

lemma active_update_where:
  "in_fingerprint ` {r \<in> set t. in_state r = Active} \<subseteq>
   in_fingerprint ` {r \<in> set (update_where p (observe_again ts f) t). in_state r = Active}"
proof
  fix x assume "x \<in> in_fingerprint ` {r \<in> set t. in_state r = Active}"
  then obtain r where r: "r \<in> set t" "in_state r = Active" "x = in_fingerprint r" by auto
  let ?r = "if p r then observe_again ts f r else r"
  have "?r \<in> set (update_where p (observe_again ts f) t)" using r(1) by (auto simp: update_where_def)
  moreover have "in_state ?r = Active" and x: "x = in_fingerprint ?r" using r by simp_all
  ultimately have "?r \<in> {r \<in> set (update_where p (observe_again ts f) t). in_state r = Active}" by blast
  with x show "x \<in> in_fingerprint ` {r \<in> set (update_where p (observe_again ts f) t). in_state r = Active}" by (rule image_eqI)
qed

lemma apply_findings_foreign:
  assumes "g \<in> set fs" "map_of active (fd_fingerprint g) = None"
    "fd_fingerprint g \<in> in_fingerprint ` {r \<in> set t. in_state r = Active}"
  shows "apply_findings fresh sys ts active n fs t = Inl IntegrityError"
  using assms
proof (induction fs arbitrary: n t)
  case (Cons f fs)
  show ?case
  proof (cases "map_of active (fd_fingerprint f)")
    case None
    let ?row = "new_incident (fresh n) sys ts f"
    show ?thesis
    proof (cases "insert_incident ?row t")
      case (Inl e)
      then show ?thesis using None by (cases e) simp
    next
      case (Inr t')
      then have t': "t' = t @ [?row]" "fd_fingerprint f \<notin> in_fingerprint ` {r \<in> set t. in_state r = Active}"
        by (auto simp: insert_incident_def split: if_splits)
      then have "g \<in> set fs" using Cons.prems(1,3) by auto
      moreover have "fd_fingerprint g \<in> in_fingerprint ` {r \<in> set t'. in_state r = Active}" using Cons.prems(3) t'(1) by auto
      ultimately show ?thesis using Cons.IH Cons.prems(2) None Inr by simp
    qed
  next
    case (Some previous)
    then have "g \<in> set fs" using Cons.prems(1,2) by auto
    moreover have "fd_fingerprint g \<in> in_fingerprint `
        {r \<in> set (update_where (\<lambda>r. in_uid r = in_uid previous) (observe_again ts f) t). in_state r = Active}"
      using Cons.prems(3) active_update_where by blast
    ultimately show ?thesis using Cons.IH Cons.prems(2) Some by (simp add: Let_def)
  qed
qed simp

lemma reconcile_foreign:
  assumes "table_ok t" "foreign sys fs t"
  shows "reconcile fresh sys ts fs evaluated t = (t, Inl IntegrityError)"
proof -
  have d: "distinct (map in_fingerprint (filter (\<lambda>r. in_state r = Active) t))" using assms(1) by (simp add: table_ok_def)
  obtain r g where r: "r \<in> set t" "in_state r = Active" "in_system_uid r \<noteq> sys" and g: "g \<in> set fs" "fd_fingerprint g = in_fingerprint r"
    using assms(2) unfolding foreign_def by (metis imageE)
  have "map_of (active_rows sys t) (fd_fingerprint g) = None"
  proof (rule ccontr)
    assume "map_of (active_rows sys t) (fd_fingerprint g) \<noteq> None"
    then obtain r' where r': "r' \<in> set t" "active_in sys r'" "in_fingerprint r' = in_fingerprint r"
      using map_of_active_rows [OF d] g(2) by auto
    then have "r' = r" using d r by (auto simp: distinct_map inj_on_def active_in_def)
    then show False using r r' by (simp add: active_in_def)
  qed
  then have "apply_findings fresh sys ts (active_rows sys t) 0 fs t = Inl IntegrityError"
    using apply_findings_foreign [OF g(1)] r(1,2) g(2) by auto
  then show ?thesis by (simp add: reconcile_def Let_def)
qed

lemma reconcile_domestic:
  assumes "table_ok t" "distinct (map fd_fingerprint fs)" "inj fresh" "\<forall>k. fresh k \<notin> in_uid ` set t" "\<not> foreign sys fs t"
  shows "\<exists>trs. reconcile fresh sys ts fs evaluated t =
    (map (scanned sys ts fs evaluated) t @ opened fresh sys ts 0 (unknown_findings sys t fs), Inr trs) \<and>
    map label trs = finding_labels fresh (map_of (active_rows sys t)) 0 fs @
      resolved_labels (fd_fingerprint ` set fs) evaluated (active_rows sys t)"
proof -
  have d: "distinct (map in_fingerprint (filter (\<lambda>r. in_state r = Active) t))" using assms(1) by (simp add: table_ok_def)
  let ?A = "active_rows sys t" and ?P = "set (map fd_fingerprint fs)"
  let ?O = "opened fresh sys ts 0 (unknown_findings sys t fs)"
  have u: "filter (\<lambda>f. map_of ?A (fd_fingerprint f) = None) fs = unknown_findings sys t fs"
    unfolding unknown_findings_def map_of_active_rows_None [OF d] ..
  obtain trs where a: "apply_findings fresh sys ts ?A 0 fs t = Inr (map (observed sys ts fs) t @ ?O, trs)"
    and la: "map label trs = finding_labels fresh (map_of ?A) 0 fs"
    using apply_findings_exact [OF loop_ok_start [OF assms] refl] unfolding u by blast
  let ?res = "\<lambda>r. if in_state r = Active \<and> (\<exists>(fp, row) \<in> set ?A. in_uid row = in_uid r \<and> fp \<notin> ?P \<and>
         fd_evaluation_key (in_finding row) \<in> evaluated) then resolve_incident ts r else r"
  have mem: "(fp, row) \<in> set ?A \<longleftrightarrow> row \<in> set t \<and> active_in sys row \<and> in_fingerprint row = fp" for fp row
    using map_of_active_rows [OF d, of sys fp row] distinct_active_rows [of sys t] by simp
  have uids: "in_uid ` set (map (observed sys ts fs) t) = in_uid ` set t" unfolding set_map image_image by simp
  have rows: "\<forall>(fp, row) \<in> set ?A. in_uid row \<in> in_uid ` set (map (observed sys ts fs) t @ ?O)"
    unfolding set_append image_Un uids using mem by auto
  obtain trs' where b: "resolve_absent ts ?P evaluated ?A (map (observed sys ts fs) t @ ?O) =
      (map ?res (map (observed sys ts fs) t @ ?O), trs')"
    and lb: "map label trs' = resolved_labels ?P evaluated ?A"
    using resolve_absent_exact [OF rows] by blast
  have uid: "in_uid row = in_uid r \<longleftrightarrow> row = r" if "row \<in> set t" "r \<in> set t" for row r
    using assms(1) that by (auto simp: table_ok_def distinct_map inj_on_def)
  have "?res (observed sys ts fs r) = scanned sys ts fs evaluated r" if r: "r \<in> set t" for r
  proof (cases "active_in sys r")
    case True
    from uid [OF _ r] have e: "(\<exists>(fp, row) \<in> set ?A. in_uid row = in_uid r \<and> fp \<notin> ?P \<and> fd_evaluation_key (in_finding row) \<in> evaluated) \<longleftrightarrow>
        in_fingerprint r \<notin> ?P \<and> fd_evaluation_key (in_finding r) \<in> evaluated"
      using mem True r by auto
    have s: "in_state r = Active" using True by (simp add: active_in_def)
    show ?thesis
    proof (cases "List.find (\<lambda>f. fd_fingerprint f = in_fingerprint r) fs")
      case None
      then have "in_fingerprint r \<notin> ?P" unfolding find_None_iff by (auto simp: image_iff)
      then show ?thesis using None True s e by (simp add: observed_def scanned_def)
    next
      case (Some f)
      then have "in_fingerprint r \<in> ?P" by (auto simp: find_Some_iff image_iff) (metis nth_mem)
      then show ?thesis using Some True s e by (simp add: observed_def scanned_def)
    qed
  next
    case False
    have "\<not> (\<exists>(fp, row) \<in> set ?A. in_uid row = in_uid r)"
      using mem False uid [OF _ r] by auto
    then show ?thesis using False by (auto simp: observed_def scanned_def)
  qed
  moreover have "?res r = r" if "r \<in> set ?O" for r
  proof -
    have "in_uid r \<notin> in_uid ` set t" using opened_mem [OF that] assms(4) by metis
    then have "\<forall>b \<in> set t. in_uid b \<noteq> in_uid r" by (metis imageI)
    then have "\<not> (\<exists>(fp, row) \<in> set ?A. in_uid row = in_uid r)" using mem by auto
    then show ?thesis by auto
  qed
  ultimately have "map ?res (map (observed sys ts fs) t @ ?O) = map (scanned sys ts fs evaluated) t @ ?O"
    by (simp add: map_idI)
  then show ?thesis using a b la lb by (simp add: reconcile_def Let_def)
qed

section \<open>What holds of the table over the scans\<close>

definition fresh_for :: "(nat \<Rightarrow> string) \<Rightarrow> incident_table \<Rightarrow> bool" where
  "fresh_for fresh t \<longleftrightarrow> inj fresh \<and> (\<forall>k. fresh k \<notin> in_uid ` set t)"

inductive scan_step :: "incident_table \<Rightarrow> incident_table \<Rightarrow> bool" where
  "fresh_for fresh t \<Longrightarrow> distinct (map fd_fingerprint fs) \<Longrightarrow> reconcile fresh sys ts fs evaluated t = (t', res) \<Longrightarrow> scan_step t t'"

inductive_cases scan_stepE: "scan_step t t'"

text \<open>What a later state of a row keeps of an earlier one.\<close>

definition continues :: "incident \<Rightarrow> incident \<Rightarrow> bool" where
  "continues r r' \<longleftrightarrow> in_uid r' = in_uid r \<and> in_system_uid r' = in_system_uid r \<and> in_opened_at r' = in_opened_at r \<and>
     in_fingerprint r' = in_fingerprint r \<and> fd_detector (in_finding r') = fd_detector (in_finding r) \<and>
     fd_evaluation_key (in_finding r') = fd_evaluation_key (in_finding r) \<and>
     fd_controller_uid (in_finding r') = fd_controller_uid (in_finding r) \<and>
     in_occurrence_count r \<le> in_occurrence_count r' \<and> (in_state r = Resolved \<longrightarrow> r' = r)"

lemma continues_refl [simp]: "continues r r"
  by (simp add: continues_def)

lemma continues_trans: "continues a b \<Longrightarrow> continues b c \<Longrightarrow> continues a c"
  by (auto simp: continues_def)

lemma continues_scanned: "continues r (scanned sys ts fs evaluated r)"
  by (auto simp: continues_def scanned_def observe_again_def resolve_incident_def active_in_def split: option.split)

lemma scanned_active: "in_state (scanned sys ts fs evaluated r) = Active \<Longrightarrow> in_state r = Active"
  by (cases "in_state r") (auto simp: scanned_def active_in_def)

lemma scanned_keeps [simp]:
  "in_uid (scanned sys ts fs evaluated r) = in_uid r" "in_fingerprint (scanned sys ts fs evaluated r) = in_fingerprint r"
  "in_system_uid (scanned sys ts fs evaluated r) = in_system_uid r"
  using continues_scanned [of r sys ts fs evaluated] by (simp_all add: continues_def)

lemma scanned_row_ok:
  assumes "(in_state r = Resolved \<longleftrightarrow> in_resolved_at r \<noteq> None) \<and> 1 \<le> in_occurrence_count r"
  shows "(in_state (scanned sys ts fs evaluated r) = Resolved \<longleftrightarrow> in_resolved_at (scanned sys ts fs evaluated r) \<noteq> None) \<and>
    1 \<le> in_occurrence_count (scanned sys ts fs evaluated r)"
  using assms by (auto simp: scanned_def split: option.split)

lemma active_of_scanned:
  "distinct (map in_fingerprint (filter (\<lambda>r. in_state r = Active) t)) \<Longrightarrow>
   distinct (map in_fingerprint (filter (\<lambda>r. in_state r = Active) (map (scanned sys ts fs evaluated) t)))"
proof (induction t)
  case (Cons r t)
  have "in_fingerprint ` {r \<in> set (map (scanned sys ts fs evaluated) t). in_state r = Active} \<subseteq> in_fingerprint ` {r \<in> set t. in_state r = Active}"
    by (auto dest: scanned_active)
  then have sub: "in_fingerprint r \<notin> in_fingerprint ` {r \<in> set t. in_state r = Active} \<Longrightarrow>
      in_fingerprint r \<notin> in_fingerprint ` {r \<in> set (map (scanned sys ts fs evaluated) t). in_state r = Active}" by blast
  show ?case
  proof (cases "in_state (scanned sys ts fs evaluated r) = Active")
    case True
    then have "in_state r = Active" by (rule scanned_active)
    then show ?thesis using Cons sub True by simp
  next
    case False
    then show ?thesis using Cons by (simp split: if_splits)
  qed
qed simp

lemma unknown_not_active:
  assumes "\<not> foreign sys fs t" "f \<in> set (unknown_findings sys t fs)" "r \<in> set t" "in_state r = Active"
  shows "in_fingerprint r \<noteq> fd_fingerprint f"
proof (cases "in_system_uid r = sys")
  case True
  then show ?thesis using assms(2-4) by (auto simp: unknown_findings_def active_in_def image_iff)
next
  case False
  moreover have "f \<in> set fs" using assms(2) by (simp add: unknown_findings_def)
  ultimately show ?thesis using assms(1,3,4) by (metis foreign_def imageI)
qed

lemma opened_all_active: "filter (\<lambda>r. in_state r = Active) (opened fresh sys ts n fs) = opened fresh sys ts n fs"
  using opened_mem by (metis (mono_tags, lifting) filter_True)

lemma opened_fingerprints: "in_fingerprint ` set (opened fresh sys ts n fs) = fd_fingerprint ` set fs"
  by (induction fs arbitrary: n) simp_all

lemma table_ok_scanned:
  assumes "table_ok t" "fresh_for fresh t" "distinct (map fd_fingerprint fs)" "\<not> foreign sys fs t"
  shows "table_ok (map (scanned sys ts fs evaluated) t @ opened fresh sys ts 0 (unknown_findings sys t fs))"
proof -
  let ?U = "unknown_findings sys t fs"
  let ?O = "opened fresh sys ts 0 ?U"
  have dU: "distinct (map fd_fingerprint ?U)" using assms(3) unfolding unknown_findings_def by (rule distinct_map_filter)
  have i: "inj fresh" using assms(2) by (simp add: fresh_for_def)
  have u: "in_uid ` set ?O \<inter> in_uid ` set t = {}"
  proof -
    have "in_uid r \<notin> in_uid ` set t" if "r \<in> set ?O" for r using opened_mem [OF that] assms(2) unfolding fresh_for_def by metis
    then show ?thesis by blast
  qed
  have su: "map in_uid (map (scanned sys ts fs evaluated) t) = map in_uid t" by simp
  have f: "set (map in_fingerprint (filter (\<lambda>r. in_state r = Active) (map (scanned sys ts fs evaluated) t))) \<inter>
      set (map in_fingerprint ?O) = {}"
  proof -
    have "in_fingerprint (scanned sys ts fs evaluated r) \<noteq> fd_fingerprint f"
      if "f \<in> set ?U" "r \<in> set t" "in_state (scanned sys ts fs evaluated r) = Active" for f r
      using unknown_not_active [OF assms(4) that(1,2) scanned_active [OF that(3)]] by simp
    then show ?thesis unfolding set_map [of in_fingerprint ?O] opened_fingerprints by fastforce
  qed
  have "distinct (map in_uid (map (scanned sys ts fs evaluated) t @ ?O))"
    unfolding map_append su distinct_append using opened_distinct(1) [OF i dU] u assms(1) by (auto simp: table_ok_def)
  moreover have "distinct (map in_fingerprint (filter (\<lambda>r. in_state r = Active) (map (scanned sys ts fs evaluated) t @ ?O)))"
    unfolding filter_append map_append distinct_append opened_all_active
    using opened_distinct(2) [OF i dU] f active_of_scanned assms(1) unfolding table_ok_def by blast
  moreover have "(in_state r = Resolved \<longleftrightarrow> in_resolved_at r \<noteq> None) \<and> 1 \<le> in_occurrence_count r"
    if r: "r \<in> set (map (scanned sys ts fs evaluated) t @ ?O)" for r
  proof (cases "r \<in> set ?O")
    case True
    then show ?thesis using opened_mem by fastforce
  next
    case False
    then obtain q where q: "q \<in> set t" "r = scanned sys ts fs evaluated q" using r by auto
    then show ?thesis using scanned_row_ok assms(1) unfolding table_ok_def by blast
  qed
  ultimately show ?thesis unfolding table_ok_def by blast
qed

lemma reconcile_cases:
  assumes "table_ok t" "fresh_for fresh t" "distinct (map fd_fingerprint fs)"
  obtains "foreign sys fs t" "reconcile fresh sys ts fs evaluated t = (t, Inl IntegrityError)"
  | trs where "\<not> foreign sys fs t" "reconcile fresh sys ts fs evaluated t =
      (map (scanned sys ts fs evaluated) t @ opened fresh sys ts 0 (unknown_findings sys t fs), Inr trs)"
      "map label trs = finding_labels fresh (map_of (active_rows sys t)) 0 fs @
         resolved_labels (fd_fingerprint ` set fs) evaluated (active_rows sys t)"
proof (cases "foreign sys fs t")
  case True
  then show ?thesis using reconcile_foreign [OF assms(1)] that(1) by blast
next
  case False
  have "inj fresh" "\<forall>k. fresh k \<notin> in_uid ` set t" using assms(2) by (simp_all add: fresh_for_def)
  then show ?thesis using reconcile_domestic [OF assms(1,3) _ _ False] that(2) False by blast
qed

lemma scan_step_keeps:
  assumes "scan_step t t'" "table_ok t"
  shows "table_ok t' \<and> length t \<le> length t' \<and> list_all2 continues t (take (length t) t')"
  using assms(1)
proof (rule scan_stepE)
  fix fresh fs sys ts evaluated res
  assume a: "fresh_for fresh t" "distinct (map fd_fingerprint fs)" "reconcile fresh sys ts fs evaluated t = (t', res)"
  show ?thesis
  proof (rule reconcile_cases [OF assms(2) a(1,2), of sys ts evaluated])
    assume "reconcile fresh sys ts fs evaluated t = (t, Inl IntegrityError)"
    then show ?thesis using a(3) assms(2) by (simp add: list_all2_refl)
  next
    fix trs assume n: "\<not> foreign sys fs t" and "reconcile fresh sys ts fs evaluated t =
      (map (scanned sys ts fs evaluated) t @ opened fresh sys ts 0 (unknown_findings sys t fs), Inr trs)"
    then have t': "t' = map (scanned sys ts fs evaluated) t @ opened fresh sys ts 0 (unknown_findings sys t fs)" using a(3) by simp
    have "list_all2 continues t (map (scanned sys ts fs evaluated) t)"
      by (simp add: list_all2_conv_all_nth continues_scanned)
    then show ?thesis using table_ok_scanned [OF assms(2) a(1,2) n] unfolding t' by simp
  qed
qed

section \<open>Properties\<close>

text \<open>C29: One scan of a system is the per-row specification: either a finding's fingerprint is active in
  another system, and the scan raises and leaves the table as it was; or every active row of the system that was found
  again is refreshed, every one that was evaluated and not found is resolved, all others are untouched, the findings
  without an active row are appended as new incidents in their order, and the scan reports exactly the opened,
  the changed and the resolved incidents.\<close>

theorem reconcile_refines:
  assumes "table_ok t" "fresh_for fresh t" "distinct (map fd_fingerprint fs)"
  shows "if foreign sys fs t then reconcile fresh sys ts fs evaluated t = (t, Inl IntegrityError)
    else \<exists>trs. reconcile fresh sys ts fs evaluated t =
      (map (scanned sys ts fs evaluated) t @ opened fresh sys ts 0 (unknown_findings sys t fs), Inr trs) \<and>
      map label trs = finding_labels fresh (map_of (active_rows sys t)) 0 fs @
        resolved_labels (fd_fingerprint ` set fs) evaluated (active_rows sys t)"
  by (rule reconcile_cases [OF assms, of sys ts evaluated]) auto

text \<open>C30: Over any number of scans of any systems, failed ones included, no incident is deleted or moved; each keeps
  its identifier, system, detector, fingerprint and opening time, its occurrence count never falls, and once it is
  resolved it never changes again; the identifiers are unique, and so are the fingerprints of the active incidents.\<close>

theorem incidents_persist:
  assumes "scan_step\<^sup>*\<^sup>* t t'" "table_ok t"
  shows "table_ok t' \<and> length t \<le> length t' \<and> list_all2 continues t (take (length t) t')"
  using assms
proof (induction rule: rtranclp_induct)
  case base
  then show ?case by (simp add: list_all2_refl)
next
  case (step u v)
  then have u: "table_ok u" "length t \<le> length u" "list_all2 continues t (take (length t) u)" by blast+
  have v: "table_ok v" "length u \<le> length v" "list_all2 continues u (take (length u) v)"
    using scan_step_keeps [OF step.hyps(2) u(1)] by blast+
  have "list_all2 continues (take (length t) u) (take (length t) (take (length u) v))" using v(3) by (rule list_all2_takeI)
  then have "list_all2 continues (take (length t) u) (take (length t) v)" using u(2) by (simp add: min_def)
  with u(3) have "list_all2 continues t (take (length t) v)" by (rule list_all2_trans [rotated]) (rule continues_trans)
  then show ?case using u(2) v(1,2) by simp
qed

lemma image_restrict: "f ` {r \<in> A. P r \<and> f r \<in> F} = F \<inter> f ` {r \<in> A. P r}"
  by auto

lemma union_rearrange: "L = R \<union> U \<Longrightarrow> R = X \<union> N \<Longrightarrow> F = U \<union> X \<Longrightarrow> L = F \<union> N"
  by auto

lemma active_after:
  assumes "table_ok t" "fresh_for fresh t" "distinct (map fd_fingerprint fs)" "reconcile fresh sys ts fs evaluated t = (t', Inr trs)"
  shows "t' = map (scanned sys ts fs evaluated) t @ opened fresh sys ts 0 (unknown_findings sys t fs)"
  by (rule reconcile_cases [OF assms(1-3), of sys ts evaluated]) (use assms(4) in auto)

lemma scanned_stays_active:
  "active_in sys (scanned sys ts fs evaluated r) \<longleftrightarrow> active_in sys r \<and>
     (in_fingerprint r \<in> fd_fingerprint ` set fs \<or> fd_evaluation_key (in_finding r) \<notin> evaluated)"
proof (cases "List.find (\<lambda>f. fd_fingerprint f = in_fingerprint r) fs")
  case None
  then have "in_fingerprint r \<notin> fd_fingerprint ` set fs" unfolding find_None_iff by (auto simp: image_iff)
  then show ?thesis using None by (auto simp: scanned_def active_in_def)
next
  case (Some f)
  then have "in_fingerprint r \<in> fd_fingerprint ` set fs" by (auto simp: find_Some_iff image_iff) (metis nth_mem)
  then show ?thesis using Some by (auto simp: scanned_def)
qed

lemma scanned_foreign: "in_system_uid r \<noteq> sys \<Longrightarrow> scanned sys ts fs evaluated r = r"
  by (simp add: scanned_def active_in_def)

text \<open>After a scan that returns, the active fingerprints of the system are those of its findings and those
  whose detector had no evidence this time; an incident that was evaluated and not found is no longer active, and the
  incidents of every other system are untouched.\<close>

lemma active_fingerprints:
  assumes "table_ok t" "fresh_for fresh t" "distinct (map fd_fingerprint fs)" "reconcile fresh sys ts fs evaluated t = (t', Inr trs)"
  shows "in_fingerprint ` {r \<in> set t'. active_in sys r} =
      fd_fingerprint ` set fs \<union>
      in_fingerprint ` {r \<in> set t. active_in sys r \<and> fd_evaluation_key (in_finding r) \<notin> evaluated} \<and>
    filter (\<lambda>r. in_system_uid r \<noteq> sys) t' = filter (\<lambda>r. in_system_uid r \<noteq> sys) t"
proof
  note t' = active_after [OF assms]
  let ?U = "unknown_findings sys t fs"
  have a: "in_fingerprint ` {r \<in> set (opened fresh sys ts 0 ?U). active_in sys r} = fd_fingerprint ` set ?U"
  proof -
    have "{r \<in> set (opened fresh sys ts 0 ?U). active_in sys r} = set (opened fresh sys ts 0 ?U)"
      using opened_mem [of _ fresh sys ts 0 ?U] by (auto simp: active_in_def)
    then show ?thesis by (simp add: opened_fingerprints)
  qed
  have b: "in_fingerprint ` {r \<in> set (map (scanned sys ts fs evaluated) t). active_in sys r} =
      in_fingerprint ` {r \<in> set t. active_in sys r \<and> (in_fingerprint r \<in> fd_fingerprint ` set fs \<or> fd_evaluation_key (in_finding r) \<notin> evaluated)}"
    (is "?L = ?R")
  proof -
    have "{r \<in> set (map (scanned sys ts fs evaluated) t). active_in sys r} = scanned sys ts fs evaluated `
      {r \<in> set t. active_in sys r \<and> (in_fingerprint r \<in> fd_fingerprint ` set fs \<or> fd_evaluation_key (in_finding r) \<notin> evaluated)}"
      using scanned_stays_active [of sys ts fs evaluated] by fastforce
    then show ?thesis by (simp add: image_image)
  qed
  have c: "fd_fingerprint ` set fs = fd_fingerprint ` set ?U \<union> (fd_fingerprint ` set fs \<inter> in_fingerprint ` {r \<in> set t. active_in sys r})"
    by (auto simp: unknown_findings_def)
  show "in_fingerprint ` {r \<in> set t'. active_in sys r} = fd_fingerprint ` set fs \<union>
      in_fingerprint ` {r \<in> set t. active_in sys r \<and> fd_evaluation_key (in_finding r) \<notin> evaluated}"
  proof -
    have "{r \<in> set t'. active_in sys r} = {r \<in> set (map (scanned sys ts fs evaluated) t). active_in sys r} \<union>
        {r \<in> set (opened fresh sys ts 0 ?U). active_in sys r}" unfolding t' by auto
    then have "in_fingerprint ` {r \<in> set t'. active_in sys r} = ?R \<union> fd_fingerprint ` set ?U" unfolding image_Un [symmetric] a [symmetric] b [symmetric] by simp
    moreover have "?R = (fd_fingerprint ` set fs \<inter> in_fingerprint ` {r \<in> set t. active_in sys r}) \<union>
        in_fingerprint ` {r \<in> set t. active_in sys r \<and> fd_evaluation_key (in_finding r) \<notin> evaluated}" (is "_ = ?F \<union> ?N")
    proof -
      have "?R = in_fingerprint ` {r \<in> set t. active_in sys r \<and> in_fingerprint r \<in> fd_fingerprint ` set fs} \<union> ?N"
        unfolding image_Un [symmetric] by (rule arg_cong [of _ _ "image in_fingerprint"]) blast
      then show ?thesis unfolding image_restrict .
    qed
    ultimately show ?thesis using c by (rule union_rearrange)
  qed
  have "filter (\<lambda>r. in_system_uid r \<noteq> sys) (map (scanned sys ts fs evaluated) t) = filter (\<lambda>r. in_system_uid r \<noteq> sys) t"
    by (induction t) (simp_all add: scanned_foreign)
  moreover have "filter (\<lambda>r. in_system_uid r \<noteq> sys) (opened fresh sys ts 0 ?U) = []"
    using opened_mem [of _ fresh sys ts 0 ?U] by (simp add: filter_empty_conv)
  ultimately show "filter (\<lambda>r. in_system_uid r \<noteq> sys) t' = filter (\<lambda>r. in_system_uid r \<noteq> sys) t" unfolding t' by simp
qed

section \<open>Examples\<close>

definition sample_finding :: finding where
  "sample_finding = \<lparr>fd_detector = ''d'', fd_evaluation_key = ''d|c'', fd_fingerprint = ''d|c'', fd_category = Battery,
     fd_severity = SevWarning, fd_confidence = ConfHigh, fd_title = ''t'', fd_summary = ''s'', fd_controller_uid = Some ''c'',
     fd_observed_value = None, fd_expected_low = None, fd_expected_high = None, fd_unit = None, fd_evidence = []\<rparr>"

definition counted :: "char \<Rightarrow> nat \<Rightarrow> string" where
  "counted c k = replicate (Suc k) c"

lemma fresh_counted: "(\<forall>r \<in> set t. in_uid r \<noteq> [] \<longrightarrow> hd (in_uid r) \<noteq> c) \<Longrightarrow> fresh_for (counted c) t"
proof -
  assume h: "\<forall>r \<in> set t. in_uid r \<noteq> [] \<longrightarrow> hd (in_uid r) \<noteq> c"
  have "inj (counted c)" by (rule injI) (metis counted_def length_replicate nat.inject)
  moreover have "counted c k \<noteq> in_uid r" if "r \<in> set t" for k r using h that by (metis counted_def list.discI list.sel(1) replicate_Suc)
  ultimately show ?thesis unfolding fresh_for_def by blast
qed

definition one_incident :: incident_table where
  "one_incident = fst (reconcile (counted CHR ''a'') ''s1'' ''now'' [sample_finding] {''d|c''} [])"

lemma one_incident_row: "one_incident = [new_incident ''a'' ''s1'' ''now'' sample_finding]"
  by (simp add: one_incident_def reconcile_def active_rows_def sample_finding_def insert_incident_def counted_def)

lemma one_incident_ok: "table_ok one_incident" "fresh_for (counted CHR ''b'') one_incident" "table_ok []"
  by (auto simp: one_incident_row table_ok_def intro!: fresh_counted)

theorem reconcile_refines_witness:
  "\<exists>trs. reconcile (counted CHR ''b'') ''s1'' ''later'' [] {''d|c''} one_incident =
     (map (scanned ''s1'' ''later'' [] {''d|c''}) one_incident, Inr trs)"
  using reconcile_refines [OF one_incident_ok(1,2), of "[]" "''s1''" "''later''" "{''d|c''}"]
  by (simp add: foreign_def unknown_findings_def) blast

theorem incidents_persist_witness: "list_all2 continues [] (take 0 one_incident) \<and> table_ok one_incident"
proof -
  have "scan_step [] one_incident"
    by (rule scan_step.intros [of "counted CHR ''a''" _ "[sample_finding]"]) (auto simp: one_incident_def intro!: fresh_counted surjective_pairing)
  then show ?thesis using incidents_persist [of "[]" one_incident] one_incident_ok(3) by auto
qed

lemma scan_example:
  "in_fingerprint ` {r \<in> set (fst (reconcile (counted CHR ''b'') ''s1'' ''later'' [] {''d|c''} one_incident)). active_in ''s1'' r} = {}"
proof -
  obtain trs where "reconcile (counted CHR ''b'') ''s1'' ''later'' [] {''d|c''} one_incident =
     (map (scanned ''s1'' ''later'' [] {''d|c''}) one_incident, Inr trs)"
    by (rule reconcile_cases [OF one_incident_ok(1,2), of "[]" "''s1''" "''later''" "{''d|c''}"])
      (auto simp: foreign_def unknown_findings_def)
  from active_fingerprints [OF one_incident_ok(1,2) _ this] this show ?thesis
    by (auto simp: one_incident_row sample_finding_def active_in_def)
qed

text \<open>The fingerprint names the detector and the controller, the unique index spans the systems: when a
  controller belongs to two systems, the scan of the second raises for as long as the incident of the first is active,
  so none of its findings is recorded and none of its incidents resolved.\<close>

theorem shared_controller_scan_fails:
  "reconcile fresh ''s2'' ''later'' [sample_finding] evaluated one_incident = (one_incident, Inl IntegrityError)"
  by (rule reconcile_foreign [OF one_incident_ok(1)]) (simp add: foreign_def one_incident_row)

end
