(* ===== verification/Detector_Facts.thy ===== *)
theory Detector_Facts
  imports Detectors Incident_Facts
begin

text \<open>
  Every detector names its finding by the key it reports as evaluated, so a scan can resolve what it opened.  The
  contract of a detector is a locale; each detector of the code is an instance, and the findings of a whole scan
  have distinct fingerprints.
\<close>

section \<open>Keys\<close>

lemma detector_key_inj:
  assumes "CHR ''|'' \<notin> set d" "CHR ''|'' \<notin> set d'" "detector_key d u = detector_key d' u'"
  shows "d = d' \<and> u = u'"
proof -
  have t: "takeWhile (\<lambda>c. c \<noteq> CHR ''|'') (detector_key d u) = d" if "CHR ''|'' \<notin> set d" for d u
  proof -
    have "\<forall>c \<in> set d. c \<noteq> CHR ''|''" using that by blast
    then show ?thesis unfolding detector_key_def by (simp add: takeWhile_append2)
  qed
  have "d = d'" using t [OF assms(1), of u] t [OF assms(2), of u'] assms(3) by simp
  then show ?thesis using assms(3) by (simp add: detector_key_def)
qed

definition detector_names :: "string list" where
  "detector_names = [''controller_offline'', ''battery_sense_divergence'', ''controller_efficiency'', ''controller_fault'',
     ''controller_alarm'', ''polling_degradation'', ''charge_stage_cycling'', ''history_coverage'']"

lemma detector_names_ok: "distinct detector_names" "\<forall>d \<in> set detector_names. CHR ''|'' \<notin> set d"
  "''solar_underproduction'' \<notin> set detector_names"
  by (simp_all add: detector_names_def)

section \<open>The contract of a detector\<close>

text \<open>A result under the name of a detector: the key is the detector's own, a finding comes with it and carries it.\<close>

definition named_result :: "string \<Rightarrow> string \<Rightarrow> finding option \<times> string option \<Rightarrow> bool" where
  "named_result name uid r \<longleftrightarrow> (\<forall>k. snd r = Some k \<longrightarrow> k = detector_key name uid) \<and>
     (\<forall>f. fst r = Some f \<longrightarrow> snd r \<noteq> None \<and> fd_fingerprint f = detector_key name uid \<and> fd_evaluation_key f = fd_fingerprint f)"

locale detector =
  fixes name :: string and detect :: "string \<Rightarrow> 'e \<Rightarrow> finding option \<times> string option"
  assumes finding_key: "detect uid e = (Some f, k) \<Longrightarrow>
      k = Some (detector_key name uid) \<and> fd_fingerprint f = detector_key name uid \<and> fd_evaluation_key f = detector_key name uid"
    and own_key: "detect uid e = (None, Some j) \<Longrightarrow> j = detector_key name uid"
begin

lemma named: "named_result name uid (detect uid e)"
  by (cases "detect uid e"; cases "fst (detect uid e)"; cases "snd (detect uid e)")
    (auto simp: named_result_def dest: finding_key own_key)

end

lemma new_finding_fields [simp]:
  "fd_fingerprint (new_finding d k c s cf t su) = k" "fd_evaluation_key (new_finding d k c s cf t su) = k"
  by (simp_all add: new_finding_def)

interpretation offline: detector "''controller_offline''" "\<lambda>uid status. (offline_finding uid status, Some (detector_key ''controller_offline'' uid))"
  by unfold_locales (auto simp: offline_finding_def Let_def split: if_splits)

interpretation sense: detector "''battery_sense_divergence''" "sense_finding policy"
  by unfold_locales (auto simp: sense_finding_def Let_def split: option.splits if_splits)

interpretation polling: detector "''polling_degradation''" "polling_finding policy"
  by unfold_locales (auto simp: polling_finding_def Let_def split: option.splits if_splits)

interpretation cycling: detector "''charge_stage_cycling''" "charge_cycle_finding policy"
  by unfold_locales (auto simp: charge_cycle_finding_def Let_def split: if_splits)

interpretation history: detector "''history_coverage''" "coverage_finding policy"
  by unfold_locales (auto simp: coverage_finding_def Let_def split: option.splits if_splits)

interpretation fault: detector "''controller_fault''" "\<lambda>uid sample. status_finding uid sample (''controller_fault'', names, severity, title)"
  by unfold_locales (auto simp: status_finding_def Let_def split: option.splits if_splits)

interpretation alarm: detector "''controller_alarm''" "\<lambda>uid sample. status_finding uid sample (''controller_alarm'', names, severity, title)"
  by unfold_locales (auto simp: status_finding_def Let_def split: option.splits if_splits)

text \<open>The two detectors that divide never divide by zero.\<close>

lemma fdiv_nonzero: "y \<noteq> Fin 0 \<Longrightarrow> \<exists>q. fdiv x y = Inr q"
  by (cases x; cases y) auto

lemma conversion_ratio_returns: "\<exists>q. conversion_ratio x y = Inr q"
  using fdiv_nonzero [of y x] by (cases "y = Fin 0") (auto simp: conversion_ratio_def)

definition efficiency_result :: "incident_policy \<Rightarrow> string \<Rightarrow> snapshot \<Rightarrow> finding option \<times> string option" where
  "efficiency_result policy uid sample = projr (efficiency_finding policy uid sample)"

lemma efficiency_returns: "efficiency_finding policy uid sample = Inr (efficiency_result policy uid sample)"
proof -
  have "\<exists>r. efficiency_finding policy uid sample = Inr r"
  proof -
    obtain q where "conversion_ratio x y = Inr (q x y)" for x y using conversion_ratio_returns by metis
    then show ?thesis by (auto simp: efficiency_finding_def Let_def split: option.split)
  qed
  then show ?thesis by (auto simp: efficiency_result_def)
qed

interpretation efficiency: detector "''controller_efficiency''" "efficiency_result policy"
proof
  fix uid sample f k assume "efficiency_result policy uid sample = (Some f, k)"
  then have "efficiency_finding policy uid sample = Inr (Some f, k)" using efficiency_returns by simp
  then show "k = Some (detector_key ''controller_efficiency'' uid) \<and> fd_fingerprint f = detector_key ''controller_efficiency'' uid \<and>
      fd_evaluation_key f = detector_key ''controller_efficiency'' uid"
    by (auto simp: efficiency_finding_def Let_def rbind_eq_Inr split: option.splits if_splits)
next
  fix uid sample k assume "efficiency_result policy uid sample = (None, Some k)"
  then have "efficiency_finding policy uid sample = Inr (None, Some k)" using efficiency_returns by simp
  then show "k = detector_key ''controller_efficiency'' uid"
    by (auto simp: efficiency_finding_def Let_def rbind_eq_Inr split: option.splits if_splits)
qed

section \<open>The findings of a scan\<close>

definition controller_results :: "incident_policy \<Rightarrow> controller_evidence \<Rightarrow> (finding option \<times> string option) list" where
  "controller_results policy e =
    (let uid = ce_uid e; offline = (offline_finding uid (ce_status e), Some (detector_key ''controller_offline'' uid)) in
     case ce_sample e of
       None \<Rightarrow> [offline]
     | Some sample \<Rightarrow> [offline, sense_finding policy uid sample, efficiency_result policy uid sample] @
         map (status_finding uid sample) status_definitions @
         [polling_finding policy uid (ce_polling e), charge_cycle_finding policy uid (ce_cycle e), coverage_finding policy uid (ce_coverage e)])"

lemma evaluate_controller_results: "evaluate_controller policy e = Inr (results_of (controller_results policy e))"
  by (simp add: evaluate_controller_def controller_results_def Let_def efficiency_returns split: option.split)

definition result_names :: "controller_evidence \<Rightarrow> string list" where
  "result_names e = (case ce_sample e of None \<Rightarrow> [''controller_offline''] | Some _ \<Rightarrow> detector_names)"

lemma result_names_ok: "distinct (result_names e)" "set (result_names e) \<subseteq> set detector_names"
  using detector_names_ok(1) by (auto simp: result_names_def detector_names_def split: option.split)

lemma controller_results_named:
  "list_all2 (\<lambda>n r. named_result n (ce_uid e) r) (result_names e) (controller_results policy e)"
proof (cases "ce_sample e")
  case None
  then show ?thesis by (simp add: controller_results_def result_names_def Let_def offline.named)
next
  case (Some sample)
  then show ?thesis
    by (simp add: controller_results_def result_names_def Let_def detector_names_def status_definitions_def
      offline.named sense.named efficiency.named fault.named alarm.named polling.named cycling.named history.named)
qed

lemma results_of_simps [simp]:
  "results_of [] = ([], [])"
  "results_of ((f, k) # rs) = ((case f of Some x \<Rightarrow> [x] | None \<Rightarrow> []) @ fst (results_of rs), (case k of Some x \<Rightarrow> [x] | None \<Rightarrow> []) @ snd (results_of rs))"
  by (simp_all add: results_of_def List.map_filter_simps split: option.split)

lemma named_results:
  assumes "list_all2 (\<lambda>n r. named_result n uid r) ns rs"
  shows "fd_fingerprint ` set (fst (results_of rs)) \<subseteq> (\<lambda>n. detector_key n uid) ` set ns"
    "set (snd (results_of rs)) \<subseteq> (\<lambda>n. detector_key n uid) ` set ns"
    "\<forall>f \<in> set (fst (results_of rs)). fd_evaluation_key f = fd_fingerprint f \<and> fd_evaluation_key f \<in> set (snd (results_of rs))"
    "distinct ns \<Longrightarrow> distinct (map fd_fingerprint (fst (results_of rs)))"
  using assms
proof (induction ns rs rule: list_all2_induct)
  case (Cons n ns r rs)
  obtain f k where r: "r = (f, k)" by fastforce
  have named: "named_result n uid (f, k)" using Cons.hyps(1) r by simp
  {
    case 1
    show ?case using Cons.IH(1) named by (auto simp: r named_result_def split: option.splits)
  next
    case 2
    show ?case using Cons.IH(2) named by (auto simp: r named_result_def split: option.splits)
  next
    case 3
    show ?case using Cons.IH(3) named by (auto simp: r named_result_def split: option.splits)
  next
    case 4
    have "detector_key n uid \<notin> (\<lambda>n. detector_key n uid) ` set ns" using 4 by (auto simp: detector_key_def)
    then have "detector_key n uid \<notin> fd_fingerprint ` set (fst (results_of rs))" using Cons.IH(1) by blast
    then show ?case using Cons.IH(4) 4 named by (auto simp: r named_result_def split: option.splits)
  }
qed simp_all

text \<open>A scan's findings: distinct fingerprints, each the key of its detector, and each of these evaluated.\<close>

definition findings_ok :: "finding list \<Rightarrow> string list \<Rightarrow> bool" where
  "findings_ok fs ks \<longleftrightarrow> distinct (map fd_fingerprint fs) \<and> (\<forall>f \<in> set fs. fd_evaluation_key f = fd_fingerprint f \<and> fd_evaluation_key f \<in> set ks)"

definition keys_of :: "string list \<Rightarrow> string set" where
  "keys_of uids = (\<lambda>(n, u). detector_key n u) ` (set detector_names \<times> set uids)"

lemma controller_findings:
  assumes "evaluate_controller policy e = Inr (fs, ks)"
  shows "findings_ok fs ks" "fd_fingerprint ` set fs \<subseteq> keys_of [ce_uid e]"
proof -
  have r: "fst (results_of (controller_results policy e)) = fs" "snd (results_of (controller_results policy e)) = ks"
    using assms evaluate_controller_results by simp_all
  note n = named_results [OF controller_results_named [of e policy], unfolded r]
  show "findings_ok fs ks" unfolding findings_ok_def by (rule conjI [OF n(4) [OF result_names_ok(1)] n(3)])
  have "(\<lambda>n. detector_key n (ce_uid e)) ` set (result_names e) \<subseteq> keys_of [ce_uid e]"
    using result_names_ok(2) [of e] by (auto simp: keys_of_def)
  with n(1) show "fd_fingerprint ` set fs \<subseteq> keys_of [ce_uid e]" by (rule subset_trans)
qed

lemma keys_of_mono: "keys_of [u] \<union> keys_of us \<subseteq> keys_of (u # us)"
  by (auto simp: keys_of_def)

lemma keys_of_disjoint: "u \<notin> set us \<Longrightarrow> keys_of [u] \<inter> keys_of us = {}"
proof (rule ccontr)
  assume u: "u \<notin> set us" and "keys_of [u] \<inter> keys_of us \<noteq> {}"
  then obtain n n' u' where n: "n \<in> set detector_names" "n' \<in> set detector_names" "u' \<in> set us" "detector_key n u = detector_key n' u'"
    by (auto simp: keys_of_def)
  then have "u = u'" using detector_key_inj [OF _ _ n(4)] detector_names_ok(2) by blast
  then show False using u n(3) by simp
qed

lemma disjoint_from_key: "A \<subseteq> K \<Longrightarrow> B \<subseteq> {k} \<Longrightarrow> k \<notin> K \<Longrightarrow> A \<inter> B = {}"
  by blast

lemma solar_not_keys: "detector_key ''solar_underproduction'' s \<notin> keys_of us"
proof
  assume "detector_key ''solar_underproduction'' s \<in> keys_of us"
  then obtain n u where n: "n \<in> set detector_names" "detector_key ''solar_underproduction'' s = detector_key n u" by (auto simp: keys_of_def)
  have "CHR ''|'' \<notin> set ''solar_underproduction''" by simp
  then have "''solar_underproduction'' = n" using detector_key_inj [OF _ _ n(2)] detector_names_ok(2) n(1) by blast
  then show False using n(1) detector_names_ok(3) by simp
qed

lemma findings_ok_append:
  assumes "findings_ok fs ks" "findings_ok gs js" "fd_fingerprint ` set fs \<inter> fd_fingerprint ` set gs = {}"
  shows "findings_ok (fs @ gs) (ks @ js)"
  using assms by (auto simp: findings_ok_def)

lemma controllers_findings:
  assumes "rmap (evaluate_controller policy) es = Inr rs" "distinct (map ce_uid es)"
  shows "findings_ok (concat (map fst rs)) (concat (map snd rs)) \<and> fd_fingerprint ` set (concat (map fst rs)) \<subseteq> keys_of (map ce_uid es)"
  using assms
proof (induction es arbitrary: rs)
  case Nil
  then show ?case by (simp add: findings_ok_def)
next
  case (Cons e es)
  then obtain fs ks qs where q: "evaluate_controller policy e = Inr (fs, ks)" "rmap (evaluate_controller policy) es = Inr qs" "rs = (fs, ks) # qs"
    by (auto simp: rbind_eq_Inr)
  have ih: "findings_ok (concat (map fst qs)) (concat (map snd qs))" "fd_fingerprint ` set (concat (map fst qs)) \<subseteq> keys_of (map ce_uid es)"
    using Cons.IH [OF q(2)] Cons.prems(2) by simp_all
  have c: "findings_ok fs ks" "fd_fingerprint ` set fs \<subseteq> keys_of [ce_uid e]" using controller_findings [OF q(1)] by blast+
  have "keys_of [ce_uid e] \<inter> keys_of (map ce_uid es) = {}" using Cons.prems(2) by (intro keys_of_disjoint) simp
  then have "findings_ok (fs @ concat (map fst qs)) (ks @ concat (map snd qs))" using c ih by (intro findings_ok_append) blast+
  moreover have "fd_fingerprint ` set (fs @ concat (map fst qs)) \<subseteq> keys_of (map ce_uid (e # es))"
    using c(2) ih(2) keys_of_mono [of "ce_uid e" "map ce_uid es"] by (simp add: image_Un) blast
  ultimately show ?case by (simp add: q(3))
qed

lemma solar_named: "solar_finding policy sys b = Inr r \<Longrightarrow> named_result ''solar_underproduction'' sys r"
  by (auto simp: solar_finding_def Let_def named_result_def rbind_eq_Inr split: if_splits option.splits)

lemma system_findings:
  assumes "evaluate_system policy sys es solar = Inr (fs, ks)" "distinct (map ce_uid es)"
  shows "findings_ok fs ks"
proof -
  obtain rs b r where r: "rmap (evaluate_controller policy) es = Inr rs" "solar_finding policy sys b = Inr r"
    "fs = concat (map fst rs) @ fst (results_of [r])" "ks = concat (map snd rs) @ snd (results_of [r])"
    using assms(1) by (auto simp: evaluate_system_def rbind_eq_Inr)
  have c: "findings_ok (concat (map fst rs)) (concat (map snd rs))" "fd_fingerprint ` set (concat (map fst rs)) \<subseteq> keys_of (map ce_uid es)"
    using controllers_findings [OF r(1) assms(2)] by blast+
  have "list_all2 (\<lambda>n r. named_result n sys r) [''solar_underproduction''] [r]" using solar_named [OF r(2)] by simp
  note n = named_results [OF this]
  have s: "findings_ok (fst (results_of [r])) (snd (results_of [r]))" unfolding findings_ok_def by (rule conjI [OF n(4) n(3)]) simp
  have "fd_fingerprint ` set (fst (results_of [r])) \<subseteq> {detector_key ''solar_underproduction'' sys}" using n(1) by simp
  then have "fd_fingerprint ` set (concat (map fst rs)) \<inter> fd_fingerprint ` set (fst (results_of [r])) = {}"
    by (rule disjoint_from_key [OF c(2) _ solar_not_keys])
  then show ?thesis using c(1) s unfolding r(3,4) by (intro findings_ok_append)
qed

section \<open>A scan\<close>

text \<open>C35: A scan of a system whose controllers are distinct either raises and leaves the incidents as they were --
  when the baseline's arithmetic raises, or when a finding is active in another system -- or it does to the table
  what the specification of the store says for its findings.  Their fingerprints are distinct and each is an
  evaluated key, so the next scan that evaluates a detector without a finding resolves the incident it opened.\<close>

theorem scan_outcome:
  assumes "table_ok t" "fresh_for fresh t" "distinct (map ce_uid es)"
  shows "case evaluate_system policy sys es solar of
      Inl e \<Rightarrow> scan fresh policy sys now es solar t = (t, Inl (EvaluationError e))
    | Inr (fs, ks) \<Rightarrow>
        distinct (map fd_fingerprint fs) \<and> (\<forall>f \<in> set fs. fd_evaluation_key f = fd_fingerprint f \<and> fd_fingerprint f \<in> set ks) \<and>
        (if foreign sys fs t then scan fresh policy sys now es solar t = (t, Inl (StoreError IntegrityError))
         else \<exists>trs. scan fresh policy sys now es solar t =
           (map (scanned sys now fs (set ks)) t @ opened fresh sys now 0 (unknown_findings sys t fs), Inr trs))"
proof (cases "evaluate_system policy sys es solar")
  case (Inl e)
  then show ?thesis by (simp add: scan_def)
next
  case (Inr r)
  obtain fs ks where r: "r = (fs, ks)" by fastforce
  have ok: "findings_ok fs ks" using system_findings Inr assms(3) unfolding r by blast
  then have d: "distinct (map fd_fingerprint fs)" and k: "\<forall>f \<in> set fs. fd_evaluation_key f = fd_fingerprint f \<and> fd_fingerprint f \<in> set ks"
    unfolding findings_ok_def by metis+
  have "if foreign sys fs t then scan fresh policy sys now es solar t = (t, Inl (StoreError IntegrityError))
         else \<exists>trs. scan fresh policy sys now es solar t =
           (map (scanned sys now fs (set ks)) t @ opened fresh sys now 0 (unknown_findings sys t fs), Inr trs)"
    by (rule reconcile_cases [OF assms(1,2) d, of sys now "set ks"]) (auto simp: scan_def Inr r)
  then show ?thesis using d k by (simp add: Inr r)
qed

definition silent_controller :: controller_evidence where
  "silent_controller = \<lparr>ce_uid = ''c'', ce_status = None, ce_sample = None, ce_polling = None,
     ce_cycle = charge_cycle_summary (\<lambda>s. None) [], ce_coverage = None\<rparr>"

definition no_baseline :: baseline where
  "no_baseline = \<lparr>bl_ready = False, bl_current = None, bl_low = None, bl_median = None, bl_high = None,
     bl_comparable_days = 0, bl_confidence = ConfLow\<rparr>"

lemma evaluate_silent:
  "\<exists>f. evaluate_system policy ''s'' [silent_controller] (Inr no_baseline) = Inr ([f], [detector_key ''controller_offline'' ''c'']) \<and>
     fd_severity f = SevWarning"
  by (simp add: evaluate_system_def evaluate_controller_def silent_controller_def no_baseline_def solar_finding_def
      offline_finding_def new_finding_def str_lower_def to_lower_def is_upper_def code_of_def Let_def)

theorem scan_outcome_witness:
  "\<exists>r trs. scan (counted CHR ''a'') IncidentPolicy ''s'' ''now'' [silent_controller] (Inr no_baseline) [] = ([r], Inr trs) \<and>
     in_state r = Active"
proof -
  obtain f where f: "evaluate_system IncidentPolicy ''s'' [silent_controller] (Inr no_baseline) = Inr ([f], [detector_key ''controller_offline'' ''c''])"
    using evaluate_silent by blast
  have "fresh_for (counted CHR ''a'') []" by (rule fresh_counted) simp
  from scan_outcome [OF _ this, where es = "[silent_controller]" and policy = IncidentPolicy and sys = "''s''" and
      solar = "Inr no_baseline" and now = "''now''"] show ?thesis
    unfolding f by (auto simp: table_ok_def foreign_def unknown_findings_def)
qed

section \<open>The baseline's threshold\<close>

text \<open>\<open>low or median\<close> takes a low of zero for a missing one: with a tenth percentile of 0 W the site alarms below
  500 W at least (of a median of 1000 W), with one of 1 W only below 1 W.\<close>

lemma zero_low_raises_trigger:
  "fle (Fin 500) (production_trigger IncidentPolicy (Some (Fin 0)) (Fin 1000))"
  "fle (production_trigger IncidentPolicy (Some (Fin 1)) (Fin 1000)) (Fin 1)"
proof -
  have h: "fl (1 / 2) = Fin (1 / 2)" and q: "fl (3 / 4) = Fin (3 / 4)" using fl_exact [of 1 1] fl_exact [of 3 2] by simp_all
  have k: "fl 500 = Fin 500" "fl 750 = Fin 750" using fl_int [of 500] fl_int [of 750] by simp_all
  have "fle (fl (1 / 2)) (fl (60 / 100))" "fle (fl (60 / 100)) (fl (3 / 4))" by (simp_all add: fl_mono)
  then obtain a where a: "fl (60 / 100) = Fin a" "1 / 2 \<le> a" "a \<le> 3 / 4" unfolding h q by (cases "fl (60 / 100)") auto
  have "fle (fl 500) (fl (1000 * a))" "fle (fl (1000 * a)) (fl 750)" using a(2,3) by (simp_all add: fl_mono)
  then obtain b where b: "fl (1000 * a) = Fin b" "500 \<le> b" "b \<le> 750" unfolding k by (cases "fl (1000 * a)") auto
  have q': "fl (75 / 100) = Fin (3 / 4)" using q by simp
  show "fle (Fin 500) (production_trigger IncidentPolicy (Some (Fin 0)) (Fin 1000))"
    using a(1) b k q' by (simp add: production_trigger_def low_or_median_def IncidentPolicy_def feq_def fmin_def)
  show "fle (production_trigger IncidentPolicy (Some (Fin 1)) (Fin 1000)) (Fin 1)"
    using a(1) b q' q by (simp add: production_trigger_def low_or_median_def IncidentPolicy_def feq_def fmin_def)
qed

section \<open>Charge cycles\<close>

lemma remdups_adj_snoc: "remdups_adj (w @ [s]) = (if w \<noteq> [] \<and> last w = s then remdups_adj w else remdups_adj w @ [s])"
  by (induction w rule: remdups_adj.induct) auto

lemma cycle_fold:
  assumes "c = fold (cycle_step parse_time) rows no_cycle"
  shows "cy_sequence c = remdups_adj (filter (\<lambda>s. s \<noteq> []) (map (\<lambda>r. state_text (fst r)) rows)) \<and>
    cy_absorption c = count_list (cy_sequence c) ''ABSORPTION'' \<and> cy_float c = count_list (cy_sequence c) ''FLOAT'' \<and>
    cy_previous_state c = (if cy_sequence c = [] then None else Some (last (cy_sequence c)))"
  using assms
proof (induction rows arbitrary: c rule: rev_induct)
  case Nil
  then show ?case by (simp add: no_cycle_def)
next
  case (snoc row rows)
  let ?c = "fold (cycle_step parse_time) rows no_cycle" and ?s = "state_text (fst row)"
  let ?w = "filter (\<lambda>s. s \<noteq> []) (map (\<lambda>r. state_text (fst r)) rows)"
  have c: "c = cycle_step parse_time row ?c" using snoc.prems by simp
  have ih: "cy_sequence ?c = remdups_adj ?w" "cy_absorption ?c = count_list (cy_sequence ?c) ''ABSORPTION''"
    "cy_float ?c = count_list (cy_sequence ?c) ''FLOAT''"
    "cy_previous_state ?c = (if cy_sequence ?c = [] then None else Some (last (cy_sequence ?c)))"
    using snoc.IH [OF refl] by blast+
  show ?case
  proof (cases "?s = []")
    case True
    then show ?thesis using ih c by (simp add: cycle_step_def Let_def)
  next
    case False
    note seq = remdups_adj_snoc [of ?w ?s]
    have prev: "cy_previous_state ?c \<noteq> Some ?s \<longleftrightarrow> \<not> (?w \<noteq> [] \<and> last ?w = ?s)"
      using ih(1,4) by (auto simp: last_remdups_adj)
    show ?thesis using ih prev seq False unfolding c
      by (auto simp: cycle_step_def Let_def)
  qed
qed

text \<open>C36: The summary of a day's charge states counts what the rows show: the stage sequence is the rows' states
  with repetitions collapsed, whatever the timestamps are, the entries into Absorption and Float are their occurrences in it,
  and the transitions are one less than its stages.\<close>

theorem cycle_summary_collapses:
  "let seq = remdups_adj (filter (\<lambda>s. s \<noteq> []) (map (\<lambda>r. state_text (fst r)) rows)); c = charge_cycle_summary parse_time rows in
   cs_stage_sequence c = seq \<and> cs_absorption_entries c = count_list seq ''ABSORPTION'' \<and> cs_float_entries c = count_list seq ''FLOAT'' \<and>
   cs_transition_count c = length seq - 1 \<and> cs_observed_samples c = length rows"
  using cycle_fold [of "fold (cycle_step parse_time) rows no_cycle" parse_time rows] by (simp add: charge_cycle_summary_def Let_def)

section \<open>Health score\<close>

definition penalties :: "inc_category \<Rightarrow> incident list \<Rightarrow> int" where
  "penalties c rs = (\<Sum>r \<leftarrow> filter (\<lambda>r. fd_category (in_finding r) = c) rs. penalty (fd_severity (in_finding r)))"

lemma penalty_pos: "0 < penalty s"
  by (cases s) simp_all

lemma penalties_nonneg: "0 \<le> penalties c rs"
  unfolding penalties_def by (induction rs) (auto intro: add_nonneg_nonneg less_imp_le [OF penalty_pos])

lemma scores_fold:
  "fold apply_penalty rs (map (\<lambda>c. (c, max 0 (f c))) cs) = map (\<lambda>c. (c, max 0 (f c - penalties c rs))) cs"
proof (induction rs arbitrary: f)
  case Nil
  then show ?case by (simp add: penalties_def)
next
  case (Cons r rs)
  let ?g = "\<lambda>c. if c = fd_category (in_finding r) then f c - penalty (fd_severity (in_finding r)) else f c"
  have "apply_penalty r (map (\<lambda>c. (c, max 0 (f c))) cs) = map (\<lambda>c. (c, max 0 (?g c))) cs"
    using penalty_pos [of "fd_severity (in_finding r)"] by (auto simp: apply_penalty_def)
  then have "fold apply_penalty (r # rs) (map (\<lambda>c. (c, max 0 (f c))) cs) = map (\<lambda>c. (c, max 0 (?g c - penalties c rs))) cs"
    using Cons.IH [of ?g] by simp
  also have "\<dots> = map (\<lambda>c. (c, max 0 (f c - penalties c (r # rs)))) cs" by (auto simp: penalties_def)
  finally show ?case .
qed

definition categories :: "inc_category list" where
  "categories = [Production, Charging, Battery, Communications, DataIntegrity]"

lemma scores_closed: "fold apply_penalty rs start_scores = map (\<lambda>c. (c, max 0 (20 - penalties c rs))) categories"
  using scores_fold [of rs "\<lambda>c. 20" categories] by (simp add: start_scores_def categories_def)

text \<open>The health score is the sum over the five categories of what is left of 20 points after the penalties of
  the category's incidents, never below zero: so it lies between 0 and 100 and is 100 exactly without incidents.\<close>

theorem health_score_closed_form:
  "hs_score (health_score_of rs) = (\<Sum>c \<leftarrow> categories. max 0 (20 - penalties c rs)) \<and>
   0 \<le> hs_score (health_score_of rs) \<and> hs_score (health_score_of rs) \<le> 100 \<and>
   (hs_score (health_score_of rs) = 100 \<longleftrightarrow> rs = []) \<and> hs_active (health_score_of rs) = length rs"
proof -
  have s: "hs_score (health_score_of rs) = (\<Sum>c \<leftarrow> categories. max 0 (20 - penalties c rs))" for rs
    by (simp add: health_score_of_def Let_def scores_closed comp_def)
  have b: "0 \<le> max 0 (20 - penalties c rs)" "max 0 (20 - penalties c rs) \<le> 20" for c using penalties_nonneg [of c rs] by simp_all
  have "rs \<noteq> [] \<Longrightarrow> \<exists>c. 0 < penalties c rs"
  proof (cases rs)
    case (Cons r rest)
    then have "penalties (fd_category (in_finding r)) rs = penalty (fd_severity (in_finding r)) + penalties (fd_category (in_finding r)) rest"
      by (simp add: penalties_def)
    then have "0 < penalties (fd_category (in_finding r)) rs"
      using penalty_pos [of "fd_severity (in_finding r)"] penalties_nonneg [of "fd_category (in_finding r)" rest] by linarith
    then show ?thesis by blast
  qed simp
  then have ne: "rs \<noteq> [] \<Longrightarrow> hs_score (health_score_of rs) \<noteq> 100"
  proof -
    assume "rs \<noteq> []" and "rs \<noteq> [] \<Longrightarrow> \<exists>c. 0 < penalties c rs"
    then obtain c where c: "0 < penalties c rs" by blast
    show ?thesis unfolding s categories_def
      using c b(2) [of Production] b(2) [of Charging] b(2) [of Battery] b(2) [of Communications] b(2) [of DataIntegrity]
      by (cases c) simp_all
  qed
  have e: "hs_score (health_score_of []) = 100" by (simp add: s categories_def penalties_def)
  have "hs_active (health_score_of rs) = length rs" by (simp add: health_score_of_def Let_def)
  moreover have "0 \<le> hs_score (health_score_of rs) \<and> hs_score (health_score_of rs) \<le> 100"
    unfolding s categories_def using b [of Production] b [of Charging] b [of Battery] b [of Communications] b [of DataIntegrity] by simp
  ultimately show ?thesis using s ne e by auto
qed

end
