(* ===== verification/Scan_Facts.thy ===== *)
theory Scan_Facts
  imports Detector_Facts
begin

text \<open>
  An incident of a controller is active exactly while its detector finds it: the detectors of the scan put together with
  the store.
\<close>

lemma rmap_evaluate: "rmap (evaluate_controller policy) es = Inr (map (\<lambda>e. results_of (controller_results policy e)) es)"
  by (induction es) (simp_all add: evaluate_controller_results)

lemma set_map_filter_iff: "x \<in> set (List.map_filter g ys) \<longleftrightarrow> (\<exists>y \<in> set ys. g y = Some x)"
  by (induction ys) (auto simp: List.map_filter_simps split: option.split)

lemma results_of_mem:
  "f \<in> set (fst (results_of rs)) \<longleftrightarrow> (\<exists>r \<in> set rs. fst r = Some f)"
  "k \<in> set (snd (results_of rs)) \<longleftrightarrow> (\<exists>r \<in> set rs. snd r = Some k)"
  by (simp_all add: results_of_def set_map_filter_iff)

lemma system_results:
  assumes "evaluate_system policy sys es solar = Inr (fs, ks)"
  shows "\<exists>s. named_result ''solar_underproduction'' sys s \<and>
    (\<forall>f. f \<in> set fs \<longleftrightarrow> (\<exists>e \<in> set es. \<exists>r \<in> set (controller_results policy e). fst r = Some f) \<or> fst s = Some f) \<and>
    (\<forall>k. k \<in> set ks \<longleftrightarrow> (\<exists>e \<in> set es. \<exists>r \<in> set (controller_results policy e). snd r = Some k) \<or> snd s = Some k)"
proof -
  obtain b s where r: "solar_finding policy sys b = Inr s"
    "fs = concat (map (\<lambda>e. fst (results_of (controller_results policy e))) es) @ fst (results_of [s])"
    "ks = concat (map (\<lambda>e. snd (results_of (controller_results policy e))) es) @ snd (results_of [s])"
    using assms by (auto simp: evaluate_system_def rbind_eq_Inr rmap_evaluate comp_def)
  show ?thesis
    by (rule exI [of _ s]) (use solar_named [OF r(1)] in \<open>auto simp: r(2,3) results_of_mem simp del: results_of_simps\<close>)
qed

definition named_results_of :: "incident_policy \<Rightarrow> controller_evidence \<Rightarrow> (string \<times> (finding option \<times> string option)) list" where
  "named_results_of policy e = zip (result_names e) (controller_results policy e)"

lemma named_results_of_facts:
  shows "(n, r) \<in> set (named_results_of policy e) \<Longrightarrow> named_result n (ce_uid e) r \<and> n \<in> set detector_names \<and> r \<in> set (controller_results policy e)"
    and "r \<in> set (controller_results policy e) \<Longrightarrow> \<exists>n. (n, r) \<in> set (named_results_of policy e)"
    and "(n, r) \<in> set (named_results_of policy e) \<Longrightarrow> (n, r') \<in> set (named_results_of policy e) \<Longrightarrow> r = r'"
proof -
  have l: "length (result_names e) = length (controller_results policy e)"
    using controller_results_named by (rule list_all2_lengthD)
  show "(n, r) \<in> set (named_results_of policy e) \<Longrightarrow> named_result n (ce_uid e) r \<and> n \<in> set detector_names \<and> r \<in> set (controller_results policy e)"
    using controller_results_named [of e policy] result_names_ok(2) [of e]
    by (auto simp: named_results_of_def list_all2_iff dest: set_zip_leftD set_zip_rightD)
  show "r \<in> set (controller_results policy e) \<Longrightarrow> \<exists>n. (n, r) \<in> set (named_results_of policy e)"
    using l by (metis in_set_impl_in_set_zip2 named_results_of_def)
  show "(n, r) \<in> set (named_results_of policy e) \<Longrightarrow> (n, r') \<in> set (named_results_of policy e) \<Longrightarrow> r = r'"
    using result_names_ok(1) [of e] l unfolding named_results_of_def by (metis map_of_zip_is_None option.inject map_of_eq_Some_iff map_fst_zip)
qed

lemma key_names:
  assumes "n \<in> set detector_names" "n' \<in> set detector_names" "detector_key n u = detector_key n' u'"
  shows "n = n' \<and> u = u'"
  using assms detector_names_ok(2) by (intro detector_key_inj) auto

lemma solar_other: "n \<in> set detector_names \<Longrightarrow> detector_key ''solar_underproduction'' sys \<noteq> detector_key n u"
  using solar_not_keys [of sys "[u]"] by (auto simp: keys_of_def)

text \<open>What a controller's key owes to the scan is the result of its own detector.\<close>

lemma key_of_result:
  assumes "evaluate_system policy sys es solar = Inr (fs, ks)" "distinct (map ce_uid es)" "e \<in> set es" "(n, r) \<in> set (named_results_of policy e)"
  shows "detector_key n (ce_uid e) \<in> fd_fingerprint ` set fs \<longleftrightarrow> fst r \<noteq> None"
    and "detector_key n (ce_uid e) \<in> set ks \<longleftrightarrow> snd r \<noteq> None"
proof -
  obtain s where s: "named_result ''solar_underproduction'' sys s"
    "\<forall>f. f \<in> set fs \<longleftrightarrow> (\<exists>e \<in> set es. \<exists>r \<in> set (controller_results policy e). fst r = Some f) \<or> fst s = Some f"
    "\<forall>k. k \<in> set ks \<longleftrightarrow> (\<exists>e \<in> set es. \<exists>r \<in> set (controller_results policy e). snd r = Some k) \<or> snd s = Some k"
    using system_results [OF assms(1)] by blast
  let ?k = "detector_key n (ce_uid e)"
  have r: "named_result n (ce_uid e) r" "n \<in> set detector_names" "r \<in> set (controller_results policy e)"
    using named_results_of_facts(1) [OF assms(4)] by blast+
  have same: "r' = r" if r': "e' \<in> set es" "r' \<in> set (controller_results policy e')" "snd r' = Some ?k" for e' r'
  proof -
    obtain n' where n': "(n', r') \<in> set (named_results_of policy e')" using named_results_of_facts(2) r'(2) by blast
    then have nr: "named_result n' (ce_uid e') r'" "n' \<in> set detector_names" using named_results_of_facts(1) by blast+
    then have "?k = detector_key n' (ce_uid e')" using r'(3) by (auto simp: named_result_def)
    then have k: "n = n'" "ce_uid e = ce_uid e'" using key_names r(2) nr(2) by blast+
    then have "e' = e" using assms(2,3) r'(1) by (auto simp: distinct_map inj_on_def)
    then show ?thesis using named_results_of_facts(3) assms(4) n' k(1) by blast
  qed
  have solar: "snd s \<noteq> Some ?k" using s(1) solar_other [OF r(2), of sys "ce_uid e"] by (auto simp: named_result_def)
  have sr: "snd r' = Some (fd_fingerprint f)" if "named_result n' u r'" "fst r' = Some f" for n' u r' f
    using that by (auto simp: named_result_def)
  show "?k \<in> set ks \<longleftrightarrow> snd r \<noteq> None"
  proof
    assume "?k \<in> set ks"
    then show "snd r \<noteq> None" using s(3) same solar by (metis option.distinct(1))
  next
    assume "snd r \<noteq> None"
    then have "snd r = Some ?k" using r(1) by (auto simp: named_result_def)
    then show "?k \<in> set ks" using s(3) assms(3) r(3) by blast
  qed
  show "?k \<in> fd_fingerprint ` set fs \<longleftrightarrow> fst r \<noteq> None"
  proof
    assume "?k \<in> fd_fingerprint ` set fs"
    then obtain f where f: "f \<in> set fs" "fd_fingerprint f = ?k" by (metis imageE)
    from f(1) s(2) consider e' r' where "e' \<in> set es" "r' \<in> set (controller_results policy e')" "fst r' = Some f" | "fst s = Some f" by blast
    then show "fst r \<noteq> None"
    proof cases
      case (1 e' r')
      then obtain n' where "(n', r') \<in> set (named_results_of policy e')" using named_results_of_facts(2) by blast
      then have "snd r' = Some ?k" using sr named_results_of_facts(1) 1(3) f(2) by metis
      then have "r' = r" using same 1 by blast
      then show ?thesis using 1(3) by simp
    next
      case 2
      then show ?thesis using sr [OF s(1)] solar f(2) by simp
    qed
  next
    assume "fst r \<noteq> None"
    then obtain f where f: "fst r = Some f" by blast
    then have "f \<in> set fs" "fd_fingerprint f = ?k" using s(2) assms(3) r(1,3) by (auto simp: named_result_def)
    then show "?k \<in> fd_fingerprint ` set fs" by (metis imageI)
  qed
qed

section \<open>Incidents follow their detectors\<close>

text \<open>The rows of the detectors carry their fingerprint as evaluation key.\<close>

definition keyed :: "incident_table \<Rightarrow> bool" where
  "keyed t \<longleftrightarrow> (\<forall>r \<in> set t. fd_evaluation_key (in_finding r) = in_fingerprint r)"

definition active_keys :: "string \<Rightarrow> incident_table \<Rightarrow> string set" where
  "active_keys sys t = in_fingerprint ` {r \<in> set t. active_in sys r}"

lemma keyed_scanned: "keyed t \<Longrightarrow> keyed (map (scanned sys ts fs evaluated) t)"
  using continues_scanned [of _ sys ts fs evaluated] by (auto simp: keyed_def continues_def)

text \<open>C34: After a scan that returns, an incident of a controller is active exactly when its detector found it:
  for every detector of every controller of the system, an incident with its key is active if the detector had a finding,
  is not active if the detector was evaluated without one, and is as it was if the detector had no evidence.\<close>

theorem incident_tracks_detector:
  assumes "table_ok t" "keyed t" "fresh_for fresh t" "distinct (map ce_uid es)"
    "scan fresh policy sys now es solar t = (t', Inr trs)" "e \<in> set es" "(n, r) \<in> set (named_results_of policy e)"
  shows "keyed t' \<and> (detector_key n (ce_uid e) \<in> active_keys sys t' \<longleftrightarrow>
    (case r of (Some f, _) \<Rightarrow> True | (None, Some k) \<Rightarrow> False | (None, None) \<Rightarrow> detector_key n (ce_uid e) \<in> active_keys sys t))"
proof -
  obtain fs ks where ev: "evaluate_system policy sys es solar = Inr (fs, ks)" and rc: "reconcile fresh sys now fs (set ks) t = (t', Inr trs)"
    using assms(5) by (auto simp: scan_def split: sum.splits prod.splits)
  have ok: "findings_ok fs ks" using system_findings [OF ev assms(4)] .
  then have d: "distinct (map fd_fingerprint fs)" and k: "\<forall>f \<in> set fs. fd_evaluation_key f = fd_fingerprint f" by (auto simp: findings_ok_def)
  note t' = active_after [OF assms(1,3) d rc]
  have "keyed (opened fresh sys now 0 (unknown_findings sys t fs))"
    using k opened_mem [of _ fresh sys now 0 "unknown_findings sys t fs"] unfolding keyed_def unknown_findings_def by fastforce
  then have "keyed t'" using keyed_scanned [OF assms(2)] unfolding t' by (auto simp: keyed_def)
  moreover have "active_keys sys t' = fd_fingerprint ` set fs \<union> (active_keys sys t - set ks)"
  proof -
    have "{r \<in> set t. active_in sys r \<and> fd_evaluation_key (in_finding r) \<notin> set ks} = {r \<in> set t. active_in sys r \<and> in_fingerprint r \<in> - set ks}"
      using assms(2) by (auto simp: keyed_def)
    then have "in_fingerprint ` {r \<in> set t. active_in sys r \<and> fd_evaluation_key (in_finding r) \<notin> set ks} = - set ks \<inter> active_keys sys t"
      unfolding active_keys_def by (simp only: image_restrict)
    with active_fingerprints [OF assms(1,3) d rc, THEN conjunct1]
    have "active_keys sys t' = fd_fingerprint ` set fs \<union> (- set ks \<inter> active_keys sys t)" by (simp only: active_keys_def)
    then show ?thesis by (simp add: Diff_eq Int_commute)
  qed
  ultimately show ?thesis
    using key_of_result [OF ev assms(4,6,7)] named_results_of_facts(1) [OF assms(7)]
    by (cases r; cases "fst r"; cases "snd r") (auto simp: named_result_def)
qed

theorem incident_tracks_detector_witness:
  "detector_key ''controller_offline'' ''c'' \<in> active_keys ''s''
     (fst (scan (counted CHR ''a'') IncidentPolicy ''s'' ''now'' [silent_controller] (Inr no_baseline) []))"
proof -
  obtain f where f: "evaluate_system IncidentPolicy ''s'' [silent_controller] (Inr no_baseline) = Inr ([f], [detector_key ''controller_offline'' ''c''])"
    using evaluate_silent by blast
  have fr: "fresh_for (counted CHR ''a'') []" by (rule fresh_counted) simp
  have ok: "table_ok []" "keyed []" "\<not> foreign ''s'' [f] []" by (simp_all add: table_ok_def keyed_def foreign_def)
  obtain t' trs where sc: "scan (counted CHR ''a'') IncidentPolicy ''s'' ''now'' [silent_controller] (Inr no_baseline) [] = (t', Inr trs)"
  proof (rule reconcile_cases [OF ok(1) fr, of "[f]" "''s''" "''now''" "{detector_key ''controller_offline'' ''c''}"])
    fix trs assume "reconcile (counted CHR ''a'') ''s'' ''now'' [f] {detector_key ''controller_offline'' ''c''} [] =
       (map (scanned ''s'' ''now'' [f] {detector_key ''controller_offline'' ''c''}) [] @
        opened (counted CHR ''a'') ''s'' ''now'' 0 (unknown_findings ''s'' [] [f]), Inr trs)"
    then show thesis using that by (simp add: scan_def f)
  qed (use ok in simp_all)
  obtain g where g: "offline_finding ''c'' None = Some g"
    by (simp add: offline_finding_def str_lower_def to_lower_def is_upper_def code_of_def Let_def)
  have "(''controller_offline'', (Some g, Some (detector_key ''controller_offline'' ''c''))) \<in> set (named_results_of IncidentPolicy silent_controller)"
    by (simp add: named_results_of_def result_names_def controller_results_def silent_controller_def g Let_def)
  from incident_tracks_detector [OF ok(1,2) fr _ sc _ this] show ?thesis
    by (simp add: sc) (simp add: silent_controller_def)
qed

end
