(* ===== verification/System_Power.thy ===== *)
theory System_Power
  imports System_Data Py_Format
begin

text \<open>
  \<open>systems/power.py\<close>: the power flow of a system and its ledger of energy.  A value that no controller
  reports stays unknown: nothing is inferred.
\<close>

section \<open>Views of a metric\<close>

datatype view_status = Unknown | Observed | DerivedStatus

datatype resolution = SingleSource | ConsensusMedian | Conflict

record metric_view =
  mv_value :: metric_value
  mv_unit :: "string option"
  mv_quality :: metric_quality
  mv_status :: view_status
  mv_sources :: "observation list"
  mv_resolution :: "resolution option"
  mv_reason :: "string option"

fun number :: "metric_value \<Rightarrow> pyfloat option" where
  "number (MvNumber x) = Some x"
| "number _ = None"

definition metric_view_of :: "system_latest \<Rightarrow> string \<Rightarrow> metric_view" where
  "metric_view_of latest name = (case map_of (sl_metrics latest) name of
     None \<Rightarrow> \<lparr>mv_value = MvNone, mv_unit = None, mv_quality = QEmpty, mv_status = Unknown, mv_sources = [],
       mv_resolution = None, mv_reason = None\<rparr>
   | Some m \<Rightarrow> \<lparr>mv_value = mt_value m, mv_unit = mt_unit m, mv_quality = mt_quality m,
       mv_status = (if mt_value m \<noteq> MvNone then Observed else Unknown), mv_sources = mt_sources m,
       mv_resolution = None, mv_reason = None\<rparr>)"

definition conflict_reason :: "pyfloat \<Rightarrow> pyfloat \<Rightarrow> string" where
  "conflict_reason spread tolerance =
    ''Multiple whole-system observations disagree by '' @ fmt_fixed 3 spread @ '', exceeding the '' @
    fmt_fixed 3 tolerance @ '' resolution tolerance.''"

definition resolve_sources :: "pyfloat \<Rightarrow> pyfloat \<Rightarrow> metric_view \<Rightarrow> metric_view" where
  "resolve_sources absolute_tolerance relative_tolerance result =
    (let values = List.map_filter (\<lambda>ob. numeric_of (ob_value ob)) (mv_sources result) in
     if values = [] then result
     else if length values = 1 then
       result\<lparr>mv_value := MvNumber (values ! 0), mv_resolution := Some SingleSource, mv_status := Observed\<rparr>
     else
       let center = median values;
           tolerance = fmax absolute_tolerance (fmul (fabs center) relative_tolerance);
           spread = fsub (max_of values) (min_of values) in
       if flt tolerance spread then
         result\<lparr>mv_value := MvNone, mv_quality := QConflict, mv_status := Unknown, mv_resolution := Some Conflict,
           mv_reason := Some (conflict_reason spread tolerance)\<rparr>
       else result\<lparr>mv_value := MvNumber center, mv_resolution := Some ConsensusMedian, mv_status := Observed\<rparr>)"

definition resolved_system_metric :: "pyfloat \<Rightarrow> pyfloat \<Rightarrow> system_latest \<Rightarrow> string \<Rightarrow> metric_view" where
  "resolved_system_metric absolute_tolerance relative_tolerance latest name =
    resolve_sources absolute_tolerance relative_tolerance (metric_view_of latest name)"

abbreviation resolved_default :: "system_latest \<Rightarrow> string \<Rightarrow> metric_view" where
  "resolved_default \<equiv> resolved_system_metric (fl (1 / 2)) (fl (5 / 100))"

record derived_view =
  dv_value :: "pyfloat option"
  dv_unit :: string
  dv_quality :: metric_quality
  dv_status :: view_status
  dv_formula :: string
  dv_inputs :: "string list"

definition derived_of :: "pyfloat option \<Rightarrow> string \<Rightarrow> string \<Rightarrow> string list \<Rightarrow> derived_view" where
  "derived_of value unit formula inputs =
    \<lparr>dv_value = value, dv_unit = unit, dv_quality = (if value \<noteq> None then QDerived else QEmpty),
     dv_status = (if value \<noteq> None then DerivedStatus else Unknown), dv_formula = formula, dv_inputs = inputs\<rparr>"

definition unknown_of :: "string option \<Rightarrow> string \<Rightarrow> metric_view" where
  "unknown_of unit reason = \<lparr>mv_value = MvNone, mv_unit = unit, mv_quality = QEmpty, mv_status = Unknown,
     mv_sources = [], mv_resolution = None, mv_reason = Some reason\<rparr>"

section \<open>Power flow\<close>

record power_flow =
  pf_quality :: metric_quality
  pf_sources :: "(string \<times> metric_view) list"
  pf_battery :: "(string \<times> metric_view) list"
  pf_battery_net_power :: derived_view
  pf_loads :: "(string \<times> metric_view) list"
  pf_dc_power :: derived_view
  pf_controller_residual :: derived_view
  pf_efficiency :: derived_view
  pf_system_charge_power :: derived_view
  pf_current_residual :: derived_view
  pf_whole_system_residual :: derived_view
  pf_unknowns :: "string list"

text \<open>An operation on two floats that may be missing.\<close>

definition lift2 :: "(pyfloat \<Rightarrow> pyfloat \<Rightarrow> pyfloat) \<Rightarrow> pyfloat option \<Rightarrow> pyfloat option \<Rightarrow> pyfloat option" where
  "lift2 f a b = (case (a, b) of (Some x, Some y) \<Rightarrow> Some (f x y) | _ \<Rightarrow> None)"

definition efficiency_of :: "pyfloat option \<Rightarrow> pyfloat option \<Rightarrow> pyfloat option res" where
  "efficiency_of solar charge = (case (solar, charge) of
     (Some s, Some c) \<Rightarrow> if flt (Fin 0) s then rbind (fdiv c s) (\<lambda>r. Inr (Some (fmul r (Fin 100)))) else Inr None
   | _ \<Rightarrow> Inr None)"

definition flow_unknowns :: "pyfloat option \<Rightarrow> pyfloat option \<Rightarrow> pyfloat option \<Rightarrow> string list" where
  "flow_unknowns battery_net load system_charge =
    [''generator/auxiliary-source instantaneous power is not inferred from controller state alone''] @
    (if battery_net = None then [''battery net current/power requires a resolved source-backed system or shunt measurement''] else []) @
    (if load = None then [''load current/power requires a resolved source-backed system or shunt measurement''] else []) @
    (if system_charge = None then [''whole-system charging current is unavailable or conflicting; controller-local charge remains separate''] else [])"

definition power_flow_of :: "system_latest \<Rightarrow> power_flow res" where
  "power_flow_of latest =
    (let solar = metric_view_of latest ''solar_input_power_w'';
         charge_power = metric_view_of latest ''charge_output_power_w'';
         charge_current = metric_view_of latest ''battery_charge_current_a'';
         system_charge_current = resolved_default latest ''system_charge_current_a'';
         battery_net_current = resolved_default latest ''battery_net_current_a'';
         system_load_current = resolved_default latest ''system_load_current_a'';
         battery_voltage = metric_view_of latest ''battery_voltage_v'';
         load_voltage = metric_view_of latest ''load_voltage_v'';
         battery_soc = metric_view_of latest ''battery_soc_percent'';
         solar_w = number (mv_value solar);
         charge_w = number (mv_value charge_power);
         system_charge_a = number (mv_value system_charge_current);
         battery_net_a = number (mv_value battery_net_current);
         load_a = number (mv_value system_load_current);
         battery_v = number (mv_value battery_voltage);
         load_v = number (mv_value load_voltage);
         system_charge_w = lift2 fmul system_charge_a battery_v;
         battery_net_w = lift2 fmul battery_net_a battery_v;
         dc_load_w = lift2 fmul load_a load_v in
     rbind (efficiency_of solar_w charge_w) (\<lambda>efficiency.
       Inr \<lparr>pf_quality = (if list_all (\<lambda>v. v = None) [solar_w, charge_w, system_charge_a, battery_net_a, load_a] then QEmpty else QPartial),
         pf_sources =
           [(''solar_input_power_w'', solar),
            (''generator_power_w'', unknown_of (Some ''W'') ''No source-backed generator power metric is available.''),
            (''auxiliary_power_w'', unknown_of (Some ''W'') ''No source-backed instantaneous auxiliary-source power metric is available.'')],
         pf_battery =
           [(''voltage_v'', battery_voltage), (''charge_current_a'', charge_current),
            (''system_charge_current_a'', system_charge_current), (''charge_power_w'', charge_power),
            (''soc_percent'', battery_soc), (''net_current_a'', battery_net_current)],
         pf_battery_net_power = derived_of battery_net_w ''W'' ''battery_net_current_a * battery_voltage_v''
           [''battery_net_current_a'', ''battery_voltage_v''],
         pf_loads =
           [(''dc_current_a'', system_load_current), (''voltage_v'', load_voltage),
            (''inverter_power_w'', unknown_of (Some ''W'') ''No source-backed inverter power metric is available.'')],
         pf_dc_power = derived_of dc_load_w ''W'' ''system_load_current_a * load_voltage_v''
           [''system_load_current_a'', ''load_voltage_v''],
         pf_controller_residual = derived_of (lift2 fsub solar_w charge_w) ''W'' ''solar_input_power_w - charge_output_power_w''
           [''solar_input_power_w'', ''charge_output_power_w''],
         pf_efficiency = derived_of efficiency ''%'' ''charge_output_power_w / solar_input_power_w * 100''
           [''charge_output_power_w'', ''solar_input_power_w''],
         pf_system_charge_power = derived_of system_charge_w ''W'' ''system_charge_current_a * battery_voltage_v''
           [''system_charge_current_a'', ''battery_voltage_v''],
         pf_current_residual = derived_of (lift2 fsub (lift2 fsub system_charge_a battery_net_a) load_a) ''A''
           ''system_charge_current_a - battery_net_current_a - system_load_current_a''
           [''system_charge_current_a'', ''battery_net_current_a'', ''system_load_current_a''],
         pf_whole_system_residual = derived_of (lift2 fsub (lift2 fsub system_charge_w battery_net_w) dc_load_w) ''W''
           ''system_charge_power_w - battery_net_power_w - dc_load_power_w''
           [''system_charge_power_w'', ''battery_net_power_w'', ''dc_load_power_w''],
         pf_unknowns = flow_unknowns battery_net_a load_a system_charge_a\<rparr>))"

section \<open>The energy ledger\<close>

record ledger_field =
  lf_value :: "pyfloat option"
  lf_unit :: string
  lf_status :: view_status
  lf_quality :: metric_quality
  lf_source_metric :: "string option"
  lf_formula :: "string option"
  lf_reason :: "string option"

definition unknown_field :: "string \<Rightarrow> ledger_field" where
  "unknown_field reason = \<lparr>lf_value = None, lf_unit = ''Wh'', lf_status = Unknown, lf_quality = QEmpty,
     lf_source_metric = None, lf_formula = None, lf_reason = Some reason\<rparr>"

definition battery_charge_field :: "metric_view \<Rightarrow> metric_view \<Rightarrow> metric_view \<Rightarrow> ledger_field" where
  "battery_charge_field system_charge_kwh daily_wh daily_kwh =
    (let (value, source, quality, status, formula) =
       (case number (mv_value system_charge_kwh) of
          Some k \<Rightarrow> (Some (fmul k (Fin 1000)), Some ''system_charge_kwh_daily'', QDerived, DerivedStatus,
            Some ''system_charge_kwh_daily * 1000'')
        | None \<Rightarrow>
          (case number (mv_value daily_wh) of
             Some w \<Rightarrow> (Some w, Some ''daily_charge_wh'', mv_quality daily_wh, Observed, None)
           | None \<Rightarrow>
             (case number (mv_value daily_kwh) of
                Some k \<Rightarrow> (Some (fmul k (Fin 1000)), Some ''daily_charge_kwh'', QDerived, DerivedStatus,
                  Some ''daily_charge_kwh * 1000'')
              | None \<Rightarrow> (None, None, QEmpty, Unknown, None)))) in
     \<lparr>lf_value = value, lf_unit = ''Wh'', lf_status = status, lf_quality = quality, lf_source_metric = source, lf_formula = formula,
      lf_reason = (if value \<noteq> None then None
        else Some ''No resolved source-backed daily battery-charge energy counter is available.'')\<rparr>)"

definition external_charge_field :: "metric_view \<Rightarrow> ledger_field" where
  "external_charge_field external_source_kwh = (case number (mv_value external_source_kwh) of
     Some k \<Rightarrow> \<lparr>lf_value = Some (fmul k (Fin 1000)), lf_unit = ''Wh'', lf_status = DerivedStatus, lf_quality = QDerived,
       lf_source_metric = Some ''external_source_charge_kwh_daily'', lf_formula = Some ''external_source_charge_kwh_daily * 1000'',
       lf_reason = None\<rparr>
   | None \<Rightarrow> \<lparr>lf_value = None, lf_unit = ''Wh'', lf_status = Unknown, lf_quality = QEmpty, lf_source_metric = None,
       lf_formula = None, lf_reason = Some ''No resolved aggregated external-source shunt energy counter is available.''\<rparr>)"

record energy_ledger =
  el_quality :: metric_quality
  el_flows :: "(string \<times> ledger_field) list"
  el_counters :: "(string \<times> metric_view) list"

definition resolved_kwh :: "system_latest \<Rightarrow> string \<Rightarrow> metric_view" where
  "resolved_kwh = resolved_system_metric (fl (5 / 100)) (fl (2 / 100))"

definition resolved_ah :: "system_latest \<Rightarrow> string \<Rightarrow> metric_view" where
  "resolved_ah = resolved_system_metric (fl (1 / 2)) (fl (2 / 100))"

definition energy_ledger_of :: "system_latest \<Rightarrow> energy_ledger" where
  "energy_ledger_of latest =
    (let daily_wh = metric_view_of latest ''daily_charge_wh'';
         daily_kwh = metric_view_of latest ''daily_charge_kwh'';
         daily_ah = metric_view_of latest ''daily_charge_ah'';
         lifetime_kwh = metric_view_of latest ''lifetime_charge_kwh'';
         system_charge_kwh = resolved_kwh latest ''system_charge_kwh_daily'';
         system_charge_ah = resolved_ah latest ''system_charge_ah_daily'';
         system_battery_ah = resolved_ah latest ''system_battery_ah_daily'';
         system_load_ah = resolved_ah latest ''system_load_ah_daily'';
         external_source_kwh = resolved_kwh latest ''external_source_charge_kwh_daily'';
         external_source_ah = resolved_ah latest ''external_source_charge_ah_daily'';
         shunt_battery_ah = resolved_ah latest ''shunt_battery_net_ah_daily'';
         shunt_load_ah = resolved_ah latest ''shunt_load_ah_daily'';
         battery_charge = battery_charge_field system_charge_kwh daily_wh daily_kwh;
         external_source_charge = external_charge_field external_source_kwh in
     \<lparr>el_quality = (if lf_value battery_charge \<noteq> None \<or> lf_value external_source_charge \<noteq> None \<or>
          number (mv_value system_battery_ah) \<noteq> None \<or> number (mv_value system_load_ah) \<noteq> None then QPartial else QEmpty),
      el_flows =
        [(''solar_generated_wh'', unknown_field ''No source-backed system-wide measurement is available; value is not inferred.''),
         (''generator_generated_wh'', unknown_field ''External-source shunt energy is not labeled as generator energy because the source may be a generator, charger, fuel cell, or other DC source.''),
         (''external_source_charge_wh'', external_source_charge),
         (''battery_charge_wh'', battery_charge),
         (''battery_discharge_wh'', unknown_field ''Signed battery Ah counters do not provide separate discharge Wh without time-resolved voltage/current or a source-backed discharge-energy counter.''),
         (''load_consumption_wh'', unknown_field ''Load Ah counters are preserved natively and are not converted to Wh using an unrelated instantaneous voltage.''),
         (''conversion_losses_wh'', unknown_field ''Instantaneous controller residuals are not integrated into energy without source-backed interval coverage.''),
         (''unaccounted_energy_wh'', unknown_field ''A complete energy balance requires source, battery-discharge, and load energy measurements.'')],
      el_counters =
        [(''daily_charge_ah'', daily_ah), (''daily_charge_kwh'', daily_kwh), (''lifetime_charge_kwh'', lifetime_kwh),
         (''system_charge_ah_daily'', system_charge_ah), (''system_charge_kwh_daily'', system_charge_kwh),
         (''system_battery_ah_daily'', system_battery_ah), (''system_load_ah_daily'', system_load_ah),
         (''external_source_charge_ah_daily'', external_source_ah),
         (''external_source_charge_kwh_daily'', external_source_kwh),
         (''shunt_battery_net_ah_daily'', shunt_battery_ah), (''shunt_load_ah_daily'', shunt_load_ah)]\<rparr>)"

end
