(* ===== verification/System_Facts.thy ===== *)
theory System_Facts
  imports System_Data Catalog_Selection
begin

text \<open>
  What the metrics of a system say: each value comes from registers of the metric, the first one a sample has in the
  order of preference; the health of a system as a statement on the samples; membership of controllers.
\<close>

section \<open>Where a value comes from\<close>

definition usable :: "(string \<rightharpoonup> value_row) \<Rightarrow> string \<Rightarrow> bool" where
  "usable rows r \<longleftrightarrow> (case rows r of None \<Rightarrow> False | Some row \<Rightarrow> vr_value row \<noteq> CNull)"

lemma select_from_find:
  "select_from rows unit rs = map_option (\<lambda>r. (r, vr_value (the (rows r)), unit_or (vr_unit (the (rows r))) unit)) (List.find (usable rows) rs)"
  by (induction rs) (auto simp: usable_def split: option.splits)

lemma select_from_Some:
  assumes "select_from rows unit rs = Some (r, v, u)"
  obtains row where "rows r = Some row" "vr_value row = v" "v \<noteq> CNull" "r \<in> set rs" "takeWhile (\<lambda>r. \<not> usable rows r) rs = takeWhile (\<lambda>x. x \<noteq> r) rs"
proof -
  from assms have f: "List.find (usable rows) rs = Some r" "v = vr_value (the (rows r))" by (auto simp: select_from_find)
  from f(1) obtain i where i: "i < length rs" "usable rows (rs ! i)" "r = rs ! i" "\<forall>j < i. \<not> usable rows (rs ! j)"
    by (auto simp: find_Some_iff)
  then obtain row where row: "rows r = Some row" "vr_value row \<noteq> CNull" by (auto simp: usable_def split: option.splits)
  have "takeWhile (\<lambda>r. \<not> usable rows r) rs = take i rs" using i by (intro takeWhile_eq_take_P_nth) auto
  moreover have "takeWhile (\<lambda>x. x \<noteq> r) rs = take i rs" using i by (intro takeWhile_eq_take_P_nth) auto
  ultimately show thesis using that row f(2) i(1,3) by simp
qed

lemma select_from_None: "select_from rows unit rs = None \<longleftrightarrow> (\<forall>r \<in> set rs. \<not> usable rows r)"
  by (auto simp: select_from_find find_None_iff)

lemma by_name_mem: "by_name values r = Some v \<Longrightarrow> v \<in> set values \<and> vr_name v = r"
  by (auto simp: by_name_def dest: map_of_SomeD)

lemma by_name_None: "by_name values r = None \<longleftrightarrow> r \<notin> vr_name ` set values"
  by (auto simp: by_name_def map_of_eq_None_iff image_image)

text \<open>A metric's observation is the value of a row of the sample, of a register that is one of the metric's.\<close>

lemma select_value_sound:
  assumes "select_value sample spec = Some (r, v, u)"
  shows "r \<in> set (smt_registers spec) \<and> v \<noteq> CNull \<and> (\<exists>row \<in> set (sn_values sample). vr_name row = r \<and> vr_value row = v)"
proof -
  from assms obtain row where "by_name (sn_values sample) r = Some row" "vr_value row = v" "v \<noteq> CNull" "r \<in> set (smt_registers spec)"
    unfolding select_value_def by (rule select_from_Some)
  then show ?thesis using by_name_mem by blast
qed

lemma select_value_none:
  "\<forall>row \<in> set (sn_values sample). vr_name row \<notin> set (smt_registers spec) \<Longrightarrow> select_value sample spec = None"
  unfolding select_value_def select_from_None usable_def by (auto split: option.splits dest: by_name_mem)

lemma observations_none:
  assumes "\<forall>(c, s) \<in> set pairs. case s of None \<Rightarrow> True | Some sample \<Rightarrow> select_value sample spec = None"
  shows "List.map_filter (observe_metric spec) pairs = []"
  using assms by (induction pairs) (auto simp: List.map_filter_simps observe_metric_def split: option.splits)

lemma metric_lookup:
  "map_of (sl_metrics (system_latest_of now parse_time pairs)) name = map_option (metric_of now parse_time pairs) (metric_spec name)"
proof -
  have "map_of (map (\<lambda>m. (smt_name m, f m)) ms) name = map_option f (map_of (map (\<lambda>m. (smt_name m, m)) ms) name)" for f :: "system_metric_spec \<Rightarrow> metric" and ms
    by (induction ms) simp_all
  moreover have "map_of (map (\<lambda>m. (smt_name m, m)) SYSTEM_METRICS) = map_of (rev (map (\<lambda>m. (smt_name m, m)) SYSTEM_METRICS))"
    by (subst map_of_inject_set) (simp_all add: comp_def rev_map [symmetric] metric_names_distinct)
  ultimately show ?thesis by (simp add: system_latest_of_def metric_spec_def SYSTEM_METRIC_BY_NAME_def)
qed

lemma metric_of_fields [simp]:
  "mt_sources (metric_of now parse_time pairs spec) = List.map_filter (observe_metric spec) pairs"
  "mt_value (metric_of now parse_time pairs spec) = aggregate_value (smt_aggregation spec) (List.map_filter (observe_metric spec) pairs)"
  by (simp_all add: metric_of_def aggregate_observations_def Let_def)

section \<open>Health\<close>

definition faults_spec :: system_metric_spec where
  "faults_spec = the (metric_spec ''faults'')"

definition alarms_spec :: system_metric_spec where
  "alarms_spec = the (metric_spec ''alarms'')"

lemma health_specs:
  "metric_spec ''faults'' = Some faults_spec" "metric_spec ''alarms'' = Some alarms_spec"
  "smt_registers faults_spec = [''faults'', ''fault_state'', ''active_faults'']"
  "smt_registers alarms_spec = [''alarms'', ''alarm_state'', ''active_alarms'']"
proof -
  have "(case metric_spec ''faults'' of Some m \<Rightarrow> smt_registers m = [''faults'', ''fault_state'', ''active_faults''] | None \<Rightarrow> False)"
    "(case metric_spec ''alarms'' of Some m \<Rightarrow> smt_registers m = [''alarms'', ''alarm_state'', ''active_alarms''] | None \<Rightarrow> False)"
    by (simp_all add: metric_spec_def SYSTEM_METRIC_BY_NAME_def SYSTEM_METRICS_def)
  then show "metric_spec ''faults'' = Some faults_spec" "metric_spec ''alarms'' = Some alarms_spec"
    "smt_registers faults_spec = [''faults'', ''fault_state'', ''active_faults'']"
    "smt_registers alarms_spec = [''alarms'', ''alarm_state'', ''active_alarms'']"
    by (auto simp: faults_spec_def alarms_spec_def split: option.splits)
qed

definition reports :: "system_metric_spec \<Rightarrow> controller_row \<times> snapshot option \<Rightarrow> bool" where
  "reports spec x \<longleftrightarrow> (\<exists>sample r v u. snd x = Some sample \<and> select_value sample spec = Some (r, v, u) \<and> \<not> state_clear v)"

lemma active_sources_count:
  assumes "metric_spec name = Some spec"
  shows "active_sources name (system_latest_of now parse_time pairs) = length (filter (reports spec) pairs)"
proof -
  have "length (filter (\<lambda>ob. \<not> state_clear (ob_value ob)) (List.map_filter (observe_metric spec) ps)) = length (filter (reports spec) ps)" for ps
  proof (induction ps)
    case (Cons p ps)
    then show ?case
      by (cases p) (auto simp: List.map_filter_simps observe_metric_def reports_def split: option.splits prod.splits)
  qed (simp add: List.map_filter_simps)
  then show ?thesis by (simp add: active_sources_def metric_lookup assms)
qed

lemma status_counts_offline:
  "sum_list (map snd (filter (\<lambda>(state, n). state \<noteq> ''online'') (status_counts controllers))) = length (filter (\<lambda>c. status_of_row c \<noteq> ''online'') controllers)"
proof -
  let ?f = "\<lambda>c m. AList.update (status_of_row c) ((case map_of m (status_of_row c) of Some n \<Rightarrow> n | None \<Rightarrow> 0) + 1) m"
  let ?off = "\<lambda>m. sum_list (map snd (filter (\<lambda>(state, n :: nat). state \<noteq> ''online'') m))"
  have u: "?off (AList.update k n m) + (if k = ''online'' then 0 else case map_of m k of Some j \<Rightarrow> j | None \<Rightarrow> 0) =
      ?off m + (if k = ''online'' then 0 else n)" if "distinct (map fst m)" for m k n
    using that by (induction m) (auto simp del: map_of_eq_Some_iff split: option.splits)
  have upd: "?off (AList.update k (Suc (case map_of m k of Some n \<Rightarrow> n | None \<Rightarrow> 0)) m) =
      ?off m + (if k = ''online'' then 0 else 1)" if "distinct (map fst m)" for m k
    using u [OF that, of k "Suc (case map_of m k of Some n \<Rightarrow> n | None \<Rightarrow> 0)"] by (auto split: if_splits)
  have "distinct (map fst m) \<Longrightarrow> ?off (fold ?f cs m) = ?off m + length (filter (\<lambda>c. status_of_row c \<noteq> ''online'') cs)" for cs m
    by (induction cs arbitrary: m) (simp_all add: upd distinct_update)
  then show ?thesis by (simp add: status_counts_def)
qed

text \<open>The health of a system is a statement on its samples: it is critical exactly when some controller's
  sample has a fault register whose value is not clear, else a warning exactly when some alarm register is not clear
  or a controller is not online, else ok.\<close>

theorem health_exact:
  "sh_status (health (system_latest_of now parse_time pairs) controllers) =
    (if \<exists>x \<in> set pairs. reports faults_spec x then StatusCritical
     else if (\<exists>x \<in> set pairs. reports alarms_spec x) \<or> (\<exists>c \<in> set controllers. status_of_row c \<noteq> ''online'') then StatusWarning
     else StatusOk)"
  by (simp add: health_def Let_def active_sources_count [OF health_specs(1)] active_sources_count [OF health_specs(2)]
      status_counts_offline filter_empty_conv del: status_counts_def)

section \<open>Values between the observations\<close>

definition numbers_of :: "observation list \<Rightarrow> pyfloat list" where
  "numbers_of observations = List.map_filter (\<lambda>ob. numeric_of (ob_value ob)) observations"

text \<open>A metric that is no sum lies between its observations: the median, the largest and the smallest value
  of the controllers are finite and at least the smallest and at most the largest number that a controller
  reported, and there is no value exactly when no controller reported a number.\<close>

theorem aggregate_between:
  assumes "\<forall>x \<in> set (numbers_of observations). moderate x" "aggregation \<in> {AggMedian, AggMax, AggMin}"
  shows "if numbers_of observations = [] then aggregate_value aggregation observations = MvNone
    else \<exists>v. aggregate_value aggregation observations = MvNumber v \<and> fis_finite v \<and>
      Min (set (numbers_of observations)) \<le> v \<and> v \<le> Max (set (numbers_of observations))"
proof (cases "numbers_of observations = []")
  case True
  then show ?thesis using assms(2) by (auto simp: aggregate_value_def numbers_of_def Let_def)
next
  case False
  let ?xs = "numbers_of observations"
  have n: "NaN \<notin> set ?xs" using assms(1) by (metis moderate_not_NaN(1))
  have fin: "x \<in> set ?xs \<Longrightarrow> fis_finite x" for x using assms(1) moderate_Fin [of x] by (auto simp: fis_finite_def)
  have "Max (set ?xs) \<in> set ?xs" "Min (set ?xs) \<in> set ?xs" using False by simp_all
  then have "fis_finite (max_of ?xs)" "fis_finite (min_of ?xs)" "Min (set ?xs) \<le> max_of ?xs" "max_of ?xs \<le> Max (set ?xs)"
    "Min (set ?xs) \<le> min_of ?xs" "min_of ?xs \<le> Max (set ?xs)"
    unfolding max_of_Max [OF False n] min_of_Min [OF False n] by (auto intro: fin)
  moreover note median_between [OF False assms(1)]
  moreover have "aggregate_value aggregation observations = MvNumber (case aggregation of AggMedian \<Rightarrow> median ?xs | AggMax \<Rightarrow> max_of ?xs | _ \<Rightarrow> min_of ?xs)"
    using assms(2) False by (auto simp: aggregate_value_def numbers_of_def Let_def)
  ultimately show ?thesis using assms(2) False by auto
qed

theorem aggregate_between_witness:
  "\<exists>v. aggregate_value AggMedian [\<lparr>ob_controller_uid = ''c'', ob_observed_at = ''t'', ob_register_name = ''battery_voltage'',
      ob_value = CNumber (Fin 12), ob_unit = None\<rparr>] = MvNumber v \<and> Fin 12 \<le> v \<and> v \<le> Fin 12"
  using aggregate_between [of "[\<lparr>ob_controller_uid = ''c'', ob_observed_at = ''t'', ob_register_name = ''battery_voltage'',
      ob_value = CNumber (Fin 12), ob_unit = None\<rparr>]" AggMedian] fl_int [of 12]
  by (auto simp: numbers_of_def List.map_filter_simps moderate_def)

section \<open>Membership\<close>

lemma sync_members:
  "set (sy_members (sync_memberships uid cs db)) = set (sy_members db) \<union> (\<lambda>c. (uid, ct_uid c)) ` set cs"
  "distinct (sy_members db) \<Longrightarrow> distinct (sy_members (sync_memberships uid cs db))"
  "sy_systems (sync_memberships uid cs db) = sy_systems db"
proof -
  let ?f = "\<lambda>c ms. if (uid, ct_uid c) \<in> set ms then ms else ms @ [(uid, ct_uid c)]"
  have "set (fold ?f cs ms) = set ms \<union> (\<lambda>c. (uid, ct_uid c)) ` set cs" for ms by (induction cs arbitrary: ms) auto
  then show "set (sy_members (sync_memberships uid cs db)) = set (sy_members db) \<union> (\<lambda>c. (uid, ct_uid c)) ` set cs"
    by (simp add: sync_memberships_def)
  have "distinct ms \<Longrightarrow> distinct (fold ?f cs ms)" for ms by (induction cs arbitrary: ms) auto
  then show "distinct (sy_members db) \<Longrightarrow> distinct (sy_members (sync_memberships uid cs db))"
    by (simp add: sync_memberships_def)
qed (simp add: sync_memberships_def)

lemma sync_again:
  assumes "\<forall>c \<in> set cs. (uid, ct_uid c) \<in> set (sy_members db)" shows "sync_memberships uid cs db = db"
proof -
  let ?f = "\<lambda>c ms. if (uid, ct_uid c) \<in> set ms then ms else ms @ [(uid, ct_uid c)]"
  have "\<forall>c \<in> set cs. (uid, ct_uid c) \<in> set ms \<Longrightarrow> fold ?f cs ms = ms" for ms by (induction cs arbitrary: ms) auto
  then show ?thesis using assms by (simp add: sync_memberships_def)
qed

lemma initialize_cases:
  assumes "initialize uid name cs db = (db', Inr ())"
  obtains db1 where "insert_default uid name db = Inr db1" "db' = sync_memberships uid cs db1" "sy_members db1 = sy_members db"
    "uid \<in> fst ` set (sy_systems db1)"
  using assms by (auto simp: initialize_def insert_default_def split: if_splits sum.splits)

text \<open>After the initialisation every known controller is a member of the default system, once; every other
  membership stays; and initialising again changes nothing.\<close>

theorem default_system_complete:
  assumes "distinct (sy_members db)" "initialize uid name cs db = (db', Inr ())"
  shows "distinct (sy_members db') \<and> set (sy_members db') = set (sy_members db) \<union> (\<lambda>c. (uid, ct_uid c)) ` set cs \<and>
    system_controllers uid cs db' = cs \<and> initialize uid name cs db' = (db', Inr ())"
proof -
  obtain db1 where d: "insert_default uid name db = Inr db1" "db' = sync_memberships uid cs db1" "sy_members db1 = sy_members db"
    "uid \<in> fst ` set (sy_systems db1)"
    using assms(2) by (rule initialize_cases)
  have mem: "set (sy_members db') = set (sy_members db) \<union> (\<lambda>c. (uid, ct_uid c)) ` set cs"
    using sync_members(1) [of uid cs db1] d(2,3) by simp
  moreover have "distinct (sy_members db')" using sync_members(2) [of db1 uid cs] assms(1) d(2,3) by simp
  moreover have "system_controllers uid cs db' = cs" unfolding system_controllers_def using mem by (intro filter_True) auto
  moreover have "initialize uid name cs db' = (db', Inr ())"
  proof -
    have "sync_memberships uid cs db' = db'" using mem by (intro sync_again) auto
    moreover have "insert_default uid name db' = Inr db'" using d(2,4) sync_members(3) by (simp add: insert_default_def)
    ultimately show ?thesis by (simp add: initialize_def)
  qed
  ultimately show ?thesis by blast
qed

theorem default_system_complete_witness:
  "system_controllers ''home'' [\<lparr>ct_uid = ''c'', ct_profile = ''generic'', ct_status = None\<rparr>]
     (fst (initialize ''home'' ''Home'' [\<lparr>ct_uid = ''c'', ct_profile = ''generic'', ct_status = None\<rparr>] \<lparr>sy_systems = [], sy_members = []\<rparr>)) =
   [\<lparr>ct_uid = ''c'', ct_profile = ''generic'', ct_status = None\<rparr>]"
  using default_system_complete [of "\<lparr>sy_systems = [], sy_members = []\<rparr>" "''home''" "''Home''"
      "[\<lparr>ct_uid = ''c'', ct_profile = ''generic'', ct_status = None\<rparr>]"]
  by (simp add: initialize_def insert_default_def sync_memberships_def)

text \<open>Memberships are never taken back: a service restarted with another default system, of another name, has
  every controller in both.\<close>

theorem changed_default_shares:
  assumes "initialize u1 n1 cs db = (db1, Inr ())" "u2 \<notin> fst ` set (sy_systems db1)" "n2 \<notin> snd ` set (sy_systems db1)"
  shows "\<exists>db2. initialize u2 n2 cs db1 = (db2, Inr ()) \<and> system_controllers u1 cs db2 = cs \<and> system_controllers u2 cs db2 = cs"
proof -
  obtain db' where d: "db1 = sync_memberships u1 cs db'" using assms(1) by (rule initialize_cases)
  let ?db2 = "sync_memberships u2 cs (db1\<lparr>sy_systems := sy_systems db1 @ [(u2, n2)]\<rparr>)"
  have "initialize u2 n2 cs db1 = (?db2, Inr ())" using assms(2,3) by (simp add: initialize_def insert_default_def)
  moreover have "set (sy_members ?db2) \<supseteq> (\<lambda>c. (u1, ct_uid c)) ` set cs \<union> (\<lambda>c. (u2, ct_uid c)) ` set cs"
    unfolding sync_members(1) d by (auto simp: sync_members(1))
  then have "system_controllers u1 cs ?db2 = cs" "system_controllers u2 cs ?db2 = cs"
    unfolding system_controllers_def by (auto intro!: filter_True)
  ultimately show ?thesis by blast
qed

section \<open>Faults that no metric sees\<close>

text \<open>The names the rows of a poll can have: registers of the profile, raw words, derived values.\<close>

definition raw_row_name :: "string \<Rightarrow> bool" where
  "raw_row_name n \<longleftrightarrow> (\<exists>fn a. n = function_str fn @ ''_0x'' @ HEX04 a)"

definition derived_names :: "string list" where
  "derived_names = [''input_power'', ''input_power_source'', ''input_power_quality'', ''input_power_note'']"

definition rows_of_profile :: "string \<Rightarrow> snapshot \<Rightarrow> bool" where
  "rows_of_profile profile sample \<longleftrightarrow> (\<forall>row \<in> set (sn_values sample).
     vr_name row \<in> set (register_names (cp_spec (get_profile profile))) \<or> raw_row_name (vr_name row) \<or> vr_name row \<in> set derived_names)"

definition blind_profiles :: "string list" where
  "blind_profiles = [''genstar_mppt'', ''readyedge'', ''prostar_mppt'', ''prostar_pwm'', ''sunsaver_mppt'']"

definition fault_names :: "string list" where
  "fault_names = [''faults'', ''fault_state'', ''active_faults'']"

definition blind_specs :: "device_profile_spec list" where
  "blind_specs = [GENSTAR_MPPT, READYEDGE, PROSTAR_MPPT, PROSTAR_PWM, SUNSAVER_MPPT]"

lemma table_profile_names: "map sp_name PROFILES = map fst selection_table"
  unfolding selection_table [symmetric] by (simp add: names_and_aliases_def comp_def)

lemma profile_name_list:
  "sp_name GENSTAR_MPPT = ''genstar_mppt''" "sp_name READYEDGE = ''readyedge''" "sp_name SURESINE_GEN2 = ''suresine_gen2''"
  "sp_name TRISTAR_MPPT_600V = ''tristar_mppt_600v''" "sp_name TRISTAR_MPPT = ''tristar_mppt''" "sp_name TRISTAR_PWM = ''tristar_pwm''"
  "sp_name PROSTAR_MPPT = ''prostar_mppt''" "sp_name PROSTAR_PWM = ''prostar_pwm''" "sp_name SUNSAVER_MPPT = ''sunsaver_mppt''"
  "sp_name SUNSAVER_DUO = ''sunsaver_duo''" "sp_name SURESINE_CLASSIC = ''suresine_classic''" "sp_name RELAY_DRIVER = ''relay_driver''"
  using table_profile_names by (simp_all add: PROFILES_order selection_table_def)

lemma profile_names_distinct: "distinct (map sp_name (PROFILES @ [GENERIC]))"
  by (simp add: PROFILES_order profile_name_list name_GENERIC)

lemma get_profile_name: "spec \<in> set (PROFILES @ [GENERIC]) \<Longrightarrow> cp_spec (get_profile (sp_name spec)) = spec"
proof -
  assume s: "spec \<in> set (PROFILES @ [GENERIC])"
  have "map_of (rev (map (\<lambda>s. (f s, s)) xs)) (f x) = Some x" if "distinct (map f xs)" "x \<in> set xs" for f :: "device_profile_spec \<Rightarrow> string" and x xs
    using that by (intro map_of_is_SomeI) (auto simp: comp_def rev_map [symmetric])
  from this [OF profile_names_distinct s] have "PROFILE_BY_NAME (sp_name spec) = Some spec"
    unfolding PROFILE_BY_NAME_def .
  then show ?thesis by (simp add: get_profile_def CatalogProfile_def)
qed

lemma blind_profiles_names_of: "blind_profiles = map sp_name blind_specs"
  by (simp add: blind_profiles_def blind_specs_def profile_name_list)

lemma blind_profile_spec: "p \<in> set blind_profiles \<Longrightarrow> cp_spec (get_profile p) \<in> set blind_specs"
proof -
  assume "p \<in> set blind_profiles"
  then obtain s where s: "s \<in> set blind_specs" "p = sp_name s" unfolding blind_profiles_names_of by auto
  then have "s \<in> set (PROFILES @ [GENERIC])" by (auto simp: blind_specs_def PROFILES_order)
  then show ?thesis using s get_profile_name by simp
qed

lemma blind_specs_checked:
  "list_all (\<lambda>s. list_all (\<lambda>r. rs_name r \<noteq> ''faults'' \<and> rs_name r \<noteq> ''fault_state'' \<and> rs_name r \<noteq> ''active_faults'') (sp_registers s)) blind_specs"
  by code_simp

lemma blind_specs_have_faults: "list_all (\<lambda>s. list_ex (\<lambda>r. rs_category r = FaultCategory) (sp_registers s)) blind_specs"
  by code_simp

lemma blind_profiles_names:
  "p \<in> set blind_profiles \<Longrightarrow> n \<in> set fault_names \<Longrightarrow> n \<notin> set (register_names (cp_spec (get_profile p)))"
  using blind_specs_checked blind_profile_spec [of p]
  by (fastforce simp: list_all_iff fault_names_def register_names_def)

lemma raw_row_name_other: "raw_row_name n \<Longrightarrow> n \<notin> set fault_names"
proof -
  assume "raw_row_name n"
  then obtain fn a where "n = function_str fn @ ''_0x'' @ HEX04 a" unfolding raw_row_name_def by blast
  then show ?thesis by (cases fn) (simp_all add: fault_names_def)
qed

lemma blind_sample:
  assumes "p \<in> set blind_profiles" "rows_of_profile p sample"
  shows "select_value sample faults_spec = None"
proof (rule select_value_none, rule ballI)
  fix row assume "row \<in> set (sn_values sample)"
  then have "vr_name row \<in> set (register_names (cp_spec (get_profile p))) \<or> raw_row_name (vr_name row) \<or> vr_name row \<in> set derived_names"
    using assms(2) by (simp add: rows_of_profile_def)
  moreover have "n \<in> set derived_names \<Longrightarrow> n \<notin> set fault_names" for n by (auto simp: derived_names_def fault_names_def)
  ultimately have "vr_name row \<notin> set fault_names" using blind_profiles_names assms(1) raw_row_name_other by blast
  then show "vr_name row \<notin> set (smt_registers faults_spec)" by (simp add: health_specs fault_names_def)
qed

text \<open>The fault registers of five product families have names that no metric looks for: whatever faults their
  controllers report, the health of a system of such controllers is never critical.\<close>

theorem health_blind:
  assumes "\<forall>(c, s) \<in> set pairs. ct_profile c \<in> set blind_profiles \<and> (case s of None \<Rightarrow> True | Some sample \<Rightarrow> rows_of_profile (ct_profile c) sample)"
  shows "sh_active_faults (health (system_latest_of now parse_time pairs) controllers) = 0"
proof -
  have "\<not> reports faults_spec x" if "x \<in> set pairs" for x
  proof -
    obtain c s where x: "x = (c, s)" by fastforce
    then have "ct_profile c \<in> set blind_profiles" "case s of None \<Rightarrow> True | Some sample \<Rightarrow> rows_of_profile (ct_profile c) sample"
      using assms that by auto
    then show ?thesis using blind_sample x by (auto simp: reports_def split: option.splits)
  qed
  then show ?thesis by (simp add: health_def Let_def active_sources_count [OF health_specs(1)] filter_empty_conv)
qed

end
