(* ===== verification/Power_Facts.thy ===== *)
theory Power_Facts
  imports System_Power System_Facts
begin

text \<open>
  What the power flow and the ledger promise: a whole-system value is one that its reporters agree on, and
  every derived value is known exactly when what it is computed from is.
\<close>

section \<open>Resolution of reporters\<close>

abbreviation reported :: "metric_view \<Rightarrow> pyfloat list" where
  "reported v \<equiv> numbers_of (mv_sources v)"

lemma fabs_fsub_le:
  assumes "moderate x" "fis_finite v" "moderate a" "moderate b" "a \<le> x" "x \<le> b" "a \<le> v" "v \<le> b"
  shows "fle (fabs (fsub x v)) (fsub b a)"
proof -
  obtain rx rv ra rb where r: "x = Fin rx" "v = Fin rv" "a = Fin ra" "b = Fin rb"
    using assms(1-4) moderate_Fin by (metis fis_finite_def pyfloat.case(2-4) pyfloat.exhaust)
  have le: "ra \<le> rx" "rx \<le> rb" "ra \<le> rv" "rv \<le> rb" using assms(5-8) by (simp_all add: r less_eq_pyfloat_def)
  have abs_fl: "fabs (fl z) = fl \<bar>z\<bar>" for z
  proof -
    have "rnd \<bar>z\<bar> = \<bar>rnd z\<bar>"
      using rnd_nonneg [of z] rnd_nonneg [of "- z"] rnd_minus [of z] by (cases "0 \<le> z") simp_all
    then show ?thesis by (auto simp: fl_def Let_def abs_if simp del: power_numeral)
  qed
  have "\<bar>rx - rv\<bar> \<le> rb - ra" using le by (simp add: abs_le_iff)
  then show ?thesis by (simp add: r fsub_def abs_fl fl_mono)
qed

text \<open>Half of the reporters lie on either side of the median, itself included.\<close>

lemma count_below:
  assumes "i < length xs" "sort xs ! i \<le> (c :: pyfloat)"
  shows "i < length (filter (\<lambda>x. x \<le> c) xs)"
proof -
  have "\<forall>x \<in> set (take (Suc i) (sort xs)). x \<le> c"
  proof
    fix x assume "x \<in> set (take (Suc i) (sort xs))"
    then obtain j where "j < Suc i" "x = sort xs ! j" by (auto simp: in_set_conv_nth)
    then have "x \<le> sort xs ! i" using sorted_nth_mono [of "sort xs" j i] assms(1) by simp
    then show "x \<le> c" using assms(2) by (rule order_trans)
  qed
  then have "filter (\<lambda>x. x \<le> c) (take (Suc i) (sort xs)) = take (Suc i) (sort xs)" by simp
  then have "length (filter (\<lambda>x. x \<le> c) (take (Suc i) (sort xs))) = Suc i" using assms(1) by simp
  moreover have "filter (\<lambda>x. x \<le> c) (sort xs) =
      filter (\<lambda>x. x \<le> c) (take (Suc i) (sort xs)) @ filter (\<lambda>x. x \<le> c) (drop (Suc i) (sort xs))"
    by (metis append_take_drop_id filter_append)
  ultimately have "i < length (filter (\<lambda>x. x \<le> c) (sort xs))" by simp
  then show ?thesis by (simp add: filter_sort)
qed

lemma count_above:
  assumes "i < length xs" "(c :: pyfloat) \<le> sort xs ! i"
  shows "length xs - i \<le> length (filter (\<lambda>x. c \<le> x) xs)"
proof -
  have "\<forall>x \<in> set (drop i (sort xs)). c \<le> x"
  proof
    fix x assume "x \<in> set (drop i (sort xs))"
    then obtain j where "j < length xs - i" "x = sort xs ! (i + j)" by (auto simp: in_set_conv_nth)
    then have "sort xs ! i \<le> x" using sorted_nth_mono [of "sort xs" i "i + j"] by simp
    with assms(2) show "c \<le> x" by (rule order_trans)
  qed
  then have "filter (\<lambda>x. c \<le> x) (drop i (sort xs)) = drop i (sort xs)" by simp
  then have "length (filter (\<lambda>x. c \<le> x) (drop i (sort xs))) = length xs - i" by simp
  moreover have "filter (\<lambda>x. c \<le> x) (sort xs) =
      filter (\<lambda>x. c \<le> x) (take i (sort xs)) @ filter (\<lambda>x. c \<le> x) (drop i (sort xs))"
    by (metis append_take_drop_id filter_append)
  ultimately have "length xs - i \<le> length (filter (\<lambda>x. c \<le> x) (sort xs))" by simp
  then show ?thesis by (simp add: filter_sort)
qed

lemma median_halves:
  assumes "xs \<noteq> []" "\<forall>x \<in> set xs. moderate x"
  shows "length xs \<le> 2 * length (filter (\<lambda>x. x \<le> median xs) xs) \<and>
    length xs \<le> 2 * length (filter (\<lambda>x. median xs \<le> x) xs)"
proof -
  let ?n = "length xs" and ?d = "sort xs"
  have n: "0 < ?n" using assms(1) by simp
  obtain i j where ij: "i < ?n" "j < ?n" "?n \<le> 2 * Suc i" "?n \<le> 2 * (?n - j)" "?d ! i \<le> median xs" "median xs \<le> ?d ! j"
  proof (cases "odd ?n")
    case True
    then have "?d ! (?n div 2) = median xs" by (simp add: median_def Let_def)
    moreover have "?n div 2 < ?n" "?n \<le> 2 * Suc (?n div 2)" "?n \<le> 2 * (?n - ?n div 2)" using n by presburger+
    ultimately show thesis using that [of "?n div 2" "?n div 2"] by simp
  next
    case False
    let ?a = "?d ! (?n div 2 - 1)" and ?b = "?d ! (?n div 2)"
    have i: "?n div 2 - 1 < ?n" "?n div 2 < ?n" using n by linarith+
    have "moderate ?a" "moderate ?b" using assms(2) nth_mem [of _ ?d] i by simp_all
    moreover have "?a \<le> ?b" using i(2) by (simp add: sorted_nth_mono)
    ultimately have "?a \<le> fhalf (fadd ?a ?b) \<and> fhalf (fadd ?a ?b) \<le> ?b" using midpoint_between by blast
    moreover have "median xs = fhalf (fadd ?a ?b)" using False by (simp add: median_def Let_def)
    moreover have "?n \<le> 2 * Suc (?n div 2 - 1)" "?n \<le> 2 * (?n - ?n div 2)" using False n by presburger+
    ultimately show thesis using that [of "?n div 2 - 1" "?n div 2"] i by simp
  qed
  have "Suc i \<le> length (filter (\<lambda>x. x \<le> median xs) xs)" using count_below [OF ij(1,5)] by simp
  then have "2 * Suc i \<le> 2 * length (filter (\<lambda>x. x \<le> median xs) xs)" by (rule mult_le_mono2)
  moreover have "2 * (?n - j) \<le> 2 * length (filter (\<lambda>x. median xs \<le> x) xs)"
    by (rule mult_le_mono2 [OF count_above [OF ij(2,6)]])
  ultimately show ?thesis using order_trans [OF ij(3)] order_trans [OF ij(4)] by blast
qed

text \<open>C31: A whole-system metric never adds its reporters (numbers below half the largest float): without a number
  it is left as it was; one reporter's number is taken; of several, when the largest and the smallest differ by no more
  than the tolerance, the value is their median: half of them lie at or below it and half at or above, it is finite and
  between them, and no further than their spread from any reporter; else the value is unknown and marked as a
  conflict.\<close>

theorem resolved_metric_agrees:
  assumes "\<forall>x \<in> set (reported v). moderate x"
  shows "reported v = [] \<and> resolve_sources abs_tol rel_tol v = v \<or>
    (\<exists>x. reported v = [x] \<and> mv_value (resolve_sources abs_tol rel_tol v) = MvNumber x \<and> mv_status (resolve_sources abs_tol rel_tol v) = Observed) \<or>
    (2 \<le> length (reported v) \<and>
      (let tolerance = fmax abs_tol (fmul (fabs (median (reported v))) rel_tol);
           spread = fsub (Max (set (reported v))) (Min (set (reported v))); w = resolve_sources abs_tol rel_tol v in
       if flt tolerance spread then mv_value w = MvNone \<and> mv_status w = Unknown \<and> mv_quality w = QConflict
       else \<exists>c. mv_value w = MvNumber c \<and> mv_status w = Observed \<and> c = median (reported v) \<and>
         length (reported v) \<le> 2 * length (filter (\<lambda>x. x \<le> c) (reported v)) \<and>
         length (reported v) \<le> 2 * length (filter (\<lambda>x. c \<le> x) (reported v)) \<and> fis_finite c \<and>
         Min (set (reported v)) \<le> c \<and> c \<le> Max (set (reported v)) \<and>
         (\<forall>x \<in> set (reported v). fle (fabs (fsub x c)) spread)))"
proof -
  let ?xs = "reported v"
  have xs: "List.map_filter (\<lambda>ob. numeric_of (ob_value ob)) (mv_sources v) = ?xs" by (simp add: numbers_of_def)
  consider "?xs = []" | x where "?xs = [x]" | "2 \<le> length ?xs"
    by (cases ?xs rule: remdups_adj.cases) auto
  then show ?thesis
  proof cases
    case 1
    then show ?thesis by (simp add: resolve_sources_def xs)
  next
    case (2 x)
    then show ?thesis by (simp add: resolve_sources_def xs)
  next
    case 3
    then have ne: "?xs \<noteq> []" "length ?xs \<noteq> 1" by auto
    have n: "NaN \<notin> set ?xs" using assms by (metis moderate_not_NaN(1))
    have b: "Min (set ?xs) \<le> median ?xs" "median ?xs \<le> Max (set ?xs)" "fis_finite (median ?xs)"
      using median_between [OF ne(1) assms] by blast+
    have "moderate (Max (set ?xs))" "moderate (Min (set ?xs))" using assms ne(1) by simp_all
    then have d: "\<forall>x \<in> set ?xs. fle (fabs (fsub x (median ?xs))) (fsub (Max (set ?xs)) (Min (set ?xs)))"
      using assms b by (auto intro!: fabs_fsub_le)
    have r: "resolve_sources abs_tol rel_tol v =
      (let tolerance = fmax abs_tol (fmul (fabs (median ?xs)) rel_tol); spread = fsub (Max (set ?xs)) (Min (set ?xs)) in
       if flt tolerance spread then v\<lparr>mv_value := MvNone, mv_quality := QConflict, mv_status := Unknown, mv_resolution := Some Conflict,
           mv_reason := Some (conflict_reason spread tolerance)\<rparr>
       else v\<lparr>mv_value := MvNumber (median ?xs), mv_resolution := Some ConsensusMedian, mv_status := Observed\<rparr>)"
      using ne by (simp add: resolve_sources_def xs max_of_Max [OF ne(1) n] min_of_Min [OF ne(1) n] Let_def)
    show ?thesis using 3 b d median_halves [OF ne(1) assms] unfolding r by (simp add: Let_def)
  qed
qed

definition two_reporters :: metric_view where
  "two_reporters = \<lparr>mv_value = MvNone, mv_unit = Some ''A'', mv_quality = QComplete, mv_status = Unknown,
     mv_sources = [\<lparr>ob_controller_uid = ''c1'', ob_observed_at = ''t'', ob_register_name = ''system_load_current'',
          ob_value = CNumber (Fin 12), ob_unit = None\<rparr>,
        \<lparr>ob_controller_uid = ''c2'', ob_observed_at = ''t'', ob_register_name = ''system_load_current'',
          ob_value = CNumber (Fin 12), ob_unit = None\<rparr>],
     mv_resolution = None, mv_reason = None\<rparr>"

theorem resolved_metric_agrees_witness:
  "mv_value (resolve_sources (fl (1 / 2)) (fl (5 / 100)) two_reporters) = MvNumber (Fin 12)"
proof -
  have r: "reported two_reporters = [Fin 12, Fin 12]" by (simp add: two_reporters_def numbers_of_def List.map_filter_simps)
  have m: "\<forall>x \<in> set (reported two_reporters). moderate x" unfolding r using fl_int [of 12] by (simp add: moderate_def)
  have h: "fl (1 / 2) = Fin (1 / 2)" using fl_exact [of 1 1] by simp
  have t: "\<not> flt (fmax (fl (1 / 2)) b) (fsub (Fin 12) (Fin 12))" for b
    unfolding h by (cases b) (simp_all add: fmax_def fsub_def)
  show ?thesis
    using resolved_metric_agrees [OF m, of "fl (1 / 2)" "fl (5 / 100)"] t
    unfolding r by (auto simp: Let_def less_eq_pyfloat_def dest: fle_antisym)
qed

section \<open>Nothing is inferred\<close>

lemma fdiv_positive: "flt (Fin 0) s \<Longrightarrow> \<exists>q. fdiv c s = Inr q"
  by (cases c; cases s) auto

lemma lift2_known: "lift2 f a b \<noteq> None \<longleftrightarrow> a \<noteq> None \<and> b \<noteq> None"
  by (cases a; cases b) (simp_all add: lift2_def)

lemma efficiency_known:
  "\<exists>e. efficiency_of s c = Inr e \<and> (e \<noteq> None \<longleftrightarrow> c \<noteq> None \<and> (case s of None \<Rightarrow> False | Some x \<Rightarrow> flt (Fin 0) x))"
proof (cases s)
  case (Some x)
  show ?thesis
  proof (cases "c \<noteq> None \<and> flt (Fin 0) x")
    case True
    then obtain y q where "c = Some y" "fdiv y x = Inr q" using fdiv_positive by blast
    then show ?thesis using Some True by (auto simp: efficiency_of_def)
  next
    case False
    then show ?thesis using Some by (cases c) (auto simp: efficiency_of_def)
  qed
qed (simp add: efficiency_of_def)

lemma derived_of_fields [simp]:
  "dv_value (derived_of v u f i) = v" "dv_status (derived_of v u f i) = Unknown \<longleftrightarrow> v = None"
  by (simp_all add: derived_of_def)

definition known :: "metric_view \<Rightarrow> bool" where
  "known v \<longleftrightarrow> number (mv_value v) \<noteq> None"

abbreviation metric_number :: "system_latest \<Rightarrow> string \<Rightarrow> pyfloat option" where
  "metric_number l name \<equiv> number (mv_value (metric_view_of l name))"

abbreviation resolved_number :: "system_latest \<Rightarrow> string \<Rightarrow> pyfloat option" where
  "resolved_number l name \<equiv> number (mv_value (resolved_default l name))"

lemma power_flow_fields:
  assumes "power_flow_of l = Inr pf"
  shows "dv_value (pf_controller_residual pf) = lift2 fsub (metric_number l ''solar_input_power_w'') (metric_number l ''charge_output_power_w'')"
    "efficiency_of (metric_number l ''solar_input_power_w'') (metric_number l ''charge_output_power_w'') = Inr (dv_value (pf_efficiency pf))"
    "dv_value (pf_battery_net_power pf) = lift2 fmul (resolved_number l ''battery_net_current_a'') (metric_number l ''battery_voltage_v'')"
    "dv_value (pf_dc_power pf) = lift2 fmul (resolved_number l ''system_load_current_a'') (metric_number l ''load_voltage_v'')"
    "dv_value (pf_system_charge_power pf) = lift2 fmul (resolved_number l ''system_charge_current_a'') (metric_number l ''battery_voltage_v'')"
    "dv_value (pf_current_residual pf) = lift2 fsub (lift2 fsub (resolved_number l ''system_charge_current_a'')
       (resolved_number l ''battery_net_current_a'')) (resolved_number l ''system_load_current_a'')"
    "dv_value (pf_whole_system_residual pf) = lift2 fsub (lift2 fsub
       (lift2 fmul (resolved_number l ''system_charge_current_a'') (metric_number l ''battery_voltage_v''))
       (lift2 fmul (resolved_number l ''battery_net_current_a'') (metric_number l ''battery_voltage_v'')))
       (lift2 fmul (resolved_number l ''system_load_current_a'') (metric_number l ''load_voltage_v''))"
    "pf_quality pf = (if list_all (\<lambda>v. v = None) [metric_number l ''solar_input_power_w'', metric_number l ''charge_output_power_w'',
       resolved_number l ''system_charge_current_a'', resolved_number l ''battery_net_current_a'', resolved_number l ''system_load_current_a'']
       then QEmpty else QPartial)"
  using assms unfolding power_flow_of_def Let_def rbind_eq_Inr by (auto simp only: sum.inject derived_of_fields power_flow.simps)

text \<open>C32: The power flow is always computed, it divides by no zero, and it infers nothing: each derived power,
  current and residual is known exactly when every value of its formula is, the efficiency exactly when the input
  power is positive and the output power is known, and the flow is empty exactly when none of its five sources is known.\<close>

theorem power_flow_infers_nothing:
  "\<exists>pf. power_flow_of l = Inr pf \<and>
    (let solar = metric_view_of l ''solar_input_power_w''; charge = metric_view_of l ''charge_output_power_w'';
         voltage = metric_view_of l ''battery_voltage_v''; load_voltage = metric_view_of l ''load_voltage_v'';
         system_charge = resolved_default l ''system_charge_current_a''; net = resolved_default l ''battery_net_current_a'';
         load = resolved_default l ''system_load_current_a'' in
     (dv_value (pf_controller_residual pf) \<noteq> None \<longleftrightarrow> known solar \<and> known charge) \<and>
     (dv_value (pf_efficiency pf) \<noteq> None \<longleftrightarrow> known charge \<and> (case number (mv_value solar) of None \<Rightarrow> False | Some x \<Rightarrow> flt (Fin 0) x)) \<and>
     (dv_value (pf_battery_net_power pf) \<noteq> None \<longleftrightarrow> known net \<and> known voltage) \<and>
     (dv_value (pf_dc_power pf) \<noteq> None \<longleftrightarrow> known load \<and> known load_voltage) \<and>
     (dv_value (pf_system_charge_power pf) \<noteq> None \<longleftrightarrow> known system_charge \<and> known voltage) \<and>
     (dv_value (pf_current_residual pf) \<noteq> None \<longleftrightarrow> known system_charge \<and> known net \<and> known load) \<and>
     (dv_value (pf_whole_system_residual pf) \<noteq> None \<longleftrightarrow> known system_charge \<and> known net \<and> known load \<and> known voltage \<and> known load_voltage) \<and>
     (pf_quality pf = QEmpty \<longleftrightarrow> \<not> (known solar \<or> known charge \<or> known system_charge \<or> known net \<or> known load)))"
proof -
  obtain e where e: "efficiency_of (metric_number l ''solar_input_power_w'') (metric_number l ''charge_output_power_w'') = Inr e"
    "e \<noteq> None \<longleftrightarrow> metric_number l ''charge_output_power_w'' \<noteq> None \<and>
      (case metric_number l ''solar_input_power_w'' of None \<Rightarrow> False | Some x \<Rightarrow> flt (Fin 0) x)"
    using efficiency_known by blast
  obtain pf where pf: "power_flow_of l = Inr pf" unfolding power_flow_of_def Let_def e(1) rbind_Inr by blast
  note f = power_flow_fields [OF pf]
  have "dv_value (pf_efficiency pf) = e" using f(2) e(1) by simp
  then show ?thesis
    unfolding Let_def known_def
    by (intro exI [of _ pf] conjI pf) (simp_all only: f(1,3-8) lift2_known e(2) list.pred_inject, auto)
qed

section \<open>The ledger\<close>

text \<open>The number of the metric a flow names: a counter of the controllers, or a whole-system one as resolved.\<close>

definition source_number :: "system_latest \<Rightarrow> string \<Rightarrow> pyfloat option" where
  "source_number l s = number (mv_value
     (if s \<in> {''daily_charge_wh'', ''daily_charge_kwh''} then metric_view_of l s else resolved_kwh l s))"

text \<open>A flow in Wh is the number of the metric it names, a thousand times it when that metric counts kWh, with the
  formula that says so; without a source it is unknown and says why.\<close>

definition backed :: "system_latest \<Rightarrow> ledger_field \<Rightarrow> bool" where
  "backed l f \<longleftrightarrow> lf_unit f = ''Wh'' \<and>
     (case lf_source_metric f of
        None \<Rightarrow> lf_value f = None \<and> lf_status f = Unknown \<and> lf_quality f = QEmpty \<and> lf_formula f = None \<and> lf_reason f \<noteq> None
      | Some s \<Rightarrow> lf_reason f = None \<and> source_number l s \<noteq> None \<and>
          (if s = ''daily_charge_wh''
           then lf_value f = source_number l s \<and> lf_status f = Observed \<and>
             lf_quality f = mv_quality (metric_view_of l s) \<and> lf_formula f = None
           else s \<in> {''system_charge_kwh_daily'', ''daily_charge_kwh'', ''external_source_charge_kwh_daily''} \<and>
             lf_value f = map_option (\<lambda>k. fmul k (Fin 1000)) (source_number l s) \<and> lf_status f = DerivedStatus \<and>
             lf_quality f = QDerived \<and> lf_formula f = Some (s @ '' * 1000'')))"

lemma backed_unknown: "backed l (unknown_field r)" "lf_source_metric (unknown_field r) = None"
  by (simp_all add: backed_def unknown_field_def)

lemma source_number_simps:
  "source_number l ''system_charge_kwh_daily'' = number (mv_value (resolved_kwh l ''system_charge_kwh_daily''))"
  "source_number l ''external_source_charge_kwh_daily'' = number (mv_value (resolved_kwh l ''external_source_charge_kwh_daily''))"
  "source_number l ''daily_charge_wh'' = number (mv_value (metric_view_of l ''daily_charge_wh''))"
  "source_number l ''daily_charge_kwh'' = number (mv_value (metric_view_of l ''daily_charge_kwh''))"
  by (simp_all add: source_number_def)

lemma battery_charge_backed:
  fixes l
  defines "f \<equiv> battery_charge_field (resolved_kwh l ''system_charge_kwh_daily'') (metric_view_of l ''daily_charge_wh'')
      (metric_view_of l ''daily_charge_kwh'')"
  shows "backed l f" "lf_source_metric f = List.find (\<lambda>s. source_number l s \<noteq> None)
    [''system_charge_kwh_daily'', ''daily_charge_wh'', ''daily_charge_kwh'']"
  unfolding f_def
  by (cases "number (mv_value (resolved_kwh l ''system_charge_kwh_daily''))";
      cases "number (mv_value (metric_view_of l ''daily_charge_wh''))";
      cases "number (mv_value (metric_view_of l ''daily_charge_kwh''))";
      simp add: battery_charge_field_def backed_def source_number_simps)+

lemma external_charge_backed:
  fixes l
  defines "f \<equiv> external_charge_field (resolved_kwh l ''external_source_charge_kwh_daily'')"
  shows "backed l f" "lf_source_metric f = List.find (\<lambda>s. source_number l s \<noteq> None) [''external_source_charge_kwh_daily'']"
  unfolding f_def
  by (cases "number (mv_value (resolved_kwh l ''external_source_charge_kwh_daily''))";
      simp add: external_charge_field_def backed_def source_number_simps)+

text \<open>C33: Every flow of the ledger is in Wh and is the number of the metric it names, a thousand times it with that
  formula when the metric counts kWh, or is unknown with a reason.  The battery charge is taken from the first known of
  the whole-system kWh counter (as its reporters resolve it), the controllers' Wh counter and their kWh counter; the
  external charge from the resolved kWh counter of the external sources; counters are never added to each other, and no
  other flow is ever known.\<close>

theorem ledger_source_backed:
  "list_all (\<lambda>(name, f). backed l f \<and>
     lf_source_metric f = List.find (\<lambda>s. source_number l s \<noteq> None)
       (if name = ''battery_charge_wh'' then [''system_charge_kwh_daily'', ''daily_charge_wh'', ''daily_charge_kwh'']
        else if name = ''external_source_charge_wh'' then [''external_source_charge_kwh_daily''] else []))
     (el_flows (energy_ledger_of l)) \<and>
   map fst (el_flows (energy_ledger_of l)) = [''solar_generated_wh'', ''generator_generated_wh'',
     ''external_source_charge_wh'', ''battery_charge_wh'', ''battery_discharge_wh'', ''load_consumption_wh'',
     ''conversion_losses_wh'', ''unaccounted_energy_wh'']"
  unfolding energy_ledger_of_def Let_def
  by (simp add: backed_unknown battery_charge_backed external_charge_backed)

end
