(* ===== verification/Inventory.thy ===== *)
theory Inventory
  imports Sql_Table Py_Time Domain_Models "HOL-Library.AList"
begin

text \<open>
  \<open>controllers/inventory.py\<close>: which physical controller an observed device is, and the tables that remember
  it.  The clock, the parser of timestamps and the hash of \<open>hashlib.sha256\<close> are parameters.  Only the
  connection that runs the schema script has foreign keys switched on, and none of the statements modelled
  here runs a cascade, so a reference is an ordinary column.  A text column that may be \<open>NULL\<close> and is read with
  \<open>or ""\<close> is a text that may be empty.
\<close>

section \<open>The tables\<close>

record device_rec =
  dv_id :: string
  dv_stable_key :: string
  dv_endpoint :: endpoint
  dv_vendor_name :: string
  dv_product_code :: string
  dv_revision :: string
  dv_profile :: string
  dv_status :: string
  dv_first_seen :: string
  dv_last_seen :: string
  dv_last_error :: "string option"

record identity_rec =
  id_controller_id :: string
  id_canonical :: string
  id_source :: string
  id_value :: string
  id_profile :: string
  id_family :: string
  id_model :: string
  id_serial :: string
  id_first_seen :: string
  id_last_seen :: string

record member_rec =
  mb_device_id :: string
  mb_controller_id :: string
  mb_first_seen :: string
  mb_last_seen :: string

record connection_rec =
  cn_controller_id :: string
  cn_endpoint_key :: string
  cn_endpoint :: endpoint
  cn_active :: bool
  cn_strategy :: string
  cn_confidence :: pyfloat
  cn_first_seen :: string
  cn_last_seen :: string
  cn_last_success :: "string option"

record location_rec =
  lc_controller_id :: string
  lc_endpoint_key :: string
  lc_transport :: transport_name
  lc_target :: string
  lc_port :: "int option"
  lc_unit_id :: int
  lc_first_seen :: string
  lc_last_seen :: string
  lc_observations :: nat

record evidence_rec =
  ce_controller_id :: string
  ce_endpoint_key :: string
  ce_type :: string
  ce_value :: string
  ce_confidence :: pyfloat
  ce_first_observed :: string
  ce_last_observed :: string
  ce_observations :: nat

text \<open>The primary keys and unique constraints of several columns.\<close>

abbreviation cn_key :: "connection_rec \<Rightarrow> string \<times> string" where
  "cn_key r \<equiv> (cn_controller_id r, cn_endpoint_key r)"

abbreviation lc_key :: "location_rec \<Rightarrow> string \<times> string \<times> transport_name \<times> string \<times> int" where
  "lc_key r \<equiv> (lc_controller_id r, lc_endpoint_key r, lc_transport r, lc_target r, lc_unit_id r)"

abbreviation ce_key :: "evidence_rec \<Rightarrow> string \<times> string \<times> string \<times> string" where
  "ce_key r \<equiv> (ce_controller_id r, ce_endpoint_key r, ce_type r, ce_value r)"

record inventory_db =
  rg_devices :: "device_rec list"
  rg_intelligence :: "(string \<times> device_intelligence) list"
  rg_identities :: "identity_rec list"
  rg_members :: "member_rec list"
  rg_connections :: "connection_rec list"
  rg_locations :: "location_rec list"
  rg_evidence :: "evidence_rec list"

text \<open>The columns of an endpoint: the serial line settings are not stored.\<close>

definition stored_endpoint :: "endpoint \<Rightarrow> endpoint" where
  "stored_endpoint e = e\<lparr>ep_baudrate := None, ep_stop_bits := None\<rparr>"

section \<open>The identity of an observation\<close>

definition text_or_empty :: "string option \<Rightarrow> string" where
  "text_or_empty s = (case s of None \<Rightarrow> [] | Some t \<Rightarrow> t)"

text \<open>The identifier, its source and its value.\<close>

definition controller_identity :: "string \<Rightarrow> string \<Rightarrow> string \<Rightarrow> int \<Rightarrow> string \<Rightarrow> string \<times> string \<times> string" where
  "controller_identity serial_number profile_text usb unit_id key =
    (let serial = str_strip serial_number; profile = str_lower (str_strip profile_text); usb_serial = str_strip usb in
     if serial \<noteq> [] then (''morningstar:'' @ profile @ '':'' @ str_lower serial, ''controller_serial'', serial)
     else if usb_serial \<noteq> [] then
       (''usb:'' @ str_lower usb_serial @ '':unit:'' @ show_int unit_id, ''usb_serial'', usb_serial)
     else (''endpoint:'' @ key, ''endpoint'', key))"

definition device_family :: "discovered_device \<Rightarrow> string" where
  "device_family d = (case dd_intelligence d of None \<Rightarrow> [] | Some i \<Rightarrow> di_family i)"

definition device_model :: "discovered_device \<Rightarrow> string" where
  "device_model d = (case dd_intelligence d of None \<Rightarrow> product_code (dd_identification d) | Some i \<Rightarrow> di_model i)"

definition device_serial :: "discovered_device \<Rightarrow> string" where
  "device_serial d = (case dd_intelligence d of None \<Rightarrow> [] | Some i \<Rightarrow> di_serial_number i)"

abbreviation device_key :: "discovered_device \<Rightarrow> string" where
  "device_key d \<equiv> stable_key (dd_endpoint d)"

text \<open>\<open>_controller_identity(_device_row(device))\<close>.\<close>

definition observed_identity :: "discovered_device \<Rightarrow> string \<times> string \<times> string" where
  "observed_identity d =
    controller_identity (device_serial d) (dd_profile d) (text_or_empty (ep_usb_serial (dd_endpoint d)))
      (ep_unit_id (dd_endpoint d)) (device_key d)"

definition conflict_device_id :: "(string \<Rightarrow> string) \<Rightarrow> discovered_device \<Rightarrow> string" where
  "conflict_device_id sha256 d =
    ''device:'' @ dd_profile d @ '':'' @
      take 20 (sha256 (dd_profile d @ [CHR 0x00] @ device_serial d @ [CHR 0x00] @ device_key d))"

section \<open>Upserts\<close>

definition merge_member :: "member_rec \<Rightarrow> member_rec \<Rightarrow> member_rec" where
  "merge_member old row = old\<lparr>mb_controller_id := mb_controller_id row,
     mb_first_seen := min (mb_first_seen old) (mb_first_seen row), mb_last_seen := max (mb_last_seen old) (mb_last_seen row)\<rparr>"

definition merge_connection :: "connection_rec \<Rightarrow> connection_rec \<Rightarrow> connection_rec" where
  "merge_connection old row = old\<lparr>cn_endpoint := cn_endpoint row, cn_active := cn_active row, cn_strategy := cn_strategy row,
     cn_confidence := fmax (cn_confidence old) (cn_confidence row), cn_first_seen := min (cn_first_seen old) (cn_first_seen row),
     cn_last_seen := max (cn_last_seen old) (cn_last_seen row)\<rparr>"

definition merge_location :: "location_rec \<Rightarrow> location_rec \<Rightarrow> location_rec" where
  "merge_location old row = old\<lparr>lc_port := lc_port row, lc_first_seen := min (lc_first_seen old) (lc_first_seen row),
     lc_last_seen := max (lc_last_seen old) (lc_last_seen row), lc_observations := lc_observations old + 1\<rparr>"

definition merge_evidence :: "evidence_rec \<Rightarrow> evidence_rec \<Rightarrow> evidence_rec" where
  "merge_evidence old row = old\<lparr>ce_confidence := fmax (ce_confidence old) (ce_confidence row),
     ce_last_observed := ce_last_observed row, ce_observations := ce_observations old + 1\<rparr>"

definition upsert_member :: "string \<Rightarrow> string \<Rightarrow> string \<Rightarrow> string \<Rightarrow> 'a inventory_db_scheme \<Rightarrow> 'a inventory_db_scheme" where
  "upsert_member cid device_id first_seen last_seen g = g\<lparr>rg_members := upsert mb_device_id merge_member
     \<lparr>mb_device_id = device_id, mb_controller_id = cid, mb_first_seen = first_seen, mb_last_seen = last_seen\<rparr> (rg_members g)\<rparr>"

definition upsert_connection ::
  "string \<Rightarrow> endpoint \<Rightarrow> string \<Rightarrow> string \<Rightarrow> pyfloat \<Rightarrow> string \<Rightarrow> bool \<Rightarrow> 'a inventory_db_scheme \<Rightarrow> 'a inventory_db_scheme" where
  "upsert_connection cid e now strategy confidence first_seen active g = g\<lparr>
     rg_connections := upsert cn_key merge_connection
       \<lparr>cn_controller_id = cid, cn_endpoint_key = stable_key e, cn_endpoint = stored_endpoint e, cn_active = active,
        cn_strategy = strategy, cn_confidence = confidence, cn_first_seen = first_seen, cn_last_seen = now,
        cn_last_success = None\<rparr> (rg_connections g),
     rg_locations := upsert lc_key merge_location
       \<lparr>lc_controller_id = cid, lc_endpoint_key = stable_key e, lc_transport = ep_transport e, lc_target = ep_target e,
        lc_port = ep_port e, lc_unit_id = ep_unit_id e, lc_first_seen = first_seen, lc_last_seen = now,
        lc_observations = 1\<rparr> (rg_locations g)\<rparr>"

text \<open>\<open>_insert_canonical_device\<close>: \<open>INSERT OR IGNORE\<close> skips a row that breaks the primary key or the unique key.\<close>

definition insert_canonical_device ::
  "string \<Rightarrow> discovered_device \<Rightarrow> string \<Rightarrow> 'a inventory_db_scheme \<Rightarrow> 'a inventory_db_scheme" where
  "insert_canonical_device device_id d now g =
    (let key = (case select_row dv_stable_key (device_key d) (rg_devices g) of
           None \<Rightarrow> device_key d
         | Some occupied \<Rightarrow> if dv_id occupied \<noteq> device_id then device_id else device_key d) in
     if device_id \<in> dv_id ` set (rg_devices g) \<or> key \<in> dv_stable_key ` set (rg_devices g) then g
     else g\<lparr>rg_devices := rg_devices g @ [\<lparr>dv_id = device_id, dv_stable_key = key,
       dv_endpoint = stored_endpoint (dd_endpoint d), dv_vendor_name = vendor_name (dd_identification d),
       dv_product_code = product_code (dd_identification d), dv_revision = major_minor_revision (dd_identification d),
       dv_profile = dd_profile d, dv_status = ''online'', dv_first_seen = now, dv_last_seen = now,
       dv_last_error = None\<rparr>]\<rparr>)"

definition update_canonical_device ::
  "string \<Rightarrow> discovered_device \<Rightarrow> string \<Rightarrow> 'a inventory_db_scheme \<Rightarrow> 'a inventory_db_scheme" where
  "update_canonical_device device_id d now g = g\<lparr>rg_devices := update_rows (\<lambda>r. dv_id r = device_id)
     (\<lambda>r. r\<lparr>dv_endpoint := stored_endpoint (dd_endpoint d), dv_vendor_name := vendor_name (dd_identification d),
       dv_product_code := product_code (dd_identification d), dv_revision := major_minor_revision (dd_identification d),
       dv_profile := dd_profile d, dv_status := ''online'', dv_last_seen := now, dv_last_error := None\<rparr>) (rg_devices g)\<rparr>"

text \<open>What one observation says about its controller, with the confidence of each kind of evidence.\<close>

definition evidence_of :: "discovered_device \<Rightarrow> (string \<times> string \<times> pyfloat) list" where
  "evidence_of d =
    [(''endpoint'', device_key d, fl (50 / 100))] @
    (if truthy (ep_usb_serial (dd_endpoint d)) then [(''usb_serial'', the (ep_usb_serial (dd_endpoint d)), fl (80 / 100))] else []) @
    (if product_code (dd_identification d) \<noteq> [] then [(''product_code'', product_code (dd_identification d), fl (35 / 100))] else []) @
    (case dd_intelligence d of None \<Rightarrow> []
     | Some i \<Rightarrow>
       (if di_serial_number i \<noteq> [] then [(''controller_serial'', di_serial_number i, Fin 1)] else []) @
       (if di_model i \<noteq> [] then [(''model'', di_model i, fl (40 / 100))] else []))"

definition evidence_row :: "string \<Rightarrow> discovered_device \<Rightarrow> string \<Rightarrow> string \<times> string \<times> pyfloat \<Rightarrow> evidence_rec" where
  "evidence_row cid d now x = (case x of (kind, v, confidence) \<Rightarrow>
     \<lparr>ce_controller_id = cid, ce_endpoint_key = device_key d, ce_type = kind, ce_value = v, ce_confidence = confidence,
      ce_first_observed = now, ce_last_observed = now, ce_observations = 1\<rparr>)"

definition record_evidence :: "string \<Rightarrow> discovered_device \<Rightarrow> string \<Rightarrow> 'a inventory_db_scheme \<Rightarrow> 'a inventory_db_scheme" where
  "record_evidence cid d now g = g\<lparr>rg_evidence :=
     fold (\<lambda>x. upsert ce_key merge_evidence (evidence_row cid d now x)) (evidence_of d) (rg_evidence g)\<rparr>"

section \<open>Registration\<close>

definition insert_new_identity ::
  "string \<Rightarrow> string \<Rightarrow> string \<Rightarrow> string \<Rightarrow> discovered_device \<Rightarrow> string \<Rightarrow> 'a inventory_db_scheme \<Rightarrow> 'a inventory_db_scheme sql" where
  "insert_new_identity cid device_id source idvalue d now g =
    (let g' = insert_canonical_device device_id d now g in
     sbind (insert_row id_controller_id
       \<lparr>id_controller_id = cid, id_canonical = device_id, id_source = source, id_value = idvalue, id_profile = dd_profile d,
        id_family = device_family d, id_model = device_model d, id_serial = device_serial d, id_first_seen = now,
        id_last_seen = now\<rparr> (rg_identities g')) (\<lambda>ids. Inr (g'\<lparr>rg_identities := ids\<rparr>)))"

text \<open>\<open>_promote_identity\<close>: a serial number was read from a controller known by its connection only.\<close>

definition promote_identity ::
  "string \<Rightarrow> string \<Rightarrow> string \<Rightarrow> string \<Rightarrow> string \<Rightarrow> discovered_device \<Rightarrow> string \<Rightarrow> 'a inventory_db_scheme \<Rightarrow>
   'a inventory_db_scheme sql" where
  "promote_identity old new device_id source idvalue d now g =
    (let first_seen = (case select_row id_controller_id old (rg_identities g) of None \<Rightarrow> now | Some r \<Rightarrow> id_first_seen r) in
     sbind (insert_row id_controller_id
       \<lparr>id_controller_id = new, id_canonical = device_id, id_source = source, id_value = idvalue, id_profile = dd_profile d,
        id_family = device_family d, id_model = device_model d, id_serial = device_serial d, id_first_seen = first_seen,
        id_last_seen = now\<rparr> (rg_identities g)) (\<lambda>ids.
     sbind (checked mb_device_id (update_rows (\<lambda>r. mb_controller_id r = old) (\<lambda>r. r\<lparr>mb_controller_id := new\<rparr>) (rg_members g))) (\<lambda>ms.
     sbind (checked cn_key (update_rows (\<lambda>r. cn_controller_id r = old) (\<lambda>r. r\<lparr>cn_controller_id := new\<rparr>) (rg_connections g))) (\<lambda>cs.
     sbind (checked lc_key (update_rows (\<lambda>r. lc_controller_id r = old) (\<lambda>r. r\<lparr>lc_controller_id := new\<rparr>) (rg_locations g))) (\<lambda>ls.
     sbind (checked ce_key (update_rows (\<lambda>r. ce_controller_id r = old) (\<lambda>r. r\<lparr>ce_controller_id := new\<rparr>) (rg_evidence g))) (\<lambda>es.
       Inr (g\<lparr>rg_identities := filter (\<lambda>r. id_controller_id r \<noteq> old) ids, rg_members := ms, rg_connections := cs,
              rg_locations := ls, rg_evidence := es\<rparr>)))))))"

text \<open>The identities a connection with this key is recorded for, the latest connection first.\<close>

definition endpoint_owner :: "string \<Rightarrow> 'a inventory_db_scheme \<Rightarrow> identity_rec option" where
  "endpoint_owner key g =
    map_option snd (latest_row (\<lambda>(c, i). cn_last_seen c)
      (concat (map (\<lambda>c. map (Pair c) (filter (\<lambda>i. id_controller_id i = cn_controller_id c) (rg_identities g)))
        (filter (\<lambda>c. cn_endpoint_key c = key) (rg_connections g)))))"

record matched =
  mt_controller_id :: string
  mt_device_id :: string
  mt_strategy :: string
  mt_confidence :: pyfloat

text \<open>The cases of \<open>register_observation\<close>: the controller and device of the observation, and how they were found.\<close>

definition match_observation ::
  "(string \<Rightarrow> string) \<Rightarrow> string \<Rightarrow> discovered_device \<Rightarrow> 'a inventory_db_scheme \<Rightarrow> ('a inventory_db_scheme \<times> matched) sql" where
  "match_observation sha256 now d g =
    (let (cid, source, idvalue) = observed_identity d; serial = str_strip (device_serial d) in
     case select_row id_controller_id cid (rg_identities g) of
       Some i \<Rightarrow> Inr (g, \<lparr>mt_controller_id = cid, mt_device_id = id_canonical i, mt_strategy = source,
         mt_confidence = (if source = ''controller_serial'' then Fin 1 else fl (80 / 100))\<rparr>)
     | None \<Rightarrow>
       (case endpoint_owner (device_key d) g of
          Some ow \<Rightarrow>
            (let owner_serial = str_strip (id_serial ow) in
             if serial \<noteq> [] \<and> owner_serial \<noteq> [] \<and> serial \<noteq> owner_serial then
               (let device_id = conflict_device_id sha256 d in
                sbind (insert_new_identity cid device_id source idvalue d now g) (\<lambda>g'.
                  Inr (g', \<lparr>mt_controller_id = cid, mt_device_id = device_id, mt_strategy = ''controller_serial_conflict'',
                    mt_confidence = fl (95 / 100)\<rparr>)))
             else if serial \<noteq> [] \<and> owner_serial = [] then
               sbind (promote_identity (id_controller_id ow) cid (id_canonical ow) source idvalue d now g) (\<lambda>g'.
                 Inr (g', \<lparr>mt_controller_id = cid, mt_device_id = id_canonical ow,
                   mt_strategy = ''controller_serial_promotion'', mt_confidence = Fin 1\<rparr>))
             else Inr (g, \<lparr>mt_controller_id = id_controller_id ow, mt_device_id = id_canonical ow,
               mt_strategy = ''known_endpoint_owner'',
               mt_confidence = (if owner_serial \<noteq> [] then fl (95 / 100) else fl (65 / 100))\<rparr>))
        | None \<Rightarrow>
            (let device_id = (case select_row dv_stable_key (device_key d) (rg_devices g) of
                 None \<Rightarrow> device_key d | Some r \<Rightarrow> dv_id r) in
             sbind (insert_new_identity cid device_id source idvalue d now g) (\<lambda>g'.
               Inr (g', \<lparr>mt_controller_id = cid, mt_device_id = device_id, mt_strategy = ''new_controller'',
                 mt_confidence = fl (40 / 100)\<rparr>)))))"

definition touch_identity :: "string \<Rightarrow> discovered_device \<Rightarrow> string \<Rightarrow> 'a inventory_db_scheme \<Rightarrow> 'a inventory_db_scheme" where
  "touch_identity cid d now g = (let serial = str_strip (device_serial d) in
     g\<lparr>rg_identities := update_rows (\<lambda>r. id_controller_id r = cid)
       (\<lambda>r. r\<lparr>id_last_seen := now, id_profile := dd_profile d, id_family := device_family d, id_model := device_model d,
         id_serial := (if serial \<noteq> [] then serial else id_serial r)\<rparr>) (rg_identities g)\<rparr>)"

text \<open>The rest of the transaction.\<close>

definition record_observation :: "matched \<Rightarrow> discovered_device \<Rightarrow> string \<Rightarrow> 'a inventory_db_scheme \<Rightarrow> 'a inventory_db_scheme" where
  "record_observation m d now g =
    (let cid = mt_controller_id m in
     touch_identity cid d now (record_evidence cid d now
       (upsert_connection cid (dd_endpoint d) now (mt_strategy m) (mt_confidence m) now True
         (upsert_member cid (mt_device_id m) now now (update_canonical_device (mt_device_id m) d now g)))))"

section \<open>Databases older than the inventory\<close>

definition is_fresh :: "(string \<Rightarrow> int option) \<Rightarrow> int \<Rightarrow> pyfloat \<Rightarrow> string \<Rightarrow> bool" where
  "is_fresh parse_time clock grace v =
    (case (if v = [] then None else parse_time v) of None \<Rightarrow> False
     | Some t \<Rightarrow> fle (fmax (Fin 0) (total_seconds (clock - t))) grace)"

definition is_live_status :: "string \<Rightarrow> bool" where
  "is_live_status raw \<longleftrightarrow> raw = ''online'' \<or> raw = ''error''"

text \<open>\<open>str(row.get("status") or "offline").lower()\<close>.\<close>

definition raw_status :: "string \<Rightarrow> string" where
  "raw_status s = str_lower (if s = [] then ''offline'' else s)"

type_synonym joined_row = "device_rec \<times> device_intelligence option"

definition device_rows :: "'a inventory_db_scheme \<Rightarrow> joined_row list" where
  "device_rows g = map (\<lambda>d. (d, map_of (rg_intelligence g) (dv_id d))) (order_desc dv_last_seen (rg_devices g))"

definition joined_identity :: "joined_row \<Rightarrow> string \<times> string \<times> string" where
  "joined_identity row = (case row of (d, i) \<Rightarrow>
     controller_identity (case i of None \<Rightarrow> [] | Some i \<Rightarrow> di_serial_number i) (dv_profile d)
       (text_or_empty (ep_usb_serial (dv_endpoint d))) (ep_unit_id (dv_endpoint d)) (dv_stable_key d))"

text \<open>The rows of each controller, in the order the controllers are met.\<close>

definition group_rows :: "joined_row list \<Rightarrow> (string \<times> joined_row list) list" where
  "group_rows rows = fold (\<lambda>row acc. (let cid = fst (joined_identity row) in
     AList.update cid ((case map_of acc cid of None \<Rightarrow> [] | Some rs \<Rightarrow> rs) @ [row]) acc)) rows []"

definition merge_identity :: "identity_rec \<Rightarrow> identity_rec \<Rightarrow> identity_rec" where
  "merge_identity old row = old\<lparr>id_source := id_source row, id_value := id_value row, id_profile := id_profile row,
     id_family := id_family row, id_model := id_model row, id_serial := id_serial row,
     id_first_seen := min (id_first_seen old) (id_first_seen row), id_last_seen := max (id_last_seen old) (id_last_seen row)\<rparr>"

definition or_text :: "string \<Rightarrow> string \<Rightarrow> string" where
  "or_text a b = (if a = [] then b else a)"

text \<open>\<open>_upsert_connection_from_row\<close>; \<open>now\<close> is the text of the clock.\<close>

definition upsert_connection_from_row ::
  "string \<Rightarrow> string \<Rightarrow> device_rec \<Rightarrow> bool \<Rightarrow> 'a inventory_db_scheme \<Rightarrow> 'a inventory_db_scheme" where
  "upsert_connection_from_row cid now d active g =
    upsert_connection cid
      ((dv_endpoint d)\<lparr>ep_usb_serial := (if truthy (ep_usb_serial (dv_endpoint d)) then ep_usb_serial (dv_endpoint d) else None)\<rparr>)
      (or_text (dv_last_seen d) (or_text (dv_first_seen d) now)) ''legacy'' (fl (50 / 100))
      (or_text (dv_first_seen d) (or_text (dv_last_seen d) now)) active g"

definition bootstrap_row ::
  "(string \<Rightarrow> int option) \<Rightarrow> int \<Rightarrow> pyfloat \<Rightarrow> string \<Rightarrow> string \<Rightarrow> string \<Rightarrow> nat \<times> device_rec \<Rightarrow> 'a inventory_db_scheme \<Rightarrow>
   'a inventory_db_scheme" where
  "bootstrap_row parse_time clock grace now cid first_seen entry g = (case entry of (index, d) \<Rightarrow>
    let active = (index = 0 \<and> is_live_status (raw_status (dv_status d)) \<and> is_fresh parse_time clock grace (dv_last_seen d)) in
    upsert_connection_from_row cid now d active
      (upsert_member cid (dv_id d) (or_text (dv_first_seen d) first_seen) (or_text (dv_last_seen d) first_seen) g))"

text \<open>The newest row of the group is the canonical device.\<close>

definition bootstrap_group ::
  "(string \<Rightarrow> int option) \<Rightarrow> int \<Rightarrow> pyfloat \<Rightarrow> string \<Rightarrow> string \<times> joined_row list \<Rightarrow> 'a inventory_db_scheme \<Rightarrow>
   'a inventory_db_scheme" where
  "bootstrap_group parse_time clock grace now gr g = (case gr of (cid, rows) \<Rightarrow>
    let ordered = order_desc (\<lambda>row. (dv_last_seen (fst row), dv_id (fst row))) rows; current = fst (hd ordered);
        intel = snd (hd ordered); (_, source, idvalue) = joined_identity (last rows);
        firsts = filter (\<lambda>t. t \<noteq> []) (map (\<lambda>row. dv_first_seen (fst row)) ordered);
        first_seen = (if firsts \<noteq> [] then Min (set firsts) else dv_last_seen current);
        row = \<lparr>id_controller_id = cid, id_canonical = dv_id current, id_source = source, id_value = idvalue,
          id_profile = dv_profile current, id_family = (case intel of None \<Rightarrow> [] | Some i \<Rightarrow> di_family i),
          id_model = or_text (case intel of None \<Rightarrow> [] | Some i \<Rightarrow> di_model i) (dv_product_code current),
          id_serial = (case intel of None \<Rightarrow> [] | Some i \<Rightarrow> di_serial_number i), id_first_seen = first_seen,
          id_last_seen = or_text (dv_last_seen current) first_seen\<rparr> in
    fold (bootstrap_row parse_time clock grace now cid first_seen) (enumerate 0 (map fst ordered))
      (g\<lparr>rg_identities := upsert id_controller_id merge_identity row (rg_identities g)\<rparr>))"

definition bootstrap_legacy_rows ::
  "(string \<Rightarrow> int option) \<Rightarrow> int \<Rightarrow> pyfloat \<Rightarrow> string \<Rightarrow> 'a inventory_db_scheme \<Rightarrow> 'a inventory_db_scheme" where
  "bootstrap_legacy_rows parse_time clock grace now g =
    fold (bootstrap_group parse_time clock grace now) (group_rows (device_rows g)) g"

text \<open>The clock as an instant and as text, the parser of timestamps, the grace period, the hash: what the code reads.\<close>

record registry_world =
  rw_parse_time :: "string \<Rightarrow> int option"
  rw_clock :: int
  rw_now :: string
  rw_grace :: pyfloat
  rw_sha256 :: "string \<Rightarrow> string"

definition initialize_inventory :: "registry_world \<Rightarrow> 'a inventory_db_scheme \<Rightarrow> 'a inventory_db_scheme" where
  "initialize_inventory w g =
    (if rg_identities g = [] then bootstrap_legacy_rows (rw_parse_time w) (rw_clock w) (rw_grace w) (rw_now w) g else g)"

text \<open>An exception leaves the transaction uncommitted, but not the initialisation before it.\<close>

definition register_observation ::
  "registry_world \<Rightarrow> discovered_device \<Rightarrow> 'a inventory_db_scheme \<Rightarrow> 'a inventory_db_scheme \<times> (string \<times> string) sql" where
  "register_observation w d g =
    (let g0 = initialize_inventory w g in
     case match_observation (rw_sha256 w) (rw_now w) d g0 of
       Inl e \<Rightarrow> (g0, Inl e)
     | Inr (g', m) \<Rightarrow> (record_observation m d (rw_now w) g', Inr (mt_controller_id m, mt_device_id m)))"

section \<open>Presence\<close>

definition activate :: "string \<times> string \<Rightarrow> connection_rec list \<Rightarrow> connection_rec list" where
  "activate observed = update_rows (\<lambda>r. cn_key r = observed) (\<lambda>r. r\<lparr>cn_active := True\<rparr>)"

definition reconcile_presence :: "registry_world \<Rightarrow> (string \<times> string) list \<Rightarrow> 'a inventory_db_scheme \<Rightarrow> 'a inventory_db_scheme" where
  "reconcile_presence w observed g =
    (let g0 = initialize_inventory w g in
     g0\<lparr>rg_connections := fold activate (sort (remdups observed))
       (update_rows (\<lambda>_. True) (\<lambda>r. r\<lparr>cn_active := False\<rparr>) (rg_connections g0))\<rparr>)"

definition record_success :: "string \<Rightarrow> string \<Rightarrow> string \<Rightarrow> 'a inventory_db_scheme \<Rightarrow> 'a inventory_db_scheme" where
  "record_success now cid key g = g\<lparr>
     rg_connections := update_rows (\<lambda>r. cn_key r = (cid, key))
       (\<lambda>r. r\<lparr>cn_active := True, cn_last_seen := now, cn_last_success := Some now\<rparr>) (rg_connections g),
     rg_identities := update_rows (\<lambda>r. id_controller_id r = cid) (\<lambda>r. r\<lparr>id_last_seen := now\<rparr>) (rg_identities g)\<rparr>"

definition mark_all_offline :: "'a inventory_db_scheme \<Rightarrow> 'a inventory_db_scheme" where
  "mark_all_offline g = g\<lparr>
     rg_devices := update_rows (\<lambda>r. is_live_status (dv_status r)) (\<lambda>r. r\<lparr>dv_status := ''offline''\<rparr>) (rg_devices g),
     rg_connections := update_rows (\<lambda>_. True) (\<lambda>r. r\<lparr>cn_active := False\<rparr>) (rg_connections g)\<rparr>"

definition mark_device_offline :: "string \<Rightarrow> 'a inventory_db_scheme \<Rightarrow> 'a inventory_db_scheme" where
  "mark_device_offline device_id g = g\<lparr>rg_devices :=
     update_rows (\<lambda>r. dv_id r = device_id) (\<lambda>r. r\<lparr>dv_status := ''offline''\<rparr>) (rg_devices g)\<rparr>"

section \<open>Payloads\<close>

record connection_view =
  cv_device_id :: string
  cv_stable_key :: string
  cv_transport :: transport_name
  cv_target :: string
  cv_port :: "int option"
  cv_unit_id :: int
  cv_status :: string
  cv_current :: bool
  cv_first_seen :: string
  cv_last_seen :: string
  cv_observations :: nat

record controller_view =
  vw_controller_id :: string
  vw_identity_source :: string
  vw_identity_value :: string
  vw_canonical_device_id :: string
  vw_history_device_ids :: "string list"
  vw_status :: string
  vw_vendor_name :: string
  vw_product_code :: string
  vw_profile :: string
  vw_family :: string
  vw_model :: string
  vw_serial_number :: string
  vw_firmware :: string
  vw_hardware_revision :: string
  vw_confidence :: "pyfloat option"
  vw_first_seen :: string
  vw_last_seen :: string
  vw_active_connection_count :: nat
  vw_current_connection :: "connection_view option"
  vw_connections :: "connection_view list"

text \<open>\<open>ORDER BY last_seen DESC, device_id\<close>\<close>

definition member_rows :: "string \<Rightarrow> 'a inventory_db_scheme \<Rightarrow> member_rec list" where
  "member_rows cid g =
    order_desc mb_last_seen (rev (sort_key mb_device_id (filter (\<lambda>r. mb_controller_id r = cid) (rg_members g))))"

definition active_locations :: "string \<Rightarrow> 'a inventory_db_scheme \<Rightarrow> (string \<times> string) set" where
  "active_locations cid g =
    set (map (\<lambda>r. (cn_endpoint_key r, ep_target (cn_endpoint r))) (filter (\<lambda>r. cn_controller_id r = cid \<and> cn_active r) (rg_connections g)))"

definition controller_status :: "registry_world \<Rightarrow> device_rec \<Rightarrow> (string \<times> string) set \<Rightarrow> string" where
  "controller_status w d active =
    (let raw = raw_status (dv_status d);
         fresh = is_fresh (rw_parse_time w) (rw_clock w) (rw_grace w) (dv_last_seen d) in
     if active = {} then ''offline'' else if fresh \<and> is_live_status raw then raw else ''offline'')"

text \<open>The role \<open>current\<close> and its status; \<open>previous\<close> connections are offline.\<close>

definition view_connection :: "string \<Rightarrow> string \<Rightarrow> (string \<times> string) set \<Rightarrow> location_rec \<Rightarrow> connection_view" where
  "view_connection canonical status active r =
    (let current = (lc_endpoint_key r, lc_target r) \<in> active in
     \<lparr>cv_device_id = canonical, cv_stable_key = lc_endpoint_key r, cv_transport = lc_transport r, cv_target = lc_target r,
      cv_port = lc_port r, cv_unit_id = lc_unit_id r, cv_status = (if current then status else ''offline''),
      cv_current = current, cv_first_seen = lc_first_seen r, cv_last_seen = lc_last_seen r,
      cv_observations = lc_observations r\<rparr>)"

definition identity_payload ::
  "registry_world \<Rightarrow> 'a inventory_db_scheme \<Rightarrow> identity_rec \<times> device_rec \<times> device_intelligence option \<Rightarrow> controller_view" where
  "identity_payload w g row = (case row of (i, d, intel) \<Rightarrow>
    let cid = id_controller_id i; members = member_rows cid g; active = active_locations cid g;
        status = controller_status w d active;
        connections = map (view_connection (id_canonical i) status active)
          (order_desc lc_last_seen (filter (\<lambda>r. lc_controller_id r = cid) (rg_locations g)));
        firsts = filter (\<lambda>t. t \<noteq> []) (map mb_first_seen members) in
    \<lparr>vw_controller_id = cid, vw_identity_source = id_source i, vw_identity_value = id_value i,
     vw_canonical_device_id = id_canonical i, vw_history_device_ids = map mb_device_id members, vw_status = status,
     vw_vendor_name = or_text (dv_vendor_name d) ''Morningstar'', vw_product_code = dv_product_code d,
     vw_profile = id_profile i, vw_family = id_family i, vw_model = or_text (id_model i) (dv_product_code d),
     vw_serial_number = id_serial i, vw_firmware = (case intel of None \<Rightarrow> [] | Some x \<Rightarrow> di_firmware x),
     vw_hardware_revision = (case intel of None \<Rightarrow> [] | Some x \<Rightarrow> di_hardware_revision x),
     vw_confidence = map_option di_confidence intel,
     vw_first_seen = (if firsts \<noteq> [] then Min (set firsts) else id_first_seen i), vw_last_seen = id_last_seen i,
     vw_active_connection_count = card active,
     vw_current_connection = (case List.find cv_current connections of Some c \<Rightarrow> Some c
       | None \<Rightarrow> (case connections of [] \<Rightarrow> None | c # _ \<Rightarrow> Some c)),
     vw_connections = connections\<rparr>)"

text \<open>The identities with their canonical device, which an inner join requires, and what is known of it.\<close>

definition joined_identities :: "identity_rec list \<Rightarrow> 'a inventory_db_scheme \<Rightarrow>
    (identity_rec \<times> device_rec \<times> device_intelligence option) list" where
  "joined_identities ids g = List.map_filter (\<lambda>i. map_option
     (\<lambda>d. (i, d, map_of (rg_intelligence g) (id_canonical i))) (select_row dv_id (id_canonical i) (rg_devices g))) ids"

definition list_inventory :: "registry_world \<Rightarrow> 'a inventory_db_scheme \<Rightarrow> 'a inventory_db_scheme \<times> controller_view list" where
  "list_inventory w g = (let g0 = initialize_inventory w g in
     (g0, map (identity_payload w g0) (joined_identities (order_desc id_last_seen (rg_identities g0)) g0)))"

definition get_inventory ::
  "registry_world \<Rightarrow> string \<Rightarrow> 'a inventory_db_scheme \<Rightarrow> 'a inventory_db_scheme \<times> controller_view option" where
  "get_inventory w cid g = (let g0 = initialize_inventory w g in
     (g0, case joined_identities (filter (\<lambda>i. id_controller_id i = cid) (rg_identities g0)) g0 of
            [] \<Rightarrow> None | row # _ \<Rightarrow> Some (identity_payload w g0 row)))"

end
