(* ===== verification/Registry.thy ===== *)
theory Registry
  imports Inventory
begin

text \<open>
  \<open>controllers/scope.py\<close>: immutable identifiers of physical controllers on top of the inventory, and the
  registry that joins the two.  \<open>uuid4\<close> is the parameter \<open>fresh\<close>, indexed by the number of identifiers drawn so
  far, which the state counts.  Each repository call is a transaction: a call that raises leaves the tables as
  they were before it.
\<close>

record physical_rec =
  pc_uid :: string
  pc_canonical :: string
  pc_current :: string
  pc_first_seen :: string
  pc_last_seen :: string

record alias_rec =
  al_controller_id :: string
  al_uid :: string
  al_source :: string
  al_value :: string
  al_first_seen :: string
  al_last_seen :: string
  al_active :: bool

record registry_db = inventory_db +
  rg_physical :: "physical_rec list"
  rg_aliases :: "alias_rec list"
  rg_drawn :: nat

record controller_scope =
  sp_uid :: string
  sp_controller_id :: string
  sp_canonical :: string
  sp_history :: "string list"

section \<open>Synchronisation\<close>

definition merge_physical :: "physical_rec \<Rightarrow> physical_rec \<Rightarrow> physical_rec" where
  "merge_physical old row = old\<lparr>pc_canonical := pc_canonical row, pc_current := pc_current row,
     pc_first_seen := min (pc_first_seen old) (pc_first_seen row), pc_last_seen := max (pc_last_seen old) (pc_last_seen row)\<rparr>"

definition merge_alias :: "alias_rec \<Rightarrow> alias_rec \<Rightarrow> alias_rec" where
  "merge_alias old row = old\<lparr>al_uid := al_uid row, al_source := al_source row, al_value := al_value row,
     al_first_seen := min (al_first_seen old) (al_first_seen row), al_last_seen := max (al_last_seen old) (al_last_seen row),
     al_active := True\<rparr>"

text \<open>The identifier of an identity, and the number of identifiers drawn after it.\<close>

definition uid_for :: "(nat \<Rightarrow> string) \<Rightarrow> identity_rec \<Rightarrow> registry_db \<Rightarrow> string \<times> nat" where
  "uid_for fresh i g =
    (case select_row al_controller_id (id_controller_id i) (rg_aliases g) of
       Some a \<Rightarrow> (al_uid a, rg_drawn g)
     | None \<Rightarrow>
       (case select_row pc_canonical (id_canonical i) (rg_physical g) of
          Some p \<Rightarrow> (pc_uid p, rg_drawn g)
        | None \<Rightarrow> (''ctrl_'' @ fresh (rg_drawn g), Suc (rg_drawn g))))"

text \<open>The foreign key of \<open>canonical_device_id\<close> is enforced here, as its uniqueness is.\<close>

definition sync_identity :: "(nat \<Rightarrow> string) \<Rightarrow> string \<Rightarrow> identity_rec \<Rightarrow> registry_db \<Rightarrow> registry_db sql" where
  "sync_identity fresh now i g =
    (let (uid, drawn) = uid_for fresh i g; first_seen = or_text (id_first_seen i) now;
         last_seen = or_text (id_last_seen i) first_seen in
     if id_canonical i \<notin> dv_id ` set (rg_devices g) then Inl IntegrityError
     else sbind (checked pc_canonical (upsert pc_uid merge_physical
         \<lparr>pc_uid = uid, pc_canonical = id_canonical i, pc_current = id_controller_id i, pc_first_seen = first_seen,
          pc_last_seen = last_seen\<rparr> (rg_physical g))) (\<lambda>ps.
       Inr (g\<lparr>rg_physical := ps, rg_drawn := drawn,
         rg_aliases := upsert al_controller_id merge_alias
           \<lparr>al_controller_id = id_controller_id i, al_uid = uid, al_source = id_source i, al_value = id_value i,
            al_first_seen = first_seen, al_last_seen = last_seen, al_active = True\<rparr>
           (update_rows (\<lambda>a. al_uid a = uid) (\<lambda>a. a\<lparr>al_active := False\<rparr>) (rg_aliases g))\<rparr>)))"

fun sync_identities :: "(nat \<Rightarrow> string) \<Rightarrow> string \<Rightarrow> identity_rec list \<Rightarrow> registry_db \<Rightarrow> registry_db sql" where
  "sync_identities fresh now [] g = Inr g"
| "sync_identities fresh now (i # is) g = sbind (sync_identity fresh now i g) (sync_identities fresh now is)"

definition sync_order :: "identity_rec list \<Rightarrow> identity_rec list" where
  "sync_order ids = sort_key (\<lambda>i. (id_last_seen i, id_controller_id i)) ids"

section \<open>Calls on the registry\<close>

datatype registry_error = DatabaseError sqlite_error | ScopeMissing string

type_synonym 'a call = "registry_db \<Rightarrow> registry_db \<times> (registry_error + 'a)"

definition call_then :: "'a call \<Rightarrow> ('a \<Rightarrow> 'b call) \<Rightarrow> 'b call" where
  "call_then m f g = (case m g of (g', Inl e) \<Rightarrow> (g', Inl e) | (g', Inr x) \<Rightarrow> f x g')"

definition sync :: "(nat \<Rightarrow> string) \<Rightarrow> registry_world \<Rightarrow> unit call" where
  "sync fresh w g = (case sync_identities fresh (rw_now w) (sync_order (rg_identities g)) g of
     Inl e \<Rightarrow> (g, Inl (DatabaseError e)) | Inr g' \<Rightarrow> (g', Inr ()))"

text \<open>\<open>tuple(dict.fromkeys(xs))\<close>\<close>

definition first_occurrences :: "'a list \<Rightarrow> 'a list" where
  "first_occurrences xs = rev (remdups (rev xs))"

definition physical_named :: "string \<Rightarrow> registry_db \<Rightarrow> physical_rec option" where
  "physical_named identifier g =
    (case select_row pc_uid identifier (rg_physical g) of
       Some p \<Rightarrow> Some p
     | None \<Rightarrow>
       (case select_row al_controller_id identifier (rg_aliases g) of
          None \<Rightarrow> None | Some a \<Rightarrow> select_row pc_uid (al_uid a) (rg_physical g)))"

definition scope_of :: "physical_rec \<Rightarrow> registry_db \<Rightarrow> controller_scope" where
  "scope_of p g =
    (let members = map mb_device_id (sort_key (\<lambda>r. (mb_last_seen r, mb_device_id r))
           (filter (\<lambda>r. mb_controller_id r = pc_current p) (rg_members g)));
         history = (if pc_canonical p \<in> set members then members else members @ [pc_canonical p]) in
     \<lparr>sp_uid = pc_uid p, sp_controller_id = pc_current p, sp_canonical = pc_canonical p,
      sp_history = first_occurrences history\<rparr>)"

definition resolve :: "(nat \<Rightarrow> string) \<Rightarrow> registry_world \<Rightarrow> string \<Rightarrow> controller_scope option call" where
  "resolve fresh w identifier = call_then (sync fresh w) (\<lambda>_ g.
     (g, Inr (map_option (\<lambda>p. scope_of p g) (physical_named identifier g))))"

fun resolve_all :: "(nat \<Rightarrow> string) \<Rightarrow> registry_world \<Rightarrow> string list \<Rightarrow> controller_scope list call" where
  "resolve_all fresh w [] g = (g, Inr [])"
| "resolve_all fresh w (u # us) g = call_then (resolve fresh w u) (\<lambda>s. call_then (resolve_all fresh w us) (\<lambda>ss g'.
     (g', Inr (case s of None \<Rightarrow> ss | Some s \<Rightarrow> s # ss)))) g"

definition list_scopes :: "(nat \<Rightarrow> string) \<Rightarrow> registry_world \<Rightarrow> controller_scope list call" where
  "list_scopes fresh w = call_then (sync fresh w) (\<lambda>_ g.
     resolve_all fresh w (map pc_uid (order_desc pc_last_seen (rg_physical g))) g)"

definition registry_initialize :: "(nat \<Rightarrow> string) \<Rightarrow> registry_world \<Rightarrow> unit call" where
  "registry_initialize fresh w g = sync fresh w (initialize_inventory w g)"

definition inventory_register :: "registry_world \<Rightarrow> discovered_device \<Rightarrow> (string \<times> string) call" where
  "inventory_register w d g = (case register_observation w d g of
     (g', Inl e) \<Rightarrow> (g', Inl (DatabaseError e)) | (g', Inr r) \<Rightarrow> (g', Inr r))"

definition registry_register :: "(nat \<Rightarrow> string) \<Rightarrow> registry_world \<Rightarrow> discovered_device \<Rightarrow> (string \<times> string) call" where
  "registry_register fresh w d =
    call_then (registry_initialize fresh w) (\<lambda>_.
    call_then (inventory_register w d) (\<lambda>(cid, device_id).
    call_then (sync fresh w) (\<lambda>_.
    call_then (resolve fresh w cid) (\<lambda>scope g.
      (g, case scope of None \<Rightarrow> Inl (ScopeMissing cid) | Some s \<Rightarrow> Inr (sp_uid s, device_id))))))"

text \<open>Identities of an old database that were never observed since: known by an endpoint only, and inactive.\<close>

definition legacy_placeholder :: "registry_db \<Rightarrow> identity_rec \<Rightarrow> bool" where
  "legacy_placeholder g i \<longleftrightarrow>
    (let cs = filter (\<lambda>c. cn_controller_id c = id_controller_id i) (rg_connections g) in
     id_source i = ''endpoint'' \<and> cs \<noteq> [] \<and> list_all (\<lambda>c. \<not> cn_active c) cs \<and>
     length (filter (\<lambda>c. cn_strategy c \<noteq> ''legacy'') cs) = 0)"

text \<open>\<open>item.update(scope.to_dict())\<close>, the identifier beside the record.\<close>

definition with_scope :: "controller_view \<Rightarrow> controller_scope \<Rightarrow> string \<times> controller_view" where
  "with_scope v s = (sp_uid s, v\<lparr>vw_controller_id := sp_controller_id s, vw_canonical_device_id := sp_canonical s,
     vw_history_device_ids := sp_history s\<rparr>)"

fun scope_records ::
  "(nat \<Rightarrow> string) \<Rightarrow> registry_world \<Rightarrow> string set \<Rightarrow> controller_view list \<Rightarrow> (string \<times> controller_view) list call" where
  "scope_records fresh w hidden [] g = (g, Inr [])"
| "scope_records fresh w hidden (v # vs) g =
    (if vw_controller_id v \<in> hidden then scope_records fresh w hidden vs g
     else call_then (resolve fresh w (vw_controller_id v)) (\<lambda>s. call_then (scope_records fresh w hidden vs) (\<lambda>items g'.
       (g', Inr (case s of None \<Rightarrow> items | Some s \<Rightarrow> with_scope v s # items)))) g)"

definition list_controllers :: "(nat \<Rightarrow> string) \<Rightarrow> registry_world \<Rightarrow> (string \<times> controller_view) list call" where
  "list_controllers fresh w = call_then (registry_initialize fresh w) (\<lambda>_ g.
     let (g', records) = list_inventory w g;
         hidden = set (map id_controller_id (filter (legacy_placeholder g') (rg_identities g'))) in
     scope_records fresh w hidden records g')"

definition get_controller :: "(nat \<Rightarrow> string) \<Rightarrow> registry_world \<Rightarrow> string \<Rightarrow> (string \<times> controller_view) option call" where
  "get_controller fresh w identifier = call_then (resolve fresh w identifier) (\<lambda>scope g.
     case scope of None \<Rightarrow> (g, Inr None)
     | Some s \<Rightarrow> (let (g', v) = get_inventory w (sp_controller_id s) g in (g', Inr (map_option (\<lambda>v. with_scope v s) v))))"

fun translate_observed ::
  "(nat \<Rightarrow> string) \<Rightarrow> registry_world \<Rightarrow> (string \<times> string) list \<Rightarrow> (string \<times> string) list call" where
  "translate_observed fresh w [] g = (g, Inr [])"
| "translate_observed fresh w ((uid, key) # observed) g =
    call_then (resolve fresh w uid) (\<lambda>s. call_then (translate_observed fresh w observed) (\<lambda>rest g'.
      (g', Inr (case s of None \<Rightarrow> rest | Some s \<Rightarrow> (sp_controller_id s, key) # rest)))) g"

definition registry_presence :: "(nat \<Rightarrow> string) \<Rightarrow> registry_world \<Rightarrow> (string \<times> string) list \<Rightarrow> unit call" where
  "registry_presence fresh w observed = call_then (translate_observed fresh w observed) (\<lambda>translated g.
     (reconcile_presence w translated g, Inr ()))"

definition registry_success :: "(nat \<Rightarrow> string) \<Rightarrow> registry_world \<Rightarrow> string \<Rightarrow> string \<Rightarrow> unit call" where
  "registry_success fresh w uid key = call_then (resolve fresh w uid) (\<lambda>s g.
     case s of None \<Rightarrow> (g, Inr ()) | Some s \<Rightarrow> sync fresh w (record_success (rw_now w) (sp_controller_id s) key g))"

section \<open>Runs of the registry\<close>

text \<open>What the agent asks of the registry, in the order it asks.\<close>

datatype registry_event =
    Observe registry_world discovered_device
  | Present registry_world "(string \<times> string) list"
  | Succeeded registry_world string string
  | Resolve registry_world string
  | AllOffline
  | DeviceOffline string

fun registry_step :: "(nat \<Rightarrow> string) \<Rightarrow> registry_event \<Rightarrow> unit call" where
  "registry_step fresh (Observe w d) = call_then (registry_register fresh w d) (\<lambda>_ g. (g, Inr ()))"
| "registry_step fresh (Present w observed) = registry_presence fresh w observed"
| "registry_step fresh (Succeeded w uid key) = registry_success fresh w uid key"
| "registry_step fresh (Resolve w x) = call_then (resolve fresh w x) (\<lambda>_ g. (g, Inr ()))"
| "registry_step fresh AllOffline = (\<lambda>g. (mark_all_offline g, Inr ()))"
| "registry_step fresh (DeviceOffline e) = (\<lambda>g. (mark_device_offline e g, Inr ()))"

fun run_events :: "(nat \<Rightarrow> string) \<Rightarrow> registry_event list \<Rightarrow> unit call" where
  "run_events fresh [] = (\<lambda>g. (g, Inr ()))"
| "run_events fresh (ev # evs) = call_then (registry_step fresh ev) (\<lambda>_. run_events fresh evs)"

definition empty_registry :: registry_db where
  "empty_registry = \<lparr>rg_devices = [], rg_intelligence = [], rg_identities = [], rg_members = [], rg_connections = [],
     rg_locations = [], rg_evidence = [], rg_physical = [], rg_aliases = [], rg_drawn = 0\<rparr>"

end
