(* ===== verification/Registry_Facts.thy ===== *)
theory Registry_Facts
  imports Registry
begin

text \<open>
  The controller registry keeps its promises.  \<open>inventory_ok\<close> is the invariant of the tables of the inventory:
  keys are unique, every identity has a device of its own, every fallback identity holds its connection.
  \<open>evolves\<close> is what one operation may do to the identities: none loses its device, and one that disappears was
  known by a connection only and is never used again.  From these two the locale of the registry's steps
  derives that the synchronisation never raises and that identifiers are immutable.
\<close>

section \<open>Identifiers\<close>

definition is_conflict :: "string \<Rightarrow> bool" where
  "is_conflict s \<longleftrightarrow> s \<noteq> [] \<and> hd s = CHR ''d''"

definition is_serial :: "string \<Rightarrow> bool" where
  "is_serial s \<longleftrightarrow> s \<noteq> [] \<and> hd s = CHR ''m''"

abbreviation observed_id :: "discovered_device \<Rightarrow> string" where
  "observed_id d \<equiv> fst (observed_identity d)"

abbreviation has_serial :: "discovered_device \<Rightarrow> bool" where
  "has_serial d \<equiv> str_strip (device_serial d) \<noteq> []"

lemma is_serial_observed: "is_serial (observed_id d) \<longleftrightarrow> has_serial d"
  by (simp add: is_serial_def observed_identity_def controller_identity_def Let_def)

lemma stable_key_not_conflict [simp]: "\<not> is_conflict (stable_key e)"
proof -
  have "hd (stable_key e) \<in> {CHR ''s'', CHR ''t''}"
    unfolding stable_key_def by (cases "ep_transport e") (simp_all only: if_distrib [of hd] if_cancel append_Cons list.sel transport_str.simps insert_iff simp_thms transport_name.distinct if_True if_False)
  then show ?thesis by (auto simp: is_conflict_def)
qed

lemma conflict_is_conflict [simp]: "is_conflict (conflict_device_id sha256 d)"
  by (simp add: is_conflict_def conflict_device_id_def)

lemma stable_key_stored [simp]: "stable_key (stored_endpoint e) = stable_key e"
  by (simp add: stable_key_def stored_endpoint_def locator_def)

text \<open>
  What is asked of the devices observed: the truncated hashes of conflicting ones do not collide, and no two USB
  serial numbers differ in case or surrounding blanks only.
\<close>

definition observable :: "(string \<Rightarrow> string) \<Rightarrow> discovered_device set \<Rightarrow> bool" where
  "observable sha256 D \<longleftrightarrow>
    (\<forall>d \<in> D. \<forall>d' \<in> D. conflict_device_id sha256 d = conflict_device_id sha256 d' \<longrightarrow> observed_id d = observed_id d') \<and>
    (\<forall>d \<in> D. \<forall>d' \<in> D. \<not> has_serial d \<longrightarrow> \<not> has_serial d' \<longrightarrow> observed_id d = observed_id d' \<longrightarrow> device_key d = device_key d')"

text \<open>Identities without a serial number, with the connection they stand for.\<close>

definition fallback :: "discovered_device set \<Rightarrow> (string \<times> string) set" where
  "fallback D = {(observed_id d, device_key d) |d. d \<in> D \<and> \<not> has_serial d}"

lemma fallback_not_serial: "(cid, k) \<in> fallback D \<Longrightarrow> \<not> is_serial cid"
  by (auto simp: fallback_def is_serial_observed)

lemma fallback_unique: "observable sha256 D \<Longrightarrow> (cid, k) \<in> fallback D \<Longrightarrow> (cid, k') \<in> fallback D \<Longrightarrow> k = k'"
  unfolding fallback_def observable_def mem_Collect_eq prod.inject by metis

section \<open>The invariant of the inventory\<close>

definition dev_keys :: "'a inventory_db_scheme \<Rightarrow> (string \<times> string) list" where
  "dev_keys g = map (\<lambda>r. (dv_id r, dv_stable_key r)) (rg_devices g)"

definition id_keys :: "'a inventory_db_scheme \<Rightarrow> (string \<times> string \<times> bool) list" where
  "id_keys g = map (\<lambda>r. (id_controller_id r, id_canonical r, str_strip (id_serial r) = [])) (rg_identities g)"

definition connection_keys :: "'a inventory_db_scheme \<Rightarrow> (string \<times> string) set" where
  "connection_keys g = cn_key ` set (rg_connections g)"

definition identities_inv ::
  "(string \<Rightarrow> string) \<Rightarrow> discovered_device set \<Rightarrow> (string \<times> string) set \<Rightarrow> (string \<times> string) list \<Rightarrow> (string \<times> string \<times> bool) list \<Rightarrow> bool" where
  "identities_inv sha256 D C devs ids \<longleftrightarrow>
    distinct (map fst devs) \<and> distinct (map snd devs) \<and>
    (\<forall>(e, k) \<in> set devs. k = e \<or> (is_conflict e \<and> \<not> is_conflict k)) \<and>
    distinct (map fst ids) \<and> distinct (map (fst \<circ> snd) ids) \<and>
    (fst \<circ> snd) ` set ids \<subseteq> fst ` set devs \<and>
    (\<forall>(e, k) \<in> set devs. is_conflict e \<longrightarrow> e \<in> (fst \<circ> snd) ` set ids) \<and>
    (\<forall>(cid, e, blank) \<in> set ids. \<forall>k. (e, k) \<in> set devs \<longrightarrow> is_conflict k \<or> (cid, k) \<in> C) \<and>
    (\<forall>(cid, e, blank) \<in> set ids. is_conflict e \<longrightarrow> (\<exists>d \<in> D. has_serial d \<and> e = conflict_device_id sha256 d \<and> cid = observed_id d)) \<and>
    (\<forall>(cid, e, blank) \<in> set ids. if blank then \<exists>k. (cid, k) \<in> fallback D \<and> (cid, k) \<in> C else is_serial cid)"

definition tables_inv :: "'a inventory_db_scheme \<Rightarrow> bool" where
  "tables_inv g \<longleftrightarrow>
    distinct (map mb_device_id (rg_members g)) \<and> distinct (map cn_key (rg_connections g)) \<and>
    distinct (map lc_key (rg_locations g)) \<and> distinct (map ce_key (rg_evidence g)) \<and>
    cn_controller_id ` set (rg_connections g) \<subseteq> id_controller_id ` set (rg_identities g) \<and>
    lc_controller_id ` set (rg_locations g) \<subseteq> id_controller_id ` set (rg_identities g) \<and>
    ce_controller_id ` set (rg_evidence g) \<subseteq> id_controller_id ` set (rg_identities g) \<and>
    (rg_identities g = [] \<longrightarrow> rg_devices g = [])"

definition inventory_ok :: "(string \<Rightarrow> string) \<Rightarrow> discovered_device set \<Rightarrow> 'a inventory_db_scheme \<Rightarrow> bool" where
  "inventory_ok sha256 D g \<longleftrightarrow>
    identities_inv sha256 D (connection_keys g) (dev_keys g) (id_keys g) \<and> tables_inv g"

section \<open>The tables keep their keys\<close>

interpretation members: keyed_table mb_device_id merge_member
  by unfold_locales (simp add: merge_member_def)

interpretation connections: keyed_table cn_key merge_connection
  by unfold_locales (simp add: merge_connection_def)

interpretation locations: keyed_table lc_key merge_location
  by unfold_locales (simp add: merge_location_def)

interpretation evidence: keyed_table ce_key merge_evidence
  by unfold_locales (simp add: merge_evidence_def)

interpretation physical: keyed_table pc_uid merge_physical
  by unfold_locales (simp add: merge_physical_def)

interpretation aliases: keyed_table al_controller_id merge_alias
  by unfold_locales (simp add: merge_alias_def)

lemma evidence_fold:
  assumes "distinct (map ce_key t)"
  shows "distinct (map ce_key (fold (\<lambda>x. upsert ce_key merge_evidence (f x)) xs t)) \<and>
    ce_key ` set (fold (\<lambda>x. upsert ce_key merge_evidence (f x)) xs t) = ce_key ` set t \<union> ce_key ` f ` set xs"
  using assms
proof (induction xs arbitrary: t)
  case (Cons x xs)
  then show ?case using evidence.distinct_keys [of t "f x"] by (simp add: evidence.key_set)
qed simp

lemma controller_ids:
  "cn_controller_id ` set t = fst ` cn_key ` set t" "lc_controller_id ` set l = fst ` lc_key ` set l"
  "ce_controller_id ` set e = fst ` ce_key ` set e"
  by (simp_all add: image_image)

lemmas record_defs = record_observation_def touch_identity_def record_evidence_def upsert_connection_def upsert_member_def
  update_canonical_device_def Let_def

lemma record_fields:
  shows "rg_evidence (record_observation m d now g) =
      fold (\<lambda>x. upsert ce_key merge_evidence (evidence_row (mt_controller_id m) d now x)) (evidence_of d) (rg_evidence g)"
    and "connection_keys (record_observation m d now g) = insert (mt_controller_id m, device_key d) (connection_keys g)"
    and "fst ` lc_key ` set (rg_locations (record_observation m d now g)) =
      insert (mt_controller_id m) (fst ` lc_key ` set (rg_locations g))"
    and "id_controller_id ` set (rg_identities (record_observation m d now g)) = id_controller_id ` set (rg_identities g)"
    and "dev_keys (record_observation m d now g) = dev_keys g"
  by (simp_all add: record_defs connections.key_set locations.key_set image_update_rows map_update_rows dev_keys_def connection_keys_def)

lemma tables_record:
  assumes ok: "tables_inv g" and cid: "mt_controller_id m \<in> id_controller_id ` set (rg_identities g)"
  shows "tables_inv (record_observation m d now g)"
proof -
  let ?g = "record_observation m d now g"
  have dist: "distinct (map ce_key (rg_evidence g))" using ok by (simp add: tables_inv_def)
  note ev = evidence_fold [OF dist, of "evidence_row (mt_controller_id m) d now" "evidence_of d"]
  have rows: "fst ` ce_key ` evidence_row (mt_controller_id m) d now ` set (evidence_of d) \<subseteq> {mt_controller_id m}"
    by (auto simp: evidence_row_def)
  have E: "fst ` ce_key ` set (rg_evidence ?g) \<subseteq> insert (mt_controller_id m) (fst ` ce_key ` set (rg_evidence g))"
    unfolding record_fields(1) conjunct2 [OF ev] image_Un using rows by blast
  have Ed: "distinct (map ce_key (rg_evidence ?g))" unfolding record_fields(1) using ev by blast
  have nonempty: "rg_identities ?g \<noteq> []" using cid record_fields(4) [of m d now g] by (metis empty_iff image_empty list.set(1))
  have D: "distinct (map mb_device_id (rg_members ?g))" "distinct (map cn_key (rg_connections ?g))"
    "distinct (map lc_key (rg_locations ?g))"
    using ok by (simp_all add: tables_inv_def record_defs members.distinct_keys connections.distinct_keys locations.distinct_keys)
  have R: "fst ` cn_key ` set (rg_connections ?g) \<subseteq> id_controller_id ` set (rg_identities g)"
    "fst ` lc_key ` set (rg_locations ?g) \<subseteq> id_controller_id ` set (rg_identities g)"
    "fst ` ce_key ` set (rg_evidence ?g) \<subseteq> id_controller_id ` set (rg_identities g)"
  proof -
    note keys = ok [unfolded tables_inv_def controller_ids]
    show "fst ` cn_key ` set (rg_connections ?g) \<subseteq> id_controller_id ` set (rg_identities g)"
      unfolding record_fields(2) [unfolded connection_keys_def] image_insert using keys cid by simp
    show "fst ` lc_key ` set (rg_locations ?g) \<subseteq> id_controller_id ` set (rg_identities g)"
      unfolding record_fields(3) using keys cid by simp
    show "fst ` ce_key ` set (rg_evidence ?g) \<subseteq> id_controller_id ` set (rg_identities g)"
      by (rule order_trans [OF E]) (use keys cid in simp)
  qed
  show ?thesis unfolding tables_inv_def record_fields(4) controller_ids by (intro conjI D Ed R) (simp only: nonempty simp_thms)
qed

section \<open>What the cases of a registration do to the identities\<close>

lemma identities_mono: "identities_inv sha256 D C devs ids \<Longrightarrow> C \<subseteq> C' \<Longrightarrow> identities_inv sha256 D C' devs ids"
  unfolding identities_inv_def by (elim conjE, intro conjI) (assumption | fastforce)+

lemma identities_dest:
  assumes "identities_inv sha256 D C devs ids"
  shows "distinct (map fst devs)" and "distinct (map snd devs)"
    and "\<And>e k. (e, k) \<in> set devs \<Longrightarrow> k = e \<or> (is_conflict e \<and> \<not> is_conflict k)"
    and "distinct (map fst ids)" and "distinct (map (fst \<circ> snd) ids)"
    and "(fst \<circ> snd) ` set ids \<subseteq> fst ` set devs"
    and "\<And>e k. (e, k) \<in> set devs \<Longrightarrow> is_conflict e \<Longrightarrow> e \<in> (fst \<circ> snd) ` set ids"
    and "\<And>cid e b k. (cid, e, b) \<in> set ids \<Longrightarrow> (e, k) \<in> set devs \<Longrightarrow> is_conflict k \<or> (cid, k) \<in> C"
    and "\<And>cid e b. (cid, e, b) \<in> set ids \<Longrightarrow> is_conflict e \<Longrightarrow>
      \<exists>d \<in> D. has_serial d \<and> e = conflict_device_id sha256 d \<and> cid = observed_id d"
    and "\<And>cid e. (cid, e, True) \<in> set ids \<Longrightarrow> \<exists>k. (cid, k) \<in> fallback D \<and> (cid, k) \<in> C"
    and "\<And>cid e. (cid, e, False) \<in> set ids \<Longrightarrow> is_serial cid"
  using assms unfolding identities_inv_def by (auto split: if_splits)

lemma identities_intro:
  assumes "distinct (map fst devs)" and "distinct (map snd devs)"
    and "\<And>e k. (e, k) \<in> set devs \<Longrightarrow> k = e \<or> (is_conflict e \<and> \<not> is_conflict k)"
    and "distinct (map fst ids)" and "distinct (map (fst \<circ> snd) ids)"
    and "(fst \<circ> snd) ` set ids \<subseteq> fst ` set devs"
    and "\<And>e k. (e, k) \<in> set devs \<Longrightarrow> is_conflict e \<Longrightarrow> e \<in> (fst \<circ> snd) ` set ids"
    and "\<And>cid e b k. (cid, e, b) \<in> set ids \<Longrightarrow> (e, k) \<in> set devs \<Longrightarrow> is_conflict k \<or> (cid, k) \<in> C"
    and "\<And>cid e b. (cid, e, b) \<in> set ids \<Longrightarrow> is_conflict e \<Longrightarrow>
      \<exists>d \<in> D. has_serial d \<and> e = conflict_device_id sha256 d \<and> cid = observed_id d"
    and "\<And>cid e. (cid, e, True) \<in> set ids \<Longrightarrow> \<exists>k. (cid, k) \<in> fallback D \<and> (cid, k) \<in> C"
    and "\<And>cid e. (cid, e, False) \<in> set ids \<Longrightarrow> is_serial cid"
  shows "identities_inv sha256 D C devs ids"
proof -
  have "if b then \<exists>k. (c, k) \<in> fallback D \<and> (c, k) \<in> C else is_serial c" if "(c, e, b) \<in> set ids" for c e b
    using assms(10,11) that by (cases b) auto
  then have "\<forall>(c, e, b) \<in> set ids. if b then \<exists>k. (c, k) \<in> fallback D \<and> (c, k) \<in> C else is_serial c" by blast
  moreover have "\<forall>(e, k) \<in> set devs. k = e \<or> (is_conflict e \<and> \<not> is_conflict k)" using assms(3) by blast
  moreover have "\<forall>(e, k) \<in> set devs. is_conflict e \<longrightarrow> e \<in> (fst \<circ> snd) ` set ids" using assms(7) by blast
  moreover have "\<forall>(cid, e, blank) \<in> set ids. \<forall>k. (e, k) \<in> set devs \<longrightarrow> is_conflict k \<or> (cid, k) \<in> C"
    using assms(8) by blast
  moreover have "\<forall>(cid, e, blank) \<in> set ids. is_conflict e \<longrightarrow>
      (\<exists>d \<in> D. has_serial d \<and> e = conflict_device_id sha256 d \<and> cid = observed_id d)"
    using assms(9) by blast
  ultimately show ?thesis unfolding identities_inv_def by (intro conjI assms(1,2,4,5,6))
qed

lemma identities_insert:
  assumes inv: "identities_inv sha256 D C devs ids" and C: "C \<subseteq> C'"
    and cid: "cid \<notin> fst ` set ids" and e: "e \<notin> (fst \<circ> snd) ` set ids"
    and devs': "devs' = devs \<and> e \<in> fst ` set devs \<or>
      devs' = devs @ [(e, k)] \<and> e \<notin> fst ` set devs \<and> k \<notin> snd ` set devs \<and> (k = e \<or> is_conflict e \<and> \<not> is_conflict k)"
    and keys: "\<And>k. (e, k) \<in> set devs' \<Longrightarrow> is_conflict k \<or> (cid, k) \<in> C'"
    and conflict: "is_conflict e \<Longrightarrow> \<exists>d \<in> D. has_serial d \<and> e = conflict_device_id sha256 d \<and> cid = observed_id d"
    and blank: "if blank then \<exists>k. (cid, k) \<in> fallback D \<and> (cid, k) \<in> C' else is_serial cid"
  shows "identities_inv sha256 D C' devs' (ids @ [(cid, e, blank)])"
proof -
  note inv' = identities_dest [OF inv]
  have new: "e' = e" if "(e', k') \<in> set devs'" "(e', k') \<notin> set devs" for e' k' using that devs' by auto
  have sub: "set devs \<subseteq> set devs'" "e \<in> fst ` set devs'" using devs' by auto
  show ?thesis
  proof (rule identities_intro)
    show "distinct (map fst devs')" "distinct (map snd devs')" using inv'(1,2) devs' by auto
    show "k' = e' \<or> is_conflict e' \<and> \<not> is_conflict k'" if "(e', k') \<in> set devs'" for e' k'
      using that inv'(3) [of e' k'] devs' by auto
    show "distinct (map fst (ids @ [(cid, e, blank)]))" "distinct (map (fst \<circ> snd) (ids @ [(cid, e, blank)]))"
      using inv'(4,5) cid e by auto
    have "fst ` set devs \<subseteq> fst ` set devs'" using sub(1) by blast
    then show "(fst \<circ> snd) ` set (ids @ [(cid, e, blank)]) \<subseteq> fst ` set devs'" using inv'(6) sub(2) by simp
    show "e' \<in> (fst \<circ> snd) ` set (ids @ [(cid, e, blank)])" if "(e', k') \<in> set devs'" "is_conflict e'" for e' k'
      using that inv'(7) [of e' k'] new [of e' k'] by auto
    show "is_conflict k' \<or> (c, k') \<in> C'" if x: "(c, e', b) \<in> set (ids @ [(cid, e, blank)])" "(e', k') \<in> set devs'" for c e' b k'
    proof (cases "(c, e', b) \<in> set ids")
      case True
      then have "e' \<noteq> e" using e by force
      then have "(e', k') \<in> set devs" using new x(2) by blast
      then show ?thesis using inv'(8) [OF True] C by blast
    next
      case False
      then show ?thesis using x keys by auto
    qed
    show "\<exists>d \<in> D. has_serial d \<and> e' = conflict_device_id sha256 d \<and> c = observed_id d"
      if "(c, e', b) \<in> set (ids @ [(cid, e, blank)])" "is_conflict e'" for c e' b
      using that inv'(9) [of c e' b] conflict by auto
    show "\<exists>k. (c, k) \<in> fallback D \<and> (c, k) \<in> C'" if "(c, e', True) \<in> set (ids @ [(cid, e, blank)])" for c e'
      using that inv'(10) [of c e'] blank C by auto
    show "is_serial c" if "(c, e', False) \<in> set (ids @ [(cid, e, blank)])" for c e'
      using that inv'(11) [of c e'] blank by auto
  qed
qed

lemma identities_promote:
  assumes inv: "identities_inv sha256 D C devs ids" and old: "(old, e, True) \<in> set ids"
    and new: "new \<notin> fst ` set ids" "is_serial new"
    and C': "C' = (\<lambda>(c, k). (if c = old then new else c, k)) ` C"
  shows "identities_inv sha256 D C' devs (filter (\<lambda>x. fst x \<noteq> old) ids @ [(new, e, False)])"
proof -
  note inv' = identities_dest [OF inv]
  let ?ids = "filter (\<lambda>x. fst x \<noteq> old) ids @ [(new, e, False)]"
  have keep: "(c, k) \<in> C'" if "(c, k) \<in> C" "c \<noteq> old" for c k using that C' by force
  have moved: "(new, k) \<in> C'" if "(old, k) \<in> C" for k using that C' by force
  have uniq: "x = (old, e, True)" if "x \<in> set ids" "fst x = old \<or> fst (snd x) = e" for x
  proof -
    have "inj_on fst (set ids)" "inj_on (fst \<circ> snd) (set ids)" using inv'(4,5) by (simp_all add: distinct_map)
    then show ?thesis using that old by (metis comp_apply fst_conv inj_onD snd_conv)
  qed
  have not_conflict: "\<not> is_conflict e"
    using inv'(9) [OF old] inv'(10) [OF old] fallback_not_serial is_serial_observed by metis
  have canon: "(fst \<circ> snd) ` set ids \<subseteq> (fst \<circ> snd) ` set ?ids"
  proof
    fix y assume "y \<in> (fst \<circ> snd) ` set ids"
    then obtain x where x: "x \<in> set ids" "y = fst (snd x)" by auto
    show "y \<in> (fst \<circ> snd) ` set ?ids"
    proof (cases "fst x = old")
      case True
      then have "x = (old, e, True)" using uniq [OF x(1)] by blast
      then show ?thesis using x(2) by simp
    next
      case False
      then have "x \<in> set ?ids" using x by simp
      then show ?thesis using x(2) by (metis comp_apply imageI)
    qed
  qed
  show ?thesis
  proof (rule identities_intro)
    show "distinct (map fst devs)" "distinct (map snd devs)" by (fact inv')+
    show "k = e' \<or> is_conflict e' \<and> \<not> is_conflict k" if "(e', k) \<in> set devs" for e' k using inv'(3) that .
    show "distinct (map fst ?ids)" using distinct_map_filter [OF inv'(4)] new(1) by auto
    have "e \<notin> (fst \<circ> snd) ` set (filter (\<lambda>x. fst x \<noteq> old) ids)"
    proof
      assume "e \<in> (fst \<circ> snd) ` set (filter (\<lambda>x. fst x \<noteq> old) ids)"
      then obtain x where x: "x \<in> set ids" "fst x \<noteq> old" "fst (snd x) = e" by auto
      then show False using uniq [OF x(1)] by simp
    qed
    then show "distinct (map (fst \<circ> snd) ?ids)" using distinct_map_filter [OF inv'(5)] by simp
    have "e \<in> fst ` set devs" using inv'(6) old by force
    then show "(fst \<circ> snd) ` set ?ids \<subseteq> fst ` set devs" using inv'(6) by auto
    show "e' \<in> (fst \<circ> snd) ` set ?ids" if "(e', k) \<in> set devs" "is_conflict e'" for e' k
      using inv'(7) [OF that] canon by blast
    show "is_conflict k \<or> (c, k) \<in> C'" if "(c, e', b) \<in> set ?ids" "(e', k) \<in> set devs" for c e' b k
      using that inv'(8) [of c e' b k] inv'(8) [OF old, of k] keep [of c k] moved [of k] by auto
    show "\<exists>d \<in> D. has_serial d \<and> e' = conflict_device_id sha256 d \<and> c = observed_id d"
      if "(c, e', b) \<in> set ?ids" "is_conflict e'" for c e' b
      using that inv'(9) [of c e' b] not_conflict by auto
    show "\<exists>k. (c, k) \<in> fallback D \<and> (c, k) \<in> C'" if "(c, e', True) \<in> set ?ids" for c e'
      using that inv'(10) [of c e'] keep by auto
    show "is_serial c" if "(c, e', False) \<in> set ?ids" for c e'
      using that inv'(11) [of c e'] new(2) by auto
  qed
qed

text \<open>The last statement of a registration: a serial number that was read is stored.\<close>

lemma identities_touch:
  assumes inv: "identities_inv sha256 D C devs ids" and C: "C \<subseteq> C'" and serial: "s \<Longrightarrow> is_serial cid"
  shows "identities_inv sha256 D C' devs (map (\<lambda>(c, e, b). (c, e, b \<and> (c = cid \<longrightarrow> \<not> s))) ids)"
proof -
  note inv' = identities_dest [OF inv]
  let ?ids = "map (\<lambda>(c, e, b). (c, e, b \<and> (c = cid \<longrightarrow> \<not> s))) ids"
  have fsts: "map fst ?ids = map fst ids" "map (fst \<circ> snd) ?ids = map (fst \<circ> snd) ids" by (auto simp: case_prod_beta)
  then have canon: "(fst \<circ> snd) ` set ?ids = (fst \<circ> snd) ` set ids" by (metis list.set_map)
  show ?thesis
  proof (rule identities_intro, unfold fsts canon)
    have row: "\<exists>b'. (c, e, b') \<in> set ids" if "(c, e, b) \<in> set ?ids" for c e b using that by auto
    show "is_conflict k \<or> (c, k) \<in> C'" if "(c, e, b) \<in> set ?ids" "(e, k) \<in> set devs" for c e b k
      using row [OF that(1)] that(2) inv'(8) C by blast
    show "\<exists>d \<in> D. has_serial d \<and> e = conflict_device_id sha256 d \<and> c = observed_id d"
      if "(c, e, b) \<in> set ?ids" "is_conflict e" for c e b using row [OF that(1)] that(2) inv'(9) by blast
    show "\<exists>k. (c, k) \<in> fallback D \<and> (c, k) \<in> C'" if "(c, e, True) \<in> set ?ids" for c e
    proof -
      have "(c, e, True) \<in> set ids" using that by auto
      then show ?thesis using inv'(10) C by blast
    qed
    show "is_serial c" if row: "(c, e, False) \<in> set ?ids" for c e
    proof -
      obtain x where x: "(c, e, False) = (case x of (c, e, b) \<Rightarrow> (c, e, b \<and> (c = cid \<longrightarrow> \<not> s)))" "x \<in> set ids"
        using row unfolding set_map by (rule imageE)
      show ?thesis
      proof (cases "snd (snd x)")
        case True
        then have "c = cid \<and> s" using x(1) by (auto split: prod.splits)
        then show ?thesis using serial by simp
      next
        case False
        then have "x = (c, e, False)" using x(1) by (auto split: prod.splits)
        then show ?thesis using inv'(11) x(2) by simp
      qed
    qed
  qed (use inv' in \<open>blast+\<close>)
qed

end
