(* ===== verification/Registry_Steps.thy ===== *)
theory Registry_Steps
  imports Registry_Facts
begin

text \<open>
  What one operation of the inventory does to the identities (\<open>evolves\<close>), for each branch of a registration,
  and that the invariant holds after it.
\<close>

section \<open>Evolution of the identities\<close>

definition identity_ids :: "'a inventory_db_scheme \<Rightarrow> string set" where
  "identity_ids g = fst ` set (id_keys g)"

definition canonical_ids :: "'a inventory_db_scheme \<Rightarrow> string set" where
  "canonical_ids g = (fst \<circ> snd) ` set (id_keys g)"

definition owners :: "'a inventory_db_scheme \<Rightarrow> (string \<times> string) set" where
  "owners g = (\<lambda>(cid, e, blank). (cid, e)) ` set (id_keys g)"

definition endpoint_keys :: "'a inventory_db_scheme \<Rightarrow> string set" where
  "endpoint_keys g = snd ` connection_keys g"

definition device_ids :: "'a inventory_db_scheme \<Rightarrow> string set" where
  "device_ids g = fst ` set (dev_keys g)"

text \<open>The identifier stood for a connection, and no identity has it now.\<close>

definition retired :: "discovered_device set \<Rightarrow> 'a inventory_db_scheme \<Rightarrow> string \<Rightarrow> bool" where
  "retired D g cid \<longleftrightarrow> cid \<notin> identity_ids g \<and> (\<exists>k. (cid, k) \<in> fallback D \<and> k \<in> endpoint_keys g)"

definition evolves :: "discovered_device set \<Rightarrow> 'a inventory_db_scheme \<Rightarrow> 'a inventory_db_scheme \<Rightarrow> bool" where
  "evolves D g g' \<longleftrightarrow>
    (\<forall>cid e. (cid, e) \<in> owners g \<longrightarrow> (cid, e) \<in> owners g' \<or> retired D g' cid) \<and>
    (\<forall>cid. retired D g cid \<longrightarrow> retired D g' cid) \<and>
    canonical_ids g \<subseteq> canonical_ids g' \<and> device_ids g \<subseteq> device_ids g'"

lemma evolvesI:
  assumes "\<And>cid e. (cid, e) \<in> owners g \<Longrightarrow> (cid, e) \<in> owners g' \<or> retired D g' cid"
    and "\<And>cid. retired D g cid \<Longrightarrow> retired D g' cid"
    and "canonical_ids g \<subseteq> canonical_ids g'" and "device_ids g \<subseteq> device_ids g'"
  shows "evolves D g g'"
  using assms unfolding evolves_def by blast

lemma owners_ids: "identity_ids g = fst ` owners g" "canonical_ids g = snd ` owners g"
  by (force simp: identity_ids_def canonical_ids_def owners_def)+

lemma evolves_same:
  assumes "owners g' = owners g" and "endpoint_keys g \<subseteq> endpoint_keys g'" and "device_ids g \<subseteq> device_ids g'"
  shows "evolves D g g'"
proof -
  have "retired D g' cid" if "retired D g cid" for cid
    using that assms(1,2) unfolding retired_def owners_ids by blast
  then show ?thesis using assms unfolding evolves_def owners_ids by simp
qed

lemma evolves_trans:
  assumes "evolves D g g'" and "evolves D g' g''"
  shows "evolves D g g''"
proof -
  have "(cid, e) \<in> owners g'' \<or> retired D g'' cid" if "(cid, e) \<in> owners g" for cid e
  proof -
    have "(cid, e) \<in> owners g' \<or> retired D g' cid" using assms(1) that unfolding evolves_def by blast
    then show ?thesis using assms(2) unfolding evolves_def by blast
  qed
  moreover have "retired D g cid \<longrightarrow> retired D g'' cid" for cid using assms unfolding evolves_def by blast
  moreover have "canonical_ids g \<subseteq> canonical_ids g''" "device_ids g \<subseteq> device_ids g''"
    using assms unfolding evolves_def by blast+
  ultimately show ?thesis unfolding evolves_def by blast
qed

lemma in_identity_ids: "cid \<in> identity_ids g \<longleftrightarrow> cid \<in> id_controller_id ` set (rg_identities g)"
  by (simp add: identity_ids_def id_keys_def image_image)

lemma in_identity_ids_set: "identity_ids g = id_controller_id ` set (rg_identities g)"
  using in_identity_ids by blast

lemma in_device_ids: "e \<in> device_ids g \<longleftrightarrow> e \<in> dv_id ` set (rg_devices g)"
  by (simp add: device_ids_def dev_keys_def image_image)

lemma in_owners: "i \<in> set (rg_identities g) \<Longrightarrow> (id_controller_id i, id_canonical i) \<in> owners g"
  by (auto simp: owners_def id_keys_def image_image)

lemma in_id_keys: "i \<in> set (rg_identities g) \<Longrightarrow>
    (id_controller_id i, id_canonical i, str_strip (id_serial i) = []) \<in> set (id_keys g)"
  by (simp add: id_keys_def)

lemma in_dev_keys: "r \<in> set (rg_devices g) \<Longrightarrow> (dv_id r, dv_stable_key r) \<in> set (dev_keys g)"
  by (simp add: dev_keys_def)

lemma in_connection_keys: "c \<in> set (rg_connections g) \<Longrightarrow> cn_key c \<in> connection_keys g"
  by (simp add: connection_keys_def)

section \<open>Owners of connections\<close>

definition ownership_rows :: "string \<Rightarrow> 'a inventory_db_scheme \<Rightarrow> (connection_rec \<times> identity_rec) list" where
  "ownership_rows key g =
    concat (map (\<lambda>c. map (Pair c) (filter (\<lambda>i. id_controller_id i = cn_controller_id c) (rg_identities g)))
        (filter (\<lambda>c. cn_endpoint_key c = key) (rg_connections g)))"

lemma ownership_rows_set: "(c, i) \<in> set (ownership_rows key g) \<longleftrightarrow>
    c \<in> set (rg_connections g) \<and> cn_endpoint_key c = key \<and> i \<in> set (rg_identities g) \<and> id_controller_id i = cn_controller_id c"
  by (auto simp: ownership_rows_def)

lemma endpoint_owner_rows: "endpoint_owner key g = map_option snd (latest_row (\<lambda>(c, i). cn_last_seen c) (ownership_rows key g))"
  by (simp add: endpoint_owner_def ownership_rows_def)

lemma owner_facts:
  assumes "endpoint_owner key g = Some ow"
  shows "ow \<in> set (rg_identities g)" and "(id_controller_id ow, key) \<in> connection_keys g"
proof -
  obtain c where "latest_row (\<lambda>(c, i). cn_last_seen c) (ownership_rows key g) = Some (c, ow)"
    using assms unfolding endpoint_owner_rows by (metis (no_types, lifting) map_option_eq_Some prod.collapse)
  then have c: "c \<in> set (rg_connections g)" "cn_endpoint_key c = key" "ow \<in> set (rg_identities g)"
    "id_controller_id ow = cn_controller_id c"
    using latest_row_Some ownership_rows_set by metis+
  then show "ow \<in> set (rg_identities g)" "(id_controller_id ow, key) \<in> connection_keys g"
    using in_connection_keys [OF c(1)] by simp_all
qed

lemma owner_none:
  assumes ok: "tables_inv g" and none: "endpoint_owner key g = None"
  shows "key \<notin> endpoint_keys g"
proof
  assume "key \<in> endpoint_keys g"
  then obtain c where c: "c \<in> set (rg_connections g)" "cn_endpoint_key c = key"
    by (auto simp: endpoint_keys_def connection_keys_def)
  then obtain i where i: "i \<in> set (rg_identities g)" "id_controller_id i = cn_controller_id c"
    using ok unfolding tables_inv_def by (metis (no_types, lifting) image_iff subsetD)
  have "(c, i) \<in> set (ownership_rows key g)" using c i by (simp add: ownership_rows_set)
  then show False using none by (auto simp: endpoint_owner_rows latest_row_None)
qed

section \<open>Inserting\<close>

lemma tables_more_identities:
  assumes "tables_inv g" and "rg_members g' = rg_members g" and "rg_connections g' = rg_connections g"
    and "rg_locations g' = rg_locations g" and "rg_evidence g' = rg_evidence g"
    and "id_controller_id ` set (rg_identities g) \<subseteq> id_controller_id ` set (rg_identities g')" and "rg_identities g' \<noteq> []"
  shows "tables_inv g'"
proof -
  note ok = assms(1) [unfolded tables_inv_def]
  have "cn_controller_id ` set (rg_connections g) \<subseteq> id_controller_id ` set (rg_identities g')"
    by (rule order_trans [OF _ assms(6)]) (use ok in simp)
  moreover have "lc_controller_id ` set (rg_locations g) \<subseteq> id_controller_id ` set (rg_identities g')"
    by (rule order_trans [OF _ assms(6)]) (use ok in simp)
  moreover have "ce_controller_id ` set (rg_evidence g) \<subseteq> id_controller_id ` set (rg_identities g')"
    by (rule order_trans [OF _ assms(6)]) (use ok in simp)
  ultimately show ?thesis using ok assms(7) unfolding tables_inv_def assms(2-5) by simp
qed

text \<open>The row of a device that is not in the table yet.\<close>

lemma insert_canonical_keys:
  assumes inv: "identities_inv sha256 D C (dev_keys g) ids"
    and place: "e \<in> device_ids g \<or> e = device_key d \<and> device_key d \<notin> dv_stable_key ` set (rg_devices g) \<or> is_conflict e"
  shows "dev_keys (insert_canonical_device e d now g) = dev_keys g \<and> e \<in> device_ids g \<or>
    (\<exists>k. dev_keys (insert_canonical_device e d now g) = dev_keys g @ [(e, k)] \<and> e \<notin> device_ids g \<and> k \<notin> snd ` set (dev_keys g) \<and>
      (k = e \<or> is_conflict e \<and> \<not> is_conflict k) \<and> (is_conflict k \<or> k = device_key d))"
proof (cases "e \<in> device_ids g")
  case True
  then show ?thesis by (simp add: insert_canonical_device_def Let_def in_device_ids)
next
  case False
  have snd: "snd ` set (dev_keys g) = dv_stable_key ` set (rg_devices g)" by (simp add: dev_keys_def image_image)
  have unused: "e \<notin> dv_stable_key ` set (rg_devices g)" if "is_conflict e"
  proof
    assume "e \<in> dv_stable_key ` set (rg_devices g)"
    then obtain r where r: "r \<in> set (rg_devices g)" "dv_stable_key r = e" by auto
    then have "dv_id r = e" using identities_dest(3) [OF inv in_dev_keys [OF r(1)]] that by auto
    then show False using r(1) False in_device_ids by blast
  qed
  show ?thesis
  proof (cases "device_key d \<in> dv_stable_key ` set (rg_devices g)")
    case occupied: True
    then obtain r where r: "select_row dv_stable_key (device_key d) (rg_devices g) = Some r"
      by (metis select_row_None option.exhaust)
    then have "r \<in> set (rg_devices g)" by (rule select_row_Some)
    then have ne: "dv_id r \<noteq> e" using False in_device_ids by blast
    have c: "is_conflict e" using place False occupied by auto
    show ?thesis using False r ne unused [OF c] c unfolding snd in_device_ids
      by (simp add: insert_canonical_device_def Let_def dev_keys_def)
  next
    case free: False
    then have r: "select_row dv_stable_key (device_key d) (rg_devices g) = None" by (simp add: select_row_None)
    have c: "e = device_key d \<or> is_conflict e" using place False by auto
    show ?thesis using False r free c unfolding snd in_device_ids
      by (auto simp: insert_canonical_device_def Let_def dev_keys_def)
  qed
qed

text \<open>A new identity: its device has no identity yet, and its connection or its serial number is its own.\<close>

lemma insert_new:
  assumes ok: "inventory_ok sha256 D g"
    and cid: "observed_id d \<notin> identity_ids g" and e: "e \<notin> canonical_ids g"
    and place: "e \<in> device_ids g \<or> e = device_key d \<and> device_key d \<notin> dv_stable_key ` set (rg_devices g) \<or> is_conflict e"
    and own: "\<And>k. (e, k) \<in> set (dev_keys g) \<Longrightarrow> is_conflict k \<or> k = device_key d"
    and conflict: "is_conflict e \<Longrightarrow> has_serial d \<and> d \<in> D \<and> e = conflict_device_id sha256 d"
    and blank: "\<not> has_serial d \<Longrightarrow> (observed_id d, device_key d) \<in> fallback D"
  obtains g' where "insert_new_identity (observed_id d) e source idvalue d now g = Inr g'"
    and "identities_inv sha256 D (insert (observed_id d, device_key d) (connection_keys g')) (dev_keys g') (id_keys g')"
    and "tables_inv g'" and "connection_keys g' = connection_keys g"
    and "owners g' = insert (observed_id d, e) (owners g)" and "device_ids g \<subseteq> device_ids g'"
proof -
  let ?g1 = "insert_canonical_device e d now g" and ?C = "insert (observed_id d, device_key d) (connection_keys g)"
  let ?row = "\<lparr>id_controller_id = observed_id d, id_canonical = e, id_source = source, id_value = idvalue, id_profile = dd_profile d,
        id_family = device_family d, id_model = device_model d, id_serial = device_serial d, id_first_seen = now,
        id_last_seen = now\<rparr>"
  let ?g' = "?g1\<lparr>rg_identities := rg_identities g @ [?row]\<rparr>"
  have inv: "identities_inv sha256 D (connection_keys g) (dev_keys g) (id_keys g)" "tables_inv g"
    using ok by (simp_all add: inventory_ok_def)
  have same: "rg_identities ?g1 = rg_identities g" "rg_members ?g1 = rg_members g" "rg_connections ?g1 = rg_connections g"
    "rg_locations ?g1 = rg_locations g" "rg_evidence ?g1 = rg_evidence g"
    by (simp_all add: insert_canonical_device_def Let_def)
  have keys': "id_keys ?g' = id_keys g @ [(observed_id d, e, \<not> has_serial d)]" "dev_keys ?g' = dev_keys ?g1"
    "connection_keys ?g' = connection_keys g"
    by (simp_all add: id_keys_def dev_keys_def connection_keys_def same)
  have devs: "dev_keys ?g1 = dev_keys g \<and> e \<in> device_ids g \<or>
    (\<exists>k. dev_keys ?g1 = dev_keys g @ [(e, k)] \<and> e \<notin> device_ids g \<and> k \<notin> snd ` set (dev_keys g) \<and>
      (k = e \<or> is_conflict e \<and> \<not> is_conflict k) \<and> (is_conflict k \<or> k = device_key d))"
    by (rule insert_canonical_keys [OF inv(1) place])
  have result: "identities_inv sha256 D ?C (dev_keys ?g1) (id_keys g @ [(observed_id d, e, \<not> has_serial d)])"
    if devs': "dev_keys ?g1 = dev_keys g \<and> e \<in> fst ` set (dev_keys g) \<or>
        dev_keys ?g1 = dev_keys g @ [(e, k)] \<and> e \<notin> fst ` set (dev_keys g) \<and> k \<notin> snd ` set (dev_keys g) \<and>
        (k = e \<or> is_conflict e \<and> \<not> is_conflict k)" and k: "is_conflict k \<or> k = device_key d" for k
  proof (rule identities_insert [OF inv(1) _ _ _ devs'])
    show "observed_id d \<notin> fst ` set (id_keys g)" "e \<notin> (fst \<circ> snd) ` set (id_keys g)"
      using cid e by (simp_all add: identity_ids_def canonical_ids_def)
    show "is_conflict k' \<or> (observed_id d, k') \<in> ?C" if "(e, k') \<in> set (dev_keys ?g1)" for k'
    proof (cases "(e, k') \<in> set (dev_keys g)")
      case True
      then show ?thesis using own by blast
    next
      case False
      then have "k' = k" using that devs' by auto
      then show ?thesis using k by blast
    qed
    show "if \<not> has_serial d then \<exists>k. (observed_id d, k) \<in> fallback D \<and> (observed_id d, k) \<in> ?C
        else is_serial (observed_id d)"
      using blank by (auto simp: is_serial_observed)
  qed (use conflict in auto)
  have ids: "identities_inv sha256 D ?C (dev_keys ?g1) (id_keys g @ [(observed_id d, e, \<not> has_serial d)])"
  proof -
    consider (old) "dev_keys ?g1 = dev_keys g" "e \<in> device_ids g"
      | (new) k where "dev_keys ?g1 = dev_keys g @ [(e, k)]" "e \<notin> device_ids g" "k \<notin> snd ` set (dev_keys g)"
        "k = e \<or> is_conflict e \<and> \<not> is_conflict k" "is_conflict k \<or> k = device_key d"
      using devs by blast
    then show ?thesis
    proof cases
      case old
      then show ?thesis using result [of "device_key d"] by (simp add: device_ids_def)
    next
      case (new k)
      then show ?thesis using result [of k] by (simp add: device_ids_def)
    qed
  qed
  show ?thesis
  proof (rule that [of ?g'])
    have "observed_id d \<notin> id_controller_id ` set (rg_identities g)" using cid in_identity_ids by blast
    then show "insert_new_identity (observed_id d) e source idvalue d now g = Inr ?g'"
      by (simp add: insert_new_identity_def Let_def insert_row_def same)
    show "identities_inv sha256 D (insert (observed_id d, device_key d) (connection_keys ?g')) (dev_keys ?g') (id_keys ?g')"
      unfolding keys' by (rule ids)
    show "tables_inv ?g'" by (rule tables_more_identities [OF inv(2)]) (auto simp: same)
    show "connection_keys ?g' = connection_keys g" by (rule keys')
    show "owners ?g' = insert (observed_id d, e) (owners g)" unfolding owners_def keys' by simp
    show "device_ids g \<subseteq> device_ids ?g'" unfolding device_ids_def keys' using devs by auto
  qed
qed

lemma evolves_insert:
  assumes "owners g' = insert (cid, e) (owners g)" and "connection_keys g' = connection_keys g" and "device_ids g \<subseteq> device_ids g'"
    and "\<And>k. (cid, k) \<in> fallback D \<Longrightarrow> k \<notin> endpoint_keys g"
  shows "evolves D g g'"
proof -
  have "endpoint_keys g' = endpoint_keys g" "identity_ids g' = insert cid (identity_ids g)"
    "canonical_ids g \<subseteq> canonical_ids g'"
    unfolding endpoint_keys_def owners_ids assms(1,2) by auto
  then show ?thesis using assms(1,3,4) unfolding evolves_def retired_def by auto
qed

section \<open>Promoting\<close>

lemma checked_rename:
  assumes "distinct (map key t)" and "\<And>r. key (if p r then f r else r) = h (key r)" and "inj_on h (key ` set t)"
  shows "checked key (update_rows p f t) = Inr (update_rows p f t)"
    and "key ` set (update_rows p f t) = h ` key ` set t"
    and "distinct (map key (update_rows p f t))"
proof -
  have keys: "map key (update_rows p f t) = map h (map key t)" using assms(2) by (simp add: update_rows_def)
  then show "distinct (map key (update_rows p f t))" using assms(1,3) by (simp add: distinct_map comp_inj_on)
  then show "checked key (update_rows p f t) = Inr (update_rows p f t)" by (simp add: checked_def)
  show "key ` set (update_rows p f t) = h ` key ` set t" using keys by (metis list.set_map)
qed

definition rename :: "string \<Rightarrow> string \<Rightarrow> string \<times> 'k \<Rightarrow> string \<times> 'k" where
  "rename old new = (\<lambda>(c, k). (if c = old then new else c, k))"

lemma rename_inj: "new \<notin> fst ` A \<Longrightarrow> inj_on (rename old new) A"
  by (rule inj_onI) (force simp: rename_def image_iff split: if_splits)

lemma rename_fst: "fst ` rename old new ` A \<subseteq> insert new (fst ` A - {old})"
  by (auto simp: rename_def image_iff split: if_splits)

lemma rename_snd: "snd ` rename old new ` A = snd ` A"
  by (simp add: rename_def image_image case_prod_beta)

lemma identities_of_unique:
  assumes "distinct (map id_controller_id ids)" and "ow \<in> set ids" and "r \<in> set ids" "id_controller_id r = id_controller_id ow"
  shows "r = ow"
  using assms by (auto simp: distinct_map dest: inj_onD)

lemma promote_ok:
  assumes ok: "inventory_ok sha256 D g" and ow: "ow \<in> set (rg_identities g)" and blank: "str_strip (id_serial ow) = []"
    and new: "observed_id d \<notin> identity_ids g" and serial: "has_serial d"
  obtains g' where "promote_identity (id_controller_id ow) (observed_id d) (id_canonical ow) source idvalue d now g = Inr g'"
    and "inventory_ok sha256 D g'" and "(observed_id d, id_canonical ow) \<in> owners g'" and "evolves D g g'"
proof -
  let ?old = "id_controller_id ow" and ?new = "observed_id d" and ?e = "id_canonical ow"
  let ?h = "rename ?old ?new" and ?ids = "filter (\<lambda>x. fst x \<noteq> ?old) (id_keys g) @ [(?new, ?e, False)]"
  have inv: "identities_inv sha256 D (connection_keys g) (dev_keys g) (id_keys g)" "tables_inv g"
    using ok by (simp_all add: inventory_ok_def)
  note t = inv(2) [unfolded tables_inv_def]
  have unused: "?new \<notin> id_controller_id ` set (rg_identities g)" using new in_identity_ids by blast
  have old: "(?old, ?e, True) \<in> set (id_keys g)" using in_id_keys [OF ow] blank by simp
  have ne: "?new \<noteq> ?old" using unused ow by auto
  let ?ms = "update_rows (\<lambda>r. mb_controller_id r = ?old) (\<lambda>r. r\<lparr>mb_controller_id := ?new\<rparr>) (rg_members g)"
  let ?cs = "update_rows (\<lambda>r. cn_controller_id r = ?old) (\<lambda>r. r\<lparr>cn_controller_id := ?new\<rparr>) (rg_connections g)"
  let ?ls = "update_rows (\<lambda>r. lc_controller_id r = ?old) (\<lambda>r. r\<lparr>lc_controller_id := ?new\<rparr>) (rg_locations g)"
  let ?es = "update_rows (\<lambda>r. ce_controller_id r = ?old) (\<lambda>r. r\<lparr>ce_controller_id := ?new\<rparr>) (rg_evidence g)"
  have fresh: "?new \<notin> fst ` cn_key ` set (rg_connections g)" "?new \<notin> fst ` lc_key ` set (rg_locations g)"
    "?new \<notin> fst ` ce_key ` set (rg_evidence g)"
    unfolding controller_ids [symmetric] using t unused by blast+
  have ms: "checked mb_device_id ?ms = Inr ?ms" "distinct (map mb_device_id ?ms)"
    using checked_rename(1,3) [of mb_device_id "rg_members g" _ _ id] t by simp_all
  have cs: "checked cn_key ?cs = Inr ?cs" "cn_key ` set ?cs = ?h ` cn_key ` set (rg_connections g)" "distinct (map cn_key ?cs)"
    using checked_rename [of cn_key "rg_connections g" "\<lambda>r. cn_controller_id r = ?old" "\<lambda>r. r\<lparr>cn_controller_id := ?new\<rparr>" ?h,
        OF _ _ rename_inj [OF fresh(1)]] t
    by (simp_all add: rename_def)
  have ls: "checked lc_key ?ls = Inr ?ls" "lc_key ` set ?ls = ?h ` lc_key ` set (rg_locations g)" "distinct (map lc_key ?ls)"
    using checked_rename [of lc_key "rg_locations g" "\<lambda>r. lc_controller_id r = ?old" "\<lambda>r. r\<lparr>lc_controller_id := ?new\<rparr>" ?h,
        OF _ _ rename_inj [OF fresh(2)]] t
    by (simp_all add: rename_def)
  have es: "checked ce_key ?es = Inr ?es" "ce_key ` set ?es = ?h ` ce_key ` set (rg_evidence g)" "distinct (map ce_key ?es)"
    using checked_rename [of ce_key "rg_evidence g" "\<lambda>r. ce_controller_id r = ?old" "\<lambda>r. r\<lparr>ce_controller_id := ?new\<rparr>" ?h,
        OF _ _ rename_inj [OF fresh(3)]] t
    by (simp_all add: rename_def)
  let ?g' = "g\<lparr>rg_identities := filter (\<lambda>r. id_controller_id r \<noteq> ?old) (rg_identities g @
      [\<lparr>id_controller_id = ?new, id_canonical = ?e, id_source = source, id_value = idvalue, id_profile = dd_profile d,
        id_family = device_family d, id_model = device_model d, id_serial = device_serial d,
        id_first_seen = (case select_row id_controller_id ?old (rg_identities g) of None \<Rightarrow> now | Some r \<Rightarrow> id_first_seen r),
        id_last_seen = now\<rparr>]), rg_members := ?ms, rg_connections := ?cs, rg_locations := ?ls, rg_evidence := ?es\<rparr>"
  have keys': "id_keys ?g' = ?ids" "dev_keys ?g' = dev_keys g" "connection_keys ?g' = ?h ` connection_keys g"
    using ne serial cs(2) by (simp_all add: id_keys_def dev_keys_def connection_keys_def filter_map comp_def)
  have ids': "identity_ids ?g' = insert ?new (identity_ids g - {?old})"
    unfolding identity_ids_def keys' by (auto simp: image_iff)
  have snd_keys: "endpoint_keys ?g' = endpoint_keys g" unfolding endpoint_keys_def keys' by (rule rename_snd)
  have fst_keys: "fst ` ?h ` K \<subseteq> identity_ids ?g'" if "fst ` K \<subseteq> id_controller_id ` set (rg_identities g)" for K :: "(string \<times> 'k) set"
  proof -
    have "fst ` K - {?old} \<subseteq> identity_ids g - {?old}" using that unfolding in_identity_ids_set by (rule Diff_mono) simp
    then show ?thesis unfolding ids' by (rule order_trans [OF rename_fst insert_mono])
  qed
  have tables: "tables_inv ?g'"
  proof -
    have "id_controller_id ` set (rg_identities ?g') = identity_ids ?g'" by (rule in_identity_ids_set [symmetric])
    moreover have "cn_controller_id ` set ?cs \<subseteq> identity_ids ?g'" "lc_controller_id ` set ?ls \<subseteq> identity_ids ?g'"
      "ce_controller_id ` set ?es \<subseteq> identity_ids ?g'"
      unfolding controller_ids cs(2) ls(2) es(2) by (rule fst_keys, unfold controller_ids [symmetric], use t in simp)+
    ultimately show ?thesis unfolding tables_inv_def using ms(2) cs(3) ls(3) es(3) ne by simp
  qed
  show ?thesis
  proof (rule that [of ?g'])
    show "promote_identity ?old ?new ?e source idvalue d now g = Inr ?g'"
      using unused ms(1) cs(1) ls(1) es(1) by (simp add: promote_identity_def Let_def insert_row_def)
    have "identities_inv sha256 D (?h ` connection_keys g) (dev_keys g) ?ids"
      by (rule identities_promote [OF inv(1) old]) (use new serial in \<open>simp_all add: identity_ids_def is_serial_observed rename_def\<close>)
    then show "inventory_ok sha256 D ?g'" unfolding inventory_ok_def keys' using tables by blast
    show "(?new, ?e) \<in> owners ?g'" unfolding owners_def keys' by simp
    have owned: "(cid, e) \<in> owners ?g'" if "(cid, e) \<in> owners g" "cid \<noteq> ?old" for cid e
      using that unfolding owners_def keys' by force
    have gone: "retired D ?g' ?old"
    proof -
      obtain k where k: "(?old, k) \<in> fallback D" "(?old, k) \<in> connection_keys g" using identities_dest(10) [OF inv(1) old] by blast
      then have "k \<in> endpoint_keys g" unfolding endpoint_keys_def by force
      then show ?thesis using k(1) ne unfolding retired_def ids' snd_keys by auto
    qed
    have kept: "retired D ?g' cid" if "retired D g cid" for cid
    proof -
      have "cid \<noteq> ?new" using that serial fallback_not_serial is_serial_observed unfolding retired_def by blast
      then show ?thesis using that unfolding retired_def ids' snd_keys by blast
    qed
    have canon: "canonical_ids g \<subseteq> canonical_ids ?g'"
    proof
      fix e assume "e \<in> canonical_ids g"
      then obtain cid where x: "(cid, e) \<in> owners g" unfolding owners_ids by auto
      show "e \<in> canonical_ids ?g'"
      proof (cases "cid = ?old")
        case True
        then obtain b where b: "(?old, e, b) \<in> set (id_keys g)" using x by (auto simp: owners_def)
        have inj: "inj_on fst (set (id_keys g))" using identities_dest(4) [OF inv(1)] by (simp add: distinct_map)
        have "e = ?e" using inj_onD [OF inj _ b old] by simp
        then show ?thesis unfolding canonical_ids_def keys' by simp
      next
        case False
        then show ?thesis using owned x unfolding owners_ids by force
      qed
    qed
    show "evolves D g ?g'"
    proof (rule evolvesI)
      show "(cid, e) \<in> owners ?g' \<or> retired D ?g' cid" if "(cid, e) \<in> owners g" for cid e
        using owned [OF that] gone by (cases "cid = ?old") blast+
    qed (rule kept, assumption, rule canon, simp only: device_ids_def keys'(2))
  qed
qed

section \<open>Registering\<close>

text \<open>What the match of an observation leaves for the statements after it.\<close>

lemma match_ok:
  assumes ok: "inventory_ok sha256 D g" and D: "observable sha256 D" "d \<in> D"
  obtains g' m where "match_observation sha256 now d g = Inr (g', m)"
    and "identities_inv sha256 D (insert (mt_controller_id m, device_key d) (connection_keys g')) (dev_keys g') (id_keys g')"
    and "tables_inv g'" and "(mt_controller_id m, mt_device_id m) \<in> owners g'" and "has_serial d \<Longrightarrow> is_serial (mt_controller_id m)"
    and "\<And>g''. owners g'' = owners g' \<Longrightarrow> device_ids g'' = device_ids g' \<Longrightarrow>
      endpoint_keys g'' = insert (device_key d) (endpoint_keys g') \<Longrightarrow> evolves D g g''"
proof -
  let ?cid = "observed_id d" and ?key = "device_key d"
  have inv: "identities_inv sha256 D (connection_keys g) (dev_keys g) (id_keys g)" "tables_inv g"
    using ok by (simp_all add: inventory_ok_def)
  let ?source = "fst (snd (observed_identity d))" and ?idvalue = "snd (snd (observed_identity d))"
  have weaken: "identities_inv sha256 D (insert x (connection_keys g')) (dev_keys g') (id_keys g')"
    if "inventory_ok sha256 D g'" for x and g' :: "'a inventory_db_scheme"
    using that identities_mono unfolding inventory_ok_def by blast
  have same: "evolves D g g''" if "evolves D g g'" "owners g'' = owners g'" "device_ids g'' = device_ids g'"
    "endpoint_keys g'' = insert ?key (endpoint_keys g')" for g' g'' :: "'a inventory_db_scheme"
    by (rule evolves_trans [OF that(1)], rule evolves_same) (use that in auto)
  have refl: "evolves D g g" by (rule evolves_same) auto
  show ?thesis
  proof (cases "select_row id_controller_id ?cid (rg_identities g)")
    case (Some i)
    then have i: "i \<in> set (rg_identities g)" "id_controller_id i = ?cid" by (auto dest: select_row_Some)
    let ?m = "\<lparr>mt_controller_id = ?cid, mt_device_id = id_canonical i, mt_strategy = ?source,
         mt_confidence = (if ?source = ''controller_serial'' then Fin 1 else fl (80 / 100))\<rparr>"
    show ?thesis
    proof (rule that [of g ?m])
      show "match_observation sha256 now d g = Inr (g, ?m)" by (simp add: match_observation_def Let_def case_prod_beta Some)
      show "(mt_controller_id ?m, mt_device_id ?m) \<in> owners g" using in_owners [OF i(1)] i(2) by simp
      show "identities_inv sha256 D (insert (mt_controller_id ?m, ?key) (connection_keys g)) (dev_keys g) (id_keys g)"
        by (rule weaken [OF ok])
      show "is_serial (mt_controller_id ?m)" if "has_serial d" using that by (simp add: is_serial_observed)
    qed (rule inv(2), rule same [OF refl])
  next
    case None
    then have unused: "?cid \<notin> identity_ids g" by (simp add: select_row_None in_identity_ids)
    show ?thesis
    proof (cases "endpoint_owner ?key g")
      case (Some ow)
      note ow = owner_facts [OF Some]
      have owner_serial: "is_serial (id_controller_id ow)" if "str_strip (id_serial ow) \<noteq> []"
        using in_id_keys [OF ow(1)] that identities_dest(11) [OF inv(1)] by (metis (full_types))
      consider (conflict) "has_serial d" "str_strip (id_serial ow) \<noteq> []" "str_strip (device_serial d) \<noteq> str_strip (id_serial ow)"
        | (promotion) "has_serial d" "str_strip (id_serial ow) = []"
        | (known) "\<not> has_serial d \<or> str_strip (device_serial d) = str_strip (id_serial ow)"
        by blast
      then show ?thesis
      proof cases
        case conflict
        let ?e = "conflict_device_id sha256 d"
        let ?m = "\<lparr>mt_controller_id = ?cid, mt_device_id = ?e, mt_strategy = ''controller_serial_conflict'',
          mt_confidence = fl (95 / 100)\<rparr>"
        have free: "?e \<notin> canonical_ids g"
        proof
          assume "?e \<in> canonical_ids g"
          then obtain cid b where x: "(cid, ?e, b) \<in> set (id_keys g)" by (auto simp: canonical_ids_def)
          then obtain d' where "d' \<in> D" "?e = conflict_device_id sha256 d'" "cid = observed_id d'"
            using identities_dest(9) [OF inv(1) x] by auto
          then have "cid = ?cid" using D unfolding observable_def by metis
          then show False using x unused by (force simp: identity_ids_def)
        qed
        have absent: "?e \<notin> device_ids g"
        proof
          assume "?e \<in> device_ids g"
          then obtain k where "(?e, k) \<in> set (dev_keys g)" by (auto simp: device_ids_def)
          then show False using identities_dest(7) [OF inv(1)] free unfolding canonical_ids_def by simp
        qed
        obtain g' where g': "insert_new_identity ?cid ?e ?source ?idvalue d now g = Inr g'"
          "identities_inv sha256 D (insert (?cid, ?key) (connection_keys g')) (dev_keys g') (id_keys g')"
          "tables_inv g'" "connection_keys g' = connection_keys g" "owners g' = insert (?cid, ?e) (owners g)"
          "device_ids g \<subseteq> device_ids g'"
        proof (rule insert_new [OF ok unused free, where source = ?source and idvalue = ?idvalue and now = now])
          have "(?e, k) \<notin> set (dev_keys g)" for k using absent unfolding device_ids_def by force
          then show "\<And>k. (?e, k) \<in> set (dev_keys g) \<Longrightarrow> is_conflict k \<or> k = ?key" by blast
        qed (use conflict(1) D(2) in auto)
        show ?thesis
        proof (rule that [of g' ?m])
          show "match_observation sha256 now d g = Inr (g', ?m)"
            using conflict g'(1) by (simp add: match_observation_def Let_def case_prod_beta None Some)
          show "has_serial d \<Longrightarrow> is_serial (mt_controller_id ?m)" by (simp add: is_serial_observed)
          have "evolves D g g'"
            by (rule evolves_insert [OF g'(5,4,6)]) (use conflict(1) fallback_not_serial is_serial_observed in blast)
          then show "evolves D g g''" if "owners g'' = owners g'" "device_ids g'' = device_ids g'"
            "endpoint_keys g'' = insert ?key (endpoint_keys g')" for g'' :: "'a inventory_db_scheme"
            using same that by blast
        qed (use g' in simp_all)
      next
        case promotion
        let ?m = "\<lparr>mt_controller_id = ?cid, mt_device_id = id_canonical ow, mt_strategy = ''controller_serial_promotion'',
          mt_confidence = Fin 1\<rparr>"
        obtain g' where g': "promote_identity (id_controller_id ow) ?cid (id_canonical ow) ?source ?idvalue d now g = Inr g'"
          "inventory_ok sha256 D g'" "(?cid, id_canonical ow) \<in> owners g'" "evolves D g g'"
          by (rule promote_ok [OF ok ow(1) promotion(2) unused promotion(1)])
        show ?thesis
        proof (rule that [of g' ?m])
          show "match_observation sha256 now d g = Inr (g', ?m)"
            using promotion g'(1) by (simp add: match_observation_def Let_def case_prod_beta None Some)
          show "identities_inv sha256 D (insert (mt_controller_id ?m, ?key) (connection_keys g')) (dev_keys g') (id_keys g')"
            by (rule weaken [OF g'(2)])
          show "tables_inv g'" using g'(2) by (simp add: inventory_ok_def)
          show "(mt_controller_id ?m, mt_device_id ?m) \<in> owners g'" using g'(3) by simp
          show "has_serial d \<Longrightarrow> is_serial (mt_controller_id ?m)" by (simp add: is_serial_observed)
        qed (rule same [OF g'(4)])
      next
        case known
        let ?m = "\<lparr>mt_controller_id = id_controller_id ow, mt_device_id = id_canonical ow, mt_strategy = ''known_endpoint_owner'',
          mt_confidence = (if str_strip (id_serial ow) \<noteq> [] then fl (95 / 100) else fl (65 / 100))\<rparr>"
        show ?thesis
        proof (rule that [of g ?m])
          show "match_observation sha256 now d g = Inr (g, ?m)"
            using known by (auto simp: match_observation_def Let_def case_prod_beta None Some)
          show "identities_inv sha256 D (insert (mt_controller_id ?m, ?key) (connection_keys g)) (dev_keys g) (id_keys g)"
            by (rule weaken [OF ok])
          show "(mt_controller_id ?m, mt_device_id ?m) \<in> owners g" using in_owners [OF ow(1)] by simp
          show "has_serial d \<Longrightarrow> is_serial (mt_controller_id ?m)" using known owner_serial by auto
        qed (rule inv(2), rule same [OF refl])
      qed
    next
      case none: None
      let ?e = "case select_row dv_stable_key ?key (rg_devices g) of None \<Rightarrow> ?key | Some r \<Rightarrow> dv_id r"
      let ?m = "\<lparr>mt_controller_id = ?cid, mt_device_id = ?e, mt_strategy = ''new_controller'', mt_confidence = fl (40 / 100)\<rparr>"
      have key: "?key \<notin> endpoint_keys g" by (rule owner_none [OF inv(2) none])
      then have unowned: "(cid, ?key) \<notin> connection_keys g" for cid unfolding endpoint_keys_def by force
      have row: "(?e, ?key) \<in> set (dev_keys g) \<or> ?e = ?key \<and> ?key \<notin> dv_stable_key ` set (rg_devices g)"
      proof (cases "select_row dv_stable_key ?key (rg_devices g)")
        case absent: None
        then have "?key \<notin> dv_stable_key ` set (rg_devices g)" by (simp add: select_row_None)
        then show ?thesis using absent by simp
      next
        case (Some r)
        then have "r \<in> set (rg_devices g)" "dv_stable_key r = ?key" by (auto dest: select_row_Some)
        then show ?thesis using in_dev_keys [of r g] Some by simp
      qed
      have at_key: "k = ?key \<and> (?e, ?key) \<in> set (dev_keys g)" if "(?e, k) \<in> set (dev_keys g)" for k
        using row
      proof
        assume r: "(?e, ?key) \<in> set (dev_keys g)"
        have "inj_on fst (set (dev_keys g))" using identities_dest(1) [OF inv(1)] by (simp add: distinct_map)
        then show ?thesis using inj_onD [OF _ _ that r] r by force
      next
        assume r: "?e = ?key \<and> ?key \<notin> dv_stable_key ` set (rg_devices g)"
        then have "k = ?key" using identities_dest(3) [OF inv(1) that] by auto
        then have "?key \<in> snd ` set (dev_keys g)" using that by force
        then show ?thesis using r by (simp add: dev_keys_def image_image)
      qed
      have free: "?e \<notin> canonical_ids g"
      proof
        assume e: "?e \<in> canonical_ids g"
        then obtain cid b where x: "(cid, ?e, b) \<in> set (id_keys g)" by (auto simp: canonical_ids_def)
        have "?e \<in> fst ` set (dev_keys g)" using identities_dest(6) [OF inv(1)] e unfolding canonical_ids_def by blast
        then obtain k where "(?e, k) \<in> set (dev_keys g)" by auto
        then have "(?e, ?key) \<in> set (dev_keys g)" using at_key by blast
        from identities_dest(8) [OF inv(1) x this] show False using unowned [of cid] stable_key_not_conflict by blast
      qed
      have plain: "\<not> is_conflict ?e"
      proof
        assume c: "is_conflict ?e"
        then have "(?e, ?key) \<in> set (dev_keys g)" using row by auto
        then have "?e \<in> canonical_ids g" using identities_dest(7) [OF inv(1) _ c] unfolding canonical_ids_def by blast
        then show False using free by blast
      qed
      obtain g' where g': "insert_new_identity ?cid ?e ?source ?idvalue d now g = Inr g'"
          "identities_inv sha256 D (insert (?cid, ?key) (connection_keys g')) (dev_keys g') (id_keys g')"
          "tables_inv g'" "connection_keys g' = connection_keys g" "owners g' = insert (?cid, ?e) (owners g)"
          "device_ids g \<subseteq> device_ids g'"
      proof (rule insert_new [OF ok unused free, where source = ?source and idvalue = ?idvalue and now = now])
        show "?e \<in> device_ids g \<or> ?e = ?key \<and> ?key \<notin> dv_stable_key ` set (rg_devices g) \<or> is_conflict ?e"
          using row unfolding device_ids_def by force
        show "\<not> has_serial d \<Longrightarrow> (?cid, ?key) \<in> fallback D" using D(2) by (auto simp: fallback_def)
      qed (use at_key plain in blast)+
      show ?thesis
      proof (rule that [of g' ?m])
        show "match_observation sha256 now d g = Inr (g', ?m)"
          using g'(1) by (simp add: match_observation_def Let_def case_prod_beta None none)
        show "has_serial d \<Longrightarrow> is_serial (mt_controller_id ?m)" by (simp add: is_serial_observed)
        have new: "k \<notin> endpoint_keys g" if k: "(?cid, k) \<in> fallback D" for k
        proof -
          have "\<not> has_serial d" using k fallback_not_serial is_serial_observed by blast
          then have "(?cid, ?key) \<in> fallback D" using D(2) by (auto simp: fallback_def)
          then have "k = ?key" using fallback_unique [OF D(1) k] by blast
          then show ?thesis using key by simp
        qed
        have "evolves D g g'" by (rule evolves_insert [OF g'(5,4,6) new])
        then show "evolves D g g''" if "owners g'' = owners g'" "device_ids g'' = device_ids g'"
          "endpoint_keys g'' = insert ?key (endpoint_keys g')" for g'' :: "'a inventory_db_scheme"
          using same that by blast
      qed (use g' in simp_all)
    qed
  qed
qed

end
