(* ===== verification/Registry_Sync.thy ===== *)
theory Registry_Sync
  imports Registry_Steps
begin

text \<open>
  The steps of the inventory as one locale: each keeps the invariant, lets the identities evolve and does not touch
  the tables of identifiers; and the synchronisation, which brings those tables up to date and never raises.
\<close>

section \<open>The invariant after an operation of the inventory\<close>

lemma strip_empty: "str_strip s = [] \<longleftrightarrow> (\<forall>c \<in> set s. is_space c)"
proof -
  have "(\<forall>c \<in> set (dropWhile is_space s). is_space c) \<longleftrightarrow> (\<forall>c \<in> set s. is_space c)"
    by (induction s) auto
  then show ?thesis by (simp add: str_strip_def rstrip_by_def dropWhile_eq_Nil_conv)
qed

lemma strip_strip_empty: "str_strip (str_strip s) = [] \<longleftrightarrow> str_strip s = []"
proof
  assume "str_strip (str_strip s) = []"
  then have all: "\<forall>c \<in> set (str_strip s). is_space c" by (simp add: strip_empty)
  let ?r = "dropWhile is_space (rev (dropWhile is_space s))"
  show "str_strip s = []"
  proof (rule ccontr)
    assume "str_strip s \<noteq> []"
    then have r: "?r \<noteq> []" by (simp add: str_strip_def rstrip_by_def)
    have "\<not> is_space (hd ?r)" by (rule hd_dropWhile [OF r])
    moreover have "hd ?r \<in> set (str_strip s)" using hd_in_set [OF r] by (simp add: str_strip_def rstrip_by_def)
    ultimately show False using all by blast
  qed
next
  assume "str_strip s = []"
  moreover have "str_strip [] = []" by (simp add: str_strip_def rstrip_by_def)
  ultimately show "str_strip (str_strip s) = []" by simp
qed

lemma initialize_ok: "tables_inv g \<Longrightarrow> initialize_inventory w g = g"
  by (simp add: initialize_inventory_def bootstrap_legacy_rows_def device_rows_def order_desc_def group_rows_def tables_inv_def)

lemma record_id_keys: "id_keys (record_observation m d now g) =
    map (\<lambda>(c, e, b). (c, e, b \<and> (c = mt_controller_id m \<longrightarrow> \<not> has_serial d))) (id_keys g)"
  by (simp add: record_defs id_keys_def update_rows_def strip_strip_empty)

lemma record_owners: "owners (record_observation m d now g) = owners g"
  by (simp add: owners_def record_id_keys image_image case_prod_beta)

lemma register_ok:
  assumes ok: "inventory_ok (rw_sha256 w) D g" and D: "observable (rw_sha256 w) D" "d \<in> D"
  obtains g' cid e where "register_observation w d g = (g', Inr (cid, e))" and "inventory_ok (rw_sha256 w) D g'"
    and "evolves D g g'" and "(cid, e) \<in> owners g'"
proof -
  obtain g1 m where m: "match_observation (rw_sha256 w) (rw_now w) d g = Inr (g1, m)"
    "identities_inv (rw_sha256 w) D (insert (mt_controller_id m, device_key d) (connection_keys g1)) (dev_keys g1) (id_keys g1)"
    "tables_inv g1" "(mt_controller_id m, mt_device_id m) \<in> owners g1" "has_serial d \<Longrightarrow> is_serial (mt_controller_id m)"
    and ev: "\<And>g''. owners g'' = owners g1 \<Longrightarrow> device_ids g'' = device_ids g1 \<Longrightarrow>
      endpoint_keys g'' = insert (device_key d) (endpoint_keys g1) \<Longrightarrow> evolves D g g''"
    using match_ok [OF ok D, where now = "rw_now w"] by blast
  let ?g' = "record_observation m d (rw_now w) g1"
  have t: "tables_inv g" using ok by (simp add: inventory_ok_def)
  have cid: "mt_controller_id m \<in> id_controller_id ` set (rg_identities g1)"
    using m(4) unfolding in_identity_ids_set [symmetric] owners_ids by force
  show ?thesis
  proof (rule that [of ?g' "mt_controller_id m" "mt_device_id m"])
    show "register_observation w d g = (?g', Inr (mt_controller_id m, mt_device_id m))"
      by (simp add: register_observation_def Let_def initialize_ok [OF t] m(1))
    have "identities_inv (rw_sha256 w) D (connection_keys ?g') (dev_keys ?g') (id_keys ?g')"
      unfolding record_fields record_id_keys by (rule identities_touch [OF m(2) order_refl m(5)])
    then show "inventory_ok (rw_sha256 w) D ?g'" unfolding inventory_ok_def using tables_record [OF m(3) cid] by blast
    show "evolves D g ?g'"
      by (rule ev) (simp_all add: record_owners device_ids_def endpoint_keys_def record_fields)
    show "(mt_controller_id m, mt_device_id m) \<in> owners ?g'" using m(4) by (simp add: record_owners)
  qed
qed

text \<open>An operation that changes no key of a table.\<close>

lemma same_keys_ok:
  assumes ok: "inventory_ok sha256 D g"
    and same: "id_keys g' = id_keys g" "dev_keys g' = dev_keys g" "map cn_key (rg_connections g') = map cn_key (rg_connections g)"
    and tables: "rg_members g' = rg_members g" "rg_locations g' = rg_locations g" "rg_evidence g' = rg_evidence g"
  shows "inventory_ok sha256 D g'" and "evolves D g g'"
proof -
  have keys: "cn_key ` set (rg_connections g') = cn_key ` set (rg_connections g)" using same(3) by (metis list.set_map)
  then have C: "connection_keys g' = connection_keys g" by (simp add: connection_keys_def)
  have cids: "cn_controller_id ` set (rg_connections g') = cn_controller_id ` set (rg_connections g)"
    unfolding controller_ids keys ..
  have ids: "id_controller_id ` set (rg_identities g') = id_controller_id ` set (rg_identities g)"
    unfolding in_identity_ids_set [symmetric] identity_ids_def same(1) ..
  have empty: "rg_identities g' = [] \<longleftrightarrow> rg_identities g = []" "rg_devices g' = [] \<longleftrightarrow> rg_devices g = []"
    using same(1,2) by (auto simp: id_keys_def dev_keys_def)
  have "tables_inv g'" using ok unfolding inventory_ok_def tables_inv_def cids ids empty tables same(3) by blast
  then show "inventory_ok sha256 D g'" using ok unfolding inventory_ok_def same C by blast
  show "evolves D g g'"
    by (rule evolves_same) (simp_all add: owners_def endpoint_keys_def device_ids_def same C)
qed

lemma map_key_update: "map f (update_rows p u t) = map (\<lambda>r. if p r then f (u r) else f r) t"
  by (simp add: update_rows_def)

lemma activate_keys: "map cn_key (fold activate obs cs) = map cn_key cs"
  by (induction obs arbitrary: cs) (simp_all add: activate_def map_key_update)

lemma presence_ok:
  assumes ok: "inventory_ok sha256 D g"
  shows "inventory_ok sha256 D (reconcile_presence w obs g)" and "evolves D g (reconcile_presence w obs g)"
proof -
  have t: "tables_inv g" using ok by (simp add: inventory_ok_def)
  note p = same_keys_ok [OF ok, of "reconcile_presence w obs g"]
  show "inventory_ok sha256 D (reconcile_presence w obs g)" "evolves D g (reconcile_presence w obs g)"
    by (rule p; simp add: reconcile_presence_def initialize_ok [OF t] Let_def id_keys_def dev_keys_def activate_keys map_key_update)+
qed

lemma success_ok:
  assumes ok: "inventory_ok sha256 D g"
  shows "inventory_ok sha256 D (record_success now cid key g)" and "evolves D g (record_success now cid key g)"
proof -
  note p = same_keys_ok [OF ok, of "record_success now cid key g"]
  show "inventory_ok sha256 D (record_success now cid key g)" "evolves D g (record_success now cid key g)"
    by (rule p; simp add: record_success_def id_keys_def dev_keys_def map_key_update)+
qed

lemma offline_ok:
  assumes ok: "inventory_ok sha256 D g"
  shows "inventory_ok sha256 D (mark_all_offline g)" and "evolves D g (mark_all_offline g)"
    and "inventory_ok sha256 D (mark_device_offline e g)" and "evolves D g (mark_device_offline e g)"
proof -
  note p = same_keys_ok [OF ok, of "mark_all_offline g"] and q = same_keys_ok [OF ok, of "mark_device_offline e g"]
  show "inventory_ok sha256 D (mark_all_offline g)" "evolves D g (mark_all_offline g)"
    by (rule p; simp add: mark_all_offline_def id_keys_def dev_keys_def map_key_update)+
  show "inventory_ok sha256 D (mark_device_offline e g)" "evolves D g (mark_device_offline e g)"
    by (rule q; simp add: mark_device_offline_def id_keys_def dev_keys_def map_key_update)+
qed

section \<open>The tables of identifiers\<close>

definition phys_keys :: "registry_db \<Rightarrow> (string \<times> string) list" where
  "phys_keys g = map (\<lambda>p. (pc_uid p, pc_canonical p)) (rg_physical g)"

definition alias_keys :: "registry_db \<Rightarrow> (string \<times> string) list" where
  "alias_keys g = map (\<lambda>a. (al_controller_id a, al_uid a)) (rg_aliases g)"

definition uid_name :: "(nat \<Rightarrow> string) \<Rightarrow> nat \<Rightarrow> string" where
  "uid_name fresh n = ''ctrl_'' @ fresh n"

definition identifiers_inv ::
  "(nat \<Rightarrow> string) \<Rightarrow> nat \<Rightarrow> (string \<times> string) list \<Rightarrow> (string \<times> string) list \<Rightarrow> discovered_device set \<Rightarrow> registry_db \<Rightarrow> bool" where
  "identifiers_inv fresh n ps as D g \<longleftrightarrow>
    distinct (map fst ps) \<and> distinct (map snd ps) \<and> snd ` set ps \<subseteq> canonical_ids g \<and>
    distinct (map fst as) \<and>
    (\<forall>(cid, uid) \<in> set as. \<exists>e. (uid, e) \<in> set ps \<and> ((cid, e) \<in> owners g \<or> retired D g cid)) \<and>
    fst ` set ps \<subseteq> uid_name fresh ` {..<n}"

definition scope_ok :: "(nat \<Rightarrow> string) \<Rightarrow> discovered_device set \<Rightarrow> registry_db \<Rightarrow> bool" where
  "scope_ok fresh D g \<longleftrightarrow> identifiers_inv fresh (rg_drawn g) (phys_keys g) (alias_keys g) D g"

lemma identifiers_dest:
  assumes "identifiers_inv fresh n ps as D g"
  shows "distinct (map fst ps)" and "distinct (map snd ps)" and "snd ` set ps \<subseteq> canonical_ids g" and "distinct (map fst as)"
    and "\<And>cid uid. (cid, uid) \<in> set as \<Longrightarrow> \<exists>e. (uid, e) \<in> set ps \<and> ((cid, e) \<in> owners g \<or> retired D g cid)"
    and "fst ` set ps \<subseteq> uid_name fresh ` {..<n}"
proof -
  note inv = assms [unfolded identifiers_inv_def]
  show "distinct (map fst ps)" "distinct (map snd ps)" "snd ` set ps \<subseteq> canonical_ids g" "distinct (map fst as)"
    "fst ` set ps \<subseteq> uid_name fresh ` {..<n}"
    using inv by (simp_all only: simp_thms)
  show "\<exists>e. (uid, e) \<in> set ps \<and> ((cid, e) \<in> owners g \<or> retired D g cid)" if "(cid, uid) \<in> set as" for cid uid
    using inv that by fast
qed

lemma identifiers_intro:
  assumes "distinct (map fst ps)" and "distinct (map snd ps)" and "snd ` set ps \<subseteq> canonical_ids g" and "distinct (map fst as)"
    and "\<And>cid uid. (cid, uid) \<in> set as \<Longrightarrow> \<exists>e. (uid, e) \<in> set ps \<and> ((cid, e) \<in> owners g \<or> retired D g cid)"
    and "fst ` set ps \<subseteq> uid_name fresh ` {..<n}"
  shows "identifiers_inv fresh n ps as D g"
proof -
  have "\<forall>(cid, uid) \<in> set as. \<exists>e. (uid, e) \<in> set ps \<and> ((cid, e) \<in> owners g \<or> retired D g cid)" using assms(5) by fast
  then show ?thesis unfolding identifiers_inv_def by (intro conjI assms(1-4,6))
qed

lemma identifiers_evolve:
  assumes inv: "identifiers_inv fresh n ps as D g" and ev: "evolves D g g'"
  shows "identifiers_inv fresh n ps as D g'"
proof (rule identifiers_intro)
  note inv' = identifiers_dest [OF inv]
  show "distinct (map fst ps)" "distinct (map snd ps)" "distinct (map fst as)" "fst ` set ps \<subseteq> uid_name fresh ` {..<n}"
    by (fact inv')+
  have "canonical_ids g \<subseteq> canonical_ids g'" using ev by (simp add: evolves_def)
  then show "snd ` set ps \<subseteq> canonical_ids g'" using inv'(3) by (rule order_trans [rotated])
  show "\<exists>e. (uid, e) \<in> set ps \<and> ((cid, e) \<in> owners g' \<or> retired D g' cid)" if a: "(cid, uid) \<in> set as" for cid uid
  proof -
    obtain e where e: "(uid, e) \<in> set ps" "(cid, e) \<in> owners g \<or> retired D g cid" using inv'(5) [OF a] by blast
    have "(cid, e) \<in> owners g' \<or> retired D g' cid" using e(2) ev unfolding evolves_def by fast
    then show ?thesis using e(1) by blast
  qed
qed

lemma scope_evolves:
  assumes "scope_ok fresh D g" and "evolves D g g'" and "rg_physical g' = rg_physical g" "rg_aliases g' = rg_aliases g" "rg_drawn g' = rg_drawn g"
  shows "scope_ok fresh D g'"
  using identifiers_evolve [OF assms(1) [unfolded scope_ok_def] assms(2)] assms(3-5)
  by (simp add: scope_ok_def phys_keys_def alias_keys_def)

text \<open>The inventory is not touched by the synchronisation.\<close>

definition same_inventory :: "registry_db \<Rightarrow> registry_db \<Rightarrow> bool" where
  "same_inventory g g' \<longleftrightarrow> inventory_db.truncate g' = inventory_db.truncate g"

lemma same_inventory_fields:
  assumes "same_inventory g g'"
  shows "rg_devices g' = rg_devices g" "rg_intelligence g' = rg_intelligence g" "rg_identities g' = rg_identities g"
    "rg_members g' = rg_members g" "rg_connections g' = rg_connections g" "rg_locations g' = rg_locations g" "rg_evidence g' = rg_evidence g"
  using assms by (simp_all add: same_inventory_def inventory_db.truncate_def)

lemma same_inventory_keys:
  assumes "same_inventory g g'"
  shows "owners g' = owners g" "canonical_ids g' = canonical_ids g" "device_ids g' = device_ids g" "identity_ids g' = identity_ids g"
    "endpoint_keys g' = endpoint_keys g" "retired D g' = retired D g" "inventory_ok sha256 D g' = inventory_ok sha256 D g"
proof -
  note f = same_inventory_fields [OF assms]
  have k: "id_keys g' = id_keys g" "dev_keys g' = dev_keys g" "connection_keys g' = connection_keys g"
    by (simp_all add: id_keys_def dev_keys_def connection_keys_def f)
  show "owners g' = owners g" "canonical_ids g' = canonical_ids g" "device_ids g' = device_ids g"
    and i: "identity_ids g' = identity_ids g" and e: "endpoint_keys g' = endpoint_keys g"
    by (simp_all add: owners_def canonical_ids_def device_ids_def identity_ids_def endpoint_keys_def k)
  show "retired D g' = retired D g" by (rule ext) (simp add: retired_def i e)
  show "inventory_ok sha256 D g' = inventory_ok sha256 D g" by (simp add: inventory_ok_def tables_inv_def k f)
qed

lemma owners_unique:
  assumes "inventory_ok sha256 D g"
  shows "(cid, e) \<in> owners g \<Longrightarrow> (cid, e') \<in> owners g \<Longrightarrow> e = e'" and "(cid, e) \<in> owners g \<Longrightarrow> (cid', e) \<in> owners g \<Longrightarrow> cid = cid'"
proof -
  have inv: "identities_inv sha256 D (connection_keys g) (dev_keys g) (id_keys g)" using assms by (simp add: inventory_ok_def)
  have inj: "inj_on fst (set (id_keys g))" "inj_on (fst \<circ> snd) (set (id_keys g))"
    using identities_dest(4,5) [OF inv] by (simp_all add: distinct_map)
  have row: "\<exists>b. (c, x, b) \<in> set (id_keys g)" if "(c, x) \<in> owners g" for c x using that by (auto simp: owners_def)
  show "e = e'" if a: "(cid, e) \<in> owners g" "(cid, e') \<in> owners g"
  proof -
    obtain b b' where "(cid, e, b) \<in> set (id_keys g)" "(cid, e', b') \<in> set (id_keys g)" using row a by blast
    from inj_onD [OF inj(1) _ this] show ?thesis by simp
  qed
  show "cid = cid'" if a: "(cid, e) \<in> owners g" "(cid', e) \<in> owners g"
  proof -
    obtain b b' where "(cid, e, b) \<in> set (id_keys g)" "(cid', e, b') \<in> set (id_keys g)" using row a by blast
    from inj_onD [OF inj(2) _ this] show ?thesis by simp
  qed
qed

section \<open>Synchronising\<close>

text \<open>The identifier of an identity: one that stands for its device already, or a new one.\<close>

lemma uid_for_cases:
  assumes ok: "inventory_ok sha256 D g" and scope: "scope_ok fresh D g" and fresh: "inj fresh" and i: "i \<in> set (rg_identities g)"
  obtains (known) uid where "uid_for fresh i g = (uid, rg_drawn g)" and "(uid, id_canonical i) \<in> set (phys_keys g)"
      and "(id_controller_id i, uid) \<in> set (alias_keys g) \<or> id_controller_id i \<notin> fst ` set (alias_keys g)"
    | (new) "uid_for fresh i g = (uid_name fresh (rg_drawn g), Suc (rg_drawn g))" and "id_canonical i \<notin> snd ` set (phys_keys g)"
      and "uid_name fresh (rg_drawn g) \<notin> fst ` set (phys_keys g)" and "id_controller_id i \<notin> fst ` set (alias_keys g)"
proof -
  note inv = identifiers_dest [OF scope [unfolded scope_ok_def]]
  have owner: "(id_controller_id i, id_canonical i) \<in> owners g" by (rule in_owners [OF i])
  have alias_fst: "fst ` set (alias_keys g) = al_controller_id ` set (rg_aliases g)" by (simp add: alias_keys_def image_image)
  have phys_snd: "snd ` set (phys_keys g) = pc_canonical ` set (rg_physical g)" by (simp add: phys_keys_def image_image)
  show ?thesis
  proof (cases "select_row al_controller_id (id_controller_id i) (rg_aliases g)")
    case (Some a)
    then have a: "a \<in> set (rg_aliases g)" "al_controller_id a = id_controller_id i" by (auto dest: select_row_Some)
    then have pair: "(id_controller_id i, al_uid a) \<in> set (alias_keys g)" by (force simp: alias_keys_def)
    obtain e where e: "(al_uid a, e) \<in> set (phys_keys g)" "(id_controller_id i, e) \<in> owners g \<or> retired D g (id_controller_id i)"
      using inv(5) [OF pair] by blast
    have "id_controller_id i \<in> identity_ids g" using i unfolding in_identity_ids_set by blast
    then have "(id_controller_id i, e) \<in> owners g" using e(2) unfolding retired_def by blast
    then have "e = id_canonical i" using owners_unique(1) [OF ok] owner by blast
    then show ?thesis using known [of "al_uid a"] Some e(1) pair by (simp add: uid_for_def)
  next
    case None
    then have no_alias: "id_controller_id i \<notin> fst ` set (alias_keys g)" unfolding alias_fst by (rule iffD1 [OF select_row_None])
    show ?thesis
    proof (cases "select_row pc_canonical (id_canonical i) (rg_physical g)")
      case (Some p)
      then have p: "p \<in> set (rg_physical g)" "pc_canonical p = id_canonical i" by (auto dest: select_row_Some)
      then have "(pc_uid p, id_canonical i) \<in> set (phys_keys g)" by (force simp: phys_keys_def)
      then show ?thesis using known [of "pc_uid p"] None Some no_alias by (simp add: uid_for_def)
    next
      case no_phys: None
      have "id_canonical i \<notin> snd ` set (phys_keys g)" unfolding phys_snd by (rule iffD1 [OF select_row_None no_phys])
      moreover have "uid_name fresh (rg_drawn g) \<notin> fst ` set (phys_keys g)"
      proof
        assume "uid_name fresh (rg_drawn g) \<in> fst ` set (phys_keys g)"
        then obtain n where "n < rg_drawn g" "uid_name fresh (rg_drawn g) = uid_name fresh n" using inv(6) by auto
        then show False using injD [OF fresh] by (fastforce simp: uid_name_def)
      qed
      ultimately show ?thesis using new None no_phys no_alias by (simp add: uid_for_def uid_name_def)
    qed
  qed
qed

definition synced :: "registry_db \<Rightarrow> identity_rec \<Rightarrow> bool" where
  "synced g i \<longleftrightarrow> (\<exists>p \<in> set (rg_physical g). (id_controller_id i, pc_uid p) \<in> set (alias_keys g) \<and>
     pc_canonical p = id_canonical i \<and> pc_current p = id_controller_id i)"

lemma identifiers_same:
  assumes "same_inventory g g'"
  shows "identifiers_inv fresh n ps as D g' = identifiers_inv fresh n ps as D g"
  by (simp only: identifiers_inv_def same_inventory_keys [OF assms])

lemma identifiers_extend:
  assumes inv: "identifiers_inv fresh n ps as D g" and owner: "(cid, e) \<in> owners g"
    and ps: "ps' = ps \<and> (uid, e) \<in> set ps \<and> n' = n \<or>
      ps' = ps @ [(uid, e)] \<and> uid \<notin> fst ` set ps \<and> e \<notin> snd ` set ps \<and> uid = uid_name fresh n \<and> n' = Suc n"
    and as: "as' = (if cid \<in> fst ` set as then as else as @ [(cid, uid)])"
  shows "identifiers_inv fresh n' ps' as' D g"
proof (rule identifiers_intro)
  note inv' = identifiers_dest [OF inv]
  show "distinct (map fst ps')" "distinct (map snd ps')" using ps inv'(1,2) by auto
  have "e \<in> canonical_ids g" using owner unfolding owners_ids by force
  moreover have "snd ` set ps' \<subseteq> insert e (snd ` set ps)" using ps by auto
  ultimately show "snd ` set ps' \<subseteq> canonical_ids g" using inv'(3) by blast
  show "distinct (map fst as')" using as inv'(4) by auto
  have "ps' = ps \<and> n' = n \<or> fst ` set ps' = insert (uid_name fresh n) (fst ` set ps) \<and> n' = Suc n" using ps by auto
  then show "fst ` set ps' \<subseteq> uid_name fresh ` {..<n'}"
    using inv'(6) by (elim disjE conjE) (simp_all only: lessThan_Suc image_insert insert_mono)
  show "\<exists>e. (u, e) \<in> set ps' \<and> ((c, e) \<in> owners g \<or> retired D g c)" if a: "(c, u) \<in> set as'" for c u
  proof (cases "(c, u) \<in> set as")
    case True
    then show ?thesis using inv'(5) ps by fastforce
  next
    case False
    then have "c = cid \<and> u = uid" using a as by (auto split: if_splits)
    then show ?thesis using owner ps by auto
  qed
qed

lemma sync_identity_ok:
  assumes ok: "inventory_ok sha256 D g" and scope: "scope_ok fresh D g" and fresh: "inj fresh" and i: "i \<in> set (rg_identities g)"
  obtains g' where "sync_identity fresh now i g = Inr g'" and "same_inventory g g'" and "scope_ok fresh D g'"
    and "set (phys_keys g) \<subseteq> set (phys_keys g')" and "set (alias_keys g) \<subseteq> set (alias_keys g')" and "synced g' i"
    and "\<And>j. j \<in> set (rg_identities g) \<Longrightarrow> synced g j \<Longrightarrow> synced g' j"
proof -
  let ?cid = "id_controller_id i" and ?e = "id_canonical i"
  let ?first = "or_text (id_first_seen i) now"
  let ?last = "or_text (id_last_seen i) ?first"
  note inv = identifiers_dest [OF scope [unfolded scope_ok_def]]
  have owner: "(?cid, ?e) \<in> owners g" by (rule in_owners [OF i])
  have device: "?e \<in> dv_id ` set (rg_devices g)"
  proof -
    have "identities_inv sha256 D (connection_keys g) (dev_keys g) (id_keys g)" using ok by (simp add: inventory_ok_def)
    then have "canonical_ids g \<subseteq> device_ids g" unfolding canonical_ids_def device_ids_def by (rule identities_dest(6))
    moreover have "?e \<in> canonical_ids g" using owner unfolding owners_ids by force
    ultimately show ?thesis using in_device_ids by blast
  qed
  obtain uid drawn where uf: "uid_for fresh i g = (uid, drawn)" by fastforce
  let ?prow = "\<lparr>pc_uid = uid, pc_canonical = ?e, pc_current = ?cid, pc_first_seen = ?first, pc_last_seen = ?last\<rparr>"
  let ?arow = "\<lparr>al_controller_id = ?cid, al_uid = uid, al_source = id_source i, al_value = id_value i,
            al_first_seen = ?first, al_last_seen = ?last, al_active = True\<rparr>"
  let ?ps = "upsert pc_uid merge_physical ?prow (rg_physical g)"
  let ?off = "update_rows (\<lambda>a. al_uid a = uid) (\<lambda>a. a\<lparr>al_active := False\<rparr>) (rg_aliases g)"
  let ?as = "upsert al_controller_id merge_alias ?arow ?off"
  let ?g' = "g\<lparr>rg_physical := ?ps, rg_drawn := drawn, rg_aliases := ?as\<rparr>"
  have P: "phys_keys ?g' = map (\<lambda>p. (pc_uid p, pc_canonical p)) ?ps" by (simp add: phys_keys_def)
  have A: "alias_keys ?g' = map (\<lambda>a. (al_controller_id a, al_uid a)) ?as" by (simp add: alias_keys_def)
  have off: "map (\<lambda>a. (al_controller_id a, al_uid a)) ?off = alias_keys g" by (simp add: alias_keys_def map_key_update)
  have off_ids: "map al_controller_id ?off = map fst (alias_keys g)" by (simp add: alias_keys_def map_key_update)
  have p_ids: "map pc_uid (rg_physical g) = map fst (phys_keys g)" by (simp add: phys_keys_def)
  have pcases: "phys_keys ?g' = phys_keys g \<and> (uid, ?e) \<in> set (phys_keys g) \<and> drawn = rg_drawn g \<or>
      phys_keys ?g' = phys_keys g @ [(uid, ?e)] \<and> uid \<notin> fst ` set (phys_keys g) \<and> ?e \<notin> snd ` set (phys_keys g) \<and>
        uid = uid_name fresh (rg_drawn g) \<and> drawn = Suc (rg_drawn g)"
    and acases: "(?cid, uid) \<in> set (alias_keys g) \<or> ?cid \<notin> fst ` set (alias_keys g)"
  proof -
    have row: "(pc_uid ?prow, pc_canonical ?prow) = (uid, ?e)" by simp
    show "(?cid, uid) \<in> set (alias_keys g) \<or> ?cid \<notin> fst ` set (alias_keys g)"
      by (rule uid_for_cases [OF ok scope fresh i]) (use uf in auto)
    show "phys_keys ?g' = phys_keys g \<and> (uid, ?e) \<in> set (phys_keys g) \<and> drawn = rg_drawn g \<or>
      phys_keys ?g' = phys_keys g @ [(uid, ?e)] \<and> uid \<notin> fst ` set (phys_keys g) \<and> ?e \<notin> snd ` set (phys_keys g) \<and>
        uid = uid_name fresh (rg_drawn g) \<and> drawn = Suc (rg_drawn g)"
    proof (rule uid_for_cases [OF ok scope fresh i])
      fix u assume known: "uid_for fresh i g = (u, rg_drawn g)" "(u, ?e) \<in> set (phys_keys g)"
      then have u: "u = uid" "drawn = rg_drawn g" using uf by auto
      have "phys_keys ?g' = phys_keys g"
        unfolding P unfolding phys_keys_def
        by (rule physical.pairs_same) (use inv(1) known(2) u in \<open>simp_all add: merge_physical_def p_ids phys_keys_def\<close>)
      then show ?thesis using known(2) u by simp
    next
      assume new: "uid_for fresh i g = (uid_name fresh (rg_drawn g), Suc (rg_drawn g))" "?e \<notin> snd ` set (phys_keys g)"
        "uid_name fresh (rg_drawn g) \<notin> fst ` set (phys_keys g)"
      then have u: "uid = uid_name fresh (rg_drawn g)" "drawn = Suc (rg_drawn g)" using uf by auto
      have "uid \<notin> pc_uid ` set (rg_physical g)" using new(3) u by (simp add: phys_keys_def image_image)
      then have "phys_keys ?g' = phys_keys g @ [(uid, ?e)]"
        unfolding P using physical.pairs_new [of ?prow "rg_physical g" pc_canonical] by (simp add: phys_keys_def)
      then show ?thesis using new u by simp
    qed
  qed
  have A': "alias_keys ?g' = (if ?cid \<in> fst ` set (alias_keys g) then alias_keys g else alias_keys g @ [(?cid, uid)])"
  proof (cases "?cid \<in> fst ` set (alias_keys g)")
    case True
    then have pair: "(?cid, uid) \<in> set (alias_keys g)" using acases by blast
    have "alias_keys ?g' = map (\<lambda>a. (al_controller_id a, al_uid a)) ?off"
      unfolding A by (rule aliases.pairs_same) (use pair inv(4) in \<open>simp_all add: merge_alias_def off off_ids\<close>)
    then show ?thesis using True off by simp
  next
    case False
    have "al_controller_id ` set ?off = fst ` set (alias_keys g)" using arg_cong [OF off_ids, of set] by simp
    then have "?cid \<notin> al_controller_id ` set ?off" using False by simp
    then show ?thesis unfolding A using aliases.pairs_new [of ?arow ?off al_uid] off False by simp
  qed
  have mono: "set (phys_keys g) \<subseteq> set (phys_keys ?g')" "set (alias_keys g) \<subseteq> set (alias_keys ?g')" using pcases A' by auto
  have own: "(uid, ?e) \<in> set (phys_keys ?g')" "(?cid, uid) \<in> set (alias_keys ?g')" using pcases A' acases by auto
  have same: "same_inventory g ?g'" by (simp add: same_inventory_def inventory_db.truncate_def)
  note keys = same_inventory_keys [OF same]
  have dist: "distinct (map fst (phys_keys ?g'))" "distinct (map snd (phys_keys ?g'))" using pcases inv(1,2) by auto
  show ?thesis
  proof (rule that [of ?g'])
    have "distinct (map pc_canonical ?ps)" using dist(2) by (simp add: P comp_def)
    then show "sync_identity fresh now i g = Inr ?g'"
      using device by (simp add: sync_identity_def uf Let_def checked_def)
    show "same_inventory g ?g'" by (rule same)
    show "set (phys_keys g) \<subseteq> set (phys_keys ?g')" "set (alias_keys g) \<subseteq> set (alias_keys ?g')" by (fact mono)+
    show "scope_ok fresh D ?g'"
    proof -
      have "identifiers_inv fresh drawn (phys_keys ?g') (alias_keys ?g') D g"
        by (rule identifiers_extend [OF scope [unfolded scope_ok_def] owner pcases A'])
      moreover have "rg_drawn ?g' = drawn" by simp
      ultimately show ?thesis unfolding scope_ok_def identifiers_same [OF same] by simp
    qed
    have current: "p \<in> set ?ps \<Longrightarrow> pc_uid p = uid \<Longrightarrow> pc_current p = ?cid" for p
      using physical.offered [of pc_current p ?prow "rg_physical g"] by (simp add: merge_physical_def)
    show "synced ?g' i"
    proof -
      obtain p where p: "p \<in> set ?ps" "pc_uid p = uid" "pc_canonical p = ?e" using own(1) by (auto simp: P)
      then show ?thesis unfolding synced_def using current own(2) by auto
    qed
    show "synced ?g' j" if j: "j \<in> set (rg_identities g)" "synced g j" for j
    proof (cases "id_canonical j = ?e")
      case True
      then have "id_controller_id j = ?cid" using owners_unique(2) [OF ok in_owners [OF j(1)]] owner by simp
      then show ?thesis using \<open>synced ?g' i\<close> True by (simp add: synced_def)
    next
      case False
      obtain p where p: "p \<in> set (rg_physical g)" "(id_controller_id j, pc_uid p) \<in> set (alias_keys g)"
        "pc_canonical p = id_canonical j" "pc_current p = id_controller_id j"
        using j(2) unfolding synced_def by blast
      have "(pc_uid p, id_canonical j) \<in> set (phys_keys ?g')" using p(1,3) mono(1) by (force simp: phys_keys_def)
      then have "pc_uid p \<noteq> uid"
        using eq_key_imp_eq_value [OF dist(1), of uid "id_canonical j" ?e] own(1) False by blast
      then have "p \<in> set ?ps" using physical.kept [OF p(1), of ?prow] by simp
      then show ?thesis unfolding synced_def using p mono(2) by auto
    qed
  qed
qed

end
