(* ===== verification/Registry_Serials.thy ===== *)
theory Registry_Serials
  imports Registry_Sync
begin

text \<open>
  Serial numbers in the inventory.  An identity that has a serial number is named after it, so it never stands for
  controllers of two serial numbers; \<open>serials_ok\<close> is that invariant, for devices whose profile name has no
  colon, and a registration keeps it.
\<close>

section \<open>Text\<close>

lemma dropWhile_hd: "(xs = [] \<or> \<not> p (hd xs)) \<Longrightarrow> dropWhile p xs = xs"
  by (cases xs) auto

lemma strip_idem: "str_strip (str_strip s) = str_strip s"
proof -
  obtain a where a: "a = dropWhile is_space s" by blast
  obtain b where b: "b = dropWhile is_space (rev a)" by blast
  have s: "str_strip s = rev b" by (simp add: str_strip_def rstrip_by_def a b)
  have hb: "b = [] \<or> \<not> is_space (hd b)" unfolding b using hd_dropWhile by blast
  have ha: "a = [] \<or> \<not> is_space (hd a)" unfolding a using hd_dropWhile by blast
  have "rev b = [] \<or> \<not> is_space (hd (rev b))"
  proof (cases "b = []")
    case False
    obtain pre where "rev a = pre @ b" using b by (metis takeWhile_dropWhile_id)
    then have "a = rev b @ rev pre" by (metis rev_append rev_rev_ident)
    then have "hd a = hd (rev b)" "a \<noteq> []" using False by simp_all
    then show ?thesis using ha by simp
  qed simp
  then have "dropWhile is_space (rev b) = rev b" by (rule dropWhile_hd)
  moreover have "dropWhile is_space b = b" using hb by (rule dropWhile_hd)
  ultimately have "str_strip (rev b) = rev b" unfolding str_strip_def rstrip_by_def by simp
  then show ?thesis by (simp only: s)
qed

section \<open>Names made of serial numbers\<close>

definition names_serial :: "string \<Rightarrow> string \<Rightarrow> bool" where
  "names_serial cid s \<longleftrightarrow> (\<exists>p. CHR '':'' \<notin> set p \<and> cid = ''morningstar:'' @ p @ '':'' @ str_lower s)"

lemma names_serial_unique:
  assumes "names_serial cid s" and "names_serial cid s'"
  shows "str_lower s = str_lower s'"
proof -
  obtain p q where pq: "CHR '':'' \<notin> set p" "CHR '':'' \<notin> set q" "cid = ''morningstar:'' @ p @ '':'' @ str_lower s"
    "cid = ''morningstar:'' @ q @ '':'' @ str_lower s'"
    using assms unfolding names_serial_def by blast
  then have e: "p @ CHR '':'' # str_lower s = q @ CHR '':'' # str_lower s'" by simp
  have d: "dropWhile (\<lambda>c. c \<noteq> CHR '':'') (r @ CHR '':'' # t) = CHR '':'' # t" if "CHR '':'' \<notin> set r" for r t
    using that by (induction r) auto
  show ?thesis
    using arg_cong [OF e, of "dropWhile (\<lambda>c. c \<noteq> CHR '':'')"] d [OF pq(1)] d [OF pq(2)] by simp
qed

lemma names_serial_is_serial: "names_serial cid s \<Longrightarrow> is_serial cid"
  by (auto simp: names_serial_def is_serial_def)

definition plain_profile :: "discovered_device \<Rightarrow> bool" where
  "plain_profile d \<longleftrightarrow> CHR '':'' \<notin> set (str_lower (str_strip (dd_profile d)))"

abbreviation serial_of :: "discovered_device \<Rightarrow> string" where
  "serial_of d \<equiv> str_strip (device_serial d)"

lemma observed_names: "has_serial d \<Longrightarrow> plain_profile d \<Longrightarrow> names_serial (observed_id d) (serial_of d)"
  by (auto simp: names_serial_def plain_profile_def observed_identity_def controller_identity_def Let_def)

section \<open>The invariant\<close>

definition serials_ok :: "discovered_device set \<Rightarrow> 'a inventory_db_scheme \<Rightarrow> bool" where
  "serials_ok D g \<longleftrightarrow> (\<forall>d \<in> D. plain_profile d) \<longrightarrow>
    (\<forall>i \<in> set (rg_identities g). str_strip (id_serial i) \<noteq> [] \<longrightarrow>
      names_serial (id_controller_id i) (str_strip (id_serial i)))"

definition named_after :: "discovered_device set \<Rightarrow> discovered_device \<Rightarrow> string \<Rightarrow> bool" where
  "named_after D d cid \<longleftrightarrow> (\<forall>d \<in> D. plain_profile d) \<longrightarrow> has_serial d \<longrightarrow> names_serial cid (serial_of d)"

lemma observed_named_after: "d \<in> D \<Longrightarrow> named_after D d (observed_id d)"
  using observed_names by (auto simp: named_after_def)

lemma serials_identities: "rg_identities g' = rg_identities g \<Longrightarrow> serials_ok D g' = serials_ok D g"
  by (simp add: serials_ok_def)

lemma serials_more:
  assumes "serials_ok D g" "d \<in> D" "set (rg_identities g') \<subseteq> insert i (set (rg_identities g))"
    and "id_controller_id i = observed_id d" "id_serial i = device_serial d"
  shows "serials_ok D g'"
  using assms observed_names [of d] unfolding serials_ok_def by auto

lemma insert_new_serials:
  assumes "insert_new_identity (observed_id d) e source idvalue d now g = Inr g'" "serials_ok D g" "d \<in> D"
  shows "serials_ok D g'"
proof -
  have "rg_identities (insert_canonical_device e d now g) = rg_identities g"
    by (simp add: insert_canonical_device_def Let_def)
  then obtain i where "rg_identities g' = rg_identities g @ [i]" "id_controller_id i = observed_id d" "id_serial i = device_serial d"
    using assms(1) by (auto simp: insert_new_identity_def Let_def sbind_eq_Inr insert_row_Inr)
  then show ?thesis by (intro serials_more [OF assms(2,3)]) auto
qed

lemma promote_serials:
  assumes "promote_identity old (observed_id d) e source idvalue d now g = Inr g'" "serials_ok D g" "d \<in> D"
  shows "serials_ok D g'"
proof -
  obtain i where "rg_identities g' = filter (\<lambda>r. id_controller_id r \<noteq> old) (rg_identities g @ [i])"
    "id_controller_id i = observed_id d" "id_serial i = device_serial d"
    using assms(1) by (auto simp: promote_identity_def Let_def sbind_eq_Inr insert_row_Inr)
  then show ?thesis by (intro serials_more [OF assms(2,3)]) auto
qed

lemma match_serials:
  assumes m: "match_observation sha256 now d g = Inr (g', m)" and s: "serials_ok D g" and d: "d \<in> D"
  shows "serials_ok D g' \<and> named_after D d (mt_controller_id m)"
proof (cases "select_row id_controller_id (observed_id d) (rg_identities g)")
  case (Some i)
  then have "g' = g" "mt_controller_id m = observed_id d"
    using m by (auto simp: match_observation_def Let_def case_prod_beta)
  then show ?thesis using s observed_named_after [OF d] by simp
next
  case none: None
  show ?thesis
  proof (cases "endpoint_owner (device_key d) g")
    case None
    then show ?thesis
      using m none insert_new_serials [OF _ s d] observed_named_after [OF d]
      by (auto simp: match_observation_def Let_def case_prod_beta sbind_eq_Inr)
  next
    case (Some ow)
    let ?owner = "str_strip (id_serial ow)"
    consider (conflict) "serial_of d \<noteq> [] \<and> ?owner \<noteq> [] \<and> serial_of d \<noteq> ?owner"
      | (promote) "serial_of d \<noteq> []" "?owner = []" | (known) "serial_of d = [] \<or> ?owner \<noteq> [] \<and> serial_of d = ?owner"
      by blast
    then show ?thesis
    proof cases
      case conflict
      then show ?thesis
        using m none Some insert_new_serials [OF _ s d] observed_named_after [OF d]
        by (auto simp: match_observation_def Let_def case_prod_beta sbind_eq_Inr)
    next
      case promote
      then show ?thesis
        using m none Some promote_serials [OF _ s d] observed_named_after [OF d]
        by (auto simp: match_observation_def Let_def case_prod_beta sbind_eq_Inr)
    next
      case known
      then have "g' = g" "mt_controller_id m = id_controller_id ow"
        using m none Some by (auto simp: match_observation_def Let_def case_prod_beta)
      then show ?thesis using s known owner_facts(1) [OF Some] by (auto simp: serials_ok_def named_after_def)
    qed
  qed
qed

lemma record_serials:
  assumes "serials_ok D g" "named_after D d (mt_controller_id m)"
  shows "serials_ok D (record_observation m d now g)"
  unfolding serials_ok_def
proof (intro impI ballI)
  fix i assume plain: "\<forall>d \<in> D. plain_profile d" and i: "i \<in> set (rg_identities (record_observation m d now g))"
    "str_strip (id_serial i) \<noteq> []"
  then obtain j where j: "j \<in> set (rg_identities g)" "id_controller_id i = id_controller_id j"
    "id_serial i = (if id_controller_id j = mt_controller_id m \<and> serial_of d \<noteq> [] then serial_of d else id_serial j)"
    by (auto simp: record_defs update_rows_def)
  show "names_serial (id_controller_id i) (str_strip (id_serial i))"
  proof (cases "id_controller_id j = mt_controller_id m \<and> serial_of d \<noteq> []")
    case True
    then show ?thesis using assms(2) plain j(2,3) by (simp add: named_after_def strip_idem)
  next
    case False
    then show ?thesis using assms(1) plain i(2) j unfolding serials_ok_def by (metis (full_types))
  qed
qed

lemma register_serials:
  assumes "register_observation w d g = (g', Inr (cid, e))" "tables_inv g" "serials_ok D g" "d \<in> D"
  shows "serials_ok D g' \<and> named_after D d cid"
proof -
  obtain g1 m where m: "match_observation (rw_sha256 w) (rw_now w) d g = Inr (g1, m)"
    "g' = record_observation m d (rw_now w) g1" "cid = mt_controller_id m"
    using assms(1) by (auto simp: register_observation_def Let_def initialize_ok [OF assms(2)] split: sum.splits)
  then show ?thesis using match_serials [OF m(1) assms(3,4)] record_serials by auto
qed

section \<open>Steps that leave the identities\<close>

text \<open>What the synchronisation and the names depend on.\<close>

definition identity_rows :: "'a inventory_db_scheme \<Rightarrow> (string \<times> string \<times> string) list" where
  "identity_rows g = map (\<lambda>i. (id_controller_id i, id_canonical i, id_serial i)) (rg_identities g)"

definition settled :: "discovered_device set \<Rightarrow> registry_db \<Rightarrow> bool" where
  "settled D g \<longleftrightarrow> serials_ok D g \<and> (\<forall>i \<in> set (rg_identities g). synced g i)"

lemma settled_rows:
  "settled D g \<longleftrightarrow> (\<forall>(cid, e, s) \<in> set (identity_rows g).
     ((\<forall>d \<in> D. plain_profile d) \<longrightarrow> str_strip s \<noteq> [] \<longrightarrow> names_serial cid (str_strip s)) \<and>
     (\<exists>p \<in> set (rg_physical g). (cid, pc_uid p) \<in> set (alias_keys g) \<and> pc_canonical p = e \<and> pc_current p = cid))"
  by (auto simp: settled_def serials_ok_def synced_def identity_rows_def)

lemma settled_same:
  assumes "settled D g" "identity_rows g' = identity_rows g" "rg_physical g' = rg_physical g" "rg_aliases g' = rg_aliases g"
  shows "settled D g'"
  using assms unfolding settled_rows alias_keys_def by simp

lemma identity_rows_steps:
  "tables_inv g \<Longrightarrow> identity_rows (reconcile_presence w obs g) = identity_rows g"
  "identity_rows (record_success now cid key g) = identity_rows g"
  "identity_rows (mark_all_offline g) = identity_rows g"
  "identity_rows (mark_device_offline e g) = identity_rows g"
  by (simp_all add: identity_rows_def reconcile_presence_def initialize_ok Let_def record_success_def update_rows_def
      mark_all_offline_def mark_device_offline_def)

end
