(* ===== verification/Registry_Properties.thy ===== *)
theory Registry_Properties
  imports Registry_Serials
begin

text \<open>
  The registry as a whole: every call succeeds, identifiers are immutable and one to one.  \<open>triple\<close> is the contract of a
  call: from a state with the invariant and \<open>P\<close> it returns, keeps the invariant, extends the tables of
  identifiers, and establishes \<open>Q\<close>.
\<close>

section \<open>The steps of the inventory\<close>

definition grows :: "registry_db \<Rightarrow> registry_db \<Rightarrow> bool" where
  "grows g g' \<longleftrightarrow> set (phys_keys g) \<subseteq> set (phys_keys g') \<and> set (alias_keys g) \<subseteq> set (alias_keys g')"

definition registry_ok :: "(string \<Rightarrow> string) \<Rightarrow> (nat \<Rightarrow> string) \<Rightarrow> discovered_device set \<Rightarrow> registry_db \<Rightarrow> bool" where
  "registry_ok sha256 fresh D g \<longleftrightarrow> inventory_ok sha256 D g \<and> scope_ok fresh D g"

definition same_identifiers :: "registry_db \<Rightarrow> registry_db \<Rightarrow> bool" where
  "same_identifiers g g' \<longleftrightarrow> rg_physical g' = rg_physical g \<and> rg_aliases g' = rg_aliases g \<and> rg_drawn g' = rg_drawn g"

lemma grows_refl: "grows g g"
  by (simp add: grows_def)

lemma grows_trans: "grows g g' \<Longrightarrow> grows g' g'' \<Longrightarrow> grows g g''"
  by (auto simp: grows_def)

locale inventory_step =
  fixes sha256 :: "string \<Rightarrow> string" and D :: "discovered_device set" and pre :: bool and step :: "registry_db \<Rightarrow> registry_db"
  assumes keeps: "pre \<Longrightarrow> inventory_ok sha256 D g \<Longrightarrow> inventory_ok sha256 D (step g) \<and> evolves D g (step g)"
    and apart: "pre \<Longrightarrow> inventory_ok sha256 D g \<Longrightarrow> same_identifiers g (step g)"
begin

lemma registry:
  assumes "pre" and "registry_ok sha256 fresh D g"
  shows "registry_ok sha256 fresh D (step g)" and "grows g (step g)"
proof -
  have ok: "inventory_ok sha256 D g" "scope_ok fresh D g" using assms(2) by (simp_all add: registry_ok_def)
  have same: "rg_physical (step g) = rg_physical g" "rg_aliases (step g) = rg_aliases g" "rg_drawn (step g) = rg_drawn g"
    using apart [OF assms(1) ok(1)] by (simp_all add: same_identifiers_def)
  show "registry_ok sha256 fresh D (step g)"
    unfolding registry_ok_def using keeps [OF assms(1) ok(1)] scope_evolves [OF ok(2) _ same] by blast
  show "grows g (step g)" by (simp add: grows_def phys_keys_def alias_keys_def same)
qed

end

lemma insert_new_apart: "insert_new_identity cid e source idvalue d now g = Inr g' \<Longrightarrow> same_identifiers g g'"
  by (auto simp: insert_new_identity_def Let_def sbind_eq_Inr insert_canonical_device_def same_identifiers_def)

lemma promote_apart: "promote_identity old new e source idvalue d now g = Inr g' \<Longrightarrow> same_identifiers g g'"
  by (auto simp: promote_identity_def Let_def sbind_eq_Inr same_identifiers_def)

lemma match_apart:
  assumes "match_observation sha256 now d g = Inr (g', m)"
  shows "same_identifiers g g'"
proof -
  have refl: "same_identifiers g g" by (simp add: same_identifiers_def)
  show ?thesis
    using assms refl insert_new_apart promote_apart
    unfolding match_observation_def Let_def case_prod_beta
    by (auto simp: sbind_eq_Inr split: option.splits if_splits)
qed

lemma record_apart: "same_identifiers g (record_observation m d now g)"
  by (simp add: record_defs same_identifiers_def)

lemma register_apart:
  assumes "inventory_ok sha256 D g" and "register_observation w d g = (g', Inr r)"
  shows "same_identifiers g g'"
proof -
  have t: "tables_inv g" using assms(1) by (simp add: inventory_ok_def)
  obtain g1 m where m: "match_observation (rw_sha256 w) (rw_now w) d g = Inr (g1, m)" "g' = record_observation m d (rw_now w) g1"
    using assms(2) by (auto simp: register_observation_def Let_def initialize_ok [OF t] split: sum.splits)
  then show ?thesis using match_apart [OF m(1)] record_apart [of g1 m d "rw_now w"] by (simp add: same_identifiers_def)
qed

interpretation observation: inventory_step sha256 D "observable sha256 D \<and> d \<in> D \<and> rw_sha256 w = sha256"
    "\<lambda>g. fst (register_observation w d g)" for sha256 D w d
proof
  fix g :: registry_db
  assume pre: "observable sha256 D \<and> d \<in> D \<and> rw_sha256 w = sha256" and ok: "inventory_ok sha256 D g"
  then obtain g' cid e where r: "register_observation w d g = (g', Inr (cid, e))" "inventory_ok sha256 D g'" "evolves D g g'"
    using register_ok [of w D g d] by metis
  show "inventory_ok sha256 D (fst (register_observation w d g)) \<and> evolves D g (fst (register_observation w d g))"
    using r by simp
  show "same_identifiers g (fst (register_observation w d g))" using register_apart [OF ok r(1)] r(1) by simp
qed

interpretation presence: inventory_step sha256 D True "reconcile_presence w obs" for sha256 D w obs
proof
  fix g :: registry_db assume ok: "inventory_ok sha256 D g"
  then have t: "tables_inv g" by (simp add: inventory_ok_def)
  show "inventory_ok sha256 D (reconcile_presence w obs g) \<and> evolves D g (reconcile_presence w obs g)"
    using presence_ok [OF ok] by blast
  show "same_identifiers g (reconcile_presence w obs g)"
    by (simp add: same_identifiers_def reconcile_presence_def initialize_ok [OF t] Let_def)
qed

interpretation success: inventory_step sha256 D True "record_success now cid key" for sha256 D now cid key
  by (unfold_locales, intro conjI success_ok, assumption+) (simp add: same_identifiers_def record_success_def)

interpretation all_offline: inventory_step sha256 D True mark_all_offline for sha256 D
  by (unfold_locales, intro conjI offline_ok, assumption+) (simp add: same_identifiers_def mark_all_offline_def)

interpretation device_offline: inventory_step sha256 D True "mark_device_offline e" for sha256 D e
  by (unfold_locales, intro conjI offline_ok, assumption+) (simp add: same_identifiers_def mark_device_offline_def)

section \<open>Synchronisation and resolution\<close>

lemma sync_identities_ok:
  assumes "registry_ok sha256 fresh D g" and "inj fresh" and "set is \<subseteq> set (rg_identities g)"
  shows "\<exists>g'. sync_identities fresh now is g = Inr g' \<and> same_inventory g g' \<and> registry_ok sha256 fresh D g' \<and> grows g g' \<and>
    (\<forall>j \<in> set (rg_identities g). j \<in> set is \<or> synced g j \<longrightarrow> synced g' j)"
  using assms
proof (induction "is" arbitrary: g)
  case Nil
  then show ?case by (auto simp: same_inventory_def grows_refl)
next
  case (Cons i "is")
  then have ok: "inventory_ok sha256 D g" "scope_ok fresh D g" "i \<in> set (rg_identities g)" by (auto simp: registry_ok_def)
  obtain g1 where g1: "sync_identity fresh now i g = Inr g1" "same_inventory g g1" "scope_ok fresh D g1"
    "set (phys_keys g) \<subseteq> set (phys_keys g1)" "set (alias_keys g) \<subseteq> set (alias_keys g1)" "synced g1 i"
    "\<And>j. j \<in> set (rg_identities g) \<Longrightarrow> synced g j \<Longrightarrow> synced g1 j"
    using sync_identity_ok [OF ok(1,2) Cons.prems(2) ok(3), where now = now] by blast
  have ids: "rg_identities g1 = rg_identities g" by (rule same_inventory_fields [OF g1(2)])
  have "registry_ok sha256 fresh D g1" using ok(1) g1(3) unfolding registry_ok_def same_inventory_keys(7) [OF g1(2)] by blast
  then obtain g' where g': "sync_identities fresh now is g1 = Inr g'" "same_inventory g1 g'" "registry_ok sha256 fresh D g'"
    "grows g1 g'" "\<forall>j \<in> set (rg_identities g1). j \<in> set is \<or> synced g1 j \<longrightarrow> synced g' j"
    using Cons.IH [of g1] Cons.prems(2,3) ids by auto
  have "same_inventory g g'" using g1(2) g'(2) by (simp add: same_inventory_def)
  moreover have "grows g g'" using g1(4,5) g'(4) unfolding grows_def by blast
  moreover have "\<forall>j \<in> set (rg_identities g). j \<in> set (i # is) \<or> synced g j \<longrightarrow> synced g' j"
    using g'(5) g1(6,7) ids by auto
  ultimately show ?case using g1(1) g'(1,3) by simp
qed

definition triple :: "(registry_db \<Rightarrow> bool) \<Rightarrow> (registry_db \<Rightarrow> bool) \<Rightarrow> 'a call \<Rightarrow> (registry_db \<Rightarrow> 'a \<Rightarrow> bool) \<Rightarrow> bool" where
  "triple I P c Q \<longleftrightarrow> (\<forall>g. I g \<longrightarrow> P g \<longrightarrow> (\<exists>g' x. c g = (g', Inr x) \<and> I g' \<and> grows g g' \<and> Q g' x))"

lemma tripleI: "(\<And>g. I g \<Longrightarrow> P g \<Longrightarrow> \<exists>g' x. c g = (g', Inr x) \<and> I g' \<and> grows g g' \<and> Q g' x) \<Longrightarrow> triple I P c Q"
  by (simp add: triple_def)

lemma tripleE:
  assumes "triple I P c Q" and "I g" and "P g"
  obtains g' x where "c g = (g', Inr x)" and "I g'" and "grows g g'" and "Q g' x"
  using assms unfolding triple_def by blast

lemma triple_then [intro]:
  assumes m: "triple I P m Q" and f: "\<And>x. triple I (\<lambda>g. Q g x) (f x) R"
  shows "triple I P (call_then m f) R"
proof (rule tripleI)
  fix g assume "I g" "P g"
  then obtain g' x where 1: "m g = (g', Inr x)" "I g'" "grows g g'" "Q g' x" by (rule tripleE [OF m])
  then obtain g'' y where 2: "f x g' = (g'', Inr y)" "I g''" "grows g' g''" "R g'' y" using tripleE [OF f] by metis
  show "\<exists>g' x. call_then m f g = (g', Inr x) \<and> I g' \<and> grows g g' \<and> R g' x"
    using 1 2 grows_trans by (auto simp: call_then_def)
qed

lemma triple_weaken: "triple I P c Q \<Longrightarrow> (\<And>g. P' g \<Longrightarrow> P g) \<Longrightarrow> (\<And>g x. Q g x \<Longrightarrow> Q' g x) \<Longrightarrow> triple I P' c Q'"
  unfolding triple_def by metis

text \<open>After a synchronisation every identity has an identifier; what is known of the inventory stays true.\<close>

lemma sync_triple:
  assumes "inj fresh" and P: "\<And>g g'. same_inventory g g' \<Longrightarrow> P g \<Longrightarrow> P g'"
  shows "triple (registry_ok sha256 fresh D) P (sync fresh w) (\<lambda>g _. P g \<and> (\<forall>i \<in> set (rg_identities g). synced g i))"
proof (rule tripleI)
  fix g assume ok: "registry_ok sha256 fresh D g" and p: "P g"
  have ids: "set (sync_order (rg_identities g)) = set (rg_identities g)" by (simp add: sync_order_def)
  obtain g' where g': "sync_identities fresh (rw_now w) (sync_order (rg_identities g)) g = Inr g'" "same_inventory g g'"
    "registry_ok sha256 fresh D g'" "grows g g'" "\<forall>j \<in> set (rg_identities g). synced g' j"
    using sync_identities_ok [OF ok assms(1), of "sync_order (rg_identities g)" "rw_now w"] ids by blast
  have "rg_identities g' = rg_identities g" by (rule same_inventory_fields [OF g'(2)])
  then show "\<exists>g' x. sync fresh w g = (g', Inr x) \<and> registry_ok sha256 fresh D g' \<and> grows g g' \<and>
      P g' \<and> (\<forall>i \<in> set (rg_identities g'). synced g' i)"
    using g' P [OF g'(2) p] by (simp add: sync_def)
qed

lemma resolve_triple:
  assumes "inj fresh" and P: "\<And>g g'. same_inventory g g' \<Longrightarrow> P g \<Longrightarrow> P g'"
  shows "triple (registry_ok sha256 fresh D) P (resolve fresh w x)
    (\<lambda>g r. P g \<and> (\<forall>i \<in> set (rg_identities g). synced g i) \<and> r = map_option (\<lambda>p. scope_of p g) (physical_named x g))"
  unfolding resolve_def
  by (rule triple_then [OF sync_triple [OF assms(1) P]], assumption+, rule tripleI) (simp add: grows_refl)

section \<open>Names\<close>

lemma in_phys_keys: "p \<in> set (rg_physical g) \<Longrightarrow> (pc_uid p, pc_canonical p) \<in> set (phys_keys g)"
  by (simp add: phys_keys_def)

lemma in_alias_keys: "a \<in> set (rg_aliases g) \<Longrightarrow> (al_controller_id a, al_uid a) \<in> set (alias_keys g)"
  by (simp add: alias_keys_def)

lemma phys_row:
  assumes "scope_ok fresh D g" and "(uid, e) \<in> set (phys_keys g)"
  obtains p where "select_row pc_uid uid (rg_physical g) = Some p" and "pc_uid p = uid" and "pc_canonical p = e"
proof -
  obtain p where p: "p \<in> set (rg_physical g)" "pc_uid p = uid" "pc_canonical p = e" using assms(2) by (auto simp: phys_keys_def)
  have "distinct (map fst (phys_keys g))" using identifiers_dest(1) assms(1) unfolding scope_ok_def by blast
  then have "distinct (map pc_uid (rg_physical g))" by (simp add: phys_keys_def comp_def)
  then show ?thesis using that select_row_key [OF _ p(1)] p by auto
qed

lemma alias_row:
  assumes "scope_ok fresh D g" and "(cid, uid) \<in> set (alias_keys g)"
  obtains a where "select_row al_controller_id cid (rg_aliases g) = Some a" and "al_uid a = uid"
proof -
  obtain a where a: "a \<in> set (rg_aliases g)" "al_controller_id a = cid" "al_uid a = uid" using assms(2) by (auto simp: alias_keys_def)
  have "distinct (map fst (alias_keys g))" using identifiers_dest(4) assms(1) unfolding scope_ok_def by blast
  then have "distinct (map al_controller_id (rg_aliases g))" by (simp add: alias_keys_def comp_def)
  then show ?thesis using that select_row_key [OF _ a(1)] a by auto
qed

definition is_uid :: "string \<Rightarrow> bool" where
  "is_uid s \<longleftrightarrow> s \<noteq> [] \<and> hd s = CHR ''c''"

lemma observed_not_uid: "\<not> is_uid (observed_id d)"
  by (simp add: is_uid_def observed_identity_def controller_identity_def Let_def)

lemma alias_not_uid:
  assumes ok: "registry_ok sha256 fresh D g" and a: "(cid, uid) \<in> set (alias_keys g)"
  shows "\<not> is_uid cid"
proof -
  have inv: "identities_inv sha256 D (connection_keys g) (dev_keys g) (id_keys g)" "scope_ok fresh D g"
    using ok by (simp_all add: registry_ok_def inventory_ok_def)
  have fb: "\<not> is_uid c" if "(c, k) \<in> fallback D" for c k using that observed_not_uid by (auto simp: fallback_def)
  obtain e where "(cid, e) \<in> owners g \<or> retired D g cid"
    using identifiers_dest(5) [OF inv(2) [unfolded scope_ok_def] a] by blast
  then show ?thesis
  proof
    assume "(cid, e) \<in> owners g"
    then obtain b where b: "(cid, e, b) \<in> set (id_keys g)" by (auto simp: owners_def)
    show ?thesis
    proof (cases b)
      case True
      then have "(cid, e, True) \<in> set (id_keys g)" using b by simp
      then show ?thesis using identities_dest(10) [OF inv(1)] fb by blast
    next
      case False
      then have "(cid, e, False) \<in> set (id_keys g)" using b by simp
      then have "is_serial cid" by (rule identities_dest(11) [OF inv(1)])
      then show ?thesis by (auto simp: is_serial_def is_uid_def)
    qed
  qed (use fb in \<open>auto simp: retired_def\<close>)
qed

lemma phys_is_uid:
  assumes "registry_ok sha256 fresh D g" and "(uid, e) \<in> set (phys_keys g)"
  shows "is_uid uid"
proof -
  have "fst ` set (phys_keys g) \<subseteq> uid_name fresh ` {..<rg_drawn g}"
    using identifiers_dest(6) assms(1) unfolding registry_ok_def scope_ok_def by blast
  then obtain n where "uid = uid_name fresh n" using assms(2) by force
  then show ?thesis by (simp add: is_uid_def uid_name_def)
qed

text \<open>What a name stands for: an identifier itself, or an alias of one.\<close>

lemma physical_named_iff:
  assumes ok: "registry_ok sha256 fresh D g"
  shows "(\<exists>p. physical_named x g = Some p \<and> pc_uid p = uid \<and> pc_canonical p = e) \<longleftrightarrow>
    (uid, e) \<in> set (phys_keys g) \<and> (x = uid \<or> (x, uid) \<in> set (alias_keys g))"
proof
  assume "\<exists>p. physical_named x g = Some p \<and> pc_uid p = uid \<and> pc_canonical p = e"
  then obtain p where p: "physical_named x g = Some p" "pc_uid p = uid" "pc_canonical p = e" by blast
  show "(uid, e) \<in> set (phys_keys g) \<and> (x = uid \<or> (x, uid) \<in> set (alias_keys g))"
  proof (cases "select_row pc_uid x (rg_physical g)")
    case (Some q)
    then have q: "q \<in> set (rg_physical g)" "pc_uid q = x" "q = p" using p(1) by (auto simp: physical_named_def dest: select_row_Some)
    then show ?thesis using p(2,3) by (auto simp: phys_keys_def)
  next
    case None
    then obtain a where a: "select_row al_controller_id x (rg_aliases g) = Some a" "select_row pc_uid (al_uid a) (rg_physical g) = Some p"
      using p(1) by (auto simp: physical_named_def split: option.splits)
    then have "a \<in> set (rg_aliases g)" "al_controller_id a = x" "p \<in> set (rg_physical g)" "pc_uid p = al_uid a"
      by (auto dest: select_row_Some)
    then have "(pc_uid p, pc_canonical p) \<in> set (phys_keys g)" "(x, pc_uid p) \<in> set (alias_keys g)"
      using in_phys_keys in_alias_keys by metis+
    then show ?thesis using p(2,3) by simp
  qed
next
  assume r: "(uid, e) \<in> set (phys_keys g) \<and> (x = uid \<or> (x, uid) \<in> set (alias_keys g))"
  have scope: "scope_ok fresh D g" using ok by (simp add: registry_ok_def)
  obtain p where p: "select_row pc_uid uid (rg_physical g) = Some p" "pc_uid p = uid" "pc_canonical p = e"
    using phys_row [OF scope] r by blast
  show "\<exists>p. physical_named x g = Some p \<and> pc_uid p = uid \<and> pc_canonical p = e"
  proof (cases "x = uid")
    case True
    then show ?thesis using p by (simp add: physical_named_def)
  next
    case False
    then have a: "(x, uid) \<in> set (alias_keys g)" using r by blast
    have "x \<notin> pc_uid ` set (rg_physical g)"
    proof
      assume "x \<in> pc_uid ` set (rg_physical g)"
      then obtain e' where "(x, e') \<in> set (phys_keys g)" by (auto simp: phys_keys_def)
      then show False using phys_is_uid [OF ok] alias_not_uid [OF ok a] by blast
    qed
    then have none: "select_row pc_uid x (rg_physical g) = None" by (simp add: select_row_None)
    obtain row where "select_row al_controller_id x (rg_aliases g) = Some row" "al_uid row = uid" by (rule alias_row [OF scope a])
    then show ?thesis using none p by (simp add: physical_named_def)
  qed
qed

section \<open>The calls of the registry\<close>

lemma owner_same: "same_inventory g g' \<Longrightarrow> (cid, e) \<in> owners g \<Longrightarrow> (cid, e) \<in> owners g'"
  by (simp add: same_inventory_keys)

lemma synced_named:
  assumes ok: "registry_ok sha256 fresh D g" and owner: "(cid, e) \<in> owners g" and "\<forall>i \<in> set (rg_identities g). synced g i"
  obtains p where "physical_named cid g = Some p" and "pc_canonical p = e" and "pc_current p = cid" and "(pc_uid p, e) \<in> set (phys_keys g)"
    and "(cid, pc_uid p) \<in> set (alias_keys g)"
proof -
  obtain i where i: "i \<in> set (rg_identities g)" "id_controller_id i = cid" "id_canonical i = e"
    using owner by (auto simp: owners_def id_keys_def)
  then obtain p where p: "p \<in> set (rg_physical g)" "(cid, pc_uid p) \<in> set (alias_keys g)" "pc_canonical p = e" "pc_current p = cid"
    using assms(3) by (auto simp: synced_def)
  have keys: "(pc_uid p, e) \<in> set (phys_keys g)" using p(1,3) by (auto simp: phys_keys_def)
  then obtain q where q: "physical_named cid g = Some q" "pc_uid q = pc_uid p" "pc_canonical q = e"
    using physical_named_iff [OF ok, of cid "pc_uid p" e] p(2) by blast
  have "q \<in> set (rg_physical g)" using q(1) by (auto simp: physical_named_def split: option.splits dest: select_row_Some)
  moreover have "distinct (map pc_uid (rg_physical g))"
    using identifiers_dest(1) ok unfolding registry_ok_def scope_ok_def by (fastforce simp: phys_keys_def comp_def)
  ultimately have "q = p" using q(2) p(1) by (auto simp: distinct_map dest: inj_onD)
  then show ?thesis using that [of p] q p keys by simp
qed

text \<open>What a registration knows of the controller it registered: its identity, and the serial number that names it.\<close>

definition registered ::
  "discovered_device set \<Rightarrow> discovered_device \<Rightarrow> string \<times> string \<Rightarrow> registry_db \<Rightarrow> bool" where
  "registered D d x g \<longleftrightarrow> serials_ok D g \<and> x \<in> owners g \<and> named_after D d (fst x)"

lemma registered_same: "same_inventory g g' \<Longrightarrow> registered D d x g \<Longrightarrow> registered D d x g'"
  using serials_identities [OF same_inventory_fields(3)] by (simp add: registered_def same_inventory_keys)

lemma serials_same: "same_inventory g g' \<Longrightarrow> serials_ok D g \<Longrightarrow> serials_ok D g'"
  using serials_identities [OF same_inventory_fields(3)] by simp

lemma sync_settles:
  assumes "inj fresh"
  shows "triple (registry_ok sha256 fresh D) (serials_ok D) (sync fresh w) (\<lambda>g _. settled D g)"
  by (rule triple_weaken [OF sync_triple [OF assms serials_same]]) (simp_all add: settled_def)

lemma register_triple:
  assumes fresh: "inj fresh" and D: "observable sha256 D" "d \<in> D" "rw_sha256 w = sha256"
  shows "triple (registry_ok sha256 fresh D) (serials_ok D) (registry_register fresh w d)
    (\<lambda>g (uid, e). settled D g \<and> (uid, e) \<in> set (phys_keys g) \<and>
      (\<exists>cid. (cid, e) \<in> owners g \<and> (cid, uid) \<in> set (alias_keys g) \<and> named_after D d cid))"
  unfolding registry_register_def
proof (intro triple_then)
  show "triple (registry_ok sha256 fresh D) (serials_ok D) (registry_initialize fresh w) (\<lambda>g _. serials_ok D g)"
  proof (rule tripleI)
    fix g assume ok: "registry_ok sha256 fresh D g" and s: "serials_ok D g"
    then have "tables_inv g" by (simp add: registry_ok_def inventory_ok_def)
    then have i: "registry_initialize fresh w g = sync fresh w g" by (simp add: registry_initialize_def initialize_ok)
    obtain g' x where "sync fresh w g = (g', Inr x)" "registry_ok sha256 fresh D g'" "grows g g'" "settled D g'"
      by (rule tripleE [OF sync_settles [OF fresh] ok s])
    then show "\<exists>g' x. registry_initialize fresh w g = (g', Inr x) \<and> registry_ok sha256 fresh D g' \<and> grows g g' \<and> serials_ok D g'"
      using i by (simp add: settled_def)
  qed
next
  fix u :: unit
  show "triple (registry_ok sha256 fresh D) (serials_ok D) (inventory_register w d) (\<lambda>g x. registered D d x g)"
  proof (rule tripleI)
    fix g assume ok: "registry_ok sha256 fresh D g" and s: "serials_ok D g"
    then have inv: "inventory_ok (rw_sha256 w) D g" using D(3) by (simp add: registry_ok_def)
    obtain g' cid e where r: "register_observation w d g = (g', Inr (cid, e))" "(cid, e) \<in> owners g'"
      using register_ok [OF inv] D by metis
    have pre: "observable sha256 D \<and> d \<in> D \<and> rw_sha256 w = sha256" using D by simp
    have "registry_ok sha256 fresh D g'" "grows g g'"
      using observation.registry [OF pre ok] r(1) by simp_all
    moreover have "serials_ok D g' \<and> named_after D d cid"
      by (rule register_serials [OF r(1) _ s D(2)]) (use inv in \<open>simp add: inventory_ok_def\<close>)
    ultimately show "\<exists>g' x. inventory_register w d g = (g', Inr x) \<and> registry_ok sha256 fresh D g' \<and> grows g g' \<and>
        registered D d x g'"
      using r by (simp add: inventory_register_def registered_def)
  qed
next
  fix u :: unit and x :: "string \<times> string"
  obtain cid e where x: "x = (cid, e)" by fastforce
  let ?post = "\<lambda>g (uid, e). settled D g \<and> (uid, e) \<in> set (phys_keys g) \<and>
      (\<exists>cid. (cid, e) \<in> owners g \<and> (cid, uid) \<in> set (alias_keys g) \<and> named_after D d cid)"
  show "triple (registry_ok sha256 fresh D) (registered D d x)
      (case x of (cid, device_id) \<Rightarrow> call_then (sync fresh w) (\<lambda>_. call_then (resolve fresh w cid) (\<lambda>scope g.
         (g, case scope of None \<Rightarrow> Inl (ScopeMissing cid) | Some s \<Rightarrow> Inr (sp_uid s, device_id))))) ?post"
    unfolding x prod.case
  proof (intro triple_then)
    show "triple (registry_ok sha256 fresh D) (registered D d (cid, e)) (sync fresh w) (\<lambda>g _. registered D d (cid, e) g)"
      by (rule triple_weaken [OF sync_triple [OF fresh registered_same]]) auto
    show "triple (registry_ok sha256 fresh D) (registered D d (cid, e)) (resolve fresh w cid)
        (\<lambda>g r. registered D d (cid, e) g \<and> (\<forall>i \<in> set (rg_identities g). synced g i) \<and> r = map_option (\<lambda>p. scope_of p g) (physical_named cid g))"
      by (rule resolve_triple [OF fresh registered_same])
    fix r :: "controller_scope option"
    show "triple (registry_ok sha256 fresh D)
        (\<lambda>g. registered D d (cid, e) g \<and> (\<forall>i \<in> set (rg_identities g). synced g i) \<and> r = map_option (\<lambda>p. scope_of p g) (physical_named cid g))
        (\<lambda>g. (g, case r of None \<Rightarrow> Inl (ScopeMissing cid) | Some s \<Rightarrow> Inr (sp_uid s, e))) ?post"
    proof (rule tripleI, elim conjE)
      fix g assume g: "registry_ok sha256 fresh D g" "registered D d (cid, e) g" "\<forall>i \<in> set (rg_identities g). synced g i"
        "r = map_option (\<lambda>p. scope_of p g) (physical_named cid g)"
      have o: "(cid, e) \<in> owners g" "named_after D d cid" "settled D g" using g(2,3) by (simp_all add: registered_def settled_def)
      obtain p where p: "physical_named cid g = Some p" "(pc_uid p, e) \<in> set (phys_keys g)" "(cid, pc_uid p) \<in> set (alias_keys g)"
        by (rule synced_named [OF g(1) o(1) g(3)])
      have "r = Some (scope_of p g)" "sp_uid (scope_of p g) = pc_uid p"
        using g(4) p(1) by (simp_all add: scope_of_def Let_def)
      then show "\<exists>g' x. (g, case r of None \<Rightarrow> Inl (ScopeMissing cid) | Some s \<Rightarrow> Inr (sp_uid s, e)) = (g', Inr x) \<and>
          registry_ok sha256 fresh D g' \<and> grows g g' \<and> ?post g' x"
        using g(1) grows_refl o p(2,3) by auto
    qed
  qed
qed

lemma resolve_settles:
  assumes "inj fresh"
  shows "triple (registry_ok sha256 fresh D) (settled D) (resolve fresh w x) (\<lambda>g _. settled D g)"
  by (rule triple_weaken [OF resolve_triple [OF assms serials_same]]) (simp_all add: settled_def)

lemma presence_triple:
  assumes fresh: "inj fresh"
  shows "triple (registry_ok sha256 fresh D) (settled D) (registry_presence fresh w obs) (\<lambda>g _. settled D g)"
proof -
  have translate: "triple (registry_ok sha256 fresh D) (settled D) (translate_observed fresh w obs) (\<lambda>g _. settled D g)"
  proof (induction obs)
    case Nil
    show ?case by (rule tripleI) (simp add: grows_refl)
  next
    case (Cons x obs)
    obtain uid key where x: "x = (uid, key)" by fastforce
    have "triple (registry_ok sha256 fresh D) (settled D)
      (call_then (resolve fresh w uid) (\<lambda>s. call_then (translate_observed fresh w obs) (\<lambda>rest g'.
        (g', Inr (case s of None \<Rightarrow> rest | Some s \<Rightarrow> (sp_controller_id s, key) # rest))))) (\<lambda>g _. settled D g)"
      by (rule triple_then [OF resolve_settles [OF fresh]], rule triple_then [OF Cons.IH], rule tripleI) (simp add: grows_refl)
    then show ?case by (simp add: triple_def x)
  qed
  show ?thesis
    unfolding registry_presence_def
  proof (rule triple_then [OF translate], rule tripleI)
    fix g translated assume ok: "registry_ok sha256 fresh D g" and s: "settled D g"
    have t: "tables_inv g" using ok by (simp add: registry_ok_def inventory_ok_def)
    have "same_identifiers g (reconcile_presence w translated g)"
      using presence.apart [OF TrueI, of sha256 D g w translated] ok by (simp add: registry_ok_def)
    then have "settled D (reconcile_presence w translated g)"
      by (intro settled_same [OF s] identity_rows_steps(1) [OF t]) (simp_all add: same_identifiers_def)
    then show "\<exists>g' x. (reconcile_presence w translated g, Inr ()) = (g', Inr x) \<and> registry_ok sha256 fresh D g' \<and>
        grows g g' \<and> settled D g'"
      using presence.registry [OF TrueI ok] by blast
  qed
qed

lemma success_triple:
  assumes fresh: "inj fresh"
  shows "triple (registry_ok sha256 fresh D) (settled D) (registry_success fresh w uid key) (\<lambda>g _. settled D g)"
  unfolding registry_success_def
proof (rule triple_then [OF resolve_settles [OF fresh]])
  fix r :: "controller_scope option"
  show "triple (registry_ok sha256 fresh D) (settled D)
      (\<lambda>g. case r of None \<Rightarrow> (g, Inr ()) | Some s \<Rightarrow> sync fresh w (record_success (rw_now w) (sp_controller_id s) key g)) (\<lambda>g _. settled D g)"
  proof (rule tripleI)
    fix g assume ok: "registry_ok sha256 fresh D g" and settled: "settled D g"
    show "\<exists>g' x. (case r of None \<Rightarrow> (g, Inr ()) | Some s \<Rightarrow> sync fresh w (record_success (rw_now w) (sp_controller_id s) key g)) = (g', Inr x) \<and>
        registry_ok sha256 fresh D g' \<and> grows g g' \<and> settled D g'"
    proof (cases r)
      case None
      then show ?thesis using ok settled grows_refl by auto
    next
      case (Some s)
      let ?g = "record_success (rw_now w) (sp_controller_id s) key g"
      note st = success.registry [OF TrueI ok, of "rw_now w" "sp_controller_id s" key]
      have "settled D ?g" by (rule settled_same [OF settled identity_rows_steps(2)]) (simp_all add: record_success_def)
      then have "serials_ok D ?g" by (simp add: settled_def)
      then obtain g' x where "sync fresh w ?g = (g', Inr x)" "registry_ok sha256 fresh D g'" "grows ?g g'" "settled D g'"
        by (rule tripleE [OF sync_settles [OF fresh] st(1)])
      then show ?thesis using Some grows_trans [OF st(2)] by auto
    qed
  qed
qed

fun event_ok :: "(string \<Rightarrow> string) \<Rightarrow> discovered_device set \<Rightarrow> registry_event \<Rightarrow> bool" where
  "event_ok sha256 D (Observe w d) \<longleftrightarrow> d \<in> D \<and> rw_sha256 w = sha256"
| "event_ok sha256 D _ \<longleftrightarrow> True"

lemma step_triple:
  assumes fresh: "inj fresh" and D: "observable sha256 D" "event_ok sha256 D ev"
  shows "triple (registry_ok sha256 fresh D) (settled D) (registry_step fresh ev) (\<lambda>g _. settled D g)"
proof (cases ev)
  case (Observe w d)
  have d: "d \<in> D" "rw_sha256 w = sha256" using D(2) Observe by simp_all
  have plain: "triple (registry_ok sha256 fresh D) (settled D) (registry_register fresh w d) (\<lambda>g _. settled D g)"
    by (rule triple_weaken [OF register_triple [OF fresh D(1) d]]) (auto simp: settled_def)
  show ?thesis
    unfolding Observe registry_step.simps by (rule triple_then [OF plain], rule tripleI) (simp add: grows_refl)
next
  case (Resolve w x)
  show ?thesis
    unfolding Resolve registry_step.simps
    by (rule triple_then [OF resolve_settles [OF fresh]], rule tripleI) (simp add: grows_refl)
next
  case AllOffline
  show ?thesis
    unfolding AllOffline registry_step.simps
  proof (rule tripleI)
    fix g assume ok: "registry_ok sha256 fresh D g" and s: "settled D g"
    have "settled D (mark_all_offline g)"
      by (rule settled_same [OF s identity_rows_steps(3)]) (simp_all add: mark_all_offline_def)
    then show "\<exists>g' x. (mark_all_offline g, Inr ()) = (g', Inr x) \<and> registry_ok sha256 fresh D g' \<and> grows g g' \<and> settled D g'"
      using all_offline.registry [OF TrueI ok] by blast
  qed
next
  case (DeviceOffline e)
  show ?thesis
    unfolding DeviceOffline registry_step.simps
  proof (rule tripleI)
    fix g assume ok: "registry_ok sha256 fresh D g" and s: "settled D g"
    have "settled D (mark_device_offline e g)"
      by (rule settled_same [OF s identity_rows_steps(4)]) (simp_all add: mark_device_offline_def)
    then show "\<exists>g' x. (mark_device_offline e g, Inr ()) = (g', Inr x) \<and> registry_ok sha256 fresh D g' \<and> grows g g' \<and> settled D g'"
      using device_offline.registry [OF TrueI ok] by blast
  qed
qed (simp_all add: presence_triple [OF fresh] success_triple [OF fresh])

lemma run_triple:
  assumes fresh: "inj fresh" and D: "observable sha256 D" "list_all (event_ok sha256 D) evs"
  shows "triple (registry_ok sha256 fresh D) (settled D) (run_events fresh evs) (\<lambda>g _. settled D g)"
  using D(2)
proof (induction evs)
  case Nil
  show ?case by (rule tripleI) (simp add: grows_refl)
next
  case (Cons ev evs)
  show ?case
    unfolding run_events.simps by (rule triple_then [OF step_triple [OF fresh D(1)]]) (use Cons in simp_all)
qed

lemma empty_ok: "registry_ok sha256 fresh D empty_registry"
  by (simp add: registry_ok_def inventory_ok_def identities_inv_def tables_inv_def scope_ok_def identifiers_inv_def empty_registry_def
      dev_keys_def id_keys_def phys_keys_def alias_keys_def)

lemma empty_settled: "settled D empty_registry"
  by (simp add: settled_def serials_ok_def empty_registry_def)

lemma run_ok:
  assumes "inj fresh" and "observable sha256 D" and "list_all (event_ok sha256 D) evs" and "run_events fresh evs empty_registry = (g, r)"
  shows "registry_ok sha256 fresh D g" and "r = Inr ()" and "settled D g"
  using tripleE [OF run_triple [OF assms(1-3)] empty_ok empty_settled] assms(4) by auto

section \<open>One to one\<close>

definition one_to_one :: "registry_db \<Rightarrow> bool" where
  "one_to_one g \<longleftrightarrow>
    distinct (map id_controller_id (rg_identities g)) \<and> distinct (map id_canonical (rg_identities g)) \<and>
    distinct (map pc_uid (rg_physical g)) \<and> distinct (map pc_canonical (rg_physical g)) \<and>
    pc_canonical ` set (rg_physical g) = id_canonical ` set (rg_identities g) \<and>
    id_canonical ` set (rg_identities g) \<subseteq> dv_id ` set (rg_devices g) \<and>
    (\<forall>i \<in> set (rg_identities g). \<exists>p \<in> set (rg_physical g). physical_named (id_controller_id i) g = Some p \<and>
      pc_canonical p = id_canonical i \<and> pc_current p = id_controller_id i)"

lemma settled_one_to_one:
  assumes ok: "registry_ok sha256 fresh D g" and "settled D g"
  shows "one_to_one g"
proof -
  note i = identities_dest [of sha256 D "connection_keys g" "dev_keys g" "id_keys g"]
    and s = identifiers_dest [of fresh "rg_drawn g" "phys_keys g" "alias_keys g" D g]
  have inv: "identities_inv sha256 D (connection_keys g) (dev_keys g) (id_keys g)"
    "identifiers_inv fresh (rg_drawn g) (phys_keys g) (alias_keys g) D g"
    using ok by (simp_all add: registry_ok_def inventory_ok_def scope_ok_def)
  have maps: "map fst (id_keys g) = map id_controller_id (rg_identities g)" "map (fst \<circ> snd) (id_keys g) = map id_canonical (rg_identities g)"
    "map fst (phys_keys g) = map pc_uid (rg_physical g)" "map snd (phys_keys g) = map pc_canonical (rg_physical g)"
    "map fst (dev_keys g) = map dv_id (rg_devices g)"
    by (simp_all add: id_keys_def phys_keys_def dev_keys_def)
  have sets: "snd ` set (phys_keys g) = pc_canonical ` set (rg_physical g)" "canonical_ids g = id_canonical ` set (rg_identities g)"
    "fst ` set (dev_keys g) = dv_id ` set (rg_devices g)"
    using arg_cong [OF maps(4), of set] arg_cong [OF maps(2), of set] arg_cong [OF maps(5), of set]
    by (simp_all add: canonical_ids_def)
  have synced: "\<forall>i \<in> set (rg_identities g). synced g i" using assms(2) by (simp add: settled_def)
  have named: "\<forall>i \<in> set (rg_identities g). \<exists>p \<in> set (rg_physical g). physical_named (id_controller_id i) g = Some p \<and>
      pc_canonical p = id_canonical i \<and> pc_current p = id_controller_id i"
  proof
    fix i assume i: "i \<in> set (rg_identities g)"
    obtain p where p: "physical_named (id_controller_id i) g = Some p" "pc_canonical p = id_canonical i" "pc_current p = id_controller_id i"
      by (rule synced_named [OF ok in_owners [OF i] synced])
    have "p \<in> set (rg_physical g)" using p(1) by (auto simp: physical_named_def split: option.splits dest: select_row_Some)
    with p show "\<exists>p \<in> set (rg_physical g). physical_named (id_controller_id i) g = Some p \<and>
      pc_canonical p = id_canonical i \<and> pc_current p = id_controller_id i" by blast
  qed
  have "id_canonical ` set (rg_identities g) \<subseteq> pc_canonical ` set (rg_physical g)" using synced by (force simp: synced_def)
  then show ?thesis
    using i(4,5) [OF inv(1)] i(6) [OF inv(1), folded canonical_ids_def] s(1,2,3) [OF inv(2)] named
    unfolding maps sets one_to_one_def by blast
qed

text \<open>What two identifiers name is told apart by the serial numbers their aliases are made of.\<close>

lemma serials_apart:
  assumes ok: "registry_ok sha256 fresh D g"
    and a: "(cid, uid) \<in> set (alias_keys g)" "names_serial cid s" and b: "(cid', uid') \<in> set (alias_keys g)" "names_serial cid' s'"
    and keys: "(uid, e) \<in> set (phys_keys g)" "(uid', e') \<in> set (phys_keys g)" and ne: "str_lower s \<noteq> str_lower s'"
  shows "uid \<noteq> uid' \<and> e \<noteq> e'"
proof -
  have inv: "inventory_ok sha256 D g" "identifiers_inv fresh (rg_drawn g) (phys_keys g) (alias_keys g) D g"
    using ok by (simp_all add: registry_ok_def scope_ok_def)
  note s = identifiers_dest [OF inv(2)]
  have owner: "(c, f) \<in> owners g" if c: "(c, u) \<in> set (alias_keys g)" "names_serial c t" "(u, f) \<in> set (phys_keys g)" for c u t f
  proof -
    obtain e1 where e1: "(u, e1) \<in> set (phys_keys g)" "(c, e1) \<in> owners g \<or> retired D g c" using s(5) [OF c(1)] by blast
    have "e1 = f" using eq_key_imp_eq_value [OF s(1) e1(1) c(3)] .
    moreover have "\<not> retired D g c" using names_serial_is_serial [OF c(2)] fallback_not_serial unfolding retired_def by blast
    ultimately show ?thesis using e1(2) by simp
  qed
  have o: "(cid, e) \<in> owners g" "(cid', e') \<in> owners g" by (rule owner, fact a b keys, fact a b keys, fact a b keys)+
  have "e \<noteq> e'"
  proof
    assume "e = e'"
    then have "cid = cid'" using owners_unique(2) [OF inv(1)] o by blast
    then show False using names_serial_unique a(2) b(2) ne by blast
  qed
  moreover from this have "uid \<noteq> uid'" using eq_key_imp_eq_value [OF s(1)] keys by blast
  ultimately show ?thesis by blast
qed

section \<open>A concrete registry\<close>

definition example_device :: "string option \<Rightarrow> string \<Rightarrow> discovered_device" where
  "example_device usb serial = \<lparr>dd_endpoint = \<lparr>ep_transport = Serial, ep_target = ''ttyUSB0'', ep_unit_id = 1, ep_port = None,
       ep_baudrate = None, ep_stop_bits = None, ep_usb_serial = usb, ep_usb_vid = None, ep_usb_pid = None\<rparr>,
     dd_identification = empty_identification, dd_latency_ms = Fin 0, dd_profile = ''gen'',
     dd_intelligence = (if serial = [] then None else Some \<lparr>di_profile = ''gen'', di_family = [], di_model = [],
       di_serial_number = serial, di_firmware = [], di_hardware_revision = [], di_catalog_revision = [], di_confidence = Fin 1,
       di_status = Verified, di_capabilities = [], di_network = [], di_evidence = [], di_warnings = [], di_metadata = []\<rparr>)\<rparr>"

definition example_world :: registry_world where
  "example_world = \<lparr>rw_parse_time = (\<lambda>_. None), rw_clock = 0, rw_now = ''2026'', rw_grace = Fin 120, rw_sha256 = id\<rparr>"

definition example_fresh :: "nat \<Rightarrow> string" where
  "example_fresh n = replicate n (CHR ''x'')"

lemma example_fresh_inj: "inj example_fresh"
  by (rule injI) (metis example_fresh_def length_replicate)

lemma example_observable: "observable (rw_sha256 example_world) {example_device None [], example_device None ''77''}"
proof -
  let ?d = "example_device None []" and ?d' = "example_device None ''77''"
  have "conflict_device_id id ?d \<noteq> conflict_device_id id ?d'"
    by (simp add: conflict_device_id_def example_device_def device_serial_def)
  moreover have "\<not> has_serial ?d" "has_serial ?d'"
    by (simp_all add: example_device_def device_serial_def strip_empty is_space_def code_of_def)
  ultimately show ?thesis unfolding observable_def by (simp add: example_world_def)
qed

lemma example_serials_observable: "observable (rw_sha256 example_world) {example_device None ''78'', example_device None ''77''}"
proof -
  let ?d = "example_device None ''78''" and ?d' = "example_device None ''77''"
  have "conflict_device_id id ?d \<noteq> conflict_device_id id ?d'"
    by (simp add: conflict_device_id_def example_device_def device_serial_def)
  moreover have "has_serial ?d" "has_serial ?d'"
    by (simp_all add: example_device_def device_serial_def str_strip_def rstrip_by_def is_space_def code_of_def)
  ultimately show ?thesis unfolding observable_def by (simp add: example_world_def)
qed

text \<open>Two USB serial numbers that differ in case give one identity but two connections.\<close>

lemma usb_identities_collide:
  "observed_id (example_device (Some ''FT1'') []) = observed_id (example_device (Some ''ft1'') []) \<and>
   device_key (example_device (Some ''FT1'') []) \<noteq> device_key (example_device (Some ''ft1'') [])"
  by code_simp

section \<open>The properties\<close>

text \<open>C37: Whatever was observed, however devices moved between connections and whichever calls came before, a registration
  succeeds: no statement breaks a constraint of the tables, and the controller's scope is never missing.  The
  identifier and the device it returns belong together: resolving the identifier gives a scope with that device,
  held by the identity that owns the device now.\<close>

theorem registration_succeeds:
  assumes "inj fresh" and "observable sha256 D" and "list_all (event_ok sha256 D) (evs @ [Observe w d])"
    and "run_events fresh evs empty_registry = (g, r)"
  shows "\<exists>g' uid e p. registry_register fresh w d g = (g', Inr (uid, e)) \<and> physical_named uid g' = Some p \<and>
    sp_uid (scope_of p g') = uid \<and> sp_canonical (scope_of p g') = e \<and>
    e \<in> dv_id ` set (rg_devices g') \<and> e \<in> set (sp_history (scope_of p g'))"
proof -
  have evs: "list_all (event_ok sha256 D) evs" using assms(3) by simp
  have ok: "registry_ok sha256 fresh D g" "serials_ok D g" using run_ok(1,3) [OF assms(1,2) evs assms(4)] by (simp_all add: settled_def)
  have d: "d \<in> D" "rw_sha256 w = sha256" using assms(3) by simp_all
  obtain g' uid e cid where r: "registry_register fresh w d g = (g', Inr (uid, e))" "registry_ok sha256 fresh D g'"
    "(uid, e) \<in> set (phys_keys g')" "(cid, e) \<in> owners g'"
    by (rule tripleE [OF register_triple [OF assms(1,2) d] ok]) auto
  obtain p where p: "physical_named uid g' = Some p" "pc_uid p = uid" "pc_canonical p = e"
    using physical_named_iff [OF r(2), of uid uid e] r(3) by blast
  have "e \<in> canonical_ids g'" using r(4) unfolding owners_ids by force
  then have "e \<in> device_ids g'"
    using identities_dest(6) r(2) unfolding registry_ok_def inventory_ok_def canonical_ids_def device_ids_def by blast
  then have "e \<in> dv_id ` set (rg_devices g')" by (simp add: in_device_ids)
  moreover have "sp_uid (scope_of p g') = uid" "sp_canonical (scope_of p g') = e" "e \<in> set (sp_history (scope_of p g'))"
    using p(2,3) by (auto simp: scope_of_def Let_def first_occurrences_def)
  ultimately show ?thesis using r(1) p(1) by blast
qed

theorem registration_succeeds_witness:
  "\<exists>g' uid e p. registry_register example_fresh example_world (example_device None []) empty_registry = (g', Inr (uid, e)) \<and>
    physical_named uid g' = Some p \<and> sp_uid (scope_of p g') = uid \<and> sp_canonical (scope_of p g') = e \<and>
    e \<in> dv_id ` set (rg_devices g') \<and> e \<in> set (sp_history (scope_of p g'))"
  by (rule registration_succeeds [OF example_fresh_inj, of id "{example_device None []}" "[]"])
     (simp_all add: observable_def example_world_def)

text \<open>C38: Identifiers are immutable: what a name resolves to, an identifier or any controller identity ever assigned, has the
  same identifier and the same device after any further calls, in particular after a serial number was read from a
  controller known only by its connection until then.\<close>

theorem identifiers_immutable:
  assumes "inj fresh" and "observable sha256 D" and "list_all (event_ok sha256 D) (evs @ evs')"
    and "run_events fresh evs empty_registry = (g, r)" and "run_events fresh evs' g = (g', r')"
    and "physical_named x g = Some p"
  shows "r' = Inr () \<and> (\<exists>p'. physical_named x g' = Some p' \<and> pc_uid p' = pc_uid p \<and> pc_canonical p' = pc_canonical p)"
proof -
  have evs: "list_all (event_ok sha256 D) evs" using assms(3) by simp
  have ok: "registry_ok sha256 fresh D g" "settled D g" using run_ok(1,3) [OF assms(1,2) evs assms(4)] .
  have evs': "list_all (event_ok sha256 D) evs'" using assms(3) by simp
  have r: "registry_ok sha256 fresh D g'" "grows g g'" "r' = Inr ()"
    using tripleE [OF run_triple [OF assms(1,2) evs'] ok] assms(5) by auto
  have "(pc_uid p, pc_canonical p) \<in> set (phys_keys g) \<and> (x = pc_uid p \<or> (x, pc_uid p) \<in> set (alias_keys g))"
    using physical_named_iff [OF ok(1)] assms(6) by blast
  then have "(pc_uid p, pc_canonical p) \<in> set (phys_keys g') \<and> (x = pc_uid p \<or> (x, pc_uid p) \<in> set (alias_keys g'))"
    using r(2) unfolding grows_def by blast
  then show ?thesis using physical_named_iff [OF r(1)] r(3) by blast
qed

theorem identifiers_immutable_witness:
  "\<exists>g g' uid p p'. run_events example_fresh [Observe example_world (example_device None [])] empty_registry = (g, Inr ()) \<and>
    run_events example_fresh [AllOffline, Observe example_world (example_device None ''77'')] g = (g', Inr ()) \<and>
    physical_named uid g = Some p \<and> physical_named uid g' = Some p' \<and> pc_uid p' = pc_uid p \<and> pc_canonical p' = pc_canonical p"
proof -
  let ?d = "example_device None []" and ?d' = "example_device None ''77''" and ?sha = "rw_sha256 example_world"
  let ?D = "{?d, ?d'}"
  let ?evs = "[Observe example_world ?d]" and ?evs' = "[AllOffline, Observe example_world ?d']"
  have D: "observable ?sha ?D" by (rule example_observable)
  have empty: "serials_ok ?D empty_registry" using empty_settled by (simp add: settled_def)
  obtain g uid e where g: "registry_register example_fresh example_world ?d empty_registry = (g, Inr (uid, e))"
    "registry_ok ?sha example_fresh ?D g" "(uid, e) \<in> set (phys_keys g)"
    by (rule tripleE [OF register_triple [OF example_fresh_inj D, of ?d example_world] empty_ok empty]) auto
  obtain p where p: "physical_named uid g = Some p" using physical_named_iff [OF g(2), of uid uid e] g(3) by blast
  have run: "run_events example_fresh ?evs empty_registry = (g, Inr ())" using g(1) by (simp add: call_then_def)
  obtain g' r' where g': "run_events example_fresh ?evs' g = (g', r')" by fastforce
  have events: "list_all (event_ok ?sha ?D) (?evs @ ?evs')" by simp
  show ?thesis using identifiers_immutable [OF example_fresh_inj D events run g' p] run g' p by blast
qed

text \<open>C39: After every call the registry is one to one: identities and physical controllers have distinct names, the physical
  controllers have exactly the devices of the identities, every identity's device exists, and every identity's name resolves
  to the physical controller of its own device, which knows that identity as its current one; so two identities never share
  an identifier.  Devices with different serial numbers, lower case and without blanks around, are told apart for ever: their
  registrations return different identifiers and different devices, whatever happens between them, if no profile name has
  a colon.\<close>

theorem registry_one_to_one:
  assumes "inj fresh" and "observable sha256 D" and "list_all (event_ok sha256 D) evs" and "run_events fresh evs empty_registry = (g, r)"
  shows "one_to_one g \<and>
    (\<forall>w d evs' w' d' g1 uid e g2 r2 g3 uid' e'.
      (\<forall>x \<in> D. plain_profile x) \<longrightarrow> list_all (event_ok sha256 D) (Observe w d # evs' @ [Observe w' d']) \<longrightarrow>
      registry_register fresh w d g = (g1, Inr (uid, e)) \<longrightarrow> run_events fresh evs' g1 = (g2, r2) \<longrightarrow>
      registry_register fresh w' d' g2 = (g3, Inr (uid', e')) \<longrightarrow>
      serial_of d \<noteq> [] \<longrightarrow> serial_of d' \<noteq> [] \<longrightarrow> str_lower (serial_of d) \<noteq> str_lower (serial_of d') \<longrightarrow>
      uid \<noteq> uid' \<and> e \<noteq> e')"
proof (intro conjI allI impI)
  have ok: "registry_ok sha256 fresh D g" "settled D g" using run_ok(1,3) [OF assms] .
  show "one_to_one g" by (rule settled_one_to_one [OF ok])
  fix w d evs' w' d' g1 uid e g2 r2 g3 uid' e'
  assume plain: "\<forall>x \<in> D. plain_profile x" and evs: "list_all (event_ok sha256 D) (Observe w d # evs' @ [Observe w' d'])"
    and run: "registry_register fresh w d g = (g1, Inr (uid, e))" "run_events fresh evs' g1 = (g2, r2)"
      "registry_register fresh w' d' g2 = (g3, Inr (uid', e'))"
    and serials: "serial_of d \<noteq> []" "serial_of d' \<noteq> []" "str_lower (serial_of d) \<noteq> str_lower (serial_of d')"
  have D: "d \<in> D" "rw_sha256 w = sha256" "d' \<in> D" "rw_sha256 w' = sha256" "list_all (event_ok sha256 D) evs'" using evs by simp_all
  have 0: "serials_ok D g" using ok(2) by (simp add: settled_def)
  obtain cid where 1: "registry_ok sha256 fresh D g1" "settled D g1" "(uid, e) \<in> set (phys_keys g1)"
    "(cid, uid) \<in> set (alias_keys g1)" "named_after D d cid"
    by (rule tripleE [OF register_triple [OF assms(1,2) D(1,2)] ok(1) 0]) (use run(1) in auto)
  have 2: "registry_ok sha256 fresh D g2" "settled D g2" "grows g1 g2"
    using tripleE [OF run_triple [OF assms(1,2) D(5)] 1(1,2)] run(2) by auto
  have 3: "serials_ok D g2" using 2(2) by (simp add: settled_def)
  obtain cid' where 4: "registry_ok sha256 fresh D g3" "grows g2 g3" "(uid', e') \<in> set (phys_keys g3)"
    "(cid', uid') \<in> set (alias_keys g3)" "named_after D d' cid'"
    by (rule tripleE [OF register_triple [OF assms(1,2) D(3,4)] 2(1) 3]) (use run(3) in auto)
  have old: "(uid, e) \<in> set (phys_keys g3)" "(cid, uid) \<in> set (alias_keys g3)"
    using 1(3,4) grows_trans [OF 2(3) 4(2)] unfolding grows_def by blast+
  have names: "names_serial cid (serial_of d)" "names_serial cid' (serial_of d')"
    using 1(5) 4(5) plain serials(1,2) by (simp_all add: named_after_def)
  show "uid \<noteq> uid'" "e \<noteq> e'"
    using serials_apart [OF 4(1) old(2) names(1) 4(4) names(2) old(1) 4(3) serials(3)] by blast+
qed

theorem registry_one_to_one_witness:
  "one_to_one empty_registry \<and> (\<exists>g1 uid e g2 g3 uid' e'.
    registry_register example_fresh example_world (example_device None ''78'') empty_registry = (g1, Inr (uid, e)) \<and>
    run_events example_fresh [AllOffline] g1 = (g2, Inr ()) \<and>
    registry_register example_fresh example_world (example_device None ''77'') g2 = (g3, Inr (uid', e')) \<and> uid \<noteq> uid' \<and> e \<noteq> e')"
proof -
  let ?d = "example_device None ''78''" and ?d' = "example_device None ''77''" and ?sha = "rw_sha256 example_world"
  let ?D = "{?d, ?d'}"
  have D: "observable ?sha ?D" by (rule example_serials_observable)
  have serials: "serial_of ?d = ''78''" "serial_of ?d' = ''77''"
    by (simp_all add: example_device_def device_serial_def) (simp_all add: str_strip_def rstrip_by_def is_space_def code_of_def)
  have plain: "\<forall>x \<in> ?D. plain_profile x" by (simp add: plain_profile_def example_device_def) code_simp
  have empty: "serials_ok ?D empty_registry" using empty_settled by (simp add: settled_def)
  obtain g1 uid e where g1: "registry_register example_fresh example_world ?d empty_registry = (g1, Inr (uid, e))"
    "registry_ok ?sha example_fresh ?D g1" "settled ?D g1"
    by (rule tripleE [OF register_triple [OF example_fresh_inj D, of ?d example_world] empty_ok empty]) auto
  obtain g2 where g2: "run_events example_fresh [AllOffline] g1 = (g2, Inr ())" "registry_ok ?sha example_fresh ?D g2" "settled ?D g2"
    by (rule tripleE [OF run_triple [OF example_fresh_inj D, of "[AllOffline]"] g1(2,3)]) auto
  have s2: "serials_ok ?D g2" using g2(3) by (simp add: settled_def)
  obtain g3 uid' e' where g3: "registry_register example_fresh example_world ?d' g2 = (g3, Inr (uid', e'))"
    by (rule tripleE [OF register_triple [OF example_fresh_inj D, of ?d' example_world] g2(2) s2]) auto
  have events: "list_all (event_ok ?sha ?D) (Observe example_world ?d # [AllOffline] @ [Observe example_world ?d'])" by simp
  have start: "list_all (event_ok ?sha ?D) []" "run_events example_fresh [] empty_registry = (empty_registry, Inr ())" by simp_all
  have differ: "serial_of ?d \<noteq> []" "serial_of ?d' \<noteq> []" "str_lower (serial_of ?d) \<noteq> str_lower (serial_of ?d')"
    unfolding serials by (simp_all, code_simp)
  note both = registry_one_to_one [OF example_fresh_inj D start]
  have "uid \<noteq> uid' \<and> e \<noteq> e'"
    by (rule both [THEN conjunct2, rule_format, OF _ events g1(1) g2(1) g3 differ]) (use plain in blast)
  then show ?thesis using both [THEN conjunct1] g1(1) g2(1) g3 by blast
qed

end
