(* ===== verification/Storage_Tiers.thy ===== *)
theory Storage_Tiers
  imports Sql_Table Py_Order "HOL-Library.AList" "HOL-Library.Signed_Division"
begin

text \<open>
  \<open>persistence/storage_v2.py\<close>: rollups and state runs of the raw telemetry, archives of whole days, and the
  deletion of what was archived.  A file of the archive is the list of the rows written to it; its path is
  named after the day, and is that day here.  SQLite's \<open>AVG\<close>, pyarrow and the file system are parameters, and so
  is the clock: its readings during one run are one instant, in milliseconds.  The pragmas that shrink the database file, and the sizes of files, are not modelled.
\<close>

section \<open>The tables\<close>

record raw_sample =
  sm_id :: nat
  sm_device :: string
  sm_at :: int
  sm_latency :: pyfloat
  sm_profile :: string

record stored_value =
  vl_sample :: nat
  vl_name :: string
  vl_address :: int
  vl_function :: string
  vl_raw :: "int list"
  vl_numeric :: "pyfloat option"
  vl_text :: "string option"
  vl_unit :: "string option"

type_synonym raw_row = "raw_sample \<times> stored_value"

type_synonym register_name = "string \<times> int \<times> string \<times> string"

record rollup =
  ru_device :: string
  ru_register :: nat
  ru_bucket_seconds :: int
  ru_bucket_start :: int
  ru_is_text :: bool
  ru_count :: nat
  ru_min :: "pyfloat option"
  ru_max :: "pyfloat option"
  ru_avg :: "pyfloat option"
  ru_first_numeric :: "pyfloat option"
  ru_last_numeric :: "pyfloat option"
  ru_first_text :: "string option"
  ru_last_text :: "string option"
  ru_transitions :: nat

abbreviation ru_key :: "rollup \<Rightarrow> string \<times> nat \<times> int \<times> int" where
  "ru_key r \<equiv> (ru_device r, ru_register r, ru_bucket_seconds r, ru_bucket_start r)"

record state_run =
  sr_device :: string
  sr_register :: nat
  sr_started :: int
  sr_ended :: int
  sr_value :: string
  sr_count :: nat

abbreviation sr_key :: "state_run \<Rightarrow> string \<times> nat \<times> int" where
  "sr_key r \<equiv> (sr_device r, sr_register r, sr_started r)"

record archive_entry =
  ar_start :: int
  ar_end :: int
  ar_path :: int
  ar_rows :: nat
  ar_verified :: bool

record maintenance_run =
  mr_started :: int
  mr_finished :: "int option"

record storage_db =
  sg_samples :: "raw_sample list"
  sg_values :: "stored_value list"
  sg_dictionary :: "(nat \<times> register_name) list"
  sg_rollups :: "rollup list"
  sg_runs :: "state_run list"
  sg_archives :: "archive_entry list"
  sg_files :: "(int \<times> raw_row list) list"
  sg_maintenance :: "maintenance_run list"

datatype storage_error = StorageValueError string | StorageIntegrityError | StorageRuntimeError string | StorageArchiveError

type_synonym 'a storage_call = "storage_db \<Rightarrow> storage_db \<times> (storage_error + 'a)"

definition storage_then :: "'a storage_call \<Rightarrow> ('a \<Rightarrow> 'b storage_call) \<Rightarrow> 'b storage_call" where
  "storage_then m f g = (case m g of (g', Inl e) \<Rightarrow> (g', Inl e) | (g', Inr x) \<Rightarrow> f x g')"

section \<open>The register dictionary\<close>

definition dictionary_register :: "stored_value \<Rightarrow> register_name" where
  "dictionary_register v = (vl_name v, vl_address v, vl_function v, case vl_unit v of None \<Rightarrow> [] | Some u \<Rightarrow> u)"

definition add_register :: "register_name \<Rightarrow> (nat \<times> register_name) list \<Rightarrow> (nat \<times> register_name) list" where
  "add_register r t = (if r \<in> snd ` set t then t else t @ [(Suc (fold max (map fst t) 0), r)])"

definition refresh_register_dictionary :: "nat storage_call" where
  "refresh_register_dictionary g =
    (let t = fold add_register (map dictionary_register (sg_values g)) (sg_dictionary g) in
     (g\<lparr>sg_dictionary := t\<rparr>, Inr (length t - length (sg_dictionary g))))"

definition register_key :: "(nat \<times> register_name) list \<Rightarrow> stored_value \<Rightarrow> nat option" where
  "register_key t v = map_option fst (List.find (\<lambda>e. snd e = dictionary_register v) t)"

section \<open>Series\<close>

text \<open>One value of a series: its device and register, when and in which sample it was observed, and the value.\<close>

record 'v point =
  pt_device :: string
  pt_register :: nat
  pt_at :: int
  pt_sample :: nat
  pt_value :: 'v

definition joined_rows :: "storage_db \<Rightarrow> raw_row list" where
  "joined_rows g = concat (map (\<lambda>s. map (Pair s) (filter (\<lambda>v. vl_sample v = sm_id s) (sg_values g))) (sg_samples g))"

definition series_points :: "(stored_value \<Rightarrow> 'v option) \<Rightarrow> int \<Rightarrow> storage_db \<Rightarrow> 'v point list" where
  "series_points value_of cutoff g = List.map_filter (\<lambda>(s, v).
     case (register_key (sg_dictionary g) v, value_of v) of
       (Some k, Some x) \<Rightarrow>
         (if sm_at s < cutoff
          then Some \<lparr>pt_device = sm_device s, pt_register = k, pt_at = sm_at s, pt_sample = sm_id s, pt_value = x\<rparr> else None)
     | _ \<Rightarrow> None) (joined_rows g)"

definition in_order :: "('v, 'a) point_scheme list \<Rightarrow> ('v, 'a) point_scheme list" where
  "in_order ps = sort_key (\<lambda>p. (pt_at p, pt_sample p)) ps"

text \<open>\<open>GROUP BY\<close>\<close>

definition groups :: "('p \<Rightarrow> 'k) \<Rightarrow> 'p list \<Rightarrow> ('k \<times> 'p list) list" where
  "groups key ps = map (\<lambda>k. (k, filter (\<lambda>p. key p = k) ps)) (remdups (map key ps))"

text \<open>\<open>(observed_at_ms / ?) * ?\<close>: integer division of SQLite truncates.\<close>

definition bucket_start :: "int \<Rightarrow> int \<Rightarrow> int" where
  "bucket_start bucket_ms at_ms = (at_ms sdiv bucket_ms) * bucket_ms"

definition bucket_key :: "int \<Rightarrow> ('v, 'a) point_scheme \<Rightarrow> string \<times> nat \<times> int" where
  "bucket_key bucket_ms p = (pt_device p, pt_register p, bucket_start bucket_ms (pt_at p))"

section \<open>Rollups\<close>

definition numeric_rollup ::
  "(pyfloat list \<Rightarrow> pyfloat) \<Rightarrow> int \<Rightarrow> (string \<times> nat \<times> int) \<times> pyfloat point list \<Rightarrow> rollup" where
  "numeric_rollup sql_avg bucket_seconds gr = (case gr of ((device, register, start), ps) \<Rightarrow>
     let xs = map pt_value (in_order ps) in
     \<lparr>ru_device = device, ru_register = register, ru_bucket_seconds = bucket_seconds, ru_bucket_start = start,
      ru_is_text = False, ru_count = length xs, ru_min = Some (fold fmin (tl xs) (hd xs)),
      ru_max = Some (fold fmax (tl xs) (hd xs)), ru_avg = Some (sql_avg (map pt_value ps)),
      ru_first_numeric = Some (hd xs), ru_last_numeric = Some (last xs),
      ru_first_text = None, ru_last_text = None, ru_transitions = 0\<rparr>)"

text \<open>\<open>LAG(text_value) OVER (PARTITION BY device_id, register_key ORDER BY ...)\<close>\<close>

record 'v lagged = "'v point" +
  pt_previous :: "'v option"

definition lag_series :: "'v point list \<Rightarrow> 'v lagged list" where
  "lag_series ps = (let xs = in_order ps in
     map (\<lambda>(previous, p). point.extend p \<lparr>pt_previous = previous\<rparr>) (zip (None # map (\<lambda>p. Some (pt_value p)) xs) xs))"

definition lagged_points :: "'v point list \<Rightarrow> 'v lagged list" where
  "lagged_points ps = concat (map (\<lambda>gr. lag_series (snd gr)) (groups (\<lambda>p. (pt_device p, pt_register p)) ps))"

definition is_transition :: "'v lagged \<Rightarrow> bool" where
  "is_transition p \<longleftrightarrow> (case pt_previous p of None \<Rightarrow> False | Some v \<Rightarrow> v \<noteq> pt_value p)"

definition text_rollup :: "int \<Rightarrow> (string \<times> nat \<times> int) \<times> string lagged list \<Rightarrow> rollup" where
  "text_rollup bucket_seconds gr = (case gr of ((device, register, start), ps) \<Rightarrow>
     let xs = map pt_value (in_order ps) in
     \<lparr>ru_device = device, ru_register = register, ru_bucket_seconds = bucket_seconds, ru_bucket_start = start,
      ru_is_text = True, ru_count = length xs, ru_min = None, ru_max = None, ru_avg = None,
      ru_first_numeric = None, ru_last_numeric = None, ru_first_text = Some (hd xs), ru_last_text = Some (last xs),
      ru_transitions = length (filter is_transition ps)\<rparr>)"

definition numeric_rollups :: "(pyfloat list \<Rightarrow> pyfloat) \<Rightarrow> int \<Rightarrow> int \<Rightarrow> storage_db \<Rightarrow> rollup list" where
  "numeric_rollups sql_avg cutoff bucket_seconds g =
    map (numeric_rollup sql_avg bucket_seconds) (groups (bucket_key (bucket_seconds * 1000)) (series_points vl_numeric cutoff g))"

definition text_rollups :: "int \<Rightarrow> int \<Rightarrow> storage_db \<Rightarrow> rollup list" where
  "text_rollups cutoff bucket_seconds g =
    map (text_rollup bucket_seconds) (groups (bucket_key (bucket_seconds * 1000)) (lagged_points (series_points vl_text cutoff g)))"

definition stale_rollup :: "int \<Rightarrow> int \<Rightarrow> rollup \<Rightarrow> bool" where
  "stale_rollup cutoff bucket_seconds r \<longleftrightarrow> ru_bucket_seconds r = bucket_seconds \<and> ru_bucket_start r < cutoff"

text \<open>The dictionary is committed first; the rest is one transaction.\<close>

definition build_rollups :: "(pyfloat list \<Rightarrow> pyfloat) \<Rightarrow> int \<Rightarrow> int \<Rightarrow> nat storage_call" where
  "build_rollups sql_avg cutoff bucket_seconds g =
    (if bucket_seconds < 1 then (g, Inl (StorageValueError ''bucket_seconds must be positive''))
     else storage_then refresh_register_dictionary (\<lambda>_ g.
       let kept = filter (\<lambda>r. \<not> stale_rollup cutoff bucket_seconds r) (sg_rollups g);
           ns = numeric_rollups sql_avg cutoff bucket_seconds g; ts = text_rollups cutoff bucket_seconds g in
       case sbind (checked ru_key (kept @ ns)) (\<lambda>t. checked ru_key (t @ ts)) of
         Inl e \<Rightarrow> (g, Inl StorageIntegrityError)
       | Inr t \<Rightarrow> (g\<lparr>sg_rollups := t\<rparr>, Inr (length ns + length ts))) g)"

section \<open>State runs\<close>

text \<open>\<open>SUM(changed) OVER (... ORDER BY observed_at_ms)\<close>: rows of one instant share the sum.\<close>

definition state_changed :: "string lagged \<Rightarrow> bool" where
  "state_changed p \<longleftrightarrow> pt_previous p \<noteq> Some (pt_value p)"

definition run_id :: "string lagged list \<Rightarrow> string lagged \<Rightarrow> nat" where
  "run_id series p = length (filter (\<lambda>q. state_changed q \<and> pt_at q \<le> pt_at p) series)"

definition run_of :: "string lagged list \<Rightarrow> state_run" where
  "run_of ps = \<lparr>sr_device = pt_device (hd ps), sr_register = pt_register (hd ps), sr_started = Min (set (map pt_at ps)),
     sr_ended = Max (set (map pt_at ps)), sr_value = Max (set (map pt_value ps)), sr_count = length ps\<rparr>"

definition series_runs :: "string point list \<Rightarrow> state_run list" where
  "series_runs ps = (let xs = lag_series ps in map (\<lambda>gr. run_of (snd gr)) (groups (run_id xs) xs))"

definition state_runs :: "int \<Rightarrow> storage_db \<Rightarrow> state_run list" where
  "state_runs cutoff g =
    concat (map (\<lambda>gr. series_runs (snd gr)) (groups (\<lambda>p. (pt_device p, pt_register p)) (series_points vl_text cutoff g)))"

definition build_state_runs :: "int \<Rightarrow> nat storage_call" where
  "build_state_runs cutoff = storage_then refresh_register_dictionary (\<lambda>_ g.
     let runs = state_runs cutoff g in
     case checked sr_key (filter (\<lambda>r. \<not> sr_started r < cutoff) (sg_runs g) @ runs) of
       Inl e \<Rightarrow> (g, Inl StorageIntegrityError)
     | Inr t \<Rightarrow> (g\<lparr>sg_runs := t\<rparr>, Inr (length runs)))"

section \<open>Archives\<close>

abbreviation day_ms :: int where
  "day_ms \<equiv> 86400000"

definition archive_rows :: "int \<Rightarrow> int \<Rightarrow> storage_db \<Rightarrow> raw_row list" where
  "archive_rows start_ms end_ms g = sort_key (\<lambda>(s, v). (sm_at s, sm_id s, vl_address v, vl_name v))
     (filter (\<lambda>(s, v). start_ms \<le> sm_at s \<and> sm_at s < end_ms) (joined_rows g))"

definition merge_archive :: "archive_entry \<Rightarrow> archive_entry \<Rightarrow> archive_entry" where
  "merge_archive old row = old\<lparr>ar_rows := ar_rows row, ar_verified := ar_verified row\<rparr>"

text \<open>
  What the archive uses of pyarrow and of the file system; every field but the schema says whether a call succeeds.  A table
  made of a batch of rows has the schema that its values suggest (\<open>None\<close> when it cannot be made), and a writer has the
  schema of the first one.  \<open>pq_intact\<close> compares the hash of a day's file in its place with the one before.
\<close>

record parquet =
  pq_installed :: bool
  pq_prepare :: "int \<Rightarrow> bool"
  pq_table :: "raw_row list \<Rightarrow> string option"
  pq_open :: "int \<Rightarrow> string \<Rightarrow> bool"
  pq_write :: "string \<Rightarrow> string \<Rightarrow> raw_row list \<Rightarrow> bool"
  pq_close :: "int \<Rightarrow> bool"
  pq_place :: "int \<Rightarrow> bool"
  pq_intact :: "int \<Rightarrow> bool option"

function batches :: "nat \<Rightarrow> 'a list \<Rightarrow> 'a list list" where
  "batches n xs = (if xs = [] then [] else take (max 100 n) xs # batches n (drop (max 100 n) xs))"
  by pat_completeness auto

termination batches
  by (relation "measure (\<lambda>(n, xs). length xs)") auto

declare batches.simps [simp del]

text \<open>The writer, \<open>None\<close> before the first batch, is its schema.\<close>

fun write_batches :: "parquet \<Rightarrow> int \<Rightarrow> string option \<Rightarrow> raw_row list list \<Rightarrow> bool" where
  "write_batches pq path w [] \<longleftrightarrow> w = None \<or> pq_close pq path"
| "write_batches pq path w (b # bs) \<longleftrightarrow>
    (case pq_table pq b of
       None \<Rightarrow> False
     | Some s \<Rightarrow>
         (let (opened, w) = (case w of None \<Rightarrow> (pq_open pq path s, s) | Some t \<Rightarrow> (True, t)) in
          opened \<and> pq_write pq w s b \<and> write_batches pq path (Some w) bs))"

text \<open>A failed call raises and removes the unfinished file; only after a file was put in its place there is something left.\<close>

definition write_range :: "parquet \<Rightarrow> nat \<Rightarrow> int \<Rightarrow> int \<Rightarrow> nat storage_call" where
  "write_range pq k start_ms end_ms g =
    (let rows = archive_rows start_ms end_ms g; path = start_ms div day_ms in
     if \<not> (pq_prepare pq path \<and> write_batches pq path None (batches k rows)) then (g, Inl StorageArchiveError)
     else if rows = [] then (g, Inr 0)
     else if \<not> pq_place pq path then (g, Inl StorageArchiveError)
     else
       let g = g\<lparr>sg_files := AList.update path rows (sg_files g)\<rparr> in
       case pq_intact pq path of
         None \<Rightarrow> (g, Inl StorageArchiveError)
       | Some verified \<Rightarrow>
           let g = g\<lparr>sg_archives := upsert ar_path merge_archive
               \<lparr>ar_start = start_ms, ar_end = end_ms, ar_path = path, ar_rows = length rows, ar_verified = verified\<rparr>
               (sg_archives g)\<rparr> in
           if verified then (g, Inr (length rows)) else (g, Inl (StorageRuntimeError ''archive verification failed'')))"

definition archive_range :: "parquet \<Rightarrow> nat \<Rightarrow> int \<Rightarrow> int \<Rightarrow> nat storage_call" where
  "archive_range pq k start_ms end_ms g =
    (case List.find (\<lambda>a. ar_start a = start_ms \<and> ar_end a = end_ms) (sg_archives g) of
       Some a \<Rightarrow> if ar_verified a then (g, Inr 0) else write_range pq k start_ms end_ms g
     | None \<Rightarrow> write_range pq k start_ms end_ms g)"

text \<open>The days one after the other, up to the last one with a sample before the cutoff.\<close>

function archive_days :: "parquet \<Rightarrow> nat \<Rightarrow> int \<Rightarrow> int \<Rightarrow> int \<Rightarrow> nat storage_call" where
  "archive_days pq k cutoff day last_day g =
    (if last_day < day then (g, Inr 0)
     else
       let start_ms = day * day_ms; end_ms = min ((day + 1) * day_ms) cutoff in
       storage_then (\<lambda>g. if start_ms < end_ms then archive_range pq k start_ms end_ms g else (g, Inr 0)) (\<lambda>n.
         storage_then (archive_days pq k cutoff (day + 1) last_day) (\<lambda>m g. (g, Inr (n + m)))) g)"
  by pat_completeness auto

termination archive_days
  by (relation "measure (\<lambda>(pq, k, cutoff, day, last_day, g). nat (last_day + 1 - day))") auto

declare archive_days.simps [simp del]

definition archive_before :: "parquet \<Rightarrow> nat \<Rightarrow> int \<Rightarrow> nat storage_call" where
  "archive_before pq k cutoff g =
    (if \<not> pq_installed pq then (g, Inl (StorageRuntimeError ''Parquet archival requires the storage extra'')) else
     let times = filter (\<lambda>t. t < cutoff) (map sm_at (sg_samples g)) in
     if times = [] then (g, Inr 0)
     else archive_days pq k cutoff (Min (set times) div day_ms) (Max (set times) div day_ms) g)"

text \<open>The values of a sample are deleted with it.\<close>

definition prune_range :: "int \<times> int \<Rightarrow> storage_db \<Rightarrow> storage_db \<times> nat" where
  "prune_range bounds g =
    (let gone = filter (\<lambda>s. fst bounds \<le> sm_at s \<and> sm_at s < snd bounds) (sg_samples g) in
     (g\<lparr>sg_samples := filter (\<lambda>s. \<not> (fst bounds \<le> sm_at s \<and> sm_at s < snd bounds)) (sg_samples g),
        sg_values := filter (\<lambda>v. vl_sample v \<notin> sm_id ` set gone) (sg_values g)\<rparr>, length gone))"

definition prune_verified_archives :: "int \<Rightarrow> nat storage_call" where
  "prune_verified_archives cutoff g =
    (let ranges = map (\<lambda>a. (ar_start a, ar_end a))
           (sort_key ar_start (filter (\<lambda>a. ar_verified a \<and> ar_end a \<le> cutoff) (sg_archives g)));
         (g', deleted) = fold (\<lambda>bounds (g, n). let (g', k) = prune_range bounds g in (g', n + k)) ranges (g, 0) in
     (g', Inr deleted))"

section \<open>Maintenance\<close>

record retention =
  rt_hot_days :: int
  rt_warm_days :: int
  rt_cool_days :: int
  rt_warm_bucket_seconds :: int
  rt_cool_bucket_seconds :: int
  rt_cold_bucket_seconds :: int
  rt_batch_rows :: int
  rt_prune :: bool

definition cutoff_ms :: "int \<Rightarrow> int \<Rightarrow> int" where
  "cutoff_ms now_ms days = now_ms - days * day_ms"

definition maintain :: "(pyfloat list \<Rightarrow> pyfloat) \<Rightarrow> parquet \<Rightarrow> int \<Rightarrow> retention \<Rightarrow> unit storage_call" where
  "maintain sql_avg pq now_ms rt g =
    (if \<not> (1 \<le> rt_hot_days rt \<and> rt_hot_days rt \<le> rt_warm_days rt \<and> rt_warm_days rt \<le> rt_cool_days rt)
     then (g, Inl (StorageValueError ''retention tiers must satisfy hot_days <= warm_days <= cool_days''))
     else
       let hot = cutoff_ms now_ms (rt_hot_days rt); warm = cutoff_ms now_ms (rt_warm_days rt);
           cool = cutoff_ms now_ms (rt_cool_days rt); n = length (sg_maintenance g) in
       storage_then refresh_register_dictionary (\<lambda>_.
       storage_then (\<lambda>g. (g\<lparr>sg_maintenance := sg_maintenance g @ [\<lparr>mr_started = now_ms, mr_finished = None\<rparr>]\<rparr>, Inr ())) (\<lambda>_.
       storage_then refresh_register_dictionary (\<lambda>_.
       storage_then (build_rollups sql_avg hot (rt_warm_bucket_seconds rt)) (\<lambda>_.
       storage_then (build_rollups sql_avg warm (rt_cool_bucket_seconds rt)) (\<lambda>_.
       storage_then (build_rollups sql_avg cool (rt_cold_bucket_seconds rt)) (\<lambda>_.
       storage_then (build_state_runs hot) (\<lambda>_.
       storage_then (archive_before pq (nat (rt_batch_rows rt)) hot) (\<lambda>_.
       storage_then (\<lambda>g. if rt_prune rt then prune_verified_archives hot g else (g, Inr 0)) (\<lambda>_ g.
         (g\<lparr>sg_maintenance := (sg_maintenance g)[n := (sg_maintenance g ! n)\<lparr>mr_finished := Some now_ms\<rparr>]\<rparr>, Inr ())))))))))) g)"

end
