(* ===== verification/Storage_Facts.thy ===== *)
theory Storage_Facts
  imports Storage_Tiers
begin

text \<open>
  What maintenance keeps and what it loses.  Archives of whole days are lossless over any number of runs; an archive
  of part of a day is replaced when the rest of the day is archived; rollups are rebuilt from what raw rows are
  left.
\<close>

section \<open>Rows\<close>

definition row_at :: "raw_row \<Rightarrow> int" where
  "row_at r = sm_at (fst r)"

lemma joined_rows_iff: "(s, v) \<in> set (joined_rows g) \<longleftrightarrow> s \<in> set (sg_samples g) \<and> v \<in> set (sg_values g) \<and> vl_sample v = sm_id s"
  by (auto simp: joined_rows_def)

lemma archive_rows_iff: "r \<in> set (archive_rows a b g) \<longleftrightarrow> r \<in> set (joined_rows g) \<and> a \<le> row_at r \<and> row_at r < b"
  by (auto simp: archive_rows_def row_at_def)

definition file_of :: "storage_db \<Rightarrow> int \<Rightarrow> raw_row set" where
  "file_of g path = (case map_of (sg_files g) path of None \<Rightarrow> {} | Some rows \<Rightarrow> set rows)"

definition archived :: "storage_db \<Rightarrow> raw_row set" where
  "archived g = (\<Union>path. file_of g path)"

text \<open>Everything that is still known, in the database or in a file.\<close>

definition known_rows :: "storage_db \<Rightarrow> raw_row set" where
  "known_rows g = set (joined_rows g) \<union> archived g"

definition same_raw :: "storage_db \<Rightarrow> storage_db \<Rightarrow> bool" where
  "same_raw g g' \<longleftrightarrow> sg_samples g' = sg_samples g \<and> sg_values g' = sg_values g \<and> sg_archives g' = sg_archives g \<and>
     sg_files g' = sg_files g"

text \<open>Archives and their files: every file is that of a whole day, verified, and has every row of its day that is left.\<close>

definition archive_ok :: "storage_db \<Rightarrow> bool" where
  "archive_ok g \<longleftrightarrow>
    distinct (map ar_path (sg_archives g)) \<and> distinct (map sm_id (sg_samples g)) \<and>
    (\<forall>a \<in> set (sg_archives g). ar_verified a \<and> ar_start a = ar_path a * day_ms \<and> ar_end a = (ar_path a + 1) * day_ms \<and>
       (\<forall>r \<in> set (joined_rows g). ar_start a \<le> row_at r \<and> row_at r < ar_end a \<longrightarrow> r \<in> file_of g (ar_path a))) \<and>
    fst ` set (sg_files g) \<subseteq> ar_path ` set (sg_archives g)"

interpretation archives: keyed_table ar_path merge_archive
  by unfold_locales (simp add: merge_archive_def)

lemma file_update: "file_of (g\<lparr>sg_files := AList.update path rows (sg_files g), sg_archives := t\<rparr>) path' =
    (if path' = path then set rows else file_of g path')"
  by (simp add: file_of_def update_conv')

section \<open>Archiving whole days\<close>

lemma in_day: "d * day_ms \<le> t \<and> t < (d + 1) * day_ms \<longleftrightarrow> t div day_ms = d"
  by (auto simp: field_simps)

lemma known_rows_same: "B \<subseteq> J \<union> A \<Longrightarrow> A \<subseteq> B \<Longrightarrow> J \<union> B = J \<union> A"
  by blast

text \<open>The rows of each day, as far as they are in the database, can be written to one file.\<close>

definition archivable :: "parquet \<Rightarrow> nat \<Rightarrow> storage_db \<Rightarrow> bool" where
  "archivable pq k g \<longleftrightarrow> (\<forall>day. pq_prepare pq day \<and>
     write_batches pq day None (batches k (archive_rows (day * day_ms) ((day + 1) * day_ms) g)) \<and>
     pq_place pq day \<and> pq_intact pq day = Some True)"

lemma archivable_same: "sg_samples g' = sg_samples g \<Longrightarrow> sg_values g' = sg_values g \<Longrightarrow> archivable pq k g' = archivable pq k g"
  by (simp add: archivable_def archive_rows_def joined_rows_def)

lemma write_day:
  assumes "archivable pq k g"
  shows "write_range pq k (d * day_ms) ((d + 1) * day_ms) g =
    (let rows = archive_rows (d * day_ms) ((d + 1) * day_ms) g in
     if rows = [] then (g, Inr 0)
     else (g\<lparr>sg_files := AList.update d rows (sg_files g), sg_archives := upsert ar_path merge_archive
         \<lparr>ar_start = d * day_ms, ar_end = (d + 1) * day_ms, ar_path = d, ar_rows = length rows, ar_verified = True\<rparr> (sg_archives g)\<rparr>,
       Inr (length rows)))"
proof -
  have "pq_prepare pq d" "write_batches pq d None (batches k (archive_rows (d * day_ms) ((d + 1) * day_ms) g))"
    "pq_place pq d" "pq_intact pq d = Some True"
    using assms unfolding archivable_def by blast+
  then show ?thesis by (simp add: write_range_def Let_def)
qed

text \<open>A writer that takes only tables of its own schema fails when two batches of a day suggest different ones, as a
  column does that is empty in one of them.\<close>

lemma mixed_batches_fail:
  assumes "\<And>w s b. pq_write pq w s b \<Longrightarrow> w = s" and "b \<in> set bs" "b' \<in> set bs" "pq_table pq b \<noteq> pq_table pq b'"
  shows "\<not> write_batches pq path None bs"
proof -
  have some: "\<forall>b \<in> set bs. pq_table pq b = Some w" if "write_batches pq path (Some w) bs" for w bs
    using that assms(1) by (induction bs) (auto split: option.splits)
  show ?thesis
  proof
    assume "write_batches pq path None bs"
    moreover obtain c cs where bs: "bs = c # cs" using assms(2) by (cases bs) auto
    ultimately obtain s where s: "pq_table pq c = Some s" "write_batches pq path (Some s) cs" by (auto split: option.splits)
    then have "\<forall>b \<in> set bs. pq_table pq b = Some s" using some bs by auto
    then show False using assms(2-4) by simp
  qed
qed

lemma archive_day:
  assumes ok: "archive_ok g" and works: "archivable pq k g"
  obtains g' n where "archive_range pq k (d * day_ms) ((d + 1) * day_ms) g = (g', Inr n)" and "archive_ok g'"
    and "sg_samples g' = sg_samples g" and "sg_values g' = sg_values g" and "known_rows g' = known_rows g"
    and "ar_path ` set (sg_archives g) \<subseteq> ar_path ` set (sg_archives g')"
    and "\<And>r. r \<in> set (joined_rows g) \<Longrightarrow> row_at r div day_ms = d \<Longrightarrow> d \<in> ar_path ` set (sg_archives g')"
proof -
  note inv = ok [unfolded archive_ok_def]
  let ?start = "d * day_ms" and ?stop = "(d + 1) * day_ms"
  show ?thesis
  proof (cases "d \<in> ar_path ` set (sg_archives g)")
    case True
    then obtain a where a: "a \<in> set (sg_archives g)" "ar_path a = d" by auto
    then have "ar_start a = ?start \<and> ar_end a = ?stop" using inv by auto
    then have "List.find (\<lambda>a. ar_start a = ?start \<and> ar_end a = ?stop) (sg_archives g) \<noteq> None"
      using a(1) unfolding find_None_iff by blast
    then obtain b where b: "List.find (\<lambda>a. ar_start a = ?start \<and> ar_end a = ?stop) (sg_archives g) = Some b" by blast
    then have "b \<in> set (sg_archives g)" by (auto simp: find_Some_iff)
    then have "ar_verified b" using inv by blast
    then have "archive_range pq k ?start ?stop g = (g, Inr 0)" using b by (simp add: archive_range_def)
    then show ?thesis using that [of g 0] ok True by simp
  next
    case False
    have none: "List.find (\<lambda>a. ar_start a = ?start \<and> ar_end a = ?stop) (sg_archives g) = None"
    proof -
      have "\<not> (ar_start a = ?start \<and> ar_end a = ?stop)" if "a \<in> set (sg_archives g)" for a
        using inv that False by auto
      then show ?thesis by (auto simp: find_None_iff)
    qed
    have written: "archive_range pq k ?start ?stop g = (let rows = archive_rows ?start ?stop g in
     if rows = [] then (g, Inr 0)
     else (g\<lparr>sg_files := AList.update d rows (sg_files g), sg_archives := upsert ar_path merge_archive
         \<lparr>ar_start = ?start, ar_end = ?stop, ar_path = d, ar_rows = length rows, ar_verified = True\<rparr> (sg_archives g)\<rparr>,
       Inr (length rows)))"
      unfolding archive_range_def none option.case by (rule write_day [OF works])
    let ?rows = "archive_rows ?start ?stop g"
    show ?thesis
    proof (cases "?rows = []")
      case True
      have "archive_range pq k ?start ?stop g = (g, Inr 0)" unfolding written Let_def by (simp only: True if_True simp_thms)
      moreover have "\<not> (row_at r div day_ms = d)" if "r \<in> set (joined_rows g)" for r
        using archive_rows_iff [of r ?start ?stop g] True that in_day by auto
      ultimately show ?thesis using that [of g 0] ok by auto
    next
      case nonempty: False
      let ?row = "\<lparr>ar_start = ?start, ar_end = ?stop, ar_path = d, ar_rows = length ?rows, ar_verified = True\<rparr>"
      let ?t = "upsert ar_path merge_archive ?row (sg_archives g)"
      let ?g' = "g\<lparr>sg_files := AList.update d ?rows (sg_files g), sg_archives := ?t\<rparr>"
      have t: "?t = sg_archives g @ [?row]" using False by (simp add: upsert_def)
      have files: "file_of ?g' p = (if p = d then set ?rows else file_of g p)" for p by (rule file_update)
      have no_file: "file_of g d = {}"
      proof -
        have "d \<notin> fst ` set (sg_files g)" using inv False by blast
        then have "map_of (sg_files g) d = None" by (simp add: map_of_eq_None_iff)
        then show ?thesis by (simp add: file_of_def)
      qed
      have joined: "joined_rows ?g' = joined_rows g" by (simp add: joined_rows_def)
      have "archive_ok ?g'"
        unfolding archive_ok_def joined
      proof (intro conjI)
        show "distinct (map ar_path (sg_archives ?g'))" using inv False t by auto
        show "distinct (map sm_id (sg_samples ?g'))" using inv by simp
        show "\<forall>a \<in> set (sg_archives ?g'). ar_verified a \<and> ar_start a = ar_path a * day_ms \<and> ar_end a = (ar_path a + 1) * day_ms \<and>
            (\<forall>r \<in> set (joined_rows g). ar_start a \<le> row_at r \<and> row_at r < ar_end a \<longrightarrow> r \<in> file_of ?g' (ar_path a))"
        proof
          fix a assume "a \<in> set (sg_archives ?g')"
          then consider "a \<in> set (sg_archives g)" | "a = ?row" using t by auto
          then show "ar_verified a \<and> ar_start a = ar_path a * day_ms \<and> ar_end a = (ar_path a + 1) * day_ms \<and>
            (\<forall>r \<in> set (joined_rows g). ar_start a \<le> row_at r \<and> row_at r < ar_end a \<longrightarrow> r \<in> file_of ?g' (ar_path a))"
          proof cases
            case 1
            then have "ar_path a \<noteq> d" using False by auto
            then show ?thesis using inv 1 files by simp
          next
            case 2
            then show ?thesis using files archive_rows_iff by simp
          qed
        qed
        show "fst ` set (sg_files ?g') \<subseteq> ar_path ` set (sg_archives ?g')"
        proof -
          have "fst ` set (sg_files ?g') = insert d (fst ` set (sg_files g))"
            using arg_cong [OF update_keys [of d ?rows "sg_files g"], of set] by auto
          then show ?thesis using inv t by auto
        qed
      qed
      moreover have "known_rows ?g' = known_rows g"
        unfolding known_rows_def joined
      proof (rule known_rows_same)
        show "archived ?g' \<subseteq> set (joined_rows g) \<union> archived g"
          using files archive_rows_iff by (auto simp: archived_def split: if_splits)
        show "archived g \<subseteq> archived ?g'"
      proof
        fix r assume "r \<in> archived g"
        then obtain p where p: "r \<in> file_of g p" by (auto simp: archived_def)
        then have "p \<noteq> d" using no_file by auto
        then have "r \<in> file_of ?g' p" using p files by simp
        then show "r \<in> archived ?g'" unfolding archived_def by blast
      qed
      qed
      moreover have "archive_range pq k ?start ?stop g = (?g', Inr (length ?rows))"
        unfolding written by (simp only: Let_def nonempty if_False)
      ultimately show ?thesis using that [of ?g' "length ?rows"] t by auto
    qed
  qed
qed

lemma archive_days_ok:
  assumes "archivable pq k g" and "last_day < c" and "archive_ok g"
  obtains g' n where "archive_days pq k (c * day_ms) day last_day g = (g', Inr n)" and "archive_ok g'"
    and "sg_samples g' = sg_samples g" and "sg_values g' = sg_values g" and "known_rows g' = known_rows g"
    and "ar_path ` set (sg_archives g) \<subseteq> ar_path ` set (sg_archives g')"
    and "\<And>r. r \<in> set (joined_rows g) \<Longrightarrow> day \<le> row_at r div day_ms \<Longrightarrow> row_at r div day_ms \<le> last_day \<Longrightarrow>
       row_at r div day_ms \<in> ar_path ` set (sg_archives g')"
  using assms
proof (induction "nat (last_day + 1 - day)" arbitrary: day g thesis rule: less_induct)
  case less
  show ?case
  proof (cases "last_day < day")
    case True
    show ?thesis
    proof (rule less.prems(1) [of g 0])
      show "archive_days pq k (c * day_ms) day last_day g = (g, Inr 0)" using True by (simp add: archive_days.simps)
      show "archive_ok g" by (rule less.prems(4))
    qed (use True in auto)
  next
    case False
    have bounds: "min ((day + 1) * day_ms) (c * day_ms) = (day + 1) * day_ms" "day * day_ms < (day + 1) * day_ms"
      using False less.prems(3) by simp_all
    obtain g1 n1 where one: "archive_range pq k (day * day_ms) ((day + 1) * day_ms) g = (g1, Inr n1)" "archive_ok g1"
      "sg_samples g1 = sg_samples g" "sg_values g1 = sg_values g" "known_rows g1 = known_rows g"
      "ar_path ` set (sg_archives g) \<subseteq> ar_path ` set (sg_archives g1)"
      and here: "\<And>r. r \<in> set (joined_rows g) \<Longrightarrow> row_at r div day_ms = day \<Longrightarrow> day \<in> ar_path ` set (sg_archives g1)"
      by (rule archive_day [OF less.prems(4,2), where d = day]) blast
    have smaller: "nat (last_day + 1 - (day + 1)) < nat (last_day + 1 - day)" using False by simp
    have works: "archivable pq k g1" using less.prems(2) archivable_same [OF one(3,4)] by simp
    obtain g2 n2 where two: "archive_days pq k (c * day_ms) (day + 1) last_day g1 = (g2, Inr n2)" "archive_ok g2"
      "sg_samples g2 = sg_samples g1" "sg_values g2 = sg_values g1" "known_rows g2 = known_rows g1"
      "ar_path ` set (sg_archives g1) \<subseteq> ar_path ` set (sg_archives g2)"
      and rest: "\<And>r. r \<in> set (joined_rows g1) \<Longrightarrow> day + 1 \<le> row_at r div day_ms \<Longrightarrow> row_at r div day_ms \<le> last_day \<Longrightarrow>
       row_at r div day_ms \<in> ar_path ` set (sg_archives g2)"
      by (rule less.hyps [OF smaller _ works less.prems(3) one(2)]) blast
    have joined: "joined_rows g1 = joined_rows g" using one(3,4) by (simp add: joined_rows_def)
    show ?thesis
    proof (rule less.prems(1) [of g2 "n1 + n2"])
      show "archive_days pq k (c * day_ms) day last_day g = (g2, Inr (n1 + n2))"
        using False bounds one(1) two(1) by (subst archive_days.simps) (simp add: Let_def storage_then_def)
      show "archive_ok g2" by (rule two(2))
      show "ar_path ` set (sg_archives g) \<subseteq> ar_path ` set (sg_archives g2)" using one(6) two(6) by (rule subset_trans)
      fix r assume r: "r \<in> set (joined_rows g)" "day \<le> row_at r div day_ms" "row_at r div day_ms \<le> last_day"
      show "row_at r div day_ms \<in> ar_path ` set (sg_archives g2)"
      proof (cases "row_at r div day_ms = day")
        case True
        then show ?thesis using here [OF r(1)] two(6) by auto
      next
        case later: False
        then have "day + 1 \<le> row_at r div day_ms" using r(2) by simp
        then show ?thesis using rest [of r] r joined by simp
      qed
    qed (use one two in simp_all)
  qed
qed

text \<open>\<open>archive_before\<close> with a cutoff at a midnight gives every row before it to an archive.\<close>

lemma archive_before_ok:
  assumes ok: "archive_ok g" and works: "archivable pq k g" and installed: "pq_installed pq"
  obtains g' n where "archive_before pq k (c * day_ms) g = (g', Inr n)" and "archive_ok g'"
    and "sg_samples g' = sg_samples g" and "sg_values g' = sg_values g" and "known_rows g' = known_rows g"
    and "\<And>r. r \<in> set (joined_rows g) \<Longrightarrow> row_at r < c * day_ms \<Longrightarrow> row_at r div day_ms \<in> ar_path ` set (sg_archives g')"
proof -
  let ?times = "filter (\<lambda>t. t < c * day_ms) (map sm_at (sg_samples g))"
  have time: "row_at r \<in> set ?times" if "r \<in> set (joined_rows g)" "row_at r < c * day_ms" for r
    using that joined_rows_iff [of "fst r" "snd r" g] by (auto simp: row_at_def)
  show ?thesis
  proof (cases "?times = []")
    case True
    show ?thesis
    proof (rule that [of g 0])
      show "archive_before pq k (c * day_ms) g = (g, Inr 0)" using True installed by (simp add: archive_before_def Let_def)
      fix r assume "r \<in> set (joined_rows g)" "row_at r < c * day_ms"
      then have False using time True by (metis emptyE list.set(1))
      then show "row_at r div day_ms \<in> ar_path ` set (sg_archives g)" ..
    qed (use ok in simp_all)
  next
    case False
    let ?a = "Min (set ?times) div day_ms" and ?b = "Max (set ?times) div day_ms"
    have "Max (set ?times) \<in> set ?times" by (rule Max_in) (simp_all only: False set_empty finite_set not_False_eq_True)
    then have "Max (set ?times) < c * day_ms" by simp
    then have b: "?b < c" by (simp add: div_less_iff_less_mult)
    obtain g' n where days: "archive_days pq k (c * day_ms) ?a ?b g = (g', Inr n)" "archive_ok g'"
      "sg_samples g' = sg_samples g" "sg_values g' = sg_values g" "known_rows g' = known_rows g"
      and every: "\<And>r. r \<in> set (joined_rows g) \<Longrightarrow> ?a \<le> row_at r div day_ms \<Longrightarrow> row_at r div day_ms \<le> ?b \<Longrightarrow>
       row_at r div day_ms \<in> ar_path ` set (sg_archives g')"
      by (rule archive_days_ok [OF works b ok, where day = ?a]) blast
    show ?thesis
    proof (rule that [of g' n])
      show "archive_before pq k (c * day_ms) g = (g', Inr n)" using False days(1) installed by (simp add: archive_before_def Let_def)
      fix r assume r: "r \<in> set (joined_rows g)" "row_at r < c * day_ms"
      have "Min (set ?times) \<le> row_at r" "row_at r \<le> Max (set ?times)" using time [OF r] by simp_all
      then show "row_at r div day_ms \<in> ar_path ` set (sg_archives g')"
        by (intro every [OF r(1)] zdiv_mono1) simp_all
    qed (use days in simp_all)
  qed
qed

section \<open>Deleting what is archived\<close>

definition in_span :: "int \<times> int \<Rightarrow> raw_row \<Rightarrow> bool" where
  "in_span bounds r \<longleftrightarrow> fst bounds \<le> row_at r \<and> row_at r < snd bounds"

lemma prune_range_fields:
  assumes ids: "distinct (map sm_id (sg_samples g))"
  shows "sg_archives (fst (prune_range b g)) = sg_archives g" and "sg_files (fst (prune_range b g)) = sg_files g"
    and "distinct (map sm_id (sg_samples (fst (prune_range b g))))"
    and "set (joined_rows (fst (prune_range b g))) = {r \<in> set (joined_rows g). \<not> in_span b r}"
proof -
  let ?gone = "\<lambda>s. fst b \<le> sm_at s \<and> sm_at s < snd b"
  have samples: "sg_samples (fst (prune_range b g)) = filter (\<lambda>s. \<not> ?gone s) (sg_samples g)"
    and vals: "set (sg_values (fst (prune_range b g))) = {v \<in> set (sg_values g). vl_sample v \<notin> sm_id ` {s \<in> set (sg_samples g). ?gone s}}"
    by (auto simp: prune_range_def Let_def)
  show "sg_archives (fst (prune_range b g)) = sg_archives g" "sg_files (fst (prune_range b g)) = sg_files g"
    by (simp_all add: prune_range_def Let_def)
  show "distinct (map sm_id (sg_samples (fst (prune_range b g))))"
    unfolding samples by (rule distinct_map_filter) (rule ids)
  have keep: "sm_id s \<in> sm_id ` {s \<in> set (sg_samples g). ?gone s} \<longleftrightarrow> ?gone s" if "s \<in> set (sg_samples g)" for s
    using inj_onD [OF conjunct2 [OF ids [unfolded distinct_map]]] that by blast
  show "set (joined_rows (fst (prune_range b g))) = {r \<in> set (joined_rows g). \<not> in_span b r}"
  proof (rule set_eqI)
    fix r :: raw_row
    obtain s v where r: "r = (s, v)" by (cases r)
    show "r \<in> set (joined_rows (fst (prune_range b g))) \<longleftrightarrow> r \<in> {r \<in> set (joined_rows g). \<not> in_span b r}"
      unfolding r joined_rows_iff mem_Collect_eq samples vals in_span_def row_at_def fst_conv set_filter
      by (cases "s \<in> set (sg_samples g) \<and> vl_sample v = sm_id s") (use keep [of s] in auto)
  qed
qed

definition prune_step :: "int \<times> int \<Rightarrow> storage_db \<times> nat \<Rightarrow> storage_db \<times> nat" where
  "prune_step bounds p = (let (g', k) = prune_range bounds (fst p) in (g', snd p + k))"

lemma prune_fold:
  assumes "distinct (map sm_id (sg_samples (fst p)))"
  shows "sg_archives (fst (fold prune_step bs p)) = sg_archives (fst p) \<and> sg_files (fst (fold prune_step bs p)) = sg_files (fst p) \<and>
    distinct (map sm_id (sg_samples (fst (fold prune_step bs p)))) \<and>
    set (joined_rows (fst (fold prune_step bs p))) = {r \<in> set (joined_rows (fst p)). \<forall>b \<in> set bs. \<not> in_span b r}"
  using assms
proof (induction bs arbitrary: p)
  case (Cons b bs)
  have step: "fst (prune_step b p) = fst (prune_range b (fst p))" by (simp add: prune_step_def split: prod.split)
  note one = prune_range_fields [OF Cons.prems, of b]
  show ?case using Cons.IH [of "prune_step b p"] one unfolding step by auto
qed simp

lemma prune_fold_eq:
  "prune_verified_archives cutoff g =
    (let p = fold prune_step (map (\<lambda>a. (ar_start a, ar_end a))
       (sort_key ar_start (filter (\<lambda>a. ar_verified a \<and> ar_end a \<le> cutoff) (sg_archives g)))) (g, 0) in (fst p, Inr (snd p)))"
proof -
  have "(\<lambda>bounds (g, n). let (g', k) = prune_range bounds g in (g', n + k)) = prune_step"
    by (simp add: prune_step_def fun_eq_iff split: prod.split)
  then show ?thesis by (simp add: prune_verified_archives_def Let_def case_prod_beta)
qed

lemma archive_ok_prune:
  assumes ok: "archive_ok g" and same: "sg_archives g' = sg_archives g" "sg_files g' = sg_files g"
    and ids: "distinct (map sm_id (sg_samples g'))" and joined: "set (joined_rows g') \<subseteq> set (joined_rows g)"
  shows "archive_ok g'"
proof -
  have same_file: "file_of g' p = file_of g p" for p using same by (simp add: file_of_def)
  show ?thesis unfolding archive_ok_def same same_file using ok [unfolded archive_ok_def] ids joined by blast
qed

lemma prune_ok:
  assumes ok: "archive_ok g"
  obtains g' n where "prune_verified_archives (c * day_ms) g = (g', Inr n)" and "archive_ok g'" and "known_rows g' = known_rows g"
    and "\<And>r. r \<in> set (joined_rows g') \<Longrightarrow> r \<in> set (joined_rows g)"
    and "\<And>r. r \<in> set (joined_rows g') \<Longrightarrow> row_at r < c * day_ms \<Longrightarrow> row_at r div day_ms \<notin> ar_path ` set (sg_archives g)"
proof -
  note inv = ok [unfolded archive_ok_def]
  let ?as = "sort_key ar_start (filter (\<lambda>a. ar_verified a \<and> ar_end a \<le> c * day_ms) (sg_archives g))"
  let ?bs = "map (\<lambda>a. (ar_start a, ar_end a)) ?as"
  let ?p = "fold prune_step ?bs (g, 0)"
  have fields: "sg_archives (fst ?p) = sg_archives g \<and> sg_files (fst ?p) = sg_files g \<and>
      distinct (map sm_id (sg_samples (fst ?p))) \<and>
      set (joined_rows (fst ?p)) = {r \<in> set (joined_rows g). \<forall>b \<in> set ?bs. \<not> in_span b r}"
    using prune_fold [of "(g, 0)" ?bs] inv by simp
  have kept: "set (joined_rows (fst ?p)) \<subseteq> set (joined_rows g)" using fields by blast
  have archived: "archived (fst ?p) = archived g" using fields by (simp add: archived_def file_of_def)
  have pruned: "r \<in> archived g" if gone: "r \<in> set (joined_rows g)" "b \<in> set ?bs" "in_span b r" for r b
  proof -
    obtain a where "a \<in> set (sg_archives g)" "b = (ar_start a, ar_end a)" using gone(2) by auto
    then have "r \<in> file_of g (ar_path a)" using inv gone(1,3) by (auto simp: in_span_def)
    then show ?thesis unfolding archived_def by blast
  qed
  show ?thesis
  proof (rule that)
    show "prune_verified_archives (c * day_ms) g = (fst ?p, Inr (snd ?p))" unfolding prune_fold_eq by (simp add: Let_def)
    show "archive_ok (fst ?p)" by (rule archive_ok_prune [OF ok]) (use fields kept in simp_all)
    show "known_rows (fst ?p) = known_rows g"
      unfolding known_rows_def archived using fields pruned by blast
    show "r \<in> set (joined_rows g)" if "r \<in> set (joined_rows (fst ?p))" for r using kept that by blast
    show "row_at r div day_ms \<notin> ar_path ` set (sg_archives g)"
      if r: "r \<in> set (joined_rows (fst ?p))" "row_at r < c * day_ms" for r
    proof
      assume "row_at r div day_ms \<in> ar_path ` set (sg_archives g)"
      then obtain a where a: "a \<in> set (sg_archives g)" "ar_path a = row_at r div day_ms" by auto
      then have span: "ar_verified a" "ar_start a = row_at r div day_ms * day_ms" "ar_end a = (row_at r div day_ms + 1) * day_ms"
        using inv by auto
      have "row_at r div day_ms < c" using r(2) by (simp add: div_less_iff_less_mult)
      then have "ar_end a \<le> c * day_ms" unfolding span(3) by simp
      then have "(ar_start a, ar_end a) \<in> set ?bs" using a(1) span(1) by auto
      moreover have "in_span (ar_start a, ar_end a) r" unfolding in_span_def fst_conv snd_conv span(2,3) in_day by simp
      ultimately show False using fields r(1) by blast
    qed
  qed
qed

section \<open>A run of maintenance\<close>

text \<open>The rollups, the state runs, the dictionary and the log do not touch raw rows or archives.\<close>

definition leaves_raw :: "'a storage_call \<Rightarrow> bool" where
  "leaves_raw m \<longleftrightarrow> (\<forall>g. same_raw g (fst (m g)))"

lemma same_raw_joined: "same_raw g g' \<Longrightarrow> joined_rows g' = joined_rows g"
  by (simp add: same_raw_def joined_rows_def)

lemma same_raw_known: "same_raw g g' \<Longrightarrow> known_rows g' = known_rows g"
  unfolding known_rows_def archived_def file_of_def using same_raw_joined [of g g'] by (simp add: same_raw_def)

lemma same_raw_ok:
  assumes same: "same_raw g g'" and ok: "archive_ok g"
  shows "archive_ok g'"
proof (rule archive_ok_prune [OF ok])
  show "sg_archives g' = sg_archives g" "sg_files g' = sg_files g" using same by (simp_all add: same_raw_def)
  show "distinct (map sm_id (sg_samples g'))" using same ok by (simp add: same_raw_def archive_ok_def)
  show "set (joined_rows g') \<subseteq> set (joined_rows g)" by (simp add: same_raw_joined [OF same])
qed

lemma leaves_raw_refresh: "leaves_raw refresh_register_dictionary"
  by (simp add: leaves_raw_def same_raw_def refresh_register_dictionary_def Let_def)

lemma leaves_raw_then:
  assumes "leaves_raw m" and "\<And>x. leaves_raw (f x)"
  shows "leaves_raw (storage_then m f)"
  unfolding leaves_raw_def
proof
  fix g
  obtain g' r where m: "m g = (g', r)" by (cases "m g")
  have "same_raw g g'" using assms(1) m unfolding leaves_raw_def by (metis fst_conv)
  moreover have "same_raw g' (fst (f x g'))" for x using assms(2) unfolding leaves_raw_def by blast
  ultimately show "same_raw g (fst (storage_then m f g))"
    by (cases r) (simp_all add: storage_then_def m same_raw_def)
qed

lemma leaves_raw_rollups: "leaves_raw (build_rollups sql_avg cutoff bucket_seconds)"
proof (cases "bucket_seconds < 1")
  case True
  then show ?thesis by (simp add: leaves_raw_def build_rollups_def same_raw_def)
next
  case False
  have "build_rollups sql_avg cutoff bucket_seconds = storage_then refresh_register_dictionary (\<lambda>_ g.
       let kept = filter (\<lambda>r. \<not> stale_rollup cutoff bucket_seconds r) (sg_rollups g);
           ns = numeric_rollups sql_avg cutoff bucket_seconds g; ts = text_rollups cutoff bucket_seconds g in
       case sbind (checked ru_key (kept @ ns)) (\<lambda>t. checked ru_key (t @ ts)) of
         Inl e \<Rightarrow> (g, Inl StorageIntegrityError)
       | Inr t \<Rightarrow> (g\<lparr>sg_rollups := t\<rparr>, Inr (length ns + length ts)))"
    using False by (simp add: build_rollups_def fun_eq_iff)
  then show ?thesis
    by (simp only:) (rule leaves_raw_then [OF leaves_raw_refresh],
      simp add: leaves_raw_def same_raw_def Let_def split: sum.split)
qed

lemma leaves_raw_runs: "leaves_raw (build_state_runs cutoff)"
  unfolding build_state_runs_def
  by (rule leaves_raw_then [OF leaves_raw_refresh]) (simp add: leaves_raw_def same_raw_def Let_def split: sum.split)

text \<open>What a step keeps, however it ends, and what holds after it when it returns.\<close>

definition lossless :: "parquet \<Rightarrow> nat \<Rightarrow> (storage_db \<Rightarrow> bool) \<Rightarrow> 'a storage_call \<Rightarrow> bool" where
  "lossless pq k Q m \<longleftrightarrow> (\<forall>g. archive_ok g \<longrightarrow> archivable pq k g \<longrightarrow> archive_ok (fst (m g)) \<and> known_rows (fst (m g)) = known_rows g \<and>
     (\<forall>x. snd (m g) = Inr x \<longrightarrow> Q (fst (m g))))"

lemma lossless_then:
  assumes "leaves_raw m" and "\<And>x. lossless pq k Q (f x)"
  shows "lossless pq k Q (storage_then m f)"
  unfolding lossless_def
proof (intro allI impI)
  fix g assume ok: "archive_ok g" and works: "archivable pq k g"
  have raw: "same_raw g (fst (m g))" using assms(1) unfolding leaves_raw_def by blast
  have one: "archive_ok (fst (m g))" "known_rows (fst (m g)) = known_rows g" "archivable pq k (fst (m g))"
    using same_raw_ok [OF raw ok] same_raw_known [OF raw] works archivable_same [of "fst (m g)" g] raw by (simp_all add: same_raw_def)
  have two: "archive_ok (fst (f x (fst (m g)))) \<and> known_rows (fst (f x (fst (m g)))) = known_rows (fst (m g)) \<and>
     (\<forall>y. snd (f x (fst (m g))) = Inr y \<longrightarrow> Q (fst (f x (fst (m g)))))" for x
    using assms(2) [of x] one(1,3) unfolding lossless_def by blast
  show "archive_ok (fst (storage_then m f g)) \<and> known_rows (fst (storage_then m f g)) = known_rows g \<and>
     (\<forall>x. snd (storage_then m f g) = Inr x \<longrightarrow> Q (fst (storage_then m f g)))"
  proof (cases "m g")
    case (Pair g' r)
    then show ?thesis using one two by (cases r) (simp_all add: storage_then_def)
  qed
qed

definition swept :: "int \<Rightarrow> bool \<Rightarrow> storage_db \<Rightarrow> bool" where
  "swept cutoff prune g \<longleftrightarrow> prune \<longrightarrow> (\<forall>r \<in> set (joined_rows g). cutoff \<le> row_at r)"

lemma archive_and_prune:
  assumes finish: "\<And>x g. same_raw g (fst (finish x g)) \<and> (\<exists>y. snd (finish x g) = Inr y)"
  shows "lossless pq k (swept (c * day_ms) prune) (storage_then (archive_before pq k (c * day_ms)) (\<lambda>_.
    storage_then (\<lambda>g. if prune then prune_verified_archives (c * day_ms) g else (g, Inr 0)) finish))"
  (is "lossless _ _ _ ?m")
proof (cases "pq_installed pq")
  case False
  then show ?thesis by (simp add: lossless_def storage_then_def archive_before_def)
next
  case installed: True
  show ?thesis
    unfolding lossless_def
  proof (intro allI impI)
    fix g assume ok: "archive_ok g" and works: "archivable pq k g"
    obtain g1 n1 where one: "archive_before pq k (c * day_ms) g = (g1, Inr n1)" "archive_ok g1" "known_rows g1 = known_rows g"
      "joined_rows g1 = joined_rows g"
      and every: "\<And>r. r \<in> set (joined_rows g) \<Longrightarrow> row_at r < c * day_ms \<Longrightarrow> row_at r div day_ms \<in> ar_path ` set (sg_archives g1)"
      by (rule archive_before_ok [OF ok works installed, where c = c]) (auto simp: joined_rows_def)
    obtain g2 n2 where two: "prune_verified_archives (c * day_ms) g1 = (g2, Inr n2)" "archive_ok g2" "known_rows g2 = known_rows g1"
      and left: "\<And>r. r \<in> set (joined_rows g2) \<Longrightarrow> r \<in> set (joined_rows g1)"
      and gone: "\<And>r. r \<in> set (joined_rows g2) \<Longrightarrow> row_at r < c * day_ms \<Longrightarrow> row_at r div day_ms \<notin> ar_path ` set (sg_archives g1)"
      by (rule prune_ok [OF one(2), where c = c]) blast
    have clean: "swept (c * day_ms) True g2"
      unfolding swept_def using every gone left one(4) by (metis linorder_not_le)
    define h where "h = (if prune then g2 else g1)"
    have h: "archive_ok h" "known_rows h = known_rows g" "swept (c * day_ms) prune h"
      using one two clean by (simp_all add: h_def swept_def)
    have run: "?m g = finish (if prune then n2 else 0) h"
      using one(1) two(1) by (simp add: storage_then_def h_def)
    have same: "same_raw h (fst (?m g))" unfolding run using finish by blast
    show "archive_ok (fst (?m g)) \<and> known_rows (fst (?m g)) = known_rows g \<and>
       (\<forall>x. snd (?m g) = Inr x \<longrightarrow> swept (c * day_ms) prune (fst (?m g)))"
      using same_raw_ok [OF same h(1)] same_raw_known [OF same] same_raw_joined [OF same] h(2,3)
      unfolding swept_def by (simp only: simp_thms) blast
  qed
qed

lemma maintain_lossless:
  assumes aligned: "now_ms = d * day_ms"
  shows "lossless pq (nat (rt_batch_rows rt)) (swept (cutoff_ms now_ms (rt_hot_days rt)) (rt_prune rt)) (maintain sql_avg pq now_ms rt)"
proof -
  let ?hot = "cutoff_ms now_ms (rt_hot_days rt)"
  have hot: "?hot = (d - rt_hot_days rt) * day_ms" by (simp add: cutoff_ms_def aligned algebra_simps)
  have finish: "same_raw g (fst (g\<lparr>sg_maintenance := t\<rparr>, Inr ())) \<and> (\<exists>y. snd (g\<lparr>sg_maintenance := t\<rparr>, Inr ()) = Inr y)" for g t
    by (simp add: same_raw_def)
  let ?log = "\<lambda>g. (g\<lparr>sg_maintenance := sg_maintenance g @ [\<lparr>mr_started = now_ms, mr_finished = None\<rparr>]\<rparr>, Inr ())"
  have log: "leaves_raw ?log" by (simp add: leaves_raw_def same_raw_def)
  have chain: "lossless pq (nat (rt_batch_rows rt)) (swept ?hot (rt_prune rt))
      (storage_then refresh_register_dictionary (\<lambda>_. storage_then ?log (\<lambda>_. storage_then refresh_register_dictionary (\<lambda>_.
       storage_then (build_rollups sql_avg ?hot (rt_warm_bucket_seconds rt)) (\<lambda>_.
       storage_then (build_rollups sql_avg (cutoff_ms now_ms (rt_warm_days rt)) (rt_cool_bucket_seconds rt)) (\<lambda>_.
       storage_then (build_rollups sql_avg (cutoff_ms now_ms (rt_cool_days rt)) (rt_cold_bucket_seconds rt)) (\<lambda>_.
       storage_then (build_state_runs ?hot) (\<lambda>_.
       storage_then (archive_before pq (nat (rt_batch_rows rt)) ?hot) (\<lambda>_.
       storage_then (\<lambda>g. if rt_prune rt then prune_verified_archives ?hot g else (g, Inr 0)) (\<lambda>_ g.
         (g\<lparr>sg_maintenance := (sg_maintenance g)[n := (sg_maintenance g ! n)\<lparr>mr_finished := Some now_ms\<rparr>]\<rparr>, Inr ())))))))))))"
    for n
    unfolding hot
    by (intro lossless_then archive_and_prune leaves_raw_refresh leaves_raw_rollups leaves_raw_runs log)
      (simp add: same_raw_def)
  show ?thesis
  proof (cases "1 \<le> rt_hot_days rt \<and> rt_hot_days rt \<le> rt_warm_days rt \<and> rt_warm_days rt \<le> rt_cool_days rt")
    case False
    then show ?thesis by (simp add: lossless_def maintain_def)
  next
    case True
    show ?thesis
      unfolding lossless_def maintain_def Let_def using chain [unfolded lossless_def] True by simp
  qed
qed

end
