(* ===== verification/Storage_Series.thy ===== *)
theory Storage_Series
  imports Storage_Tiers
begin

text \<open>
  The rollups and state runs that a run of maintenance builds: what each statement of \<open>build_rollups\<close> and
  \<open>build_state_runs\<close> inserts counts every value of its series once, and the inserts do not violate a primary key as
  long as no register of a device has values of both kinds.
\<close>

section \<open>Groups\<close>

lemma keys_groups: "map fst (groups key ps) = remdups (map key ps)"
  by (simp add: groups_def comp_def)

lemma group_of:
  assumes "gr \<in> set (groups key ps)"
  shows "snd gr = filter (\<lambda>p. key p = fst gr) ps" and "snd gr \<noteq> []" and "\<And>p. p \<in> set (snd gr) \<Longrightarrow> key p = fst gr \<and> p \<in> set ps"
proof -
  obtain k where k: "k \<in> key ` set ps" "gr = (k, filter (\<lambda>p. key p = k) ps)" using assms by (auto simp: groups_def)
  then obtain p where "p \<in> set ps" "key p = k" by auto
  then have "p \<in> set (snd gr)" using k(2) by simp
  then show "snd gr \<noteq> []" by auto
  show "snd gr = filter (\<lambda>p. key p = fst gr) ps" using k by simp
  show "\<And>p. p \<in> set (snd gr) \<Longrightarrow> key p = fst gr \<and> p \<in> set ps" using k by auto
qed

lemma sum_filter: "finite S \<Longrightarrow> key ` set ps \<subseteq> S \<Longrightarrow> (\<Sum>k\<in>S. length (filter (\<lambda>p. key p = k) ps)) = length ps"
proof (induction ps)
  case (Cons p ps)
  have "(\<Sum>k\<in>S. length (filter (\<lambda>q. key q = k) (p # ps)))
      = (\<Sum>k\<in>S. (if key p = k then 1 else 0) + length (filter (\<lambda>q. key q = k) ps))"
    by (rule sum.cong) simp_all
  also have "\<dots> = (\<Sum>k\<in>S. if key p = k then 1 else 0) + length ps" using Cons by (simp add: sum.distrib)
  also have "(\<Sum>k\<in>S. if key p = k then 1 else (0::nat)) = 1" using Cons.prems by simp
  finally show ?case by simp
qed simp

text \<open>Every point is in one group.\<close>

lemma length_groups: "sum_list (map (\<lambda>gr. length (snd gr)) (groups key ps)) = length ps"
proof -
  have "sum_list (map (\<lambda>gr. length (snd gr)) (groups key ps))
      = (\<Sum>k\<in>set (remdups (map key ps)). length (filter (\<lambda>p. key p = k) ps))"
    by (subst sum_list_distinct_conv_sum_set [symmetric]) (simp_all add: groups_def comp_def)
  then show ?thesis using sum_filter [of "key ` set ps" key ps] by simp
qed

section \<open>Series with their predecessors\<close>

lemma set_in_order [simp]: "set (in_order ps) = set ps"
  by (simp add: in_order_def)

lemma length_in_order [simp]: "length (in_order ps) = length ps"
  by (simp add: in_order_def)

lemma in_order_empty [simp]: "in_order ps = [] \<longleftrightarrow> ps = []"
  using length_in_order [of ps] by (metis length_0_conv)

definition same_point :: "('v, 'a) point_scheme \<Rightarrow> ('v, 'b) point_scheme \<Rightarrow> bool" where
  "same_point p q \<longleftrightarrow> pt_device p = pt_device q \<and> pt_register p = pt_register q \<and> pt_at p = pt_at q \<and> pt_value p = pt_value q"

lemma length_lag_series [simp]: "length (lag_series ps) = length ps"
  by (simp add: lag_series_def Let_def)

lemma lag_series_point: "p \<in> set (lag_series ps) \<Longrightarrow> \<exists>q \<in> set ps. same_point p q"
  using set_zip_rightD by (fastforce simp: lag_series_def Let_def same_point_def point.extend_def)

lemma length_lagged_points [simp]: "length (lagged_points ps) = length ps"
proof -
  have "length (lagged_points ps) = sum_list (map (\<lambda>gr. length (snd gr)) (groups (\<lambda>p. (pt_device p, pt_register p)) ps))"
    by (simp add: lagged_points_def length_concat comp_def)
  then show ?thesis by (simp only: length_groups)
qed

lemma lagged_point: "p \<in> set (lagged_points ps) \<Longrightarrow> \<exists>q \<in> set ps. same_point p q"
proof -
  assume "p \<in> set (lagged_points ps)"
  then obtain gr where gr: "gr \<in> set (groups (\<lambda>p. (pt_device p, pt_register p)) ps)" "p \<in> set (lag_series (snd gr))"
    by (auto simp: lagged_points_def)
  then obtain q where "q \<in> set (snd gr)" "same_point p q" using lag_series_point by blast
  then show "\<exists>q \<in> set ps. same_point p q" using group_of(3) [OF gr(1)] by blast
qed

section \<open>The dictionary\<close>

definition dictionary_ok :: "(nat \<times> register_name) list \<Rightarrow> bool" where
  "dictionary_ok t \<longleftrightarrow> distinct (map fst t) \<and> distinct (map snd t)"

lemma fold_max_ge: "x \<in> insert n (set xs) \<Longrightarrow> x \<le> fold max xs (n::nat)"
proof -
  assume "x \<in> insert n (set xs)"
  then have "x \<le> Max (insert n (set xs))" by simp
  also have "\<dots> = fold max xs n" using Max.set_eq_fold [of n xs] by simp
  finally show ?thesis .
qed

lemma add_register_ok: "dictionary_ok t \<Longrightarrow> dictionary_ok (add_register r t) \<and> set t \<subseteq> set (add_register r t) \<and> r \<in> snd ` set (add_register r t)"
proof -
  assume ok: "dictionary_ok t"
  have "Suc (fold max (map fst t) 0) \<notin> fst ` set t"
  proof
    assume "Suc (fold max (map fst t) 0) \<in> fst ` set t"
    then have "Suc (fold max (map fst t) 0) \<in> set (map fst t)" by simp
    then have "Suc (fold max (map fst t) 0) \<le> fold max (map fst t) 0" using fold_max_ge by (meson insertI2)
    then show False by simp
  qed
  then show ?thesis using ok by (auto simp: add_register_def dictionary_ok_def)
qed

lemma add_registers_ok:
  "dictionary_ok t \<Longrightarrow> dictionary_ok (fold add_register rs t) \<and> set t \<subseteq> set (fold add_register rs t) \<and>
    set rs \<subseteq> snd ` set (fold add_register rs t)"
proof (induction rs arbitrary: t)
  case (Cons r rs)
  note one = add_register_ok [OF Cons.prems, of r]
  show ?case using Cons.IH [of "add_register r t"] one by auto
qed simp

lemma register_key_iff:
  assumes "dictionary_ok t"
  shows "register_key t v = Some k \<longleftrightarrow> (k, dictionary_register v) \<in> set t"
proof
  assume "register_key t v = Some k"
  then obtain e where e: "List.find (\<lambda>e. snd e = dictionary_register v) t = Some e" "k = fst e" by (auto simp: register_key_def)
  then have "e \<in> set t" "snd e = dictionary_register v" by (auto simp: find_Some_iff)
  then show "(k, dictionary_register v) \<in> set t" using e(2) by (metis prod.collapse)
next
  assume k: "(k, dictionary_register v) \<in> set t"
  then obtain e where e: "List.find (\<lambda>e. snd e = dictionary_register v) t = Some e"
    using find_None_iff [of "\<lambda>e. snd e = dictionary_register v" t] by (metis not_Some_eq snd_conv)
  then have "e \<in> set t" "snd e = dictionary_register v" by (auto simp: find_Some_iff)
  moreover have "inj_on snd (set t)" using assms by (simp add: dictionary_ok_def distinct_map)
  ultimately have "e = (k, dictionary_register v)" using k by (metis inj_onD snd_conv)
  then show "register_key t v = Some k" using e by (simp add: register_key_def)
qed

lemma register_key_same: "dictionary_ok t \<Longrightarrow> register_key t v = Some k \<Longrightarrow> register_key t w = Some k \<Longrightarrow> dictionary_register v = dictionary_register w"
proof -
  assume t: "dictionary_ok t" and keys: "register_key t v = Some k" "register_key t w = Some k"
  then have "(k, dictionary_register v) \<in> set t" "(k, dictionary_register w) \<in> set t" "distinct (map fst t)"
    by (simp_all add: register_key_iff dictionary_ok_def)
  then show "dictionary_register v = dictionary_register w" using eq_key_imp_eq_value by metis
qed

text \<open>A dictionary that was refreshed has every register.\<close>

definition covered_dictionary :: "storage_db \<Rightarrow> bool" where
  "covered_dictionary g \<longleftrightarrow> dictionary_ok (sg_dictionary g) \<and> dictionary_register ` set (sg_values g) \<subseteq> snd ` set (sg_dictionary g)"

lemma refresh_covers:
  assumes "dictionary_ok (sg_dictionary g)"
  obtains t n where "refresh_register_dictionary g = (g\<lparr>sg_dictionary := t\<rparr>, Inr n)" and "covered_dictionary (g\<lparr>sg_dictionary := t\<rparr>)"
  using add_registers_ok [OF assms, of "map dictionary_register (sg_values g)"]
  by (auto simp: refresh_register_dictionary_def covered_dictionary_def Let_def)

lemma length_map_filter: "length (List.map_filter f xs) = length (filter (\<lambda>x. f x \<noteq> None) xs)"
  by (induction xs) (auto simp: List.map_filter_simps split: option.split)

lemma covered_register:
  assumes "covered_dictionary g" and "(s, v) \<in> set (joined_rows g)"
  obtains k where "register_key (sg_dictionary g) v = Some k"
proof -
  have "v \<in> set (sg_values g)" using assms(2) by (auto simp: joined_rows_def)
  then obtain e where "e \<in> set (sg_dictionary g)" "snd e = dictionary_register v"
    using assms(1) unfolding covered_dictionary_def by auto
  then have "(fst e, dictionary_register v) \<in> set (sg_dictionary g)" by (metis prod.collapse)
  then have "register_key (sg_dictionary g) v = Some (fst e)"
    using assms(1) by (simp add: register_key_iff covered_dictionary_def)
  then show thesis by (rule that)
qed

text \<open>A series has a point for every value of its kind before the cutoff.\<close>

definition values_before :: "(stored_value \<Rightarrow> 'v option) \<Rightarrow> int \<Rightarrow> storage_db \<Rightarrow> nat" where
  "values_before value_of cutoff g = length (filter (\<lambda>(s, v). sm_at s < cutoff \<and> value_of v \<noteq> None) (joined_rows g))"

lemma length_series_points:
  assumes "covered_dictionary g"
  shows "length (series_points value_of cutoff g) = values_before value_of cutoff g"
  unfolding series_points_def length_map_filter values_before_def
proof (rule arg_cong [where f = length], rule filter_cong [OF refl])
  fix r assume r: "r \<in> set (joined_rows g)"
  obtain s v where sv: "r = (s, v)" by (cases r)
  obtain k where "register_key (sg_dictionary g) v = Some k" using covered_register [OF assms r [unfolded sv]] .
  then show "((\<lambda>(s, v). case (register_key (sg_dictionary g) v, value_of v) of
       (Some k, Some x) \<Rightarrow>
         (if sm_at s < cutoff
          then Some \<lparr>pt_device = sm_device s, pt_register = k, pt_at = sm_at s, pt_sample = sm_id s, pt_value = x\<rparr> else None)
     | _ \<Rightarrow> None) r \<noteq> None) = (case r of (s, v) \<Rightarrow> sm_at s < cutoff \<and> value_of v \<noteq> None)"
    unfolding sv by (cases "value_of v") auto
qed

lemma series_point:
  assumes "p \<in> set (series_points value_of cutoff g)"
  obtains s v where "(s, v) \<in> set (joined_rows g)" and "pt_device p = sm_device s" and "pt_at p = sm_at s" and "sm_at s < cutoff"
    and "register_key (sg_dictionary g) v = Some (pt_register p)" and "value_of v = Some (pt_value p)"
proof -
  obtain s v where sv: "(s, v) \<in> set (joined_rows g)"
    and p: "(case (register_key (sg_dictionary g) v, value_of v) of
       (Some k, Some x) \<Rightarrow>
         (if sm_at s < cutoff
          then Some \<lparr>pt_device = sm_device s, pt_register = k, pt_at = sm_at s, pt_sample = sm_id s, pt_value = x\<rparr> else None)
     | _ \<Rightarrow> None) = Some p"
    using assms by (auto simp: series_points_def List.map_filter_def)
  then show thesis
    by (intro that [OF sv]) (auto split: option.splits if_splits)
qed

section \<open>Rollups\<close>

text \<open>No register of a device has numeric and text values.\<close>

definition one_kind :: "storage_db \<Rightarrow> bool" where
  "one_kind g \<longleftrightarrow> (\<forall>(s, v) \<in> set (joined_rows g). \<forall>(s', v') \<in> set (joined_rows g).
     sm_device s = sm_device s' \<and> dictionary_register v = dictionary_register v' \<longrightarrow> vl_numeric v = None \<or> vl_text v' = None)"

definition after_epoch :: "storage_db \<Rightarrow> bool" where
  "after_epoch g \<longleftrightarrow> (\<forall>s \<in> set (sg_samples g). 0 \<le> sm_at s)"

lemma bucket_start_le:
  assumes "0 \<le> t" and "0 < b"
  shows "bucket_start b t = t div b * b" and "bucket_start b t \<le> t"
proof -
  have "t sdiv b = t div b" using assms by (cases "t = 0") (simp_all add: signed_divide_int_def)
  then show "bucket_start b t = t div b * b" by (simp add: bucket_start_def)
  then show "bucket_start b t \<le> t" using div_mult_mod_eq [of t b] pos_mod_sign [OF assms(2), of t] by linarith
qed

lemma bucket_before:
  assumes "after_epoch g" and "1 \<le> b" and "p \<in> set (series_points value_of cutoff g)"
  shows "bucket_start (b * 1000) (pt_at p) < cutoff"
proof -
  obtain s v where "(s, v) \<in> set (joined_rows g)" "pt_at p = sm_at s" "sm_at s < cutoff"
    using series_point [OF assms(3)] by blast
  then show ?thesis using assms(1,2) bucket_start_le(2) [of "sm_at s" "b * 1000"]
    by (auto simp: joined_rows_def after_epoch_def)
qed

text \<open>Series of both kinds: a key of one is no key of the other.\<close>

lemma kinds_apart:
  assumes g: "covered_dictionary g" "one_kind g" and p: "p \<in> set (series_points vl_numeric cutoff g)"
    and q: "q \<in> set (series_points vl_text cutoff g)" and same: "pt_device p = pt_device q" "pt_register p = pt_register q"
  shows False
proof -
  obtain s v where sv: "(s, v) \<in> set (joined_rows g)" "pt_device p = sm_device s"
    "register_key (sg_dictionary g) v = Some (pt_register p)" "vl_numeric v = Some (pt_value p)"
    using series_point [OF p] by blast
  obtain s' v' where sv': "(s', v') \<in> set (joined_rows g)" "pt_device q = sm_device s'"
    "register_key (sg_dictionary g) v' = Some (pt_register q)" "vl_text v' = Some (pt_value q)"
    using series_point [OF q] by blast
  have "dictionary_register v = dictionary_register v'"
    using g(1) sv(3) sv'(3) same(2) register_key_same unfolding covered_dictionary_def by metis
  then have "vl_numeric v = None \<or> vl_text v' = None"
    using g(2) sv(1,2) sv'(1,2) same(1) unfolding one_kind_def by fastforce
  then show False using sv(4) sv'(4) by simp
qed

lemma numeric_rollup_fields:
  "ru_key (numeric_rollup avg b gr) = (case fst gr of (d, k, t) \<Rightarrow> (d, k, b, t))"
  "ru_count (numeric_rollup avg b gr) = length (snd gr)" "ru_bucket_seconds (numeric_rollup avg b gr) = b"
  by (auto simp: numeric_rollup_def Let_def split: prod.split)

lemma text_rollup_fields:
  "ru_key (text_rollup b gr) = (case fst gr of (d, k, t) \<Rightarrow> (d, k, b, t))"
  "ru_count (text_rollup b gr) = length (snd gr)" "ru_bucket_seconds (text_rollup b gr) = b"
  by (auto simp: text_rollup_def Let_def split: prod.split)

definition bucket_of :: "int \<Rightarrow> string \<times> nat \<times> int \<Rightarrow> string \<times> nat \<times> int \<times> int" where
  "bucket_of b k = (case k of (d, r, t) \<Rightarrow> (d, r, b, t))"

lemma inj_bucket_of: "bucket_of b k = bucket_of b k' \<longleftrightarrow> k = k'"
  by (cases k; cases k') (simp add: bucket_of_def)

lemma images_apart:
  assumes "\<And>k k'. c k = c k' \<longleftrightarrow> k = k'" and "\<And>p q. p \<in> P \<Longrightarrow> q \<in> Q \<Longrightarrow> f p \<noteq> h q"
  shows "c ` f ` P \<inter> c ` h ` Q = {}"
proof (rule equals0I)
  fix x assume "x \<in> c ` f ` P \<inter> c ` h ` Q"
  then obtain p q where "p \<in> P" "q \<in> Q" "c (f p) = c (h q)" by (elim IntE imageE) simp
  then show False using assms by simp
qed

lemma rollup_keys:
  "map ru_key (numeric_rollups avg cutoff b g) = map (bucket_of b) (remdups (map (bucket_key (b * 1000)) (series_points vl_numeric cutoff g)))"
  "map ru_key (text_rollups cutoff b g) =
    map (bucket_of b) (remdups (map (bucket_key (b * 1000)) (lagged_points (series_points vl_text cutoff g))))"
proof -
  have *: "map ru_key (map f (groups key ps)) = map (bucket_of b) (remdups (map key ps))"
    if "\<And>gr. ru_key (f gr) = bucket_of b (fst gr)" for f :: "_ \<Rightarrow> rollup" and key and ps :: "'a list"
    unfolding keys_groups [symmetric] using that by simp
  show "map ru_key (numeric_rollups avg cutoff b g) =
      map (bucket_of b) (remdups (map (bucket_key (b * 1000)) (series_points vl_numeric cutoff g)))"
    unfolding numeric_rollups_def by (rule *) (simp only: numeric_rollup_fields(1) bucket_of_def)
  show "map ru_key (text_rollups cutoff b g) =
      map (bucket_of b) (remdups (map (bucket_key (b * 1000)) (lagged_points (series_points vl_text cutoff g))))"
    unfolding text_rollups_def by (rule *) (simp only: text_rollup_fields(1) bucket_of_def)
qed

lemma rollup_counts:
  assumes "covered_dictionary g"
  shows "sum_list (map ru_count (numeric_rollups avg cutoff b g)) = values_before vl_numeric cutoff g"
    and "sum_list (map ru_count (text_rollups cutoff b g)) = values_before vl_text cutoff g"
  unfolding numeric_rollups_def text_rollups_def length_series_points [OF assms, symmetric]
  using length_groups [of "bucket_key (b * 1000)" "series_points vl_numeric cutoff g"]
    length_groups [of "bucket_key (b * 1000)" "lagged_points (series_points vl_text cutoff g)"]
  by (simp_all add: numeric_rollup_fields text_rollup_fields comp_def)

text \<open>The rollups of a transaction, and the keys they have.\<close>

lemma new_rollups:
  assumes g: "covered_dictionary g" "one_kind g" "after_epoch g" and b: "1 \<le> b"
  shows "distinct (map ru_key (numeric_rollups avg cutoff b g @ text_rollups cutoff b g))"
    and "r \<in> set (numeric_rollups avg cutoff b g @ text_rollups cutoff b g) \<Longrightarrow> stale_rollup cutoff b r"
proof -
  let ?ns = "series_points vl_numeric cutoff g" and ?ts = "lagged_points (series_points vl_text cutoff g)"
  let ?key = "\<lambda>p. bucket_key (b * 1000) p"
  have text_point: "\<exists>q \<in> set (series_points vl_text cutoff g). same_point p q" if "p \<in> set ?ts" for p
    using that by (rule lagged_point)
  have apart: "?key p \<noteq> ?key q" if pq: "p \<in> set ?ns" "q \<in> set ?ts" for p q
  proof
    assume same: "?key p = ?key q"
    obtain q' where q': "q' \<in> set (series_points vl_text cutoff g)" "same_point q q'" using text_point [OF pq(2)] by blast
    show False
      by (rule kinds_apart [OF g(1,2) pq(1) q'(1)]) (use same q'(2) in \<open>simp_all add: bucket_key_def same_point_def\<close>)
  qed
  have disjoint: "set (map ru_key (numeric_rollups avg cutoff b g)) \<inter> set (map ru_key (text_rollups cutoff b g)) = {}"
    unfolding rollup_keys set_map set_remdups using inj_bucket_of apart by (rule images_apart)
  have "distinct (map (bucket_of b) ks)" if "distinct ks" for ks
    unfolding distinct_map using that by (simp add: inj_on_def inj_bucket_of)
  then have "distinct (map ru_key (numeric_rollups avg cutoff b g))" "distinct (map ru_key (text_rollups cutoff b g))"
    unfolding rollup_keys by (meson distinct_remdups)+
  then show "distinct (map ru_key (numeric_rollups avg cutoff b g @ text_rollups cutoff b g))"
    using disjoint by (simp only: map_append distinct_append)
  assume r: "r \<in> set (numeric_rollups avg cutoff b g @ text_rollups cutoff b g)"
  have start: "bucket_start (b * 1000) (pt_at p) < cutoff" if p: "p \<in> set ?ts" for p
  proof -
    obtain q where "q \<in> set (series_points vl_text cutoff g)" "pt_at p = pt_at q"
      using text_point [OF p] by (auto simp: same_point_def)
    then show ?thesis using bucket_before [OF g(3) b] by metis
  qed
  have "ru_key r \<in> bucket_of b ` (?key ` set ?ns) \<union> bucket_of b ` (bucket_key (b * 1000) ` set ?ts)"
  proof -
    have "ru_key r \<in> set (map ru_key (numeric_rollups avg cutoff b g)) \<union> set (map ru_key (text_rollups cutoff b g))"
      using r by (simp only: set_map set_append image_Un [symmetric]) (rule imageI)
    then show ?thesis unfolding rollup_keys by (simp only: set_map set_remdups)
  qed
  moreover have "ru_bucket_seconds r = b \<and> ru_bucket_start r < cutoff"
    if "ru_key r = bucket_of b (d, k, t)" "t < cutoff" for d k t using that by (simp add: bucket_of_def)
  ultimately show "stale_rollup cutoff b r"
    unfolding stale_rollup_def using start bucket_before [OF g(3) b] by (auto simp: bucket_key_def bucket_of_def)
qed

lemma checked_append:
  assumes "distinct (map key (kept @ ns @ ts))"
  shows "sbind (checked key (kept @ ns)) (\<lambda>t. checked key (t @ ts)) = Inr (kept @ ns @ ts)"
  using assms by (auto simp: checked_def)

lemma build_rollups_ok:
  assumes dict: "dictionary_ok (sg_dictionary g)" and g: "one_kind g" "after_epoch g" and b: "1 \<le> b"
    and keys: "distinct (map ru_key (sg_rollups g))"
  obtains g' n where "build_rollups avg cutoff b g = (g', Inr n)" and "covered_dictionary g'"
    and "sg_samples g' = sg_samples g" and "sg_values g' = sg_values g" and "sg_runs g' = sg_runs g"
    and "distinct (map ru_key (sg_rollups g'))"
    and "filter (\<lambda>r. \<not> stale_rollup cutoff b r) (sg_rollups g') = filter (\<lambda>r. \<not> stale_rollup cutoff b r) (sg_rollups g)"
    and "sum_list (map ru_count (filter (stale_rollup cutoff b) (sg_rollups g'))) =
      values_before vl_numeric cutoff g + values_before vl_text cutoff g"
proof -
  obtain t m where t: "refresh_register_dictionary g = (g\<lparr>sg_dictionary := t\<rparr>, Inr m)" "covered_dictionary (g\<lparr>sg_dictionary := t\<rparr>)"
    using refresh_covers [OF dict] .
  let ?g = "g\<lparr>sg_dictionary := t\<rparr>"
  have same: "joined_rows ?g = joined_rows g" "one_kind ?g" "after_epoch ?g"
    using g by (simp_all add: joined_rows_def one_kind_def after_epoch_def)
  let ?kept = "filter (\<lambda>r. \<not> stale_rollup cutoff b r) (sg_rollups g)"
  let ?ns = "numeric_rollups avg cutoff b ?g" and ?ts = "text_rollups cutoff b ?g"
  note new = new_rollups [OF t(2) same(2,3) b, where avg = avg and cutoff = cutoff]
  have disjoint: "ru_key r \<noteq> ru_key r'" if "r \<in> set ?kept" "r' \<in> set (?ns @ ?ts)" for r r'
  proof
    assume "ru_key r = ru_key r'"
    moreover have "stale_rollup cutoff b r'" by (rule new(2)) (rule that(2))
    ultimately have "stale_rollup cutoff b r" by (simp add: stale_rollup_def)
    then show False using that(1) by simp
  qed
  have dist: "distinct (map ru_key (?kept @ ?ns @ ?ts))"
    unfolding map_append [of ru_key ?kept] distinct_append using distinct_map_filter [OF keys] new(1) disjoint by auto
  have old: "filter (\<lambda>r. \<not> stale_rollup cutoff b r) (?ns @ ?ts) = []" "filter (stale_rollup cutoff b) (?ns @ ?ts) = ?ns @ ?ts"
    using new(2) by (auto simp: filter_empty_conv filter_id_conv)
  show ?thesis
  proof (rule that)
    show "build_rollups avg cutoff b g = (?g\<lparr>sg_rollups := ?kept @ ?ns @ ?ts\<rparr>, Inr (length ?ns + length ?ts))"
      using b checked_append [OF dist] by (simp add: build_rollups_def storage_then_def t(1) Let_def)
    show "covered_dictionary (?g\<lparr>sg_rollups := ?kept @ ?ns @ ?ts\<rparr>)" using t(2) by (simp add: covered_dictionary_def)
    show "distinct (map ru_key (sg_rollups (?g\<lparr>sg_rollups := ?kept @ ?ns @ ?ts\<rparr>)))" using dist by simp
    show "filter (\<lambda>r. \<not> stale_rollup cutoff b r) (sg_rollups (?g\<lparr>sg_rollups := ?kept @ ?ns @ ?ts\<rparr>)) = ?kept"
      using old(1) by simp
    have "filter (stale_rollup cutoff b) ?kept = []" by (simp add: filter_empty_conv)
    then have "filter (stale_rollup cutoff b) (?kept @ ?ns @ ?ts) = ?ns @ ?ts" using old(2) by simp
    then show "sum_list (map ru_count (filter (stale_rollup cutoff b) (sg_rollups (?g\<lparr>sg_rollups := ?kept @ ?ns @ ?ts\<rparr>)))) =
        values_before vl_numeric cutoff g + values_before vl_text cutoff g"
      using rollup_counts [OF t(2)] by (simp add: values_before_def same(1))
  qed simp_all
qed

section \<open>State runs\<close>

lemma runs_of_series:
  assumes series: "\<And>p. p \<in> set ps \<Longrightarrow> pt_device p = d \<and> pt_register p = k \<and> pt_at p < cutoff"
  shows "distinct (map sr_started (series_runs ps))" and "sum_list (map sr_count (series_runs ps)) = length ps"
    and "\<And>r. r \<in> set (series_runs ps) \<Longrightarrow> sr_device r = d \<and> sr_register r = k \<and> sr_started r < cutoff"
proof -
  let ?xs = "lag_series ps"
  let ?grs = "groups (run_id ?xs) ?xs"
  have runs: "series_runs ps = map (\<lambda>gr. run_of (snd gr)) ?grs" by (simp add: series_runs_def Let_def)
  have point: "pt_device p = d \<and> pt_register p = k \<and> pt_at p < cutoff" if p: "p \<in> set ?xs" for p
  proof -
    obtain q where "q \<in> set ps" "same_point p q" using lag_series_point [OF p] by blast
    then show ?thesis using series [of q] by (simp add: same_point_def)
  qed
  have start: "\<exists>p \<in> set (snd gr). sr_started (run_of (snd gr)) = pt_at p" if "gr \<in> set ?grs" for gr
  proof -
    have "set (map pt_at (snd gr)) \<noteq> {}" using group_of(2) [OF that] by simp
    then have "Min (set (map pt_at (snd gr))) \<in> set (map pt_at (snd gr))" by (intro Min_in) simp_all
    then show ?thesis by (auto simp: run_of_def)
  qed
  have same_run: "fst gr = fst gr'"
    if grs: "gr \<in> set ?grs" "gr' \<in> set ?grs" "sr_started (run_of (snd gr)) = sr_started (run_of (snd gr'))" for gr gr'
  proof -
    obtain p p' where p: "p \<in> set (snd gr)" "p' \<in> set (snd gr')" "pt_at p = pt_at p'"
      using start [OF grs(1)] start [OF grs(2)] grs(3) by metis
    then have "run_id ?xs p = run_id ?xs p'" by (simp add: run_id_def)
    then show ?thesis using group_of(3) [OF grs(1) p(1)] group_of(3) [OF grs(2) p(2)] by simp
  qed
  have "distinct (map (\<lambda>gr. sr_started (run_of (snd gr))) ?grs)"
  proof -
    have keys: "distinct (map fst ?grs)" unfolding keys_groups by simp
    then have "distinct ?grs" "inj_on fst (set ?grs)" by (simp_all add: distinct_map)
    moreover have "inj_on (\<lambda>gr. sr_started (run_of (snd gr))) (set ?grs)"
      by (rule inj_onI) (use same_run inj_onD [OF \<open>inj_on fst (set ?grs)\<close>] in blast)
    ultimately show ?thesis by (simp add: distinct_map)
  qed
  then show "distinct (map sr_started (series_runs ps))" by (simp add: runs comp_def)
  show "sum_list (map sr_count (series_runs ps)) = length ps"
    using length_groups [of "run_id ?xs" ?xs] by (simp add: runs comp_def run_of_def)
  fix r assume "r \<in> set (series_runs ps)"
  then obtain gr where gr: "gr \<in> set ?grs" "r = run_of (snd gr)" by (auto simp: runs)
  obtain p where p: "p \<in> set (snd gr)" "sr_started r = pt_at p" using start [OF gr(1)] gr(2) by blast
  have "hd (snd gr) \<in> set (snd gr)" using group_of(2) [OF gr(1)] by simp
  then have "hd (snd gr) \<in> set ?xs" "p \<in> set ?xs" using group_of(3) [OF gr(1)] p(1) by blast+
  then show "sr_device r = d \<and> sr_register r = k \<and> sr_started r < cutoff"
    using point p(2) gr(2) by (simp add: run_of_def)
qed

lemma distinct_concat_groups:
  assumes "\<And>gr. gr \<in> set grs \<Longrightarrow> distinct (map key (f gr))"
    and "\<And>gr r. gr \<in> set grs \<Longrightarrow> r \<in> set (f gr) \<Longrightarrow> series (key r) = fst gr" and "distinct (map fst grs)"
  shows "distinct (map key (concat (map f grs)))"
  using assms
proof (induction grs)
  case (Cons gr grs)
  have "key r \<noteq> key r'" if "r \<in> set (f gr)" "gr' \<in> set grs" "r' \<in> set (f gr')" for r gr' r'
  proof -
    have "series (key r) = fst gr" "series (key r') = fst gr'" using Cons.prems(2) that by (meson list.set_intros)+
    moreover have "fst gr \<noteq> fst gr'" using Cons.prems(3) that(2) by auto
    ultimately show ?thesis by auto
  qed
  moreover have "distinct (map key (concat (map f grs)))" by (rule Cons.IH) (use Cons.prems in simp_all)
  moreover have "distinct (map key (f gr))" using Cons.prems(1) by simp
  ultimately show ?case by fastforce
qed simp

lemma sum_concat: "sum_list (map f (concat xss)) = sum_list (map (\<lambda>xs. sum_list (map f xs)) xss)" for f :: "'a \<Rightarrow> nat"
  by (induction xss) simp_all

lemma new_state_runs:
  shows "distinct (map sr_key (state_runs cutoff g))" and "sum_list (map sr_count (state_runs cutoff g)) = length (series_points vl_text cutoff g)"
    and "\<And>r. r \<in> set (state_runs cutoff g) \<Longrightarrow> sr_started r < cutoff"
proof -
  let ?ps = "series_points vl_text cutoff g"
  let ?grs = "groups (\<lambda>p. (pt_device p, pt_register p)) ?ps"
  have runs: "state_runs cutoff g = concat (map (\<lambda>gr. series_runs (snd gr)) ?grs)" by (simp add: state_runs_def)
  have series: "pt_device p = fst (fst gr) \<and> pt_register p = snd (fst gr) \<and> pt_at p < cutoff"
    if gr: "gr \<in> set ?grs" "p \<in> set (snd gr)" for gr p
  proof -
    have p: "(pt_device p, pt_register p) = fst gr" "p \<in> set ?ps" using group_of(3) [OF gr] by simp_all
    have "pt_at p < cutoff" by (rule series_point [OF p(2)]) simp
    then show ?thesis using p(1) by (metis fst_conv snd_conv)
  qed
  have each: "distinct (map sr_started (series_runs (snd gr)))" "sum_list (map sr_count (series_runs (snd gr))) = length (snd gr)"
    "\<And>r. r \<in> set (series_runs (snd gr)) \<Longrightarrow> sr_device r = fst (fst gr) \<and> sr_register r = snd (fst gr) \<and> sr_started r < cutoff"
    if "gr \<in> set ?grs" for gr
    using runs_of_series [OF series [OF that]] by blast+
  show "distinct (map sr_key (state_runs cutoff g))"
    unfolding runs
  proof (rule distinct_concat_groups [where series = "\<lambda>(d, k, t). (d, k)"])
    show "distinct (map sr_key (series_runs (snd gr)))" if "gr \<in> set ?grs" for gr
      using each(1) [OF that] by (auto simp: distinct_map inj_on_def)
    show "(case sr_key r of (d, k, t) \<Rightarrow> (d, k)) = fst gr" if "gr \<in> set ?grs" "r \<in> set (series_runs (snd gr))" for gr r
      using each(3) [OF that] by simp
    show "distinct (map fst ?grs)" unfolding keys_groups by simp
  qed
  have "sum_list (map sr_count (state_runs cutoff g)) = sum_list (map (\<lambda>gr. length (snd gr)) ?grs)"
    unfolding runs sum_concat map_map comp_def
    by (rule arg_cong [where f = sum_list], rule map_cong [OF refl]) (rule each(2))
  then show "sum_list (map sr_count (state_runs cutoff g)) = length ?ps" by (simp only: length_groups)
  show "sr_started r < cutoff" if "r \<in> set (state_runs cutoff g)" for r
    using that each(3) by (auto simp: runs)
qed

lemma build_state_runs_ok:
  assumes dict: "dictionary_ok (sg_dictionary g)" and keys: "distinct (map sr_key (sg_runs g))"
  obtains g' n where "build_state_runs cutoff g = (g', Inr n)" and "covered_dictionary g'"
    and "sg_rollups g' = sg_rollups g" and "distinct (map sr_key (sg_runs g'))"
    and "filter (\<lambda>r. \<not> sr_started r < cutoff) (sg_runs g') = filter (\<lambda>r. \<not> sr_started r < cutoff) (sg_runs g)"
    and "sum_list (map sr_count (filter (\<lambda>r. sr_started r < cutoff) (sg_runs g'))) = values_before vl_text cutoff g"
proof -
  obtain t m where t: "refresh_register_dictionary g = (g\<lparr>sg_dictionary := t\<rparr>, Inr m)" "covered_dictionary (g\<lparr>sg_dictionary := t\<rparr>)"
    using refresh_covers [OF dict] .
  let ?g = "g\<lparr>sg_dictionary := t\<rparr>" and ?kept = "filter (\<lambda>r. \<not> sr_started r < cutoff) (sg_runs g)"
  let ?new = "state_runs cutoff ?g"
  note new = new_state_runs [where cutoff = cutoff and g = ?g]
  have "distinct (map sr_key (?kept @ ?new))"
    unfolding map_append distinct_append using distinct_map_filter [OF keys] new(1,3) by fastforce
  then have run: "build_state_runs cutoff g = (?g\<lparr>sg_runs := ?kept @ ?new\<rparr>, Inr (length ?new))"
    by (simp add: build_state_runs_def storage_then_def t(1) Let_def checked_def)
  have early: "filter (\<lambda>r. \<not> sr_started r < cutoff) ?new = []" "filter (\<lambda>r. sr_started r < cutoff) ?new = ?new"
    "filter (\<lambda>r. sr_started r < cutoff) ?kept = []"
    using new(3) by (auto simp: filter_empty_conv filter_id_conv)
  show ?thesis
  proof (rule that [OF run])
    show "covered_dictionary (?g\<lparr>sg_runs := ?kept @ ?new\<rparr>)" using t(2) by (simp add: covered_dictionary_def)
    show "distinct (map sr_key (sg_runs (?g\<lparr>sg_runs := ?kept @ ?new\<rparr>)))"
      using \<open>distinct (map sr_key (?kept @ ?new))\<close> by simp
    show "sum_list (map sr_count (filter (\<lambda>r. sr_started r < cutoff) (sg_runs (?g\<lparr>sg_runs := ?kept @ ?new\<rparr>)))) = values_before vl_text cutoff g"
      using early new(2) length_series_points [OF t(2), of vl_text cutoff] by (simp add: values_before_def joined_rows_def)
  qed (use early in simp_all)
qed

end
