(* ===== verification/Storage_Maintenance.thy ===== *)
theory Storage_Maintenance
  imports Storage_Facts Storage_Series
begin

text \<open>
  A whole run of \<open>maintain\<close>: it returns, its three tiers and the state runs count every value once, and no raw row
  is lost, when the cutoffs are midnights; and what happens to the rows and the rollups otherwise.
\<close>

section \<open>The stages\<close>




lemma values_before_same: "sg_samples g' = sg_samples g \<Longrightarrow> sg_values g' = sg_values g \<Longrightarrow> values_before f c g' = values_before f c g"
  by (simp add: values_before_def joined_rows_def)






section \<open>Archives leave the summaries\<close>







section \<open>The whole run\<close>









definition example_sample :: "nat \<Rightarrow> int \<Rightarrow> raw_sample" where
  "example_sample n t = \<lparr>sm_id = n, sm_device = ''d'', sm_at = t, sm_latency = Fin 5, sm_profile = ''tristar-mppt''\<rparr>"

definition example_value :: "nat \<Rightarrow> stored_value" where
  "example_value n = \<lparr>vl_sample = n, vl_name = ''battery_voltage'', vl_address = 24, vl_function = ''input'', vl_raw = [],
     vl_numeric = Some (Fin 12), vl_text = None, vl_unit = Some ''V''\<rparr>"

definition example_storage :: storage_db where
  "example_storage = \<lparr>sg_samples = [example_sample 1 1000, example_sample 2 2000], sg_values = [example_value 1, example_value 2],
     sg_dictionary = [], sg_rollups = [], sg_runs = [], sg_archives = [], sg_files = [], sg_maintenance = []\<rparr>"



definition example_parquet :: parquet where
  "example_parquet = \<lparr>pq_installed = True, pq_prepare = (\<lambda>_. True), pq_table = (\<lambda>_. Some []), pq_open = (\<lambda>_ _. True),
     pq_write = (\<lambda>w s _. w = s), pq_close = (\<lambda>_. True), pq_place = (\<lambda>_. True), pq_intact = (\<lambda>_. Some True)\<rparr>"



section \<open>What is lost\<close>

text \<open>The archive of part of a day is replaced by the file of the rest: the first sample is pruned, then forgotten.\<close>

definition archive_and_sweep :: "int \<Rightarrow> storage_db \<Rightarrow> storage_db" where
  "archive_and_sweep cutoff g = fst (prune_verified_archives cutoff (fst (archive_before example_parquet 10000 cutoff g)))"

definition example_archived :: "nat \<Rightarrow> storage_db" where
  "example_archived n = example_storage\<lparr>sg_samples := [example_sample 2 2000], sg_values := [example_value 2],
     sg_archives := [\<lparr>ar_start = 0, ar_end = 1500, ar_path = 0, ar_rows = 1, ar_verified = True\<rparr>],
     sg_files := [(0, [(example_sample n (int n * 1000), example_value n)])]\<rparr>"

lemma example_sweeps: "archive_and_sweep 1500 example_storage = example_archived 1"
  "archive_and_sweep 2500 (example_archived 1) = example_archived 2"
  by code_simp+

lemma example_known: "known_rows (example_archived n) =
    {(example_sample 2 2000, example_value 2), (example_sample n (int n * 1000), example_value n)}"
  by (auto split: if_splits simp: known_rows_def archived_def file_of_def joined_rows_def example_archived_def example_storage_def
    example_sample_def example_value_def)

lemma partial_day_lost:
  "known_rows (archive_and_sweep 1500 example_storage) = set (joined_rows example_storage)"
  "known_rows (archive_and_sweep 2500 (archive_and_sweep 1500 example_storage)) = {(example_sample 2 2000, example_value 2)}"
  unfolding example_sweeps example_known
  by (auto simp: joined_rows_def example_storage_def example_sample_def example_value_def)

text \<open>Rollups older than the cutoff are rebuilt from raw rows that were pruned: the tiers for old data stay empty.\<close>

lemma swept_rollups_forgotten:
  assumes swept: "swept cutoff True g" and b: "1 \<le> b" and keys: "distinct (map ru_key (sg_rollups g))"
  obtains g' where "build_rollups sql_avg cutoff b g = (g', Inr 0)"
    and "sg_rollups g' = filter (\<lambda>r. \<not> stale_rollup cutoff b r) (sg_rollups g)"
proof -
  obtain g1 n where one: "refresh_register_dictionary g = (g1, Inr n)" by (simp add: refresh_register_dictionary_def Let_def)
  have raw: "same_raw g g1" using leaves_raw_refresh one unfolding leaves_raw_def by (metis fst_conv)
  have rollups: "sg_rollups g1 = sg_rollups g" using one by (auto simp: refresh_register_dictionary_def Let_def)
  have none: "series_points f cutoff g1 = []" for f :: "stored_value \<Rightarrow> 'v option"
  proof (rule ccontr)
    assume "series_points f cutoff g1 \<noteq> []"
    then obtain p where p: "p \<in> set (series_points f cutoff g1)" by (meson hd_in_set)
    show False
      by (rule series_point [OF p]) (use swept same_raw_joined [OF raw] in \<open>fastforce simp: swept_def row_at_def\<close>)
  qed
  have empty: "numeric_rollups sql_avg cutoff b g1 = []" "text_rollups cutoff b g1 = []"
    by (simp_all add: numeric_rollups_def text_rollups_def none groups_def lagged_points_def)
  let ?kept = "filter (\<lambda>r. \<not> stale_rollup cutoff b r) (sg_rollups g)"
  have "distinct (map ru_key ?kept)" using keys by (rule distinct_map_filter)
  then have "build_rollups sql_avg cutoff b g = (g1\<lparr>sg_rollups := ?kept\<rparr>, Inr 0)"
    using b by (simp add: build_rollups_def storage_then_def one Let_def empty rollups checked_def)
  then show thesis by (rule that) simp
qed

text \<open>A register with a number and a text in one bucket breaks the primary key, and maintenance stops.\<close>

lemma two_kinds_fail:
  "snd (build_rollups hd 5000 10 (example_storage\<lparr>sg_values := [example_value 1, (example_value 2)\<lparr>vl_numeric := None, vl_text := Some ''off''\<rparr>]\<rparr>))
    = Inl StorageIntegrityError"
  by code_simp

end
