(* ===== verification/Spec2Isabelle.thy ===== *)
theory Spec2Isabelle
  imports Catalog_Properties Intelligence_Facts Lifecycle Polling_Properties Watcher_Facts Startup Scan_Facts Power_Facts Registry_Properties Storage_Maintenance
begin

text \<open>
  A verification development for the Morningstar Modbus API (\<open>src/src/morningstar_modbus/\<close>): a
  read-only service that finds Morningstar power controllers on serial lines and networks, reads them over
  Modbus RTU and Modbus TCP, decodes their registers with declarative catalogs, and keeps and judges the telemetry.

  How the program fits together.  \<open>protocol/codec.py\<close> builds request PDUs and parses responses;
  \<open>transports/modbus.py\<close> frames them for TCP (MBAP header, transaction numbers) or RTU (unit
  address, CRC) and logs every exchange.  A \<open>CatalogProfile\<close> (\<open>catalog/profile.py\<close>), chosen by
  \<open>catalog/registry.py\<close> from the device's identity or by probing, reads the blocks of its
  specification (\<open>catalog/families/\<close>) through such a client, decodes words with
  \<open>catalog/scaling.py\<close> under the firmware gates of \<open>catalog/compatibility.py\<close>, and adds the derived
  values of \<open>catalog/derived.py\<close>; \<open>intelligence/\<close> says what is known of the device.  The watcher
  (\<open>runtime/watcher.py\<close>) runs discovery (\<open>discovery/service.py\<close>), registers what it found
  (\<open>controllers/inventory.py\<close>, \<open>controllers/scope.py\<close>), and polls one endpoint per controller, with the retry
  policy of \<open>controllers/lifecycle.py\<close> and the interval of \<open>polling/\<close>.  Samples are persisted and
  aggregated (\<open>persistence/storage_v2.py\<close>), summarised per system (\<open>systems/\<close>), and turned into incidents
  (\<open>intelligence/incidents.py\<close>, \<open>persistence/incidents.py\<close>).

  \<^bold>\<open>Python and SQLite.\<close>  \<open>Py_Prelude\<close>: exceptions as values of \<open>py_error\<close> in the result type \<open>'a res\<close>;
  \<open>Py_Float\<close>, \<open>Py_Order\<close>, \<open>Py_Sum\<close>, \<open>Py_Median\<close>: doubles as rationals with explicit rounding, infinities and
  NaN, their order, sums and medians; \<open>Py_Text\<close>, \<open>Py_Format\<close>, \<open>Py_Repr\<close>: the string operations the sources use;
  \<open>Py_Time\<close>: instants.  \<open>Sql_Table\<close>: a table as the list of its rows, with unique keys, upserts and constraint
  errors as values.

  \<^bold>\<open>Protocol and transport.\<close>  \<open>Modbus_Crc\<close>, \<open>Modbus_Codec\<close>: \<open>protocol/codec.py\<close>, with the checksum as the
  remainder of a polynomial division.  \<open>Domain_Models\<close>: \<open>domain/models.py\<close>.  \<open>Modbus_Transport\<close>, \<open>Transport_Tcp\<close>,
  \<open>Transport_Rtu\<close>: the clients of \<open>transports/modbus.py\<close>; one request is one step of the client state, a session a
  sequence of them, and the peer (the bytes a stream delivers and the exception that ends it, the schedule of a serial
  driver) is a parameter.

  \<^bold>\<open>Catalog.\<close>  \<open>Catalog_Types\<close>, \<open>Catalog_Common\<close>, \<open>Families_*\<close>: the catalog records and the register tables of
  the twelve product families, definition by definition.  \<open>Catalog_Scaling\<close>, \<open>Scaling_Facts\<close>: the register decoders
  and what they compute.  \<open>Catalog_Compat\<close>: firmware versions and gates.  \<open>Catalog_Registry\<close>, \<open>Catalog_Selection\<close>: the
  profile registry and the choice of a profile.  \<open>Catalog_Profile\<close>: a profile's cache and \<open>read_metadata\<close>, \<open>poll\<close>,
  \<open>detect_profile\<close> over a reader; \<open>Catalog_Facts\<close> says when a specification is well formed, \<open>Catalog_Checked\<close>
  evaluates that for every profile, \<open>Profile_Facts\<close> holds the lemmas and the locale \<open>read_only_reader\<close>, which
  \<open>Profile_Readers\<close> interprets on both clients, and \<open>Catalog_Properties\<close> the properties.

  \<^bold>\<open>Runtime.\<close>  \<open>Intelligence\<close>, \<open>Intelligence_Facts\<close>: capabilities, identity, confidence and validation.
  \<open>Lifecycle\<close>: the state machine of one device and its backoff.  \<open>Polling\<close>, \<open>Polling_Facts\<close>,
  \<open>Polling_Properties\<close>: the calibration of the interval against an abstract search, the benchmark and the rate limit on
  persistence.  \<open>Config_Settings\<close>: the validation of the configuration.  \<open>Discovery\<close>, \<open>Discovery_Facts\<close>: the endpoints
  probed and what a discovery returns.  \<open>Watcher\<close>, \<open>Watcher_Facts\<close>, \<open>Startup\<close>: the maps of the watcher, a refresh, a
  poll, and start-up from a validated configuration.

  \<^bold>\<open>Incidents and systems.\<close>  \<open>Incident_Store\<close>, \<open>Incident_Facts\<close>: the table of incidents and a scan's
  reconciliation with it, refined to a map on the rows.  \<open>Detectors\<close>, \<open>Detector_Facts\<close>, \<open>Scan_Facts\<close>: the detectors,
  their contract as a locale, and a whole scan.  \<open>System_Metrics\<close>, \<open>System_Data\<close>, \<open>System_Power\<close>, \<open>System_Facts\<close>,
  \<open>Power_Facts\<close>: metrics, health, power flow and energy ledger of a system.

  \<^bold>\<open>Controllers.\<close>  \<open>Inventory\<close>, \<open>Registry\<close>: the tables of controllers, devices, connections and immutable
  identifiers, every statement with its constraints.  \<open>Registry_Facts\<close>, \<open>Registry_Steps\<close>, \<open>Registry_Sync\<close>,
  \<open>Registry_Serials\<close>, \<open>Registry_Properties\<close>: the invariants and the contract of every call.

  \<^bold>\<open>Storage.\<close>  \<open>Storage_Tiers\<close>: rollups, state runs, archives and pruning; \<open>Storage_Facts\<close>, \<open>Storage_Series\<close>,
  \<open>Storage_Maintenance\<close>: what a run of maintenance counts, keeps and loses.

  \<^bold>\<open>Bounds and fuel.\<close>  The read loop of the serial driver ends by the deadline of its schedule; the retry exponent
  overflows at the 1025th failure, as the double does; the sums of the calibration are bounded for at most 4096 samples and
  counters up to \<open>2 ^ 40\<close>; medians and sums of readings are exact or finite for values below \<open>2 ^ 1023\<close>.  Each bound is a
  hypothesis of the theorem that needs it.

  \<^bold>\<open>Not modelled.\<close>  The HTTP surface and the command line, whose meaning lies in their frameworks; capture files, JSON
  export, logging and the SNMP listener (input and output); the statistics of \<open>forecasting/\<close>, the SQL of \<open>history/\<close>
  and of the telemetry and performance stores, and the diagrams of \<open>systems/components.py\<close>, which have no part in
  acquiring, identifying or judging a controller here; the tools under \<open>maintenance/\<close> that compare vendor documents.
  Concurrency within one client is excluded by its lock; the clock, hashes, random identifiers, the parser of timestamps,
  SQLite's \<open>AVG\<close>, pyarrow and the file system are parameters of the definitions that use them.
\<close>

end
